(* ===== verification/Patchouli_Prelude.thy ===== *)
theory Patchouli_Prelude
  imports Main "HOL-Library.List_Lexorder" "HOL-Library.Char_ord" "HOL-Library.AList"
    "HOL-Library.Code_Target_Nat"
begin

text \<open>
  Shared vocabulary of the development.

  \<^item> \<open>Ok\<close>/\<open>Err\<close> and \<open>bindR\<close> model Rust's \<open>Result\<close> and the \<open>?\<close> operator;
    \<open>foldR\<close> is a \<open>for\<close> loop whose body may leave with \<open>?\<close>, \<open>mapR\<close> is
    \<open>.map(..).collect::<Result<Vec<_>, _>>()\<close>.
  \<^item> \<open>u64\<close> and \<open>i64\<close> quantities are natural numbers together with the checked and
    saturating operations the code uses.
  \<^item> A SQL table with a primary key is an association list from the key to the other columns;
    \<open>tbl_insert\<close> fails on a duplicate key, \<open>tbl_ignore\<close> is \<open>INSERT OR IGNORE\<close>,
    \<open>tbl_upsert\<close> is \<open>INSERT .. ON CONFLICT DO UPDATE\<close>, \<open>tbl_delete\<close> and \<open>tbl_update\<close> are
    \<open>DELETE .. WHERE\<close> and \<open>UPDATE .. WHERE\<close>.

  Strings are byte strings ordered lexicographically, which is both Rust's order on \<open>String\<close> and
  SQLite's BINARY collation of UTF-8 text.
\<close>

named_theorems res_simps \<open>rewriting of the Result operators\<close>
named_theorems tbl_simps \<open>rewriting of table operations under lookups\<close>

section \<open>Result\<close>

abbreviation Ok :: "'a \<Rightarrow> 'e + 'a" where "Ok \<equiv> Inr"
abbreviation Err :: "'e \<Rightarrow> 'e + 'a" where "Err \<equiv> Inl"

definition bindR :: "'e + 'a \<Rightarrow> ('a \<Rightarrow> 'e + 'b) \<Rightarrow> 'e + 'b" where
  "bindR m f = (case m of Inl e \<Rightarrow> Inl e | Inr x \<Rightarrow> f x)"

definition guardR :: "bool \<Rightarrow> 'e \<Rightarrow> 'e + unit" where
  "guardR b e = (if b then Ok () else Err e)"

definition ok_or :: "'a option \<Rightarrow> 'e \<Rightarrow> 'e + 'a" where
  "ok_or x e = (case x of None \<Rightarrow> Err e | Some y \<Rightarrow> Ok y)"

definition map_err :: "('e \<Rightarrow> 'f) \<Rightarrow> 'e + 'a \<Rightarrow> 'f + 'a" where
  "map_err f m = (case m of Inl e \<Rightarrow> Inl (f e) | Inr x \<Rightarrow> Inr x)"

lemma bindR_Inl [simp]: "bindR (Inl e) f = Inl e"
  and bindR_Inr [simp]: "bindR (Inr x) f = f x"
  by (simp_all add: bindR_def)

lemma bindR_eq_Inr [res_simps]: "bindR m f = Inr y \<longleftrightarrow> (\<exists>x. m = Inr x \<and> f x = Inr y)"
  by (cases m) auto

lemma bindR_eq_Inl [res_simps]:
  "bindR m f = Inl e \<longleftrightarrow> m = Inl e \<or> (\<exists>x. m = Inr x \<and> f x = Inl e)"
  by (cases m) auto

lemma bindR_assoc: "bindR (bindR m f) g = bindR m (\<lambda>x. bindR (f x) g)"
  by (cases m) auto

lemma guardR_eq_Inr [simp]: "guardR b e = Inr u \<longleftrightarrow> b"
  and guardR_eq_Inl [simp]: "guardR b e = Inl f \<longleftrightarrow> \<not> b \<and> f = e"
  by (auto simp: guardR_def)

lemma guardR_True [simp]: "guardR True e = Inr ()"
  and guardR_False [simp]: "guardR False e = Inl e"
  by (simp_all add: guardR_def)

lemma ok_or_eq_Inr [simp]: "ok_or x e = Inr y \<longleftrightarrow> x = Some y"
  and ok_or_eq_Inl [simp]: "ok_or x e = Inl f \<longleftrightarrow> x = None \<and> f = e"
  by (auto simp: ok_or_def split: option.splits)

lemma ok_or_simps [simp]: "ok_or None e = Inl e" "ok_or (Some y) e = Inr y"
  by (simp_all add: ok_or_def)

lemma map_err_eq_Inr [simp]: "map_err f m = Inr y \<longleftrightarrow> m = Inr y"
  and map_err_eq_Inl: "map_err f m = Inl e \<longleftrightarrow> (\<exists>e'. m = Inl e' \<and> e = f e')"
  by (auto simp: map_err_def split: sum.splits)

lemma map_err_simps [simp]: "map_err f (Inr x) = Inr x" "map_err f (Inl e) = Inl (f e)"
  by (simp_all add: map_err_def)

fun foldR :: "('a \<Rightarrow> 's \<Rightarrow> 'e + 's) \<Rightarrow> 'a list \<Rightarrow> 's \<Rightarrow> 'e + 's" where
  "foldR f [] s = Ok s"
| "foldR f (x # xs) s = bindR (f x s) (foldR f xs)"

fun mapR :: "('a \<Rightarrow> 'e + 'b) \<Rightarrow> 'a list \<Rightarrow> 'e + 'b list" where
  "mapR f [] = Ok []"
| "mapR f (x # xs) = bindR (f x) (\<lambda>y. bindR (mapR f xs) (\<lambda>ys. Ok (y # ys)))"

text \<open>A loop keeps what every iteration keeps, and relates its ends by any reflexive and transitive
  relation that relates the ends of every iteration.\<close>

lemma foldR_invariant:
  assumes "foldR f xs s = Inr s'" and "P s"
    and "\<And>x s s'. x \<in> set xs \<Longrightarrow> P s \<Longrightarrow> f x s = Inr s' \<Longrightarrow> P s'"
  shows "P s'"
  using assms
proof (induction xs arbitrary: s)
  case (Cons x xs)
  from Cons.prems(1) obtain t where t: "f x s = Inr t" "foldR f xs t = Inr s'"
    by (auto simp: bindR_eq_Inr)
  with Cons.prems(2,3) have "P t" by auto
  with t(2) show ?case using Cons.prems(3) by (intro Cons.IH) auto
qed simp

lemma foldR_relates:
  assumes "foldR f xs s = Inr s'"
    and "\<And>s. R s s" and "\<And>a b c. R a b \<Longrightarrow> R b c \<Longrightarrow> R a c"
    and "\<And>x s s'. x \<in> set xs \<Longrightarrow> f x s = Inr s' \<Longrightarrow> R s s'"
  shows "R s s'"
  using assms(1,4)
proof (induction xs arbitrary: s)
  case Nil
  then show ?case using assms(2) by simp
next
  case (Cons x xs)
  from Cons.prems(1) obtain t where t: "f x s = Inr t" "foldR f xs t = Inr s'"
    by (auto simp: bindR_eq_Inr)
  then have "R s t" "R t s'" using Cons by auto
  then show ?case by (rule assms(3))
qed

lemma foldR_append: "foldR f (xs @ ys) s = bindR (foldR f xs s) (foldR f ys)"
proof (induction xs arbitrary: s)
  case (Cons x xs)
  then show ?case by (cases "f x s") auto
qed simp

lemma mapR_eq_Inr: "mapR f xs = Inr ys \<longleftrightarrow> list_all2 (\<lambda>x y. f x = Inr y) xs ys"
proof (induction xs arbitrary: ys)
  case (Cons x xs)
  then show ?case by (cases ys) (auto simp: bindR_eq_Inr)
qed auto

lemma mapR_Inr_map: "(\<And>x. x \<in> set xs \<Longrightarrow> f x = Inr (g x)) \<Longrightarrow> mapR f xs = Inr (map g xs)"
  by (induction xs) auto

section \<open>Machine integers\<close>

definition u64_max :: nat where "u64_max = 18446744073709551615"
definition i64_max :: nat where "i64_max = 9223372036854775807"

definition checked_add_u64 :: "nat \<Rightarrow> nat \<Rightarrow> nat option" where
  "checked_add_u64 a b = (if a + b \<le> u64_max then Some (a + b) else None)"

definition checked_mul_u64 :: "nat \<Rightarrow> nat \<Rightarrow> nat option" where
  "checked_mul_u64 a b = (if a * b \<le> u64_max then Some (a * b) else None)"

definition saturating_add_u64 :: "nat \<Rightarrow> nat \<Rightarrow> nat" where
  "saturating_add_u64 a b = min (a + b) u64_max"

definition saturating_sub_u64 :: "nat \<Rightarrow> nat \<Rightarrow> nat" where
  "saturating_sub_u64 a b = a - b"

lemma checked_add_u64_Some: "checked_add_u64 a b = Some c \<longleftrightarrow> c = a + b \<and> a + b \<le> u64_max"
  by (auto simp: checked_add_u64_def)

lemma i64_max_less_u64_max: "i64_max < u64_max"
  by (simp add: i64_max_def u64_max_def)

section \<open>Ordered collections\<close>

text \<open>\<open>xs.into_iter().collect::<BTreeSet<_>>()\<close> read back in iteration order.\<close>

definition btree_set :: "'a::linorder list \<Rightarrow> 'a list" where
  "btree_set xs = sort (remdups xs)"

lemma btree_set_props [simp]:
  "set (btree_set xs) = set xs" "distinct (btree_set xs)" "sorted (btree_set xs)"
  by (simp_all add: btree_set_def)

lemma btree_set_eq_iff: "btree_set xs = btree_set ys \<longleftrightarrow> set xs = set ys"
  by (metis btree_set_props sorted_distinct_set_unique)

text \<open>\<open>Vec::sort\<close> followed by \<open>Vec::dedup\<close>, which drops equal neighbours.\<close>

definition sort_dedup :: "'a::linorder list \<Rightarrow> 'a list" where
  "sort_dedup xs = remdups_adj (sort xs)"

lemma remdups_adj_sorted_distinct: "sorted xs \<Longrightarrow> distinct (remdups_adj xs)"
proof (induction xs rule: remdups_adj.induct)
  case (3 x y xs)
  then show ?case by (cases "x = y") (auto dest: order.antisym)
qed simp_all

lemma sort_dedup_props [simp]:
  "set (sort_dedup xs) = set xs" "distinct (sort_dedup xs)" "sorted (sort_dedup xs)"
  by (simp_all add: sort_dedup_def remdups_adj_sorted_distinct sorted_remdups_adj)

lemma length_sort_dedup_iff: "length (sort_dedup xs) = length xs \<longleftrightarrow> distinct xs"
  by (metis card_distinct distinct_card sort_dedup_props(1,2))

lemma sort_dedup_distinct: "distinct xs \<Longrightarrow> sort_dedup xs = sort xs"
  by (simp add: sort_dedup_def remdups_adj_distinct)

lemma sort_sort [simp]: "sort (sort xs) = sort xs"
  by (rule sorted_sort_id) simp

lemma sort_eq_Nil [simp]: "sort xs = [] \<longleftrightarrow> xs = []"
  by (metis length_0_conv length_sort)

lemma sort_eq_iff_set:
  "distinct xs \<Longrightarrow> distinct ys \<Longrightarrow> sort xs = sort ys \<longleftrightarrow> set xs = set ys"
  by (metis distinct_sort set_sort sorted_sort sorted_distinct_set_unique)

section \<open>Tables\<close>

type_synonym ('k, 'r) table = "('k \<times> 'r) list"

definition tbl_keys :: "('k, 'r) table \<Rightarrow> 'k set" where
  "tbl_keys t = fst ` set t"

definition tbl_wf :: "('k, 'r) table \<Rightarrow> bool" where
  "tbl_wf t \<longleftrightarrow> distinct (map fst t)"

definition tbl_insert :: "'k \<Rightarrow> 'r \<Rightarrow> ('k, 'r) table \<Rightarrow> ('k, 'r) table option" where
  "tbl_insert k r t = (if map_of t k = None then Some (t @ [(k, r)]) else None)"

definition tbl_ignore :: "'k \<Rightarrow> 'r \<Rightarrow> ('k, 'r) table \<Rightarrow> ('k, 'r) table" where
  "tbl_ignore k r t = (if map_of t k = None then t @ [(k, r)] else t)"

definition tbl_upsert :: "'k \<Rightarrow> 'r \<Rightarrow> ('r \<Rightarrow> 'r) \<Rightarrow> ('k, 'r) table \<Rightarrow> ('k, 'r) table" where
  "tbl_upsert k r f t =
     (case map_of t k of None \<Rightarrow> t @ [(k, r)] | Some old \<Rightarrow> AList.update k (f old) t)"

definition tbl_delete :: "('k \<Rightarrow> 'r \<Rightarrow> bool) \<Rightarrow> ('k, 'r) table \<Rightarrow> ('k, 'r) table" where
  "tbl_delete P t = filter (\<lambda>(k, r). \<not> P k r) t"

definition tbl_update :: "('k \<Rightarrow> 'r \<Rightarrow> bool) \<Rightarrow> ('r \<Rightarrow> 'r) \<Rightarrow> ('k, 'r) table \<Rightarrow> ('k, 'r) table" where
  "tbl_update P f t = map (\<lambda>(k, r). (k, if P k r then f r else r)) t"

definition tbl_select :: "('k \<Rightarrow> 'r \<Rightarrow> bool) \<Rightarrow> ('k, 'r) table \<Rightarrow> 'k list" where
  "tbl_select P t = map fst (filter (\<lambda>(k, r). P k r) t)"

lemma map_of_snoc [tbl_simps]:
  "map_of t k = None \<Longrightarrow> map_of (t @ [(k, r)]) = (map_of t)(k \<mapsto> r)"
  by (rule ext) (auto simp: map_add_def split: option.splits)

lemma tbl_insert_eq_Some [tbl_simps]:
  "tbl_insert k r t = Some t' \<longleftrightarrow> map_of t k = None \<and> t' = t @ [(k, r)]"
  by (auto simp: tbl_insert_def)

lemma map_of_tbl_insert:
  "tbl_insert k r t = Some t' \<Longrightarrow> map_of t' = (map_of t)(k \<mapsto> r)"
  by (auto simp: tbl_insert_eq_Some map_of_snoc simp del: map_of_append)

lemma map_of_tbl_ignore [tbl_simps]:
  "map_of (tbl_ignore k r t) =
     (if map_of t k = None then (map_of t)(k \<mapsto> r) else map_of t)"
  by (auto simp: tbl_ignore_def map_of_snoc simp del: map_of_append)

lemma map_of_tbl_upsert [tbl_simps]:
  "map_of (tbl_upsert k r f t) =
     (map_of t)(k \<mapsto> (case map_of t k of None \<Rightarrow> r | Some old \<Rightarrow> f old))"
  by (auto simp: tbl_upsert_def update_conv' map_of_snoc simp del: map_of_append
      split: option.splits)

lemma map_of_tbl_delete [tbl_simps]:
  "tbl_wf t \<Longrightarrow> map_of (tbl_delete P t) k =
     (case map_of t k of None \<Rightarrow> None | Some r \<Rightarrow> if P k r then None else Some r)"
proof (induction t)
  case (Cons a t)
  then have "fst a \<notin> fst ` set t" "tbl_wf t" by (auto simp: tbl_wf_def)
  then have none: "map_of t (fst a) = None" by (simp add: map_of_eq_None_iff)
  show ?case
  proof (cases "k = fst a")
    case True
    with Cons.IH[OF \<open>tbl_wf t\<close>] none show ?thesis
      by (cases a) (auto simp: tbl_delete_def)
  next
    case False
    with Cons.IH[OF \<open>tbl_wf t\<close>] show ?thesis by (cases a) (auto simp: tbl_delete_def)
  qed
qed (simp add: tbl_delete_def)

lemma map_of_tbl_update [tbl_simps]:
  "map_of (tbl_update P f t) k = map_option (\<lambda>r. if P k r then f r else r) (map_of t k)"
  by (induction t) (auto simp: tbl_update_def)

lemma tbl_update_idle: "(\<And>k r. (k, r) \<in> set t \<Longrightarrow> \<not> P k r) \<Longrightarrow> tbl_update P f t = t"
  unfolding tbl_update_def by (rule map_idI) auto

lemma tbl_update_append: "tbl_update P f (t @ u) = tbl_update P f t @ tbl_update P f u"
  by (simp add: tbl_update_def)

lemma tbl_delete_idle: "(\<And>k r. (k, r) \<in> set t \<Longrightarrow> \<not> P k r) \<Longrightarrow> tbl_delete P t = t"
  unfolding tbl_delete_def by (rule filter_True) auto

lemma tbl_wf_Nil [simp]: "tbl_wf []"
  by (simp add: tbl_wf_def)

lemma tbl_wf_append_single:
  "tbl_wf (t @ [(k, r)]) \<longleftrightarrow> tbl_wf t \<and> map_of t k = None"
  by (auto simp: tbl_wf_def map_of_eq_None_iff)

lemma tbl_wf_insert: "tbl_insert k r t = Some t' \<Longrightarrow> tbl_wf t \<Longrightarrow> tbl_wf t'"
  by (auto simp: tbl_simps tbl_wf_append_single)

lemma tbl_wf_ignore [intro]: "tbl_wf t \<Longrightarrow> tbl_wf (tbl_ignore k r t)"
  by (simp add: tbl_ignore_def tbl_wf_append_single)

lemma tbl_wf_upsert [intro]: "tbl_wf t \<Longrightarrow> tbl_wf (tbl_upsert k r f t)"
  by (auto simp: tbl_upsert_def tbl_wf_append_single split: option.splits)
     (auto simp: tbl_wf_def intro: distinct_update)

lemma tbl_wf_delete [intro]: "tbl_wf t \<Longrightarrow> tbl_wf (tbl_delete P t)"
  by (auto simp: tbl_wf_def tbl_delete_def intro: distinct_map_filter)

lemma tbl_wf_update [intro]: "tbl_wf t \<Longrightarrow> tbl_wf (tbl_update P f t)"
  by (simp add: tbl_wf_def tbl_update_def comp_def case_prod_beta)

lemmas tbl_wf_intros = tbl_wf_insert tbl_wf_ignore tbl_wf_upsert tbl_wf_delete tbl_wf_update

lemma map_of_wf_iff: "tbl_wf t \<Longrightarrow> map_of t k = Some r \<longleftrightarrow> (k, r) \<in> set t"
  by (simp add: tbl_wf_def)

lemma set_tbl_select [simp]: "set (tbl_select P t) = {k. \<exists>r. (k, r) \<in> set t \<and> P k r}"
  by (force simp: tbl_select_def)

lemma tbl_select_append [simp]: "tbl_select P (t @ u) = tbl_select P t @ tbl_select P u"
  by (simp add: tbl_select_def)

lemma tbl_select_delete:
  "tbl_select P (tbl_delete Q t) = tbl_select (\<lambda>k r. P k r \<and> \<not> Q k r) t"
  by (auto simp: tbl_select_def tbl_delete_def intro!: arg_cong[where f = "map fst"] filter_cong)

lemma tbl_select_none: "(\<And>k r. (k, r) \<in> set t \<Longrightarrow> \<not> P k r) \<Longrightarrow> tbl_select P t = []"
  by (auto simp: tbl_select_def filter_empty_conv)

lemma tbl_select_all: "(\<And>k r. (k, r) \<in> set t \<Longrightarrow> P k r) \<Longrightarrow> tbl_select P t = map fst t"
  unfolding tbl_select_def by (subst filter_True) auto

lemma distinct_tbl_select: "tbl_wf t \<Longrightarrow> distinct (tbl_select P t)"
  by (simp add: tbl_select_def tbl_wf_def distinct_map_filter)

end
