(* ===== verification/Provider_Types.thy ===== *)
theory Provider_Types
  imports Patchouli_Prelude
begin

text \<open>
  The vocabulary of the storage-provider interface, \<open>crates/provider/src/lib.rs\<close>: the errors,
  the data a commit or a query carries and the outcomes a provider answers with. Every struct is a
  record and every enum a datatype. The text of an error message is not modelled: the code
  branches on the reason only, so \<open>ProviderError\<close> is its reason.
\<close>

section \<open>Errors and capabilities\<close>

datatype ProviderErrorReason = Internal | DeadlineExceeded | Unauthenticated | Unavailable

record ProviderError =
  pe_reason :: ProviderErrorReason

definition provider_error_new :: ProviderError where
  "provider_error_new = \<lparr>pe_reason = Internal\<rparr>"

definition deadline_exceeded :: ProviderError where
  "deadline_exceeded = \<lparr>pe_reason = DeadlineExceeded\<rparr>"

definition with_reason :: "ProviderErrorReason \<Rightarrow> ProviderError" where
  "with_reason r = \<lparr>pe_reason = r\<rparr>"

definition error_context :: "ProviderError \<Rightarrow> ProviderError" where
  "error_context e = with_reason (pe_reason e)"

type_synonym 'a presult = "ProviderError + 'a"

record ProviderRecovery =
  generation :: nat
  recovered_after_unclean_shutdown :: bool

record ProviderCapabilities =
  authority :: bool
  replica :: bool
  change_stream :: bool
  retrieval :: bool
  idempotency :: bool
  work_units :: bool
  causal_reads :: bool
  monotonic_reads :: bool
  read_your_writes :: bool
  linearizable_reads :: bool

definition transactional_authority :: ProviderCapabilities where
  "transactional_authority =
     \<lparr>authority = True, replica = False, change_stream = False, retrieval = False,
      idempotency = False, work_units = False, causal_reads = False, monotonic_reads = False,
      read_your_writes = False, linearizable_reads = False\<rparr>"

section \<open>Entities\<close>

datatype ConsistencySource = Authority | Replica

record EntityKey =
  scope_json :: string
  entity_type :: string
  entity_id :: string

datatype StoredVersionState = Active | Deleted

record StoredCrdtChange =
  cc_hash :: string
  cc_parents :: "string list"
  cc_bytes :: "nat list"

record StoredCrdtField =
  cf_path :: string
  cf_heads :: "string list"
  cf_changes :: "StoredCrdtChange list"

record StoredEntityVersion =
  sv_version :: string
  sv_state :: StoredVersionState
  sv_value_json :: "string option"
  sv_crdt_fields :: "StoredCrdtField list"

record EntitySnapshot =
  sn_head_versions :: "string list"
  sn_versions :: "StoredEntityVersion list"

section \<open>Changes and consistency\<close>

record ChangeQuery =
  cq_scope_json :: string
  cq_entity_types :: "string list option"
  cq_entity_ids :: "string list option"
  cq_after_cursor :: nat
  cq_limit :: nat
  cq_retained_after_unix_ms :: nat

datatype StoredChangeKind = Conflicted | Created | DeletedKind | Resolved | Updated

record StoredChange =
  ch_cursor :: nat
  ch_entity_type :: string
  ch_entity_id :: string
  ch_kind :: StoredChangeKind
  ch_head_versions :: "string list"
  ch_event_meta_json :: string

record ChangePage =
  oldest_cursor :: "nat option"
  current_cursor :: nat
  page_changes :: "StoredChange list"

record SessionConsistency =
  sc_key_json :: string
  sc_monotonic_reads :: bool
  sc_read_your_writes :: bool

record ReadConsistency =
  rc_allowed_sources :: "ConsistencySource list"
  rc_minimum_tokens :: "string list"
  rc_sessions :: "SessionConsistency list"
  rc_linearization_keys :: "string list"
  rc_deadline_unix_ms :: "nat option"

definition read_consistency_authority :: ReadConsistency where
  "read_consistency_authority =
     \<lparr>rc_allowed_sources = [Authority], rc_minimum_tokens = [], rc_sessions = [],
      rc_linearization_keys = [], rc_deadline_unix_ms = None\<rparr>"

record ReadObservation =
  ob_source :: ConsistencySource
  ob_frontier :: nat
  ob_causal_token :: "string option"

datatype 'a ConsistentRead = Read 'a ReadObservation | ReadUnavailable

section \<open>Retrieval\<close>

text \<open>A relevance score is a double, represented by its rank in the total order of the finite
  doubles (\<open>f64::total_cmp\<close>).\<close>

type_synonym f64 = int

datatype RetrieveFilterOperator =
    Equal
  | NotEqual
  | LessThan
  | LessThanOrEqual
  | GreaterThan
  | GreaterThanOrEqual
  | Contains

record RetrieveFilter =
  rf_pointer :: string
  rf_operator :: RetrieveFilterOperator
  rf_value_json :: string

datatype RetrieveOrder = Relevance | Newest | Oldest | IdAscending | IdDescending

record RetrieveCursor =
  rcu_order :: RetrieveOrder
  rcu_query_fingerprint :: string
  rcu_score :: f64
  rcu_recorded_at_unix_ms :: nat
  rcu_entity_type :: string
  rcu_entity_id :: string

record RetrieveQuery =
  rq_scope_json :: string
  rq_entity_types :: "string list option"
  rq_text :: "string option"
  rq_entity_ids :: "string list option"
  rq_filters :: "RetrieveFilter list"
  rq_order :: RetrieveOrder
  rq_fingerprint :: string
  rq_after :: "RetrieveCursor option"
  rq_limit :: nat

record RetrievedEntity =
  re_key :: EntityKey
  re_snapshot :: EntitySnapshot
  re_score :: f64
  re_recorded_at_unix_ms :: nat

record RetrievedPage =
  rp_entities :: "RetrievedEntity list"
  rp_next_cursor :: "RetrieveCursor option"

section \<open>Commits\<close>

record EntityCommit =
  ec_key :: EntityKey
  ec_expected_heads :: "string list"
  ec_new_versions :: "StoredEntityVersion list"
  ec_head_versions :: "string list"
  ec_change_kind :: StoredChangeKind
  ec_causal_token :: string
  ec_event_meta_json :: string
  ec_write_session_keys :: "string list"
  ec_ordering_key_json :: "string option"
  ec_recorded_at_unix_ms :: nat
  ec_deadline_unix_ms :: "nat option"

datatype EntityCommitOutcome = Committed | Conflict "string list"

record IdempotencyRecord =
  ir_identity_json :: string
  ir_request_json :: string
  ir_result_json :: string
  ir_expires_at_unix_ms :: nat

datatype IdempotencyReadOutcome =
  IdemMissing | IdemReplayed string | IdemConflict | IdemUnavailable

datatype IdempotentCommitOutcome =
    ICommitted
  | IEntityConflict "string list"
  | IReplayed string
  | IIdempotencyConflict

section \<open>Work units\<close>

datatype WorkUnitExpiryAction = Discard

record WorkUnit =
  wu_identity_json :: string
  wu_scope_json :: string
  wu_policy_json :: string
  wu_expiry_action :: WorkUnitExpiryAction
  wu_now_unix_ms :: nat
  wu_expires_at_unix_ms :: nat
  wu_deadline_unix_ms :: "nat option"

datatype WorkUnitReadOutcome =
    WrOpen "EntitySnapshot option ConsistentRead"
  | WrClosing
  | WrPolicyMismatch
  | WrCommitted
  | WrExpired

datatype WorkUnitRetrieveOutcome =
    WtOpen "RetrievedPage ConsistentRead"
  | WtClosing
  | WtPolicyMismatch
  | WtCommitted
  | WtExpired

record WorkUnitCommit =
  wc_work_unit :: WorkUnit
  wc_entity :: EntityCommit
  wc_conflict_policy_json :: string
  wc_idempotency :: "IdempotencyRecord option"
  wc_close :: bool

record WorkUnitConflict =
  wk_key :: EntityKey
  wk_baseline_heads :: "string list"
  wk_staged :: EntitySnapshot
  wk_current :: "EntitySnapshot option"
  wk_conflict_policy_json :: string

record WorkUnitResolution =
  wr_expected_published_heads :: "string list"
  wr_entity :: EntityCommit

record WorkUnitPublish =
  wp_work_unit :: WorkUnit
  wp_resolutions :: "WorkUnitResolution list"
  wp_recorded_at_unix_ms :: nat

datatype WorkUnitCommitOutcome =
    WcStaged
  | WcPublished
  | WcClosing
  | WcConflict "string list"
  | WcPublicationConflict "WorkUnitConflict list"
  | WcPolicyMismatch
  | WcCommitted
  | WcExpired
  | WcReplayed string
  | WcIdempotencyConflict

section \<open>Contract vocabulary\<close>

text \<open>Heads of a well-formed commit come from its new versions or from the heads it expects.\<close>

definition commit_wf :: "EntityCommit \<Rightarrow> bool" where
  "commit_wf c \<longleftrightarrow> set (ec_head_versions c) \<subseteq> sv_version ` set (ec_new_versions c) \<union> set (ec_expected_heads c)"

text \<open>What a version says about its entity.\<close>

definition version_content :: "StoredEntityVersion \<Rightarrow> string \<times> StoredVersionState \<times> string option" where
  "version_content v = (sv_version v, sv_state v, sv_value_json v)"

end
