(* ===== verification/Sqlite_Tables.thy ===== *)
theory Sqlite_Tables
  imports Provider_Types "HOL-Library.Product_Lexorder"
begin

text \<open>
  The schema of \<open>crates/provider-sqlite/src/lib.rs\<close> (the \<open>CREATE TABLE\<close> batch of
  \<open>initialize\<close>) and the statements the provider runs on single tables.

  The database is a record of tables. Columns whose \<open>CHECK\<close> constraint restricts the text to a fixed
  set (\<open>state\<close>, \<open>kind\<close>, \<open>expiry_action\<close>) are datatypes; the \<open>*_versions_json\<close> and
  \<open>write_session_keys_json\<close> columns hold the list they encode. \<open>json_valid\<close> and the test
  \<open>json_valid(x) AND json_type(x) = 'object'\<close> are SQLite functions and enter as parameters
  (\<open>sqlite_env\<close>). A statement fails when it violates a primary key, a \<open>UNIQUE\<close>, a \<open>CHECK\<close> or a
  foreign-key constraint (\<open>PRAGMA foreign_keys\<close> is on) or when a bound integer exceeds
  \<open>i64::MAX\<close>; I/O failures of SQLite are not modelled. The full-text index mirrors the active
  rows of \<open>patchouli_entity_version\<close> through triggers and has no table of its own here.

  A clock reading is a \<open>clock\<close>: \<open>None\<close> for a system clock before the Unix epoch.
\<close>

section \<open>Environment, clock and integer conversions\<close>

record sqlite_env =
  json_valid :: "string \<Rightarrow> bool"
  json_object :: "string \<Rightarrow> bool"

type_synonym clock = "nat option"

definition database_error :: ProviderError where
  "database_error = provider_error_new"

definition unix_time_ms :: "clock \<Rightarrow> nat presult" where
  "unix_time_ms c = (case c of None \<Rightarrow> Err provider_error_new | Some t \<Rightarrow> Ok (t mod (u64_max + 1)))"

definition sqlite_time :: "nat \<Rightarrow> nat presult" where
  "sqlite_time v = (if v \<le> i64_max then Ok v else Err provider_error_new)"

text \<open>Binding a \<open>u64\<close> parameter: rusqlite refuses values beyond \<open>i64::MAX\<close>.\<close>

definition bind_u64 :: "nat \<Rightarrow> nat presult" where
  "bind_u64 v = (if v \<le> i64_max then Ok v else Err database_error)"

definition sql_nonempty :: "string \<Rightarrow> bool" where
  "sql_nonempty s \<longleftrightarrow> (case s of [] \<Rightarrow> False | c # _ \<Rightarrow> c \<noteq> CHR 0x00)"

definition sql_field_path :: "string \<Rightarrow> bool" where
  "sql_field_path s \<longleftrightarrow> (case s of c # d # _ \<Rightarrow> c = CHR ''/'' \<and> d \<noteq> CHR 0x00 | _ \<Rightarrow> False)"

definition commit_before_deadline :: "clock \<Rightarrow> nat option \<Rightarrow> unit presult" where
  "commit_before_deadline clk deadline =
     (case deadline of
        None \<Rightarrow> Ok ()
      | Some d \<Rightarrow> bindR (unix_time_ms clk) (\<lambda>now. guardR (\<not> now \<ge> d) deadline_exceeded))"

lemma commit_before_deadline_None [simp]: "commit_before_deadline clk None = Inr ()"
  by (simp add: commit_before_deadline_def)

lemma commit_before_deadline_Ok:
  "commit_before_deadline clk (Some d) = Inr () \<longleftrightarrow> (\<exists>t. clk = Some t \<and> t mod (u64_max + 1) < d)"
  by (auto simp: commit_before_deadline_def unix_time_ms_def bindR_eq_Inr split: option.splits)

section \<open>Rows and tables\<close>

datatype work_unit_state = DbOpen | DbClosing | DbCommitted | DbExpired

record work_unit_row =
  wur_scope_json :: string
  wur_state :: work_unit_state
  wur_policy_json :: string
  wur_expiry_action :: WorkUnitExpiryAction
  wur_opened_at_unix_ms :: nat
  wur_expires_at_unix_ms :: nat
  wur_baseline_cursor :: nat
  wur_closed_at_unix_ms :: "nat option"

record entity_version_row =
  evr_state :: StoredVersionState
  evr_value_json :: "string option"
  evr_work_unit_json :: "string option"
  evr_published_cursor :: "nat option"
  evr_recorded_at_unix_ms :: nat

record work_unit_entity_row =
  wer_conflict_policy_json :: "string option"
  wer_causal_token :: "string option"
  wer_event_meta_json :: "string option"
  wer_write_session_keys :: "string list option"
  wer_close_marker :: bool

record change_row =
  chr_key :: EntityKey
  chr_kind :: StoredChangeKind
  chr_head_versions :: "string list"
  chr_causal_token :: string
  chr_event_meta_json :: string
  chr_recorded_at_unix_ms :: nat

record idempotency_row =
  idr_request_json :: string
  idr_result_json :: string
  idr_expires_at_unix_ms :: nat

record work_unit_idempotency_row =
  wir_work_unit_json :: string
  wir_request_json :: string
  wir_result_json :: string
  wir_expires_at_unix_ms :: nat

record runtime_state =
  rt_generation :: nat
  rt_running :: bool
  rt_started_at_unix_ms :: nat
  rt_clean_shutdown_at_unix_ms :: "nat option"

record sqlite_db =
  user_version :: int
  t_runtime :: runtime_state
  t_work_unit :: "(string, work_unit_row) table"
  t_version :: "(EntityKey \<times> string, entity_version_row) table"
  t_wu_entity :: "(string \<times> EntityKey, work_unit_entity_row) table"
  t_wu_base :: "(string \<times> EntityKey \<times> string, bool) table"
  t_wu_head :: "(string \<times> EntityKey \<times> string, unit) table"
  t_head :: "(EntityKey \<times> string, unit) table"
  t_history :: "(EntityKey \<times> nat, string list) table"
  t_crdt_change :: "(string, nat list) table"
  t_crdt_parent :: "(string \<times> string, unit) table"
  t_crdt_head :: "(EntityKey \<times> string \<times> string \<times> string, unit) table"
  t_change :: "(nat, change_row) table"
  t_change_seq :: nat
  t_retention :: "(string, nat) table"
  t_session :: "(string \<times> string, nat \<times> nat) table"
  t_causal :: "(string, string \<times> nat) table"
  t_scope :: "(string, nat \<times> string) table"
  t_idempotency :: "(string, idempotency_row) table"
  t_wu_idempotency :: "(string, work_unit_idempotency_row) table"

definition empty_db :: sqlite_db where
  "empty_db =
     \<lparr>user_version = 0,
      t_runtime = \<lparr>rt_generation = 0, rt_running = False, rt_started_at_unix_ms = 0,
                   rt_clean_shutdown_at_unix_ms = None\<rparr>,
      t_work_unit = [], t_version = [], t_wu_entity = [], t_wu_base = [], t_wu_head = [],
      t_head = [], t_history = [], t_crdt_change = [], t_crdt_parent = [], t_crdt_head = [],
      t_change = [], t_change_seq = 0, t_retention = [], t_session = [], t_causal = [],
      t_scope = [], t_idempotency = [], t_wu_idempotency = []\<rparr>"

text \<open>A provider call answers and leaves a database; a call that opens several transactions
  runs the next one in the state the last committed.\<close>

type_synonym 'a db_step = "'a presult \<times> sqlite_db"

definition and_then :: "'a db_step \<Rightarrow> ('a \<Rightarrow> sqlite_db \<Rightarrow> 'b db_step) \<Rightarrow> 'b db_step" where
  "and_then m f = (case m of (Inl e, s) \<Rightarrow> (Inl e, s) | (Inr x, s) \<Rightarrow> f x s)"

lemma and_then_simps [simp]:
  "and_then (Inl e, s) f = (Inl e, s)" "and_then (Inr x, s) f = f x s"
  by (simp_all add: and_then_def)

text \<open>Leaving a transaction: the body's result \<open>(x, db')\<close> is committed before the deadline, or the
  transaction is dropped and the database stays as it was.\<close>

definition finish_tx :: "clock \<Rightarrow> nat option \<Rightarrow> sqlite_db \<Rightarrow> ('a \<times> sqlite_db) presult \<Rightarrow> 'a db_step" where
  "finish_tx clk deadline db body =
     (case body of
        Inl e \<Rightarrow> (Err e, db)
      | Inr (x, db') \<Rightarrow>
          (case commit_before_deadline clk deadline of
             Inl e \<Rightarrow> (Err e, db)
           | Inr _ \<Rightarrow> (Ok x, db')))"

lemma finish_tx_Ok:
  "finish_tx clk d db body = (Inr x, db') \<longleftrightarrow>
     body = Inr (x, db') \<and> commit_before_deadline clk d = Inr ()"
  by (auto simp: finish_tx_def split: sum.splits prod.splits)

lemma finish_tx_Err: "finish_tx clk d db body = (Inl e, db') \<Longrightarrow> db' = db"
  by (auto simp: finish_tx_def split: sum.splits prod.splits)

section \<open>Reading one entity\<close>

definition heads_of :: "EntityKey \<Rightarrow> sqlite_db \<Rightarrow> string list" where
  "heads_of key db = map snd (tbl_select (\<lambda>(k, v) _. k = key) (t_head db))"

text \<open>\<open>SELECT version FROM patchouli_entity_head WHERE .. ORDER BY version\<close>\<close>

definition published_heads :: "EntityKey \<Rightarrow> sqlite_db \<Rightarrow> string list" where
  "published_heads key db = sort (heads_of key db)"

definition current_scope_cursor :: "string \<Rightarrow> sqlite_db \<Rightarrow> nat" where
  "current_scope_cursor scope db =
     (case map_of (t_scope db) scope of None \<Rightarrow> 0 | Some (cursor, _) \<Rightarrow> cursor)"

text \<open>The recursive \<open>reachable\<close> query over the change graph: the least set that holds the
  given hashes and, with a hash, its parents.\<close>

definition new_parents :: "(string \<times> string) list \<Rightarrow> string list \<Rightarrow> string list" where
  "new_parents edges seen =
     remdups (map snd (filter (\<lambda>(c, p). c \<in> set seen \<and> p \<notin> set seen) edges))"

lemma set_new_parents:
  "set (new_parents edges seen) = {p. \<exists>c. (c, p) \<in> set edges \<and> c \<in> set seen \<and> p \<notin> set seen}"
  by (force simp: new_parents_def)

function crdt_closure :: "(string \<times> string) list \<Rightarrow> string list \<Rightarrow> string list" where
  "crdt_closure edges seen =
     (if new_parents edges seen = [] then seen
      else crdt_closure edges (seen @ new_parents edges seen))"
  by pat_completeness auto
termination
proof (relation "measure (\<lambda>(edges, seen). card (snd ` set edges - set seen))", goal_cases)
  case (2 edges seen)
  then obtain p where p: "p \<in> set (new_parents edges seen)"
    by (cases "new_parents edges seen") auto
  then have "p \<in> snd ` set edges - set seen" by (force simp: set_new_parents)
  with p have "snd ` set edges - set (seen @ new_parents edges seen) \<subset> snd ` set edges - set seen"
    by auto
  then show ?case by (auto intro!: psubset_card_mono)
qed simp

declare crdt_closure.simps [simp del]

lemma crdt_closure_stop: "new_parents edges seen = [] \<Longrightarrow> crdt_closure edges seen = seen"
  and crdt_closure_more: "new_parents edges seen \<noteq> [] \<Longrightarrow>
    crdt_closure edges seen = crdt_closure edges (seen @ new_parents edges seen)"
  by (subst crdt_closure.simps, simp)+

lemma crdt_closure_superset: "set seen \<subseteq> set (crdt_closure edges seen)"
proof (induction edges seen rule: crdt_closure.induct)
  case (1 edges seen)
  then show ?case
    by (cases "new_parents edges seen = []") (auto simp: crdt_closure_stop crdt_closure_more)
qed

lemma crdt_closure_closed:
  "(c, p) \<in> set edges \<Longrightarrow> c \<in> set (crdt_closure edges seen) \<Longrightarrow> p \<in> set (crdt_closure edges seen)"
proof (induction edges seen rule: crdt_closure.induct)
  case (1 edges seen)
  show ?case
  proof (cases "new_parents edges seen = []")
    case True
    with 1(2,3) set_new_parents[of edges seen] show ?thesis by (auto simp: crdt_closure_stop)
  next
    case False
    with 1 show ?thesis by (simp add: crdt_closure_more)
  qed
qed

lemma crdt_closure_least:
  assumes "x \<in> set (crdt_closure edges seen)" and "set seen \<subseteq> S"
    and closed: "\<And>c p. (c, p) \<in> set edges \<Longrightarrow> c \<in> S \<Longrightarrow> p \<in> S"
  shows "x \<in> S"
  using assms
proof (induction edges seen rule: crdt_closure.induct)
  case (1 edges seen)
  show ?case
  proof (cases "new_parents edges seen = []")
    case True
    with 1 show ?thesis by (auto simp: crdt_closure_stop)
  next
    case False
    have "set (seen @ new_parents edges seen) \<subseteq> S"
      using 1(3,4) by (auto simp: set_new_parents)
    with 1 False show ?thesis by (simp add: crdt_closure_more)
  qed
qed

definition crdt_edges :: "sqlite_db \<Rightarrow> (string \<times> string) list" where
  "crdt_edges db = map fst (t_crdt_parent db)"

definition crdt_field_heads :: "EntityKey \<Rightarrow> string \<Rightarrow> string \<Rightarrow> sqlite_db \<Rightarrow> string list" where
  "crdt_field_heads key version path db =
     sort (map (\<lambda>(_, _, _, h). h)
       (tbl_select (\<lambda>(k, v, p, _) _. k = key \<and> v = version \<and> p = path) (t_crdt_head db)))"

definition crdt_parents :: "string \<Rightarrow> sqlite_db \<Rightarrow> string list" where
  "crdt_parents h db = sort (map snd (tbl_select (\<lambda>(c, _) _. c = h) (t_crdt_parent db)))"

definition read_crdt_field :: "EntityKey \<Rightarrow> string \<Rightarrow> sqlite_db \<Rightarrow> string \<Rightarrow> StoredCrdtField" where
  "read_crdt_field key version db path =
     (let heads = crdt_field_heads key version path db;
          reachable = crdt_closure (crdt_edges db) heads;
          stored = sort_key fst (filter (\<lambda>(h, _). h \<in> set reachable) (t_crdt_change db))
      in \<lparr>cf_path = path, cf_heads = heads,
          cf_changes = map (\<lambda>(h, bytes).
            \<lparr>cc_hash = h, cc_parents = crdt_parents h db, cc_bytes = bytes\<rparr>) stored\<rparr>)"

definition read_crdt_fields :: "EntityKey \<Rightarrow> string \<Rightarrow> sqlite_db \<Rightarrow> StoredCrdtField list" where
  "read_crdt_fields key version db =
     map (read_crdt_field key version db)
       (sort_dedup (map (\<lambda>(_, _, p, _). p)
         (tbl_select (\<lambda>(k, v, _, _) _. k = key \<and> v = version) (t_crdt_head db))))"

text \<open>The rows of \<open>patchouli_entity_version\<close> of one entity that satisfy a condition, ordered by
  \<open>recorded_at_unix_ms, version\<close> and completed with their CRDT fields.\<close>

definition stored_versions ::
  "EntityKey \<Rightarrow> (string \<Rightarrow> entity_version_row \<Rightarrow> bool) \<Rightarrow> sqlite_db \<Rightarrow> StoredEntityVersion list" where
  "stored_versions key P db =
     map (\<lambda>((_, v), row).
         \<lparr>sv_version = v, sv_state = evr_state row, sv_value_json = evr_value_json row,
          sv_crdt_fields = read_crdt_fields key v db\<rparr>)
       (sort_key (\<lambda>((_, v), row). (evr_recorded_at_unix_ms row, v))
         (filter (\<lambda>((k, v), row). k = key \<and> P v row) (t_version db)))"

definition read_entity_snapshot :: "EntityKey \<Rightarrow> sqlite_db \<Rightarrow> EntitySnapshot option" where
  "read_entity_snapshot key db =
     (let head_versions = published_heads key db
      in if head_versions = [] then None
         else Some \<lparr>sn_head_versions = sort head_versions,
                    sn_versions = stored_versions key (\<lambda>_ row. evr_published_cursor row \<noteq> None) db\<rparr>)"

end
