(* ===== verification/Sqlite_Commit.thy ===== *)
theory Sqlite_Commit
  imports Sqlite_Tables
begin

text \<open>
  Publishing one entity: the statements of \<open>insert_entity_versions\<close>,
  \<open>replace_published_heads\<close>, \<open>insert_change\<close>, \<open>advance_write_sessions\<close> and
  \<open>publish_entity_versions\<close>, and the compare-and-set transaction
  \<open>commit_entity_in_transaction\<close> that runs them.
\<close>

section \<open>Inserting versions\<close>

definition value_column_ok :: "sqlite_env \<Rightarrow> StoredEntityVersion \<Rightarrow> bool" where
  "value_column_ok E v =
     (case (sv_state v, sv_value_json v) of
        (Active, Some j) \<Rightarrow> json_valid E j
      | (Deleted, None) \<Rightarrow> True
      | _ \<Rightarrow> False)"

definition insert_version_row ::
  "sqlite_env \<Rightarrow> EntityKey \<Rightarrow> StoredEntityVersion \<Rightarrow> string option \<Rightarrow> nat \<Rightarrow> sqlite_db \<Rightarrow> sqlite_db presult" where
  "insert_version_row E key v unit recorded_at db =
     bindR (guardR (json_object E (scope_json key) \<and> sql_nonempty (entity_type key)
                    \<and> sql_nonempty (entity_id key) \<and> sql_nonempty (sv_version v)
                    \<and> value_column_ok E v) database_error) (\<lambda>_.
     bindR (guardR (case unit of None \<Rightarrow> True | Some u \<Rightarrow> map_of (t_work_unit db) u \<noteq> None)
              database_error) (\<lambda>_.
     bindR (ok_or (tbl_insert (key, sv_version v)
              \<lparr>evr_state = sv_state v, evr_value_json = sv_value_json v, evr_work_unit_json = unit,
               evr_published_cursor = None, evr_recorded_at_unix_ms = recorded_at\<rparr>
              (t_version db)) database_error) (\<lambda>t. Ok (db\<lparr>t_version := t\<rparr>))))"

text \<open>\<open>INSERT OR IGNORE\<close> also skips a row that violates a \<open>CHECK\<close> constraint; a foreign key it
  violates still fails the statement.\<close>

definition insert_crdt_change :: "StoredCrdtChange \<Rightarrow> sqlite_db \<Rightarrow> sqlite_db presult" where
  "insert_crdt_change c db =
     (if sql_nonempty (cc_hash c) \<and> cc_bytes c \<noteq> []
      then Ok (db\<lparr>t_crdt_change := tbl_ignore (cc_hash c) (cc_bytes c) (t_crdt_change db)\<rparr>)
      else Ok db)"

definition insert_crdt_parent :: "string \<Rightarrow> string \<Rightarrow> sqlite_db \<Rightarrow> sqlite_db presult" where
  "insert_crdt_parent h p db =
     (if h = p \<or> map_of (t_crdt_parent db) (h, p) \<noteq> None then Ok db
      else bindR (guardR (map_of (t_crdt_change db) h \<noteq> None \<and> map_of (t_crdt_change db) p \<noteq> None)
                    database_error) (\<lambda>_.
        Ok (db\<lparr>t_crdt_parent := tbl_ignore (h, p) () (t_crdt_parent db)\<rparr>)))"

definition insert_crdt_head ::
  "EntityKey \<Rightarrow> string \<Rightarrow> string \<Rightarrow> string \<Rightarrow> sqlite_db \<Rightarrow> sqlite_db presult" where
  "insert_crdt_head key version path h db =
     bindR (guardR (sql_field_path path \<and> map_of (t_version db) (key, version) \<noteq> None
                    \<and> map_of (t_crdt_change db) h \<noteq> None) database_error) (\<lambda>_.
     bindR (ok_or (tbl_insert (key, version, path, h) () (t_crdt_head db)) database_error) (\<lambda>t.
       Ok (db\<lparr>t_crdt_head := t\<rparr>)))"

definition insert_crdt_field ::
  "EntityKey \<Rightarrow> string \<Rightarrow> StoredCrdtField \<Rightarrow> sqlite_db \<Rightarrow> sqlite_db presult" where
  "insert_crdt_field key version f db =
     bindR (foldR insert_crdt_change (cf_changes f) db) (\<lambda>db.
     bindR (foldR (\<lambda>c. foldR (insert_crdt_parent (cc_hash c)) (cc_parents c)) (cf_changes f) db) (\<lambda>db.
       foldR (insert_crdt_head key version (cf_path f)) (cf_heads f) db))"

definition insert_entity_version ::
  "sqlite_env \<Rightarrow> EntityKey \<Rightarrow> string option \<Rightarrow> nat \<Rightarrow> StoredEntityVersion \<Rightarrow> sqlite_db \<Rightarrow> sqlite_db presult" where
  "insert_entity_version E key unit recorded_at v db =
     bindR (insert_version_row E key v unit recorded_at db)
       (foldR (insert_crdt_field key (sv_version v)) (sv_crdt_fields v))"

definition insert_entity_versions ::
  "sqlite_env \<Rightarrow> EntityKey \<Rightarrow> StoredEntityVersion list \<Rightarrow> string option \<Rightarrow> nat \<Rightarrow> sqlite_db \<Rightarrow> sqlite_db presult" where
  "insert_entity_versions E key versions unit recorded_at =
     foldR (insert_entity_version E key unit recorded_at) versions"

section \<open>Heads\<close>

definition unique_heads :: "string list \<Rightarrow> string list presult" where
  "unique_heads heads =
     (let unique = sort_dedup heads
      in if length unique \<noteq> length heads then Err provider_error_new
         else if unique = [] then Err provider_error_new
         else Ok unique)"

definition insert_head :: "EntityKey \<Rightarrow> string \<Rightarrow> sqlite_db \<Rightarrow> sqlite_db presult" where
  "insert_head key version db =
     bindR (guardR (map_of (t_version db) (key, version) \<noteq> None) database_error) (\<lambda>_.
     bindR (ok_or (tbl_insert (key, version) () (t_head db)) database_error) (\<lambda>t.
       Ok (db\<lparr>t_head := t\<rparr>)))"

definition replace_published_heads :: "EntityKey \<Rightarrow> string list \<Rightarrow> sqlite_db \<Rightarrow> sqlite_db presult" where
  "replace_published_heads key heads db =
     (let db = db\<lparr>t_head := tbl_delete (\<lambda>(k, _) _. k = key) (t_head db)\<rparr>
      in bindR (unique_heads heads) (\<lambda>hs. foldR (insert_head key) hs db))"

section \<open>The change log\<close>

definition insert_change ::
  "sqlite_env \<Rightarrow> EntityKey \<Rightarrow> StoredChangeKind \<Rightarrow> string list \<Rightarrow> string \<Rightarrow> string \<Rightarrow> nat \<Rightarrow> sqlite_db
   \<Rightarrow> (nat \<times> sqlite_db) presult" where
  "insert_change E key kind heads token event_meta recorded_at db =
     bindR (guardR (json_object E (scope_json key) \<and> sql_nonempty (entity_type key)
                    \<and> sql_nonempty (entity_id key) \<and> heads \<noteq> [] \<and> sql_nonempty token
                    \<and> json_object E event_meta) database_error) (\<lambda>_.
     bindR (guardR (t_change_seq db < i64_max) database_error) (\<lambda>_.
     bindR (guardR (\<not> (\<exists>(_, r) \<in> set (t_change db). chr_causal_token r = token)) database_error) (\<lambda>_.
     let cursor = t_change_seq db + 1 in
     bindR (ok_or (tbl_insert cursor
              \<lparr>chr_key = key, chr_kind = kind, chr_head_versions = heads, chr_causal_token = token,
               chr_event_meta_json = event_meta, chr_recorded_at_unix_ms = recorded_at\<rparr>
              (t_change db)) database_error) (\<lambda>changes.
     bindR (ok_or (tbl_insert (key, cursor) heads (t_history db)) database_error) (\<lambda>history.
     bindR (ok_or (tbl_insert token (scope_json key, cursor) (t_causal db)) database_error) (\<lambda>causal.
       Ok (cursor,
           db\<lparr>t_change := changes, t_change_seq := cursor, t_history := history,
              t_causal := causal,
              t_scope := tbl_upsert (scope_json key) (cursor, token) (\<lambda>_. (cursor, token))
                           (t_scope db)\<rparr>)))))))"

definition advance_write_session ::
  "sqlite_env \<Rightarrow> string \<Rightarrow> nat \<Rightarrow> string \<Rightarrow> sqlite_db \<Rightarrow> sqlite_db presult" where
  "advance_write_session E scope cursor key db =
     bindR (guardR (json_object E scope \<and> json_valid E key) database_error) (\<lambda>_.
       Ok (db\<lparr>t_session := tbl_upsert (scope, key) (0, cursor)
                (\<lambda>(r, w). (r, max w cursor)) (t_session db)\<rparr>))"

definition advance_write_sessions ::
  "sqlite_env \<Rightarrow> string \<Rightarrow> string list \<Rightarrow> nat \<Rightarrow> sqlite_db \<Rightarrow> sqlite_db presult" where
  "advance_write_sessions E scope keys cursor = foldR (advance_write_session E scope cursor) keys"

definition publish_entity_versions ::
  "EntityKey \<Rightarrow> StoredEntityVersion list \<Rightarrow> nat \<Rightarrow> sqlite_db \<Rightarrow> sqlite_db" where
  "publish_entity_versions key versions cursor db =
     fold (\<lambda>v db. db\<lparr>t_version :=
             tbl_update (\<lambda>(k, w) _. k = key \<and> w = sv_version v)
               (\<lambda>r. r\<lparr>evr_published_cursor := Some cursor\<rparr>) (t_version db)\<rparr>) versions db"

section \<open>The compare-and-set transaction\<close>

definition commit_entity_in_transaction ::
  "sqlite_env \<Rightarrow> EntityCommit \<Rightarrow> sqlite_db \<Rightarrow> (EntityCommitOutcome \<times> sqlite_db) presult" where
  "commit_entity_in_transaction E c db =
     (let current_heads = sort (published_heads (ec_key c) db);
          expected_heads = sort (ec_expected_heads c)
      in if current_heads \<noteq> expected_heads then Ok (Conflict current_heads, db)
         else
           bindR (sqlite_time (ec_recorded_at_unix_ms c)) (\<lambda>recorded_at.
           bindR (insert_entity_versions E (ec_key c) (ec_new_versions c) None recorded_at db) (\<lambda>db.
           bindR (replace_published_heads (ec_key c) (ec_head_versions c) db) (\<lambda>db.
           bindR (insert_change E (ec_key c) (ec_change_kind c) (ec_head_versions c)
                    (ec_causal_token c) (ec_event_meta_json c) recorded_at db) (\<lambda>(cursor, db).
           bindR (advance_write_sessions E (scope_json (ec_key c)) (ec_write_session_keys c)
                    cursor db) (\<lambda>db.
             Ok (Committed, publish_entity_versions (ec_key c) (ec_new_versions c) cursor db)))))))"

definition commit_entity_transaction ::
  "sqlite_env \<Rightarrow> clock \<Rightarrow> EntityCommit \<Rightarrow> sqlite_db \<Rightarrow> EntityCommitOutcome db_step" where
  "commit_entity_transaction E clk c db =
     (if ec_head_versions c = [] then (Err provider_error_new, db)
      else case commit_entity_in_transaction E c db of
             Inl e \<Rightarrow> (Err e, db)
           | Inr (Conflict hs, _) \<Rightarrow> (Ok (Conflict hs), db)
           | Inr (Committed, db') \<Rightarrow>
               finish_tx clk (ec_deadline_unix_ms c) db (Ok (Committed, db')))"

section \<open>What each statement changes\<close>

text \<open>The CRDT statements only append to the three CRDT tables, and every head they add belongs to
  the version being inserted.\<close>

definition crdt_grows :: "EntityKey \<Rightarrow> string set \<Rightarrow> sqlite_db \<Rightarrow> sqlite_db \<Rightarrow> bool" where
  "crdt_grows key vs db db' \<longleftrightarrow>
     (\<exists>a b c. db' = db\<lparr>t_crdt_change := t_crdt_change db @ a, t_crdt_parent := t_crdt_parent db @ b,
                      t_crdt_head := t_crdt_head db @ c\<rparr>
              \<and> (\<forall>((k, v, _, _), _) \<in> set c. k = key \<and> v \<in> vs))"

lemma crdt_grows_refl: "crdt_grows key vs db db"
  unfolding crdt_grows_def by (rule exI[of _ "[]"], rule exI[of _ "[]"], rule exI[of _ "[]"]) simp

lemma crdt_grows_trans:
  assumes "crdt_grows key vs db1 db2" and "crdt_grows key vs db2 db3"
  shows "crdt_grows key vs db1 db3"
proof -
  from assms(1) obtain a b c where 1: "db2 = db1\<lparr>t_crdt_change := t_crdt_change db1 @ a,
      t_crdt_parent := t_crdt_parent db1 @ b, t_crdt_head := t_crdt_head db1 @ c\<rparr>"
    "\<forall>((k, v, _, _), _) \<in> set c. k = key \<and> v \<in> vs"
    unfolding crdt_grows_def by blast
  from assms(2) obtain a' b' c' where 2: "db3 = db2\<lparr>t_crdt_change := t_crdt_change db2 @ a',
      t_crdt_parent := t_crdt_parent db2 @ b', t_crdt_head := t_crdt_head db2 @ c'\<rparr>"
    "\<forall>((k, v, _, _), _) \<in> set c'. k = key \<and> v \<in> vs"
    unfolding crdt_grows_def by blast
  show ?thesis unfolding crdt_grows_def
    by (rule exI[of _ "a @ a'"], rule exI[of _ "b @ b'"], rule exI[of _ "c @ c'"]) (use 1 2 in auto)
qed

lemma insert_crdt_change_grows: "insert_crdt_change c db = Inr db' \<Longrightarrow> crdt_grows key vs db db'"
  unfolding crdt_grows_def insert_crdt_change_def
  by (rule exI[of _ "if db' = db then [] else [(cc_hash c, cc_bytes c)]"],
      rule exI[of _ "[]"], rule exI[of _ "[]"])
     (auto simp: tbl_ignore_def split: if_splits)

lemma insert_crdt_parent_grows: "insert_crdt_parent h p db = Inr db' \<Longrightarrow> crdt_grows key vs db db'"
  unfolding crdt_grows_def insert_crdt_parent_def
  by (rule exI[of _ "[]"], rule exI[of _ "if db' = db then [] else [((h, p), ())]"],
      rule exI[of _ "[]"])
     (auto simp: tbl_ignore_def bindR_eq_Inr split: if_splits)

lemma insert_crdt_head_grows:
  "insert_crdt_head key v path h db = Inr db' \<Longrightarrow> v \<in> vs \<Longrightarrow> crdt_grows key vs db db'"
  unfolding crdt_grows_def insert_crdt_head_def
  by (rule exI[of _ "[]"], rule exI[of _ "[]"], rule exI[of _ "[((key, v, path, h), ())]"])
     (auto simp: bindR_eq_Inr tbl_insert_eq_Some)

lemma insert_crdt_field_grows:
  assumes "insert_crdt_field key v f db = Inr db'" and v: "v \<in> vs"
  shows "crdt_grows key vs db db'"
proof -
  let ?R = "crdt_grows key vs"
  from assms(1) obtain d1 d2 where d:
    "foldR insert_crdt_change (cf_changes f) db = Inr d1"
    "foldR (\<lambda>c. foldR (insert_crdt_parent (cc_hash c)) (cc_parents c)) (cf_changes f) d1 = Inr d2"
    "foldR (insert_crdt_head key v (cf_path f)) (cf_heads f) d2 = Inr db'"
    by (auto simp: insert_crdt_field_def bindR_eq_Inr)
  have "?R db d1" by (rule foldR_relates[OF d(1)])
    (auto intro: crdt_grows_refl crdt_grows_trans insert_crdt_change_grows)
  moreover have "?R d1 d2"
  proof (rule foldR_relates[OF d(2)])
    fix c and s s' :: sqlite_db
    assume "foldR (insert_crdt_parent (cc_hash c)) (cc_parents c) s = Inr s'"
    then show "?R s s'" by (rule foldR_relates)
      (auto intro: crdt_grows_refl crdt_grows_trans insert_crdt_parent_grows)
  qed (auto intro: crdt_grows_refl crdt_grows_trans)
  moreover have "?R d2 db'" by (rule foldR_relates[OF d(3)])
    (auto intro: crdt_grows_refl crdt_grows_trans insert_crdt_head_grows v)
  ultimately show ?thesis by (blast intro: crdt_grows_trans)
qed

text \<open>The row a version inserts.\<close>

definition fresh_row :: "StoredEntityVersion \<Rightarrow> string option \<Rightarrow> nat \<Rightarrow> entity_version_row" where
  "fresh_row v unit recorded_at =
     \<lparr>evr_state = sv_state v, evr_value_json = sv_value_json v, evr_work_unit_json = unit,
      evr_published_cursor = None, evr_recorded_at_unix_ms = recorded_at\<rparr>"

abbreviation fresh_rows ::
  "EntityKey \<Rightarrow> StoredEntityVersion list \<Rightarrow> string option \<Rightarrow> nat
   \<Rightarrow> (EntityKey \<times> string, entity_version_row) table" where
  "fresh_rows key vs unit t \<equiv> map (\<lambda>v. ((key, sv_version v), fresh_row v unit t)) vs"

lemma insert_version_row_Ok:
  "insert_version_row E key v unit t db = Inr db' \<Longrightarrow>
     map_of (t_version db) (key, sv_version v) = None
     \<and> db' = db\<lparr>t_version := t_version db @ [((key, sv_version v), fresh_row v unit t)]\<rparr>"
  by (auto simp: insert_version_row_def bindR_eq_Inr tbl_insert_eq_Some fresh_row_def)

lemma insert_entity_version_Ok:
  assumes "insert_entity_version E key unit t v db = Inr db'" and v: "sv_version v \<in> vs"
  shows "map_of (t_version db) (key, sv_version v) = None
    \<and> crdt_grows key vs
        (db\<lparr>t_version := t_version db @ [((key, sv_version v), fresh_row v unit t)]\<rparr>) db'"
proof -
  let ?db1 = "db\<lparr>t_version := t_version db @ [((key, sv_version v), fresh_row v unit t)]\<rparr>"
  from assms(1) obtain d where d: "insert_version_row E key v unit t db = Inr d"
    "foldR (insert_crdt_field key (sv_version v)) (sv_crdt_fields v) d = Inr db'"
    by (auto simp: insert_entity_version_def bindR_eq_Inr)
  from insert_version_row_Ok[OF d(1)] have d1: "d = ?db1"
    and none: "map_of (t_version db) (key, sv_version v) = None" by auto
  have "crdt_grows key vs d db'" by (rule foldR_relates[OF d(2)])
    (auto intro: crdt_grows_refl crdt_grows_trans insert_crdt_field_grows v)
  with d1 none show ?thesis by simp
qed

lemma crdt_grows_rest: "crdt_grows key vs db db' \<Longrightarrow> t_version db' = t_version db"
  by (auto simp: crdt_grows_def)

lemma crdt_grows_update_version:
  "crdt_grows key vs db db' \<Longrightarrow> crdt_grows key vs (db\<lparr>t_version := w\<rparr>) (db'\<lparr>t_version := w\<rparr>)"
  unfolding crdt_grows_def
proof (elim exE conjE)
  fix a b c
  assume eq: "db' = db\<lparr>t_crdt_change := t_crdt_change db @ a, t_crdt_parent := t_crdt_parent db @ b,
      t_crdt_head := t_crdt_head db @ c\<rparr>" and c: "\<forall>((k, v, _, _), _) \<in> set c. k = key \<and> v \<in> vs"
  show "\<exists>a b c. db'\<lparr>t_version := w\<rparr> = db\<lparr>t_version := w,
      t_crdt_change := t_crdt_change (db\<lparr>t_version := w\<rparr>) @ a,
      t_crdt_parent := t_crdt_parent (db\<lparr>t_version := w\<rparr>) @ b,
      t_crdt_head := t_crdt_head (db\<lparr>t_version := w\<rparr>) @ c\<rparr>
      \<and> (\<forall>((k, v, _, _), _) \<in> set c. k = key \<and> v \<in> vs)"
    by (rule exI[of _ a], rule exI[of _ b], rule exI[of _ c]) (simp add: eq c)
qed

text \<open>A successful insertion appends exactly the new rows, all of them under fresh keys.\<close>

lemma insert_entity_versions_Ok:
  assumes "insert_entity_versions E key vs unit t db = Inr db'"
  shows "crdt_grows key (sv_version ` set vs)
           (db\<lparr>t_version := t_version db @ fresh_rows key vs unit t\<rparr>) db'
         \<and> distinct (map sv_version vs)
         \<and> (\<forall>v \<in> set vs. map_of (t_version db) (key, sv_version v) = None)"
  using assms unfolding insert_entity_versions_def
proof (induction vs arbitrary: db' rule: rev_induct)
  case Nil
  then show ?case using crdt_grows_refl by simp
next
  case (snoc v vs)
  let ?S = "sv_version ` set (vs @ [v])"
  let ?db1 = "db\<lparr>t_version := t_version db @ fresh_rows key vs unit t\<rparr>"
  from snoc.prems obtain d where d: "foldR (insert_entity_version E key unit t) vs db = Inr d"
    "insert_entity_version E key unit t v d = Inr db'"
    by (auto simp: foldR_append bindR_eq_Inr)
  from snoc.IH[OF d(1)] have g1: "crdt_grows key (sv_version ` set vs) ?db1 d"
    and dist: "distinct (map sv_version vs)"
    and none: "\<forall>v \<in> set vs. map_of (t_version db) (key, sv_version v) = None" by auto
  from g1 have g1': "crdt_grows key ?S ?db1 d" unfolding crdt_grows_def by fastforce
  have tv: "t_version d = t_version db @ fresh_rows key vs unit t"
    using crdt_grows_rest[OF g1] by simp
  from insert_entity_version_Ok[OF d(2), of ?S] have
    nv: "map_of (t_version d) (key, sv_version v) = None" and
    g2: "crdt_grows key ?S (d\<lparr>t_version := t_version d @ [((key, sv_version v), fresh_row v unit t)]\<rparr>) db'"
    by auto
  from crdt_grows_update_version[OF g1', of "t_version d @ [((key, sv_version v), fresh_row v unit t)]"] g2
  have "crdt_grows key ?S (db\<lparr>t_version := t_version db @ fresh_rows key (vs @ [v]) unit t\<rparr>) db'"
    by (auto simp: tv intro: crdt_grows_trans)
  moreover from nv tv have "sv_version v \<notin> sv_version ` set vs"
    "map_of (t_version db) (key, sv_version v) = None"
    by (force simp: map_of_eq_None_iff)+
  ultimately show ?case using dist none by simp
qed

lemma unique_heads_Ok:
  "unique_heads heads = Inr hs \<longleftrightarrow> distinct heads \<and> heads \<noteq> [] \<and> hs = sort heads"
  by (auto simp: unique_heads_def Let_def length_sort_dedup_iff sort_dedup_distinct)

lemma insert_head_Ok:
  "insert_head key h db = Inr db' \<longleftrightarrow>
     map_of (t_version db) (key, h) \<noteq> None \<and> map_of (t_head db) (key, h) = None
     \<and> db' = db\<lparr>t_head := t_head db @ [((key, h), ())]\<rparr>"
  by (auto simp: insert_head_def bindR_eq_Inr tbl_insert_eq_Some)

lemma insert_heads_Ok:
  "foldR (insert_head key) hs db = Inr db' \<Longrightarrow>
     db' = db\<lparr>t_head := t_head db @ map (\<lambda>h. ((key, h), ())) hs\<rparr>
     \<and> (\<forall>h \<in> set hs. map_of (t_version db) (key, h) \<noteq> None)"
proof (induction hs arbitrary: db)
  case (Cons h hs)
  then obtain d where "insert_head key h db = Inr d" "foldR (insert_head key) hs d = Inr db'"
    by (auto simp: bindR_eq_Inr)
  with Cons.IH[of d] show ?case by (auto simp: insert_head_Ok)
qed simp

definition new_heads ::
  "EntityKey \<Rightarrow> string list \<Rightarrow> (EntityKey \<times> string, unit) table \<Rightarrow> (EntityKey \<times> string, unit) table" where
  "new_heads key heads t =
     tbl_delete (\<lambda>(k, _) _. k = key) t @ map (\<lambda>h. ((key, h), ())) (sort heads)"

lemma replace_published_heads_Ok:
  "replace_published_heads key heads db = Inr db' \<Longrightarrow>
     distinct heads \<and> heads \<noteq> [] \<and> db' = db\<lparr>t_head := new_heads key heads (t_head db)\<rparr>
     \<and> (\<forall>h \<in> set heads. map_of (t_version db) (key, h) \<noteq> None)"
  by (auto simp: replace_published_heads_def Let_def bindR_eq_Inr unique_heads_Ok new_heads_def
      dest!: insert_heads_Ok)

lemma insert_change_Ok:
  assumes "insert_change E key kind heads token meta t db = Inr (cursor, db')"
  shows "cursor = t_change_seq db + 1 \<and> cursor \<le> i64_max \<and> heads \<noteq> []
    \<and> map_of (t_change db) cursor = None \<and> map_of (t_history db) (key, cursor) = None
    \<and> map_of (t_causal db) token = None
    \<and> db' = db\<lparr>t_change := t_change db @ [(cursor, \<lparr>chr_key = key, chr_kind = kind,
               chr_head_versions = heads, chr_causal_token = token, chr_event_meta_json = meta,
               chr_recorded_at_unix_ms = t\<rparr>)],
             t_change_seq := cursor,
             t_history := t_history db @ [((key, cursor), heads)],
             t_causal := t_causal db @ [(token, (scope_json key, cursor))],
             t_scope := tbl_upsert (scope_json key) (cursor, token) (\<lambda>_. (cursor, token)) (t_scope db)\<rparr>"
  using assms by (auto simp: insert_change_def Let_def bindR_eq_Inr tbl_insert_eq_Some)

definition written_sessions ::
  "string \<Rightarrow> nat \<Rightarrow> string list \<Rightarrow> (string \<times> string, nat \<times> nat) table \<Rightarrow> (string \<times> string, nat \<times> nat) table" where
  "written_sessions scope cursor keys =
     fold (\<lambda>k. tbl_upsert (scope, k) (0, cursor) (\<lambda>(r, w). (r, max w cursor))) keys"

lemma advance_write_sessions_Ok:
  "advance_write_sessions E scope keys cursor db = Inr db' \<Longrightarrow>
     db' = db\<lparr>t_session := written_sessions scope cursor keys (t_session db)\<rparr>"
proof (induction keys arbitrary: db)
  case (Cons k ks)
  then obtain d where d: "advance_write_session E scope cursor k db = Inr d"
    "advance_write_sessions E scope ks cursor d = Inr db'"
    by (auto simp: advance_write_sessions_def bindR_eq_Inr)
  from d(1) have "d = db\<lparr>t_session := tbl_upsert (scope, k) (0, cursor)
      (\<lambda>(r, w). (r, max w cursor)) (t_session db)\<rparr>"
    by (auto simp: advance_write_session_def bindR_eq_Inr)
  with Cons.IH[OF d(2)] show ?case by (simp add: written_sessions_def)
qed (simp add: advance_write_sessions_def written_sessions_def)

lemma map_of_written_sessions:
  "map_of (written_sessions scope cursor keys t) (s, k) =
     (if s = scope \<and> k \<in> set keys
      then Some (case map_of t (s, k) of None \<Rightarrow> (0, cursor) | Some (r, w) \<Rightarrow> (r, max w cursor))
      else map_of t (s, k))"
proof (induction keys arbitrary: t)
  case (Cons a ks)
  let ?t = "tbl_upsert (scope, a) (0, cursor) (\<lambda>(r, w). (r, max w cursor)) t"
  have "map_of (written_sessions scope cursor (a # ks) t) (s, k) =
        map_of (written_sessions scope cursor ks ?t) (s, k)"
    by (simp add: written_sessions_def)
  with Cons.IH[of ?t] show ?case by (auto simp: map_of_tbl_upsert split: option.splits)
qed (simp add: written_sessions_def)

lemma tbl_wf_written_sessions: "tbl_wf t \<Longrightarrow> tbl_wf (written_sessions scope cursor keys t)"
  by (induction keys arbitrary: t) (auto simp: written_sessions_def intro: tbl_wf_upsert)

lemma publish_entity_versions_eq:
  "publish_entity_versions key vs cursor db =
     db\<lparr>t_version := tbl_update (\<lambda>(k, w) _. k = key \<and> w \<in> sv_version ` set vs)
          (\<lambda>r. r\<lparr>evr_published_cursor := Some cursor\<rparr>) (t_version db)\<rparr>"
proof (induction vs arbitrary: db)
  case Nil
  show ?case by (simp add: publish_entity_versions_def tbl_update_idle)
next
  case (Cons v vs)
  let ?d = "db\<lparr>t_version := tbl_update (\<lambda>(k, w) _. k = key \<and> w = sv_version v)
          (\<lambda>r. r\<lparr>evr_published_cursor := Some cursor\<rparr>) (t_version db)\<rparr>"
  have "publish_entity_versions key (v # vs) cursor db = publish_entity_versions key vs cursor ?d"
    by (simp add: publish_entity_versions_def)
  also have "\<dots> = db\<lparr>t_version := tbl_update (\<lambda>(k, w) _. k = key \<and> w \<in> sv_version ` set (v # vs))
          (\<lambda>r. r\<lparr>evr_published_cursor := Some cursor\<rparr>) (t_version db)\<rparr>"
    by (simp add: Cons.IH) (auto simp: tbl_update_def comp_def split: prod.splits)
  finally show ?case .
qed

text \<open>The row a version leaves once its commit is published at \<open>cursor\<close>.\<close>

definition published_row :: "StoredEntityVersion \<Rightarrow> nat \<Rightarrow> nat \<Rightarrow> entity_version_row" where
  "published_row v t cursor = (fresh_row v None t)\<lparr>evr_published_cursor := Some cursor\<rparr>"

abbreviation published_rows ::
  "EntityKey \<Rightarrow> StoredEntityVersion list \<Rightarrow> nat \<Rightarrow> nat \<Rightarrow> (EntityKey \<times> string, entity_version_row) table" where
  "published_rows key vs t cursor \<equiv> map (\<lambda>v. ((key, sv_version v), published_row v t cursor)) vs"

lemma publish_fresh_rows:
  assumes "\<forall>v \<in> set vs. map_of tv (key, sv_version v) = None"
  shows "tbl_update (\<lambda>(k, w) _. k = key \<and> w \<in> sv_version ` set vs)
           (\<lambda>r. r\<lparr>evr_published_cursor := Some cursor\<rparr>) (tv @ fresh_rows key vs None t)
         = tv @ published_rows key vs t cursor"
proof -
  from assms have "tbl_update (\<lambda>(k, w) _. k = key \<and> w \<in> sv_version ` set vs)
      (\<lambda>r. r\<lparr>evr_published_cursor := Some cursor\<rparr>) tv = tv"
    by (intro tbl_update_idle) (force simp: map_of_eq_None_iff)
  then show ?thesis
    unfolding tbl_update_append by (simp add: tbl_update_def published_row_def)
qed

text \<open>The exact database a successful compare-and-set leaves.\<close>

definition committed_db :: "EntityCommit \<Rightarrow> sqlite_db \<Rightarrow> sqlite_db \<Rightarrow> bool" where
  "committed_db c db db' \<longleftrightarrow>
     (let key = ec_key c; t = ec_recorded_at_unix_ms c; cursor = t_change_seq db + 1;
          token = ec_causal_token c; heads = ec_head_versions c
      in crdt_grows key (sv_version ` set (ec_new_versions c))
           (db\<lparr>t_version := t_version db @ published_rows key (ec_new_versions c) t cursor,
               t_head := new_heads key heads (t_head db),
               t_change := t_change db @ [(cursor, \<lparr>chr_key = key, chr_kind = ec_change_kind c,
                 chr_head_versions = heads, chr_causal_token = token,
                 chr_event_meta_json = ec_event_meta_json c, chr_recorded_at_unix_ms = t\<rparr>)],
               t_change_seq := cursor,
               t_history := t_history db @ [((key, cursor), heads)],
               t_causal := t_causal db @ [(token, (scope_json key, cursor))],
               t_scope := tbl_upsert (scope_json key) (cursor, token) (\<lambda>_. (cursor, token)) (t_scope db),
               t_session := written_sessions (scope_json key) cursor (ec_write_session_keys c)
                              (t_session db)\<rparr>) db'
         \<and> distinct heads \<and> heads \<noteq> [] \<and> cursor \<le> i64_max
         \<and> distinct (map sv_version (ec_new_versions c))
         \<and> (\<forall>v \<in> set (ec_new_versions c). map_of (t_version db) (key, sv_version v) = None)
         \<and> (\<forall>h \<in> set heads. map_of (t_version db') (key, h) \<noteq> None)
         \<and> map_of (t_change db) cursor = None \<and> map_of (t_history db) (key, cursor) = None
         \<and> map_of (t_causal db) token = None)"

lemma commit_entity_in_transaction_Committed:
  assumes "commit_entity_in_transaction E c db = Inr (Committed, db')"
  shows "published_heads (ec_key c) db = sort (ec_expected_heads c) \<and> committed_db c db db'"
proof -
  let ?key = "ec_key c" let ?t = "ec_recorded_at_unix_ms c" let ?vs = "ec_new_versions c"
  let ?n = "t_change_seq db + 1"
  from assms obtain d1 d2 d3 d4 cursor where d:
    "insert_entity_versions E ?key ?vs None ?t db = Inr d1"
    "replace_published_heads ?key (ec_head_versions c) d1 = Inr d2"
    "insert_change E ?key (ec_change_kind c) (ec_head_versions c) (ec_causal_token c)
       (ec_event_meta_json c) ?t d2 = Inr (cursor, d3)"
    "advance_write_sessions E (scope_json ?key) (ec_write_session_keys c) cursor d3 = Inr d4"
    "db' = publish_entity_versions ?key ?vs cursor d4"
    and heads: "sort (published_heads ?key db) = sort (ec_expected_heads c)"
    by (auto simp: commit_entity_in_transaction_def Let_def bindR_eq_Inr sqlite_time_def
        split: if_splits)
  note 1 = insert_entity_versions_Ok[OF d(1)]
  from 1 obtain a b e where d1: "d1 = db\<lparr>t_version := t_version db @ fresh_rows ?key ?vs None ?t,
      t_crdt_change := t_crdt_change db @ a, t_crdt_parent := t_crdt_parent db @ b,
      t_crdt_head := t_crdt_head db @ e\<rparr>"
    and e: "\<forall>((k, v, _, _), _) \<in> set e. k = ?key \<and> v \<in> sv_version ` set ?vs"
    unfolding crdt_grows_def by auto
  note 2 = replace_published_heads_Ok[OF d(2)]
  note 3 = insert_change_Ok[OF d(3)]
  note 4 = advance_write_sessions_Ok[OF d(4)]
  have cursor: "cursor = ?n" and le: "?n \<le> i64_max" using 2 3 d1 by auto
  have fresh: "\<forall>v \<in> set ?vs. map_of (t_version db) (?key, sv_version v) = None" using 1 by blast
  have tv: "t_version db' = t_version db @ published_rows ?key ?vs ?t ?n"
    using publish_fresh_rows[OF fresh] 2 3 4 d(5) cursor d1 by (simp add: publish_entity_versions_eq)
  have present: "\<forall>h \<in> set (ec_head_versions c). map_of (t_version db') (?key, h) \<noteq> None"
    using 2 3 4 d(5) by (auto simp: publish_entity_versions_eq map_of_tbl_update)
  have "published_heads ?key db = sort (ec_expected_heads c)"
    using heads by (simp add: published_heads_def)
  moreover have "committed_db c db db'"
    unfolding committed_db_def crdt_grows_def Let_def
    using 1 2 3 4 d(5) cursor le present tv[symmetric] d1 e
    by (intro conjI exI[of _ a] exI[of _ b] exI[of _ e])
       (simp_all add: publish_entity_versions_eq publish_fresh_rows[OF fresh])
  ultimately show ?thesis by simp
qed

section \<open>Correctness of the compare-and-set\<close>

lemma heads_of_new_heads:
  "heads_of k (db\<lparr>t_head := new_heads key heads t\<rparr>) =
     (if k = key then sort heads else heads_of k (db\<lparr>t_head := t\<rparr>))"
proof -
  let ?P = "\<lambda>(j, v) (_::unit). j = k"
  have new: "tbl_select ?P (map (\<lambda>h. ((key, h), ())) (sort heads)) =
      (if k = key then map (Pair key) (sort heads) else [])"
    by (simp add: tbl_select_def filter_map comp_def)
  have "tbl_select (\<lambda>x r. ?P x r \<and> \<not> (case x of (j, _) \<Rightarrow> \<lambda>_. j = key) r) t =
      (if k = key then [] else tbl_select ?P t)"
    by (cases "k = key") (auto intro: tbl_select_none simp: tbl_select_def intro!: arg_cong[where f = "map fst"] filter_cong)
  with new show ?thesis
    by (simp add: heads_of_def new_heads_def tbl_select_delete comp_def)
qed

lemma heads_of_cong: "t_head db = t_head db' \<Longrightarrow> heads_of k db = heads_of k db'"
  by (simp add: heads_of_def)

lemma committed_db_tables:
  assumes "committed_db c db db'"
  shows "t_head db' = new_heads (ec_key c) (ec_head_versions c) (t_head db)"
    and "t_version db' = t_version db @ published_rows (ec_key c) (ec_new_versions c)
           (ec_recorded_at_unix_ms c) (t_change_seq db + 1)"
    and "t_change_seq db' = t_change_seq db + 1"
    and "t_change db' = t_change db @ [(t_change_seq db + 1, \<lparr>chr_key = ec_key c,
           chr_kind = ec_change_kind c, chr_head_versions = ec_head_versions c,
           chr_causal_token = ec_causal_token c, chr_event_meta_json = ec_event_meta_json c,
           chr_recorded_at_unix_ms = ec_recorded_at_unix_ms c\<rparr>)]"
    and "t_history db' = t_history db @ [((ec_key c, t_change_seq db + 1), ec_head_versions c)]"
    and "t_causal db' = t_causal db @
           [(ec_causal_token c, (scope_json (ec_key c), t_change_seq db + 1))]"
    and "t_scope db' = tbl_upsert (scope_json (ec_key c)) (t_change_seq db + 1, ec_causal_token c)
           (\<lambda>_. (t_change_seq db + 1, ec_causal_token c)) (t_scope db)"
    and "t_session db' = written_sessions (scope_json (ec_key c)) (t_change_seq db + 1)
           (ec_write_session_keys c) (t_session db)"
    and "t_work_unit db' = t_work_unit db" "t_wu_entity db' = t_wu_entity db"
    and "t_wu_base db' = t_wu_base db" "t_wu_head db' = t_wu_head db"
    and "t_retention db' = t_retention db" "t_idempotency db' = t_idempotency db"
    and "t_wu_idempotency db' = t_wu_idempotency db" "t_runtime db' = t_runtime db"
  using assms unfolding committed_db_def crdt_grows_def Let_def by auto

lemma committed_db_side:
  assumes "committed_db c db db'"
  shows "distinct (ec_head_versions c)" "ec_head_versions c \<noteq> []"
    and "distinct (map sv_version (ec_new_versions c))"
    and "v \<in> set (ec_new_versions c) \<Longrightarrow> map_of (t_version db) (ec_key c, sv_version v) = None"
    and "h \<in> set (ec_head_versions c) \<Longrightarrow> map_of (t_version db') (ec_key c, h) \<noteq> None"
    and "map_of (t_causal db) (ec_causal_token c) = None"
    and "t_change_seq db + 1 \<le> i64_max"
    and "map_of (t_history db) (ec_key c, t_change_seq db + 1) = None"
    and "map_of (t_change db) (t_change_seq db + 1) = None"
  using assms unfolding committed_db_def Let_def by auto

lemma published_heads_committed:
  assumes "committed_db c db db'"
  shows "published_heads k db' =
    (if k = ec_key c then sort (ec_head_versions c) else published_heads k db)"
proof -
  have "heads_of k db' = heads_of k (db'\<lparr>t_head := new_heads (ec_key c) (ec_head_versions c) (t_head db)\<rparr>)"
    using committed_db_tables(1)[OF assms] by (simp add: heads_of_def)
  also have "\<dots> = (if k = ec_key c then sort (ec_head_versions c) else heads_of k db)"
    by (simp add: heads_of_new_heads) (simp add: heads_of_def)
  finally show ?thesis by (simp add: published_heads_def)
qed

lemma map_of_published_rows:
  "k \<noteq> key \<Longrightarrow> map_of (published_rows key vs t n) (k, v) = None"
  by (auto simp: map_of_eq_None_iff)

lemma version_committed_other:
  assumes "committed_db c db db'" and "k \<noteq> ec_key c"
  shows "map_of (t_version db') (k, v) = map_of (t_version db) (k, v)"
  using assms(2)
  by (auto simp: committed_db_tables(2)[OF assms(1)] map_add_def map_of_published_rows
      split: option.splits)

lemma commit_entity_transaction_Committed:
  assumes "commit_entity_transaction E clk c db = (Inr Committed, db')"
  shows "published_heads (ec_key c) db = sort (ec_expected_heads c) \<and> committed_db c db db'
    \<and> commit_before_deadline clk (ec_deadline_unix_ms c) = Inr ()"
proof -
  from assms have "commit_entity_in_transaction E c db = Inr (Committed, db')"
    and "commit_before_deadline clk (ec_deadline_unix_ms c) = Inr ()"
    by (auto simp: commit_entity_transaction_def finish_tx_Ok
        split: if_splits sum.splits EntityCommitOutcome.splits)
  with commit_entity_in_transaction_Committed show ?thesis by blast
qed

text \<open>
  C1. The commit transaction is an atomic compare-and-set on the heads of one entity. It answers
  \<open>Committed\<close> only if the published heads were exactly the expected ones; then the new heads are
  the published ones and the heads and versions of every other entity are untouched. It answers
  \<open>Conflict\<close> with the current heads, and every error, without changing the database.
\<close>
theorem commit_compare_and_set:
  "case commit_entity_transaction E clk c db of
     (Inl e, db') \<Rightarrow> db' = db
   | (Inr (Conflict hs), db') \<Rightarrow>
       db' = db \<and> hs = published_heads (ec_key c) db \<and> hs \<noteq> sort (ec_expected_heads c)
   | (Inr Committed, db') \<Rightarrow>
       published_heads (ec_key c) db = sort (ec_expected_heads c)
       \<and> published_heads (ec_key c) db' = sort (ec_head_versions c)
       \<and> (\<forall>k v. k \<noteq> ec_key c \<longrightarrow> published_heads k db' = published_heads k db
              \<and> map_of (t_version db') (k, v) = map_of (t_version db) (k, v))"
proof (cases "commit_entity_in_transaction E c db")
  case (Inl e)
  then show ?thesis by (simp add: commit_entity_transaction_def)
next
  case (Inr r)
  obtain out d where r: "r = (out, d)" by (cases r)
  show ?thesis
  proof (cases out)
    case Committed
    with Inr r have eq: "commit_entity_in_transaction E c db = Inr (Committed, d)" by simp
    note C = commit_entity_in_transaction_Committed[OF eq]
    have com: "committed_db c db d" using C by blast
    from C published_heads_committed[OF com] version_committed_other[OF com] show ?thesis
      by (auto simp: commit_entity_transaction_def eq finish_tx_def split: sum.splits)
  next
    case (Conflict hs)
    with Inr r have "hs = published_heads (ec_key c) db \<and> hs \<noteq> sort (ec_expected_heads c)"
      by (auto simp: commit_entity_in_transaction_def Let_def bindR_eq_Inr published_heads_def
          split: if_splits)
    with Inr r Conflict show ?thesis by (auto simp: commit_entity_transaction_def)
  qed
qed

text \<open>Concrete data for the witnesses: an environment that accepts every text (objects start with
  a brace), one entity, and commits that replace its heads by a single new version.\<close>

definition sample_env :: sqlite_env where
  "sample_env = \<lparr>json_valid = (\<lambda>s. s \<noteq> []), json_object = (\<lambda>s. s \<noteq> [] \<and> hd s = CHR ''{'')\<rparr>"

definition sample_key :: "string \<Rightarrow> EntityKey" where
  "sample_key i = \<lparr>scope_json = ''{s}'', entity_type = ''knowledge'', entity_id = i\<rparr>"

definition sample_version :: "string \<Rightarrow> StoredEntityVersion" where
  "sample_version v =
     \<lparr>sv_version = v, sv_state = Active, sv_value_json = Some ''1'',
      sv_crdt_fields = [\<lparr>cf_path = ''/p'', cf_heads = [''h'' @ v],
        cf_changes = [\<lparr>cc_hash = ''h'' @ v, cc_parents = [], cc_bytes = [1]\<rparr>]\<rparr>]\<rparr>"

definition sample_commit :: "string \<Rightarrow> string list \<Rightarrow> string \<Rightarrow> EntityCommit" where
  "sample_commit i expected v =
     \<lparr>ec_key = sample_key i, ec_expected_heads = expected, ec_new_versions = [sample_version v],
      ec_head_versions = [v], ec_change_kind = Created, ec_causal_token = v,
      ec_event_meta_json = ''{}'', ec_write_session_keys = [''k''], ec_ordering_key_json = None,
      ec_recorded_at_unix_ms = 7, ec_deadline_unix_ms = Some 10\<rparr>"

definition sample_db :: sqlite_db where
  "sample_db = snd (commit_entity_transaction sample_env (Some 5) (sample_commit ''a'' [] ''v1'') empty_db)"

theorem commit_compare_and_set_witness:
  "case commit_entity_transaction sample_env (Some 5) (sample_commit ''b'' [] ''v2'') sample_db of
     (Inr Committed, db') \<Rightarrow>
       published_heads (sample_key ''b'') db' = [''v2'']
       \<and> published_heads (sample_key ''a'') db' = published_heads (sample_key ''a'') sample_db
   | _ \<Rightarrow> False"
proof -
  let ?c = "sample_commit ''b'' [] ''v2''"
  have "fst (commit_entity_transaction sample_env (Some 5) ?c sample_db) = Inr Committed"
    by code_simp
  moreover have "sort (ec_head_versions ?c) = [''v2'']" "ec_key ?c = sample_key ''b''"
    "sample_key ''a'' \<noteq> sample_key ''b''"
    by (simp_all add: sample_commit_def sample_key_def)
  ultimately show ?thesis
    using commit_compare_and_set[where E = sample_env and clk = "Some 5" and c = ?c and db = sample_db]
    by (auto split: prod.splits sum.splits)
qed

text \<open>
  No lost update. When a commit succeeds and really moves the heads, every later commit that
  still expects the old heads of that entity is refused with the heads the first one published,
  and changes nothing.
\<close>
theorem no_lost_update:
  assumes "commit_entity_transaction E clk c db = (Inr Committed, db1)"
    and "ec_key c2 = ec_key c" and "sort (ec_expected_heads c2) = sort (ec_expected_heads c)"
    and "sort (ec_head_versions c) \<noteq> sort (ec_expected_heads c)" and "ec_head_versions c2 \<noteq> []"
  shows "commit_entity_transaction E2 clk2 c2 db1 = (Inr (Conflict (sort (ec_head_versions c))), db1)"
proof -
  have "committed_db c db db1" using commit_entity_transaction_Committed[OF assms(1)] by simp
  from published_heads_committed[OF this] assms show ?thesis
    by (simp add: commit_entity_transaction_def commit_entity_in_transaction_def Let_def)
qed

lemma sample_db_committed:
  "commit_entity_transaction sample_env (Some 5) (sample_commit ''a'' [] ''v1'') empty_db
     = (Inr Committed, sample_db)"
proof -
  have "fst (commit_entity_transaction sample_env (Some 5) (sample_commit ''a'' [] ''v1'') empty_db)
      = Inr Committed"
    by code_simp
  then show ?thesis by (simp add: sample_db_def prod_eq_iff)
qed

theorem no_lost_update_witness:
  "commit_entity_transaction sample_env (Some 6) (sample_commit ''a'' [] ''v2'') sample_db
     = (Inr (Conflict [''v1'']), sample_db)"
  using no_lost_update[OF sample_db_committed, of "sample_commit ''a'' [] ''v2''"]
  by (simp add: sample_commit_def)

section \<open>Reading back what was committed\<close>

definition published_contents ::
  "EntityKey \<Rightarrow> sqlite_db \<Rightarrow> (string \<times> StoredVersionState \<times> string option) set" where
  "published_contents key db =
     version_content ` set (stored_versions key (\<lambda>_ row. evr_published_cursor row \<noteq> None) db)"

lemma published_contents_rows:
  "published_contents key db =
     (\<lambda>((_, v), r). (v, evr_state r, evr_value_json r)) `
       {((k, v), r) \<in> set (t_version db). k = key \<and> evr_published_cursor r \<noteq> None}"
proof -
  have "version_content ` set (stored_versions key P db) =
      (\<lambda>((_, v), r). (v, evr_state r, evr_value_json r)) `
        {((k, v), r) \<in> set (t_version db). k = key \<and> P v r}" for P
    unfolding stored_versions_def set_map set_sort set_filter image_image
    by (rule image_cong) (auto simp: version_content_def)
  then show ?thesis by (simp add: published_contents_def)
qed

lemma published_contents_committed:
  assumes "committed_db c db db'"
  shows "published_contents k db' = published_contents k db
    \<union> (if k = ec_key c then version_content ` set (ec_new_versions c) else {})"
proof -
  let ?f = "\<lambda>((_ :: EntityKey, v), r). (v, evr_state r, evr_value_json r)"
  let ?rows = "published_rows (ec_key c) (ec_new_versions c) (ec_recorded_at_unix_ms c) (t_change_seq db + 1)"
  let ?P = "\<lambda>((j, _), r). j = k \<and> evr_published_cursor r \<noteq> None"
  have "?f ` {x \<in> set ?rows. ?P x} =
      (if k = ec_key c then version_content ` set (ec_new_versions c) else {})"
    by (force simp: published_row_def fresh_row_def version_content_def image_def)
  moreover have "{x \<in> set (t_version db'). ?P x} = {x \<in> set (t_version db). ?P x} \<union> {x \<in> set ?rows. ?P x}"
    unfolding committed_db_tables(2)[OF assms] set_append by blast
  ultimately show ?thesis
    unfolding published_contents_rows by (simp add: image_Un case_prod_beta')
qed

text \<open>
  Reading an entity back after a commit returns the heads that were committed (sorted), and its
  versions are the ones published before together with exactly the committed ones, each with its
  state and value; every other entity reads the same heads and the same versions as before.
\<close>
theorem commit_then_read:
  assumes "commit_entity_transaction E clk c db = (Inr Committed, db')"
  shows "(\<exists>sn. read_entity_snapshot (ec_key c) db' = Some sn
            \<and> sn_head_versions sn = sort (ec_head_versions c)
            \<and> version_content ` set (sn_versions sn) =
                published_contents (ec_key c) db \<union> version_content ` set (ec_new_versions c))
    \<and> (\<forall>k. k \<noteq> ec_key c \<longrightarrow>
         map_option sn_head_versions (read_entity_snapshot k db') =
           map_option sn_head_versions (read_entity_snapshot k db)
         \<and> published_contents k db' = published_contents k db)"
proof -
  have com: "committed_db c db db'" using commit_entity_transaction_Committed[OF assms] by simp
  have heads: "sort (ec_head_versions c) \<noteq> []" using committed_db_side(2)[OF com] by simp
  show ?thesis
    using heads published_heads_committed[OF com] published_contents_committed[OF com]
    by (auto simp: read_entity_snapshot_def Let_def published_contents_def)
qed

theorem commit_then_read_witness:
  "\<exists>sn. read_entity_snapshot (sample_key ''a'') sample_db = Some sn
     \<and> sn_head_versions sn = [''v1'']
     \<and> version_content ` set (sn_versions sn) = {(''v1'', Active, Some ''1'')}"
proof -
  have "published_contents (sample_key ''a'') empty_db = {}"
    by (simp add: published_contents_rows empty_db_def)
  then show ?thesis
    using commit_then_read[OF sample_db_committed]
    by (simp add: sample_commit_def sample_version_def version_content_def)
qed

end
