(* ===== verification/Sqlite_Consistency.thy ===== *)
theory Sqlite_Consistency
  imports Sqlite_Commit
begin

text \<open>
  Consistency-checked reads, the session and causal frontiers, idempotent commits and the change
  log reader of \<open>crates/provider-sqlite/src/lib.rs\<close>: \<open>consistency_observation\<close>,
  \<open>advance_read_sessions\<close>, \<open>read_entity_consistent\<close>, \<open>read_idempotency\<close>,
  \<open>read_idempotency_consistent\<close>, \<open>commit_entity_idempotent\<close> and \<open>read_changes\<close>.

  A read that checks a deadline reads the clock twice, on entry and before its commit; the two
  readings are the arguments \<open>clk\<close> and \<open>clk'\<close>.
\<close>

section \<open>Observations\<close>

definition token_visible :: "string \<Rightarrow> nat \<Rightarrow> sqlite_db \<Rightarrow> string \<Rightarrow> bool" where
  "token_visible scope frontier db token =
     (case map_of (t_causal db) token of
        None \<Rightarrow> False
      | Some (s, cursor) \<Rightarrow> s = scope \<and> \<not> cursor > frontier)"

definition session_required :: "string \<Rightarrow> SessionConsistency \<Rightarrow> sqlite_db \<Rightarrow> nat" where
  "session_required scope session db =
     (case map_of (t_session db) (scope, sc_key_json session) of
        None \<Rightarrow> 0
      | Some (r, w) \<Rightarrow>
          max (if sc_monotonic_reads session then r else 0)
              (if sc_read_your_writes session then w else 0))"

definition frontier_token :: "string \<Rightarrow> nat \<Rightarrow> sqlite_db \<Rightarrow> string option" where
  "frontier_token scope frontier db =
     map_option fst (find (\<lambda>(_, s, cursor). s = scope \<and> cursor = frontier) (t_causal db))"

definition consistency_observation ::
  "clock \<Rightarrow> string \<Rightarrow> ReadConsistency \<Rightarrow> nat \<Rightarrow> bool \<Rightarrow> sqlite_db \<Rightarrow> ReadObservation option presult" where
  "consistency_observation clk scope consistency frontier apply_linearization db =
     bindR (commit_before_deadline clk (rc_deadline_unix_ms consistency)) (\<lambda>_.
       if Authority \<notin> set (rc_allowed_sources consistency) then Ok None
       else if \<not> list_all (token_visible scope frontier db) (rc_minimum_tokens consistency) then Ok None
       else if \<not> list_all (\<lambda>s. \<not> session_required scope s db > frontier) (rc_sessions consistency)
         then Ok None
       else
         bindR (if frontier = 0 then Ok None
                else bindR (bind_u64 frontier) (\<lambda>f. Ok (frontier_token scope f db))) (\<lambda>token.
           Ok (Some \<lparr>ob_source = Authority, ob_frontier = frontier, ob_causal_token = token\<rparr>)))"

definition advance_read_session ::
  "sqlite_env \<Rightarrow> string \<Rightarrow> nat \<Rightarrow> SessionConsistency \<Rightarrow> sqlite_db \<Rightarrow> sqlite_db presult" where
  "advance_read_session E scope frontier session db =
     bindR (bind_u64 frontier) (\<lambda>f.
     bindR (guardR (json_object E scope \<and> json_valid E (sc_key_json session)) database_error) (\<lambda>_.
       Ok (db\<lparr>t_session := tbl_upsert (scope, sc_key_json session) (f, 0)
                (\<lambda>(r, w). (max r f, w)) (t_session db)\<rparr>)))"

definition advance_read_sessions ::
  "sqlite_env \<Rightarrow> string \<Rightarrow> ReadConsistency \<Rightarrow> nat \<Rightarrow> sqlite_db \<Rightarrow> sqlite_db presult" where
  "advance_read_sessions E scope consistency frontier =
     foldR (advance_read_session E scope frontier)
       (filter sc_monotonic_reads (rc_sessions consistency))"

definition read_entity_consistent ::
  "sqlite_env \<Rightarrow> clock \<Rightarrow> clock \<Rightarrow> EntityKey \<Rightarrow> ReadConsistency \<Rightarrow> sqlite_db
   \<Rightarrow> EntitySnapshot option ConsistentRead db_step" where
  "read_entity_consistent E clk clk' key consistency db =
     (case consistency_observation clk (scope_json key) consistency
             (current_scope_cursor (scope_json key) db) True db of
        Inl e \<Rightarrow> (Err e, db)
      | Inr None \<Rightarrow> (Ok ReadUnavailable, db)
      | Inr (Some observation) \<Rightarrow>
          (let snapshot = read_entity_snapshot key db
           in finish_tx clk' (rc_deadline_unix_ms consistency) db
                (bindR (advance_read_sessions E (scope_json key) consistency
                          (ob_frontier observation) db)
                   (\<lambda>db'. Ok (Read snapshot observation, db')))))"

section \<open>Idempotency records\<close>

definition delete_expired_idempotency :: "nat \<Rightarrow> sqlite_db \<Rightarrow> sqlite_db presult" where
  "delete_expired_idempotency now db =
     bindR (bind_u64 now) (\<lambda>now.
       Ok (db\<lparr>t_idempotency := tbl_delete (\<lambda>_ r. idr_expires_at_unix_ms r \<le> now) (t_idempotency db),
              t_wu_idempotency :=
                tbl_delete (\<lambda>_ r. wir_expires_at_unix_ms r \<le> now) (t_wu_idempotency db)\<rparr>))"

definition read_idempotency ::
  "string \<Rightarrow> string \<Rightarrow> nat \<Rightarrow> sqlite_db \<Rightarrow> (IdempotencyReadOutcome \<times> sqlite_db) presult" where
  "read_idempotency identity request now db =
     bindR (delete_expired_idempotency now db) (\<lambda>db.
       let outcome =
         (case map_of (t_idempotency db) identity of
            None \<Rightarrow> IdemMissing
          | Some r \<Rightarrow> if idr_request_json r = request then IdemReplayed (idr_result_json r)
                      else IdemConflict)
       in if outcome \<noteq> IdemMissing then Ok (outcome, db)
          else Ok (if map_of (t_wu_idempotency db) identity \<noteq> None then IdemConflict
                   else IdemMissing, db))"

definition read_idempotency_consistent ::
  "sqlite_env \<Rightarrow> clock \<Rightarrow> clock \<Rightarrow> string \<Rightarrow> ReadConsistency \<Rightarrow> string \<Rightarrow> string \<Rightarrow> nat \<Rightarrow> sqlite_db
   \<Rightarrow> IdempotencyReadOutcome db_step" where
  "read_idempotency_consistent E clk clk' scope consistency identity request now db =
     (case consistency_observation clk scope consistency (current_scope_cursor scope db) True db of
        Inl e \<Rightarrow> (Err e, db)
      | Inr None \<Rightarrow> (Ok IdemUnavailable, db)
      | Inr (Some observation) \<Rightarrow>
          finish_tx clk' (rc_deadline_unix_ms consistency) db
            (bindR (read_idempotency identity request now db) (\<lambda>(outcome, db).
             bindR (advance_read_sessions E scope consistency (ob_frontier observation) db) (\<lambda>db.
               Ok (outcome, db)))))"

definition insert_idempotency ::
  "sqlite_env \<Rightarrow> IdempotencyRecord \<Rightarrow> sqlite_db \<Rightarrow> sqlite_db presult" where
  "insert_idempotency E r db =
     bindR (bind_u64 (ir_expires_at_unix_ms r)) (\<lambda>expires.
     bindR (guardR (json_valid E (ir_identity_json r) \<and> json_valid E (ir_request_json r)
                    \<and> json_valid E (ir_result_json r)) database_error) (\<lambda>_.
     bindR (ok_or (tbl_insert (ir_identity_json r)
              \<lparr>idr_request_json = ir_request_json r, idr_result_json = ir_result_json r,
               idr_expires_at_unix_ms = expires\<rparr> (t_idempotency db)) database_error) (\<lambda>t.
       Ok (db\<lparr>t_idempotency := t\<rparr>))))"

definition commit_entity_idempotent ::
  "sqlite_env \<Rightarrow> clock \<Rightarrow> EntityCommit \<Rightarrow> IdempotencyRecord \<Rightarrow> nat \<Rightarrow> sqlite_db
   \<Rightarrow> IdempotentCommitOutcome db_step" where
  "commit_entity_idempotent E clk c idem now db =
     (case delete_expired_idempotency now db of
        Inl e \<Rightarrow> (Err e, db)
      | Inr db1 \<Rightarrow>
          (case map_of (t_idempotency db1) (ir_identity_json idem) of
             Some r \<Rightarrow>
               (Ok (if idr_request_json r = ir_request_json idem then IReplayed (idr_result_json r)
                    else IIdempotencyConflict), db)
           | None \<Rightarrow>
               if map_of (t_wu_idempotency db1) (ir_identity_json idem) \<noteq> None
               then (Ok IIdempotencyConflict, db)
               else
                 (case commit_entity_in_transaction E c db1 of
                    Inl e \<Rightarrow> (Err e, db)
                  | Inr (Conflict hs, _) \<Rightarrow> (Ok (IEntityConflict hs), db)
                  | Inr (Committed, db2) \<Rightarrow>
                      finish_tx clk (ec_deadline_unix_ms c) db
                        (bindR (insert_idempotency E idem db2) (\<lambda>db3. Ok (ICommitted, db3))))))"

section \<open>The change log\<close>

text \<open>Pruning: the newest cursor that falls out of retention is recorded per scope, then the rows
  are deleted. Each of the two statements commits by itself.\<close>

definition expired_changes :: "nat \<Rightarrow> sqlite_db \<Rightarrow> (nat \<times> change_row) list" where
  "expired_changes retained_after db =
     filter (\<lambda>(_, r). chr_recorded_at_unix_ms r < retained_after) (t_change db)"

definition pruned_cursor :: "string \<Rightarrow> (nat \<times> change_row) list \<Rightarrow> nat" where
  "pruned_cursor scope rows =
     fold max (map fst (filter (\<lambda>(_, r). scope_json (chr_key r) = scope) rows)) 0"

definition record_retention :: "nat \<Rightarrow> sqlite_db \<Rightarrow> sqlite_db presult" where
  "record_retention retained_after db =
     bindR (bind_u64 retained_after) (\<lambda>t.
     let rows = expired_changes t db;
         scopes = sort_dedup (map (\<lambda>(_, r). scope_json (chr_key r)) rows)
     in bindR (guardR (\<forall>s \<in> set scopes. pruned_cursor s rows > 0) database_error) (\<lambda>_.
          Ok (db\<lparr>t_retention :=
                fold (\<lambda>s. tbl_upsert s (pruned_cursor s rows) (\<lambda>old. max old (pruned_cursor s rows)))
                  scopes (t_retention db)\<rparr>)))"

definition delete_changes :: "nat \<Rightarrow> sqlite_db \<Rightarrow> sqlite_db" where
  "delete_changes retained_after db =
     db\<lparr>t_change := tbl_delete (\<lambda>_ r. chr_recorded_at_unix_ms r < retained_after) (t_change db)\<rparr>"

definition change_matches :: "ChangeQuery \<Rightarrow> change_row \<Rightarrow> bool" where
  "change_matches q r \<longleftrightarrow>
     \<not> ((case cq_entity_types q of None \<Rightarrow> False | Some types \<Rightarrow> entity_type (chr_key r) \<notin> set types)
        \<or> (case cq_entity_ids q of None \<Rightarrow> False | Some ids \<Rightarrow> entity_id (chr_key r) \<notin> set ids))"

definition to_stored_change :: "nat \<times> change_row \<Rightarrow> StoredChange" where
  "to_stored_change = (\<lambda>(cursor, r).
     \<lparr>ch_cursor = cursor, ch_entity_type = entity_type (chr_key r),
      ch_entity_id = entity_id (chr_key r), ch_kind = chr_kind r,
      ch_head_versions = chr_head_versions r, ch_event_meta_json = chr_event_meta_json r\<rparr>)"

fun collect_changes ::
  "ChangeQuery \<Rightarrow> (nat \<times> change_row) list \<Rightarrow> StoredChange list \<Rightarrow> StoredChange list" where
  "collect_changes q [] changes = changes"
| "collect_changes q (row # rows) changes =
     (if \<not> change_matches q (snd row) then collect_changes q rows changes
      else let changes = changes @ [to_stored_change row]
           in if length changes = cq_limit q then changes else collect_changes q rows changes)"

definition changes_after :: "string \<Rightarrow> nat \<Rightarrow> sqlite_db \<Rightarrow> (nat \<times> change_row) list" where
  "changes_after scope after db =
     sort_key fst (filter (\<lambda>(c, r). scope_json (chr_key r) = scope \<and> c > after) (t_change db))"

definition read_changes :: "ChangeQuery \<Rightarrow> sqlite_db \<Rightarrow> ChangePage db_step" where
  "read_changes q db =
     (case record_retention (cq_retained_after_unix_ms q) db of
        Inl e \<Rightarrow> (Err e, db)
      | Inr db1 \<Rightarrow>
          (let db2 = delete_changes (cq_retained_after_unix_ms q) db1
           in case bind_u64 (cq_after_cursor q) of
                Inl e \<Rightarrow> (Err e, db2)
              | Inr after \<Rightarrow>
                  (Ok \<lparr>oldest_cursor = map_option (\<lambda>c. saturating_add_u64 c 1)
                          (map_of (t_retention db2) (cq_scope_json q)),
                       current_cursor = current_scope_cursor (cq_scope_json q) db2,
                       page_changes =
                         collect_changes q (changes_after (cq_scope_json q) after db2) []\<rparr>, db2)))"


section \<open>The frontier invariant\<close>

text \<open>The scope frontier points at its own causal token, no causal or session frontier of a scope
  is ahead of it, and causal cursors are unique.\<close>

definition frontiers_ok :: "sqlite_db \<Rightarrow> bool" where
  "frontiers_ok db \<longleftrightarrow>
     tbl_wf (t_scope db) \<and> tbl_wf (t_causal db) \<and> tbl_wf (t_session db)
     \<and> t_change_seq db \<le> i64_max
     \<and> (\<forall>(s, c, tok) \<in> set (t_scope db). c \<le> t_change_seq db \<and> map_of (t_causal db) tok = Some (s, c))
     \<and> (\<forall>(tok, s, c) \<in> set (t_causal db). 0 < c \<and> c \<le> current_scope_cursor s db)
     \<and> distinct (map (\<lambda>(_, _, c). c) (t_causal db))
     \<and> (\<forall>((s, k), r, w) \<in> set (t_session db).
           r \<le> current_scope_cursor s db \<and> w \<le> current_scope_cursor s db)"

lemma frontiers_ok_cong:
  "t_scope db' = t_scope db \<Longrightarrow> t_causal db' = t_causal db \<Longrightarrow> t_session db' = t_session db \<Longrightarrow>
   t_change_seq db' = t_change_seq db \<Longrightarrow> frontiers_ok db' = frontiers_ok db"
  by (simp add: frontiers_ok_def current_scope_cursor_def)

lemma frontiers_ok_empty: "frontiers_ok empty_db"
  by (simp add: frontiers_ok_def empty_db_def)

lemma frontiers_ok_scope:
  assumes "frontiers_ok db" and "map_of (t_scope db) s = Some (c, tok)"
  shows "c \<le> t_change_seq db" "map_of (t_causal db) tok = Some (s, c)" "current_scope_cursor s db = c"
  using assms map_of_SomeD[OF assms(2)] by (auto simp: frontiers_ok_def current_scope_cursor_def)

lemma frontiers_ok_causal:
  assumes "frontiers_ok db" and "map_of (t_causal db) tok = Some (s, c)"
  shows "0 < c" "c \<le> current_scope_cursor s db"
  using assms map_of_SomeD[OF assms(2)] by (auto simp: frontiers_ok_def)

lemma frontiers_ok_session:
  assumes "frontiers_ok db" and "map_of (t_session db) (s, k) = Some (r, w)"
  shows "r \<le> current_scope_cursor s db" "w \<le> current_scope_cursor s db"
  using assms map_of_SomeD[OF assms(2)] by (auto simp: frontiers_ok_def)

lemma current_scope_cursor_le:
  "frontiers_ok db \<Longrightarrow> current_scope_cursor s db \<le> t_change_seq db"
  using frontiers_ok_scope(1)[of db s]
  by (auto simp: current_scope_cursor_def split: option.split)

lemma current_scope_cursor_i64: "frontiers_ok db \<Longrightarrow> current_scope_cursor s db \<le> i64_max"
  using current_scope_cursor_le[of db s] by (simp add: frontiers_ok_def)

lemma frontier_token_current:
  assumes ok: "frontiers_ok db" and tok: "map_of (t_causal db) tok = Some (s, c)"
  shows "frontier_token s c db = Some tok"
proof -
  have mem: "(tok, s, c) \<in> set (t_causal db)" by (rule map_of_SomeD[OF tok])
  have dist: "distinct (map (\<lambda>(_, _, c). c) (t_causal db))" using ok by (simp add: frontiers_ok_def)
  let ?P = "\<lambda>(_, s', c'). s' = s \<and> c' = c"
  have "find ?P (t_causal db) \<noteq> None"
    using mem by (auto simp: find_None_iff)
  then obtain x where x: "find ?P (t_causal db) = Some x" by blast
  then have "x \<in> set (t_causal db)" "?P x" by (auto simp: find_Some_iff) (metis nth_mem)
  then obtain t where t: "x = (t, s, c)" "(t, s, c) \<in> set (t_causal db)" by (cases x) auto
  have "t = tok"
    using dist t(2) mem unfolding distinct_map inj_on_def by fastforce
  with x t show ?thesis by (simp add: frontier_token_def)
qed

lemma current_scope_cursor_upsert:
  "current_scope_cursor s (db\<lparr>t_scope := tbl_upsert s' (c, tok) (\<lambda>_. (c, tok)) t, t_change_seq := n\<rparr>) =
     (if s = s' then c else case map_of t s of None \<Rightarrow> 0 | Some (c, _) \<Rightarrow> c)"
  by (auto simp: current_scope_cursor_def map_of_tbl_upsert split: option.splits)

lemma insert_change_cursor:
  assumes "insert_change E key kind heads token meta t db = Inr (cursor, db')"
  shows "current_scope_cursor s db' =
    (if s = scope_json key then cursor else current_scope_cursor s db)"
  using insert_change_Ok[OF assms]
  by (auto simp: current_scope_cursor_def map_of_tbl_upsert split: option.splits)

lemma frontiers_okI:
  assumes "frontiers_ok db" "tbl_wf (t_scope db')" "tbl_wf (t_causal db')" "t_session db' = t_session db"
    and "t_change_seq db' \<le> i64_max"
    and "\<And>s c tok. map_of (t_scope db') s = Some (c, tok) \<Longrightarrow> c \<le> t_change_seq db' \<and> map_of (t_causal db') tok = Some (s, c)"
    and "\<And>tok s c. (tok, s, c) \<in> set (t_causal db') \<Longrightarrow> 0 < c \<and> c \<le> current_scope_cursor s db'"
    and "distinct (map (\<lambda>(_, _, c). c) (t_causal db'))"
    and mono: "\<And>s. current_scope_cursor s db \<le> current_scope_cursor s db'"
  shows "frontiers_ok db'"
proof -
  have "r \<le> current_scope_cursor s db' \<and> w \<le> current_scope_cursor s db'" if "((s, k), r, w) \<in> set (t_session db')" for s k r w
    using that assms(1,4) mono[of s] by (fastforce simp: frontiers_ok_def)
  with assms show ?thesis unfolding frontiers_ok_def
    by (auto simp: frontiers_ok_def map_of_wf_iff[symmetric])
qed

lemma frontiers_ok_insert_change:
  assumes "insert_change E key kind heads token meta t db = Inr (cursor, db')" and ok: "frontiers_ok db"
  shows "frontiers_ok db'"
proof -
  note I = insert_change_Ok[OF assms(1)]
  note csc = insert_change_cursor[OF assms(1)]
  let ?s = "scope_json key"
  have lt: "current_scope_cursor s db < cursor" for s
    using current_scope_cursor_le[OF ok, of s] I by simp
  have mono: "current_scope_cursor s db \<le> current_scope_cursor s db'" for s
    using lt[of s] by (auto simp: csc)
  have causal: "t_causal db' = t_causal db @ [(token, ?s, cursor)]"
    and scope: "t_scope db' = tbl_upsert ?s (cursor, token) (\<lambda>_. (cursor, token)) (t_scope db)"
    and session: "t_session db' = t_session db" and seq: "t_change_seq db' = cursor"
    and fresh: "map_of (t_causal db) token = None" and le: "cursor \<le> i64_max" using I by auto
  have wf: "tbl_wf (t_scope db')" "tbl_wf (t_causal db')"
    using ok by (auto simp: scope causal frontiers_ok_def tbl_wf_append_single fresh)
  have old: "map_of (t_causal db') tok = Some x" if "map_of (t_causal db) tok = Some x" for tok x
    using that fresh by (auto simp: causal map_add_def)
  have scopes: "c \<le> cursor \<and> map_of (t_causal db') tok = Some (s, c)"
    if "map_of (t_scope db') s = Some (c, tok)" for s c tok
  proof (cases "s = ?s")
    case True
    with that fresh show ?thesis
      by (auto simp: scope causal map_of_tbl_upsert map_add_def split: option.splits)
  next
    case False
    with that have old_s: "map_of (t_scope db) s = Some (c, tok)"
      by (auto simp: scope map_of_tbl_upsert)
    with frontiers_ok_scope[OF ok old_s] I show ?thesis by (auto intro: old)
  qed
  have causals: "0 < c \<and> c \<le> current_scope_cursor s db'" if "(tok, s, c) \<in> set (t_causal db')" for tok s c
  proof -
    from that consider "(tok, s, c) \<in> set (t_causal db)" | "s = ?s" "c = cursor"
      by (auto simp: causal)
    then show ?thesis
    proof cases
      case 1
      then have "0 < c" "c \<le> current_scope_cursor s db" using ok by (auto simp: frontiers_ok_def)
      then show ?thesis using mono[of s] by simp
    next
      case 2
      then show ?thesis using lt[of ?s] by (simp add: csc)
    qed
  qed
  have "cursor \<notin> (\<lambda>(_, _, c). c) ` set (t_causal db)"
  proof
    assume "cursor \<in> (\<lambda>(_, _, c). c) ` set (t_causal db)"
    then obtain tok s where "(tok, s, cursor) \<in> set (t_causal db)" by auto
    then have "cursor \<le> current_scope_cursor s db" using ok by (auto simp: frontiers_ok_def)
    with lt[of s] show False by simp
  qed
  then have dist: "distinct (map (\<lambda>(_, _, c). c) (t_causal db'))"
    using ok by (simp add: causal frontiers_ok_def)
  show ?thesis
    by (rule frontiers_okI[OF ok wf session _ _ causals dist mono]) (use seq le scopes in auto)
qed

text \<open>Advancing a session to a cursor the scope has reached keeps the invariant; no session cursor
  ever decreases.\<close>

definition sessions_advance :: "sqlite_db \<Rightarrow> sqlite_db \<Rightarrow> bool" where
  "sessions_advance db db' \<longleftrightarrow>
     (\<forall>s k r w. map_of (t_session db) (s, k) = Some (r, w) \<longrightarrow>
        (\<exists>r' w'. map_of (t_session db') (s, k) = Some (r', w') \<and> r \<le> r' \<and> w \<le> w'))"

lemma sessions_advance_refl: "sessions_advance db db"
  by (simp add: sessions_advance_def)

lemma sessions_advance_trans:
  "sessions_advance a b \<Longrightarrow> sessions_advance b c \<Longrightarrow> sessions_advance a c"
  unfolding sessions_advance_def by (meson order_trans)

lemma sessions_advance_eq: "t_session db' = t_session db \<Longrightarrow> sessions_advance db db'"
  by (simp add: sessions_advance_def)

lemma session_upsert_ok:
  assumes ok: "frontiers_ok db" and new: "r0 \<le> current_scope_cursor s db" "w0 \<le> current_scope_cursor s db"
  shows "frontiers_ok (db\<lparr>t_session := tbl_upsert (s, k) (r0, w0) (\<lambda>(r, w). (max r r0, max w w0)) (t_session db)\<rparr>)"
    (is "frontiers_ok ?db'")
proof -
  have wf: "tbl_wf (t_session ?db')" using ok by (auto simp: frontiers_ok_def)
  have "r \<le> current_scope_cursor s' ?db' \<and> w \<le> current_scope_cursor s' ?db'"
    if "map_of (t_session ?db') (s', k') = Some (r, w)" for s' k' r w
  proof (cases "map_of (t_session db) (s', k')")
    case None
    with that new show ?thesis
      by (auto simp: map_of_tbl_upsert current_scope_cursor_def split: if_splits)
  next
    case (Some rw)
    obtain r1 w1 where rw: "rw = (r1, w1)" by (cases rw)
    from frontiers_ok_session[OF ok Some[unfolded rw]] Some rw that new show ?thesis
      by (auto simp: map_of_tbl_upsert current_scope_cursor_def split: if_splits)
  qed
  with ok wf show ?thesis
    unfolding frontiers_ok_def
    by (auto simp: current_scope_cursor_def map_of_wf_iff[symmetric])
qed

lemma session_upsert_advances:
  "sessions_advance db (db\<lparr>t_session := tbl_upsert (s, k) (r0, w0) (\<lambda>(r, w). (max r r0, max w w0)) (t_session db)\<rparr>)"
  by (auto simp: sessions_advance_def map_of_tbl_upsert)

lemma advance_write_session_eq:
  "advance_write_session E scope cursor key db = Inr db' \<Longrightarrow>
   db' = db\<lparr>t_session := tbl_upsert (scope, key) (0, cursor) (\<lambda>(r, w). (max r 0, max w cursor)) (t_session db)\<rparr>"
  by (auto simp: advance_write_session_def bindR_eq_Inr)

lemma advance_read_session_eq:
  "advance_read_session E scope f session db = Inr db' \<Longrightarrow>
   db' = db\<lparr>t_session := tbl_upsert (scope, sc_key_json session) (f, 0) (\<lambda>(r, w). (max r f, max w 0)) (t_session db)\<rparr>"
  by (auto simp: advance_read_session_def bindR_eq_Inr bind_u64_def split: if_splits)

lemma advance_write_sessions_keeps:
  assumes "advance_write_sessions E scope keys cursor db = Inr db'"
    and "frontiers_ok db" and "cursor \<le> current_scope_cursor scope db"
  shows "frontiers_ok db' \<and> sessions_advance db db'"
proof -
  have "frontiers_ok db' \<and> sessions_advance db db' \<and> cursor \<le> current_scope_cursor scope db'"
    using assms unfolding advance_write_sessions_def
    by (elim foldR_invariant)
       (auto dest!: advance_write_session_eq simp: sessions_advance_refl current_scope_cursor_def
          intro!: session_upsert_ok intro: sessions_advance_trans session_upsert_advances)
  then show ?thesis by simp
qed

lemma advance_read_sessions_keeps:
  assumes "advance_read_sessions E scope consistency f db = Inr db'"
    and "frontiers_ok db" and "f \<le> current_scope_cursor scope db"
  shows "frontiers_ok db' \<and> sessions_advance db db'"
proof -
  have "frontiers_ok db' \<and> sessions_advance db db' \<and> f \<le> current_scope_cursor scope db'"
    using assms unfolding advance_read_sessions_def
    by (elim foldR_invariant)
       (auto dest!: advance_read_session_eq simp: sessions_advance_refl current_scope_cursor_def
          intro!: session_upsert_ok intro: sessions_advance_trans session_upsert_advances)
  then show ?thesis by simp
qed


section \<open>Consistency-checked reads\<close>

lemma consistency_observation_Some:
  "consistency_observation clk scope rc f al db = Inr (Some ob) \<longleftrightarrow>
     commit_before_deadline clk (rc_deadline_unix_ms rc) = Inr ()
     \<and> Authority \<in> set (rc_allowed_sources rc)
     \<and> list_all (token_visible scope f db) (rc_minimum_tokens rc)
     \<and> list_all (\<lambda>s. session_required scope s db \<le> f) (rc_sessions rc)
     \<and> f \<le> i64_max
     \<and> ob = \<lparr>ob_source = Authority, ob_frontier = f,
             ob_causal_token = (if f = 0 then None else frontier_token scope f db)\<rparr>"
  by (auto simp: consistency_observation_def bindR_eq_Inr bind_u64_def not_less
      split: if_splits cong: list.pred_cong)

lemma session_required_current:
  "frontiers_ok db \<Longrightarrow> session_required scope s db \<le> current_scope_cursor scope db"
  using frontiers_ok_session[of db scope "sc_key_json s"]
  by (auto simp: session_required_def split: option.split)

lemma token_visible_current:
  "frontiers_ok db \<Longrightarrow> token_visible scope (current_scope_cursor scope db) db tok \<longleftrightarrow>
     (\<exists>c. map_of (t_causal db) tok = Some (scope, c))"
  using frontiers_ok_causal(2)[of db tok scope]
  by (force simp: token_visible_def not_less split: option.splits)

lemma frontier_token_scope:
  assumes "frontiers_ok db"
  shows "(if current_scope_cursor scope db = 0 then None
          else frontier_token scope (current_scope_cursor scope db) db)
         = map_option snd (map_of (t_scope db) scope)"
proof (cases "map_of (t_scope db) scope")
  case None
  then show ?thesis by (simp add: current_scope_cursor_def)
next
  case (Some ct)
  obtain c tok where ct: "ct = (c, tok)" by (cases ct)
  note F = frontiers_ok_scope[OF assms Some[unfolded ct]]
  have "0 < c" by (rule frontiers_ok_causal(1)[OF assms F(2)])
  with F Some ct frontier_token_current[OF assms F(2)] show ?thesis by simp
qed

lemma advance_read_sessions_total:
  assumes "f \<le> i64_max" and "json_object E scope"
    and "\<forall>s \<in> set (rc_sessions rc). sc_monotonic_reads s \<longrightarrow> json_valid E (sc_key_json s)"
  shows "\<exists>db'. advance_read_sessions E scope rc f db = Inr db'"
proof -
  have "\<forall>s \<in> set ss. json_valid E (sc_key_json s) \<Longrightarrow>
      \<exists>db'. foldR (advance_read_session E scope f) ss db = Inr db'" for ss db
    by (induction ss arbitrary: db)
       (use assms(1,2) in \<open>auto simp: advance_read_session_def bind_u64_def\<close>)
  then show ?thesis using assms(3) by (simp add: advance_read_sessions_def)
qed

definition read_cursor :: "string \<Rightarrow> string \<Rightarrow> sqlite_db \<Rightarrow> nat" where
  "read_cursor scope k db = (case map_of (t_session db) (scope, k) of None \<Rightarrow> 0 | Some (r, _) \<Rightarrow> r)"

definition write_cursor :: "string \<Rightarrow> string \<Rightarrow> sqlite_db \<Rightarrow> nat" where
  "write_cursor scope k db = (case map_of (t_session db) (scope, k) of None \<Rightarrow> 0 | Some (_, w) \<Rightarrow> w)"

lemma session_required_cursors:
  "session_required scope s db =
     max (if sc_monotonic_reads s then read_cursor scope (sc_key_json s) db else 0)
         (if sc_read_your_writes s then write_cursor scope (sc_key_json s) db else 0)"
  by (auto simp: session_required_def read_cursor_def write_cursor_def split: option.split)

lemma sessions_advance_cursors:
  assumes "sessions_advance db db'"
  shows "read_cursor s k db \<le> read_cursor s k db'" "write_cursor s k db \<le> write_cursor s k db'"
proof -
  have "read_cursor s k db \<le> read_cursor s k db' \<and> write_cursor s k db \<le> write_cursor s k db'"
  proof (cases "map_of (t_session db) (s, k)")
    case (Some rw)
    obtain r w where "rw = (r, w)" by (cases rw)
    with Some assms obtain r' w' where "map_of (t_session db') (s, k) = Some (r', w')" "r \<le> r'" "w \<le> w'"
      unfolding sessions_advance_def by blast
    with Some \<open>rw = (r, w)\<close> show ?thesis by (simp add: read_cursor_def write_cursor_def)
  qed (simp add: read_cursor_def write_cursor_def)
  then show "read_cursor s k db \<le> read_cursor s k db'" "write_cursor s k db \<le> write_cursor s k db'" by simp_all
qed

lemma advance_read_sessions_recorded:
  assumes "advance_read_sessions E scope rc f db = Inr db'"
    and "s \<in> set (rc_sessions rc)" and "sc_monotonic_reads s"
  shows "f \<le> read_cursor scope (sc_key_json s) db'"
proof -
  have "foldR (advance_read_session E scope f) ss db = Inr db' \<Longrightarrow> s \<in> set ss \<Longrightarrow>
      f \<le> read_cursor scope (sc_key_json s) db'" for ss db
  proof (induction ss arbitrary: db)
    case (Cons t ss)
    from Cons.prems(1) obtain d where d: "advance_read_session E scope f t db = Inr d"
      "foldR (advance_read_session E scope f) ss d = Inr db'" by (auto simp: bindR_eq_Inr)
    show ?case
    proof (cases "s \<in> set ss")
      case True
      with Cons.IH[OF d(2)] show ?thesis by simp
    next
      case False
      with Cons.prems(2) have "t = s" by simp
      with advance_read_session_eq[OF d(1)] have "f \<le> read_cursor scope (sc_key_json s) d"
        by (auto simp: read_cursor_def map_of_tbl_upsert split: option.splits)
      moreover have "sessions_advance d db'"
        by (rule foldR_relates[OF d(2)]) (auto intro: sessions_advance_refl sessions_advance_trans
            dest!: advance_read_session_eq intro!: session_upsert_advances)
      ultimately show ?thesis using sessions_advance_cursors(1) order_trans by blast
    qed
  qed simp
  from this[OF assms(1)[unfolded advance_read_sessions_def]] assms(2,3) show ?thesis by simp
qed

lemma advance_read_sessions_only:
  "advance_read_sessions E scope rc f db = Inr db' \<Longrightarrow> \<exists>t. db' = db\<lparr>t_session := t\<rparr>"
proof -
  have "foldR (advance_read_session E scope f) ss db = Inr db' \<Longrightarrow> \<exists>t. db' = db\<lparr>t_session := t\<rparr>" for ss db
  proof (induction ss arbitrary: db)
    case Nil
    then show ?case by (auto intro: exI[of _ "t_session db"])
  next
    case (Cons s ss)
    then obtain d where d: "advance_read_session E scope f s db = Inr d"
      "foldR (advance_read_session E scope f) ss d = Inr db'" by (auto simp: bindR_eq_Inr)
    from Cons.IH[OF d(2)] advance_read_session_eq[OF d(1)] show ?case by auto
  qed
  then show "advance_read_sessions E scope rc f db = Inr db' \<Longrightarrow> \<exists>t. db' = db\<lparr>t_session := t\<rparr>"
    by (simp add: advance_read_sessions_def)
qed

text \<open>
  The authority serves every read it is allowed to serve. When the frontier invariant holds,
  a read before its deadline that allows the authority source and only asks for causal tokens
  committed in its scope is answered, whatever its sessions require, with the current snapshot of
  the entity, the current frontier of the scope and the causal token of the last change there.
\<close>
theorem authority_read_available:
  assumes "frontiers_ok db" and "Authority \<in> set (rc_allowed_sources rc)"
    and "\<forall>tok \<in> set (rc_minimum_tokens rc). \<exists>c. map_of (t_causal db) tok = Some (scope_json key, c)"
    and "commit_before_deadline clk (rc_deadline_unix_ms rc) = Inr ()"
    and "commit_before_deadline clk' (rc_deadline_unix_ms rc) = Inr ()"
    and "json_object E (scope_json key)"
    and "\<forall>s \<in> set (rc_sessions rc). sc_monotonic_reads s \<longrightarrow> json_valid E (sc_key_json s)"
  shows "fst (read_entity_consistent E clk clk' key rc db) =
    Inr (Read (read_entity_snapshot key db)
      \<lparr>ob_source = Authority, ob_frontier = current_scope_cursor (scope_json key) db,
       ob_causal_token = map_option snd (map_of (t_scope db) (scope_json key))\<rparr>)"
proof -
  let ?s = "scope_json key" let ?f = "current_scope_cursor (scope_json key) db"
  let ?ob = "\<lparr>ob_source = Authority, ob_frontier = ?f,
      ob_causal_token = (if ?f = 0 then None else frontier_token ?s ?f db)\<rparr>"
  have ob: "consistency_observation clk ?s rc ?f True db = Inr (Some ?ob)"
    using assms token_visible_current[OF assms(1)] session_required_current[OF assms(1)]
      current_scope_cursor_i64[OF assms(1)]
    by (simp add: consistency_observation_Some list_all_iff)
  obtain db' where "advance_read_sessions E ?s rc ?f db = Inr db'"
    using advance_read_sessions_total[OF current_scope_cursor_i64[OF assms(1)] assms(6,7)] by blast
  with ob assms(5) frontier_token_scope[OF assms(1), of ?s] show ?thesis
    by (simp add: read_entity_consistent_def finish_tx_def)
qed

text \<open>
  C5. Soundness of an observation. A frontier is only ever observed for a read that may use the
  authority and is at or past the cursor of every causal token the read names, past everything a
  session with monotonic reads has read and past everything a session with read-your-writes has
  written in that scope.
\<close>
theorem observation_sound:
  assumes "consistency_observation clk scope rc frontier al db = Inr (Some ob)"
  shows "ob_frontier ob = frontier \<and> Authority \<in> set (rc_allowed_sources rc)
    \<and> (\<forall>tok \<in> set (rc_minimum_tokens rc). \<exists>c \<le> frontier. map_of (t_causal db) tok = Some (scope, c))
    \<and> (\<forall>s \<in> set (rc_sessions rc).
         (sc_monotonic_reads s \<longrightarrow> read_cursor scope (sc_key_json s) db \<le> frontier)
         \<and> (sc_read_your_writes s \<longrightarrow> write_cursor scope (sc_key_json s) db \<le> frontier))"
proof -
  from assms have tok: "list_all (token_visible scope frontier db) (rc_minimum_tokens rc)"
    and ses: "list_all (\<lambda>s. session_required scope s db \<le> frontier) (rc_sessions rc)"
    and "Authority \<in> set (rc_allowed_sources rc)" "ob_frontier ob = frontier"
    by (auto simp: consistency_observation_Some)
  moreover have "\<exists>c \<le> frontier. map_of (t_causal db) t = Some (scope, c)"
    if "t \<in> set (rc_minimum_tokens rc)" for t
    using tok that by (auto simp: list_all_iff token_visible_def not_less split: option.splits)
  ultimately show ?thesis using ses by (auto simp: list_all_iff session_required_cursors)
qed


definition sample_consistency :: ReadConsistency where
  "sample_consistency =
     \<lparr>rc_allowed_sources = [Authority], rc_minimum_tokens = [''v1''],
      rc_sessions = [\<lparr>sc_key_json = ''k'', sc_monotonic_reads = True, sc_read_your_writes = True\<rparr>],
      rc_linearization_keys = [], rc_deadline_unix_ms = Some 10\<rparr>"

lemma sample_db_frontiers: "frontiers_ok sample_db" by code_simp

theorem authority_read_available_witness:
  "fst (read_entity_consistent sample_env (Some 5) (Some 6) (sample_key ''a'') sample_consistency sample_db) =
    Inr (Read (read_entity_snapshot (sample_key ''a'') sample_db)
      \<lparr>ob_source = Authority, ob_frontier = 1, ob_causal_token = Some ''v1''\<rparr>)"
proof -
  have s: "scope_json (sample_key ''a'') = ''{s}''" by (simp add: sample_key_def)
  have "map_of (t_causal sample_db) ''v1'' = Some (''{s}'', 1)" "current_scope_cursor ''{s}'' sample_db = 1"
    "map_of (t_scope sample_db) ''{s}'' = Some (1, ''v1'')"
    "commit_before_deadline (Some 5) (Some 10) = Inr ()" "commit_before_deadline (Some 6) (Some 10) = Inr ()"
    by code_simp+
  with authority_read_available[OF sample_db_frontiers, where rc = sample_consistency and E = sample_env
      and key = "sample_key ''a''" and clk = "Some 5" and clk' = "Some 6"] s
  show ?thesis by (simp add: sample_consistency_def sample_env_def)
qed

theorem observation_sound_witness:
  "write_cursor ''{s}'' ''k'' sample_db \<le> 1
   \<and> (\<exists>c \<le> 1. map_of (t_causal sample_db) ''v1'' = Some (''{s}'', c))"
proof -
  have "consistency_observation (Some 5) ''{s}'' sample_consistency 1 True sample_db =
      Inr (Some \<lparr>ob_source = Authority, ob_frontier = 1, ob_causal_token = Some ''v1''\<rparr>)"
    by code_simp
  from observation_sound[OF this] show ?thesis by (simp add: sample_consistency_def)
qed

section \<open>Idempotent commits\<close>

lemma delete_expired_idempotency_Ok:
  "delete_expired_idempotency now db = Inr db' \<longleftrightarrow>
     now \<le> i64_max
     \<and> db' = db\<lparr>t_idempotency := tbl_delete (\<lambda>_ r. idr_expires_at_unix_ms r \<le> now) (t_idempotency db),
               t_wu_idempotency := tbl_delete (\<lambda>_ r. wir_expires_at_unix_ms r \<le> now) (t_wu_idempotency db)\<rparr>"
  by (auto simp: delete_expired_idempotency_def bind_u64_def)

lemma insert_idempotency_Ok:
  "insert_idempotency E r db = Inr db' \<Longrightarrow>
     map_of (t_idempotency db) (ir_identity_json r) = None
     \<and> db' = db\<lparr>t_idempotency := t_idempotency db @ [(ir_identity_json r,
         \<lparr>idr_request_json = ir_request_json r, idr_result_json = ir_result_json r,
          idr_expires_at_unix_ms = ir_expires_at_unix_ms r\<rparr>)]\<rparr>"
  by (auto simp: insert_idempotency_def bindR_eq_Inr tbl_insert_eq_Some bind_u64_def split: if_splits)

lemma commit_entity_idempotent_Committed:
  assumes "commit_entity_idempotent E clk c idem now db = (Inr ICommitted, db')"
  shows "\<exists>db1 db2. delete_expired_idempotency now db = Inr db1
    \<and> published_heads (ec_key c) db1 = sort (ec_expected_heads c) \<and> committed_db c db1 db2
    \<and> map_of (t_idempotency db1) (ir_identity_json idem) = None
    \<and> map_of (t_wu_idempotency db1) (ir_identity_json idem) = None
    \<and> insert_idempotency E idem db2 = Inr db' \<and> commit_before_deadline clk (ec_deadline_unix_ms c) = Inr ()"
proof -
  from assms obtain db1 db2 where d: "delete_expired_idempotency now db = Inr db1"
    "map_of (t_idempotency db1) (ir_identity_json idem) = None"
    "map_of (t_wu_idempotency db1) (ir_identity_json idem) = None"
    "commit_entity_in_transaction E c db1 = Inr (Committed, db2)"
    "finish_tx clk (ec_deadline_unix_ms c) db
       (bindR (insert_idempotency E idem db2) (\<lambda>db3. Ok (ICommitted, db3))) = (Inr ICommitted, db')"
    by (auto simp: commit_entity_idempotent_def
        split: sum.splits option.splits if_splits EntityCommitOutcome.splits prod.splits)
  then show ?thesis
    using commit_entity_in_transaction_Committed[OF d(4)]
    by (auto simp: finish_tx_Ok bindR_eq_Inr)
qed

lemma delete_expired_keeps:
  assumes "delete_expired_idempotency now db = Inr db1" and "tbl_wf (t_idempotency db)"
    and "map_of (t_idempotency db) i = Some r" and "now < idr_expires_at_unix_ms r"
  shows "map_of (t_idempotency db1) i = Some r"
  using assms by (auto simp: delete_expired_idempotency_Ok map_of_tbl_delete)

lemma idempotent_replay:
  assumes "map_of (t_idempotency db) (ir_identity_json idem) = Some r" and "tbl_wf (t_idempotency db)"
    and "now < idr_expires_at_unix_ms r" and "now \<le> i64_max"
  shows "commit_entity_idempotent E clk c idem now db =
    (Inr (if idr_request_json r = ir_request_json idem then IReplayed (idr_result_json r)
          else IIdempotencyConflict), db)"
proof -
  obtain db1 where d: "delete_expired_idempotency now db = Inr db1"
    using assms(4) by (simp add: delete_expired_idempotency_Ok)
  show ?thesis
    using delete_expired_keeps[OF d assms(2,1,3)] d by (simp add: commit_entity_idempotent_def)
qed

lemma committed_idempotency_row:
  assumes "tbl_wf (t_idempotency db)" and "commit_entity_idempotent E clk c idem now db = (Inr ICommitted, db')"
  shows "tbl_wf (t_idempotency db')"
    and "map_of (t_idempotency db') (ir_identity_json idem) =
      Some \<lparr>idr_request_json = ir_request_json idem, idr_result_json = ir_result_json idem,
            idr_expires_at_unix_ms = ir_expires_at_unix_ms idem\<rparr>"
proof -
  from commit_entity_idempotent_Committed[OF assms(2)] obtain db1 db2 where d:
    "delete_expired_idempotency now db = Inr db1" "committed_db c db1 db2" "insert_idempotency E idem db2 = Inr db'" by blast
  note del = d(1)[unfolded delete_expired_idempotency_Ok] and ins = insert_idempotency_Ok[OF d(3)]
  have "t_idempotency db2 = t_idempotency db1" using committed_db_tables(14)[OF d(2)] .
  then show "tbl_wf (t_idempotency db')"
    using ins del assms(1) by (simp add: tbl_wf_append_single tbl_wf_delete)
  show "map_of (t_idempotency db') (ir_identity_json idem) =
      Some \<lparr>idr_request_json = ir_request_json idem, idr_result_json = ir_result_json idem,
            idr_expires_at_unix_ms = ir_expires_at_unix_ms idem\<rparr>"
    using ins by (simp add: map_add_def)
qed

text \<open>
  C6. An idempotent commit happens once. When it is committed, its entity commit was applied and
  its record stored; from then until the record expires every commit under the same identity
  leaves the database as it is and answers the stored result for the same request and
  \<open>IdempotencyConflict\<close> for another one.
\<close>
theorem idempotent_commit_once:
  assumes "tbl_wf (t_idempotency db)"
    and "commit_entity_idempotent E clk c idem now db = (Inr ICommitted, db')"
  shows "published_heads (ec_key c) db = sort (ec_expected_heads c)
    \<and> published_heads (ec_key c) db' = sort (ec_head_versions c)
    \<and> (\<forall>E2 clk2 c2 idem2 now2.
         ir_identity_json idem2 = ir_identity_json idem \<and> now2 < ir_expires_at_unix_ms idem
         \<and> now2 \<le> i64_max \<longrightarrow>
         commit_entity_idempotent E2 clk2 c2 idem2 now2 db' =
           (Inr (if ir_request_json idem2 = ir_request_json idem then IReplayed (ir_result_json idem)
                 else IIdempotencyConflict), db'))"
proof -
  from commit_entity_idempotent_Committed[OF assms(2)] obtain db1 db2 where d:
    "delete_expired_idempotency now db = Inr db1"
    "published_heads (ec_key c) db1 = sort (ec_expected_heads c)" "committed_db c db1 db2"
    "insert_idempotency E idem db2 = Inr db'" by blast
  note del = d(1)[unfolded delete_expired_idempotency_Ok] and ins = insert_idempotency_Ok[OF d(4)]
  note row = committed_idempotency_row[OF assms]
  have "published_heads (ec_key c) db1 = published_heads (ec_key c) db"
    and "published_heads (ec_key c) db' = published_heads (ec_key c) db2"
    using del ins by (simp_all add: published_heads_def heads_of_def)
  with d(2) published_heads_committed[OF d(3)] show ?thesis
    using idempotent_replay[OF _ row(1)] row(2) by auto
qed

definition sample_idempotency :: IdempotencyRecord where
  "sample_idempotency =
     \<lparr>ir_identity_json = ''i'', ir_request_json = ''q'', ir_result_json = ''r'', ir_expires_at_unix_ms = 100\<rparr>"

theorem idempotent_commit_once_witness:
  "commit_entity_idempotent sample_env (Some 5) (sample_commit ''b'' [] ''v2'') sample_idempotency 50
     (snd (commit_entity_idempotent sample_env (Some 5) (sample_commit ''b'' [] ''v2'') sample_idempotency 5 sample_db))
   = (Inr (IReplayed ''r''),
      snd (commit_entity_idempotent sample_env (Some 5) (sample_commit ''b'' [] ''v2'') sample_idempotency 5 sample_db))"
proof -
  let ?r = "commit_entity_idempotent sample_env (Some 5) (sample_commit ''b'' [] ''v2'') sample_idempotency 5 sample_db"
  have "tbl_wf (t_idempotency sample_db)" "fst ?r = Inr ICommitted" by code_simp+
  then have "?r = (Inr ICommitted, snd ?r)" by (simp add: prod_eq_iff)
  from idempotent_commit_once[OF \<open>tbl_wf (t_idempotency sample_db)\<close> this] show ?thesis
    by (simp add: sample_idempotency_def i64_max_def)
qed

section \<open>Change pages\<close>

lemma collect_changes_take:
  assumes "length acc < n \<or> n = 0" and "cq_limit q = n"
  shows "collect_changes q rows acc =
    (let all = acc @ map to_stored_change (filter (\<lambda>row. change_matches q (snd row)) rows)
     in if n = 0 then all else take n all)"
  using assms
proof (induction rows arbitrary: acc)
  case (Cons row rows)
  show ?case
  proof (cases "change_matches q (snd row)")
    case True
    show ?thesis
    proof (cases "Suc (length acc) = n")
      case True
      then show ?thesis using Cons \<open>change_matches q (snd row)\<close> by (auto simp: Let_def)
    next
      case False
      then show ?thesis
        using Cons.IH[of "acc @ [to_stored_change row]"] Cons.prems \<open>change_matches q (snd row)\<close>
        by (auto simp: Let_def)
    qed
  next
    case False
    with Cons show ?thesis by simp
  qed
qed (auto simp: Let_def)

definition visible_changes :: "ChangeQuery \<Rightarrow> nat \<Rightarrow> sqlite_db \<Rightarrow> StoredChange list" where
  "visible_changes q after db =
     map to_stored_change (filter (\<lambda>row. change_matches q (snd row))
       (changes_after (cq_scope_json q) after db))"

lemma ch_cursor_to_stored_change [simp]: "ch_cursor (to_stored_change row) = fst row"
  by (cases row) (simp add: to_stored_change_def)

lemma map_fst_visible:
  "map ch_cursor (visible_changes q after db) =
     map fst (filter (\<lambda>row. change_matches q (snd row)) (changes_after (cq_scope_json q) after db))"
  by (simp add: visible_changes_def comp_def)

lemma changes_after_sorted: "sorted (map fst (changes_after scope after db))"
  by (simp add: changes_after_def)

lemma distinct_changes_after:
  "tbl_wf (t_change db) \<Longrightarrow> distinct (map fst (changes_after scope after db))"
proof -
  assume "tbl_wf (t_change db)"
  then have "distinct (map fst (filter P (t_change db)))" for P
    by (simp add: tbl_wf_def distinct_map_filter)
  then show ?thesis
    unfolding changes_after_def by (metis (no_types, lifting) distinct_map distinct_sort set_sort)
qed

lemma visible_changes_strict:
  assumes "tbl_wf (t_change db)"
  shows "sorted_wrt (<) (map ch_cursor (visible_changes q after db))"
proof -
  have "sorted (map ch_cursor (visible_changes q after db))"
    unfolding map_fst_visible using changes_after_sorted by (simp add: sorted_filter)
  moreover have "distinct (map ch_cursor (visible_changes q after db))"
    unfolding map_fst_visible by (rule distinct_map_filter[OF distinct_changes_after[OF assms]])
  ultimately show ?thesis by (simp add: strict_sorted_iff)
qed

lemma filter_sort_key_fst:
  "sort_key fst (filter P xs) = filter P (sort_key fst xs)"
  by (rule filter_sort[symmetric])

lemma visible_changes_later:
  assumes "after \<le> c"
  shows "visible_changes q c db = filter (\<lambda>ch. c < ch_cursor ch) (visible_changes q after db)"
proof -
  have "changes_after s c db = filter (\<lambda>row. c < fst row) (changes_after s after db)" for s
  proof -
    have "filter (\<lambda>(d, r). scope_json (chr_key r) = s \<and> d > c) (t_change db) =
        filter (\<lambda>row. c < fst row) (filter (\<lambda>(d, r). scope_json (chr_key r) = s \<and> d > after) (t_change db))"
      using assms by (auto intro!: filter_cong)
    then show ?thesis by (simp only: changes_after_def filter_sort)
  qed
  then show ?thesis
    by (simp add: visible_changes_def filter_map comp_def) (metis (no_types, lifting) conj_commute)
qed

lemma filter_after_take:
  fixes f :: "'a \<Rightarrow> nat"
  assumes "sorted_wrt (<) (map f xs)" and "0 < n" and "n \<le> length xs"
  shows "filter (\<lambda>x. f (xs ! (n - 1)) < f x) xs = drop n xs"
proof -
  have lt: "f (xs ! i) < f (xs ! j)" if "i < j" "j < length xs" for i j
    using assms(1) that by (simp add: sorted_wrt_iff_nth_less)
  have "filter (\<lambda>x. f (xs ! (n - 1)) < f x) (take n xs) = []"
  proof (rule filter_False, rule ballI)
    fix x assume "x \<in> set (take n xs)"
    then obtain i where i: "i < n" "x = xs ! i" using assms(3) by (auto simp: in_set_conv_nth)
    then have "f x \<le> f (xs ! (n - 1))"
    proof (cases "i < n - 1")
      case True
      moreover have "n - 1 < length xs" using assms(2,3) by simp
      ultimately show ?thesis using lt[of i "n - 1"] i by simp
    next
      case False
      with i have "i = n - 1" by simp
      with i show ?thesis by simp
    qed
    then show "\<not> f (xs ! (n - 1)) < f x" by simp
  qed
  moreover have "filter (\<lambda>x. f (xs ! (n - 1)) < f x) (drop n xs) = drop n xs"
  proof (rule filter_True, rule ballI)
    fix x assume "x \<in> set (drop n xs)"
    then obtain i where "i < length xs - n" "x = xs ! (n + i)" by (auto simp: in_set_conv_nth)
    then show "f (xs ! (n - 1)) < f x" using lt[of "n - 1" "n + i"] assms(2) by simp
  qed
  ultimately show ?thesis by (metis append_take_drop_id filter_append append_Nil)
qed


lemma read_changes_Ok:
  assumes "read_changes q db = (Inr page, db')"
  shows "\<exists>db1. record_retention (cq_retained_after_unix_ms q) db = Inr db1
    \<and> db' = delete_changes (cq_retained_after_unix_ms q) db1
    \<and> cq_after_cursor q \<le> i64_max
    \<and> oldest_cursor page = map_option (\<lambda>c. saturating_add_u64 c 1) (map_of (t_retention db') (cq_scope_json q))
    \<and> current_cursor page = current_scope_cursor (cq_scope_json q) db'
    \<and> page_changes page =
        (let all = visible_changes q (cq_after_cursor q) db'
         in if cq_limit q = 0 then all else take (cq_limit q) all)"
proof -
  from assms obtain db1 where r: "record_retention (cq_retained_after_unix_ms q) db = Inr db1"
    by (auto simp: read_changes_def split: sum.splits)
  with assms collect_changes_take[of "[]" "cq_limit q" q] show ?thesis
    by (auto simp: read_changes_def Let_def bind_u64_def visible_changes_def split: if_splits)
qed

lemma record_retention_Ok:
  assumes "record_retention t db = Inr db1"
  shows "\<exists>r. db1 = db\<lparr>t_retention := r\<rparr>"
  using assms by (auto simp: record_retention_def bindR_eq_Inr Let_def bind_u64_def split: if_splits)

lemma delete_changes_set:
  "set (t_change (delete_changes t db)) = {(c, r) \<in> set (t_change db). \<not> chr_recorded_at_unix_ms r < t}"
  by (auto simp: delete_changes_def tbl_delete_def)

lemma read_changes_log:
  assumes "read_changes q db = (Inr page, db')"
  shows "set (t_change db') =
    {(c, r) \<in> set (t_change db). cq_retained_after_unix_ms q \<le> chr_recorded_at_unix_ms r}"
    and "tbl_wf (t_change db) \<Longrightarrow> tbl_wf (t_change db')"
proof -
  from read_changes_Ok[OF assms] obtain db1 where
    1: "record_retention (cq_retained_after_unix_ms q) db = Inr db1"
    and 2: "db' = delete_changes (cq_retained_after_unix_ms q) db1" by blast
  from record_retention_Ok[OF 1] have "t_change db1 = t_change db" by auto
  with 2 show "set (t_change db') =
    {(c, r) \<in> set (t_change db). cq_retained_after_unix_ms q \<le> chr_recorded_at_unix_ms r}"
    and "tbl_wf (t_change db) \<Longrightarrow> tbl_wf (t_change db')"
    by (auto simp: delete_changes_set not_less) (auto simp: delete_changes_def)
qed

lemma set_visible_changes:
  "set (visible_changes q after db) = to_stored_change `
     {(c, r) \<in> set (t_change db). scope_json (chr_key r) = cq_scope_json q \<and> after < c \<and> change_matches q r}"
  by (auto simp: visible_changes_def changes_after_def intro!: image_eqI) 

lemma mem_visible_changes:
  "(c, r) \<in> set (t_change db) \<Longrightarrow> scope_json (chr_key r) = cq_scope_json q \<Longrightarrow> after < c \<Longrightarrow>
   change_matches q r \<Longrightarrow> to_stored_change (c, r) \<in> set (visible_changes q after db)"
  unfolding set_visible_changes by (rule imageI) simp

text \<open>
  Paging through the change log is complete and ordered. The cursors of a page are strictly
  ascending and after the requested one, a page never exceeds its limit, a page shorter than the
  limit is everything there is, and a full page followed by what is visible after its last cursor
  is again everything: no change is skipped or repeated between pages.
\<close>
theorem change_pages_complete:
  assumes "read_changes q db = (Inr page, db')" and "0 < cq_limit q" and "tbl_wf (t_change db)"
  shows "sorted_wrt (<) (map ch_cursor (page_changes page))
    \<and> (\<forall>ch \<in> set (page_changes page). cq_after_cursor q < ch_cursor ch)
    \<and> length (page_changes page) \<le> cq_limit q
    \<and> visible_changes q (cq_after_cursor q) db' =
        (if length (page_changes page) < cq_limit q then page_changes page
         else page_changes page @ visible_changes q (ch_cursor (last (page_changes page))) db')"
proof -
  let ?n = "cq_limit q" let ?all = "visible_changes q (cq_after_cursor q) db'"
  have page: "page_changes page = take ?n ?all"
    using read_changes_Ok[OF assms(1)] assms(2) by (auto simp: Let_def)
  have strict: "sorted_wrt (<) (map ch_cursor ?all)"
    by (rule visible_changes_strict[OF read_changes_log(2)[OF assms(1,3)]])
  have after: "cq_after_cursor q < ch_cursor ch" if "ch \<in> set ?all" for ch
    using that unfolding set_visible_changes by auto
  have rest: "visible_changes q (ch_cursor (last (page_changes page))) db' = drop ?n ?all"
    if "?n \<le> length ?all"
  proof -
    have last: "last (page_changes page) = ?all ! (?n - 1)"
      unfolding page using that assms(2) by (subst last_conv_nth) (auto simp: min_def)
    have "cq_after_cursor q < ch_cursor (?all ! (?n - 1))"
      using that assms(2) by (intro after nth_mem) simp
    then show ?thesis
      using visible_changes_later[of "cq_after_cursor q" "ch_cursor (last (page_changes page))" q db']
        filter_after_take[OF strict assms(2) that] by (simp add: last)
  qed
  have "sorted_wrt (<) (map ch_cursor (page_changes page))"
    unfolding page using strict by (simp add: take_map[symmetric] sorted_wrt_take)
  moreover have "\<forall>ch \<in> set (page_changes page). cq_after_cursor q < ch_cursor ch"
    using after by (auto simp: page dest: in_set_takeD)
  moreover have "length (page_changes page) \<le> ?n" by (simp add: page)
  moreover have "?all = (if length (page_changes page) < ?n then page_changes page
         else page_changes page @ visible_changes q (ch_cursor (last (page_changes page))) db')"
    using rest by (auto simp: page min_def)
  ultimately show ?thesis by simp
qed

definition sample_query :: "nat \<Rightarrow> ChangeQuery" where
  "sample_query after = \<lparr>cq_scope_json = ''{s}'', cq_entity_types = None, cq_entity_ids = None,
     cq_after_cursor = after, cq_limit = 1, cq_retained_after_unix_ms = 0\<rparr>"

definition sample_db2 :: sqlite_db where
  "sample_db2 = snd (commit_entity_transaction sample_env (Some 5) (sample_commit ''b'' [] ''v2'') sample_db)"

theorem change_pages_complete_witness:
  "let (page, db') = read_changes (sample_query 0) sample_db2
   in (case page of Inr p \<Rightarrow>
        map ch_cursor (page_changes p) = [1]
        \<and> visible_changes (sample_query 0) 0 db' = page_changes p @ visible_changes (sample_query 0) 1 db'
      | _ \<Rightarrow> False)"
proof -
  let ?r = "read_changes (sample_query 0) sample_db2"
  have "case fst ?r of Inr p \<Rightarrow> map ch_cursor (page_changes p) = [1] | _ \<Rightarrow> False" by code_simp
  then obtain p where p: "fst ?r = Inr p" "map ch_cursor (page_changes p) = [1]"
    by (auto split: sum.splits)
  have r: "?r = (Inr p, snd ?r)" using p(1) by (simp add: prod_eq_iff)
  have "tbl_wf (t_change sample_db2)" by code_simp
  from change_pages_complete[OF r _ this] p show ?thesis
    by (subst r) (cases "page_changes p"; simp add: sample_query_def)
qed

lemma fold_upsert_max:
  "s \<in> set scopes \<Longrightarrow>
   \<exists>c. map_of (fold (\<lambda>s. tbl_upsert s (m s) (\<lambda>old. max old (m s))) scopes t) s = Some c \<and> (m s :: nat) \<le> c"
proof (induction scopes arbitrary: t rule: rev_induct)
  case (snoc x xs)
  let ?t = "fold (\<lambda>s. tbl_upsert s (m s) (\<lambda>old. max old (m s))) xs t"
  show ?case
  proof (cases "s = x")
    case True
    then show ?thesis by (auto simp: map_of_tbl_upsert split: option.splits)
  next
    case False
    with snoc show ?thesis by (auto simp: map_of_tbl_upsert)
  qed
qed simp

lemma fold_max_ge: "x \<in> set xs \<Longrightarrow> (x::nat) \<le> fold max xs a"
proof (induction xs arbitrary: a)
  case (Cons y ys)
  have "a \<le> fold max zs a" for zs and a :: nat
    by (induction zs arbitrary: a) (auto intro: order_trans[OF max.cobounded2])
  then have "y \<le> fold max ys (max y a)" using order_trans[OF max.cobounded1] by blast
  with Cons show ?case by auto
qed simp

lemma record_retention_covers:
  assumes "record_retention t db = Inr db1" and "(c, r) \<in> set (t_change db)"
    and "chr_recorded_at_unix_ms r < t"
  shows "\<exists>p. map_of (t_retention db1) (scope_json (chr_key r)) = Some p \<and> c \<le> p"
proof -
  let ?rows = "expired_changes t db" let ?s = "scope_json (chr_key r)"
  have mem: "(c, r) \<in> set ?rows" using assms(2,3) by (simp add: expired_changes_def)
  have "c \<le> pruned_cursor ?s ?rows"
    unfolding pruned_cursor_def by (rule fold_max_ge) (use mem in force)
  moreover have "?s \<in> set (sort_dedup (map (\<lambda>(_, r). scope_json (chr_key r)) ?rows))"
    using mem by force
  from fold_upsert_max[OF this, of "\<lambda>s. pruned_cursor s ?rows" "t_retention db"]
  obtain p where "map_of (t_retention db1) ?s = Some p" "pruned_cursor ?s ?rows \<le> p"
    using assms(1) by (auto simp: record_retention_def bindR_eq_Inr Let_def bind_u64_def split: if_splits)
  ultimately show ?thesis by auto
qed

lemma fold_upsert_keeps:
  "map_of t s = Some a \<Longrightarrow>
   \<exists>c. map_of (fold (\<lambda>s. tbl_upsert s (m s) (\<lambda>old. max old (m s))) scopes t) s = Some c \<and> (a :: nat) \<le> c"
proof (induction scopes arbitrary: t a)
  case (Cons x xs)
  have "\<exists>b. map_of (tbl_upsert x (m x) (\<lambda>old. max old (m x)) t) s = Some b \<and> a \<le> b"
    using Cons.prems by (auto simp: map_of_tbl_upsert)
  then obtain b where b: "map_of (tbl_upsert x (m x) (\<lambda>old. max old (m x)) t) s = Some b" "a \<le> b" by blast
  from Cons.IH[OF b(1)] b(2) show ?case by fastforce
qed simp

lemma record_retention_keeps:
  assumes "record_retention t db = Inr db1" "map_of (t_retention db) s = Some a"
  shows "\<exists>p. map_of (t_retention db1) s = Some p \<and> a \<le> p"
  using assms fold_upsert_keeps[OF assms(2)]
  by (auto simp: record_retention_def bindR_eq_Inr Let_def bind_u64_def split: if_splits)

end
