(* ===== verification/Sqlite_Work_Units.thy ===== *)
theory Sqlite_Work_Units
  imports Sqlite_Consistency
begin

text \<open>
  Work units of \<open>crates/provider-sqlite/src/lib.rs\<close>: opening and expiring a unit, capturing the
  baseline of an entity, staging commits in a unit, and publishing a unit with the resolutions of
  its conflicts.
\<close>

section \<open>Life cycle\<close>

datatype StoredWorkUnitState = SwOpen | SwClosing | SwPolicyMismatch | SwCommitted | SwExpired

definition work_unit_exists :: "string \<Rightarrow> sqlite_db \<Rightarrow> bool" where
  "work_unit_exists identity db \<longleftrightarrow> map_of (t_work_unit db) identity \<noteq> None"

definition work_unit_baseline :: "string \<Rightarrow> sqlite_db \<Rightarrow> nat presult" where
  "work_unit_baseline identity db =
     bindR (ok_or (map_of (t_work_unit db) identity) database_error) (\<lambda>row.
       Ok (wur_baseline_cursor row))"

text \<open>\<open>DELETE FROM patchouli_entity_version WHERE work_unit_json = ?1\<close> with its foreign keys: the
  delete is refused while a base version refers to a deleted row, and cascades to the heads, the
  unit heads and the CRDT heads.\<close>

definition staged_by :: "string \<Rightarrow> sqlite_db \<Rightarrow> (EntityKey \<times> string) list" where
  "staged_by unit db = tbl_select (\<lambda>_ r. evr_work_unit_json r = Some unit) (t_version db)"

definition delete_staged_versions :: "string \<Rightarrow> sqlite_db \<Rightarrow> sqlite_db presult" where
  "delete_staged_versions unit db =
     (let gone = set (staged_by unit db)
      in bindR (guardR (\<not> (\<exists>((_, k, v), _) \<in> set (t_wu_base db). (k, v) \<in> gone)) database_error) (\<lambda>_.
           Ok (db\<lparr>t_version := tbl_delete (\<lambda>_ r. evr_work_unit_json r = Some unit) (t_version db),
                  t_wu_head := tbl_delete (\<lambda>(_, k, v) _. (k, v) \<in> gone) (t_wu_head db),
                  t_head := tbl_delete (\<lambda>(k, v) _. (k, v) \<in> gone) (t_head db),
                  t_crdt_head := tbl_delete (\<lambda>(k, v, _, _) _. (k, v) \<in> gone) (t_crdt_head db)\<rparr>)))"

text \<open>Changes no CRDT head reaches are deleted, and with them every edge that touches one.\<close>

definition collect_crdt_garbage :: "sqlite_db \<Rightarrow> sqlite_db" where
  "collect_crdt_garbage db =
     (let reachable = crdt_closure (crdt_edges db) (map (\<lambda>((_, _, _, h), _). h) (t_crdt_head db));
          live = (\<lambda>h. h \<in> set reachable \<or> map_of (t_crdt_change db) h = None)
      in db\<lparr>t_crdt_change := tbl_delete (\<lambda>h _. h \<notin> set reachable) (t_crdt_change db),
            t_crdt_parent := tbl_delete (\<lambda>(c, p) _. \<not> (live c \<and> live p)) (t_crdt_parent db)\<rparr>)"

definition expire_work_unit :: "string \<Rightarrow> nat \<Rightarrow> sqlite_db \<Rightarrow> sqlite_db presult" where
  "expire_work_unit identity now_unix_ms db =
     bindR (sqlite_time now_unix_ms) (\<lambda>now.
     let db = db\<lparr>t_work_unit :=
           tbl_update (\<lambda>k r. k = identity \<and> wur_state r \<in> {DbOpen, DbClosing})
             (\<lambda>r. r\<lparr>wur_state := DbExpired, wur_closed_at_unix_ms := Some now\<rparr>) (t_work_unit db)\<rparr>
     in bindR (delete_staged_versions identity db) (\<lambda>db.
          Ok (collect_crdt_garbage
            (db\<lparr>t_wu_idempotency :=
                tbl_delete (\<lambda>_ r. wir_work_unit_json r = identity) (t_wu_idempotency db)\<rparr>))))"

definition expire_open_work_units :: "nat \<Rightarrow> sqlite_db \<Rightarrow> sqlite_db presult" where
  "expire_open_work_units now_unix_ms db =
     bindR (bind_u64 now_unix_ms) (\<lambda>now.
       foldR (\<lambda>identity. expire_work_unit identity now_unix_ms)
         (sort (tbl_select (\<lambda>_ r. wur_state r \<in> {DbOpen, DbClosing} \<and> wur_expiry_action r = Discard
                                 \<and> wur_expires_at_unix_ms r \<le> now) (t_work_unit db))) db)"

definition sweep_expired_work_units :: "clock \<Rightarrow> sqlite_db \<Rightarrow> unit db_step" where
  "sweep_expired_work_units clk db =
     finish_tx None None db
       (bindR (unix_time_ms clk) (\<lambda>now.
        bindR (expire_open_work_units now db) (\<lambda>db'. Ok ((), db'))))"

definition open_work_unit_row :: "WorkUnit \<Rightarrow> nat \<Rightarrow> nat \<Rightarrow> sqlite_db \<Rightarrow> work_unit_row" where
  "open_work_unit_row wu now expires db =
     \<lparr>wur_scope_json = wu_scope_json wu, wur_state = DbOpen, wur_policy_json = wu_policy_json wu,
      wur_expiry_action = wu_expiry_action wu, wur_opened_at_unix_ms = now,
      wur_expires_at_unix_ms = expires,
      wur_baseline_cursor = current_scope_cursor (wu_scope_json wu) db,
      wur_closed_at_unix_ms = None\<rparr>"

definition ensure_work_unit ::
  "sqlite_env \<Rightarrow> WorkUnit \<Rightarrow> sqlite_db \<Rightarrow> (StoredWorkUnitState \<times> sqlite_db) presult" where
  "ensure_work_unit E wu db =
     (let identity = wu_identity_json wu; now = wu_now_unix_ms wu
      in case map_of (t_work_unit db) identity of
           None \<Rightarrow>
             bindR (sqlite_time now) (\<lambda>now.
             bindR (sqlite_time (wu_expires_at_unix_ms wu)) (\<lambda>expires.
             bindR (guardR (\<not> expires \<le> now) provider_error_new) (\<lambda>_.
             bindR (guardR (json_object E identity \<and> json_object E (wu_scope_json wu)
                            \<and> json_valid E (wu_policy_json wu)) database_error) (\<lambda>_.
             bindR (ok_or (tbl_insert identity (open_work_unit_row wu now expires db)
                      (t_work_unit db)) database_error) (\<lambda>t.
               Ok (SwOpen, db\<lparr>t_work_unit := t\<rparr>))))))
         | Some row \<Rightarrow>
             if wur_scope_json row \<noteq> wu_scope_json wu \<or> wur_policy_json row \<noteq> wu_policy_json wu
                \<or> wur_expiry_action row \<noteq> wu_expiry_action wu
             then Ok (SwPolicyMismatch, db)
             else
               (case wur_state row of
                  DbCommitted \<Rightarrow> Ok (SwCommitted, db)
                | DbExpired \<Rightarrow> Ok (SwExpired, db)
                | DbClosing \<Rightarrow>
                    if now < wur_expires_at_unix_ms row then Ok (SwClosing, db)
                    else bindR (expire_work_unit identity now db) (\<lambda>db. Ok (SwExpired, db))
                | DbOpen \<Rightarrow>
                    if now < wur_expires_at_unix_ms row then Ok (SwOpen, db)
                    else bindR (expire_work_unit identity now db) (\<lambda>db. Ok (SwExpired, db))))"

section \<open>The baseline of an entity\<close>

definition baseline_heads_at :: "EntityKey \<Rightarrow> nat \<Rightarrow> sqlite_db \<Rightarrow> string list" where
  "baseline_heads_at key cutoff db =
     (case rev (sort_key (\<lambda>((_, cursor), _). cursor)
             (filter (\<lambda>((k, cursor), _). k = key \<and> cursor \<le> cutoff) (t_history db))) of
        [] \<Rightarrow> []
      | (_, heads) # _ \<Rightarrow> heads)"

definition baseline_versions_at :: "EntityKey \<Rightarrow> nat \<Rightarrow> sqlite_db \<Rightarrow> string list" where
  "baseline_versions_at key cutoff db =
     map snd (tbl_select (\<lambda>(k, _) r. k = key
       \<and> (case evr_published_cursor r of None \<Rightarrow> False | Some c \<Rightarrow> c \<le> cutoff)) (t_version db))"

definition insert_base_version ::
  "string \<Rightarrow> EntityKey \<Rightarrow> string list \<Rightarrow> string \<Rightarrow> sqlite_db \<Rightarrow> sqlite_db presult" where
  "insert_base_version unit key heads version db =
     bindR (ok_or (tbl_insert (unit, key, version) (version \<in> set heads) (t_wu_base db))
              database_error) (\<lambda>t. Ok (db\<lparr>t_wu_base := t\<rparr>))"

definition capture_work_unit_entity :: "string \<Rightarrow> EntityKey \<Rightarrow> sqlite_db \<Rightarrow> sqlite_db presult" where
  "capture_work_unit_entity unit key db =
     (if map_of (t_wu_entity db) (unit, key) \<noteq> None then Ok db
      else
        bindR (ok_or (map_of (t_work_unit db) unit) database_error) (\<lambda>row.
        let cutoff = wur_baseline_cursor row;
            db = db\<lparr>t_wu_entity := tbl_ignore (unit, key)
                  \<lparr>wer_conflict_policy_json = None, wer_causal_token = None,
                   wer_event_meta_json = None, wer_write_session_keys = None,
                   wer_close_marker = False\<rparr> (t_wu_entity db)\<rparr>
        in foldR (insert_base_version unit key (baseline_heads_at key cutoff db))
             (baseline_versions_at key cutoff db) db))"

section \<open>Heads and snapshots of a unit\<close>

definition direct_work_unit_heads :: "string \<Rightarrow> EntityKey \<Rightarrow> sqlite_db \<Rightarrow> string list" where
  "direct_work_unit_heads unit key db =
     sort (map (\<lambda>(_, _, v). v) (tbl_select (\<lambda>(u, k, _) _. u = unit \<and> k = key) (t_wu_head db)))"

definition work_unit_base_heads :: "string \<Rightarrow> EntityKey \<Rightarrow> sqlite_db \<Rightarrow> string list" where
  "work_unit_base_heads unit key db =
     sort (map (\<lambda>(_, _, v). v)
       (tbl_select (\<lambda>(u, k, _) is_head. u = unit \<and> k = key \<and> is_head) (t_wu_base db)))"

definition work_unit_heads :: "string \<Rightarrow> EntityKey \<Rightarrow> sqlite_db \<Rightarrow> string list" where
  "work_unit_heads unit key db =
     (let staged = direct_work_unit_heads unit key db
      in if staged = [] then work_unit_base_heads unit key db else staged)"

definition read_work_unit_snapshot :: "string \<Rightarrow> EntityKey \<Rightarrow> sqlite_db \<Rightarrow> EntitySnapshot option" where
  "read_work_unit_snapshot unit key db =
     (let head_versions = work_unit_heads unit key db
      in if head_versions = [] then None
         else Some \<lparr>sn_head_versions = head_versions,
                    sn_versions = stored_versions key
                      (\<lambda>v row. map_of (t_wu_base db) (unit, key, v) \<noteq> None
                               \<or> evr_work_unit_json row = Some unit) db\<rparr>)"

definition insert_work_unit_head ::
  "string \<Rightarrow> EntityKey \<Rightarrow> string \<Rightarrow> sqlite_db \<Rightarrow> sqlite_db presult" where
  "insert_work_unit_head unit key version db =
     bindR (guardR (map_of (t_wu_entity db) (unit, key) \<noteq> None
                    \<and> map_of (t_version db) (key, version) \<noteq> None) database_error) (\<lambda>_.
     bindR (ok_or (tbl_insert (unit, key, version) () (t_wu_head db)) database_error) (\<lambda>t.
       Ok (db\<lparr>t_wu_head := t\<rparr>)))"

definition replace_work_unit_heads ::
  "string \<Rightarrow> EntityKey \<Rightarrow> string list \<Rightarrow> sqlite_db \<Rightarrow> sqlite_db presult" where
  "replace_work_unit_heads unit key heads db =
     bindR (unique_heads heads) (\<lambda>hs.
       foldR (insert_work_unit_head unit key) hs
         (db\<lparr>t_wu_head := tbl_delete (\<lambda>(u, k, _) _. u = unit \<and> k = key) (t_wu_head db)\<rparr>))"

definition read_entity_in_work_unit ::
  "sqlite_env \<Rightarrow> clock \<Rightarrow> clock \<Rightarrow> WorkUnit \<Rightarrow> EntityKey \<Rightarrow> ReadConsistency \<Rightarrow> sqlite_db
   \<Rightarrow> WorkUnitReadOutcome db_step" where
  "read_entity_in_work_unit E clk clk' wu key consistency db =
     (let existed = work_unit_exists (wu_identity_json wu) db
      in case ensure_work_unit E wu db of
           Inl e \<Rightarrow> (Err e, db)
         | Inr (SwPolicyMismatch, db1) \<Rightarrow>
             finish_tx clk' (wu_deadline_unix_ms wu) db (Ok (WrPolicyMismatch, db1))
         | Inr (SwCommitted, db1) \<Rightarrow>
             finish_tx clk' (wu_deadline_unix_ms wu) db (Ok (WrCommitted, db1))
         | Inr (SwExpired, db1) \<Rightarrow>
             finish_tx clk' (wu_deadline_unix_ms wu) db (Ok (WrExpired, db1))
         | Inr (SwClosing, db1) \<Rightarrow>
             finish_tx clk' (wu_deadline_unix_ms wu) db (Ok (WrClosing, db1))
         | Inr (SwOpen, db1) \<Rightarrow>
             (case bindR (work_unit_baseline (wu_identity_json wu) db1) (\<lambda>baseline.
                   bindR (consistency_observation clk (wu_scope_json wu) consistency baseline
                            (\<not> existed) db1) (\<lambda>ob. Ok (baseline, ob))) of
                Inl e \<Rightarrow> (Err e, db)
              | Inr (_, None) \<Rightarrow> (Ok (WrOpen ReadUnavailable), db)
              | Inr (baseline, Some observation) \<Rightarrow>
                  finish_tx clk' (wu_deadline_unix_ms wu) db
                    (bindR (capture_work_unit_entity (wu_identity_json wu) key db1) (\<lambda>db2.
                     let snapshot = read_work_unit_snapshot (wu_identity_json wu) key db2 in
                     bindR (advance_read_sessions E (wu_scope_json wu) consistency baseline db2) (\<lambda>db3.
                       Ok (WrOpen (Read snapshot observation), db3))))))"

section \<open>Publication\<close>

text \<open>\<open>ORDER BY close_marker, scope_json, entity_type, entity_id\<close>\<close>

definition entity_order :: "EntityKey \<Rightarrow> string \<times> string \<times> string" where
  "entity_order k = (scope_json k, entity_type k, entity_id k)"

definition work_unit_mutated_entities :: "string \<Rightarrow> sqlite_db \<Rightarrow> EntityKey list" where
  "work_unit_mutated_entities unit db =
     map (\<lambda>((_, k), _). k)
       (sort_key (\<lambda>((_, k), r). (wer_close_marker r, entity_order k))
         (filter (\<lambda>((u, k), _). u = unit
                    \<and> tbl_select (\<lambda>(u', k', _) _. u' = unit \<and> k' = k) (t_wu_head db) \<noteq> [])
           (t_wu_entity db)))"

definition publication_conflict ::
  "string \<Rightarrow> sqlite_db \<Rightarrow> EntityKey \<Rightarrow> WorkUnitConflict option presult" where
  "publication_conflict unit db key =
     (let baseline_heads = work_unit_base_heads unit key db;
          current = read_entity_snapshot key db;
          current_heads = (case current of None \<Rightarrow> [] | Some sn \<Rightarrow> sn_head_versions sn)
      in if current_heads = baseline_heads then Ok None
         else
           bindR (ok_or (read_work_unit_snapshot unit key db) provider_error_new) (\<lambda>staged.
           bindR (ok_or (map_of (t_wu_entity db) (unit, key)) database_error) (\<lambda>row.
           bindR (ok_or (wer_conflict_policy_json row) provider_error_new) (\<lambda>policy.
             Ok (Some \<lparr>wk_key = key, wk_baseline_heads = baseline_heads, wk_staged = staged,
                       wk_current = current, wk_conflict_policy_json = policy\<rparr>)))))"

definition publication_conflicts :: "string \<Rightarrow> sqlite_db \<Rightarrow> WorkUnitConflict list presult" where
  "publication_conflicts unit db =
     bindR (mapR (publication_conflict unit db) (work_unit_mutated_entities unit db)) (\<lambda>cs.
       Ok (List.map_filter (\<lambda>c. c) cs))"

definition derive_change_kind ::
  "EntityKey \<Rightarrow> string list \<Rightarrow> string list \<Rightarrow> sqlite_db \<Rightarrow> StoredChangeKind presult" where
  "derive_change_kind key baseline heads db =
     (if baseline = [] then Ok Created
      else if length heads > 1 then Ok Conflicted
      else if length baseline > 1 then Ok Resolved
      else case heads of
             [] \<Rightarrow> Err provider_error_new
           | h # _ \<Rightarrow>
               bindR (ok_or (map_of (t_version db) (key, h)) database_error) (\<lambda>row.
                 case evr_state row of Deleted \<Rightarrow> Ok DeletedKind | Active \<Rightarrow> Ok Updated))"

definition publish_work_unit_versions :: "string \<Rightarrow> EntityKey \<Rightarrow> nat \<Rightarrow> sqlite_db \<Rightarrow> sqlite_db" where
  "publish_work_unit_versions unit key cursor db =
     db\<lparr>t_version := tbl_update (\<lambda>(k, _) r. evr_work_unit_json r = Some unit \<and> k = key)
          (\<lambda>r. r\<lparr>evr_work_unit_json := None, evr_published_cursor := Some cursor\<rparr>) (t_version db)\<rparr>"

definition publish_work_unit_entity ::
  "sqlite_env \<Rightarrow> string \<Rightarrow> nat \<Rightarrow> EntityKey \<Rightarrow> sqlite_db \<Rightarrow> sqlite_db presult" where
  "publish_work_unit_entity E unit recorded_at key db =
     (let previous_heads = published_heads key db;
          heads = direct_work_unit_heads unit key db
      in bindR (replace_published_heads key heads db) (\<lambda>db.
         bindR (derive_change_kind key previous_heads heads db) (\<lambda>kind.
         bindR (ok_or (map_of (t_wu_entity db) (unit, key)) database_error) (\<lambda>row.
         bindR (ok_or (wer_causal_token row) database_error) (\<lambda>causal_token.
         bindR (ok_or (wer_event_meta_json row) database_error) (\<lambda>event_meta.
         bindR (ok_or (wer_write_session_keys row) database_error) (\<lambda>session_keys.
         bindR (insert_change E key kind heads causal_token event_meta recorded_at db) (\<lambda>(cursor, db).
         bindR (advance_write_sessions E (scope_json key) session_keys cursor db) (\<lambda>db.
           Ok (publish_work_unit_versions unit key cursor db))))))))))"

definition promote_idempotency :: "string \<Rightarrow> nat \<Rightarrow> sqlite_db \<Rightarrow> sqlite_db presult" where
  "promote_idempotency unit recorded_at db =
     bindR (foldR (\<lambda>(identity, r) t. ok_or (tbl_insert identity
              \<lparr>idr_request_json = wir_request_json r, idr_result_json = wir_result_json r,
               idr_expires_at_unix_ms = wir_expires_at_unix_ms r\<rparr> t) database_error)
            (filter (\<lambda>(_, r). wir_work_unit_json r = unit \<and> wir_expires_at_unix_ms r > recorded_at)
              (t_wu_idempotency db)) (t_idempotency db)) (\<lambda>t.
       Ok (db\<lparr>t_idempotency := t,
              t_wu_idempotency := tbl_delete (\<lambda>_ r. wir_work_unit_json r = unit) (t_wu_idempotency db)\<rparr>))"

definition finish_work_unit_publication ::
  "sqlite_env \<Rightarrow> string \<Rightarrow> nat \<Rightarrow> sqlite_db \<Rightarrow> sqlite_db presult" where
  "finish_work_unit_publication E unit recorded_at db =
     bindR (foldR (publish_work_unit_entity E unit recorded_at) (work_unit_mutated_entities unit db) db) (\<lambda>db.
     bindR (promote_idempotency unit recorded_at db) (\<lambda>db.
       Ok (db\<lparr>t_work_unit := tbl_update (\<lambda>k _. k = unit)
             (\<lambda>r. r\<lparr>wur_state := DbCommitted, wur_closed_at_unix_ms := Some recorded_at\<rparr>)
             (t_work_unit db)\<rparr>)))"

section \<open>Staging\<close>

definition store_work_unit_idempotency ::
  "sqlite_env \<Rightarrow> string \<Rightarrow> IdempotencyRecord \<Rightarrow> nat \<Rightarrow> sqlite_db
   \<Rightarrow> (IdempotencyReadOutcome \<times> sqlite_db) presult" where
  "store_work_unit_idempotency E unit idem now db =
     bindR (delete_expired_idempotency now db) (\<lambda>db.
       case map_of (t_idempotency db) (ir_identity_json idem) of
         Some r \<Rightarrow>
           Ok (if idr_request_json r = ir_request_json idem then IdemReplayed (idr_result_json r)
               else IdemConflict, db)
       | None \<Rightarrow>
           (case map_of (t_wu_idempotency db) (ir_identity_json idem) of
              Some r \<Rightarrow>
                Ok (if wir_work_unit_json r = unit \<and> wir_request_json r = ir_request_json idem
                    then IdemReplayed (wir_result_json r) else IdemConflict, db)
            | None \<Rightarrow>
                bindR (bind_u64 (ir_expires_at_unix_ms idem)) (\<lambda>expires.
                bindR (guardR (json_valid E (ir_identity_json idem) \<and> json_valid E (ir_request_json idem)
                               \<and> json_valid E (ir_result_json idem)
                               \<and> map_of (t_work_unit db) unit \<noteq> None) database_error) (\<lambda>_.
                bindR (ok_or (tbl_insert (ir_identity_json idem)
                         \<lparr>wir_work_unit_json = unit, wir_request_json = ir_request_json idem,
                          wir_result_json = ir_result_json idem, wir_expires_at_unix_ms = expires\<rparr>
                         (t_wu_idempotency db)) database_error) (\<lambda>t.
                  Ok (IdemMissing, db\<lparr>t_wu_idempotency := t\<rparr>))))))"

definition read_work_unit_idempotency ::
  "sqlite_env \<Rightarrow> WorkUnit \<Rightarrow> string \<Rightarrow> string \<Rightarrow> nat \<Rightarrow> bool \<Rightarrow> sqlite_db
   \<Rightarrow> (IdempotencyReadOutcome \<times> sqlite_db) presult" where
  "read_work_unit_idempotency E wu identity request now allow_replay db =
     bindR (ensure_work_unit E wu db) (\<lambda>(state, db).
       if state = SwPolicyMismatch then Ok (IdemConflict, db)
       else if state = SwExpired then Ok (IdemMissing, db)
       else
         bindR (delete_expired_idempotency now db) (\<lambda>db.
           case map_of (t_idempotency db) identity of
             Some r \<Rightarrow>
               Ok (if idr_request_json r = request then IdemReplayed (idr_result_json r)
                   else IdemConflict, db)
           | None \<Rightarrow>
               Ok (case map_of (t_wu_idempotency db) identity of
                     None \<Rightarrow> IdemMissing
                   | Some r \<Rightarrow>
                       if wir_work_unit_json r = wu_identity_json wu \<and> wir_request_json r = request
                       then if allow_replay then IdemReplayed (wir_result_json r) else IdemMissing
                       else IdemConflict, db)))"

definition read_idempotency_in_work_unit ::
  "sqlite_env \<Rightarrow> clock \<Rightarrow> clock \<Rightarrow> WorkUnit \<Rightarrow> ReadConsistency \<Rightarrow> string \<Rightarrow> string \<Rightarrow> nat \<Rightarrow> bool
   \<Rightarrow> sqlite_db \<Rightarrow> IdempotencyReadOutcome db_step" where
  "read_idempotency_in_work_unit E clk clk' wu consistency identity request now allow_replay db =
     (let existed = work_unit_exists (wu_identity_json wu) db
      in case bindR (read_work_unit_idempotency E wu identity request now allow_replay db) (\<lambda>(outcome, db1).
              bindR (work_unit_baseline (wu_identity_json wu) db1) (\<lambda>baseline.
              bindR (consistency_observation clk (wu_scope_json wu) consistency baseline
                       (\<not> existed) db1) (\<lambda>ob. Ok (outcome, db1, ob)))) of
           Inl e \<Rightarrow> (Err e, db)
         | Inr (_, _, None) \<Rightarrow> (Ok IdemUnavailable, db)
         | Inr (outcome, db1, Some observation) \<Rightarrow>
             finish_tx clk' (wu_deadline_unix_ms wu) db
               (bindR (advance_read_sessions E (wu_scope_json wu) consistency
                         (ob_frontier observation) db1) (\<lambda>db2. Ok (outcome, db2))))"

definition stage_work_unit_entity ::
  "sqlite_env \<Rightarrow> WorkUnitCommit \<Rightarrow> sqlite_db \<Rightarrow> sqlite_db presult" where
  "stage_work_unit_entity E c db =
     (let unit = wu_identity_json (wc_work_unit c); key = ec_key (wc_entity c)
      in bindR (capture_work_unit_entity unit key db) (\<lambda>db.
         bindR (guardR (map_of (t_wu_entity db) (unit, key) = None
                        \<or> json_valid E (wc_conflict_policy_json c)
                          \<and> json_valid E (ec_event_meta_json (wc_entity c))) database_error) (\<lambda>_.
           Ok (db\<lparr>t_wu_entity := tbl_update (\<lambda>k _. k = (unit, key))
                 (\<lambda>r. \<lparr>wer_conflict_policy_json = Some (wc_conflict_policy_json c),
                       wer_causal_token = Some (ec_causal_token (wc_entity c)),
                       wer_event_meta_json = Some (ec_event_meta_json (wc_entity c)),
                       wer_write_session_keys = Some (ec_write_session_keys (wc_entity c)),
                       wer_close_marker = (wer_close_marker r \<or> wc_close c)\<rparr>)
                 (t_wu_entity db)\<rparr>))))"

text \<open>What the code does once the unit is known to be open. \<open>Inl\<close> of the inner sum is an early
  return that drops the transaction, \<open>Inr\<close> an answer given after committing.\<close>

definition store_staged_idempotency ::
  "sqlite_env \<Rightarrow> WorkUnitCommit \<Rightarrow> sqlite_db \<Rightarrow> (WorkUnitCommitOutcome + sqlite_db) presult" where
  "store_staged_idempotency E c db =
     (case wc_idempotency c of
        None \<Rightarrow> Ok (Inr db)
      | Some idem \<Rightarrow>
          bindR (store_work_unit_idempotency E (wu_identity_json (wc_work_unit c)) idem
                   (wu_now_unix_ms (wc_work_unit c)) db) (\<lambda>(outcome, db).
            case outcome of
              IdemMissing \<Rightarrow> Ok (Inr db)
            | IdemReplayed result \<Rightarrow> Ok (if wc_close c then Inr db else Inl (WcReplayed result))
            | IdemConflict \<Rightarrow> Ok (Inl WcIdempotencyConflict)
            | IdemUnavailable \<Rightarrow> Err provider_error_new))"

definition close_work_unit :: "string \<Rightarrow> sqlite_db \<Rightarrow> sqlite_db" where
  "close_work_unit unit db =
     db\<lparr>t_work_unit := tbl_update (\<lambda>k r. k = unit \<and> wur_state r = DbOpen)
          (\<lambda>r. r\<lparr>wur_state := DbClosing\<rparr>) (t_work_unit db)\<rparr>"

definition close_and_publish ::
  "sqlite_env \<Rightarrow> WorkUnitCommit \<Rightarrow> nat \<Rightarrow> sqlite_db \<Rightarrow> (WorkUnitCommitOutcome \<times> sqlite_db) presult" where
  "close_and_publish E c recorded_at db =
     (if \<not> wc_close c then Ok (WcStaged, db)
      else
        let unit = wu_identity_json (wc_work_unit c); db = close_work_unit unit db in
        bindR (publication_conflicts unit db) (\<lambda>conflicts.
          if conflicts \<noteq> [] then Ok (WcPublicationConflict conflicts, db)
          else bindR (finish_work_unit_publication E unit recorded_at db) (\<lambda>db.
                 Ok (WcPublished, db))))"

definition commit_in_open_work_unit ::
  "sqlite_env \<Rightarrow> WorkUnitCommit \<Rightarrow> sqlite_db
   \<Rightarrow> (WorkUnitCommitOutcome + WorkUnitCommitOutcome \<times> sqlite_db) presult" where
  "commit_in_open_work_unit E c db =
     (let unit = wu_identity_json (wc_work_unit c); key = ec_key (wc_entity c); entity = wc_entity c
      in bindR (stage_work_unit_entity E c db) (\<lambda>db.
         let current_heads = work_unit_heads unit key db in
         if current_heads \<noteq> sort (ec_expected_heads entity)
         then Ok (Inl (WcConflict current_heads))
         else
           bindR (sqlite_time (ec_recorded_at_unix_ms entity)) (\<lambda>recorded_at.
           bindR (insert_entity_versions E key (ec_new_versions entity) (Some unit) recorded_at db) (\<lambda>db.
           bindR (replace_work_unit_heads unit key (ec_head_versions entity) db) (\<lambda>db.
           bindR (store_staged_idempotency E c db) (\<lambda>stored.
             case stored of
               Inl outcome \<Rightarrow> Ok (Inl outcome)
             | Inr db \<Rightarrow>
                 bindR (close_and_publish E c recorded_at db) (\<lambda>answer. Ok (Inr answer))))))))"

definition commit_in_closing_work_unit ::
  "sqlite_env \<Rightarrow> WorkUnitCommit \<Rightarrow> sqlite_db \<Rightarrow> (WorkUnitCommitOutcome \<times> sqlite_db) presult" where
  "commit_in_closing_work_unit E c db =
     (if \<not> wc_close c then Ok (WcClosing, db)
      else
        let unit = wu_identity_json (wc_work_unit c) in
        bindR (publication_conflicts unit db) (\<lambda>conflicts.
          if conflicts \<noteq> [] then Ok (WcPublicationConflict conflicts, db)
          else
            bindR (sqlite_time (ec_recorded_at_unix_ms (wc_entity c))) (\<lambda>recorded_at.
            bindR (finish_work_unit_publication E unit recorded_at db) (\<lambda>db.
              Ok (WcPublished, db)))))"

definition commit_entity_in_work_unit ::
  "sqlite_env \<Rightarrow> clock \<Rightarrow> WorkUnitCommit \<Rightarrow> sqlite_db \<Rightarrow> WorkUnitCommitOutcome db_step" where
  "commit_entity_in_work_unit E clk c db =
     (let finish = finish_tx clk (wu_deadline_unix_ms (wc_work_unit c)) db
      in if ec_head_versions (wc_entity c) = [] then (Err provider_error_new, db)
         else case ensure_work_unit E (wc_work_unit c) db of
                Inl e \<Rightarrow> (Err e, db)
              | Inr (SwPolicyMismatch, db1) \<Rightarrow> finish (Ok (WcPolicyMismatch, db1))
              | Inr (SwCommitted, db1) \<Rightarrow> finish (Ok (WcCommitted, db1))
              | Inr (SwExpired, db1) \<Rightarrow> finish (Ok (WcExpired, db1))
              | Inr (SwClosing, db1) \<Rightarrow> finish (commit_in_closing_work_unit E c db1)
              | Inr (SwOpen, db1) \<Rightarrow>
                  (case commit_in_open_work_unit E c db1 of
                     Inl e \<Rightarrow> (Err e, db)
                   | Inr (Inl outcome) \<Rightarrow> (Ok outcome, db)
                   | Inr (Inr answer) \<Rightarrow> finish (Ok answer)))"

section \<open>Publishing a closing unit\<close>

fun apply_resolutions ::
  "sqlite_env \<Rightarrow> string \<Rightarrow> WorkUnitResolution list \<Rightarrow> WorkUnitConflict list \<Rightarrow> WorkUnitConflict list
   \<Rightarrow> sqlite_db \<Rightarrow> (WorkUnitCommitOutcome + sqlite_db) presult" where
  "apply_resolutions E unit resolutions conflicts [] db = Ok (Inr db)"
| "apply_resolutions E unit resolutions conflicts (conflict # rest) db =
     (case find (\<lambda>r. ec_key (wr_entity r) = wk_key conflict) resolutions of
        None \<Rightarrow> Ok (Inl (WcPublicationConflict conflicts))
      | Some resolution \<Rightarrow>
          let entity = wr_entity resolution;
              current_heads = (case wk_current conflict of None \<Rightarrow> [] | Some sn \<Rightarrow> sn_head_versions sn)
          in if sort (wr_expected_published_heads resolution) \<noteq> current_heads
             then Ok (Inl (WcPublicationConflict conflicts))
             else if sort (ec_expected_heads entity) \<noteq> sn_head_versions (wk_staged conflict)
             then Ok (Inl (WcConflict (sn_head_versions (wk_staged conflict))))
             else if ec_head_versions entity = [] then Err provider_error_new
             else
               bindR (sqlite_time (ec_recorded_at_unix_ms entity)) (\<lambda>recorded_at.
               bindR (insert_entity_versions E (wk_key conflict) (ec_new_versions entity) (Some unit)
                        recorded_at db) (\<lambda>db.
               bindR (replace_work_unit_heads unit (wk_key conflict) (ec_head_versions entity) db) (\<lambda>db.
                 apply_resolutions E unit resolutions conflicts rest db))))"

definition publish_work_unit ::
  "sqlite_env \<Rightarrow> WorkUnitPublish \<Rightarrow> sqlite_db \<Rightarrow> WorkUnitCommitOutcome db_step" where
  "publish_work_unit E p db =
     (let unit = wu_identity_json (wp_work_unit p)
      in case ensure_work_unit E (wp_work_unit p) db of
           Inl e \<Rightarrow> (Err e, db)
         | Inr (SwPolicyMismatch, db1) \<Rightarrow> (Ok WcPolicyMismatch, db1)
         | Inr (SwCommitted, db1) \<Rightarrow> (Ok WcCommitted, db1)
         | Inr (SwExpired, db1) \<Rightarrow> (Ok WcExpired, db1)
         | Inr (SwOpen, _) \<Rightarrow> (Err provider_error_new, db)
         | Inr (SwClosing, db1) \<Rightarrow>
             (case publication_conflicts unit db1 of
                Inl e \<Rightarrow> (Err e, db)
              | Inr conflicts \<Rightarrow>
                  if length conflicts \<noteq> length (wp_resolutions p)
                  then (Ok (WcPublicationConflict conflicts), db)
                  else
                    (case apply_resolutions E unit (wp_resolutions p) conflicts conflicts db1 of
                       Inl e \<Rightarrow> (Err e, db)
                     | Inr (Inl outcome) \<Rightarrow> (Ok outcome, db)
                     | Inr (Inr db2) \<Rightarrow>
                         finish_tx None None db
                           (bindR (sqlite_time (wp_recorded_at_unix_ms p)) (\<lambda>recorded_at.
                            bindR (finish_work_unit_publication E unit recorded_at db2) (\<lambda>db3.
                              Ok (WcPublished, db3)))))))"


section \<open>What each statement changes\<close>

lemma insert_base_versions_Ok:
  "foldR (insert_base_version unit key heads) vs db = Inr db' \<Longrightarrow>
     db' = db\<lparr>t_wu_base := t_wu_base db @ map (\<lambda>v. ((unit, key, v), v \<in> set heads)) vs\<rparr>
     \<and> (\<forall>v \<in> set vs. map_of (t_wu_base db) (unit, key, v) = None) \<and> distinct vs"
proof (induction vs arbitrary: db)
  case (Cons v vs)
  then obtain d where d: "insert_base_version unit key heads v db = Inr d"
    "foldR (insert_base_version unit key heads) vs d = Inr db'" by (auto simp: bindR_eq_Inr)
  from d(1) have "map_of (t_wu_base db) (unit, key, v) = None"
    "d = db\<lparr>t_wu_base := t_wu_base db @ [((unit, key, v), v \<in> set heads)]\<rparr>"
    by (auto simp: insert_base_version_def bindR_eq_Inr tbl_insert_eq_Some)
  with Cons.IH[OF d(2)] show ?case by (auto simp: map_of_eq_None_iff image_iff)
qed simp

definition blank_entity :: work_unit_entity_row where
  "blank_entity = \<lparr>wer_conflict_policy_json = None, wer_causal_token = None,
     wer_event_meta_json = None, wer_write_session_keys = None, wer_close_marker = False\<rparr>"

definition captured_base ::
  "string \<Rightarrow> EntityKey \<Rightarrow> nat \<Rightarrow> sqlite_db \<Rightarrow> (string \<times> EntityKey \<times> string, bool) table" where
  "captured_base unit key cutoff db =
     map (\<lambda>v. ((unit, key, v), v \<in> set (baseline_heads_at key cutoff db))) (baseline_versions_at key cutoff db)"

lemma capture_Ok:
  assumes "capture_work_unit_entity unit key db = Inr db'"
  shows "(map_of (t_wu_entity db) (unit, key) \<noteq> None \<and> db' = db)
    \<or> (\<exists>row. map_of (t_wu_entity db) (unit, key) = None \<and> map_of (t_work_unit db) unit = Some row
         \<and> db' = db\<lparr>t_wu_entity := t_wu_entity db @ [((unit, key), blank_entity)],
                    t_wu_base := t_wu_base db @ captured_base unit key (wur_baseline_cursor row) db\<rparr>
         \<and> (\<forall>v \<in> set (baseline_versions_at key (wur_baseline_cursor row) db).
              map_of (t_wu_base db) (unit, key, v) = None)
         \<and> distinct (baseline_versions_at key (wur_baseline_cursor row) db))"
proof (cases "map_of (t_wu_entity db) (unit, key)")
  case (Some e)
  with assms show ?thesis by (simp add: capture_work_unit_entity_def)
next
  case None
  let ?d = "db\<lparr>t_wu_entity := t_wu_entity db @ [((unit, key), blank_entity)]\<rparr>"
  have cong: "baseline_heads_at key c ?d = baseline_heads_at key c db"
    "baseline_versions_at key c ?d = baseline_versions_at key c db" for c
    by (simp_all add: baseline_heads_at_def baseline_versions_at_def)
  from assms None obtain row where row: "map_of (t_work_unit db) unit = Some row"
    and run: "foldR (insert_base_version unit key (baseline_heads_at key (wur_baseline_cursor row) ?d))
       (baseline_versions_at key (wur_baseline_cursor row) ?d) ?d = Inr db'"
    by (auto simp: capture_work_unit_entity_def bindR_eq_Inr Let_def tbl_ignore_def blank_entity_def)
  from insert_base_versions_Ok[OF run] None row show ?thesis
    by (auto simp: captured_base_def cong)
qed

lemma stage_Ok:
  assumes "stage_work_unit_entity E c db = Inr db'"
  shows "\<exists>d. capture_work_unit_entity (wu_identity_json (wc_work_unit c)) (ec_key (wc_entity c)) db = Inr d
    \<and> db' = d\<lparr>t_wu_entity := tbl_update
        (\<lambda>k _. k = (wu_identity_json (wc_work_unit c), ec_key (wc_entity c)))
        (\<lambda>r. \<lparr>wer_conflict_policy_json = Some (wc_conflict_policy_json c),
              wer_causal_token = Some (ec_causal_token (wc_entity c)),
              wer_event_meta_json = Some (ec_event_meta_json (wc_entity c)),
              wer_write_session_keys = Some (ec_write_session_keys (wc_entity c)),
              wer_close_marker = (wer_close_marker r \<or> wc_close c)\<rparr>) (t_wu_entity d)\<rparr>"
  using assms by (auto simp: stage_work_unit_entity_def bindR_eq_Inr Let_def)

lemma insert_work_unit_heads_Ok:
  "foldR (insert_work_unit_head unit key) hs db = Inr db' \<Longrightarrow>
     db' = db\<lparr>t_wu_head := t_wu_head db @ map (\<lambda>h. ((unit, key, h), ())) hs\<rparr>
     \<and> (\<forall>h \<in> set hs. map_of (t_version db) (key, h) \<noteq> None)
     \<and> (hs \<noteq> [] \<longrightarrow> map_of (t_wu_entity db) (unit, key) \<noteq> None)"
proof (induction hs arbitrary: db)
  case (Cons h hs)
  then obtain d where d: "insert_work_unit_head unit key h db = Inr d"
    "foldR (insert_work_unit_head unit key) hs d = Inr db'" by (auto simp: bindR_eq_Inr)
  from d(1) have "d = db\<lparr>t_wu_head := t_wu_head db @ [((unit, key, h), ())]\<rparr>"
    "map_of (t_version db) (key, h) \<noteq> None" "map_of (t_wu_entity db) (unit, key) \<noteq> None"
    by (auto simp: insert_work_unit_head_def bindR_eq_Inr tbl_insert_eq_Some)
  with Cons.IH[OF d(2)] show ?case by auto
qed simp

definition new_unit_heads ::
  "string \<Rightarrow> EntityKey \<Rightarrow> string list \<Rightarrow> (string \<times> EntityKey \<times> string, unit) table
   \<Rightarrow> (string \<times> EntityKey \<times> string, unit) table" where
  "new_unit_heads unit key heads t =
     tbl_delete (\<lambda>(u, k, _) _. u = unit \<and> k = key) t @ map (\<lambda>h. ((unit, key, h), ())) (sort heads)"

lemma replace_work_unit_heads_Ok:
  assumes "replace_work_unit_heads unit key heads db = Inr db'"
  shows "distinct heads \<and> heads \<noteq> [] \<and> db' = db\<lparr>t_wu_head := new_unit_heads unit key heads (t_wu_head db)\<rparr>
    \<and> (\<forall>h \<in> set heads. map_of (t_version db) (key, h) \<noteq> None)
    \<and> map_of (t_wu_entity db) (unit, key) \<noteq> None"
proof -
  from assms have u: "distinct heads" "heads \<noteq> []" and run: "foldR (insert_work_unit_head unit key) (sort heads)
      (db\<lparr>t_wu_head := tbl_delete (\<lambda>(u, k, _) _. u = unit \<and> k = key) (t_wu_head db)\<rparr>) = Inr db'"
    by (auto simp: replace_work_unit_heads_def bindR_eq_Inr unique_heads_Ok)
  from insert_work_unit_heads_Ok[OF run] u show ?thesis by (simp add: new_unit_heads_def)
qed

lemma direct_heads_new:
  "direct_work_unit_heads u k (db\<lparr>t_wu_head := new_unit_heads unit key heads t\<rparr>) =
     (if u = unit \<and> k = key then sort heads else direct_work_unit_heads u k (db\<lparr>t_wu_head := t\<rparr>))"
proof -
  let ?P = "\<lambda>(u', k', _) (_::unit). u' = u \<and> k' = k"
  let ?Q = "\<lambda>(u', k', _ :: string) (_::unit). u' = unit \<and> k' = key"
  have new: "tbl_select ?P (map (\<lambda>h. ((unit, key, h), ())) (sort heads)) =
      (if u = unit \<and> k = key then map (\<lambda>h. (unit, key, h)) (sort heads) else [])"
    by (auto simp: tbl_select_def filter_map comp_def)
  have old: "tbl_select ?P (tbl_delete ?Q t) = (if u = unit \<and> k = key then [] else tbl_select ?P t)"
    by (cases "u = unit \<and> k = key")
       (auto intro!: arg_cong[where f = "map fst"] filter_cong
          simp: tbl_select_def tbl_delete_def filter_empty_conv)
  show ?thesis
    unfolding direct_work_unit_heads_def new_unit_heads_def
    by (simp add: old new comp_def)
qed

lemma store_work_unit_idempotency_only:
  "store_work_unit_idempotency E unit idem now db = Inr (out, db') \<Longrightarrow>
   \<exists>a b. db' = db\<lparr>t_idempotency := a, t_wu_idempotency := b\<rparr>"
  by (auto simp: store_work_unit_idempotency_def bindR_eq_Inr delete_expired_idempotency_Ok
      split: option.splits)

lemma store_staged_idempotency_only:
  assumes "store_staged_idempotency E c db = Inr (Inr db')"
  shows "\<exists>a b. db' = db\<lparr>t_idempotency := a, t_wu_idempotency := b\<rparr>"
proof (cases "wc_idempotency c")
  case None
  with assms show ?thesis
    by (auto simp: store_staged_idempotency_def intro!: exI[of _ "t_idempotency db"] exI[of _ "t_wu_idempotency db"])
next
  case (Some idem)
  with assms obtain out d where store: "store_work_unit_idempotency E (wu_identity_json (wc_work_unit c))
      idem (wu_now_unix_ms (wc_work_unit c)) db = Inr (out, d)"
    by (auto simp: store_staged_idempotency_def bindR_eq_Inr)
  with assms Some have "d = db'"
    by (cases out) (auto simp: store_staged_idempotency_def split: if_splits)
  with store show ?thesis by (auto dest: store_work_unit_idempotency_only)
qed

lemma promote_idempotency_only:
  "promote_idempotency unit t db = Inr db' \<Longrightarrow> \<exists>a b. db' = db\<lparr>t_idempotency := a, t_wu_idempotency := b\<rparr>"
  by (auto simp: promote_idempotency_def bindR_eq_Inr)

text \<open>The database after publishing one entity of a unit.\<close>

lemma publish_work_unit_entity_Ok:
  assumes "publish_work_unit_entity E unit t key db = Inr db'"
  defines "n \<equiv> t_change_seq db + 1" and "heads \<equiv> direct_work_unit_heads unit key db"
  shows "\<exists>row kind tok meta keys.
    map_of (t_wu_entity db) (unit, key) = Some row
    \<and> wer_causal_token row = Some tok \<and> wer_write_session_keys row = Some keys
    \<and> heads \<noteq> [] \<and> distinct heads \<and> n \<le> i64_max
    \<and> map_of (t_causal db) tok = None
    \<and> db' = db\<lparr>t_head := new_heads key heads (t_head db),
        t_change := t_change db @ [(n, \<lparr>chr_key = key, chr_kind = kind, chr_head_versions = heads,
          chr_causal_token = tok, chr_event_meta_json = meta, chr_recorded_at_unix_ms = t\<rparr>)],
        t_change_seq := n,
        t_history := t_history db @ [((key, n), heads)],
        t_causal := t_causal db @ [(tok, (scope_json key, n))],
        t_scope := tbl_upsert (scope_json key) (n, tok) (\<lambda>_. (n, tok)) (t_scope db),
        t_session := written_sessions (scope_json key) n keys (t_session db),
        t_version := tbl_update (\<lambda>(k, _) r. evr_work_unit_json r = Some unit \<and> k = key)
          (\<lambda>r. r\<lparr>evr_work_unit_json := None, evr_published_cursor := Some n\<rparr>) (t_version db)\<rparr>
    \<and> (\<forall>h \<in> set heads. map_of (t_version db) (key, h) \<noteq> None)
    \<and> map_of (t_change db) n = None \<and> map_of (t_history db) (key, n) = None"
proof -
  from assms(1) obtain d1 kind row tok meta keys d2 d3 cursor where
    1: "replace_published_heads key heads db = Inr d1"
    and row: "map_of (t_wu_entity d1) (unit, key) = Some row" "wer_causal_token row = Some tok"
      "wer_write_session_keys row = Some keys"
    and 2: "insert_change E key kind heads tok meta t d1 = Inr (cursor, d2)"
    and 3: "advance_write_sessions E (scope_json key) keys cursor d2 = Inr d3"
    and 4: "db' = publish_work_unit_versions unit key cursor d3"
    by (auto simp: publish_work_unit_entity_def heads_def Let_def bindR_eq_Inr)
  note r1 = replace_published_heads_Ok[OF 1] and r2 = insert_change_Ok[OF 2]
    and r3 = advance_write_sessions_Ok[OF 3]
  from r1 have d1: "d1 = db\<lparr>t_head := new_heads key heads (t_head db)\<rparr>" by simp
  have cursor: "cursor = n" using r2 d1 by (simp add: n_def)
  have none: "map_of (t_change db) n = None" "map_of (t_history db) (key, n) = None"
    using r2 d1 cursor by auto
  note r2 = r2[unfolded cursor d1] and r3 = r3[unfolded cursor]
  show ?thesis
    by (rule exI[of _ row], rule exI[of _ kind], rule exI[of _ tok], rule exI[of _ meta], rule exI[of _ keys])
       (use r1 r2 r3 4 row d1 cursor none in \<open>simp add: publish_work_unit_versions_def\<close>)
qed

end
