(* ===== verification/Work_Unit_Storage.thy ===== *)
theory Work_Unit_Storage
  imports Sqlite_Work_Units
begin

text \<open>
  The storage invariant of the SQLite provider: who owns a version, and what heads and captured
  baselines may refer to. It is shown to hold after every statement group that touches versions
  or heads, from a plain commit to the publication of a work unit.
\<close>


section \<open>The storage invariant\<close>

text \<open>Every version is either published under a cursor of the change log or staged by one active
  work unit that has heads for its entity; published heads and captured baselines refer to
  published versions, heads of a unit to published versions or to its own staged ones.\<close>

definition unit_active :: "string \<Rightarrow> sqlite_db \<Rightarrow> bool" where
  "unit_active u db =
     (case map_of (t_work_unit db) u of None \<Rightarrow> False | Some row \<Rightarrow> wur_state row \<in> {DbOpen, DbClosing})"

definition version_ok :: "sqlite_db \<Rightarrow> EntityKey \<Rightarrow> entity_version_row \<Rightarrow> bool" where
  "version_ok db k r =
     (case (evr_work_unit_json r, evr_published_cursor r) of
        (None, Some c) \<Rightarrow> 0 < c \<and> c \<le> t_change_seq db
      | (Some u, None) \<Rightarrow> unit_active u db \<and> map_of (t_wu_entity db) (u, k) \<noteq> None
                          \<and> direct_work_unit_heads u k db \<noteq> []
      | _ \<Rightarrow> False)"

definition published_version :: "sqlite_db \<Rightarrow> EntityKey \<Rightarrow> string \<Rightarrow> bool" where
  "published_version db k v =
     (case map_of (t_version db) (k, v) of None \<Rightarrow> False | Some r \<Rightarrow> evr_work_unit_json r = None)"

definition unit_version :: "sqlite_db \<Rightarrow> string \<Rightarrow> EntityKey \<Rightarrow> string \<Rightarrow> bool" where
  "unit_version db u k v =
     (case map_of (t_version db) (k, v) of
        None \<Rightarrow> False
      | Some r \<Rightarrow> evr_work_unit_json r = None \<or> evr_work_unit_json r = Some u)"

definition storage_ok :: "sqlite_db \<Rightarrow> bool" where
  "storage_ok db \<longleftrightarrow>
     (tbl_wf (t_version db) \<and> tbl_wf (t_head db) \<and> tbl_wf (t_work_unit db) \<and> tbl_wf (t_wu_entity db)
      \<and> tbl_wf (t_wu_head db) \<and> tbl_wf (t_wu_base db))
     \<and> (\<forall>((k, v), r) \<in> set (t_version db). version_ok db k r)
     \<and> (\<forall>((k, v), _) \<in> set (t_head db). published_version db k v)
     \<and> (\<forall>((u, k, v), _) \<in> set (t_wu_base db). published_version db k v \<and> map_of (t_wu_entity db) (u, k) \<noteq> None)
     \<and> (\<forall>((u, k, v), _) \<in> set (t_wu_head db). unit_version db u k v \<and> map_of (t_wu_entity db) (u, k) \<noteq> None)"

lemma tbl_wf_ball:
  assumes "tbl_wf t"
  shows "(\<forall>(k, r) \<in> set t. P k r) \<longleftrightarrow> (\<forall>k r. map_of t k = Some r \<longrightarrow> P k r)"
  using map_of_wf_iff[OF assms] by auto

lemma storage_ok_iff:
  "storage_ok db \<longleftrightarrow>
     (tbl_wf (t_version db) \<and> tbl_wf (t_head db) \<and> tbl_wf (t_work_unit db) \<and> tbl_wf (t_wu_entity db)
      \<and> tbl_wf (t_wu_head db) \<and> tbl_wf (t_wu_base db))
     \<and> (\<forall>k v r. map_of (t_version db) (k, v) = Some r \<longrightarrow> version_ok db k r)
     \<and> (\<forall>k v. map_of (t_head db) (k, v) \<noteq> None \<longrightarrow> published_version db k v)
     \<and> (\<forall>u k v. map_of (t_wu_base db) (u, k, v) \<noteq> None \<longrightarrow>
           published_version db k v \<and> map_of (t_wu_entity db) (u, k) \<noteq> None)
     \<and> (\<forall>u k v. map_of (t_wu_head db) (u, k, v) \<noteq> None \<longrightarrow>
           unit_version db u k v \<and> map_of (t_wu_entity db) (u, k) \<noteq> None)"
  (is "_ \<longleftrightarrow> ?wf \<and> _")
proof (cases ?wf)
  case True
  then show ?thesis
    unfolding storage_ok_def
    using tbl_wf_ball[of "t_version db" "\<lambda>(k, v). version_ok db k"]
      tbl_wf_ball[of "t_head db" "\<lambda>(k, v) _. published_version db k v"]
      tbl_wf_ball[of "t_wu_base db" "\<lambda>(u, k, v) _. published_version db k v \<and> map_of (t_wu_entity db) (u, k) \<noteq> None"]
      tbl_wf_ball[of "t_wu_head db" "\<lambda>(u, k, v) _. unit_version db u k v \<and> map_of (t_wu_entity db) (u, k) \<noteq> None"]
    by (simp add: split_paired_All case_prod_beta')
next
  case False
  then show ?thesis unfolding storage_ok_def by blast
qed

lemma storage_okI:
  assumes "tbl_wf (t_version db)" "tbl_wf (t_head db)" "tbl_wf (t_work_unit db)" "tbl_wf (t_wu_entity db)"
    "tbl_wf (t_wu_head db)" "tbl_wf (t_wu_base db)"
    and "\<And>k v r. map_of (t_version db) (k, v) = Some r \<Longrightarrow> version_ok db k r"
    and "\<And>k v. map_of (t_head db) (k, v) \<noteq> None \<Longrightarrow> published_version db k v"
    and "\<And>u k v. map_of (t_wu_base db) (u, k, v) \<noteq> None \<Longrightarrow> published_version db k v"
    and "\<And>u k v. map_of (t_wu_base db) (u, k, v) \<noteq> None \<Longrightarrow> map_of (t_wu_entity db) (u, k) \<noteq> None"
    and "\<And>u k v. map_of (t_wu_head db) (u, k, v) \<noteq> None \<Longrightarrow> unit_version db u k v"
    and "\<And>u k v. map_of (t_wu_head db) (u, k, v) \<noteq> None \<Longrightarrow> map_of (t_wu_entity db) (u, k) \<noteq> None"
  shows "storage_ok db"
  unfolding storage_ok_iff by (intro conjI allI impI; rule assms; assumption?)

lemma storage_okD:
  assumes "storage_ok db"
  shows "tbl_wf (t_version db)" "tbl_wf (t_head db)" "tbl_wf (t_work_unit db)" "tbl_wf (t_wu_entity db)"
    "tbl_wf (t_wu_head db)" "tbl_wf (t_wu_base db)"
    and "map_of (t_version db) (k, v) = Some r \<Longrightarrow> version_ok db k r"
    and "map_of (t_head db) (k, v) \<noteq> None \<Longrightarrow> published_version db k v"
    and "map_of (t_wu_base db) (u, k, v) \<noteq> None \<Longrightarrow> published_version db k v"
    and "map_of (t_wu_base db) (u, k, v) \<noteq> None \<Longrightarrow> map_of (t_wu_entity db) (u, k) \<noteq> None"
    and "map_of (t_wu_head db) (u, k, v) \<noteq> None \<Longrightarrow> unit_version db u k v"
    and "map_of (t_wu_head db) (u, k, v) \<noteq> None \<Longrightarrow> map_of (t_wu_entity db) (u, k) \<noteq> None"
proof -
  note I = assms[unfolded storage_ok_iff]
  show "tbl_wf (t_version db)" "tbl_wf (t_head db)" "tbl_wf (t_work_unit db)" "tbl_wf (t_wu_entity db)"
    "tbl_wf (t_wu_head db)" "tbl_wf (t_wu_base db)" using I by simp_all
  show "map_of (t_version db) (k, v) = Some r \<Longrightarrow> version_ok db k r"
    and "map_of (t_head db) (k, v) \<noteq> None \<Longrightarrow> published_version db k v"
    using I by auto
  show "map_of (t_wu_base db) (u, k, v) \<noteq> None \<Longrightarrow> published_version db k v"
    and "map_of (t_wu_base db) (u, k, v) \<noteq> None \<Longrightarrow> map_of (t_wu_entity db) (u, k) \<noteq> None"
    using I by auto
  show "map_of (t_wu_head db) (u, k, v) \<noteq> None \<Longrightarrow> unit_version db u k v"
    and "map_of (t_wu_head db) (u, k, v) \<noteq> None \<Longrightarrow> map_of (t_wu_entity db) (u, k) \<noteq> None"
    using I by auto
qed

lemma storage_ok_cong:
  assumes "t_version db' = t_version db" "t_head db' = t_head db" "t_work_unit db' = t_work_unit db"
    "t_wu_entity db' = t_wu_entity db" "t_wu_head db' = t_wu_head db" "t_wu_base db' = t_wu_base db"
    "t_change_seq db' = t_change_seq db"
  shows "storage_ok db' = storage_ok db"
  unfolding storage_ok_def version_ok_def published_version_def unit_version_def unit_active_def
    direct_work_unit_heads_def assms ..

lemma storage_ok_empty: "storage_ok empty_db"
  by (simp add: storage_ok_def empty_db_def)

lemma direct_heads_nonempty:
  "direct_work_unit_heads u k db \<noteq> [] \<longleftrightarrow> (\<exists>v. map_of (t_wu_head db) (u, k, v) \<noteq> None)"
proof -
  have "direct_work_unit_heads u k db \<noteq> [] \<longleftrightarrow> (\<exists>v. (u, k, v) \<in> fst ` set (t_wu_head db))"
    by (force simp: direct_work_unit_heads_def tbl_select_def filter_empty_conv)
  then show ?thesis by (metis map_of_eq_None_iff)
qed

lemma set_direct_heads:
  "h \<in> set (direct_work_unit_heads u k db) \<longleftrightarrow> map_of (t_wu_head db) (u, k, h) \<noteq> None"
proof -
  have "h \<in> set (direct_work_unit_heads u k db) \<longleftrightarrow> (u, k, h) \<in> fst ` set (t_wu_head db)"
    by (force simp: direct_work_unit_heads_def)
  then show ?thesis by (metis map_of_eq_None_iff)
qed

lemma set_published_heads:
  "h \<in> set (published_heads k db) \<longleftrightarrow> map_of (t_head db) (k, h) \<noteq> None"
proof -
  have "h \<in> set (published_heads k db) \<longleftrightarrow> (k, h) \<in> fst ` set (t_head db)"
    by (force simp: published_heads_def heads_of_def)
  then show ?thesis by (metis map_of_eq_None_iff)
qed

lemma set_base_heads:
  assumes "h \<in> set (work_unit_base_heads u k db)"
  shows "map_of (t_wu_base db) (u, k, h) \<noteq> None"
proof -
  have "(u, k, h) \<in> fst ` set (t_wu_base db)" using assms by (force simp: work_unit_base_heads_def)
  then show ?thesis by (metis map_of_eq_None_iff)
qed

lemma map_of_new_heads:
  "tbl_wf t \<Longrightarrow> map_of (new_heads key heads t) (k, v) =
     (if k = key then if v \<in> set heads then Some () else None else map_of t (k, v))"
proof -
  assume wf: "tbl_wf t"
  have new: "map_of (map (\<lambda>h. ((key, h), ())) hs) (k, v) = (if k = key \<and> v \<in> set hs then Some () else None)" for hs
    by (induction hs) auto
  show ?thesis
    unfolding new_heads_def map_of_append map_add_def new map_of_tbl_delete[OF wf]
    by (auto split: option.splits)
qed

lemma tbl_wf_new_heads: "tbl_wf t \<Longrightarrow> distinct heads \<Longrightarrow> tbl_wf (new_heads key heads t)"
  unfolding new_heads_def tbl_wf_def map_append distinct_append
  by (auto simp: tbl_delete_def comp_def distinct_map inj_on_def intro: distinct_map_filter)

lemma map_of_new_unit_heads:
  "tbl_wf t \<Longrightarrow> map_of (new_unit_heads unit key heads t) (u, k, v) =
     (if u = unit \<and> k = key then if v \<in> set heads then Some () else None else map_of t (u, k, v))"
proof -
  assume wf: "tbl_wf t"
  have new: "map_of (map (\<lambda>h. ((unit, key, h), ())) hs) (u, k, v) =
      (if u = unit \<and> k = key \<and> v \<in> set hs then Some () else None)" for hs
    by (induction hs) auto
  show ?thesis
    unfolding new_unit_heads_def map_of_append map_add_def new map_of_tbl_delete[OF wf]
    by (auto split: option.splits)
qed

lemma tbl_wf_new_unit_heads: "tbl_wf t \<Longrightarrow> distinct heads \<Longrightarrow> tbl_wf (new_unit_heads unit key heads t)"
  unfolding new_unit_heads_def tbl_wf_def map_append distinct_append
  by (auto simp: tbl_delete_def comp_def distinct_map inj_on_def intro: distinct_map_filter)

lemma tbl_wf_fresh_append:
  assumes "tbl_wf t" and "distinct (map sv_version vs)"
    and "\<forall>v \<in> set vs. map_of t (key, sv_version v) = None"
  shows "tbl_wf (t @ map (\<lambda>v. ((key, sv_version v), f v)) vs)"
proof -
  have "distinct (map (\<lambda>v. (key, sv_version v)) vs)"
    using assms(2) by (auto simp: distinct_map inj_on_def)
  moreover have "fst ` set t \<inter> (\<lambda>v. (key, sv_version v)) ` set vs = {}"
    using assms(3) by (force simp: map_of_eq_None_iff)
  ultimately show ?thesis using assms(1) by (simp add: tbl_wf_def comp_def image_image)
qed

lemma map_of_version_append:
  "map_of (t @ map (\<lambda>v. ((key, sv_version v), f v)) vs) x =
     (case map_of t x of None \<Rightarrow> map_of (map (\<lambda>v. ((key, sv_version v), f v)) vs) x | Some r \<Rightarrow> Some r)"
  for t :: "(EntityKey \<times> string, 'r) table"
  by (simp add: map_add_def)

lemma map_of_new_versions:
  "map_of (map (\<lambda>v. ((key, sv_version v), f v)) vs) (k, w) = Some r \<Longrightarrow>
   k = key \<and> (\<exists>v \<in> set vs. w = sv_version v \<and> r = f v)"
  by (drule map_of_SomeD) auto

lemma map_of_new_version_mem:
  "w \<in> sv_version ` set vs \<Longrightarrow> \<exists>v \<in> set vs. map_of (map (\<lambda>v. ((key, sv_version v), f v)) vs) (key, w) = Some (f v)"
  by (induction vs) auto

lemma storage_ok_committed:
  assumes ok: "storage_ok db" and com: "committed_db c db db'" and wf: "commit_wf c"
    and heads: "published_heads (ec_key c) db = sort (ec_expected_heads c)"
  shows "storage_ok db'"
proof -
  note T = committed_db_tables[OF com] and S = committed_db_side[OF com]
  let ?key = "ec_key c" let ?n = "t_change_seq db + 1"
  note I = ok[unfolded storage_ok_iff]
  have old: "map_of (t_version db') x = Some r" if "map_of (t_version db) x = Some r" for x r
    using that by (simp add: T(2) map_of_version_append)
  have new: "\<exists>v \<in> set (ec_new_versions c). map_of (t_version db') (?key, w) =
      Some (published_row v (ec_recorded_at_unix_ms c) ?n)"
    if "w \<in> sv_version ` set (ec_new_versions c)" for w
    using map_of_new_version_mem[OF that] S(4) that
    unfolding T(2) map_of_version_append by (auto split: option.splits)
  have pub: "published_version db' k v" if "published_version db k v" for k v
    using that old by (auto simp: published_version_def split: option.splits)
  have unit: "unit_version db' u k v" if "unit_version db u k v" for u k v
    using that old by (auto simp: unit_version_def split: option.splits)
  have vok: "version_ok db' k r" if "version_ok db k r" for k r
    using that by (auto simp: version_ok_def unit_active_def direct_work_unit_heads_def T split: option.splits)
  have versions: "version_ok db' k r" if "map_of (t_version db') (k, v) = Some r" for k v r
  proof (cases "map_of (t_version db) (k, v)")
    case (Some r')
    with that old I show ?thesis by (metis option.inject vok)
  next
    case None
    with that have "map_of (published_rows ?key (ec_new_versions c) (ec_recorded_at_unix_ms c) ?n) (k, v) = Some r"
      by (simp add: T(2) map_add_def)
    from map_of_new_versions[OF this] show ?thesis
      by (auto simp: version_ok_def published_row_def fresh_row_def T(3))
  qed
  have hds: "published_version db' k v" if "map_of (t_head db') (k, v) \<noteq> None" for k v
  proof (cases "k = ?key")
    case True
    have "v \<in> set (ec_head_versions c)"
      using that True I by (simp add: T(1) map_of_new_heads split: if_splits)
    with wf consider "v \<in> sv_version ` set (ec_new_versions c)" | "v \<in> set (ec_expected_heads c)"
      by (auto simp: commit_wf_def)
    then show ?thesis
    proof cases
      case 1
      from new[OF this] True show ?thesis
        by (auto simp: published_version_def published_row_def fresh_row_def)
    next
      case 2
      then have "v \<in> set (published_heads ?key db)" by (simp add: heads)
      with I True show ?thesis by (auto simp: set_published_heads intro: pub)
    qed
  next
    case False
    with that I show ?thesis by (auto simp: T(1) map_of_new_heads intro: pub)
  qed
  have "tbl_wf (t_version db')" unfolding T(2) using I S(3,4) by (intro tbl_wf_fresh_append) auto
  moreover have "tbl_wf (t_head db')" unfolding T(1) using I S(1) by (intro tbl_wf_new_heads) auto
  ultimately show ?thesis
    by (rule storage_okI) (use versions hds storage_okD[OF ok] pub unit in \<open>auto simp: T(9-12)\<close>)
qed


text \<open>Publishing one entity of a unit.\<close>

lemma storage_ok_published_entity:
  assumes ok: "storage_ok db" and run: "publish_work_unit_entity E unit t key db = Inr db'"
  shows "storage_ok db'"
proof -
  let ?heads = "direct_work_unit_heads unit key db" let ?n = "t_change_seq db + 1"
  let ?P = "\<lambda>(k, _) r. evr_work_unit_json r = Some unit \<and> k = key"
  let ?f = "\<lambda>r. r\<lparr>evr_work_unit_json := None, evr_published_cursor := Some ?n\<rparr>"
  note I = ok[unfolded storage_ok_iff]
  from publish_work_unit_entity_Ok[OF run] have
    hd: "t_head db' = new_heads key ?heads (t_head db)" and dist: "distinct ?heads"
    and tv: "t_version db' = tbl_update ?P ?f (t_version db)"
    and seq: "t_change_seq db' = ?n"
    and rest: "t_work_unit db' = t_work_unit db" "t_wu_entity db' = t_wu_entity db"
      "t_wu_head db' = t_wu_head db" "t_wu_base db' = t_wu_base db" by auto
  have row: "map_of (t_version db') (k, v) = map_option (\<lambda>r. if ?P (k, v) r then ?f r else r) (map_of (t_version db) (k, v))" for k v
    unfolding tv by (rule map_of_tbl_update)
  have pub: "published_version db' k v" if "published_version db k v" for k v
    using that by (auto simp: published_version_def row split: option.splits)
  have unit: "unit_version db' u k v" if "unit_version db u k v" for u k v
    using that by (auto simp: unit_version_def row split: option.splits)
  have versions: "version_ok db' k r" if "map_of (t_version db') (k, v) = Some r" for k v r
  proof -
    from that row obtain r0 where r0: "map_of (t_version db) (k, v) = Some r0"
      and r: "r = (if ?P (k, v) r0 then ?f r0 else r0)" by auto
    from r0 I have "version_ok db k r0" by blast
    then show ?thesis
      by (auto simp: r version_ok_def unit_active_def direct_work_unit_heads_def rest seq split: option.splits)
  qed
  have hds: "published_version db' k v" if "map_of (t_head db') (k, v) \<noteq> None" for k v
  proof (cases "k = key")
    case True
    with that I have "v \<in> set ?heads" by (simp add: hd map_of_new_heads split: if_splits)
    then have "unit_version db unit key v" using I by (auto simp: set_direct_heads)
    with True show ?thesis
      by (auto simp: unit_version_def published_version_def row split: option.splits)
  next
    case False
    with that I show ?thesis by (auto simp: hd map_of_new_heads intro: pub)
  qed
  have "tbl_wf (t_version db')" "tbl_wf (t_head db')"
    unfolding tv hd using I dist by (auto intro: tbl_wf_new_heads)
  then show ?thesis
    by (rule storage_okI) (use versions hds storage_okD[OF ok] pub unit in \<open>auto simp: rest\<close>)
qed

text \<open>Deleting what a unit staged.\<close>

lemma mem_staged_by:
  "tbl_wf (t_version db) \<Longrightarrow> (k, v) \<in> set (staged_by unit db) \<longleftrightarrow>
     (\<exists>r. map_of (t_version db) (k, v) = Some r \<and> evr_work_unit_json r = Some unit)"
  by (auto simp: staged_by_def map_of_wf_iff)

definition expired_unit_db :: "string \<Rightarrow> nat \<Rightarrow> sqlite_db \<Rightarrow> sqlite_db" where
  "expired_unit_db unit now db =
     (let gone = set (staged_by unit db)
      in db\<lparr>t_work_unit := tbl_update (\<lambda>k r. k = unit \<and> wur_state r \<in> {DbOpen, DbClosing})
              (\<lambda>r. r\<lparr>wur_state := DbExpired, wur_closed_at_unix_ms := Some now\<rparr>) (t_work_unit db),
            t_version := tbl_delete (\<lambda>_ r. evr_work_unit_json r = Some unit) (t_version db),
            t_wu_head := tbl_delete (\<lambda>(_, k, v) _. (k, v) \<in> gone) (t_wu_head db),
            t_head := tbl_delete (\<lambda>(k, v) _. (k, v) \<in> gone) (t_head db),
            t_crdt_head := tbl_delete (\<lambda>(k, v, _, _) _. (k, v) \<in> gone) (t_crdt_head db),
            t_wu_idempotency := tbl_delete (\<lambda>_ r. wir_work_unit_json r = unit) (t_wu_idempotency db)\<rparr>)"

lemma staged_by_unit_update [simp]: "staged_by u (db\<lparr>t_work_unit := t\<rparr>) = staged_by u db"
  by (simp add: staged_by_def)

lemma expire_work_unit_Ok:
  "expire_work_unit unit now db = Inr db' \<longleftrightarrow>
     now \<le> i64_max
     \<and> \<not> (\<exists>((_, k, v), _) \<in> set (t_wu_base db). (k, v) \<in> set (staged_by unit db))
     \<and> db' = collect_crdt_garbage (expired_unit_db unit now db)"
  by (auto simp: expire_work_unit_def delete_staged_versions_def Let_def bindR_eq_Inr sqlite_time_def
      expired_unit_db_def)

lemma staged_not_base:
  assumes "storage_ok db"
  shows "\<not> (\<exists>((_, k, v), _) \<in> set (t_wu_base db). (k, v) \<in> set (staged_by unit db))"
proof -
  have "published_version db k v" if "((u, k, v), h) \<in> set (t_wu_base db)" for u k v h
    using assms that by (auto simp: storage_ok_def)
  moreover have "\<not> published_version db k v" if "(k, v) \<in> set (staged_by unit db)" for k v
    using that assms by (auto simp: mem_staged_by storage_ok_def published_version_def)
  ultimately show ?thesis by fastforce
qed

lemma expire_work_unit_total:
  "storage_ok db \<Longrightarrow> now \<le> i64_max \<Longrightarrow>
   expire_work_unit unit now db = Inr (collect_crdt_garbage (expired_unit_db unit now db))"
  by (simp add: expire_work_unit_Ok staged_not_base)

lemma expired_unit_rows:
  assumes "storage_ok db"
  shows "map_of (t_version (expired_unit_db unit now db)) (k, v) =
      (case map_of (t_version db) (k, v) of None \<Rightarrow> None
       | Some r \<Rightarrow> if evr_work_unit_json r = Some unit then None else Some r)"
    and "t_head (expired_unit_db unit now db) = t_head db"
    and "map_of (t_wu_head (expired_unit_db unit now db)) (u, k, v) =
      (if (k, v) \<in> set (staged_by unit db) then None else map_of (t_wu_head db) (u, k, v))"
proof -
  note I = assms[unfolded storage_ok_iff]
  show "map_of (t_version (expired_unit_db unit now db)) (k, v) =
      (case map_of (t_version db) (k, v) of None \<Rightarrow> None
       | Some r \<Rightarrow> if evr_work_unit_json r = Some unit then None else Some r)"
    using I by (simp add: expired_unit_db_def Let_def map_of_tbl_delete)
  have "(k, v) \<notin> set (staged_by unit db)" if "((k, v), x) \<in> set (t_head db)" for k v x
    using that assms I by (auto simp: mem_staged_by storage_ok_def published_version_def)
  then show "t_head (expired_unit_db unit now db) = t_head db"
    by (auto simp: expired_unit_db_def Let_def intro!: tbl_delete_idle)
  show "map_of (t_wu_head (expired_unit_db unit now db)) (u, k, v) =
      (if (k, v) \<in> set (staged_by unit db) then None else map_of (t_wu_head db) (u, k, v))"
    using I by (simp add: expired_unit_db_def Let_def map_of_tbl_delete split: option.split)
qed

lemma storage_ok_garbage [simp]: "storage_ok (collect_crdt_garbage db) = storage_ok db"
  by (rule storage_ok_cong) (simp_all add: collect_crdt_garbage_def Let_def)

lemma storage_ok_expired:
  assumes ok: "storage_ok db"
  shows "storage_ok (expired_unit_db unit now db)" (is "storage_ok ?db'")
proof -
  note I = ok[unfolded storage_ok_iff]
  note R = expired_unit_rows[OF ok]
  have rest: "t_wu_entity ?db' = t_wu_entity db" "t_wu_base ?db' = t_wu_base db"
    "t_change_seq ?db' = t_change_seq db" by (simp_all add: expired_unit_db_def Let_def)
  have active: "unit_active u ?db' = unit_active u db" if "u \<noteq> unit" for u
    using that by (simp add: unit_active_def expired_unit_db_def Let_def map_of_tbl_update split: option.splits)
  have pub: "published_version ?db' k v" if "published_version db k v" for k v
    using that by (auto simp: published_version_def R(1) split: option.splits)
  have versions: "version_ok ?db' k r" if "map_of (t_version ?db') (k, v) = Some r" for k v r
  proof -
    from that have r: "map_of (t_version db) (k, v) = Some r" "evr_work_unit_json r \<noteq> Some unit"
      by (auto simp: R(1) split: option.splits if_splits)
    with I have v: "version_ok db k r" by blast
    show ?thesis
    proof (cases "evr_work_unit_json r")
      case None
      with v show ?thesis by (auto simp: version_ok_def rest split: option.splits)
    next
      case (Some u)
      with v have pc: "evr_published_cursor r = None" and act: "unit_active u db"
        and ent: "map_of (t_wu_entity db) (u, k) \<noteq> None" and hds: "direct_work_unit_heads u k db \<noteq> []"
        by (auto simp: version_ok_def split: option.splits)
      from Some r(2) have u: "u \<noteq> unit" by simp
      from hds obtain h where h: "map_of (t_wu_head db) (u, k, h) \<noteq> None"
        by (auto simp: direct_heads_nonempty)
      then have "unit_version db u k h" by (rule storage_okD(11)[OF ok])
      then have "(k, h) \<notin> set (staged_by unit db)"
        using u I by (auto simp: mem_staged_by unit_version_def)
      with h have "direct_work_unit_heads u k ?db' \<noteq> []"
        unfolding direct_heads_nonempty by (auto simp: R(3))
      with Some pc ent act active[OF u] show ?thesis by (simp add: version_ok_def rest)
    qed
  qed
  have uvs: "unit_version ?db' u k v" if "map_of (t_wu_head ?db') (u, k, v) \<noteq> None" for u k v
  proof -
    from that have h: "map_of (t_wu_head db) (u, k, v) \<noteq> None" "(k, v) \<notin> set (staged_by unit db)"
      by (auto simp: R(3) split: if_splits)
    then have "unit_version db u k v" using storage_okD(11)[OF ok] by blast
    with h(2) I show ?thesis by (auto simp: unit_version_def R(1) mem_staged_by split: option.splits)
  qed
  have ents: "map_of (t_wu_entity ?db') (u, k) \<noteq> None" if "map_of (t_wu_head ?db') (u, k, v) \<noteq> None" for u k v
  proof -
    from that have "map_of (t_wu_head db) (u, k, v) \<noteq> None" by (auto simp: R(3) split: if_splits)
    then show ?thesis unfolding rest by (rule storage_okD(12)[OF ok])
  qed
  have wf: "tbl_wf (t_version ?db')" "tbl_wf (t_work_unit ?db')" "tbl_wf (t_wu_head ?db')"
    using I by (auto simp: expired_unit_db_def Let_def)
  show ?thesis
    by (rule storage_okI) (use wf versions uvs ents storage_okD[OF ok] pub in \<open>auto simp: rest R(2)\<close>)
qed

lemma storage_ok_expire_work_unit:
  "expire_work_unit unit now db = Inr db' \<Longrightarrow> storage_ok db \<Longrightarrow> storage_ok db'"
  by (auto simp: expire_work_unit_Ok storage_ok_expired)

lemma expire_open_work_units_Ok:
  "expire_open_work_units now db = Inr db' \<Longrightarrow>
   \<exists>units. foldR (\<lambda>u. expire_work_unit u now) units db = Inr db'"
  by (auto simp: expire_open_work_units_def bindR_eq_Inr)

lemma storage_ok_sweep:
  assumes "expire_open_work_units now db = Inr db'" and "storage_ok db"
  shows "storage_ok db'"
proof -
  from expire_open_work_units_Ok[OF assms(1)] obtain units
    where "foldR (\<lambda>u. expire_work_unit u now) units db = Inr db'" by blast
  then show ?thesis using assms(2) by (rule foldR_invariant) (rule storage_ok_expire_work_unit)
qed


lemma unit_active_insert:
  "map_of t i = None \<Longrightarrow> t_work_unit db = t \<Longrightarrow> unit_active u db \<Longrightarrow>
   unit_active u (db\<lparr>t_work_unit := t @ [(i, row)]\<rparr>)"
  by (auto simp: unit_active_def map_add_def split: option.splits)

lemma storage_ok_insert_unit:
  assumes ok: "storage_ok db" and new: "map_of (t_work_unit db) i = None"
  shows "storage_ok (db\<lparr>t_work_unit := t_work_unit db @ [(i, row)]\<rparr>)" (is "storage_ok ?db'")
proof (rule storage_okI)
  show "version_ok ?db' k r" if "map_of (t_version ?db') (k, v) = Some r" for k v r
  proof -
    have "version_ok db k r" using that storage_okD(7)[OF ok] by simp
    then show ?thesis
      using unit_active_insert[OF new refl, of _ row]
      by (auto simp: version_ok_def direct_work_unit_heads_def split: option.splits)
  qed
qed (use storage_okD[OF ok] new in \<open>auto simp: tbl_wf_append_single published_version_def unit_version_def\<close>)

lemma ensure_work_unit_cases:
  assumes "ensure_work_unit E wu db = Inr (st, db')"
  shows "(st = SwOpen \<and> map_of (t_work_unit db) (wu_identity_json wu) = None
           \<and> wu_now_unix_ms wu < wu_expires_at_unix_ms wu \<and> wu_expires_at_unix_ms wu \<le> i64_max
           \<and> db' = db\<lparr>t_work_unit := t_work_unit db @ [(wu_identity_json wu,
                 open_work_unit_row wu (wu_now_unix_ms wu) (wu_expires_at_unix_ms wu) db)]\<rparr>)
       \<or> (\<exists>row. map_of (t_work_unit db) (wu_identity_json wu) = Some row \<and> db' = db
           \<and> (st = SwPolicyMismatch
              \<or> wur_scope_json row = wu_scope_json wu \<and> wur_policy_json row = wu_policy_json wu
                \<and> (st = SwCommitted \<and> wur_state row = DbCommitted
                   \<or> st = SwExpired \<and> wur_state row = DbExpired
                   \<or> st = SwClosing \<and> wur_state row = DbClosing \<and> wu_now_unix_ms wu < wur_expires_at_unix_ms row
                   \<or> st = SwOpen \<and> wur_state row = DbOpen \<and> wu_now_unix_ms wu < wur_expires_at_unix_ms row)))
       \<or> (\<exists>row. map_of (t_work_unit db) (wu_identity_json wu) = Some row \<and> st = SwExpired
           \<and> wur_state row \<in> {DbOpen, DbClosing} \<and> wur_expires_at_unix_ms row \<le> wu_now_unix_ms wu
           \<and> expire_work_unit (wu_identity_json wu) (wu_now_unix_ms wu) db = Inr db')"
proof (cases "map_of (t_work_unit db) (wu_identity_json wu)")
  case None
  with assms show ?thesis
    by (auto simp: ensure_work_unit_def Let_def bindR_eq_Inr sqlite_time_def tbl_insert_eq_Some split: if_splits)
next
  case (Some row)
  with assms show ?thesis
    by (auto simp: ensure_work_unit_def Let_def bindR_eq_Inr split: if_splits work_unit_state.splits)
qed

lemma storage_ok_ensure:
  assumes "ensure_work_unit E wu db = Inr (st, db')" and "storage_ok db"
  shows "storage_ok db'"
  using ensure_work_unit_cases[OF assms(1)] assms(2)
  by (auto intro: storage_ok_insert_unit storage_ok_expire_work_unit)

lemma ensure_work_unit_active:
  assumes "ensure_work_unit E wu db = Inr (st, db')" and "st = SwOpen \<or> st = SwClosing"
  shows "unit_active (wu_identity_json wu) db'"
  using ensure_work_unit_cases[OF assms(1)] assms(2)
  by (auto simp: unit_active_def map_add_def open_work_unit_row_def)

lemma baseline_version_published:
  assumes "storage_ok db" and "v \<in> set (baseline_versions_at k c db)"
  shows "published_version db k v"
proof -
  from assms(2) obtain r where r: "((k, v), r) \<in> set (t_version db)" "evr_published_cursor r \<noteq> None"
    by (auto simp: baseline_versions_at_def split: option.splits)
  then have m: "map_of (t_version db) (k, v) = Some r"
    using map_of_wf_iff[OF storage_okD(1)[OF assms(1)]] by blast
  with storage_okD(7)[OF assms(1) m] r(2) show ?thesis
    by (auto simp: published_version_def version_ok_def split: option.splits)
qed

lemma map_of_captured:
  "map_of (captured_base unit key c db) (u, k, v) \<noteq> None \<longleftrightarrow>
     u = unit \<and> k = key \<and> v \<in> set (baseline_versions_at key c db)"
  by (force simp: captured_base_def map_of_eq_None_iff)

lemma storage_ok_capture:
  assumes run: "capture_work_unit_entity unit key db = Inr db'" and ok: "storage_ok db"
  shows "storage_ok db'"
  using capture_Ok[OF run]
proof (elim disjE exE conjE)
  assume "db' = db" with ok show ?thesis by simp
next
  fix row
  let ?vs = "baseline_versions_at key (wur_baseline_cursor row) db"
  assume none: "map_of (t_wu_entity db) (unit, key) = None"
    and db': "db' = db\<lparr>t_wu_entity := t_wu_entity db @ [((unit, key), blank_entity)],
                    t_wu_base := t_wu_base db @ captured_base unit key (wur_baseline_cursor row) db\<rparr>"
    and fresh: "\<forall>v \<in> set ?vs. map_of (t_wu_base db) (unit, key, v) = None" and dist: "distinct ?vs"
  have ent: "map_of (t_wu_entity db') (u, k) \<noteq> None \<longleftrightarrow>
      map_of (t_wu_entity db) (u, k) \<noteq> None \<or> (u, k) = (unit, key)" for u k
    by (auto simp: db' map_add_def split: option.splits)
  have base: "map_of (t_wu_base db') (u, k, v) \<noteq> None \<longleftrightarrow>
      map_of (t_wu_base db) (u, k, v) \<noteq> None \<or> u = unit \<and> k = key \<and> v \<in> set ?vs" for u k v
    using map_of_captured[of unit key "wur_baseline_cursor row" db u k v]
    by (auto simp: db' map_add_def split: option.splits)
  have "distinct (map fst (captured_base unit key (wur_baseline_cursor row) db))"
    using dist by (simp add: captured_base_def comp_def distinct_map inj_on_def)
  moreover have "fst ` set (t_wu_base db) \<inter> fst ` set (captured_base unit key (wur_baseline_cursor row) db) = {}"
    using fresh by (force simp: captured_base_def map_of_eq_None_iff)
  ultimately have wf: "tbl_wf (t_wu_base db')"
    using storage_okD(6)[OF ok] by (simp add: db' tbl_wf_def)
  have keep: "published_version db' = published_version db" "unit_version db' = unit_version db"
    by (intro ext, simp add: published_version_def unit_version_def db')+
  show ?thesis
  proof (rule storage_okI)
    show "version_ok db' k r" if "map_of (t_version db') (k, v) = Some r" for k v r
    proof -
      have "version_ok db k r" using that storage_okD(7)[OF ok] by (simp add: db')
      then show ?thesis using ent
        by (auto simp: version_ok_def unit_active_def direct_work_unit_heads_def db' split: option.splits)
    qed
    show "published_version db' k v" if "map_of (t_wu_base db') (u, k, v) \<noteq> None" for u k v
      using that storage_okD(9)[OF ok] baseline_version_published[OF ok] unfolding base keep by blast
    show "map_of (t_wu_entity db') (u, k) \<noteq> None" if "map_of (t_wu_base db') (u, k, v) \<noteq> None" for u k v
      using that storage_okD(10)[OF ok] unfolding base ent by blast
    show "map_of (t_wu_entity db') (u, k) \<noteq> None" if "map_of (t_wu_head db') (u, k, v) \<noteq> None" for u k v
      using that storage_okD(12)[OF ok] unfolding ent by (auto simp: db')
  qed (use storage_okD[OF ok] none wf keep in \<open>auto simp: db' tbl_wf_append_single\<close>)
qed

lemma storage_ok_entity_update:
  assumes ok: "storage_ok db"
  shows "storage_ok (db\<lparr>t_wu_entity := tbl_update P f (t_wu_entity db)\<rparr>)" (is "storage_ok ?db'")
proof -
  have ent: "map_of (t_wu_entity ?db') x \<noteq> None \<longleftrightarrow> map_of (t_wu_entity db) x \<noteq> None" for x
    by (simp add: map_of_tbl_update)
  have "version_ok ?db' k r = version_ok db k r" for k r
    unfolding version_ok_def unit_active_def direct_work_unit_heads_def ent by (simp split: option.split)
  then show ?thesis using ok
    unfolding storage_ok_iff ent published_version_def unit_version_def by auto
qed

lemma storage_ok_stage:
  "stage_work_unit_entity E c db = Inr db' \<Longrightarrow> storage_ok db \<Longrightarrow> storage_ok db'"
  by (auto dest!: stage_Ok intro!: storage_ok_entity_update intro: storage_ok_capture)

text \<open>Staging versions and making them heads of the unit.\<close>

text \<open>A version stays in order when the heads of its unit keep a head.\<close>

lemma version_ok_unit_heads:
  assumes "version_ok db k r" "t_work_unit db' = t_work_unit db" "t_wu_entity db' = t_wu_entity db" "t_change_seq db' = t_change_seq db"
    and "\<And>u. direct_work_unit_heads u k db \<noteq> [] \<Longrightarrow> direct_work_unit_heads u k db' \<noteq> []"
  shows "version_ok db' k r"
  using assms by (auto simp: version_ok_def unit_active_def split: option.splits)

lemma unit_version_inserted:
  assumes "insert_entity_versions E key vs (Some unit) t db = Inr d" "v \<in> sv_version ` set vs"
    and "t_version db' = t_version db @ fresh_rows key vs (Some unit) t"
  shows "unit_version db' unit key v"
  using map_of_new_version_mem[OF assms(2), of key "\<lambda>v. fresh_row v (Some unit) t"] insert_entity_versions_Ok[OF assms(1)] assms(2)
  by (auto simp: unit_version_def assms(3) map_of_version_append fresh_row_def simp del: map_of_append split: option.splits)

lemma storage_ok_stage_versions:
  assumes ins: "insert_entity_versions E key vs (Some unit) t db = Inr d"
    and rep: "replace_work_unit_heads unit key heads d = Inr db'"
    and ok: "storage_ok db" and active: "unit_active unit db"
    and heads: "\<And>h. h \<in> set heads \<Longrightarrow> h \<in> sv_version ` set vs \<or> unit_version db unit key h"
  shows "storage_ok db'"
proof -
  note A = insert_entity_versions_Ok[OF ins] and R = replace_work_unit_heads_Ok[OF rep]
  from A obtain a b e where d: "d = db\<lparr>t_version := t_version db @ fresh_rows key vs (Some unit) t,
      t_crdt_change := t_crdt_change db @ a, t_crdt_parent := t_crdt_parent db @ b,
      t_crdt_head := t_crdt_head db @ e\<rparr>" unfolding crdt_grows_def by auto
  have tv: "t_version db' = t_version db @ fresh_rows key vs (Some unit) t"
    and th: "t_wu_head db' = new_unit_heads unit key heads (t_wu_head db)"
    and rest: "t_head db' = t_head db" "t_work_unit db' = t_work_unit db" "t_wu_entity db' = t_wu_entity db"
      "t_wu_base db' = t_wu_base db" "t_change_seq db' = t_change_seq db"
    and ent: "map_of (t_wu_entity db) (unit, key) \<noteq> None" and ne: "heads \<noteq> []" and dist: "distinct heads"
    using R by (auto simp: d)
  have old: "map_of (t_version db') x = Some r" if "map_of (t_version db) x = Some r" for x r
    using that by (simp add: tv map_of_version_append)
  have pub: "published_version db' k v" if "published_version db k v" for k v
    using that old by (auto simp: published_version_def split: option.splits)
  have unit: "unit_version db' u k v" if "unit_version db u k v" for u k v
    using that old by (auto simp: unit_version_def split: option.splits)
  have uh: "map_of (t_wu_head db') (u, k, v) = (if u = unit \<and> k = key then if v \<in> set heads then Some () else None
      else map_of (t_wu_head db) (u, k, v))" for u k v
    unfolding th by (rule map_of_new_unit_heads[OF storage_okD(5)[OF ok]])
  have own: "direct_work_unit_heads unit key db' \<noteq> []"
    using ne by (cases heads) (auto simp: direct_heads_nonempty uh)
  have kept: "direct_work_unit_heads u k db' \<noteq> []" if "direct_work_unit_heads u k db \<noteq> []" for u k
    using that own by (cases "u = unit \<and> k = key") (auto simp: direct_heads_nonempty uh)
  have vok: "version_ok db' k r" if "version_ok db k r" for k r
    by (rule version_ok_unit_heads[OF that rest(2,3,5) kept])
  show ?thesis
  proof (rule storage_okI)
    show "version_ok db' k r" if "map_of (t_version db') (k, v) = Some r" for k v r
    proof (cases "map_of (t_version db) (k, v)")
      case (Some r')
      with old[OF Some] that storage_okD(7)[OF ok Some] show ?thesis by (auto intro: vok)
    next
      case None
      with that have "map_of (fresh_rows key vs (Some unit) t) (k, v) = Some r"
        by (simp add: tv map_add_def)
      from map_of_new_versions[OF this] active ent own show ?thesis
        by (auto simp: version_ok_def fresh_row_def unit_active_def rest)
    qed
    show "unit_version db' u k v" if "map_of (t_wu_head db') (u, k, v) \<noteq> None" for u k v
    proof (cases "u = unit \<and> k = key")
      case True
      with that have "v \<in> set heads" by (auto simp: uh split: if_splits)
      with heads True show ?thesis using unit_version_inserted[OF ins _ tv] unit by blast
    next
      case False
      with that storage_okD(11)[OF ok] show ?thesis by (auto simp: uh intro: unit)
    qed
    show "map_of (t_wu_entity db') (u, k) \<noteq> None" if "map_of (t_wu_head db') (u, k, v) \<noteq> None" for u k v
      using that storage_okD(12)[OF ok] ent by (cases "u = unit \<and> k = key") (auto simp: uh rest)
    show "tbl_wf (t_version db')" unfolding tv using A storage_okD(1)[OF ok]
      by (intro tbl_wf_fresh_append) auto
    show "tbl_wf (t_wu_head db')" unfolding th
      by (rule tbl_wf_new_unit_heads[OF storage_okD(5)[OF ok] dist])
  qed (use storage_okD[OF ok] pub in \<open>auto simp: rest\<close>)
qed


lemma set_mutated:
  assumes "tbl_wf (t_wu_entity db)"
  shows "k \<in> set (work_unit_mutated_entities unit db) \<longleftrightarrow>
    map_of (t_wu_entity db) (unit, k) \<noteq> None \<and> direct_work_unit_heads unit k db \<noteq> []"
proof -
  have "k \<in> set (work_unit_mutated_entities unit db) \<longleftrightarrow>
      (\<exists>r. ((unit, k), r) \<in> set (t_wu_entity db)) \<and> direct_work_unit_heads unit k db \<noteq> []"
    by (force simp: work_unit_mutated_entities_def direct_work_unit_heads_def)
  then show ?thesis by (metis assms map_of_wf_iff not_None_eq)
qed

lemma distinct_mutated:
  assumes "tbl_wf (t_wu_entity db)"
  shows "distinct (work_unit_mutated_entities unit db)"
proof -
  let ?xs = "filter (\<lambda>((u, k), _). u = unit \<and> tbl_select (\<lambda>(u', k', _) _. u' = unit \<and> k' = k) (t_wu_head db) \<noteq> []) (t_wu_entity db)"
  have "inj_on (\<lambda>((_, k), _). k) (set ?xs)"
    using assms unfolding tbl_wf_def distinct_map inj_on_def by fastforce
  moreover have "distinct ?xs" using assms by (auto simp: tbl_wf_def distinct_map)
  ultimately show ?thesis
    by (simp add: work_unit_mutated_entities_def distinct_map)
qed

lemma publish_entity_frame:
  assumes "publish_work_unit_entity E unit t key db = Inr db'"
  shows "t_work_unit db' = t_work_unit db" "t_wu_entity db' = t_wu_entity db" "t_wu_head db' = t_wu_head db"
    "t_wu_base db' = t_wu_base db" "t_idempotency db' = t_idempotency db"
    "t_wu_idempotency db' = t_wu_idempotency db" "t_retention db' = t_retention db"
    "direct_work_unit_heads u k db' = direct_work_unit_heads u k db"
    "t_version db' = tbl_update (\<lambda>(k, _) r. evr_work_unit_json r = Some unit \<and> k = key)
          (\<lambda>r. r\<lparr>evr_work_unit_json := None, evr_published_cursor := Some (t_change_seq db + 1)\<rparr>) (t_version db)"
    "published_heads k db' = (if k = key then direct_work_unit_heads unit key db else published_heads k db)"
    "t_change_seq db' = t_change_seq db + 1"
    "\<exists>r. t_change db' = t_change db @ [(t_change_seq db + 1, r)] \<and> chr_key r = key
        \<and> chr_head_versions r = direct_work_unit_heads unit key db"
proof -
  note P = publish_work_unit_entity_Ok[OF assms]
  show "t_work_unit db' = t_work_unit db" "t_wu_entity db' = t_wu_entity db" "t_wu_head db' = t_wu_head db"
    "t_wu_base db' = t_wu_base db" "t_idempotency db' = t_idempotency db"
    "t_wu_idempotency db' = t_wu_idempotency db" "t_retention db' = t_retention db"
    "t_version db' = tbl_update (\<lambda>(k, _) r. evr_work_unit_json r = Some unit \<and> k = key)
          (\<lambda>r. r\<lparr>evr_work_unit_json := None, evr_published_cursor := Some (t_change_seq db + 1)\<rparr>) (t_version db)"
    "t_change_seq db' = t_change_seq db + 1" using P by auto
  show "direct_work_unit_heads u k db' = direct_work_unit_heads u k db"
    using P by (auto simp: direct_work_unit_heads_def)
  show "\<exists>r. t_change db' = t_change db @ [(t_change_seq db + 1, r)] \<and> chr_key r = key
        \<and> chr_head_versions r = direct_work_unit_heads unit key db"
    using P by auto
  have "t_head db' = new_heads key (direct_work_unit_heads unit key db) (t_head db)" using P by auto
  then have "heads_of k db' = heads_of k (db'\<lparr>t_head := new_heads key (direct_work_unit_heads unit key db) (t_head db)\<rparr>)"
    by (simp add: heads_of_def)
  also have "\<dots> = (if k = key then sort (direct_work_unit_heads unit key db) else heads_of k db)"
    by (simp add: heads_of_new_heads) (simp add: heads_of_def)
  finally show "published_heads k db' = (if k = key then direct_work_unit_heads unit key db else published_heads k db)"
    by (simp add: published_heads_def direct_work_unit_heads_def)
qed

text \<open>The log after publishing \<open>keys\<close> of a unit in that order: one row each, under consecutive cursors.\<close>

definition publication_log :: "string \<Rightarrow> EntityKey list \<Rightarrow> sqlite_db \<Rightarrow> sqlite_db \<Rightarrow> bool" where
  "publication_log unit keys db db' \<longleftrightarrow>
     (\<exists>rows. t_change db' = t_change db @ rows
        \<and> map fst rows = [t_change_seq db + 1 ..< t_change_seq db + 1 + length keys]
        \<and> map (chr_key \<circ> snd) rows = keys
        \<and> map (chr_head_versions \<circ> snd) rows = map (\<lambda>k. direct_work_unit_heads unit k db) keys)"

lemma publish_entities_frame:
  assumes "foldR (publish_work_unit_entity E unit t) keys db = Inr db'"
  shows "t_work_unit db' = t_work_unit db \<and> t_wu_entity db' = t_wu_entity db \<and> t_wu_head db' = t_wu_head db
    \<and> t_wu_base db' = t_wu_base db \<and> t_idempotency db' = t_idempotency db
    \<and> t_wu_idempotency db' = t_wu_idempotency db \<and> t_retention db' = t_retention db
    \<and> (\<forall>k. published_heads k db' = (if k \<in> set keys then direct_work_unit_heads unit k db else published_heads k db))
    \<and> t_change_seq db' = t_change_seq db + length keys
    \<and> publication_log unit keys db db'
    \<and> (\<forall>k v r. map_of (t_version db') (k, v) = Some r \<longrightarrow> evr_work_unit_json r = Some unit \<longrightarrow> k \<notin> set keys)"
  using assms
proof (induction keys arbitrary: db' rule: rev_induct)
  case Nil
  then show ?case by (simp add: publication_log_def)
next
  case (snoc key keys)
  from snoc.prems obtain d where d: "foldR (publish_work_unit_entity E unit t) keys db = Inr d"
    "publish_work_unit_entity E unit t key d = Inr db'" by (auto simp: foldR_append bindR_eq_Inr)
  note IH = snoc.IH[OF d(1)] and F = publish_entity_frame[OF d(2)]
  from IH have dh: "direct_work_unit_heads unit k d = direct_work_unit_heads unit k db" for k
    by (simp add: direct_work_unit_heads_def)
  from IH obtain rows where rows: "t_change d = t_change db @ rows"
    "map fst rows = [t_change_seq db + 1 ..< t_change_seq db + 1 + length keys]"
    "map (chr_key \<circ> snd) rows = keys" "map (chr_head_versions \<circ> snd) rows = map (\<lambda>k. direct_work_unit_heads unit k db) keys"
    unfolding publication_log_def by blast
  from F(12) obtain r where r: "t_change db' = t_change d @ [(t_change_seq d + 1, r)]" "chr_key r = key"
    "chr_head_versions r = direct_work_unit_heads unit key db" by (auto simp: dh)
  have seq: "t_change_seq d = t_change_seq db + length keys" using IH by simp
  have log: "publication_log unit (keys @ [key]) db db'"
    unfolding publication_log_def
    by (rule exI[of _ "rows @ [(t_change_seq d + 1, r)]"]) (use rows r seq in simp)
  have left: "k \<notin> set (keys @ [key])" if "map_of (t_version db') (k, v) = Some r" "evr_work_unit_json r = Some unit" for k v r
  proof -
    from that(1) obtain r0 where r0: "map_of (t_version d) (k, v) = Some r0"
      "r = (if evr_work_unit_json r0 = Some unit \<and> k = key
            then r0\<lparr>evr_work_unit_json := None, evr_published_cursor := Some (t_change_seq d + 1)\<rparr> else r0)"
      unfolding F(9) map_of_tbl_update by auto
    with that(2) have "evr_work_unit_json r0 = Some unit" "k \<noteq> key" by (auto split: if_splits)
    with IH r0(1) show ?thesis by auto
  qed
  show ?case using IH F(1-7,10,11) log left seq by (auto simp: dh)
qed

lemma storage_ok_unit_committed:
  assumes ok: "storage_ok db"
    and none: "\<And>k v r. map_of (t_version db) (k, v) = Some r \<Longrightarrow> evr_work_unit_json r \<noteq> Some unit"
  shows "storage_ok (db\<lparr>t_work_unit := tbl_update (\<lambda>k r. k = unit) f (t_work_unit db)\<rparr>)" (is "storage_ok ?db'")
proof (rule storage_okI)
  show "version_ok ?db' k r" if "map_of (t_version ?db') (k, v) = Some r" for k v r
  proof -
    have "version_ok db k r" using that storage_okD(7)[OF ok] by simp
    moreover have "evr_work_unit_json r \<noteq> Some unit" using none that by simp
    ultimately show ?thesis
      by (auto simp: version_ok_def unit_active_def direct_work_unit_heads_def map_of_tbl_update split: option.splits)
  qed
qed (use storage_okD[OF ok] in \<open>auto simp: published_version_def unit_version_def\<close>)

lemma finish_publication_Ok:
  assumes run: "finish_work_unit_publication E unit t db = Inr db'" and ok: "storage_ok db"
  shows "storage_ok db'
    \<and> (\<forall>k. published_heads k db' = (if k \<in> set (work_unit_mutated_entities unit db)
            then direct_work_unit_heads unit k db else published_heads k db))
    \<and> publication_log unit (work_unit_mutated_entities unit db) db db'
    \<and> map_of (t_work_unit db') unit =
        map_option (\<lambda>r. r\<lparr>wur_state := DbCommitted, wur_closed_at_unix_ms := Some t\<rparr>) (map_of (t_work_unit db) unit)
    \<and> (\<forall>k v r. map_of (t_version db') (k, v) = Some r \<longrightarrow> evr_work_unit_json r \<noteq> Some unit)"
proof -
  let ?keys = "work_unit_mutated_entities unit db"
  let ?f = "\<lambda>r. r\<lparr>wur_state := DbCommitted, wur_closed_at_unix_ms := Some t\<rparr>"
  from run obtain d1 d2 where d: "foldR (publish_work_unit_entity E unit t) ?keys db = Inr d1"
    "promote_idempotency unit t d1 = Inr d2"
    "db' = d2\<lparr>t_work_unit := tbl_update (\<lambda>k _. k = unit) ?f (t_work_unit d2)\<rparr>"
    by (auto simp: finish_work_unit_publication_def bindR_eq_Inr)
  note F = publish_entities_frame[OF d(1)]
  have ok1: "storage_ok d1" using d(1) ok by (rule foldR_invariant) (rule storage_ok_published_entity)
  from promote_idempotency_only[OF d(2)] obtain a b where
    d2: "d2 = d1\<lparr>t_idempotency := a, t_wu_idempotency := b\<rparr>" by blast
  have ok2: "storage_ok d2" using ok1 by (subst storage_ok_cong[of d2 d1]) (simp_all add: d2)
  have dh: "direct_work_unit_heads unit k d1 = direct_work_unit_heads unit k db" for k
    using F by (simp add: direct_work_unit_heads_def)
  have none: "evr_work_unit_json r \<noteq> Some unit" if r: "map_of (t_version d2) (k, v) = Some r" for k v r
  proof
    assume u: "evr_work_unit_json r = Some unit"
    have r1: "map_of (t_version d1) (k, v) = Some r" using r by (simp add: d2)
    with F u have "k \<notin> set ?keys" by blast
    moreover have "k \<in> set ?keys"
      using storage_okD(7)[OF ok1 r1] u F
      by (auto simp: set_mutated[OF storage_okD(4)[OF ok]] version_ok_def dh split: option.splits)
    ultimately show False by blast
  qed
  have "storage_ok db'" unfolding d(3) using ok2 none by (rule storage_ok_unit_committed)
  moreover have "published_heads k db' = (if k \<in> set ?keys then direct_work_unit_heads unit k db else published_heads k db)" for k
    using F by (simp add: d(3) d2 published_heads_def heads_of_def)
  moreover have "t_change db' = t_change d1" by (simp add: d(3) d2)
  moreover have "map_of (t_work_unit db') unit = map_option ?f (map_of (t_work_unit db) unit)"
    using F by (simp add: d(3) d2 map_of_tbl_update)
  ultimately show ?thesis using F none by (auto simp: d(3) publication_log_def)
qed

end
