(* ===== verification/Work_Unit_Isolation.thy ===== *)
theory Work_Unit_Isolation
  imports Work_Unit_Storage
begin

text \<open>
  What work units promise: staging is invisible, publication is atomic and free of conflicts,
  expiry discards exactly what was staged, and reads in a unit are repeatable.
\<close>


section \<open>The published state\<close>

definition same_published :: "sqlite_db \<Rightarrow> sqlite_db \<Rightarrow> bool" where
  "same_published db db' \<longleftrightarrow>
     t_head db' = t_head db \<and> (\<forall>k. published_contents k db' = published_contents k db)
     \<and> t_change db' = t_change db \<and> t_change_seq db' = t_change_seq db \<and> t_history db' = t_history db
     \<and> t_causal db' = t_causal db \<and> t_scope db' = t_scope db \<and> t_session db' = t_session db"

lemma same_published_refl [simp]: "same_published db db"
  by (simp add: same_published_def)

lemma same_published_trans: "same_published a b \<Longrightarrow> same_published b c \<Longrightarrow> same_published a c"
  by (simp add: same_published_def)

lemma same_published_heads: "same_published db db' \<Longrightarrow> published_heads k db' = published_heads k db"
  by (simp add: same_published_def published_heads_def heads_of_def)

lemma published_contents_cong:
  "t_version db' = t_version db \<Longrightarrow> published_contents k db' = published_contents k db"
  by (simp add: published_contents_rows)

lemma same_published_cong:
  assumes "t_version db' = t_version db" "t_head db' = t_head db" "t_change db' = t_change db"
    "t_change_seq db' = t_change_seq db" "t_history db' = t_history db" "t_causal db' = t_causal db"
    "t_scope db' = t_scope db" "t_session db' = t_session db"
  shows "same_published db db'"
  unfolding same_published_def using assms published_contents_cong[OF assms(1)] by simp

lemma same_published_capture:
  "capture_work_unit_entity unit key db = Inr db' \<Longrightarrow> same_published db db'"
  by (drule capture_Ok, elim disjE exE conjE) (simp_all add: same_published_cong)

lemma same_published_stage:
  assumes "stage_work_unit_entity E c db = Inr db'" shows "same_published db db'"
proof -
  from stage_Ok[OF assms] obtain d t where
    "capture_work_unit_entity (wu_identity_json (wc_work_unit c)) (ec_key (wc_entity c)) db = Inr d"
    "db' = d\<lparr>t_wu_entity := t\<rparr>" by blast
  then have "same_published db d" "same_published d db'"
    by (auto dest: same_published_capture intro: same_published_cong)
  then show ?thesis by (rule same_published_trans)
qed

lemma same_published_insert:
  assumes "insert_entity_versions E key vs (Some unit) t db = Inr db'" shows "same_published db db'"
proof -
  from insert_entity_versions_Ok[OF assms] obtain a b e where
    db': "db' = db\<lparr>t_version := t_version db @ fresh_rows key vs (Some unit) t,
      t_crdt_change := t_crdt_change db @ a, t_crdt_parent := t_crdt_parent db @ b,
      t_crdt_head := t_crdt_head db @ e\<rparr>" unfolding crdt_grows_def by auto
  let ?P = "\<lambda>k. \<lambda>((j, v), r). j = k \<and> evr_published_cursor r \<noteq> None"
  have "{x \<in> set (t_version db'). ?P k x} = {x \<in> set (t_version db). ?P k x}" for k
    by (auto simp: db' fresh_row_def)
  then have "published_contents k db' = published_contents k db" for k
    unfolding published_contents_rows case_prod_beta' by (simp add: case_prod_beta')
  then show ?thesis by (simp add: same_published_def db')
qed

lemma same_published_unit_heads:
  "replace_work_unit_heads unit key heads db = Inr db' \<Longrightarrow> same_published db db'"
  by (auto dest!: replace_work_unit_heads_Ok intro: same_published_cong)

lemma same_published_idempotency:
  "store_staged_idempotency E c db = Inr (Inr db') \<Longrightarrow> same_published db db'"
  by (auto dest!: store_staged_idempotency_only intro: same_published_cong)

lemma same_published_expired:
  assumes ok: "storage_ok db" and run: "expire_work_unit unit now db = Inr db'"
  shows "same_published db db'"
proof -
  have db': "db' = collect_crdt_garbage (expired_unit_db unit now db)"
    using run by (simp add: expire_work_unit_Ok)
  let ?P = "\<lambda>k. \<lambda>((j, v), r). j = k \<and> evr_published_cursor r \<noteq> None"
  have pub: "evr_work_unit_json r = None" if "((k, v), r) \<in> set (t_version db)" "evr_published_cursor r \<noteq> None" for k v r
    using that ok by (fastforce simp: storage_ok_def version_ok_def split: option.splits)
  have "{x \<in> set (t_version db'). ?P k x} = {x \<in> set (t_version db). ?P k x}" for k
    using pub by (fastforce simp: db' collect_crdt_garbage_def expired_unit_db_def Let_def tbl_delete_def)
  then have "published_contents k db' = published_contents k db" for k
    unfolding published_contents_rows case_prod_beta' by (simp add: case_prod_beta')
  moreover have "t_head db' = t_head db"
    using expired_unit_rows(2)[OF ok] by (simp add: db' collect_crdt_garbage_def Let_def)
  ultimately show ?thesis
    by (simp add: same_published_def db' collect_crdt_garbage_def expired_unit_db_def Let_def)
qed

lemma same_published_ensure:
  assumes "ensure_work_unit E wu db = Inr (st, db')" and "storage_ok db"
  shows "same_published db db'"
  using ensure_work_unit_cases[OF assms(1)]
proof (elim disjE)
  assume "\<exists>row. map_of (t_work_unit db) (wu_identity_json wu) = Some row \<and> st = SwExpired
           \<and> wur_state row \<in> {DbOpen, DbClosing} \<and> wur_expires_at_unix_ms row \<le> wu_now_unix_ms wu
           \<and> expire_work_unit (wu_identity_json wu) (wu_now_unix_ms wu) db = Inr db'"
  then show ?thesis using same_published_expired[OF assms(2)] by blast
qed (elim exE conjE; simp add: same_published_cong)+

lemma publication_conflicts_none:
  assumes "publication_conflicts unit db = Inr []" and "k \<in> set (work_unit_mutated_entities unit db)"
  shows "published_heads k db = work_unit_base_heads unit k db"
proof -
  from assms(1) obtain cs where cs: "mapR (publication_conflict unit db) (work_unit_mutated_entities unit db) = Inr cs"
    "List.map_filter (\<lambda>c. c) cs = []"
    by (auto simp: publication_conflicts_def bindR_eq_Inr)
  have "publication_conflict unit db k = Inr None"
  proof -
    from assms(2) obtain i where i: "i < length (work_unit_mutated_entities unit db)"
      "k = work_unit_mutated_entities unit db ! i" by (auto simp: in_set_conv_nth)
    from cs(1) have all2: "list_all2 (\<lambda>x y. publication_conflict unit db x = Inr y)
        (work_unit_mutated_entities unit db) cs" by (simp add: mapR_eq_Inr)
    have "i < length cs" using i(1) list_all2_lengthD[OF all2] by simp
    then obtain c where c: "c \<in> set cs" "publication_conflict unit db k = Inr c"
      using list_all2_nthD[OF all2 i(1)] i(2) nth_mem by blast
    have "\<forall>c \<in> set cs. c = None" using cs(2) by (auto simp: map_filter_def filter_empty_conv)
    with c show ?thesis by simp
  qed
  then have "(case read_entity_snapshot k db of None \<Rightarrow> [] | Some sn \<Rightarrow> sn_head_versions sn) = work_unit_base_heads unit k db"
    by (auto simp: publication_conflict_def Let_def bindR_eq_Inr split: if_splits)
  moreover have "(case read_entity_snapshot k db of None \<Rightarrow> [] | Some sn \<Rightarrow> sn_head_versions sn) = published_heads k db"
    by (simp add: read_entity_snapshot_def Let_def published_heads_def)
  ultimately show ?thesis by simp
qed

text \<open>What staging in an open unit does before its publication is attempted.\<close>

lemma commit_in_open_Ok:
  assumes "commit_in_open_work_unit E c db = Inr (Inr (out, db'))"
  obtains d1 d2 d3 d4 where "stage_work_unit_entity E c db = Inr d1"
    "work_unit_heads (wu_identity_json (wc_work_unit c)) (ec_key (wc_entity c)) d1 = sort (ec_expected_heads (wc_entity c))"
    "insert_entity_versions E (ec_key (wc_entity c)) (ec_new_versions (wc_entity c)) (Some (wu_identity_json (wc_work_unit c)))
       (ec_recorded_at_unix_ms (wc_entity c)) d1 = Inr d2"
    "replace_work_unit_heads (wu_identity_json (wc_work_unit c)) (ec_key (wc_entity c)) (ec_head_versions (wc_entity c)) d2 = Inr d3"
    "store_staged_idempotency E c d3 = Inr (Inr d4)"
    "close_and_publish E c (ec_recorded_at_unix_ms (wc_entity c)) d4 = Inr (out, db')"
proof -
  from assms obtain d1 d2 d3 stored where 1: "stage_work_unit_entity E c db = Inr d1"
    "work_unit_heads (wu_identity_json (wc_work_unit c)) (ec_key (wc_entity c)) d1 = sort (ec_expected_heads (wc_entity c))"
    "insert_entity_versions E (ec_key (wc_entity c)) (ec_new_versions (wc_entity c)) (Some (wu_identity_json (wc_work_unit c)))
       (ec_recorded_at_unix_ms (wc_entity c)) d1 = Inr d2"
    "replace_work_unit_heads (wu_identity_json (wc_work_unit c)) (ec_key (wc_entity c)) (ec_head_versions (wc_entity c)) d2 = Inr d3"
    and s: "store_staged_idempotency E c d3 = Inr stored"
    and r: "(case stored of Inl outcome \<Rightarrow> Inr (Inl outcome)
       | Inr d4 \<Rightarrow> bindR (close_and_publish E c (ec_recorded_at_unix_ms (wc_entity c)) d4) (\<lambda>answer. Inr (Inr answer)))
       = Inr (Inr (out, db'))"
    by (auto simp: commit_in_open_work_unit_def Let_def bindR_eq_Inr sqlite_time_def split: if_splits)
  from s r obtain d4 where "store_staged_idempotency E c d3 = Inr (Inr d4)"
    "close_and_publish E c (ec_recorded_at_unix_ms (wc_entity c)) d4 = Inr (out, db')"
    by (cases stored) (auto simp: bindR_eq_Inr)
  with 1 show thesis by (rule that)
qed

text \<open>What a work unit sees as heads are versions it may use.\<close>

lemma work_unit_heads_version:
  assumes "storage_ok d" "h \<in> set (work_unit_heads unit key d)"
  shows "unit_version d unit key h"
proof -
  from assms(2) consider "h \<in> set (direct_work_unit_heads unit key d)" | "h \<in> set (work_unit_base_heads unit key d)"
    by (auto simp: work_unit_heads_def Let_def split: if_splits)
  then show ?thesis
  proof cases
    case 1
    then show ?thesis using storage_okD(11)[OF assms(1)] unfolding set_direct_heads by blast
  next
    case 2
    from storage_okD(9)[OF assms(1) set_base_heads[OF 2]] show ?thesis
      by (auto simp: published_version_def unit_version_def split: option.splits)
  qed
qed

lemma storage_ok_close:
  assumes ok: "storage_ok d"
  shows "storage_ok (close_work_unit unit d)"
proof (rule storage_okI)
  show "version_ok (close_work_unit unit d) k r" if "map_of (t_version (close_work_unit unit d)) (k, v) = Some r" for k v r
  proof -
    have "version_ok d k r" using that storage_okD(7)[OF ok] by (simp add: close_work_unit_def)
    then show ?thesis
      by (auto simp: version_ok_def unit_active_def direct_work_unit_heads_def close_work_unit_def map_of_tbl_update
          split: option.splits)
  qed
qed (use storage_okD[OF ok] in \<open>auto simp: published_version_def unit_version_def close_work_unit_def\<close>)

lemma same_published_close: "same_published d (close_work_unit unit d)"
  by (rule same_published_cong) (simp_all add: close_work_unit_def)

text \<open>Staging an entity, with its idempotency record, before the unit is closed.\<close>

lemma staged_entity:
  assumes 1: "stage_work_unit_entity E c db = Inr d1"
    and 2: "insert_entity_versions E key vs (Some unit) t d1 = Inr d2"
    and 3: "replace_work_unit_heads unit key heads d2 = Inr d3"
    and 4: "store_staged_idempotency E c d3 = Inr (Inr d4)"
    and ok: "storage_ok db" and active: "unit_active unit d1"
    and heads: "\<And>h. h \<in> set heads \<Longrightarrow> h \<in> sv_version ` set vs \<or> unit_version d1 unit key h"
  shows "storage_ok d4" "same_published db d4" "unit_active unit d4"
proof -
  from store_staged_idempotency_only[OF 4] obtain a b where
    d4: "d4 = d3\<lparr>t_idempotency := a, t_wu_idempotency := b\<rparr>" by blast
  note R = replace_work_unit_heads_Ok[OF 3]
  have "storage_ok d3" by (rule storage_ok_stage_versions[OF 2 3 storage_ok_stage[OF 1 ok] active heads])
  then show "storage_ok d4" by (subst storage_ok_cong[of d4 d3]) (simp_all add: d4)
  show "same_published db d4"
    using same_published_stage[OF 1] same_published_insert[OF 2] same_published_unit_heads[OF 3]
      same_published_idempotency[OF 4] by (blast intro: same_published_trans)
  have "t_work_unit d3 = t_work_unit d1" using R insert_entity_versions_Ok[OF 2] by (auto simp: crdt_grows_def)
  with active show "unit_active unit d4" by (simp add: unit_active_def d4)
qed

text \<open>What a commit that publishes is to publish, and what the unit's baseline is, both read off the
  database the call finds: an open unit (or one it opens) takes over the heads of the commit,
  a closing one publishes what is staged; an entity the unit has not captured yet is captured at its
  baseline cursor, that of a new unit being the current cursor of the scope.\<close>

definition unit_takes :: "WorkUnit \<Rightarrow> sqlite_db \<Rightarrow> bool" where
  "unit_takes wu db \<longleftrightarrow>
     (case map_of (t_work_unit db) (wu_identity_json wu) of None \<Rightarrow> True | Some row \<Rightarrow> wur_state row = DbOpen)"

definition unit_cutoff :: "WorkUnit \<Rightarrow> sqlite_db \<Rightarrow> nat" where
  "unit_cutoff wu db =
     (case map_of (t_work_unit db) (wu_identity_json wu) of
        None \<Rightarrow> current_scope_cursor (wu_scope_json wu) db
      | Some row \<Rightarrow> wur_baseline_cursor row)"

definition unit_baseline :: "WorkUnit \<Rightarrow> EntityKey \<Rightarrow> sqlite_db \<Rightarrow> string list" where
  "unit_baseline wu k db =
     (if map_of (t_wu_entity db) (wu_identity_json wu, k) \<noteq> None then work_unit_base_heads (wu_identity_json wu) k db
      else sort (filter (\<lambda>v. v \<in> set (baseline_heads_at k (unit_cutoff wu db) db))
                   (baseline_versions_at k (unit_cutoff wu db) db)))"

definition heads_to_publish :: "WorkUnitCommit \<Rightarrow> EntityKey \<Rightarrow> sqlite_db \<Rightarrow> string list" where
  "heads_to_publish c k db =
     (if unit_takes (wc_work_unit c) db \<and> k = ec_key (wc_entity c) then sort (ec_head_versions (wc_entity c))
      else direct_work_unit_heads (wu_identity_json (wc_work_unit c)) k db)"

definition staged_from :: "WorkUnitCommit \<Rightarrow> sqlite_db \<Rightarrow> sqlite_db \<Rightarrow> bool" where
  "staged_from c db s \<longleftrightarrow>
     (let wu = wc_work_unit c; unit = wu_identity_json wu
      in (\<forall>k. direct_work_unit_heads unit k s = heads_to_publish c k db)
         \<and> (\<forall>k. heads_to_publish c k db \<noteq> [] \<longrightarrow> work_unit_base_heads unit k s = unit_baseline wu k db))"

lemma staged_is_captured:
  assumes "storage_ok db" and "direct_work_unit_heads u k db \<noteq> []" shows "map_of (t_wu_entity db) (u, k) \<noteq> None"
proof -
  from assms(2) obtain h where "h \<in> set (direct_work_unit_heads u k db)" by (meson list.set_sel(1))
  then show ?thesis using storage_okD(12)[OF assms(1)] unfolding set_direct_heads by blast
qed

lemma captured_baseline:
  assumes cap: "capture_work_unit_entity (wu_identity_json wu) key db = Inr d" and ok: "storage_ok db"
    and k: "k = key \<or> map_of (t_wu_entity db) (wu_identity_json wu, k) \<noteq> None"
  shows "work_unit_base_heads (wu_identity_json wu) k d = unit_baseline wu k db"
proof -
  let ?u = "wu_identity_json wu"
  let ?P = "\<lambda>(u, j, _) is_head. u = ?u \<and> j = k \<and> is_head"
  from capture_Ok[OF cap] consider "map_of (t_wu_entity db) (?u, key) \<noteq> None" "d = db"
    | row where "map_of (t_wu_entity db) (?u, key) = None" "map_of (t_work_unit db) ?u = Some row"
      "t_wu_base d = t_wu_base db @ captured_base ?u key (wur_baseline_cursor row) db" by auto
  then show ?thesis
  proof cases
    case 1
    then show ?thesis using k by (auto simp: unit_baseline_def)
  next
    case (2 row)
    have cut: "unit_cutoff wu db = wur_baseline_cursor row" using 2(2) by (simp add: unit_cutoff_def)
    show ?thesis
    proof (cases "k = key")
      case True
      have "tbl_select ?P (t_wu_base db) = []"
      proof (rule tbl_select_none)
        fix x r assume "(x, r) \<in> set (t_wu_base db)"
        then show "\<not> ?P x r" using storage_okD(10)[OF ok] 2(1) True by (force simp: map_of_eq_None_iff)
      qed
      moreover have "map (\<lambda>(_, _, v). v) (tbl_select ?P (captured_base ?u key n db)) =
          filter (\<lambda>v. v \<in> set (baseline_heads_at key n db)) (baseline_versions_at key n db)" for n
        by (simp add: captured_base_def tbl_select_def filter_map comp_def True)
      ultimately show ?thesis using 2(1) True
        by (simp add: work_unit_base_heads_def 2(3) tbl_select_append unit_baseline_def cut)
    next
      case False
      then have "tbl_select ?P (captured_base ?u key n db) = []" for n
        by (auto simp: captured_base_def tbl_select_def)
      then show ?thesis using k False by (simp add: work_unit_base_heads_def 2(3) tbl_select_append unit_baseline_def)
    qed
  qed
qed

lemma staged_entity_from:
  defines "key \<equiv> \<lambda>c. ec_key (wc_entity c)" and "unit \<equiv> \<lambda>c. wu_identity_json (wc_work_unit c)"
  assumes 1: "stage_work_unit_entity E c db = Inr d1"
    and 2: "insert_entity_versions E (key c) vs (Some (unit c)) t d1 = Inr d2"
    and 3: "replace_work_unit_heads (unit c) (key c) (ec_head_versions (wc_entity c)) d2 = Inr d3"
    and 4: "store_staged_idempotency E c d3 = Inr (Inr d4)"
    and ok: "storage_ok db" and takes: "unit_takes (wc_work_unit c) db"
  shows "staged_from c db d4"
proof -
  let ?hs = "ec_head_versions (wc_entity c)"
  from stage_Ok[OF 1] obtain d where cap: "capture_work_unit_entity (unit c) (key c) db = Inr d"
    and d1: "t_wu_base d1 = t_wu_base d" "t_wu_head d1 = t_wu_head d" unfolding key_def unit_def by auto
  have head: "t_wu_head d = t_wu_head db" using capture_Ok[OF cap] by auto
  from store_staged_idempotency_only[OF 4] replace_work_unit_heads_Ok[OF 3] insert_entity_versions_Ok[OF 2]
  have d4: "t_wu_base d4 = t_wu_base d" "t_wu_head d4 = new_unit_heads (unit c) (key c) ?hs (t_wu_head db)"
    by (auto simp: crdt_grows_def d1 head)
  have direct: "direct_work_unit_heads (unit c) k d4 = heads_to_publish c k db" for k
    using direct_heads_new[where u = "unit c" and k = k and db = d4 and unit = "unit c" and key = "key c"
        and heads = ?hs and t = "t_wu_head db"] takes
    by (simp add: direct_work_unit_heads_def d4(2) heads_to_publish_def key_def unit_def)
  have "work_unit_base_heads (unit c) k d4 = unit_baseline (wc_work_unit c) k db" if "heads_to_publish c k db \<noteq> []" for k
  proof -
    have "k = key c \<or> map_of (t_wu_entity db) (unit c, k) \<noteq> None"
      using that staged_is_captured[OF ok, of "unit c" k] by (auto simp: heads_to_publish_def key_def unit_def split: if_splits)
    from captured_baseline[OF cap[unfolded unit_def] ok this[unfolded unit_def]] show ?thesis
      by (simp add: work_unit_base_heads_def d4(1) unit_def)
  qed
  then show ?thesis using direct by (simp add: staged_from_def Let_def unit_def)
qed

lemma staged_from_close: "staged_from c db d \<Longrightarrow> staged_from c db (close_work_unit u d)"
  by (simp add: staged_from_def Let_def direct_work_unit_heads_def work_unit_base_heads_def close_work_unit_def)

lemma staged_from_closing:
  assumes "storage_ok db" and "\<not> unit_takes (wc_work_unit c) db" shows "staged_from c db db"
  using assms staged_is_captured[OF assms(1)]
  by (auto simp: staged_from_def Let_def heads_to_publish_def unit_baseline_def)

text \<open>Opening a unit changes neither what it will publish nor its baseline.\<close>

lemma staged_from_ensured:
  assumes ens: "ensure_work_unit E (wc_work_unit c) db = Inr (st, d)" and "st = SwOpen \<or> st = SwClosing"
  shows "unit_takes (wc_work_unit c) d = (st = SwOpen)" and "staged_from c d s = staged_from c db s"
proof -
  let ?wu = "wc_work_unit c"
  from ensure_work_unit_cases[OF ens] assms(2) consider
      (new) "st = SwOpen" "map_of (t_work_unit db) (wu_identity_json ?wu) = None"
        "d = db\<lparr>t_work_unit := t_work_unit db @ [(wu_identity_json ?wu,
           open_work_unit_row ?wu (wu_now_unix_ms ?wu) (wu_expires_at_unix_ms ?wu) db)]\<rparr>"
    | (old) row where "d = db" "map_of (t_work_unit db) (wu_identity_json ?wu) = Some row"
        "st = SwOpen \<and> wur_state row = DbOpen \<or> st = SwClosing \<and> wur_state row = DbClosing" by auto
  then have "unit_takes ?wu d = (st = SwOpen) \<and> staged_from c d s = staged_from c db s"
  proof cases
    case new
    have "unit_takes ?wu db" "unit_takes ?wu d" "unit_cutoff ?wu d = unit_cutoff ?wu db"
      using new by (simp_all add: unit_takes_def unit_cutoff_def map_add_def open_work_unit_row_def current_scope_cursor_def)
    moreover have "direct_work_unit_heads u k d = direct_work_unit_heads u k db" "work_unit_base_heads u k d = work_unit_base_heads u k db"
      "baseline_heads_at k n d = baseline_heads_at k n db" "baseline_versions_at k n d = baseline_versions_at k n db"
      "t_wu_entity d = t_wu_entity db" for u k n
      by (simp_all add: new(3) direct_work_unit_heads_def work_unit_base_heads_def baseline_heads_at_def baseline_versions_at_def)
    ultimately show ?thesis using new(1)
      by (simp add: staged_from_def Let_def heads_to_publish_def unit_baseline_def)
  qed (auto simp: unit_takes_def)
  then show "unit_takes ?wu d = (st = SwOpen)" "staged_from c d s = staged_from c db s" by simp_all
qed

lemma commit_in_open_staged:
  assumes run: "commit_in_open_work_unit E c db = Inr (Inr (out, db'))" and ok: "storage_ok db"
    and active: "unit_active (wu_identity_json (wc_work_unit c)) db" and wf: "commit_wf (wc_entity c)"
    and takes: "unit_takes (wc_work_unit c) db"
  defines "unit \<equiv> wu_identity_json (wc_work_unit c)" and "key \<equiv> ec_key (wc_entity c)"
  shows "\<exists>s. storage_ok s \<and> same_published db s \<and> staged_from c db s
    \<and> map_of (t_work_unit s) unit \<noteq> None
    \<and> (out = WcStaged \<and> db' = s \<and> \<not> wc_close c
       \<or> wc_close c \<and> (\<exists>conflicts. publication_conflicts unit s = Inr conflicts
          \<and> (conflicts \<noteq> [] \<and> out = WcPublicationConflict conflicts \<and> db' = s
             \<or> conflicts = [] \<and> out = WcPublished
               \<and> finish_work_unit_publication E unit (ec_recorded_at_unix_ms (wc_entity c)) s = Inr db')))"
proof -
  let ?e = "wc_entity c"
  from run obtain d1 d2 d3 d4 where
    1: "stage_work_unit_entity E c db = Inr d1" and cur: "work_unit_heads unit key d1 = sort (ec_expected_heads ?e)"
    and 2: "insert_entity_versions E key (ec_new_versions ?e) (Some unit) (ec_recorded_at_unix_ms ?e) d1 = Inr d2"
    and 3: "replace_work_unit_heads unit key (ec_head_versions ?e) d2 = Inr d3"
    and 4: "store_staged_idempotency E c d3 = Inr (Inr d4)"
    and 5: "close_and_publish E c (ec_recorded_at_unix_ms ?e) d4 = Inr (out, db')"
    unfolding unit_def key_def by (rule commit_in_open_Ok)
  have act1: "unit_active unit d1"
    using stage_Ok[OF 1] capture_Ok[of unit key db] active by (auto simp: unit_active_def unit_def key_def)
  have heads: "h \<in> sv_version ` set (ec_new_versions ?e) \<or> unit_version d1 unit key h"
    if "h \<in> set (ec_head_versions ?e)" for h
    using that wf work_unit_heads_version[OF storage_ok_stage[OF 1 ok], of h unit key]
    by (auto simp: commit_wf_def cur)
  note S = staged_entity[OF 1 2 3 4 ok act1 heads]
  let ?s = "if wc_close c then close_work_unit unit d4 else d4"
  have "storage_ok ?s" using S(1) storage_ok_close by simp
  moreover have "same_published db ?s" using same_published_trans[OF S(2)] same_published_close S(2) by simp
  moreover have "staged_from c db ?s"
    using staged_entity_from[OF 1 2[unfolded key_def unit_def] 3[unfolded key_def unit_def] 4 ok takes] staged_from_close by simp
  moreover have "map_of (t_work_unit ?s) unit \<noteq> None"
    using S(3) by (auto simp: unit_active_def close_work_unit_def map_of_tbl_update split: option.splits)
  ultimately show ?thesis using 5
    by (intro exI[of _ ?s]) (auto simp: close_and_publish_def Let_def unit_def[symmetric] bindR_eq_Inr split: if_splits)
qed


text \<open>Every answer of \<open>commit_entity_in_work_unit\<close>: what it leaves when it does not publish, and the
  staged state it publishes when it does.\<close>

definition publishes :: "sqlite_env \<Rightarrow> string \<Rightarrow> nat \<Rightarrow> sqlite_db \<Rightarrow> sqlite_db \<Rightarrow> sqlite_db \<Rightarrow> bool" where
  "publishes E unit t db s db' \<longleftrightarrow>
     storage_ok s \<and> same_published db s \<and> map_of (t_work_unit s) unit \<noteq> None
     \<and> finish_work_unit_publication E unit t s = Inr db'"

lemma commit_in_closing_cases:
  assumes "commit_in_closing_work_unit E c db = Inr (out, db')" and ok: "storage_ok db"
    and act: "unit_active (wu_identity_json (wc_work_unit c)) db"
  shows "(out \<noteq> WcPublished \<and> db' = db)
    \<or> (out = WcPublished \<and> wc_close c \<and> publication_conflicts (wu_identity_json (wc_work_unit c)) db = Inr []
       \<and> publishes E (wu_identity_json (wc_work_unit c)) (ec_recorded_at_unix_ms (wc_entity c)) db db db')"
  using assms
  by (auto simp: commit_in_closing_work_unit_def publishes_def Let_def bindR_eq_Inr sqlite_time_def unit_active_def
      split: if_splits option.splits)

lemma store_staged_drop: "store_staged_idempotency E c db = Inr (Inl out) \<Longrightarrow> out \<noteq> WcPublished"
proof (cases "wc_idempotency c")
  case (Some idem)
  assume "store_staged_idempotency E c db = Inr (Inl out)"
  with Some obtain o1 d where *: "store_work_unit_idempotency E (wu_identity_json (wc_work_unit c)) idem
      (wu_now_unix_ms (wc_work_unit c)) db = Inr (o1, d)"
    by (auto simp: store_staged_idempotency_def bindR_eq_Inr)
  with Some \<open>store_staged_idempotency E c db = Inr (Inl out)\<close> show ?thesis
    by (cases o1) (auto simp: store_staged_idempotency_def split: if_splits)
qed (simp add: store_staged_idempotency_def)

lemma commit_in_open_drop:
  assumes "commit_in_open_work_unit E c db = Inr (Inl out)"
  shows "out \<noteq> WcPublished"
proof (rule ccontr)
  assume "\<not> out \<noteq> WcPublished"
  with assms obtain d stored t where "store_staged_idempotency E c d = Inr stored"
    "(case stored of Inl outcome \<Rightarrow> Inr (Inl outcome)
       | Inr d4 \<Rightarrow> bindR (close_and_publish E c t d4) (\<lambda>answer. Inr (Inr answer))) = Inr (Inl WcPublished)"
    by (auto simp: commit_in_open_work_unit_def Let_def bindR_eq_Inr split: if_splits)
  then show False by (cases stored) (auto simp: bindR_eq_Inr dest: store_staged_drop)
qed

lemma commit_in_work_unit_cases:
  assumes run: "commit_entity_in_work_unit E clk c db = (Inr out, db')" and ok: "storage_ok db"
    and wf: "commit_wf (wc_entity c)"
  shows "(out \<noteq> WcPublished \<and> same_published db db' \<and> storage_ok db')
    \<or> (out = WcPublished \<and> wc_close c \<and> (\<exists>s. staged_from c db s
       \<and> publication_conflicts (wu_identity_json (wc_work_unit c)) s = Inr []
       \<and> publishes E (wu_identity_json (wc_work_unit c)) (ec_recorded_at_unix_ms (wc_entity c)) db s db'))"
proof -
  let ?wu = "wc_work_unit c"
  from run obtain st d where ens: "ensure_work_unit E ?wu db = Inr (st, d)"
    by (auto simp: commit_entity_in_work_unit_def Let_def split: if_splits sum.splits)
  note okd = storage_ok_ensure[OF ens ok] and same = same_published_ensure[OF ens ok]
  show ?thesis
  proof (cases st)
    case SwOpen
    then have act: "unit_active (wu_identity_json ?wu) d" using ensure_work_unit_active[OF ens] by simp
    from run ens SwOpen consider
      (drop) "db' = db" "\<exists>o1. commit_in_open_work_unit E c d = Inr (Inl o1) \<and> out = o1"
      | (keep) "commit_in_open_work_unit E c d = Inr (Inr (out, db'))"
      by (auto simp: commit_entity_in_work_unit_def Let_def finish_tx_Ok split: if_splits sum.splits)
    then show ?thesis
    proof cases
      case drop
      then have "out \<noteq> WcPublished" by (auto dest: commit_in_open_drop)
      with drop ok show ?thesis by simp
    next
      case keep
      have "unit_takes ?wu d" using staged_from_ensured(1)[OF ens] SwOpen by simp
      from commit_in_open_staged[OF keep okd act wf this] same show ?thesis
        unfolding publishes_def staged_from_ensured(2)[OF ens disjI1[OF SwOpen]] by (auto intro: same_published_trans)
    qed
  next
    case SwClosing
    then have act: "unit_active (wu_identity_json ?wu) d" using ensure_work_unit_active[OF ens] by simp
    from run ens SwClosing have closing: "commit_in_closing_work_unit E c d = Inr (out, db')"
      by (auto simp: commit_entity_in_work_unit_def Let_def finish_tx_Ok split: if_splits)
    have "\<not> unit_takes ?wu d" using staged_from_ensured(1)[OF ens] SwClosing by simp
    from staged_from_closing[OF okd this] have "staged_from c db d"
      unfolding staged_from_ensured(2)[OF ens disjI2[OF SwClosing]] .
    with commit_in_closing_cases[OF closing okd act] same okd show ?thesis
      unfolding publishes_def by (auto intro: same_published_trans)
  qed (use run ens okd same in \<open>auto simp: commit_entity_in_work_unit_def Let_def finish_tx_Ok split: if_splits\<close>)
qed

lemma commit_in_work_unit_Err:
  "commit_entity_in_work_unit E clk c db = (Inl e, db') \<Longrightarrow> db' = db"
  by (auto simp: commit_entity_in_work_unit_def Let_def dest: finish_tx_Err
      split: if_splits sum.splits prod.splits StoredWorkUnitState.splits)

text \<open>
  C9. Staging is invisible. Whatever a commit in a work unit answers, as long as it is not
  \<open>Published\<close> (it may stage, close, expire the unit, conflict, replay or fail), the published
  heads, the published versions, the change log and every frontier stay as they were.
\<close>
theorem staging_isolated:
  assumes "storage_ok db" and "commit_wf (wc_entity c)"
    and "commit_entity_in_work_unit E clk c db = (result, db')" and "result \<noteq> Inr WcPublished"
  shows "same_published db db' \<and> (\<forall>k. published_heads k db' = published_heads k db)"
proof (cases result)
  case (Inl e)
  with commit_in_work_unit_Err assms(3) show ?thesis by fastforce
next
  case (Inr out)
  with commit_in_work_unit_cases[OF assms(3)[unfolded Inr] assms(1,2)] assms(4)
  have "same_published db db'" by auto
  then show ?thesis by (simp add: same_published_heads)
qed

text \<open>
  C10. Publication is atomic and conflict-free. Only a closing commit publishes. For every entity with
  heads to publish (those the unit had staged, and those of the commit itself unless the unit was
  closing already) the published heads were the unit's baseline, nobody having moved them since,
  and are the heads to publish afterwards; every other entity keeps its published heads. The change
  log gains exactly one row per such entity, with consecutive cursors and those heads, the unit is
  committed and nothing stays staged by it.
\<close>
theorem publication_atomic:
  assumes "storage_ok db" and "commit_wf (wc_entity c)"
    and "commit_entity_in_work_unit E clk c db = (Inr WcPublished, db')"
  defines "unit \<equiv> wu_identity_json (wc_work_unit c)"
  shows "wc_close c
    \<and> (\<forall>k. if heads_to_publish c k db \<noteq> []
          then published_heads k db = unit_baseline (wc_work_unit c) k db
             \<and> published_heads k db' = heads_to_publish c k db
          else published_heads k db' = published_heads k db)
    \<and> (\<exists>keys rows. distinct keys \<and> set keys = {k. heads_to_publish c k db \<noteq> []}
         \<and> t_change db' = t_change db @ rows
         \<and> map fst rows = [t_change_seq db + 1 ..< t_change_seq db + 1 + length keys]
         \<and> map (chr_key \<circ> snd) rows = keys
         \<and> map (chr_head_versions \<circ> snd) rows = map (\<lambda>k. heads_to_publish c k db) keys)
    \<and> (\<exists>row. map_of (t_work_unit db') unit = Some row \<and> wur_state row = DbCommitted)
    \<and> staged_by unit db' = []"
proof -
  from commit_in_work_unit_cases[OF assms(3,1,2)] obtain s t where close: "wc_close c" and from_db: "staged_from c db s"
    and none: "publication_conflicts unit s = Inr []" and pub: "publishes E unit t db s db'"
    unfolding unit_def by auto
  from pub have ok: "storage_ok s" and same: "same_published db s" and row: "map_of (t_work_unit s) unit \<noteq> None"
    and fin: "finish_work_unit_publication E unit t s = Inr db'" by (auto simp: publishes_def)
  note F = finish_publication_Ok[OF fin ok]
  let ?keys = "work_unit_mutated_entities unit s"
  from from_db have direct: "direct_work_unit_heads unit k s = heads_to_publish c k db"
    and base: "heads_to_publish c k db \<noteq> [] \<Longrightarrow> work_unit_base_heads unit k s = unit_baseline (wc_work_unit c) k db" for k
    by (simp_all add: staged_from_def Let_def unit_def)
  have keys: "k \<in> set ?keys \<longleftrightarrow> heads_to_publish c k db \<noteq> []" for k
    using set_mutated[OF storage_okD(4)[OF ok]] staged_is_captured[OF ok, of unit k] by (auto simp: direct)
  have "staged_by unit db' = []"
  proof (rule ccontr)
    assume "staged_by unit db' \<noteq> []"
    then obtain k v where "(k, v) \<in> set (staged_by unit db')" by (metis list.set_intros(1) neq_Nil_conv surj_pair)
    with F show False by (auto simp: mem_staged_by storage_okD(1))
  qed
  moreover have "published_heads k db = unit_baseline (wc_work_unit c) k db" if "heads_to_publish c k db \<noteq> []" for k
    using publication_conflicts_none[OF none] keys base that same_published_heads[OF same] by simp
  moreover have "published_heads k db' = (if heads_to_publish c k db \<noteq> [] then heads_to_publish c k db else published_heads k db)" for k
    using F same_published_heads[OF same, of k] by (simp add: keys direct)
  moreover have "\<exists>row. map_of (t_work_unit db') unit = Some row \<and> wur_state row = DbCommitted"
    using F row by auto
  moreover have "\<exists>rows. t_change db' = t_change db @ rows
         \<and> map fst rows = [t_change_seq db + 1 ..< t_change_seq db + 1 + length ?keys]
         \<and> map (chr_key \<circ> snd) rows = ?keys
         \<and> map (chr_head_versions \<circ> snd) rows = map (\<lambda>k. heads_to_publish c k db) ?keys"
    using F same unfolding publication_log_def direct same_published_def by metis
  then have "\<exists>keys rows. distinct keys \<and> set keys = {k. heads_to_publish c k db \<noteq> []}
         \<and> t_change db' = t_change db @ rows
         \<and> map fst rows = [t_change_seq db + 1 ..< t_change_seq db + 1 + length keys]
         \<and> map (chr_key \<circ> snd) rows = keys
         \<and> map (chr_head_versions \<circ> snd) rows = map (\<lambda>k. heads_to_publish c k db) keys"
    using distinct_mutated[OF storage_okD(4)[OF ok], of unit] keys by blast
  ultimately show ?thesis using close by presburger
qed

section \<open>Expiry\<close>

definition expired_ids :: "nat \<Rightarrow> sqlite_db \<Rightarrow> string list" where
  "expired_ids now db = tbl_select (\<lambda>_ r. wur_state r \<in> {DbOpen, DbClosing} \<and> wur_expiry_action r = Discard
     \<and> wur_expires_at_unix_ms r \<le> now) (t_work_unit db)"

lemma unit_row_garbage [simp]: "t_work_unit (collect_crdt_garbage db) = t_work_unit db"
  "t_version (collect_crdt_garbage db) = t_version db" "staged_by u (collect_crdt_garbage db) = staged_by u db"
  by (simp_all add: collect_crdt_garbage_def Let_def staged_by_def)

lemma expired_unit_state:
  "map_of (t_work_unit (expired_unit_db unit now db)) u =
     map_option (\<lambda>r. if u = unit \<and> wur_state r \<in> {DbOpen, DbClosing}
        then r\<lparr>wur_state := DbExpired, wur_closed_at_unix_ms := Some now\<rparr> else r) (map_of (t_work_unit db) u)"
  by (simp add: expired_unit_db_def Let_def map_of_tbl_update)

lemma expired_unit_staged: "staged_by unit (expired_unit_db unit now db) = []"
  by (auto simp: staged_by_def expired_unit_db_def Let_def tbl_delete_def tbl_select_def filter_empty_conv)

lemma expire_units_total:
  assumes "storage_ok db" and "now \<le> i64_max"
  shows "\<exists>db'. foldR (\<lambda>u. expire_work_unit u now) units db = Inr db'
    \<and> storage_ok db' \<and> same_published db db'
    \<and> (\<forall>u. map_of (t_work_unit db') u =
         map_option (\<lambda>r. if u \<in> set units \<and> wur_state r \<in> {DbOpen, DbClosing}
            then r\<lparr>wur_state := DbExpired, wur_closed_at_unix_ms := Some now\<rparr> else r) (map_of (t_work_unit db) u))
    \<and> (\<forall>k v. map_of (t_version db') (k, v) = (case map_of (t_version db) (k, v) of None \<Rightarrow> None
         | Some r \<Rightarrow> if (case evr_work_unit_json r of None \<Rightarrow> False | Some u \<Rightarrow> u \<in> set units) then None else Some r))"
  using assms(1)
proof (induction units arbitrary: db)
  case Nil
  then show ?case by (simp add: option.map_ident cong: option.case_cong) (auto split: option.splits)
next
  case (Cons unit units)
  let ?d = "collect_crdt_garbage (expired_unit_db unit now db)"
  have run: "expire_work_unit unit now db = Inr ?d" by (rule expire_work_unit_total[OF Cons.prems assms(2)])
  have ok: "storage_ok ?d" by (simp add: storage_ok_expired[OF Cons.prems])
  from Cons.IH[OF ok] obtain db' where IH: "foldR (\<lambda>u. expire_work_unit u now) units ?d = Inr db'"
    "storage_ok db'" "same_published ?d db'"
    "\<forall>u. map_of (t_work_unit db') u =
         map_option (\<lambda>r. if u \<in> set units \<and> wur_state r \<in> {DbOpen, DbClosing}
            then r\<lparr>wur_state := DbExpired, wur_closed_at_unix_ms := Some now\<rparr> else r) (map_of (t_work_unit ?d) u)"
    "\<forall>k v. map_of (t_version db') (k, v) = (case map_of (t_version ?d) (k, v) of None \<Rightarrow> None
         | Some r \<Rightarrow> if (case evr_work_unit_json r of None \<Rightarrow> False | Some u \<Rightarrow> u \<in> set units) then None else Some r)"
    by blast
  have "same_published db db'"
    using same_published_expired[OF Cons.prems run] IH(3) by (rule same_published_trans)
  moreover have "map_of (t_work_unit db') u =
      map_option (\<lambda>r. if u \<in> set (unit # units) \<and> wur_state r \<in> {DbOpen, DbClosing}
            then r\<lparr>wur_state := DbExpired, wur_closed_at_unix_ms := Some now\<rparr> else r) (map_of (t_work_unit db) u)" for u
    using IH(4) by (cases "map_of (t_work_unit db) u") (auto simp: expired_unit_state)
  moreover have "map_of (t_version db') (k, v) = (case map_of (t_version db) (k, v) of None \<Rightarrow> None
         | Some r \<Rightarrow> if (case evr_work_unit_json r of None \<Rightarrow> False | Some u \<Rightarrow> u \<in> set (unit # units)) then None else Some r)" for k v
    using IH(5) expired_unit_rows(1)[OF Cons.prems, of unit now k v] by (auto split: option.splits)
  ultimately show ?case using run IH(1,2) by auto
qed

text \<open>
  C11. Expiry always succeeds, discards exactly the overdue units and nothing else. At any time
  SQLite can represent, sweeping leaves no active unit that is overdue, moves every overdue active
  unit to \<open>expired\<close> and keeps all other units as they are, removes exactly the versions those units
  had staged, and leaves the published state untouched.
\<close>
theorem expiry_discards_overdue:
  assumes ok: "storage_ok db" and now: "now \<le> i64_max"
  shows "\<exists>db'. expire_open_work_units now db = Inr db' \<and> same_published db db'
    \<and> (\<forall>u. map_of (t_work_unit db') u =
         map_option (\<lambda>r. if wur_state r \<in> {DbOpen, DbClosing} \<and> wur_expires_at_unix_ms r \<le> now
            then r\<lparr>wur_state := DbExpired, wur_closed_at_unix_ms := Some now\<rparr> else r) (map_of (t_work_unit db) u))
    \<and> (\<forall>k v. map_of (t_version db') (k, v) = (case map_of (t_version db) (k, v) of None \<Rightarrow> None
         | Some r \<Rightarrow> if (case evr_work_unit_json r of None \<Rightarrow> False | Some u \<Rightarrow> u \<in> set (expired_ids now db))
                     then None else Some r))"
proof -
  have ids: "u \<in> set (expired_ids now db) \<longleftrightarrow> (\<exists>r. map_of (t_work_unit db) u = Some r
      \<and> wur_state r \<in> {DbOpen, DbClosing} \<and> wur_expires_at_unix_ms r \<le> now)" for u
  proof -
    have "wur_expiry_action r = Discard" for r by (cases "wur_expiry_action r")
    then show ?thesis using map_of_wf_iff[OF storage_okD(3)[OF ok]] by (auto simp: expired_ids_def)
  qed
  have run: "expire_open_work_units now db = foldR (\<lambda>u. expire_work_unit u now) (sort (expired_ids now db)) db"
    using now by (simp add: expire_open_work_units_def bind_u64_def expired_ids_def)
  obtain db' where E: "foldR (\<lambda>u. expire_work_unit u now) (sort (expired_ids now db)) db = Inr db'"
    "same_published db db'"
    "\<forall>u. map_of (t_work_unit db') u =
         map_option (\<lambda>r. if u \<in> set (expired_ids now db) \<and> wur_state r \<in> {DbOpen, DbClosing}
            then r\<lparr>wur_state := DbExpired, wur_closed_at_unix_ms := Some now\<rparr> else r) (map_of (t_work_unit db) u)"
    "\<forall>k v. map_of (t_version db') (k, v) = (case map_of (t_version db) (k, v) of None \<Rightarrow> None
         | Some r \<Rightarrow> if (case evr_work_unit_json r of None \<Rightarrow> False | Some u \<Rightarrow> u \<in> set (expired_ids now db)) then None else Some r)"
    using expire_units_total[OF ok now, of "sort (expired_ids now db)", unfolded set_sort]
    by (elim exE conjE) (rule that)
  have "map_of (t_work_unit db') u =
         map_option (\<lambda>r. if wur_state r \<in> {DbOpen, DbClosing} \<and> wur_expires_at_unix_ms r \<le> now
            then r\<lparr>wur_state := DbExpired, wur_closed_at_unix_ms := Some now\<rparr> else r) (map_of (t_work_unit db) u)" for u
    unfolding E(3)[rule_format] by (cases "map_of (t_work_unit db) u") (auto simp: ids)
  with run E(1,2,4) show ?thesis by (intro exI[of _ db']) simp
qed


section \<open>Publishing with resolutions\<close>

text \<open>Heads of a well-formed resolution come from its new versions, from the unit's heads it expects
  or from the published heads it expects.\<close>

definition resolution_wf :: "WorkUnitResolution \<Rightarrow> bool" where
  "resolution_wf r \<longleftrightarrow>
     set (ec_head_versions (wr_entity r)) \<subseteq> sv_version ` set (ec_new_versions (wr_entity r))
       \<union> set (ec_expected_heads (wr_entity r)) \<union> set (wr_expected_published_heads r)"

lemma publication_conflicts_mem:
  assumes "publication_conflicts unit db = Inr cs" and "c \<in> set cs"
  shows "publication_conflict unit db (wk_key c) = Inr (Some c)"
proof -
  from assms(1) obtain xs where xs: "mapR (publication_conflict unit db) (work_unit_mutated_entities unit db) = Inr xs"
    "cs = List.map_filter (\<lambda>c. c) xs" by (auto simp: publication_conflicts_def bindR_eq_Inr)
  from assms(2) xs(2) have "Some c \<in> set xs" by (auto simp: map_filter_def)
  then obtain i where i: "i < length xs" "xs ! i = Some c" by (auto simp: in_set_conv_nth)
  from xs(1) have all2: "list_all2 (\<lambda>x y. publication_conflict unit db x = Inr y)
      (work_unit_mutated_entities unit db) xs" by (simp add: mapR_eq_Inr)
  have "publication_conflict unit db (work_unit_mutated_entities unit db ! i) = Inr (Some c)"
    using list_all2_nthD[OF all2] list_all2_lengthD[OF all2] i by simp
  moreover from this have "wk_key c = work_unit_mutated_entities unit db ! i"
    by (auto simp: publication_conflict_def Let_def bindR_eq_Inr split: if_splits)
  ultimately show ?thesis by simp
qed

lemma publication_conflict_heads:
  assumes "publication_conflict unit db k = Inr (Some c)"
  shows "wk_key c = k" "sn_head_versions (wk_staged c) = work_unit_heads unit k db"
    "(case wk_current c of None \<Rightarrow> [] | Some sn \<Rightarrow> sn_head_versions sn) = published_heads k db"
  using assms
  by (auto simp: publication_conflict_def Let_def bindR_eq_Inr read_work_unit_snapshot_def
      read_entity_snapshot_def published_heads_def split: if_splits)

lemma published_heads_version:
  assumes ok: "storage_ok db" and "h \<in> set (published_heads key db)"
  shows "unit_version db unit key h"
proof -
  have "published_version db key h" using storage_okD(8)[OF ok] assms(2) unfolding set_published_heads by blast
  then show ?thesis by (auto simp: published_version_def unit_version_def split: option.splits)
qed

text \<open>Resolving conflicts only adds versions and moves heads of the unit.\<close>

definition resolves :: "string \<Rightarrow> sqlite_db \<Rightarrow> sqlite_db \<Rightarrow> bool" where
  "resolves unit db db' \<longleftrightarrow>
     storage_ok db' \<and> same_published db db' \<and> t_work_unit db' = t_work_unit db
     \<and> t_idempotency db' = t_idempotency db
     \<and> t_wu_idempotency db' = t_wu_idempotency db \<and> t_retention db' = t_retention db
     \<and> (\<forall>k v. unit_version db unit k v \<longrightarrow> unit_version db' unit k v)"

lemma resolve_one:
  assumes ins: "insert_entity_versions E key vs (Some unit) t db = Inr d"
    and rep: "replace_work_unit_heads unit key heads d = Inr db'"
    and ok: "storage_ok db" and act: "unit_active unit db"
    and heads: "\<And>h. h \<in> set heads \<Longrightarrow> h \<in> sv_version ` set vs \<or> unit_version db unit key h"
  shows "resolves unit db db'"
proof -
  have ok': "storage_ok db'" by (rule storage_ok_stage_versions[OF ins rep ok act heads])
  from insert_entity_versions_Ok[OF ins] obtain a b e where
    d: "d = db\<lparr>t_version := t_version db @ fresh_rows key vs (Some unit) t,
      t_crdt_change := t_crdt_change db @ a, t_crdt_parent := t_crdt_parent db @ b,
      t_crdt_head := t_crdt_head db @ e\<rparr>" unfolding crdt_grows_def by auto
  have db': "db' = d\<lparr>t_wu_head := new_unit_heads unit key heads (t_wu_head d)\<rparr>"
    using replace_work_unit_heads_Ok[OF rep] by simp
  have "same_published db db'"
    using same_published_insert[OF ins] same_published_unit_heads[OF rep] by (rule same_published_trans)
  moreover have "unit_version db' unit k v" if "unit_version db unit k v" for k v
    using that by (auto simp: unit_version_def db' d map_add_def split: option.splits)
  ultimately show ?thesis using ok' by (simp add: resolves_def db' d)
qed

lemma apply_resolutions_resolves:
  assumes "apply_resolutions E unit rs cs rest d = Inr (Inr db')"
    and "resolves unit db d" and ok: "storage_ok db" and act: "unit_active unit db"
    and "\<forall>r \<in> set rs. resolution_wf r"
    and "\<forall>c \<in> set rest. publication_conflict unit db (wk_key c) = Inr (Some c)"
  shows "resolves unit db db'"
  using assms(1,2,6)
proof (induction rest arbitrary: d)
  case (Cons c rest)
  note heads = publication_conflict_heads[of unit db "wk_key c" c]
  let ?find = "find (\<lambda>r. ec_key (wr_entity r) = wk_key c) rs"
  from Cons.prems(1) obtain r where r: "?find = Some r" by (auto split: option.splits)
  then have mem: "r \<in> set rs" by (auto simp: find_Some_iff)
  let ?e = "wr_entity r"
  from Cons.prems(1) r obtain d1 d2 where
    pub: "sort (wr_expected_published_heads r) = published_heads (wk_key c) db"
    and st: "sort (ec_expected_heads ?e) = work_unit_heads unit (wk_key c) db"
    and 1: "insert_entity_versions E (wk_key c) (ec_new_versions ?e) (Some unit) (ec_recorded_at_unix_ms ?e) d = Inr d1"
    and 2: "replace_work_unit_heads unit (wk_key c) (ec_head_versions ?e) d1 = Inr d2"
    and 3: "apply_resolutions E unit rs cs rest d2 = Inr (Inr db')"
    using Cons.prems(3) heads by (auto simp: Let_def bindR_eq_Inr sqlite_time_def split: if_splits)
  have okd: "storage_ok d" and actd: "unit_active unit d"
    and keep: "unit_version db unit k v \<Longrightarrow> unit_version d unit k v" for k v
    using Cons.prems(2) act by (auto simp: resolves_def unit_active_def)
  have "h \<in> sv_version ` set (ec_new_versions ?e) \<or> unit_version d unit (wk_key c) h"
    if "h \<in> set (ec_head_versions ?e)" for h
  proof -
    from that assms(5) mem consider "h \<in> sv_version ` set (ec_new_versions ?e)"
      | "h \<in> set (sort (ec_expected_heads ?e))" | "h \<in> set (sort (wr_expected_published_heads r))"
      by (auto simp: resolution_wf_def)
    then show ?thesis
      by cases (auto simp only: st pub intro: keep work_unit_heads_version[OF ok]
          published_heads_version[OF ok])
  qed
  from resolve_one[OF 1 2 okd actd this] Cons.prems(2) have "resolves unit db d2"
    by (auto simp: resolves_def intro: same_published_trans)
  with Cons.IH[OF 3] Cons.prems(3) show ?case by simp
qed simp

lemma publish_work_unit_cases:
  assumes run: "publish_work_unit E p db = (Inr out, db')" and ok: "storage_ok db"
    and wf: "\<forall>r \<in> set (wp_resolutions p). resolution_wf r"
  shows "(out \<noteq> WcPublished \<and> same_published db db' \<and> storage_ok db')
    \<or> (out = WcPublished \<and> (\<exists>s. publishes E (wu_identity_json (wp_work_unit p)) (wp_recorded_at_unix_ms p) db s db'))"
proof -
  let ?wu = "wp_work_unit p" let ?unit = "wu_identity_json (wp_work_unit p)"
  from run obtain st d where ens: "ensure_work_unit E ?wu db = Inr (st, d)"
    by (auto simp: publish_work_unit_def Let_def split: sum.splits)
  note okd = storage_ok_ensure[OF ens ok] and same = same_published_ensure[OF ens ok]
  show ?thesis
  proof (cases st)
    case SwClosing
    then have act: "unit_active ?unit d" using ensure_work_unit_active[OF ens] by simp
    from run ens SwClosing obtain cs where cs: "publication_conflicts ?unit d = Inr cs"
      by (auto simp: publish_work_unit_def Let_def split: sum.splits)
    show ?thesis
    proof (cases "length cs = length (wp_resolutions p)")
      case False
      with run ens SwClosing cs ok show ?thesis by (auto simp: publish_work_unit_def Let_def)
    next
      case True
      with run ens SwClosing cs obtain res where
        res: "apply_resolutions E ?unit (wp_resolutions p) cs cs d = Inr res"
        by (auto simp: publish_work_unit_def Let_def split: sum.splits)
      show ?thesis
      proof (cases res)
        case (Inl o1)
        have "apply_resolutions E u rs all rest d0 = Inr (Inl o1) \<Longrightarrow> o1 \<noteq> WcPublished" for u rs all rest d0
          by (induction rest arbitrary: d0)
             (auto simp: Let_def bindR_eq_Inr split: option.splits if_splits)
        with res Inl have "o1 \<noteq> WcPublished" by blast
        with run ens SwClosing cs True res Inl ok show ?thesis by (auto simp: publish_work_unit_def Let_def)
      next
        case (Inr d2)
        have refl: "resolves ?unit d d" using okd by (simp add: resolves_def)
        have mem: "\<forall>c \<in> set cs. publication_conflict ?unit d (wk_key c) = Inr (Some c)"
          using publication_conflicts_mem[OF cs] by blast
        from apply_resolutions_resolves[OF res[unfolded Inr] refl okd act wf mem]
        have R: "resolves ?unit d d2" .
        from run ens SwClosing cs True res Inr have "out = WcPublished"
          "finish_work_unit_publication E ?unit (wp_recorded_at_unix_ms p) d2 = Inr db'"
          by (auto simp: publish_work_unit_def Let_def finish_tx_Ok bindR_eq_Inr sqlite_time_def split: if_splits)
        moreover have "map_of (t_work_unit d2) ?unit \<noteq> None"
          using R act by (auto simp: resolves_def unit_active_def split: option.splits)
        ultimately show ?thesis using R same
          unfolding publishes_def resolves_def by (blast intro: same_published_trans)
      qed
    qed
  qed (use run ens okd same ok in \<open>auto simp: publish_work_unit_def Let_def\<close>)
qed

lemma publishes_storage_ok: "publishes E unit t db s db' \<Longrightarrow> storage_ok db'"
  using finish_publication_Ok[of E unit t s db'] by (auto simp: publishes_def)

section \<open>Repeatable reads\<close>

lemma capture_total_weak:
  assumes wfv: "tbl_wf (t_version db)" and wfb: "tbl_wf (t_wu_base db)"
    and row: "map_of (t_work_unit db) u = Some row"
    and base: "\<And>v. map_of (t_wu_base db) (u, k, v) \<noteq> None \<Longrightarrow> map_of (t_wu_entity db) (u, k) \<noteq> None"
  shows "\<exists>d. capture_work_unit_entity u k db = Inr d"
proof (cases "map_of (t_wu_entity db) (u, k)")
  case (Some e)
  then show ?thesis by (simp add: capture_work_unit_entity_def)
next
  case None
  let ?d = "db\<lparr>t_wu_entity := tbl_ignore (u, k) blank_entity (t_wu_entity db)\<rparr>"
  have run: "tbl_wf (t_wu_base d) \<Longrightarrow> distinct vs \<Longrightarrow> \<forall>v \<in> set vs. map_of (t_wu_base d) (u, k, v) = None
      \<Longrightarrow> \<exists>d'. foldR (insert_base_version u k hs) vs d = Inr d'" for hs vs d
  proof (induction vs arbitrary: d)
    case (Cons v vs)
    let ?d = "d\<lparr>t_wu_base := t_wu_base d @ [((u, k, v), v \<in> set hs)]\<rparr>"
    have "insert_base_version u k hs v d = Inr ?d"
      using Cons.prems(3) by (simp add: insert_base_version_def tbl_insert_def)
    moreover have "\<exists>d'. foldR (insert_base_version u k hs) vs ?d = Inr d'"
      by (rule Cons.IH) (use Cons.prems in \<open>auto simp: tbl_wf_append_single map_add_def split: option.splits\<close>)
    ultimately show ?case by simp
  qed simp
  have none: "map_of (t_wu_base db) (u, k, v) = None" for v using base None by blast
  have "distinct (baseline_versions_at k c ?d)" for c
  proof -
    have "distinct (tbl_select P (t_version db))" for P by (rule distinct_tbl_select[OF wfv])
    then show ?thesis by (auto simp: baseline_versions_at_def distinct_map inj_on_def)
  qed
  with run[of ?d] none wfb row None show ?thesis
    by (simp add: capture_work_unit_entity_def Let_def blank_entity_def)
qed

lemma capture_total:
  assumes ok: "storage_ok db" and row: "map_of (t_work_unit db) u = Some row"
  shows "\<exists>d. capture_work_unit_entity u k db = Inr d"
  by (rule capture_total_weak[OF storage_okD(1,6)[OF ok] row]) (rule storage_okD(10)[OF ok])

definition unit_contents :: "EntitySnapshot \<Rightarrow> string list \<times> (string \<times> StoredVersionState \<times> string option) set" where
  "unit_contents sn = (sn_head_versions sn, version_content ` set (sn_versions sn))"

lemma stored_contents:
  "version_content ` set (stored_versions key P db) =
     (\<lambda>((_, v), r). (v, evr_state r, evr_value_json r)) ` {((k, v), r) \<in> set (t_version db). k = key \<and> P v r}"
  unfolding stored_versions_def set_map set_sort set_filter image_image
  by (rule image_cong) (auto simp: version_content_def)

lemma unit_snapshot_cong:
  assumes "t_wu_head d' = t_wu_head d" and "t_wu_base d' = t_wu_base d"
    and "{((k, v), r) \<in> set (t_version d'). k = key \<and> (map_of (t_wu_base d) (u, key, v) \<noteq> None \<or> evr_work_unit_json r = Some u)}
       = {((k, v), r) \<in> set (t_version d). k = key \<and> (map_of (t_wu_base d) (u, key, v) \<noteq> None \<or> evr_work_unit_json r = Some u)}"
  shows "map_option unit_contents (read_work_unit_snapshot u key d') =
    map_option unit_contents (read_work_unit_snapshot u key d)"
proof -
  have "work_unit_heads u key d' = work_unit_heads u key d"
    using assms(1,2) by (simp add: work_unit_heads_def direct_work_unit_heads_def work_unit_base_heads_def)
  then show ?thesis
    using assms(3) by (simp add: read_work_unit_snapshot_def Let_def unit_contents_def stored_contents assms(2))
qed

text \<open>A commit outside the unit publishes above the unit's baseline, so it changes neither the
  baseline heads nor the baseline versions.\<close>

lemma baseline_committed:
  assumes com: "committed_db c db db'" and le: "cutoff \<le> t_change_seq db"
  shows "baseline_heads_at k cutoff db' = baseline_heads_at k cutoff db"
    and "baseline_versions_at k cutoff db' = baseline_versions_at k cutoff db"
proof -
  note T = committed_db_tables[OF com]
  have "filter (\<lambda>((j, cursor), _). j = k \<and> cursor \<le> cutoff) (t_history db') =
      filter (\<lambda>((j, cursor), _). j = k \<and> cursor \<le> cutoff) (t_history db)"
    using le by (simp add: T(5))
  then show "baseline_heads_at k cutoff db' = baseline_heads_at k cutoff db"
    by (simp add: baseline_heads_at_def)
  let ?P = "\<lambda>(j, _ :: string) r. j = k \<and> (case evr_published_cursor r of None \<Rightarrow> False | Some c \<Rightarrow> c \<le> cutoff)"
  have "tbl_select ?P (published_rows (ec_key c) (ec_new_versions c) (ec_recorded_at_unix_ms c) (t_change_seq db + 1)) = []"
    using le by (intro tbl_select_none) (auto simp: published_row_def)
  then show "baseline_versions_at k cutoff db' = baseline_versions_at k cutoff db"
    unfolding baseline_versions_at_def T(2) tbl_select_append by simp
qed

lemma captured_committed:
  assumes ok: "storage_ok db" and com: "committed_db c db db'"
    and row: "map_of (t_work_unit db) u = Some row" "wur_baseline_cursor row \<le> t_change_seq db"
    and cap: "capture_work_unit_entity u k db = Inr d" "capture_work_unit_entity u k db' = Inr d'"
  shows "t_wu_head d' = t_wu_head d \<and> t_wu_base d' = t_wu_base d
    \<and> t_version d = t_version db \<and> t_version d' = t_version db' \<and> storage_ok d"
proof -
  note T = committed_db_tables[OF com]
  have ok': "storage_ok d" by (rule storage_ok_capture[OF cap(1) ok])
  have "t_wu_base d' = t_wu_base d"
    using capture_Ok[OF cap(1)] capture_Ok[OF cap(2)] row(1) baseline_committed[OF com row(2), of k]
    by (auto simp: T(9-12) captured_base_def)
  moreover have "t_wu_head d' = t_wu_head d" "t_version d = t_version db" "t_version d' = t_version db'"
    using capture_Ok[OF cap(1)] capture_Ok[OF cap(2)] by (auto simp: T(9-12))
  ultimately show ?thesis using ok' by simp
qed

text \<open>
  C12. Reads in a work unit are repeatable. A commit outside the unit, whatever entity it
  changes, does not change what the unit sees: capturing an entity (which always succeeds) and
  reading it in the unit gives the same heads and the same versions before and after the commit,
  whether or not the unit had read that entity before.
\<close>
theorem unit_reads_repeatable:
  assumes "storage_ok db" and "commit_entity_transaction E clk c db = (Inr Committed, db')"
    and "map_of (t_work_unit db) u = Some row" and "wur_baseline_cursor row \<le> t_change_seq db"
  shows "\<exists>d d'. capture_work_unit_entity u k db = Inr d \<and> capture_work_unit_entity u k db' = Inr d'
    \<and> map_option unit_contents (read_work_unit_snapshot u k d') =
        map_option unit_contents (read_work_unit_snapshot u k d)"
proof -
  have com: "committed_db c db db'" using commit_entity_transaction_Committed[OF assms(2)] by simp
  note T = committed_db_tables[OF com]
  obtain d where d: "capture_work_unit_entity u k db = Inr d" using capture_total[OF assms(1,3)] by blast
  obtain d' where d': "capture_work_unit_entity u k db' = Inr d'"
  proof -
    have wf: "tbl_wf (t_version db')"
      unfolding T(2) using committed_db_side(3,4)[OF com] storage_okD(1)[OF assms(1)]
      by (intro tbl_wf_fresh_append) auto
    have "\<exists>d'. capture_work_unit_entity u k db' = Inr d'"
      by (rule capture_total_weak[OF wf]) (use storage_okD(6,10)[OF assms(1)] assms(3) in \<open>auto simp: T(9-12)\<close>)
    then show ?thesis using that by blast
  qed
  note C = captured_committed[OF assms(1) com assms(3,4) d d']
  have "{((j, v), r) \<in> set (t_version d'). j = k \<and> (map_of (t_wu_base d) (u, k, v) \<noteq> None \<or> evr_work_unit_json r = Some u)}
      = {((j, v), r) \<in> set (t_version d). j = k \<and> (map_of (t_wu_base d) (u, k, v) \<noteq> None \<or> evr_work_unit_json r = Some u)}"
  proof -
    have "map_of (t_wu_base d) (u, ec_key c, sv_version v) = None" if "v \<in> set (ec_new_versions c)" for v
    proof (rule ccontr)
      assume "map_of (t_wu_base d) (u, ec_key c, sv_version v) \<noteq> None"
      then have "published_version d (ec_key c) (sv_version v)" using storage_okD(9) C by blast
      with committed_db_side(4)[OF com that] C show False by (simp add: published_version_def)
    qed
    then show ?thesis using C by (auto simp: T(2) published_row_def fresh_row_def)
  qed
  from unit_snapshot_cong[OF _ _ this] C d d' show ?thesis by blast
qed


section \<open>Concrete runs\<close>

definition sample_unit :: WorkUnit where
  "sample_unit =
     \<lparr>wu_identity_json = ''{u}'', wu_scope_json = ''{s}'', wu_policy_json = ''p'', wu_expiry_action = Discard,
      wu_now_unix_ms = 1, wu_expires_at_unix_ms = 100, wu_deadline_unix_ms = Some 10\<rparr>"

definition sample_unit_commit :: "bool \<Rightarrow> WorkUnitCommit" where
  "sample_unit_commit close =
     \<lparr>wc_work_unit = sample_unit, wc_entity = sample_commit ''a'' [''v1''] ''v3'',
      wc_conflict_policy_json = ''p'', wc_idempotency = Some sample_idempotency, wc_close = close\<rparr>"

definition staged_db :: sqlite_db where
  "staged_db = snd (commit_entity_in_work_unit sample_env (Some 5) (sample_unit_commit False) sample_db)"

lemma staged_db_ok: "storage_ok staged_db" "frontiers_ok staged_db" by code_simp+

lemma sample_db_storage: "storage_ok sample_db" by code_simp

lemma sample_unit_commit_wf: "commit_wf (wc_entity (sample_unit_commit b))"
  by (simp add: commit_wf_def sample_unit_commit_def sample_commit_def sample_version_def)

theorem staging_isolated_witness:
  "published_heads (sample_key ''a'') staged_db = published_heads (sample_key ''a'') sample_db
   \<and> direct_work_unit_heads ''{u}'' (sample_key ''a'') staged_db = [''v3'']"
proof -
  have "fst (commit_entity_in_work_unit sample_env (Some 5) (sample_unit_commit False) sample_db) = Inr WcStaged"
    by code_simp
  then have "commit_entity_in_work_unit sample_env (Some 5) (sample_unit_commit False) sample_db = (Inr WcStaged, staged_db)"
    by (simp add: staged_db_def prod_eq_iff)
  from staging_isolated[OF sample_db_storage sample_unit_commit_wf this]
  have "published_heads (sample_key ''a'') staged_db = published_heads (sample_key ''a'') sample_db" by simp
  moreover have "direct_work_unit_heads ''{u}'' (sample_key ''a'') staged_db = [''v3'']" by code_simp
  ultimately show ?thesis by simp
qed

theorem publication_atomic_witness:
  "let db' = snd (commit_entity_in_work_unit sample_env (Some 5) (sample_unit_commit True) sample_db)
   in staged_by ''{u}'' db' = []
      \<and> (\<exists>row. map_of (t_work_unit db') ''{u}'' = Some row \<and> wur_state row = DbCommitted)
      \<and> published_heads (sample_key ''a'') sample_db = unit_baseline sample_unit (sample_key ''a'') sample_db
      \<and> published_heads (sample_key ''a'') sample_db = [''v1'']
      \<and> published_heads (sample_key ''a'') db' = [''v3'']"
proof -
  let ?c = "sample_unit_commit True"
  let ?r = "commit_entity_in_work_unit sample_env (Some 5) ?c sample_db"
  have "fst ?r = Inr WcPublished" by code_simp
  then have run: "?r = (Inr WcPublished, snd ?r)" by (simp add: prod_eq_iff)
  have u: "wc_work_unit ?c = sample_unit" "wu_identity_json sample_unit = ''{u}''"
    by (simp_all add: sample_unit_commit_def sample_unit_def)
  note P = publication_atomic[OF sample_db_storage sample_unit_commit_wf run, unfolded u]
  have heads: "heads_to_publish ?c (sample_key ''a'') sample_db = [''v3'']"
    and before: "published_heads (sample_key ''a'') sample_db = [''v1'']" by code_simp+
  from P have "if heads_to_publish ?c (sample_key ''a'') sample_db \<noteq> []
          then published_heads (sample_key ''a'') sample_db = unit_baseline sample_unit (sample_key ''a'') sample_db
             \<and> published_heads (sample_key ''a'') (snd ?r) = heads_to_publish ?c (sample_key ''a'') sample_db
          else published_heads (sample_key ''a'') (snd ?r) = published_heads (sample_key ''a'') sample_db" by blast
  with heads before P show ?thesis unfolding Let_def by simp
qed

theorem expiry_discards_overdue_witness:
  "\<exists>db'. expire_open_work_units 200 staged_db = Inr db' \<and> same_published staged_db db'
     \<and> map_of (t_version db') (sample_key ''a'', ''v3'') = None"
proof -
  have "200 \<le> i64_max" by (simp add: i64_max_def)
  from expiry_discards_overdue[OF staged_db_ok(1) this] obtain db' where
    db': "expire_open_work_units 200 staged_db = Inr db'" "same_published staged_db db'"
    "map_of (t_version db') (sample_key ''a'', ''v3'') =
      (case map_of (t_version staged_db) (sample_key ''a'', ''v3'') of None \<Rightarrow> None
       | Some r \<Rightarrow> if (case evr_work_unit_json r of None \<Rightarrow> False | Some u \<Rightarrow> u \<in> set (expired_ids 200 staged_db))
                   then None else Some r)" by blast
  have "(case map_of (t_version staged_db) (sample_key ''a'', ''v3'') of None \<Rightarrow> None
       | Some r \<Rightarrow> if (case evr_work_unit_json r of None \<Rightarrow> False | Some u \<Rightarrow> u \<in> set (expired_ids 200 staged_db))
                   then None else Some r) = None" by code_simp
  with db' show ?thesis by auto
qed

theorem unit_reads_repeatable_witness:
  "\<exists>d d'. capture_work_unit_entity ''{u}'' (sample_key ''b'') staged_db = Inr d
     \<and> capture_work_unit_entity ''{u}'' (sample_key ''b'')
          (snd (commit_entity_transaction sample_env (Some 5) (sample_commit ''b'' [] ''v2'') staged_db)) = Inr d'
     \<and> map_option unit_contents (read_work_unit_snapshot ''{u}'' (sample_key ''b'') d') =
         map_option unit_contents (read_work_unit_snapshot ''{u}'' (sample_key ''b'') d)"
proof -
  let ?r = "commit_entity_transaction sample_env (Some 5) (sample_commit ''b'' [] ''v2'') staged_db"
  have "fst ?r = Inr Committed" by code_simp
  then have run: "?r = (Inr Committed, snd ?r)" by (simp add: prod_eq_iff)
  have "case map_of (t_work_unit staged_db) ''{u}'' of None \<Rightarrow> False
      | Some row \<Rightarrow> wur_baseline_cursor row \<le> t_change_seq staged_db" by code_simp
  then obtain row where "map_of (t_work_unit staged_db) ''{u}'' = Some row"
    "wur_baseline_cursor row \<le> t_change_seq staged_db" by (auto split: option.splits)
  from unit_reads_repeatable[OF staged_db_ok(1) run this] show ?thesis by blast
qed

end
