(* ===== verification/Json_Values.thy ===== *)
theory Json_Values
  imports Patchouli_Prelude Complex_Main
begin

text \<open>
  The JSON values the backend exchanges (the type \<open>serde_json::Value\<close> the sources match on) and
  \<open>BTreeMap\<close>, which the sources iterate in key order: a map is its list of entries in ascending
  key order.

  A JSON number is an unsigned integer, a negative integer or a double; a double is the rational
  number it denotes. Parsing, printing and JSON-pointer access belong to \<open>serde_json\<close> and enter
  the operations that use them as functions of a \<open>json_env\<close>.
\<close>

section \<open>Ordered maps\<close>

fun btree_insert :: "'k::linorder \<Rightarrow> 'v \<Rightarrow> ('k \<times> 'v) list \<Rightarrow> ('k \<times> 'v) list" where
  "btree_insert k v [] = [(k, v)]"
| "btree_insert k v ((k', v') # m) =
     (if k < k' then (k, v) # (k', v') # m
      else if k = k' then (k, v) # m
      else (k', v') # btree_insert k v m)"

definition btree_wf :: "('k::linorder \<times> 'v) list \<Rightarrow> bool" where
  "btree_wf m \<longleftrightarrow> sorted_wrt (<) (map fst m)"

definition btree_collect :: "('k::linorder \<times> 'v) list \<Rightarrow> ('k \<times> 'v) list" where
  "btree_collect kvs = fold (\<lambda>(k, v). btree_insert k v) kvs []"

text \<open>What a map promises its clients, and what they conclude from it: collecting entries keeps
  the last value of every key.\<close>

locale ordered_map =
  fixes empty :: 'm and insert :: "'k \<Rightarrow> 'v \<Rightarrow> 'm \<Rightarrow> 'm" and lookup :: "'m \<Rightarrow> 'k \<rightharpoonup> 'v"
    and invar :: "'m \<Rightarrow> bool"
  assumes invar_empty: "invar empty"
    and invar_insert: "invar m \<Longrightarrow> invar (insert k v m)"
    and lookup_empty: "lookup empty k = None"
    and lookup_insert: "invar m \<Longrightarrow> lookup (insert k v m) = (lookup m)(k \<mapsto> v)"
begin

lemma fold_insert:
  assumes "invar m"
  shows "invar (fold (\<lambda>(k, v). insert k v) kvs m)
    \<and> lookup (fold (\<lambda>(k, v). insert k v) kvs m) = lookup m ++ map_of (rev kvs)"
  using assms
proof (induction kvs arbitrary: m)
  case (Cons kv kvs)
  obtain k v where kv: "kv = (k, v)" by (cases kv)
  from Cons.IH[OF invar_insert[OF Cons.prems, of k v]] show ?case
    by (auto simp: kv lookup_insert[OF Cons.prems] fun_eq_iff map_add_def split: option.splits)
qed simp

lemma collect_lookup: "lookup (fold (\<lambda>(k, v). insert k v) kvs empty) = map_of (rev kvs)"
  using fold_insert[OF invar_empty] by (auto simp: lookup_empty map_add_def fun_eq_iff split: option.splits)

lemma collect_invar: "invar (fold (\<lambda>(k, v). insert k v) kvs empty)"
  using fold_insert[OF invar_empty] by simp

end

lemma btree_insert_keys: "fst ` set (btree_insert k v m) = insert k (fst ` set m)"
  by (induction k v m rule: btree_insert.induct) auto

lemma btree_insert_wf: "btree_wf m \<Longrightarrow> btree_wf (btree_insert k v m)"
proof (induction m)
  case (Cons e m)
  obtain k' v' where e: "e = (k', v')" by (cases e)
  from Cons.prems have m: "btree_wf m" "\<forall>x \<in> fst ` set m. k' < x" by (auto simp: btree_wf_def e)
  have "\<forall>x \<in> fst ` set (btree_insert k v m). k' < x" if "k' < k"
    using m(2) that by (simp add: btree_insert_keys)
  with Cons.IH[OF m(1)] m show ?case by (auto simp: btree_wf_def e)
qed (simp add: btree_wf_def)

lemma btree_wf_distinct: "btree_wf m \<Longrightarrow> distinct (map fst m)"
  by (auto simp: btree_wf_def strict_sorted_iff)

lemma map_of_btree_insert: "btree_wf m \<Longrightarrow> map_of (btree_insert k v m) = (map_of m)(k \<mapsto> v)"
proof (induction m)
  case (Cons e m)
  obtain k' v' where e: "e = (k', v')" by (cases e)
  with Cons show ?case by (auto simp: btree_wf_def fun_eq_iff)
qed simp

interpretation btree: ordered_map "[]" btree_insert map_of btree_wf
  by unfold_locales (simp_all add: btree_insert_wf map_of_btree_insert, simp add: btree_wf_def)

lemma btree_collect_wf [simp]: "btree_wf (btree_collect kvs)"
  unfolding btree_collect_def by (rule btree.collect_invar)

lemma map_of_btree_collect: "map_of (btree_collect kvs) = map_of (rev kvs)"
  unfolding btree_collect_def by (rule btree.collect_lookup)

lemma map_of_rev_distinct: "distinct (map fst kvs) \<Longrightarrow> map_of (rev kvs) = map_of kvs"
  by (rule map_of_eqI) (auto simp: rev_map[symmetric])

lemma btree_collect_distinct:
  "distinct (map fst kvs) \<Longrightarrow> map_of (btree_collect kvs) = map_of kvs"
  by (simp add: map_of_btree_collect map_of_rev_distinct)

lemma btree_wf_unique:
  assumes "btree_wf m" "btree_wf n" "map_of m = map_of n"
  shows "m = n"
proof -
  have "set (map fst m) = set (map fst n)"
    using assms(3) by (metis dom_map_of_conv_image_fst list.set_map)
  with assms(1,2) have keys: "map fst m = map fst n"
    by (simp add: btree_wf_def strict_sorted_equal)
  have "m ! i = n ! i" if "i < length m" for i
  proof -
    have len: "length n = length m" using keys by (metis length_map)
    have "map_of m (fst (m ! i)) = Some (snd (m ! i))" "map_of n (fst (n ! i)) = Some (snd (n ! i))"
      using that len btree_wf_distinct[OF assms(1)] btree_wf_distinct[OF assms(2)] by auto
    moreover have "fst (m ! i) = fst (n ! i)" using keys that len by (metis nth_map)
    ultimately show ?thesis using assms(3) by (simp add: prod_eq_iff)
  qed
  then show ?thesis using keys by (intro nth_equalityI) (metis length_map, simp)
qed

lemma btree_collect_id: "btree_wf m \<Longrightarrow> btree_collect m = m"
  by (intro btree_wf_unique) (simp_all add: btree_collect_distinct btree_wf_distinct)

section \<open>JSON values\<close>

datatype json_number = PosInt nat | NegInt int | Float rat

datatype Value =
    Null
  | Bool bool
  | Number json_number
  | String string
  | Array "Value list"
  | Object "(string \<times> Value) list"

text \<open>A value as the parser builds it: every object is an ordered map.\<close>

fun value_wf :: "Value \<Rightarrow> bool" where
  "value_wf (Array vs) = list_all value_wf vs"
| "value_wf (Object m) = (btree_wf m \<and> list_all (\<lambda>(k, v). value_wf v) m)"
| "value_wf v = True"

fun as_str :: "Value \<Rightarrow> string option" where
  "as_str (String s) = Some s"
| "as_str _ = None"

fun as_array :: "Value \<Rightarrow> Value list option" where
  "as_array (Array vs) = Some vs"
| "as_array _ = None"

fun as_object :: "Value \<Rightarrow> (string \<times> Value) list option" where
  "as_object (Object m) = Some m"
| "as_object _ = None"

fun as_u64 :: "Value \<Rightarrow> nat option" where
  "as_u64 (Number (PosInt n)) = Some n"
| "as_u64 _ = None"

fun number_as_i64 :: "json_number \<Rightarrow> int option" where
  "number_as_i64 (PosInt n) = (if n \<le> i64_max then Some (int n) else None)"
| "number_as_i64 (NegInt i) = Some i"
| "number_as_i64 (Float _) = None"

fun number_as_u64 :: "json_number \<Rightarrow> nat option" where
  "number_as_u64 (PosInt n) = Some n"
| "number_as_u64 _ = None"

text \<open>The \<open>serde_json\<close> functions the sources call: \<open>from_str\<close>, \<open>to_string\<close>,
  \<open>Value::pointer\<close>, assignment through \<open>Value::pointer_mut\<close>, and the conversion of an integer
  to the nearest double in \<open>Number::as_f64\<close>.\<close>

record json_env =
  from_str :: "string \<Rightarrow> Value option"
  to_string :: "Value \<Rightarrow> string"
  pointer :: "Value \<Rightarrow> string \<Rightarrow> Value option"
  set_pointer :: "Value \<Rightarrow> string \<Rightarrow> Value \<Rightarrow> Value"
  nearest_f64 :: "int \<Rightarrow> rat"

end
