(* ===== verification/Retrieval.thy ===== *)
theory Retrieval
  imports Sqlite_Work_Units Json_Values "HOL-Library.Multiset"
begin

text \<open>
  Entity retrieval in \<open>crates/provider-sqlite/src/lib.rs\<close>: the versions a query matches,
  outside (\<open>patchouli_entity_head\<close>) and inside a work unit (the \<open>visible_head\<close> query), the JSON
  filters, the ranking, the cursor and the pages.

  The full-text functions of SQLite are parameters: whether the trigram index matches a phrase in a
  stored text, the rank \<open>-bm25\<close> of a row, and \<open>instr(lower(..), lower(..)) > 0\<close>.
\<close>

section \<open>Definitions\<close>

record retrieval_env =
  rv_json :: json_env
  rv_fts_match :: "string \<Rightarrow> string \<Rightarrow> bool"
  rv_negated_bm25 :: "sqlite_db \<Rightarrow> string \<Rightarrow> EntityKey \<times> string \<Rightarrow> f64"
  rv_instr_lower :: "string \<Rightarrow> string \<Rightarrow> bool"
  rv_char_count :: "string \<Rightarrow> nat"
  rv_zero :: f64
  rv_one :: f64

record MatchedVersion =
  mv_entity_type :: string
  mv_entity_id :: string
  mv_value_json :: string
  mv_recorded_at_unix_ms :: nat
  mv_score :: f64

record RetrievalCandidate =
  ca_entity_type :: string
  ca_entity_id :: string
  ca_recorded_at_unix_ms :: nat
  ca_score :: f64

datatype Ordering = Less | OEqual | Greater

definition cmp :: "'a::linorder \<Rightarrow> 'a \<Rightarrow> Ordering" where
  "cmp a b = (if a < b then Less else if a = b then OEqual else Greater)"

fun then_with :: "Ordering \<Rightarrow> Ordering \<Rightarrow> Ordering" where
  "then_with OEqual second = second"
| "then_with first _ = first"

section \<open>Filters\<close>

definition number_as_f64 :: "json_env \<Rightarrow> json_number \<Rightarrow> rat" where
  "number_as_f64 J n = (case n of PosInt k \<Rightarrow> nearest_f64 J (int k) | NegInt i \<Rightarrow> nearest_f64 J i | Float r \<Rightarrow> r)"

fun compare_json :: "json_env \<Rightarrow> Value \<Rightarrow> Value \<Rightarrow> Ordering option" where
  "compare_json J (String l) (String r) = Some (cmp l r)"
| "compare_json J (Number l) (Number r) =
     (case (number_as_i64 l, number_as_i64 r) of
        (Some a, Some b) \<Rightarrow> Some (cmp a b)
      | _ \<Rightarrow>
          (case (number_as_u64 l, number_as_u64 r) of
             (Some a, Some b) \<Rightarrow> Some (cmp a b)
           | _ \<Rightarrow> Some (cmp (number_as_f64 J l) (number_as_f64 J r))))"
| "compare_json J _ _ = None"

definition string_contains :: "string \<Rightarrow> string \<Rightarrow> bool" where
  "string_contains s sub \<longleftrightarrow> (\<exists>i \<in> set [0 ..< length s + 1]. take (length sub) (drop i s) = sub)"

definition matches_filter :: "json_env \<Rightarrow> Value \<Rightarrow> RetrieveFilter \<Rightarrow> Value \<Rightarrow> bool" where
  "matches_filter J value f expected =
     (case pointer J value (rf_pointer f) of
        None \<Rightarrow> False
      | Some actual \<Rightarrow>
          (case rf_operator f of
             Equal \<Rightarrow> actual = expected
           | NotEqual \<Rightarrow> actual \<noteq> expected
           | LessThan \<Rightarrow> compare_json J actual expected = Some Less
           | LessThanOrEqual \<Rightarrow> compare_json J actual expected \<in> {Some Less, Some OEqual}
           | GreaterThan \<Rightarrow> compare_json J actual expected = Some Greater
           | GreaterThanOrEqual \<Rightarrow> compare_json J actual expected \<in> {Some Greater, Some OEqual}
           | Contains \<Rightarrow>
               (case (actual, expected) of
                  (Array values, _) \<Rightarrow> expected \<in> set values
                | (String s, String sub) \<Rightarrow> string_contains s sub
                | _ \<Rightarrow> False)))"

section \<open>Matching versions\<close>

text \<open>The heads a query sees: the published ones, or those visible in a work unit: the heads it has
  staged and, for every entity it has staged nothing for, the head versions recorded by the last
  history row at or before its baseline.\<close>

definition unit_staged :: "string \<Rightarrow> EntityKey \<Rightarrow> sqlite_db \<Rightarrow> bool" where
  "unit_staged unit key db \<longleftrightarrow> (\<exists>((u, k, _), _) \<in> set (t_wu_head db). u = unit \<and> k = key)"

definition last_history :: "EntityKey \<Rightarrow> nat \<Rightarrow> nat \<Rightarrow> sqlite_db \<Rightarrow> bool" where
  "last_history key cursor baseline db \<longleftrightarrow>
     cursor \<le> baseline
     \<and> (\<forall>((k, c), _) \<in> set (t_history db). k = key \<and> c \<le> baseline \<longrightarrow> c \<le> cursor)"

definition visible_heads :: "string option \<Rightarrow> string \<Rightarrow> sqlite_db \<Rightarrow> (EntityKey \<times> string) list" where
  "visible_heads work_unit scope db =
     (case work_unit of
        None \<Rightarrow> map fst (t_head db)
      | Some unit \<Rightarrow>
          map (\<lambda>((_, k, v), _). (k, v)) (filter (\<lambda>((u, _), _). u = unit) (t_wu_head db))
          @ (case map_of (t_work_unit db) unit of
               None \<Rightarrow> []
             | Some row \<Rightarrow>
                 concat (map (\<lambda>((k, _), heads). map (Pair k) heads)
                   (filter (\<lambda>((k, c), _). scope_json k = scope
                              \<and> last_history k c (wur_baseline_cursor row) db
                              \<and> \<not> unit_staged unit k db) (t_history db)))))"

definition text_matches :: "retrieval_env \<Rightarrow> string option \<Rightarrow> string \<Rightarrow> bool" where
  "text_matches V text value_json =
     (case text of
        None \<Rightarrow> True
      | Some t \<Rightarrow> if rv_char_count V t < 3 then rv_instr_lower V value_json t else rv_fts_match V t value_json)"

definition text_score :: "retrieval_env \<Rightarrow> sqlite_db \<Rightarrow> string option \<Rightarrow> EntityKey \<times> string \<Rightarrow> f64" where
  "text_score V db text kv =
     (case text of
        None \<Rightarrow> rv_zero V
      | Some t \<Rightarrow> if rv_char_count V t < 3 then rv_one V else rv_negated_bm25 V db t kv)"

definition selects_entity :: "RetrieveQuery \<Rightarrow> EntityKey \<Rightarrow> bool" where
  "selects_entity q key \<longleftrightarrow>
     scope_json key = rq_scope_json q
     \<and> (case rq_entity_types q of None \<Rightarrow> True | Some ts \<Rightarrow> entity_type key \<in> set ts)
     \<and> (case rq_entity_ids q of None \<Rightarrow> True | Some ids \<Rightarrow> entity_id key \<in> set ids)"

definition matched_version ::
  "retrieval_env \<Rightarrow> sqlite_db \<Rightarrow> RetrieveQuery \<Rightarrow> EntityKey \<times> string \<Rightarrow> entity_version_row \<Rightarrow> string
   \<Rightarrow> MatchedVersion" where
  "matched_version V db q kv row value_json =
     \<lparr>mv_entity_type = entity_type (fst kv), mv_entity_id = entity_id (fst kv), mv_value_json = value_json,
      mv_recorded_at_unix_ms = evr_recorded_at_unix_ms row, mv_score = text_score V db (rq_text q) kv\<rparr>"

text \<open>The join of the version rows with the visible heads: one result row for every occurrence of
  the version among the heads.\<close>

definition matched_rows ::
  "retrieval_env \<Rightarrow> sqlite_db \<Rightarrow> RetrieveQuery \<Rightarrow> (EntityKey \<times> string) list
   \<Rightarrow> (EntityKey \<times> string) \<times> entity_version_row \<Rightarrow> MatchedVersion list" where
  "matched_rows V db q heads = (\<lambda>(kv, row).
     (case evr_value_json row of
        Some value_json \<Rightarrow>
          if evr_state row = Active \<and> selects_entity q (fst kv) \<and> text_matches V (rq_text q) value_json
          then replicate (count_list heads kv) (matched_version V db q kv row value_json)
          else []
      | None \<Rightarrow> []))"

definition matching_versions ::
  "retrieval_env \<Rightarrow> RetrieveQuery \<Rightarrow> string option \<Rightarrow> sqlite_db \<Rightarrow> MatchedVersion list" where
  "matching_versions V q work_unit db =
     concat (map (matched_rows V db q (visible_heads work_unit (rq_scope_json q) db)) (t_version db))"

section \<open>Candidates, order and pages\<close>

type_synonym retrieval_key = "f64 \<times> nat \<times> string \<times> string"

fun compare_retrieval_keys :: "retrieval_key \<Rightarrow> retrieval_key \<Rightarrow> RetrieveOrder \<Rightarrow> Ordering" where
  "compare_retrieval_keys (ls, lr, lt, li) (rs, rr, rt, ri) Relevance =
     then_with (cmp rs ls) (then_with (cmp rr lr) (then_with (cmp lt rt) (cmp li ri)))"
| "compare_retrieval_keys (ls, lr, lt, li) (rs, rr, rt, ri) Newest =
     then_with (cmp rr lr) (then_with (cmp lt rt) (cmp li ri))"
| "compare_retrieval_keys (ls, lr, lt, li) (rs, rr, rt, ri) Oldest =
     then_with (cmp lr rr) (then_with (cmp lt rt) (cmp li ri))"
| "compare_retrieval_keys (ls, lr, lt, li) (rs, rr, rt, ri) IdAscending =
     then_with (cmp li ri) (cmp lt rt)"
| "compare_retrieval_keys (ls, lr, lt, li) (rs, rr, rt, ri) IdDescending =
     then_with (cmp ri li) (cmp rt lt)"

definition candidate_key :: "RetrievalCandidate \<Rightarrow> retrieval_key" where
  "candidate_key c = (ca_score c, ca_recorded_at_unix_ms c, ca_entity_type c, ca_entity_id c)"

definition cursor_key :: "RetrieveCursor \<Rightarrow> retrieval_key" where
  "cursor_key c = (rcu_score c, rcu_recorded_at_unix_ms c, rcu_entity_type c, rcu_entity_id c)"

definition compare_candidates :: "RetrievalCandidate \<Rightarrow> RetrievalCandidate \<Rightarrow> RetrieveOrder \<Rightarrow> Ordering" where
  "compare_candidates l r order = compare_retrieval_keys (candidate_key l) (candidate_key r) order"

definition compare_candidate_to_cursor ::
  "RetrievalCandidate \<Rightarrow> RetrieveCursor \<Rightarrow> RetrieveOrder \<Rightarrow> Ordering" where
  "compare_candidate_to_cursor c cursor order =
     compare_retrieval_keys (candidate_key c) (cursor_key cursor) order"

definition candidate_cursor :: "RetrievalCandidate \<Rightarrow> RetrieveOrder \<Rightarrow> string \<Rightarrow> RetrieveCursor" where
  "candidate_cursor c order fingerprint =
     \<lparr>rcu_order = order, rcu_query_fingerprint = fingerprint, rcu_score = ca_score c,
      rcu_recorded_at_unix_ms = ca_recorded_at_unix_ms c, rcu_entity_type = ca_entity_type c,
      rcu_entity_id = ca_entity_id c\<rparr>"

text \<open>\<open>sort_by\<close> is a stable comparison sort.\<close>

fun insort_by :: "('a \<Rightarrow> 'a \<Rightarrow> Ordering) \<Rightarrow> 'a \<Rightarrow> 'a list \<Rightarrow> 'a list" where
  "insort_by f x [] = [x]"
| "insort_by f x (y # ys) = (if f x y = Greater then y # insort_by f x ys else x # y # ys)"

definition sort_by :: "('a \<Rightarrow> 'a \<Rightarrow> Ordering) \<Rightarrow> 'a list \<Rightarrow> 'a list" where
  "sort_by f xs = foldr (insort_by f) xs []"

text \<open>\<open>candidates.entry(key).and_modify(..).or_insert(..)\<close> over the matches that pass the filters.\<close>

definition add_candidate ::
  "MatchedVersion \<Rightarrow> ((string \<times> string) \<times> RetrievalCandidate) list
   \<Rightarrow> ((string \<times> string) \<times> RetrievalCandidate) list" where
  "add_candidate m cs =
     (let key = (mv_entity_type m, mv_entity_id m)
      in btree_insert key
           (case map_of cs key of
              Some c \<Rightarrow> c\<lparr>ca_score := max (ca_score c) (mv_score m),
                         ca_recorded_at_unix_ms := max (ca_recorded_at_unix_ms c) (mv_recorded_at_unix_ms m)\<rparr>
            | None \<Rightarrow> \<lparr>ca_entity_type = mv_entity_type m, ca_entity_id = mv_entity_id m,
                       ca_recorded_at_unix_ms = mv_recorded_at_unix_ms m, ca_score = mv_score m\<rparr>) cs)"

definition parse_retrieval_filter :: "json_env \<Rightarrow> RetrieveFilter \<Rightarrow> (RetrieveFilter \<times> Value) presult" where
  "parse_retrieval_filter J f =
     bindR (ok_or (from_str J (rf_value_json f)) provider_error_new) (\<lambda>v. Ok (f, v))"

definition filter_match ::
  "json_env \<Rightarrow> (RetrieveFilter \<times> Value) list \<Rightarrow> MatchedVersion
   \<Rightarrow> ((string \<times> string) \<times> RetrievalCandidate) list
   \<Rightarrow> ((string \<times> string) \<times> RetrievalCandidate) list presult" where
  "filter_match J filters m cs =
     bindR (ok_or (from_str J (mv_value_json m)) provider_error_new) (\<lambda>value.
       if list_all (\<lambda>(f, expected). matches_filter J value f expected) filters
       then Ok (add_candidate m cs) else Ok cs)"

text \<open>The page of a query. With a limit of zero and a candidate left the source panics on the
  missing last candidate; that is an error here (the engine only asks for 1 to 100).\<close>

definition page_of_candidates ::
  "RetrieveQuery \<Rightarrow> RetrievalCandidate list \<Rightarrow> (RetrievalCandidate list \<times> RetrieveCursor option) presult" where
  "page_of_candidates q candidates =
     (let candidates = sort_by (\<lambda>l r. compare_candidates l r (rq_order q)) candidates;
          candidates =
            (case rq_after q of
               None \<Rightarrow> candidates
             | Some cursor \<Rightarrow>
                 filter (\<lambda>c. compare_candidate_to_cursor c cursor (rq_order q) = Greater) candidates);
          has_more = rq_limit q < length candidates;
          candidates = take (rq_limit q) candidates
      in if \<not> has_more then Ok (candidates, None)
         else if candidates = [] then Err provider_error_new
         else Ok (candidates, Some (candidate_cursor (last candidates) (rq_order q) (rq_fingerprint q))))"

definition all_candidates ::
  "retrieval_env \<Rightarrow> RetrieveQuery \<Rightarrow> string option \<Rightarrow> sqlite_db \<Rightarrow> RetrievalCandidate list presult" where
  "all_candidates V q work_unit db =
     bindR (mapR (parse_retrieval_filter (rv_json V)) (rq_filters q)) (\<lambda>filters.
     bindR (foldR (filter_match (rv_json V) filters) (matching_versions V q work_unit db) []) (\<lambda>cs.
       Ok (map snd cs)))"

definition retrieve_candidates ::
  "retrieval_env \<Rightarrow> RetrieveQuery \<Rightarrow> string option \<Rightarrow> sqlite_db
   \<Rightarrow> (RetrievalCandidate list \<times> RetrieveCursor option) presult" where
  "retrieve_candidates V q work_unit db =
     bindR (all_candidates V q work_unit db) (page_of_candidates q)"

definition candidate_entity :: "RetrieveQuery \<Rightarrow> RetrievalCandidate \<Rightarrow> EntityKey" where
  "candidate_entity q c =
     \<lparr>scope_json = rq_scope_json q, entity_type = ca_entity_type c, entity_id = ca_entity_id c\<rparr>"

definition retrieved_entity :: "EntityKey \<Rightarrow> EntitySnapshot \<Rightarrow> RetrievalCandidate \<Rightarrow> RetrievedEntity" where
  "retrieved_entity key snapshot c =
     \<lparr>re_key = key, re_snapshot = snapshot, re_score = ca_score c,
      re_recorded_at_unix_ms = ca_recorded_at_unix_ms c\<rparr>"

definition retrieve_entities ::
  "retrieval_env \<Rightarrow> RetrieveQuery \<Rightarrow> sqlite_db \<Rightarrow> RetrievedPage presult" where
  "retrieve_entities V q db =
     bindR (retrieve_candidates V q None db) (\<lambda>(candidates, next_cursor).
       Ok \<lparr>rp_entities = List.map_filter (\<lambda>c. map_option (\<lambda>sn. retrieved_entity (candidate_entity q c) sn c)
              (read_entity_snapshot (candidate_entity q c) db)) candidates,
           rp_next_cursor = next_cursor\<rparr>)"

definition retrieve_entities_consistent ::
  "sqlite_env \<Rightarrow> retrieval_env \<Rightarrow> clock \<Rightarrow> clock \<Rightarrow> RetrieveQuery \<Rightarrow> ReadConsistency \<Rightarrow> sqlite_db
   \<Rightarrow> RetrievedPage ConsistentRead db_step" where
  "retrieve_entities_consistent E V clk clk' q consistency db =
     (case consistency_observation clk (rq_scope_json q) consistency
             (current_scope_cursor (rq_scope_json q) db) True db of
        Inl e \<Rightarrow> (Err e, db)
      | Inr None \<Rightarrow> (Ok ReadUnavailable, db)
      | Inr (Some observation) \<Rightarrow>
          finish_tx clk' (rc_deadline_unix_ms consistency) db
            (bindR (retrieve_entities V q db) (\<lambda>page.
             bindR (advance_read_sessions E (rq_scope_json q) consistency (ob_frontier observation) db) (\<lambda>db'.
               Ok (Read page observation, db')))))"

fun retrieve_unit_entities ::
  "string \<Rightarrow> RetrieveQuery \<Rightarrow> RetrievalCandidate list \<Rightarrow> sqlite_db \<Rightarrow> (RetrievedEntity list \<times> sqlite_db) presult" where
  "retrieve_unit_entities unit q [] db = Ok ([], db)"
| "retrieve_unit_entities unit q (c # cs) db =
     bindR (capture_work_unit_entity unit (candidate_entity q c) db) (\<lambda>db.
     bindR (retrieve_unit_entities unit q cs db) (\<lambda>(entities, db').
       Ok (case read_work_unit_snapshot unit (candidate_entity q c) db of
             None \<Rightarrow> entities
           | Some sn \<Rightarrow> retrieved_entity (candidate_entity q c) sn c # entities, db')))"

definition retrieve_entities_in_work_unit ::
  "sqlite_env \<Rightarrow> retrieval_env \<Rightarrow> clock \<Rightarrow> clock \<Rightarrow> WorkUnit \<Rightarrow> RetrieveQuery \<Rightarrow> ReadConsistency \<Rightarrow> sqlite_db
   \<Rightarrow> WorkUnitRetrieveOutcome db_step" where
  "retrieve_entities_in_work_unit E V clk clk' wu q consistency db =
     (let existed = work_unit_exists (wu_identity_json wu) db; unit = wu_identity_json wu
      in case ensure_work_unit E wu db of
           Inl e \<Rightarrow> (Err e, db)
         | Inr (SwPolicyMismatch, db1) \<Rightarrow> finish_tx clk' (wu_deadline_unix_ms wu) db (Ok (WtPolicyMismatch, db1))
         | Inr (SwCommitted, db1) \<Rightarrow> finish_tx clk' (wu_deadline_unix_ms wu) db (Ok (WtCommitted, db1))
         | Inr (SwExpired, db1) \<Rightarrow> finish_tx clk' (wu_deadline_unix_ms wu) db (Ok (WtExpired, db1))
         | Inr (SwClosing, db1) \<Rightarrow> finish_tx clk' (wu_deadline_unix_ms wu) db (Ok (WtClosing, db1))
         | Inr (SwOpen, db1) \<Rightarrow>
             (case bindR (work_unit_baseline unit db1) (\<lambda>baseline.
                   bindR (consistency_observation clk (wu_scope_json wu) consistency baseline
                            (\<not> existed) db1) (\<lambda>ob. Ok (baseline, ob))) of
                Inl e \<Rightarrow> (Err e, db)
              | Inr (_, None) \<Rightarrow> (Ok (WtOpen ReadUnavailable), db)
              | Inr (baseline, Some observation) \<Rightarrow>
                  finish_tx clk' (wu_deadline_unix_ms wu) db
                    (bindR (retrieve_candidates V q (Some unit) db1) (\<lambda>(candidates, next_cursor).
                     bindR (retrieve_unit_entities unit q candidates db1) (\<lambda>(entities, db2).
                     bindR (advance_read_sessions E (wu_scope_json wu) consistency baseline db2) (\<lambda>db3.
                       Ok (WtOpen (Read \<lparr>rp_entities = entities, rp_next_cursor = next_cursor\<rparr> observation),
                           db3)))))))"

section \<open>Comparison functions\<close>

text \<open>The contract of a function passed to \<open>sort_by\<close>: a total preorder, seen through an
  \<open>Ordering\<close>.\<close>

locale comparison =
  fixes f :: "'a \<Rightarrow> 'a \<Rightarrow> Ordering"
  assumes flip: "f y x = Greater \<longleftrightarrow> f x y = Less"
    and trans: "f x y \<noteq> Greater \<Longrightarrow> f y z \<noteq> Greater \<Longrightarrow> f x z \<noteq> Greater"
begin

lemma total: "f x y = Greater \<Longrightarrow> f y x \<noteq> Greater"
  using flip by (metis Ordering.distinct(3))

lemma greater_le_trans: "f x y = Greater \<Longrightarrow> f z y \<noteq> Greater \<Longrightarrow> f x z = Greater"
  using trans total by blast

lemma le_greater_trans: "f y x \<noteq> Greater \<Longrightarrow> f y z = Greater \<Longrightarrow> f x z = Greater"
  using trans by blast

lemma set_insort_by: "set (insort_by f x ys) = insert x (set ys)"
  by (induction ys) auto

lemma mset_insort_by: "mset (insort_by f x ys) = add_mset x (mset ys)"
  by (induction ys) auto

lemma sorted_insort_by:
  "sorted_wrt (\<lambda>a b. f a b \<noteq> Greater) ys \<Longrightarrow> sorted_wrt (\<lambda>a b. f a b \<noteq> Greater) (insort_by f x ys)"
proof (induction ys)
  case (Cons y ys)
  have "f y z \<noteq> Greater" if "f x y = Greater" "z \<in> set (insort_by f x ys)" for z
    using that Cons.prems total[of x y] by (auto simp: set_insort_by)
  moreover have "f x z \<noteq> Greater" if "f x y \<noteq> Greater" "z \<in> set (y # ys)" for z
    using that Cons.prems trans[of x y z] by auto
  ultimately show ?case using Cons by simp
qed simp

lemma mset_sort_by: "mset (sort_by f xs) = mset xs"
  unfolding sort_by_def by (induction xs) (simp_all add: mset_insort_by)

lemma set_sort_by [simp]: "set (sort_by f xs) = set xs"
  using mset_sort_by[of xs] by (metis set_mset_mset)

lemma sorted_sort_by: "sorted_wrt (\<lambda>a b. f a b \<noteq> Greater) (sort_by f xs)"
  unfolding sort_by_def by (induction xs) (simp_all add: sorted_insort_by)

text \<open>In a sorted list without ties, what lies after the last element of a prefix is what
  follows that prefix.\<close>

lemma filter_after_last:
  assumes "sorted_wrt (\<lambda>a b. f b a = Greater) (xs @ ys)" and "xs \<noteq> []"
  shows "filter (\<lambda>c. f c (last xs) = Greater) (xs @ ys) = ys"
proof -
  have "f x (last xs) \<noteq> Greater" if "x \<in> set xs" for x
  proof -
    from assms(2) have split: "xs = butlast xs @ [last xs]" by simp
    from assms(1) have "sorted_wrt (\<lambda>a b. f b a = Greater) (butlast xs @ [last xs])"
      using split by (simp add: sorted_wrt_append)
    then have "\<forall>x \<in> set (butlast xs). f (last xs) x = Greater" by (simp add: sorted_wrt_append)
    moreover have "x \<in> set (butlast xs) \<or> x = last xs" using that split
      by (metis Un_iff empty_iff insert_iff list.set(1) list.set(2) set_append)
    ultimately show ?thesis using total by blast
  qed
  moreover have "f y (last xs) = Greater" if "y \<in> set ys" for y
    using assms that by (auto simp: sorted_wrt_append)
  ultimately show ?thesis by (simp add: filter_empty_conv filter_id_conv)
qed

end

lemma comparison_cmp: "comparison (\<lambda>x y. cmp (h x) (h y))"
  by unfold_locales (auto simp: cmp_def split: if_splits)

lemma comparison_reverse: "comparison (\<lambda>x y. cmp (h y) (h x))"
  by unfold_locales (auto simp: cmp_def split: if_splits)

lemma then_with_Greater: "then_with a b = Greater \<longleftrightarrow> a = Greater \<or> (a = OEqual \<and> b = Greater)"
  and then_with_Less: "then_with a b = Less \<longleftrightarrow> a = Less \<or> (a = OEqual \<and> b = Less)"
  by (cases a; simp)+

lemma comparison_then:
  assumes "comparison f" "comparison g"
  shows "comparison (\<lambda>x y. then_with (f x y) (g x y))"
proof
  fix x y z
  note F = comparison.flip[OF assms(1)] comparison.flip[OF assms(2)]
  show "then_with (f y x) (g y x) = Greater \<longleftrightarrow> then_with (f x y) (g x y) = Less"
    using F[of y x] F[of x y] by (cases "f x y"; cases "f y x") (auto simp: then_with_Greater then_with_Less)
  assume "then_with (f x y) (g x y) \<noteq> Greater" "then_with (f y z) (g y z) \<noteq> Greater"
  moreover have "f x z = OEqual \<Longrightarrow> f x y \<noteq> Greater \<Longrightarrow> f y z \<noteq> Greater \<Longrightarrow> f x y = OEqual \<and> f y z = OEqual"
    by (metis F(1) Ordering.distinct(3) Ordering.exhaust comparison.trans[OF assms(1)])
  ultimately show "then_with (f x z) (g x z) \<noteq> Greater"
    using comparison.trans[OF assms(1), of x y z] comparison.trans[OF assms(2), of x y z]
    by (auto simp: then_with_Greater)
qed

lemma comparison_candidates: "comparison (\<lambda>l r. compare_candidates l r order)"
  unfolding compare_candidates_def candidate_key_def
  by (cases order) (auto intro!: comparison_then comparison_cmp comparison_reverse)

end
