(* ===== verification/Statement_Frames.thy ===== *)
theory Statement_Frames
  imports Work_Unit_Isolation Retrieval
begin

text \<open>
  A contract for the single statements the provider runs on its tables, and what follows from it for
  every transaction. A relation that is reflexive and transitive and contains every statement
  but the pruning of the change log (\<open>writing_frame\<close>) contains every transaction that does not read
  changes; one that contains pruning too (\<open>statement_frame\<close>) contains every transaction. The locales
  are interpreted by the life cycle of work units (\<open>progress\<close>), the session, causal and scope frontiers
  (\<open>frontier\<close>), the idempotency records (\<open>records\<close>), the change log (\<open>change_log\<close>), what it
  keeps or reports as pruned (\<open>kept\<close>) and what is appended to it (\<open>appends\<close>).
\<close>


section \<open>The contract of the statements\<close>

text \<open>A unit row written by a legitimate observer: the frontier a read may advance sessions to is the
  current one of the scope, or the baseline of a unit of that scope.\<close>

definition observable_frontier :: "string \<Rightarrow> nat \<Rightarrow> sqlite_db \<Rightarrow> bool" where
  "observable_frontier scope f db \<longleftrightarrow>
     f = current_scope_cursor scope db
     \<or> (\<exists>u row. map_of (t_work_unit db) u = Some row \<and> wur_scope_json row = scope
               \<and> f = wur_baseline_cursor row)"

locale writing_frame =
  fixes E :: sqlite_env and R :: "sqlite_db \<Rightarrow> sqlite_db \<Rightarrow> bool"
  assumes refl: "R db db"
    and trans: "R a b \<Longrightarrow> R b c \<Longrightarrow> R a c"
    and versions: "insert_entity_versions E key vs owner t db = Inr db' \<Longrightarrow> R db db'"
    and heads: "replace_published_heads key hs db = Inr db' \<Longrightarrow> R db db'"
    and log: "insert_change E key kind hs tok meta t db = Inr (cursor, d) \<Longrightarrow>
      advance_write_sessions E (scope_json key) keys cursor d = Inr db' \<Longrightarrow> R db db'"
    and published: "R db (db\<lparr>t_version := tv\<rparr>)"
    and expired_records: "delete_expired_idempotency now db = Inr db' \<Longrightarrow> R db db'"
    and record_stored: "insert_idempotency E r db = Inr db' \<Longrightarrow>
      map_of (t_wu_idempotency db) (ir_identity_json r) = None \<Longrightarrow> R db db'"
    and record_staged: "store_work_unit_idempotency E u r now db = Inr (out, db') \<Longrightarrow> R db db'"
    and records_promoted: "promote_idempotency u t db = Inr db' \<Longrightarrow> R db db'"
    and unit_opened: "map_of (t_work_unit db) (wu_identity_json wu) = None \<Longrightarrow> now < expires \<Longrightarrow>
      R db (db\<lparr>t_work_unit := t_work_unit db @ [(wu_identity_json wu, open_work_unit_row wu now expires db)]\<rparr>)"
    and unit_expired: "expire_work_unit u now db = Inr db' \<Longrightarrow> R db db'"
    and unit_closing: "R db (close_work_unit u db)"
    and unit_committed: "unit_active u db \<Longrightarrow>
      R db (db\<lparr>t_work_unit := tbl_update (\<lambda>k _. k = u)
             (\<lambda>r. r\<lparr>wur_state := DbCommitted, wur_closed_at_unix_ms := Some t\<rparr>) (t_work_unit db)\<rparr>)"
    and captured: "R db (db\<lparr>t_wu_entity := te, t_wu_base := tb\<rparr>)"
    and unit_heads: "replace_work_unit_heads u key hs db = Inr db' \<Longrightarrow> R db db'"
    and sessions_read: "advance_read_sessions E scope rc f db = Inr db' \<Longrightarrow>
      observable_frontier scope f db \<Longrightarrow> R db db'"
begin

lemma commit:
  assumes "commit_entity_in_transaction E c db = Inr (out, db')" shows "R db db'"
proof (cases out)
  case (Conflict hs)
  with assms show ?thesis
    by (auto simp: commit_entity_in_transaction_def Let_def bindR_eq_Inr refl split: if_splits)
next
  case Committed
  let ?t = "ec_recorded_at_unix_ms c"
  from assms Committed obtain d1 d2 d3 d4 cursor where d:
    "insert_entity_versions E (ec_key c) (ec_new_versions c) None ?t db = Inr d1"
    "replace_published_heads (ec_key c) (ec_head_versions c) d1 = Inr d2"
    "insert_change E (ec_key c) (ec_change_kind c) (ec_head_versions c) (ec_causal_token c)
       (ec_event_meta_json c) ?t d2 = Inr (cursor, d3)"
    "advance_write_sessions E (scope_json (ec_key c)) (ec_write_session_keys c) cursor d3 = Inr d4"
    "db' = publish_entity_versions (ec_key c) (ec_new_versions c) cursor d4"
    by (auto simp: commit_entity_in_transaction_def Let_def bindR_eq_Inr sqlite_time_def split: if_splits)
  have "R d4 db'" unfolding d(5) publish_entity_versions_eq by (rule published)
  with versions[OF d(1)] heads[OF d(2)] log[OF d(3,4)] show ?thesis by (blast intro: trans)
qed

lemma commit_transaction:
  "commit_entity_transaction E clk c db = (r, db') \<Longrightarrow> R db db'"
  by (auto simp: commit_entity_transaction_def finish_tx_def refl dest: commit
      split: if_splits sum.splits prod.splits EntityCommitOutcome.splits)

lemma commit_idempotent:
  assumes "commit_entity_idempotent E clk c idem now db = (r, db')" shows "R db db'"
proof (cases "r = Inr ICommitted")
  case False
  with assms show ?thesis
    by (auto simp: commit_entity_idempotent_def finish_tx_def bindR_def refl
        split: if_splits sum.splits prod.splits option.splits EntityCommitOutcome.splits)
next
  case True
  from assms True obtain db1 db2 where d: "delete_expired_idempotency now db = Inr db1"
    "map_of (t_wu_idempotency db1) (ir_identity_json idem) = None"
    "commit_entity_in_transaction E c db1 = Inr (Committed, db2)" "insert_idempotency E idem db2 = Inr db'"
    by (auto simp: commit_entity_idempotent_def finish_tx_Ok bindR_eq_Inr
        split: sum.splits option.splits if_splits EntityCommitOutcome.splits prod.splits)
  have "t_wu_idempotency db2 = t_wu_idempotency db1"
    using commit_entity_in_transaction_Committed[OF d(3)] committed_db_tables(15) by blast
  with d(2) have "R db2 db'" by (intro record_stored[OF d(4)]) simp
  with expired_records[OF d(1)] commit[OF d(3)] show ?thesis by (blast intro: trans)
qed

lemma read:
  assumes "read_entity_consistent E clk clk' key rc db = (r, db')" shows "R db db'"
proof -
  have "R db d" if "advance_read_sessions E (scope_json key) rc (current_scope_cursor (scope_json key) db) db = Inr d" for d
    by (rule sessions_read[OF that]) (simp add: observable_frontier_def)
  with assms show ?thesis
    by (auto simp: read_entity_consistent_def Let_def finish_tx_def bindR_def refl consistency_observation_Some
        split: if_splits sum.splits prod.splits option.splits)
qed

lemma read_idempotency_keeps:
  "read_idempotency i q now db = Inr (out, db') \<Longrightarrow> R db db' \<and> (\<forall>s. current_scope_cursor s db' = current_scope_cursor s db)"
  by (auto simp: read_idempotency_def Let_def bindR_eq_Inr split: if_splits dest: expired_records)
     (auto simp: delete_expired_idempotency_Ok current_scope_cursor_def)

lemma read_idempotent:
  assumes "read_idempotency_consistent E clk clk' scope rc i q now db = (r, db')" shows "R db db'"
proof -
  let ?f = "current_scope_cursor scope db"
  have "R db d2" if "read_idempotency i q now db = Inr (out, d)" "advance_read_sessions E scope rc ?f d = Inr d2" for out d d2
  proof -
    note K = read_idempotency_keeps[OF that(1)]
    have "R d d2" by (rule sessions_read[OF that(2)]) (use K in \<open>simp add: observable_frontier_def\<close>)
    with K show ?thesis by (blast intro: trans)
  qed
  with assms show ?thesis
    by (auto simp: read_idempotency_consistent_def finish_tx_def bindR_def refl consistency_observation_Some
        split: if_splits sum.splits prod.splits option.splits)
qed

lemma sweep: "expire_open_work_units now db = Inr db' \<Longrightarrow> R db db'"
proof -
  assume "expire_open_work_units now db = Inr db'"
  then obtain units where "foldR (\<lambda>u. expire_work_unit u now) units db = Inr db'"
    using expire_open_work_units_Ok by blast
  then show ?thesis by (rule foldR_relates) (auto intro: refl trans unit_expired)
qed

lemma sweep_transaction: "sweep_expired_work_units clk db = (r, db') \<Longrightarrow> R db db'"
  by (auto simp: sweep_expired_work_units_def finish_tx_def bindR_def refl dest: sweep
      split: sum.splits prod.splits)

lemma ensure: "ensure_work_unit E wu db = Inr (st, db') \<Longrightarrow> R db db'"
  by (drule ensure_work_unit_cases) (auto intro: refl unit_opened unit_expired)

lemma capture: "capture_work_unit_entity u key db = Inr db' \<Longrightarrow> R db db'"
  by (drule capture_Ok, elim disjE exE conjE) (simp_all add: refl captured)

lemma stage: "stage_work_unit_entity E c db = Inr db' \<Longrightarrow> R db db'"
proof -
  assume "stage_work_unit_entity E c db = Inr db'"
  from stage_Ok[OF this] obtain d te where
    d: "capture_work_unit_entity (wu_identity_json (wc_work_unit c)) (ec_key (wc_entity c)) db = Inr d"
    "db' = d\<lparr>t_wu_entity := te\<rparr>" by blast
  have "d\<lparr>t_wu_entity := te\<rparr> = d\<lparr>t_wu_entity := te, t_wu_base := t_wu_base d\<rparr>" by simp
  then have "R d db'" using captured[where db = d and te = te and tb = "t_wu_base d"] d(2) by simp
  with capture[OF d(1)] show ?thesis by (rule trans)
qed

lemma publish_entity: "publish_work_unit_entity E u t key db = Inr db' \<Longrightarrow> R db db'"
proof -
  assume "publish_work_unit_entity E u t key db = Inr db'"
  then obtain d1 d2 d3 kind tok meta keys cursor where d:
    "replace_published_heads key (direct_work_unit_heads u key db) db = Inr d1"
    "insert_change E key kind (direct_work_unit_heads u key db) tok meta t d1 = Inr (cursor, d2)"
    "advance_write_sessions E (scope_json key) keys cursor d2 = Inr d3"
    "db' = publish_work_unit_versions u key cursor d3"
    by (auto simp: publish_work_unit_entity_def Let_def bindR_eq_Inr)
  have "R d3 db'" unfolding d(4) publish_work_unit_versions_def by (rule published)
  with heads[OF d(1)] log[OF d(2,3)] show ?thesis by (blast intro: trans)
qed

lemma finish:
  assumes "finish_work_unit_publication E u t db = Inr db'" and act: "unit_active u db" shows "R db db'"
proof -
  from assms(1) obtain d1 d2 where d:
    "foldR (publish_work_unit_entity E u t) (work_unit_mutated_entities u db) db = Inr d1"
    "promote_idempotency u t d1 = Inr d2"
    "db' = d2\<lparr>t_work_unit := tbl_update (\<lambda>k _. k = u)
       (\<lambda>r. r\<lparr>wur_state := DbCommitted, wur_closed_at_unix_ms := Some t\<rparr>) (t_work_unit d2)\<rparr>"
    by (auto simp: finish_work_unit_publication_def bindR_eq_Inr)
  have "R db d1" by (rule foldR_relates[OF d(1)]) (auto intro: refl trans publish_entity)
  moreover have "unit_active u d2"
    using act publish_entities_frame[OF d(1)] promote_idempotency_only[OF d(2)]
    by (auto simp: unit_active_def)
  then have "R d2 db'" unfolding d(3) by (rule unit_committed)
  ultimately show ?thesis using records_promoted[OF d(2)] by (blast intro: trans)
qed

lemma unit_active_stage:
  "stage_work_unit_entity E c db = Inr d \<Longrightarrow> unit_active u d = unit_active u db"
  using stage_Ok[of E c db d] capture_Ok[of "wu_identity_json (wc_work_unit c)" "ec_key (wc_entity c)" db]
  by (auto simp: unit_active_def)

lemma unit_active_close: "unit_active u db \<Longrightarrow> unit_active u (close_work_unit v db)"
  by (auto simp: unit_active_def close_work_unit_def map_of_tbl_update split: option.splits)

lemma close:
  assumes "close_and_publish E c t db = Inr (out, db')" and act: "unit_active (wu_identity_json (wc_work_unit c)) db"
  shows "R db db'"
proof -
  let ?u = "wu_identity_json (wc_work_unit c)"
  have "R db d" if "finish_work_unit_publication E ?u t (close_work_unit ?u db) = Inr d" for d
    using unit_closing finish[OF that unit_active_close[OF act]] by (rule trans)
  with assms(1) show ?thesis
    by (auto simp: close_and_publish_def Let_def bindR_eq_Inr refl unit_closing split: if_splits)
qed

lemma store_staged:
  assumes "store_staged_idempotency E c db = Inr (Inr db')" shows "R db db'"
proof (cases "wc_idempotency c")
  case None
  with assms show ?thesis by (simp add: store_staged_idempotency_def refl)
next
  case (Some idem)
  with assms obtain out d where store: "store_work_unit_idempotency E (wu_identity_json (wc_work_unit c))
      idem (wu_now_unix_ms (wc_work_unit c)) db = Inr (out, d)"
    by (auto simp: store_staged_idempotency_def bindR_eq_Inr)
  with assms Some have "d = db'"
    by (cases out) (auto simp: store_staged_idempotency_def split: if_splits)
  with store show ?thesis by (auto dest: record_staged)
qed

lemma commit_open:
  assumes "commit_in_open_work_unit E c db = Inr (Inr (out, db'))"
    and act: "unit_active (wu_identity_json (wc_work_unit c)) db"
  shows "R db db'"
proof -
  let ?u = "wu_identity_json (wc_work_unit c)" let ?e = "wc_entity c"
  from assms(1) obtain d1 d2 d3 stored where
    1: "stage_work_unit_entity E c db = Inr d1"
    and 2: "insert_entity_versions E (ec_key ?e) (ec_new_versions ?e) (Some ?u) (ec_recorded_at_unix_ms ?e) d1 = Inr d2"
    and 3: "replace_work_unit_heads ?u (ec_key ?e) (ec_head_versions ?e) d2 = Inr d3"
    and s: "store_staged_idempotency E c d3 = Inr stored"
    and r: "(case stored of Inl outcome \<Rightarrow> Inr (Inl outcome)
       | Inr d4 \<Rightarrow> bindR (close_and_publish E c (ec_recorded_at_unix_ms ?e) d4) (\<lambda>answer. Inr (Inr answer)))
       = Inr (Inr (out, db'))"
    by (auto simp: commit_in_open_work_unit_def Let_def bindR_eq_Inr sqlite_time_def split: if_splits)
  from s r obtain d4 where 4: "store_staged_idempotency E c d3 = Inr (Inr d4)"
    and 5: "close_and_publish E c (ec_recorded_at_unix_ms ?e) d4 = Inr (out, db')"
    by (cases stored) (auto simp: bindR_eq_Inr)
  have "t_work_unit d4 = t_work_unit d1"
    using insert_entity_versions_Ok[OF 2] replace_work_unit_heads_Ok[OF 3] store_staged_idempotency_only[OF 4]
    by (auto simp: crdt_grows_def)
  then have "unit_active ?u d4" using act unit_active_stage[OF 1] by (simp add: unit_active_def)
  from close[OF 5 this] stage[OF 1] versions[OF 2] unit_heads[OF 3] store_staged[OF 4] show ?thesis
    by (blast intro: trans)
qed

lemma commit_in_unit:
  assumes run: "commit_entity_in_work_unit E clk c db = (r, db')" shows "R db db'"
proof (cases r)
  case (Inl e)
  with run commit_in_work_unit_Err refl show ?thesis by metis
next
  case (Inr out)
  note run = run[unfolded Inr]
  from run obtain st d where ens: "ensure_work_unit E (wc_work_unit c) db = Inr (st, d)"
    by (auto simp: commit_entity_in_work_unit_def Let_def split: if_splits sum.splits)
  note R1 = ensure[OF ens]
  show ?thesis
  proof (cases st)
    case SwOpen
    then have act: "unit_active (wu_identity_json (wc_work_unit c)) d" using ensure_work_unit_active[OF ens] by simp
    from run ens SwOpen consider "db' = db" | "commit_in_open_work_unit E c d = Inr (Inr (out, db'))"
      by (auto simp: commit_entity_in_work_unit_def Let_def finish_tx_Ok split: if_splits sum.splits)
    then show ?thesis using commit_open[OF _ act] R1 by cases (auto intro: refl trans)
  next
    case SwClosing
    then have act: "unit_active (wu_identity_json (wc_work_unit c)) d" using ensure_work_unit_active[OF ens] by simp
    from run ens SwClosing have "commit_in_closing_work_unit E c d = Inr (out, db')"
      by (auto simp: commit_entity_in_work_unit_def Let_def finish_tx_Ok split: if_splits)
    then have "R d db'"
      by (auto simp: commit_in_closing_work_unit_def Let_def bindR_eq_Inr sqlite_time_def refl
          intro: finish[OF _ act] split: if_splits)
    with R1 show ?thesis by (rule trans)
  qed (use run ens R1 in \<open>auto simp: commit_entity_in_work_unit_def Let_def finish_tx_Ok split: if_splits\<close>)
qed

lemma resolutions:
  "apply_resolutions E u rs cs rest d = Inr (Inr db') \<Longrightarrow> R d db' \<and> t_work_unit db' = t_work_unit d"
proof (induction rest arbitrary: d)
  case (Cons c rest)
  from Cons.prems obtain r where r: "find (\<lambda>r. ec_key (wr_entity r) = wk_key c) rs = Some r" by (auto split: option.splits)
  let ?e = "wr_entity r"
  from Cons.prems r obtain d1 d2 where
    1: "insert_entity_versions E (wk_key c) (ec_new_versions ?e) (Some u) (ec_recorded_at_unix_ms ?e) d = Inr d1"
    and 2: "replace_work_unit_heads u (wk_key c) (ec_head_versions ?e) d1 = Inr d2"
    and 3: "apply_resolutions E u rs cs rest d2 = Inr (Inr db')"
    by (auto simp: Let_def bindR_eq_Inr sqlite_time_def split: if_splits)
  have "t_work_unit d2 = t_work_unit d"
    using insert_entity_versions_Ok[OF 1] replace_work_unit_heads_Ok[OF 2] by (auto simp: crdt_grows_def)
  with Cons.IH[OF 3] versions[OF 1] unit_heads[OF 2] show ?case by (auto intro: trans)
qed (simp add: refl)

lemma publish:
  assumes run: "publish_work_unit E p db = (r, db')" shows "R db db'"
proof (cases "ensure_work_unit E (wp_work_unit p) db")
  case (Inl e)
  with run show ?thesis by (simp add: publish_work_unit_def Let_def refl)
next
  case (Inr sd)
  obtain st d where sd: "sd = (st, d)" by (cases sd)
  note ens = Inr[unfolded sd]
  let ?u = "wu_identity_json (wp_work_unit p)"
  have fin: "R db d3" if "apply_resolutions E ?u rs cs cs d = Inr (Inr d2)"
    "finish_work_unit_publication E ?u t d2 = Inr d3" "st = SwClosing" for rs cs d2 d3 t
  proof -
    have "unit_active ?u d2" using resolutions[OF that(1)] ensure_work_unit_active[OF ens] that(3)
      by (simp add: unit_active_def)
    from finish[OF that(2) this] resolutions[OF that(1)] ensure[OF ens] show ?thesis by (blast intro: trans)
  qed
  show ?thesis
  proof (cases st)
    case SwClosing
    from run ens SwClosing fin show ?thesis
      by (auto simp: publish_work_unit_def Let_def finish_tx_def bindR_def refl
          split: if_splits sum.splits prod.splits)
  qed (use run ens ensure[OF ens] in \<open>auto simp: publish_work_unit_def Let_def refl\<close>)
qed

lemma ensured_baseline:
  assumes "ensure_work_unit E wu db = Inr (SwOpen, d)" and "work_unit_baseline (wu_identity_json wu) d = Inr b"
  shows "observable_frontier (wu_scope_json wu) b d"
proof -
  from assms(2) obtain row where row: "map_of (t_work_unit d) (wu_identity_json wu) = Some row" "b = wur_baseline_cursor row"
    by (auto simp: work_unit_baseline_def bindR_eq_Inr)
  have "wur_scope_json row = wu_scope_json wu"
    using ensure_work_unit_cases[OF assms(1)] row(1) by (auto simp: map_add_def open_work_unit_row_def)
  with row show ?thesis by (auto simp: observable_frontier_def)
qed

lemma observable_captured:
  "capture_work_unit_entity u key db = Inr d \<Longrightarrow> observable_frontier s f d = observable_frontier s f db"
proof -
  assume "capture_work_unit_entity u key db = Inr d"
  then have "t_work_unit d = t_work_unit db \<and> t_scope d = t_scope db" by (auto dest: capture_Ok)
  then show ?thesis by (simp add: observable_frontier_def current_scope_cursor_def)
qed

lemma read_in_unit:
  assumes run: "read_entity_in_work_unit E clk clk' wu key rc db = (r, db')" shows "R db db'"
proof (cases "ensure_work_unit E wu db")
  case (Inl e)
  with run show ?thesis by (simp add: read_entity_in_work_unit_def Let_def refl)
next
  case (Inr sd)
  obtain st d where sd: "sd = (st, d)" by (cases sd)
  note ens = Inr[unfolded sd]
  have open_case: "R db d3" if "st = SwOpen" "work_unit_baseline (wu_identity_json wu) d = Inr b"
    "capture_work_unit_entity (wu_identity_json wu) key d = Inr d2"
    "advance_read_sessions E (wu_scope_json wu) rc b d2 = Inr d3" for b d2 d3
  proof -
    have "observable_frontier (wu_scope_json wu) b d2"
      using ensured_baseline[of wu db d b] ens that observable_captured[OF that(3)] by simp
    from sessions_read[OF that(4) this] capture[OF that(3)] ensure[OF ens] show ?thesis by (blast intro: trans)
  qed
  show ?thesis
  proof (cases st)
    case SwOpen
    with run ens open_case show ?thesis
      by (auto simp: read_entity_in_work_unit_def Let_def finish_tx_def bindR_def refl
          split: if_splits sum.splits prod.splits option.splits)
  qed (use run ens ensure[OF ens] in \<open>auto simp: read_entity_in_work_unit_def Let_def finish_tx_def refl
        split: sum.splits\<close>)
qed

text \<open>The idempotency read of a unit observes the unit's baseline whatever state the unit is in, so it
  relies on the identity of a unit determining its scope.\<close>

lemma retrieve:
  assumes "retrieve_entities_consistent E V clk clk' q rc db = (r, db')" shows "R db db'"
proof -
  have "R db d" if "advance_read_sessions E (rq_scope_json q) rc (current_scope_cursor (rq_scope_json q) db) db = Inr d" for d
    by (rule sessions_read[OF that]) (simp add: observable_frontier_def)
  with assms show ?thesis
    by (auto simp: retrieve_entities_consistent_def finish_tx_def bindR_eq_Inr refl consistency_observation_Some
        split: sum.splits prod.splits option.splits)
qed

lemma retrieve_unit_entities:
  "retrieve_unit_entities u q cs db = Inr (es, db') \<Longrightarrow>
     R db db' \<and> (observable_frontier s f db \<longrightarrow> observable_frontier s f db')"
proof (induction cs arbitrary: db es)
  case (Cons c cs)
  from Cons.prems obtain d es' where d: "capture_work_unit_entity u (candidate_entity q c) db = Inr d"
    "retrieve_unit_entities u q cs d = Inr (es', db')" by (auto simp: bindR_eq_Inr)
  from Cons.IH[OF d(2)] capture[OF d(1)] observable_captured[OF d(1)] show ?case by (auto intro: trans)
qed (simp add: refl)

lemma retrieve_in_unit:
  assumes run: "retrieve_entities_in_work_unit E V clk clk' wu q rc db = (r, db')" shows "R db db'"
proof (cases "ensure_work_unit E wu db")
  case (Inl e)
  with run show ?thesis by (simp add: retrieve_entities_in_work_unit_def Let_def refl)
next
  case (Inr sd)
  obtain st d where sd: "sd = (st, d)" by (cases sd)
  note ens = Inr[unfolded sd]
  have open_case: "R db d3" if "st = SwOpen" "work_unit_baseline (wu_identity_json wu) d = Inr b"
    "retrieve_unit_entities (wu_identity_json wu) q cs d = Inr (es, d2)"
    "advance_read_sessions E (wu_scope_json wu) rc b d2 = Inr d3" for b cs es d2 d3
  proof -
    have "observable_frontier (wu_scope_json wu) b d2"
      using ensured_baseline[of wu db d b] ens that retrieve_unit_entities[OF that(3)] by simp
    from sessions_read[OF that(4) this] retrieve_unit_entities[OF that(3)] ensure[OF ens] show ?thesis
      by (blast intro: trans)
  qed
  show ?thesis
  proof (cases st)
    case SwOpen
    with run ens open_case show ?thesis
      by (auto simp: retrieve_entities_in_work_unit_def Let_def finish_tx_def bindR_eq_Inr bindR_eq_Inl refl
          split: sum.splits prod.splits option.splits)
  qed (use run ens ensure[OF ens] in \<open>auto simp: retrieve_entities_in_work_unit_def Let_def finish_tx_def refl
        split: sum.splits\<close>)
qed

lemma read_idempotent_in_unit:
  assumes run: "read_idempotency_in_work_unit E clk clk' wu rc i q now allow db = (r, db')"
    and scope: "\<forall>row. map_of (t_work_unit db) (wu_identity_json wu) = Some row \<longrightarrow> wur_scope_json row = wu_scope_json wu"
  shows "R db db'"
proof -
  have main: "R db d2" if rd: "read_work_unit_idempotency E wu i q now allow db = Inr (out, d1)"
    and b: "work_unit_baseline (wu_identity_json wu) d1 = Inr b"
    and adv: "advance_read_sessions E (wu_scope_json wu) rc b d1 = Inr d2" for out d1 d2 b
  proof -
    from rd obtain st d where ens: "ensure_work_unit E wu db = Inr (st, d)"
      by (auto simp: read_work_unit_idempotency_def bindR_eq_Inr)
    have "d1 = d \<or> delete_expired_idempotency now d = Inr d1"
      using rd ens by (auto simp: read_work_unit_idempotency_def bindR_eq_Inr split: if_splits option.splits)
    then have R1: "R d d1" and wu: "t_work_unit d1 = t_work_unit d"
      by (auto intro: refl expired_records simp: delete_expired_idempotency_Ok)
    from b obtain row where row: "map_of (t_work_unit d1) (wu_identity_json wu) = Some row" "b = wur_baseline_cursor row"
      by (auto simp: work_unit_baseline_def bindR_eq_Inr)
    have "wur_scope_json row = wu_scope_json wu"
      using ensure_work_unit_cases[OF ens] row(1) scope unfolding wu
      by (auto simp: map_add_def open_work_unit_row_def expire_work_unit_Ok expired_unit_state)
    with row have "observable_frontier (wu_scope_json wu) b d1" by (auto simp: observable_frontier_def)
    from sessions_read[OF adv this] R1 ensure[OF ens] show ?thesis by (blast intro: trans)
  qed
  with run show ?thesis
    by (auto simp: read_idempotency_in_work_unit_def Let_def finish_tx_def bindR_def refl
        consistency_observation_Some split: if_splits sum.splits prod.splits option.splits)
qed

end

text \<open>Reading the change log prunes it, which is the only statement that removes rows from it.\<close>

locale statement_frame = writing_frame +
  assumes retention: "record_retention t db = Inr db' \<Longrightarrow> R db (delete_changes t db')"
begin

lemma changes_read:
  "read_changes q db = (r, db') \<Longrightarrow> R db db'"
  by (auto simp: read_changes_def Let_def refl dest: retention split: sum.splits)

end


section \<open>The life cycle of a unit\<close>

definition state_progress :: "work_unit_state \<Rightarrow> work_unit_state \<Rightarrow> bool" where
  "state_progress s s' \<longleftrightarrow> s = s' \<or> s = DbOpen \<or> s = DbClosing \<and> s' \<noteq> DbOpen"

definition units_progress :: "sqlite_db \<Rightarrow> sqlite_db \<Rightarrow> bool" where
  "units_progress db db' \<longleftrightarrow>
     (\<forall>u row. map_of (t_work_unit db) u = Some row \<longrightarrow>
        (\<exists>row'. map_of (t_work_unit db') u = Some row' \<and> state_progress (wur_state row) (wur_state row')
           \<and> wur_scope_json row' = wur_scope_json row \<and> wur_policy_json row' = wur_policy_json row
           \<and> wur_baseline_cursor row' = wur_baseline_cursor row
           \<and> wur_expires_at_unix_ms row' = wur_expires_at_unix_ms row))"

lemma units_progress_eq: "t_work_unit db' = t_work_unit db \<Longrightarrow> units_progress db db'"
  by (simp add: units_progress_def state_progress_def)

lemma units_progress_trans: "units_progress a b \<Longrightarrow> units_progress b c \<Longrightarrow> units_progress a c"
proof (unfold units_progress_def, intro allI impI)
  fix u row
  assume ab: "\<forall>u row. map_of (t_work_unit a) u = Some row \<longrightarrow>
        (\<exists>row'. map_of (t_work_unit b) u = Some row' \<and> state_progress (wur_state row) (wur_state row')
           \<and> wur_scope_json row' = wur_scope_json row \<and> wur_policy_json row' = wur_policy_json row
           \<and> wur_baseline_cursor row' = wur_baseline_cursor row
           \<and> wur_expires_at_unix_ms row' = wur_expires_at_unix_ms row)"
    and bc: "\<forall>u row. map_of (t_work_unit b) u = Some row \<longrightarrow>
        (\<exists>row'. map_of (t_work_unit c) u = Some row' \<and> state_progress (wur_state row) (wur_state row')
           \<and> wur_scope_json row' = wur_scope_json row \<and> wur_policy_json row' = wur_policy_json row
           \<and> wur_baseline_cursor row' = wur_baseline_cursor row
           \<and> wur_expires_at_unix_ms row' = wur_expires_at_unix_ms row)"
    and u: "map_of (t_work_unit a) u = Some row"
  from ab u obtain r1 where 1: "map_of (t_work_unit b) u = Some r1" "state_progress (wur_state row) (wur_state r1)"
    "wur_scope_json r1 = wur_scope_json row" "wur_policy_json r1 = wur_policy_json row"
    "wur_baseline_cursor r1 = wur_baseline_cursor row" "wur_expires_at_unix_ms r1 = wur_expires_at_unix_ms row" by blast
  from bc 1(1) obtain r2 where 2: "map_of (t_work_unit c) u = Some r2" "state_progress (wur_state r1) (wur_state r2)"
    "wur_scope_json r2 = wur_scope_json r1" "wur_policy_json r2 = wur_policy_json r1"
    "wur_baseline_cursor r2 = wur_baseline_cursor r1" "wur_expires_at_unix_ms r2 = wur_expires_at_unix_ms r1" by blast
  have "state_progress (wur_state row) (wur_state r2)" using 1(2) 2(2) by (auto simp: state_progress_def)
  with 1 2 show "\<exists>row'. map_of (t_work_unit c) u = Some row' \<and> state_progress (wur_state row) (wur_state row')
           \<and> wur_scope_json row' = wur_scope_json row \<and> wur_policy_json row' = wur_policy_json row
           \<and> wur_baseline_cursor row' = wur_baseline_cursor row
           \<and> wur_expires_at_unix_ms row' = wur_expires_at_unix_ms row" by auto
qed

lemma insert_versions_frame:
  "insert_entity_versions E key vs owner t db = Inr db' \<Longrightarrow>
   \<exists>a b c d. db' = db\<lparr>t_version := a, t_crdt_change := b, t_crdt_parent := c, t_crdt_head := d\<rparr>"
  by (drule insert_entity_versions_Ok) (auto simp: crdt_grows_def)

lemma log_frame:
  assumes "insert_change E key kind hs tok meta t db = Inr (cursor, d)"
    "advance_write_sessions E (scope_json key) keys cursor d = Inr db'"
  shows "\<exists>a b c d e f. db' = db\<lparr>t_change := a, t_change_seq := b, t_history := c, t_causal := d, t_scope := e, t_session := f\<rparr>"
proof -
  from insert_change_Ok[OF assms(1)] obtain a b c e f where
    "d = db\<lparr>t_change := a, t_change_seq := b, t_history := c, t_causal := e, t_scope := f\<rparr>" by blast
  with advance_write_sessions_Ok[OF assms(2)]
  have "db' = db\<lparr>t_change := a, t_change_seq := b, t_history := c, t_causal := e, t_scope := f,
      t_session := written_sessions (scope_json key) cursor keys (t_session d)\<rparr>" by simp
  then show ?thesis by blast
qed

lemma retention_frame:
  "record_retention t db = Inr db' \<Longrightarrow> \<exists>a b. delete_changes t db' = db\<lparr>t_retention := a, t_change := b\<rparr>"
  by (drule record_retention_Ok) (auto simp: delete_changes_def)

lemma delete_expired_frame:
  "delete_expired_idempotency now db = Inr db' \<Longrightarrow> \<exists>a b. db' = db\<lparr>t_idempotency := a, t_wu_idempotency := b\<rparr>"
  by (auto simp: delete_expired_idempotency_Ok)

lemma insert_idempotency_frame:
  "insert_idempotency E r db = Inr db' \<Longrightarrow> \<exists>a. db' = db\<lparr>t_idempotency := a\<rparr>"
  by (auto dest: insert_idempotency_Ok)

lemma replace_heads_frame: "replace_published_heads key hs db = Inr db' \<Longrightarrow> \<exists>a. db' = db\<lparr>t_head := a\<rparr>"
  by (auto dest: replace_published_heads_Ok)

lemma unit_heads_frame: "replace_work_unit_heads u key hs db = Inr db' \<Longrightarrow> \<exists>a. db' = db\<lparr>t_wu_head := a\<rparr>"
  by (auto dest: replace_work_unit_heads_Ok)

lemmas statement_frames = insert_versions_frame log_frame retention_frame delete_expired_frame
  insert_idempotency_frame replace_heads_frame unit_heads_frame store_work_unit_idempotency_only
  promote_idempotency_only advance_read_sessions_only

lemma expire_units: "expire_work_unit u now db = Inr db' \<Longrightarrow>
  map_of (t_work_unit db') v = map_option (\<lambda>r. if v = u \<and> wur_state r \<in> {DbOpen, DbClosing}
     then r\<lparr>wur_state := DbExpired, wur_closed_at_unix_ms := Some now\<rparr> else r) (map_of (t_work_unit db) v)"
  by (simp add: expire_work_unit_Ok expired_unit_state)

interpretation progress: statement_frame E units_progress for E
proof unfold_locales
  fix key :: EntityKey and kind hs tok meta t cursor keys db d db'
  assume "insert_change E key kind hs tok meta t db = Inr (cursor, d)"
    "advance_write_sessions E (scope_json key) keys cursor d = Inr db'"
  from log_frame[OF this] show "units_progress db db'" by (auto intro: units_progress_eq)
next
  fix u now db db'
  assume "expire_work_unit u now db = Inr db'"
  from expire_units[OF this] show "units_progress db db'"
    by (auto simp: units_progress_def state_progress_def)
next
  fix u t and db :: sqlite_db
  assume "unit_active u db"
  then show "units_progress db (db\<lparr>t_work_unit := tbl_update (\<lambda>k _. k = u)
     (\<lambda>r. r\<lparr>wur_state := DbCommitted, wur_closed_at_unix_ms := Some t\<rparr>) (t_work_unit db)\<rparr>)"
    by (auto simp: units_progress_def state_progress_def unit_active_def map_of_tbl_update split: option.splits)
next
  fix u db
  show "units_progress db (close_work_unit u db)"
    by (auto simp: units_progress_def state_progress_def close_work_unit_def map_of_tbl_update)
next
  fix wu :: WorkUnit and now expires :: nat and db :: sqlite_db
  assume "map_of (t_work_unit db) (wu_identity_json wu) = None"
  then show "units_progress db (db\<lparr>t_work_unit := t_work_unit db @ [(wu_identity_json wu, open_work_unit_row wu now expires db)]\<rparr>)"
    by (auto simp: units_progress_def state_progress_def map_add_def)
qed (auto intro: units_progress_eq units_progress_trans dest!: statement_frames(1,3-) dest: statement_frames(2))

section \<open>Frontiers\<close>

definition units_ok :: "sqlite_db \<Rightarrow> bool" where
  "units_ok db \<longleftrightarrow> tbl_wf (t_work_unit db) \<and>
     (\<forall>(u, row) \<in> set (t_work_unit db).
        wur_baseline_cursor row \<le> current_scope_cursor (wur_scope_json row) db
        \<and> wur_opened_at_unix_ms row < wur_expires_at_unix_ms row
        \<and> (wur_closed_at_unix_ms row = None \<longleftrightarrow> wur_state row \<in> {DbOpen, DbClosing}))"

lemma units_ok_iff:
  "units_ok db \<longleftrightarrow> tbl_wf (t_work_unit db) \<and>
     (\<forall>u row. map_of (t_work_unit db) u = Some row \<longrightarrow>
        wur_baseline_cursor row \<le> current_scope_cursor (wur_scope_json row) db
        \<and> wur_opened_at_unix_ms row < wur_expires_at_unix_ms row
        \<and> (wur_closed_at_unix_ms row = None \<longleftrightarrow> wur_state row \<in> {DbOpen, DbClosing}))"
  unfolding units_ok_def by (rule conj_cong[OF refl]) (rule tbl_wf_ball)

definition frontier_step :: "sqlite_db \<Rightarrow> sqlite_db \<Rightarrow> bool" where
  "frontier_step db db' \<longleftrightarrow>
     (frontiers_ok db \<and> units_ok db \<longrightarrow>
        frontiers_ok db' \<and> units_ok db' \<and> sessions_advance db db'
        \<and> (\<forall>s. current_scope_cursor s db \<le> current_scope_cursor s db'))"

lemma frontier_step_trans: "frontier_step a b \<Longrightarrow> frontier_step b c \<Longrightarrow> frontier_step a c"
  unfolding frontier_step_def by (meson order_trans sessions_advance_trans)

lemma frontier_step_units:
  assumes "t_scope db' = t_scope db" "t_causal db' = t_causal db" "t_session db' = t_session db"
    "t_change_seq db' = t_change_seq db" and "units_ok db \<Longrightarrow> units_ok db'"
  shows "frontier_step db db'"
  using assms frontiers_ok_cong[OF assms(1-4)]
  by (simp add: frontier_step_def current_scope_cursor_def sessions_advance_eq)

lemma frontier_step_eq:
  assumes "t_scope db' = t_scope db" "t_causal db' = t_causal db" "t_session db' = t_session db"
    "t_change_seq db' = t_change_seq db" "t_work_unit db' = t_work_unit db"
  shows "frontier_step db db'"
  by (rule frontier_step_units) (use assms in \<open>simp_all add: units_ok_def current_scope_cursor_def\<close>)

lemma units_ok_mono:
  assumes "units_ok db" "t_work_unit db' = t_work_unit db"
    "\<And>s. current_scope_cursor s db \<le> current_scope_cursor s db'"
  shows "units_ok db'"
  using assms unfolding units_ok_iff by (metis order_trans)

lemma frontier_step_log:
  assumes "insert_change E key kind hs tok meta t db = Inr (cursor, d)"
    "advance_write_sessions E (scope_json key) keys cursor d = Inr db'"
  shows "frontier_step db db'"
proof -
  have cs: "current_scope_cursor s db' = current_scope_cursor s d" for s
    using advance_write_sessions_Ok[OF assms(2)] by (simp add: current_scope_cursor_def)
  { assume ok: "frontiers_ok db" and uo: "units_ok db"
    have d: "frontiers_ok d" by (rule frontiers_ok_insert_change[OF assms(1) ok])
    have "current_scope_cursor s db \<le> current_scope_cursor s d" for s
      using insert_change_cursor[OF assms(1)] current_scope_cursor_le[OF ok, of s] insert_change_Ok[OF assms(1)]
      by auto
    then have mono: "current_scope_cursor s db \<le> current_scope_cursor s db'" for s by (simp add: cs)
    have "sessions_advance db d" using insert_change_Ok[OF assms(1)] by (auto intro: sessions_advance_eq)
    moreover have "cursor \<le> current_scope_cursor (scope_json key) d"
      using insert_change_cursor[OF assms(1)] by simp
    from advance_write_sessions_keeps[OF assms(2) d this] have "frontiers_ok db'" "sessions_advance d db'" by auto
    moreover have "t_work_unit db' = t_work_unit db" using log_frame[OF assms] by auto
    ultimately have "frontiers_ok db' \<and> units_ok db' \<and> sessions_advance db db'
        \<and> (\<forall>s. current_scope_cursor s db \<le> current_scope_cursor s db')"
      using mono units_ok_mono[OF uo _ mono] sessions_advance_trans by blast }
  then show ?thesis by (simp add: frontier_step_def)
qed

lemma frontier_step_read:
  assumes "advance_read_sessions E scope rc f db = Inr db'" and obs: "observable_frontier scope f db"
  shows "frontier_step db db'"
proof -
  from advance_read_sessions_only[OF assms(1)] obtain t where db': "db' = db\<lparr>t_session := t\<rparr>" by blast
  { assume ok: "frontiers_ok db" and uo: "units_ok db"
    have "f \<le> current_scope_cursor scope db"
      using obs uo unfolding observable_frontier_def units_ok_iff by auto
    from advance_read_sessions_keeps[OF assms(1) ok this]
    have "frontiers_ok db' \<and> units_ok db' \<and> sessions_advance db db'
        \<and> (\<forall>s. current_scope_cursor s db \<le> current_scope_cursor s db')"
      using uo by (simp add: db' units_ok_def current_scope_cursor_def) }
  then show ?thesis by (simp add: frontier_step_def)
qed

lemma tbl_wf_unit_update: "tbl_wf (tbl_update P f t) = tbl_wf t"
  by (simp add: tbl_wf_def tbl_update_def comp_def case_prod_beta)

interpretation frontier: statement_frame E frontier_step for E
proof unfold_locales
  fix u now db db'
  assume run: "expire_work_unit u now db = Inr db'"
  then have db': "db' = collect_crdt_garbage (expired_unit_db u now db)" by (simp add: expire_work_unit_Ok)
  show "frontier_step db db'"
  proof (rule frontier_step_units)
    assume uo: "units_ok db"
    have wf: "tbl_wf (t_work_unit db')"
      using uo by (auto simp: db' expired_unit_db_def Let_def units_ok_def)
    have "current_scope_cursor s db' = current_scope_cursor s db" for s
      by (simp add: db' collect_crdt_garbage_def expired_unit_db_def Let_def current_scope_cursor_def)
    with uo wf expire_units[OF run] show "units_ok db'" unfolding units_ok_iff by auto
  qed (simp_all add: db' collect_crdt_garbage_def expired_unit_db_def Let_def)
next
  fix u t and db :: sqlite_db
  assume "unit_active u db"
  show "frontier_step db (db\<lparr>t_work_unit := tbl_update (\<lambda>k _. k = u)
     (\<lambda>r. r\<lparr>wur_state := DbCommitted, wur_closed_at_unix_ms := Some t\<rparr>) (t_work_unit db)\<rparr>)"
    by (rule frontier_step_units)
       (auto simp: units_ok_iff map_of_tbl_update current_scope_cursor_def)
next
  fix u db
  show "frontier_step db (close_work_unit u db)"
    by (rule frontier_step_units)
       (auto simp: units_ok_iff map_of_tbl_update current_scope_cursor_def close_work_unit_def)
next
  fix wu :: WorkUnit and now expires :: nat and db :: sqlite_db
  assume "map_of (t_work_unit db) (wu_identity_json wu) = None" "now < expires"
  then show "frontier_step db (db\<lparr>t_work_unit := t_work_unit db @ [(wu_identity_json wu, open_work_unit_row wu now expires db)]\<rparr>)"
    by (intro frontier_step_units)
       (auto simp: units_ok_iff map_add_def tbl_wf_append_single open_work_unit_row_def current_scope_cursor_def
          split: option.splits)
qed (auto intro: frontier_step_eq frontier_step_trans frontier_step_log frontier_step_read
      dest!: statement_frames(1,3-9))


section \<open>Idempotency records\<close>

text \<open>An identity is recorded once: published or staged, never both.\<close>

definition idempotency_ok :: "sqlite_db \<Rightarrow> bool" where
  "idempotency_ok db \<longleftrightarrow> tbl_wf (t_idempotency db) \<and> tbl_wf (t_wu_idempotency db)
     \<and> (\<forall>(i, _) \<in> set (t_wu_idempotency db). map_of (t_idempotency db) i = None)"

lemma idempotency_okI:
  assumes "tbl_wf (t_idempotency db)" "tbl_wf (t_wu_idempotency db)"
    "\<And>i r. (i, r) \<in> set (t_wu_idempotency db) \<Longrightarrow> map_of (t_idempotency db) i = None"
  shows "idempotency_ok db"
  unfolding idempotency_ok_def using assms by blast

lemma idempotency_okD:
  assumes "idempotency_ok db"
  shows "tbl_wf (t_idempotency db)" "tbl_wf (t_wu_idempotency db)"
    "(i, r) \<in> set (t_wu_idempotency db) \<Longrightarrow> map_of (t_idempotency db) i = None"
  using assms unfolding idempotency_ok_def by blast+

definition idempotency_step :: "sqlite_db \<Rightarrow> sqlite_db \<Rightarrow> bool" where
  "idempotency_step db db' \<longleftrightarrow> (idempotency_ok db \<longrightarrow> idempotency_ok db')"

lemma idempotency_step_eq:
  "t_idempotency db' = t_idempotency db \<Longrightarrow> t_wu_idempotency db' = t_wu_idempotency db \<Longrightarrow> idempotency_step db db'"
  by (simp add: idempotency_step_def idempotency_ok_def)

lemma idempotency_ok_delete:
  assumes "idempotency_ok db" and "t_idempotency db' = tbl_delete P (t_idempotency db)"
    "t_wu_idempotency db' = tbl_delete Q (t_wu_idempotency db)"
  shows "idempotency_ok db'"
proof -
  note D = idempotency_okD[OF assms(1)]
  show ?thesis
  proof (rule idempotency_okI)
    fix i r assume "(i, r) \<in> set (t_wu_idempotency db')"
    then have "(i, r) \<in> set (t_wu_idempotency db)" unfolding assms(3) by (auto simp: tbl_delete_def)
    from D(3)[OF this] show "map_of (t_idempotency db') i = None"
      unfolding assms(2) map_of_tbl_delete[OF D(1)] by simp
  qed (use D in \<open>auto simp: assms(2,3)\<close>)
qed

lemma tbl_delete_False [simp]: "tbl_delete (\<lambda>_ _. False) t = t"
  by (simp add: tbl_delete_def)

lemma idempotency_ok_stored:
  assumes "insert_idempotency E r db = Inr db'" "map_of (t_wu_idempotency db) (ir_identity_json r) = None" "idempotency_ok db"
  shows "idempotency_ok db'"
proof -
  from insert_idempotency_Ok[OF assms(1)] obtain row where
    none: "map_of (t_idempotency db) (ir_identity_json r) = None"
    and db': "db' = db\<lparr>t_idempotency := t_idempotency db @ [(ir_identity_json r, row)]\<rparr>" by blast
  note D = idempotency_okD[OF assms(3)]
  show ?thesis
  proof (rule idempotency_okI)
    fix i x assume "(i, x) \<in> set (t_wu_idempotency db')"
    then have mem: "(i, x) \<in> set (t_wu_idempotency db)" by (simp add: db')
    then have "i \<noteq> ir_identity_json r" using assms(2) by (force simp: map_of_eq_None_iff)
    with D(3)[OF mem] show "map_of (t_idempotency db') i = None" by (simp add: db' map_add_def)
  qed (use D none in \<open>auto simp: db' tbl_wf_append_single\<close>)
qed

lemma idempotency_ok_staged:
  assumes "store_work_unit_idempotency E u r now db = Inr (out, db')" "idempotency_ok db"
  shows "idempotency_ok db'"
proof -
  from assms(1) obtain d where d: "delete_expired_idempotency now db = Inr d"
    by (auto simp: store_work_unit_idempotency_def bindR_eq_Inr)
  have okd: "idempotency_ok d" using d assms(2) by (auto simp: delete_expired_idempotency_Ok intro: idempotency_ok_delete)
  note D = idempotency_okD[OF okd]
  show ?thesis
  proof (cases "map_of (t_idempotency d) (ir_identity_json r)")
    case (Some x)
    with assms(1) d okd show ?thesis by (auto simp: store_work_unit_idempotency_def)
  next
    case None
    note none = None
    show ?thesis
    proof (cases "map_of (t_wu_idempotency d) (ir_identity_json r)")
      case (Some x)
      with assms(1) d okd none show ?thesis by (auto simp: store_work_unit_idempotency_def)
    next
      case None
      with assms(1) d none obtain row where
        db': "db' = d\<lparr>t_wu_idempotency := t_wu_idempotency d @ [(ir_identity_json r, row)]\<rparr>"
        by (auto simp: store_work_unit_idempotency_def bindR_eq_Inr tbl_insert_eq_Some)
      show ?thesis
        by (rule idempotency_okI) (use D none None in \<open>auto simp: db' tbl_wf_append_single\<close>)
    qed
  qed
qed

lemma promote_rows:
  assumes "foldR (\<lambda>(i, r) t. ok_or (tbl_insert i (f r) t) e) rows t = Inr t'" and "tbl_wf t"
  shows "tbl_wf t' \<and> (\<forall>i. map_of t' i = (case map_of t i of Some x \<Rightarrow> Some x | None \<Rightarrow> map_option f (map_of rows i)))"
  using assms
proof (induction rows arbitrary: t)
  case Nil
  then show ?case by (auto split: option.splits)
next
  case (Cons a rows)
  obtain i r where a: "a = (i, r)" by (cases a)
  from Cons.prems(1) a have n: "map_of t i = None"
    and run: "foldR (\<lambda>(i, r) t. ok_or (tbl_insert i (f r) t) e) rows (t @ [(i, f r)]) = Inr t'"
    by (auto simp: bindR_eq_Inr tbl_insert_eq_Some)
  have wf: "tbl_wf (t @ [(i, f r)])" using Cons.prems(2) n by (simp add: tbl_wf_append_single)
  from Cons.IH[OF run wf] n show ?case by (auto simp: a map_add_def split: option.splits)
qed

definition promoted_row :: "work_unit_idempotency_row \<Rightarrow> idempotency_row" where
  "promoted_row r = \<lparr>idr_request_json = wir_request_json r, idr_result_json = wir_result_json r,
     idr_expires_at_unix_ms = wir_expires_at_unix_ms r\<rparr>"

lemma promote_Ok:
  assumes "promote_idempotency u t db = Inr db'" and "idempotency_ok db"
  shows "idempotency_ok db'
    \<and> (\<forall>i r. map_of (t_wu_idempotency db) i = Some r \<longrightarrow> wir_work_unit_json r = u \<longrightarrow> t < wir_expires_at_unix_ms r \<longrightarrow>
         map_of (t_idempotency db') i = Some (promoted_row r))
    \<and> (\<forall>i r. map_of (t_idempotency db) i = Some r \<longrightarrow> map_of (t_idempotency db') i = Some r)"
proof -
  let ?rows = "filter (\<lambda>(_, r). wir_work_unit_json r = u \<and> wir_expires_at_unix_ms r > t) (t_wu_idempotency db)"
  let ?f = "\<lambda>(i, r) t. ok_or (tbl_insert i (promoted_row r) t) database_error"
  from assms(1) obtain ti where ti: "foldR ?f ?rows (t_idempotency db) = Inr ti"
    and db': "db' = db\<lparr>t_idempotency := ti,
              t_wu_idempotency := tbl_delete (\<lambda>_ r. wir_work_unit_json r = u) (t_wu_idempotency db)\<rparr>"
    by (auto simp: promote_idempotency_def bindR_eq_Inr promoted_row_def)
  have wfs: "tbl_wf (t_idempotency db)" "tbl_wf (t_wu_idempotency db)"
    and disj: "map_of (t_wu_idempotency db) i \<noteq> None \<Longrightarrow> map_of (t_idempotency db) i = None" for i
    using idempotency_okD[OF assms(2)] by (auto simp: map_of_wf_iff)
  from promote_rows[OF ti wfs(1)] have wf: "tbl_wf ti"
    and ti_of: "map_of ti i = (case map_of (t_idempotency db) i of Some x \<Rightarrow> Some x
        | None \<Rightarrow> map_option promoted_row (map_of ?rows i))" for i by blast+
  have rows_of: "map_of ?rows i = (case map_of (t_wu_idempotency db) i of None \<Rightarrow> None
      | Some r \<Rightarrow> if wir_work_unit_json r = u \<and> t < wir_expires_at_unix_ms r then Some r else None)" for i
  proof -
    have "?rows = tbl_delete (\<lambda>_ r. \<not> (wir_work_unit_json r = u \<and> t < wir_expires_at_unix_ms r)) (t_wu_idempotency db)"
      by (auto simp: tbl_delete_def intro: filter_cong)
    then show ?thesis by (simp add: map_of_tbl_delete[OF wfs(2)] split: option.split)
  qed
  have "map_of ti i = None" if "(i, r) \<in> set (tbl_delete (\<lambda>_ r. wir_work_unit_json r = u) (t_wu_idempotency db))" for i r
  proof -
    from that have "map_of (t_wu_idempotency db) i = Some r" "wir_work_unit_json r \<noteq> u"
      using map_of_wf_iff[OF wfs(2)] by (auto simp: tbl_delete_def)
    with disj[of i] show ?thesis by (simp add: ti_of rows_of)
  qed
  then have "idempotency_ok db'" using wf wfs by (intro idempotency_okI) (auto simp: db')
  moreover have "map_of (t_idempotency db') i = Some (promoted_row r)"
    if "map_of (t_wu_idempotency db) i = Some r" "wir_work_unit_json r = u" "t < wir_expires_at_unix_ms r" for i r
    using that disj[of i] by (simp add: db' ti_of rows_of)
  moreover have "map_of (t_idempotency db') i = Some r" if "map_of (t_idempotency db) i = Some r" for i r
    using that by (simp add: db' ti_of)
  ultimately show ?thesis by blast
qed

lemma idempotency_ok_expired:
  assumes "expire_work_unit u now db = Inr db'" "idempotency_ok db" shows "idempotency_ok db'"
proof (rule idempotency_ok_delete[OF assms(2)])
  show "t_idempotency db' = tbl_delete (\<lambda>_ _. False) (t_idempotency db)"
    "t_wu_idempotency db' = tbl_delete (\<lambda>_ r. wir_work_unit_json r = u) (t_wu_idempotency db)"
    using assms(1) by (simp_all add: expire_work_unit_Ok collect_crdt_garbage_def expired_unit_db_def Let_def)
qed

interpretation records: statement_frame E idempotency_step for E
proof unfold_locales
  fix key :: EntityKey and kind hs tok meta t cursor keys db d db'
  assume "insert_change E key kind hs tok meta t db = Inr (cursor, d)"
    "advance_write_sessions E (scope_json key) keys cursor d = Inr db'"
  from log_frame[OF this] show "idempotency_step db db'" by (auto intro: idempotency_step_eq)
next
  fix r :: IdempotencyRecord and db db'
  assume "insert_idempotency E r db = Inr db'" "map_of (t_wu_idempotency db) (ir_identity_json r) = None"
  then show "idempotency_step db db'" using idempotency_ok_stored by (simp add: idempotency_step_def)
next
  fix u r now db out db'
  assume "store_work_unit_idempotency E u r now db = Inr (out, db')"
  then show "idempotency_step db db'" using idempotency_ok_staged by (auto simp: idempotency_step_def)
next
  fix u t db db'
  assume "promote_idempotency u t db = Inr db'"
  then show "idempotency_step db db'" using promote_Ok by (auto simp: idempotency_step_def)
next
  fix now db db'
  assume "delete_expired_idempotency now db = Inr db'"
  then show "idempotency_step db db'"
    by (auto simp: delete_expired_idempotency_Ok idempotency_step_def intro: idempotency_ok_delete)
next
  fix u now db db'
  assume "expire_work_unit u now db = Inr db'"
  then show "idempotency_step db db'" using idempotency_ok_expired by (auto simp: idempotency_step_def)
next
  fix a b c
  assume "idempotency_step a b" "idempotency_step b c"
  then show "idempotency_step a c" by (simp add: idempotency_step_def)
qed (auto intro: idempotency_step_eq dest!: insert_versions_frame retention_frame replace_heads_frame
      unit_heads_frame advance_read_sessions_only simp: close_work_unit_def)

section \<open>The change log\<close>

definition log_ok :: "sqlite_db \<Rightarrow> bool" where
  "log_ok db \<longleftrightarrow> tbl_wf (t_change db) \<and> tbl_wf (t_history db)
     \<and> (\<forall>(c, _) \<in> set (t_change db). 0 < c \<and> c \<le> t_change_seq db)
     \<and> (\<forall>((_, c), _) \<in> set (t_history db). 0 < c \<and> c \<le> t_change_seq db)"

definition log_step :: "sqlite_db \<Rightarrow> sqlite_db \<Rightarrow> bool" where
  "log_step db db' \<longleftrightarrow> t_change_seq db \<le> t_change_seq db' \<and> (log_ok db \<longrightarrow> log_ok db')
     \<and> (\<forall>x \<in> set (t_change db'). x \<in> set (t_change db) \<or> t_change_seq db < fst x)
     \<and> (\<exists>h. t_history db' = t_history db @ h \<and> (\<forall>((_, c), _) \<in> set h. t_change_seq db < c))"

lemma log_step_eq:
  "t_change db' = t_change db \<Longrightarrow> t_history db' = t_history db \<Longrightarrow> t_change_seq db' = t_change_seq db \<Longrightarrow> log_step db db'"
  by (simp add: log_step_def log_ok_def)

lemma log_step_trans:
  assumes "log_step a b" "log_step b c" shows "log_step a c"
proof -
  from assms obtain h g where h: "t_history b = t_history a @ h" "\<forall>((_, c), _) \<in> set h. t_change_seq a < c"
    and g: "t_history c = t_history b @ g" "\<forall>((_, c), _) \<in> set g. t_change_seq b < c"
    and ab: "t_change_seq a \<le> t_change_seq b" and bc: "t_change_seq b \<le> t_change_seq c"
    unfolding log_step_def by blast
  have "t_history c = t_history a @ (h @ g)" using h g by simp
  moreover have "\<forall>((_, c), _) \<in> set (h @ g). t_change_seq a < c" using h(2) g(2) ab by fastforce
  ultimately have "\<exists>k. t_history c = t_history a @ k \<and> (\<forall>((_, c), _) \<in> set k. t_change_seq a < c)" by blast
  moreover have "x \<in> set (t_change a) \<or> t_change_seq a < fst x" if "x \<in> set (t_change c)" for x
    using assms that ab unfolding log_step_def by (meson le_less_trans)
  ultimately show ?thesis using assms ab bc unfolding log_step_def by (meson le_trans)
qed

interpretation change_log: statement_frame E log_step for E
proof unfold_locales
  fix key :: EntityKey and kind hs tok meta t cursor keys db d db'
  assume c: "insert_change E key kind hs tok meta t db = Inr (cursor, d)"
    and a: "advance_write_sessions E (scope_json key) keys cursor d = Inr db'"
  from insert_change_Ok[OF c] advance_write_sessions_Ok[OF a] obtain r where
    cur: "cursor = t_change_seq db + 1" and n1: "map_of (t_change db) cursor = None"
    and n2: "map_of (t_history db) (key, cursor) = None"
    and tc: "t_change db' = t_change db @ [(cursor, r)]" and th: "t_history db' = t_history db @ [((key, cursor), hs)]"
    and seq: "t_change_seq db' = cursor" by auto
  have "log_ok db \<Longrightarrow> log_ok db'"
    unfolding log_ok_def tc th seq using n1 n2 cur by (auto simp: tbl_wf_append_single)
  then show "log_step db db'" unfolding log_step_def tc th seq by (auto simp: cur)
next
  fix t db db'
  assume "record_retention t db = Inr db'"
  then obtain r where db': "db' = db\<lparr>t_retention := r\<rparr>" by (auto dest: record_retention_Ok)
  then show "log_step db (delete_changes t db')"
    by (auto simp: log_step_def log_ok_def delete_changes_def tbl_delete_def intro: distinct_map_filter simp: tbl_wf_def)
next
  fix u now db db'
  assume "expire_work_unit u now db = Inr db'"
  then show "log_step db db'"
    by (intro log_step_eq) (auto simp: expire_work_unit_Ok collect_crdt_garbage_def expired_unit_db_def Let_def)
qed (auto intro: log_step_eq log_step_trans dest!: insert_versions_frame replace_heads_frame delete_expired_frame
      insert_idempotency_frame store_work_unit_idempotency_only promote_idempotency_only
      unit_heads_frame advance_read_sessions_only simp: close_work_unit_def)

text \<open>Rows that leave the log are reported: the retention record of their scope covers their cursor, and
  goes on doing so.\<close>

definition reported_pruned :: "nat \<Rightarrow> string \<Rightarrow> sqlite_db \<Rightarrow> bool" where
  "reported_pruned c scope db \<longleftrightarrow> (\<exists>b. map_of (t_retention db) scope = Some b \<and> c \<le> b)"

definition log_kept :: "sqlite_db \<Rightarrow> sqlite_db \<Rightarrow> bool" where
  "log_kept db db' \<longleftrightarrow>
     (\<forall>(c, r) \<in> set (t_change db). (c, r) \<in> set (t_change db') \<or> reported_pruned c (scope_json (chr_key r)) db')
     \<and> (\<forall>c scope. reported_pruned c scope db \<longrightarrow> reported_pruned c scope db')"

lemma log_kept_eq: "t_change db' = t_change db \<Longrightarrow> t_retention db' = t_retention db \<Longrightarrow> log_kept db db'"
  by (auto simp: log_kept_def reported_pruned_def)

lemma log_kept_trans: "log_kept a b \<Longrightarrow> log_kept b c \<Longrightarrow> log_kept a c"
  unfolding log_kept_def by fast

lemma log_kept_pruned:
  assumes "record_retention t db = Inr db1" shows "log_kept db (delete_changes t db1)"
proof -
  obtain rt where "db1 = db\<lparr>t_retention := rt\<rparr>" using record_retention_Ok[OF assms] by blast
  then have kept: "(c, r) \<in> set (t_change (delete_changes t db1))"
    if "(c, r) \<in> set (t_change db)" "\<not> chr_recorded_at_unix_ms r < t" for c r
    using that unfolding delete_changes_set by simp
  have ret: "reported_pruned c s (delete_changes t db1) = reported_pruned c s db1" for c s
    by (simp add: reported_pruned_def delete_changes_def)
  have "reported_pruned c s db1" if "reported_pruned c s db" for c s
    using that record_retention_keeps[OF assms] by (fastforce simp: reported_pruned_def)
  moreover have "reported_pruned c (scope_json (chr_key r)) db1"
    if "(c, r) \<in> set (t_change db)" "chr_recorded_at_unix_ms r < t" for c r
    using record_retention_covers[OF assms that] by (simp add: reported_pruned_def)
  ultimately show ?thesis using kept unfolding log_kept_def ret by fast
qed

interpretation kept: statement_frame E log_kept for E
proof unfold_locales
  fix key :: EntityKey and kind hs tok meta t cursor keys db d db'
  assume c: "insert_change E key kind hs tok meta t db = Inr (cursor, d)"
    and a: "advance_write_sessions E (scope_json key) keys cursor d = Inr db'"
  from insert_change_Ok[OF c] advance_write_sessions_Ok[OF a] show "log_kept db db'"
    by (auto simp: log_kept_def reported_pruned_def)
next
  fix u now db db'
  assume "expire_work_unit u now db = Inr db'"
  then show "log_kept db db'"
    by (intro log_kept_eq) (auto simp: expire_work_unit_Ok collect_crdt_garbage_def expired_unit_db_def Let_def)
qed (auto intro: log_kept_eq log_kept_trans log_kept_pruned dest!: insert_versions_frame replace_heads_frame delete_expired_frame
      insert_idempotency_frame store_work_unit_idempotency_only promote_idempotency_only
      unit_heads_frame advance_read_sessions_only simp: close_work_unit_def)

text \<open>Everything else only appends to the log, with ascending cursors beyond those assigned.\<close>

definition log_appends :: "sqlite_db \<Rightarrow> sqlite_db \<Rightarrow> bool" where
  "log_appends db db' \<longleftrightarrow> t_change_seq db \<le> t_change_seq db'
     \<and> (\<exists>rows. t_change db' = t_change db @ rows \<and> sorted_wrt (<) (map fst rows)
          \<and> (\<forall>x \<in> set rows. t_change_seq db < fst x \<and> fst x \<le> t_change_seq db'))"

lemma log_appends_eq: "t_change db' = t_change db \<Longrightarrow> t_change_seq db' = t_change_seq db \<Longrightarrow> log_appends db db'"
  by (simp add: log_appends_def)

lemma log_appends_trans:
  assumes "log_appends a b" "log_appends b c" shows "log_appends a c"
proof -
  from assms obtain f g where f: "t_change b = t_change a @ f" "sorted_wrt (<) (map fst f)"
      "\<forall>x \<in> set f. t_change_seq a < fst x \<and> fst x \<le> t_change_seq b"
    and g: "t_change c = t_change b @ g" "sorted_wrt (<) (map fst g)"
      "\<forall>x \<in> set g. t_change_seq b < fst x \<and> fst x \<le> t_change_seq c"
    and seq: "t_change_seq a \<le> t_change_seq b" "t_change_seq b \<le> t_change_seq c"
    unfolding log_appends_def by blast
  have "sorted_wrt (<) (map fst (f @ g))" using f g by (fastforce simp: sorted_wrt_append)
  moreover have "\<forall>x \<in> set (f @ g). t_change_seq a < fst x \<and> fst x \<le> t_change_seq c" using f g seq by fastforce
  ultimately show ?thesis unfolding log_appends_def using f(1) g(1) seq by (intro conjI exI[of _ "f @ g"]) simp_all
qed

interpretation appends: writing_frame E log_appends for E
proof unfold_locales
  fix key :: EntityKey and kind hs tok meta t cursor keys db d db'
  assume c: "insert_change E key kind hs tok meta t db = Inr (cursor, d)"
    and a: "advance_write_sessions E (scope_json key) keys cursor d = Inr db'"
  from insert_change_Ok[OF c] advance_write_sessions_Ok[OF a] show "log_appends db db'" by (auto simp: log_appends_def)
next
  fix u now db db'
  assume "expire_work_unit u now db = Inr db'"
  then show "log_appends db db'"
    by (intro log_appends_eq) (auto simp: expire_work_unit_Ok collect_crdt_garbage_def expired_unit_db_def Let_def)
qed (auto intro: log_appends_eq log_appends_trans dest!: insert_versions_frame replace_heads_frame delete_expired_frame
      insert_idempotency_frame store_work_unit_idempotency_only promote_idempotency_only
      unit_heads_frame advance_read_sessions_only simp: close_work_unit_def)

end
