(* ===== verification/Sqlite_Provider.thy ===== *)
theory Sqlite_Provider
  imports Statement_Frames
begin

text \<open>
  The provider object of \<open>crates/provider-sqlite/src/lib.rs\<close>: its connection, its change
  signal and the methods of the \<open>Provider\<close> trait, each of which runs the transactions of the
  other theories on the database file; then the runs of the provider and what holds in every state
  they reach.
\<close>

section \<open>The provider object\<close>

record sqlite_provider =
  sp_connected :: bool
  sp_changes :: nat
  sp_db :: sqlite_db

type_synonym 'a provider_step = "'a presult \<times> sqlite_provider"

definition STORAGE_SCHEMA_VERSION :: int where
  "STORAGE_SCHEMA_VERSION = 12"

definition sqlite_capabilities :: ProviderCapabilities where
  "sqlite_capabilities =
     \<lparr>authority = True, replica = False, change_stream = True, retrieval = True, idempotency = True,
      work_units = True, causal_reads = True, monotonic_reads = True, read_your_writes = True,
      linearizable_reads = True\<rparr>"

text \<open>\<open>connection()\<close>: a provider that was shut down refuses every call.\<close>

definition call :: "(sqlite_db \<Rightarrow> 'a db_step) \<Rightarrow> sqlite_provider \<Rightarrow> 'a provider_step" where
  "call f p =
     (if sp_connected p then (case f (sp_db p) of (r, db) \<Rightarrow> (r, p\<lparr>sp_db := db\<rparr>))
      else (Err provider_error_new, p))"

definition signal_changes :: "bool \<Rightarrow> 'a provider_step \<Rightarrow> 'a provider_step" where
  "signal_changes b s = (fst s, if b then (snd s)\<lparr>sp_changes := sp_changes (snd s) + 1\<rparr> else snd s)"

text \<open>Calls whose \<open>map_err\<close> wraps every failure into a new internal error.\<close>

definition wrap_internal :: "'a db_step \<Rightarrow> 'a db_step" where
  "wrap_internal s = (map_err (\<lambda>_. provider_error_new) (fst s), snd s)"

definition after_sweep :: "clock \<Rightarrow> (sqlite_db \<Rightarrow> 'a db_step) \<Rightarrow> sqlite_db \<Rightarrow> 'a db_step" where
  "after_sweep clk f db = and_then (sweep_expired_work_units clk db) (\<lambda>_. f)"

definition check_schema :: "sqlite_db \<Rightarrow> sqlite_db presult" where
  "check_schema db =
     (if user_version db = 0 then Ok (db\<lparr>user_version := STORAGE_SCHEMA_VERSION\<rparr>)
      else if user_version db \<noteq> STORAGE_SCHEMA_VERSION then Err provider_error_new
      else Ok db)"

definition start_runtime :: "nat \<Rightarrow> sqlite_db \<Rightarrow> (ProviderRecovery \<times> sqlite_db) presult" where
  "start_runtime started_at db =
     bindR (ok_or (checked_add_u64 (rt_generation (t_runtime db)) 1) provider_error_new) (\<lambda>g.
     bindR (bind_u64 g) (\<lambda>g.
     bindR (bind_u64 started_at) (\<lambda>t.
       Ok (\<lparr>generation = g, recovered_after_unclean_shutdown = rt_running (t_runtime db)\<rparr>,
           db\<lparr>t_runtime := \<lparr>rt_generation = g, rt_running = True, rt_started_at_unix_ms = t,
                            rt_clean_shutdown_at_unix_ms = None\<rparr>\<rparr>))))"

definition initialize_tx :: "clock \<Rightarrow> sqlite_db \<Rightarrow> ProviderRecovery db_step" where
  "initialize_tx clk db =
     wrap_internal (finish_tx None None db
       (bindR (unix_time_ms clk) (\<lambda>started_at.
        bindR (check_schema db) (\<lambda>db.
        bindR (expire_open_work_units started_at db) (\<lambda>db.
          start_runtime started_at db)))))"

definition initialize :: "clock \<Rightarrow> sqlite_provider \<Rightarrow> ProviderRecovery provider_step" where
  "initialize clk p = call (initialize_tx clk) p"

definition read_entity ::
  "sqlite_env \<Rightarrow> clock \<Rightarrow> clock \<Rightarrow> clock \<Rightarrow> EntityKey \<Rightarrow> ReadConsistency \<Rightarrow> sqlite_provider
   \<Rightarrow> EntitySnapshot option ConsistentRead provider_step" where
  "read_entity E clk0 clk clk' key consistency p =
     call (after_sweep clk0 (read_entity_consistent E clk clk' key consistency)) p"

definition provider_read_changes :: "ChangeQuery \<Rightarrow> sqlite_provider \<Rightarrow> ChangePage provider_step" where
  "provider_read_changes q p = call (\<lambda>db. wrap_internal (read_changes q db)) p"

definition commit_entity ::
  "sqlite_env \<Rightarrow> clock \<Rightarrow> clock \<Rightarrow> EntityCommit \<Rightarrow> sqlite_provider \<Rightarrow> EntityCommitOutcome provider_step" where
  "commit_entity E clk0 clk c p =
     (let s = call (after_sweep clk0 (commit_entity_transaction E clk c)) p
      in signal_changes (fst s = Inr Committed) s)"

definition provider_read_idempotency ::
  "sqlite_env \<Rightarrow> clock \<Rightarrow> clock \<Rightarrow> string \<Rightarrow> ReadConsistency \<Rightarrow> string \<Rightarrow> string \<Rightarrow> nat \<Rightarrow> sqlite_provider
   \<Rightarrow> IdempotencyReadOutcome provider_step" where
  "provider_read_idempotency E clk clk' scope consistency identity request now p =
     call (read_idempotency_consistent E clk clk' scope consistency identity request now) p"

definition provider_read_idempotency_in_work_unit ::
  "sqlite_env \<Rightarrow> clock \<Rightarrow> clock \<Rightarrow> WorkUnit \<Rightarrow> ReadConsistency \<Rightarrow> string \<Rightarrow> string \<Rightarrow> nat \<Rightarrow> bool
   \<Rightarrow> sqlite_provider \<Rightarrow> IdempotencyReadOutcome provider_step" where
  "provider_read_idempotency_in_work_unit E clk clk' wu consistency identity request now allow_replay p =
     call (read_idempotency_in_work_unit E clk clk' wu consistency identity request now allow_replay) p"

definition provider_commit_entity_idempotent ::
  "sqlite_env \<Rightarrow> clock \<Rightarrow> EntityCommit \<Rightarrow> IdempotencyRecord \<Rightarrow> nat \<Rightarrow> sqlite_provider
   \<Rightarrow> IdempotentCommitOutcome provider_step" where
  "provider_commit_entity_idempotent E clk c idem now p =
     (let s = call (commit_entity_idempotent E clk c idem now) p
      in signal_changes (fst s = Inr ICommitted) s)"

definition provider_read_entity_in_work_unit ::
  "sqlite_env \<Rightarrow> clock \<Rightarrow> clock \<Rightarrow> clock \<Rightarrow> WorkUnit \<Rightarrow> EntityKey \<Rightarrow> ReadConsistency \<Rightarrow> sqlite_provider
   \<Rightarrow> WorkUnitReadOutcome provider_step" where
  "provider_read_entity_in_work_unit E clk0 clk clk' wu key consistency p =
     call (after_sweep clk0 (read_entity_in_work_unit E clk clk' wu key consistency)) p"

text \<open>\<open>SELECT 1\<close> always succeeds on an open connection. Waiting is a loop that re-reads the
  frontier of the scope after every change signal; one round of it is modelled: it answers, or it
  goes on waiting (\<open>None\<close>).\<close>

definition health_check :: "sqlite_provider \<Rightarrow> unit provider_step" where
  "health_check p = call (\<lambda>db. (Ok (), db)) p"

definition wait_for_changes_round :: "string \<Rightarrow> nat \<Rightarrow> sqlite_provider \<Rightarrow> unit option provider_step" where
  "wait_for_changes_round scope after_cursor p =
     call (\<lambda>db. (Ok (if current_scope_cursor scope db > after_cursor then Some () else None), db)) p"

definition provider_retrieve_entities ::
  "sqlite_env \<Rightarrow> retrieval_env \<Rightarrow> clock \<Rightarrow> clock \<Rightarrow> RetrieveQuery \<Rightarrow> ReadConsistency \<Rightarrow> sqlite_provider
   \<Rightarrow> RetrievedPage ConsistentRead provider_step" where
  "provider_retrieve_entities E V clk clk' q consistency p =
     call (retrieve_entities_consistent E V clk clk' q consistency) p"

definition provider_retrieve_entities_in_work_unit ::
  "sqlite_env \<Rightarrow> retrieval_env \<Rightarrow> clock \<Rightarrow> clock \<Rightarrow> clock \<Rightarrow> WorkUnit \<Rightarrow> RetrieveQuery \<Rightarrow> ReadConsistency
   \<Rightarrow> sqlite_provider \<Rightarrow> WorkUnitRetrieveOutcome provider_step" where
  "provider_retrieve_entities_in_work_unit E V clk0 clk clk' wu q consistency p =
     call (after_sweep clk0 (retrieve_entities_in_work_unit E V clk clk' wu q consistency)) p"

definition provider_commit_entity_in_work_unit ::
  "sqlite_env \<Rightarrow> clock \<Rightarrow> clock \<Rightarrow> WorkUnitCommit \<Rightarrow> sqlite_provider \<Rightarrow> WorkUnitCommitOutcome provider_step" where
  "provider_commit_entity_in_work_unit E clk0 clk c p =
     (let s = call (after_sweep clk0 (commit_entity_in_work_unit E clk c)) p
      in signal_changes (fst s = Inr WcPublished) s)"

definition provider_publish_work_unit ::
  "sqlite_env \<Rightarrow> clock \<Rightarrow> WorkUnitPublish \<Rightarrow> sqlite_provider \<Rightarrow> WorkUnitCommitOutcome provider_step" where
  "provider_publish_work_unit E clk0 w p =
     (let s = call (\<lambda>db. wrap_internal (after_sweep clk0 (publish_work_unit E w) db)) p
      in signal_changes (fst s = Inr WcPublished) s)"

text \<open>\<open>PRAGMA wal_checkpoint\<close> answers \<open>(busy, log frames, checkpointed frames)\<close>, an argument here.\<close>

definition checkpoint :: "clock \<Rightarrow> nat \<times> nat \<times> nat \<Rightarrow> sqlite_provider \<Rightarrow> unit provider_step" where
  "checkpoint clk0 wal p =
     call (\<lambda>db. wrap_internal (after_sweep clk0 (\<lambda>db.
       (case wal of (busy, log_frames, done_frames) \<Rightarrow>
          (if busy \<noteq> 0 \<or> done_frames \<noteq> log_frames then Err provider_error_new else Ok (), db))) db)) p"

text \<open>The connection is taken before anything else, so every later call is refused even when
  shutting down fails.\<close>

definition persist_shutdown :: "nat \<Rightarrow> nat \<Rightarrow> sqlite_db \<Rightarrow> unit db_step" where
  "persist_shutdown now busy db =
     (case bindR (expire_open_work_units now db) (\<lambda>db. bindR (bind_u64 now) (\<lambda>now.
             Ok (db\<lparr>t_runtime := (t_runtime db)\<lparr>rt_running := False, rt_clean_shutdown_at_unix_ms := Some now\<rparr>\<rparr>))) of
        Inl e \<Rightarrow> (Err provider_error_new, db)
      | Inr db' \<Rightarrow> (if busy \<noteq> 0 then Err provider_error_new else Ok (), db'))"

definition shutdown :: "clock \<Rightarrow> nat \<Rightarrow> sqlite_provider \<Rightarrow> unit provider_step" where
  "shutdown clk busy p =
     (if \<not> sp_connected p then (Ok (), p)
      else
        let p = p\<lparr>sp_connected := False\<rparr>
        in case unix_time_ms clk of
             Inl e \<Rightarrow> (Err e, p)
           | Inr now \<Rightarrow> (case persist_shutdown now busy (sp_db p) of (r, db) \<Rightarrow> (r, p\<lparr>sp_db := db\<rparr>)))"

text \<open>An idempotent commit that is not committed changes nothing.\<close>

lemma idempotent_commit_unchanged:
  assumes "provider_commit_entity_idempotent E clk c idem now p = (r, p')" "r \<noteq> Inr ICommitted"
  shows "p' = p"
proof -
  have "snd (commit_entity_idempotent E clk c idem now db) = db"
    if "fst (commit_entity_idempotent E clk c idem now db) \<noteq> Inr ICommitted" for db
    using that by (auto simp: commit_entity_idempotent_def finish_tx_def bindR_eq_Inr split: sum.splits option.splits
        EntityCommitOutcome.splits prod.splits if_splits)
  from this[of "sp_db p"] show ?thesis using assms
    by (auto simp: provider_commit_entity_idempotent_def signal_changes_def call_def Let_def split: prod.splits if_splits)
qed

end
