(* ===== verification/Provider_Runs.thy ===== *)
theory Provider_Runs
  imports Sqlite_Provider
begin

text \<open>
  Runs of the provider: any sequence of calls, shutdowns, crashes and restarts. A relation that
  satisfies the statement contract and ignores the runtime row relates the ends of every run
  (\<open>provider_frame\<close>); one that satisfies it but for pruning relates the ends of every call that does not
  read changes (\<open>process_frame\<close>). With the storage invariant this gives the invariant of every reachable
  state, the session guarantees, the life cycle of units, the append-only change log and the
  reporting of what was pruned from it.
\<close>


section \<open>Runs of the provider\<close>

text \<open>One call of the provider, or the start of a new process on the database file the last one left
  (\<open>Reopen\<close>, after a shutdown or a crash). Commits name as heads versions they bring or expect, and
  the identity of a unit determines its scope: both hold for every request the engine makes.\<close>

inductive provider_step :: "sqlite_env \<Rightarrow> sqlite_provider \<Rightarrow> sqlite_provider \<Rightarrow> bool" for E where
  Initialize: "initialize clk p = (r, p') \<Longrightarrow> provider_step E p p'"
| ReadEntity: "read_entity E clk0 clk clk' key rc p = (r, p') \<Longrightarrow> provider_step E p p'"
| ReadChanges: "provider_read_changes q p = (r, p') \<Longrightarrow> provider_step E p p'"
| CommitEntity: "commit_entity E clk0 clk c p = (r, p') \<Longrightarrow> commit_wf c \<Longrightarrow> provider_step E p p'"
| ReadIdempotency: "provider_read_idempotency E clk clk' scope rc i q now p = (r, p') \<Longrightarrow> provider_step E p p'"
| ReadIdempotencyInWorkUnit:
    "provider_read_idempotency_in_work_unit E clk clk' wu rc i q now allow p = (r, p') \<Longrightarrow>
     \<forall>row. map_of (t_work_unit (sp_db p)) (wu_identity_json wu) = Some row \<longrightarrow> wur_scope_json row = wu_scope_json wu \<Longrightarrow>
     provider_step E p p'"
| CommitIdempotent: "provider_commit_entity_idempotent E clk c idem now p = (r, p') \<Longrightarrow> commit_wf c \<Longrightarrow> provider_step E p p'"
| ReadInWorkUnit: "provider_read_entity_in_work_unit E clk0 clk clk' wu key rc p = (r, p') \<Longrightarrow> provider_step E p p'"
| RetrieveEntities: "provider_retrieve_entities E V clk clk' rq rc p = (r, p') \<Longrightarrow> provider_step E p p'"
| RetrieveInWorkUnit: "provider_retrieve_entities_in_work_unit E V clk0 clk clk' wu rq rc p = (r, p') \<Longrightarrow>
     provider_step E p p'"
| CommitInWorkUnit: "provider_commit_entity_in_work_unit E clk0 clk wc p = (r, p') \<Longrightarrow> commit_wf (wc_entity wc) \<Longrightarrow>
     provider_step E p p'"
| PublishWorkUnit: "provider_publish_work_unit E clk0 w p = (r, p') \<Longrightarrow>
     \<forall>res \<in> set (wp_resolutions w). resolution_wf res \<Longrightarrow> provider_step E p p'"
| Checkpoint: "checkpoint clk0 wal p = (r, p') \<Longrightarrow> provider_step E p p'"
| Shutdown: "shutdown clk busy p = (r, p') \<Longrightarrow> provider_step E p p'"
| Reopen: "provider_step E p (p\<lparr>sp_connected := True, sp_changes := 0\<rparr>)"

definition fresh_provider :: sqlite_provider where
  "fresh_provider = \<lparr>sp_connected = True, sp_changes = 0, sp_db = empty_db\<rparr>"

definition provider_run :: "sqlite_env \<Rightarrow> sqlite_provider \<Rightarrow> sqlite_provider \<Rightarrow> bool" where
  "provider_run E = (provider_step E)\<^sup>*\<^sup>*"

locale process_frame = writing_frame +
  assumes runtime: "R db (db\<lparr>t_runtime := rt\<rparr>)"
    and schema: "R db (db\<lparr>user_version := v\<rparr>)"
begin

lemma initialize_tx: "initialize_tx clk db = (r, db') \<Longrightarrow> R db db'"
proof -
  assume run: "initialize_tx clk db = (r, db')"
  have chain: "R db d" if "check_schema db = Inr d1" "expire_open_work_units t d1 = Inr d2" "start_runtime t d2 = Inr (x, d)" for d1 d2 d x t
  proof -
    have "R db d1" using that(1) by (auto simp: check_schema_def refl schema split: if_splits)
    moreover have "R d2 d" using that(3) by (auto simp: start_runtime_def bindR_eq_Inr runtime)
    ultimately show ?thesis using sweep[OF that(2)] by (blast intro: trans)
  qed
  from run show ?thesis
    by (auto simp: initialize_tx_def wrap_internal_def finish_tx_def refl bindR_eq_Inr intro: chain
        split: sum.splits prod.splits)
qed

lemma swept:
  assumes "after_sweep clk f db = (r, db')" and "\<And>d r d'. f d = (r, d') \<Longrightarrow> R d d'"
  shows "R db db'"
proof -
  obtain sr sd where s: "sweep_expired_work_units clk db = (sr, sd)" by (cases "sweep_expired_work_units clk db")
  show ?thesis using assms s sweep_transaction[OF s]
    by (cases sr) (auto simp: after_sweep_def intro: trans)
qed

lemma called:
  assumes "call f p = (r, p')" and "\<And>d r d'. f d = (r, d') \<Longrightarrow> R d d'"
  shows "R (sp_db p) (sp_db p')"
  using assms by (auto simp: call_def refl split: if_splits prod.splits)

lemma signalled: "signal_changes b s = (r, p') \<Longrightarrow> sp_db p' = sp_db (snd s)"
  by (auto simp: signal_changes_def)

lemma wrapped: "wrap_internal s = (r, d) \<Longrightarrow> d = snd s"
  by (auto simp: wrap_internal_def)

lemma shut_down:
  assumes "shutdown clk busy p = (r, p')" shows "R (sp_db p) (sp_db p')"
proof -
  have "R db d" if "expire_open_work_units t db = Inr d1" "d = d1\<lparr>t_runtime := x\<rparr>" for db d d1 t x
    using sweep[OF that(1)] runtime unfolding that(2) by (rule trans)
  then have "R db d" if "persist_shutdown t busy db = (s, d)" for db d t s
    using that by (auto simp: persist_shutdown_def bindR_eq_Inr refl split: sum.splits if_splits)
  with assms show ?thesis
    by (auto simp: shutdown_def Let_def refl split: if_splits sum.splits prod.splits)
qed

lemma writing_step:
  assumes "provider_step E p p'" and "\<nexists>q r. provider_read_changes q p = (r, p')" shows "R (sp_db p) (sp_db p')"
  using assms(1)
proof (cases rule: provider_step.cases)
  case (Initialize clk r)
  then show ?thesis by (auto simp: initialize_def intro: called initialize_tx)
next
  case (ReadEntity clk0 clk clk' key rc r)
  then show ?thesis unfolding read_entity_def by (rule called) (rule swept, assumption, rule read)
next
  case (ReadChanges q r)
  with assms(2) show ?thesis by blast
next
  case (CommitEntity clk0 clk c r)
  have "R (sp_db p) (sp_db (snd (call (after_sweep clk0 (commit_entity_transaction E clk c)) p)))"
    by (rule called[OF surjective_pairing]) (rule swept, assumption, rule commit_transaction)
  with CommitEntity show ?thesis by (auto simp: commit_entity_def Let_def dest!: signalled)
next
  case (ReadIdempotency clk clk' scope rc i q now r)
  then show ?thesis unfolding provider_read_idempotency_def by (rule called) (rule read_idempotent)
next
  case (ReadIdempotencyInWorkUnit clk clk' wu rc i q now allow r)
  then show ?thesis
    by (auto simp: provider_read_idempotency_in_work_unit_def call_def refl intro: read_idempotent_in_unit
        split: if_splits prod.splits)
next
  case (CommitIdempotent clk c idem now r)
  have "R (sp_db p) (sp_db (snd (call (commit_entity_idempotent E clk c idem now) p)))"
    by (rule called[OF surjective_pairing]) (rule commit_idempotent)
  with CommitIdempotent show ?thesis by (auto simp: provider_commit_entity_idempotent_def Let_def dest!: signalled)
next
  case (ReadInWorkUnit clk0 clk clk' wu key rc r)
  then show ?thesis unfolding provider_read_entity_in_work_unit_def
    by (rule called) (rule swept, assumption, rule read_in_unit)
next
  case (RetrieveEntities V clk clk' rq rc r)
  then show ?thesis unfolding provider_retrieve_entities_def by (rule called) (rule retrieve)
next
  case (RetrieveInWorkUnit V clk0 clk clk' wu rq rc r)
  then show ?thesis unfolding provider_retrieve_entities_in_work_unit_def
    by (rule called) (rule swept, assumption, rule retrieve_in_unit)
next
  case (CommitInWorkUnit clk0 clk wc r)
  have "R (sp_db p) (sp_db (snd (call (after_sweep clk0 (commit_entity_in_work_unit E clk wc)) p)))"
    by (rule called[OF surjective_pairing]) (rule swept, assumption, rule commit_in_unit)
  with CommitInWorkUnit show ?thesis by (auto simp: provider_commit_entity_in_work_unit_def Let_def dest!: signalled)
next
  case (PublishWorkUnit clk0 w r)
  have "R (sp_db p) (sp_db (snd (call (\<lambda>db. wrap_internal (after_sweep clk0 (publish_work_unit E w) db)) p)))"
  proof (rule called[OF surjective_pairing])
    fix d r d'
    assume "wrap_internal (after_sweep clk0 (publish_work_unit E w) d) = (r, d')"
    then have "after_sweep clk0 (publish_work_unit E w) d = (fst (after_sweep clk0 (publish_work_unit E w) d), d')"
      by (auto simp: wrap_internal_def)
    then show "R d d'" by (rule swept) (rule publish)
  qed
  with PublishWorkUnit show ?thesis by (auto simp: provider_publish_work_unit_def Let_def dest!: signalled)
next
  case (Checkpoint clk0 wal r)
  have "R d (snd (after_sweep clk0 (\<lambda>db. (case wal of (busy, log_frames, done_frames) \<Rightarrow>
          (if busy \<noteq> 0 \<or> done_frames \<noteq> log_frames then Inl provider_error_new else Inr (), db))) d))" for d
    by (rule swept[OF surjective_pairing]) (auto simp: refl split: prod.splits)
  with Checkpoint show ?thesis
    by (auto simp: checkpoint_def intro!: called[of _ p r p'] dest!: wrapped)
next
  case (Shutdown clk busy r)
  then show ?thesis by (rule shut_down)
next
  case Reopen
  then show ?thesis by (simp add: refl)
qed

end

locale provider_frame = process_frame E R + statement_frame E R for E :: sqlite_env and R
begin

lemma reading_step: "provider_read_changes q p = (r, p') \<Longrightarrow> R (sp_db p) (sp_db p')"
  unfolding provider_read_changes_def
  by (rule called) (auto simp: wrap_internal_def intro: changes_read[OF surjective_pairing])

lemma step: "provider_step E p p' \<Longrightarrow> R (sp_db p) (sp_db p')"
  using writing_step reading_step by blast

lemma run: "provider_run E p p' \<Longrightarrow> R (sp_db p) (sp_db p')"
  unfolding provider_run_def by (induction rule: rtranclp_induct) (auto intro: refl trans step)

end

interpretation progress: provider_frame E units_progress for E
  by unfold_locales (simp_all add: units_progress_eq)

interpretation frontier: provider_frame E frontier_step for E
  by unfold_locales (simp_all add: frontier_step_eq)

interpretation records: provider_frame E idempotency_step for E
  by unfold_locales (simp_all add: idempotency_step_eq)

interpretation change_log: provider_frame E log_step for E
  by unfold_locales (simp_all add: log_step_eq)

interpretation kept: provider_frame E log_kept for E
  by unfold_locales (simp_all add: log_kept_eq)

interpretation appends: process_frame E log_appends for E
  by unfold_locales (simp_all add: log_appends_eq)


section \<open>The storage invariant in every run\<close>

lemma storage_commit_transaction:
  assumes "commit_entity_transaction E clk c db = (r, db')" "storage_ok db" "commit_wf c" shows "storage_ok db'"
proof (cases "r = Inr Committed")
  case True
  with assms(1) commit_entity_transaction_Committed[of E clk c db db'] storage_ok_committed[OF assms(2) _ assms(3)]
  show ?thesis by auto
next
  case False
  with assms show ?thesis
    by (auto simp: commit_entity_transaction_def finish_tx_def
        split: if_splits sum.splits prod.splits EntityCommitOutcome.splits)
qed

lemma storage_cong_idempotency:
  "db' = db\<lparr>t_idempotency := a, t_wu_idempotency := b\<rparr> \<Longrightarrow> storage_ok db' = storage_ok db"
  by (rule storage_ok_cong) simp_all

lemma storage_commit_idempotent:
  assumes "commit_entity_idempotent E clk c idem now db = (r, db')" "storage_ok db" "commit_wf c" shows "storage_ok db'"
proof (cases "r = Inr ICommitted")
  case True
  from commit_entity_idempotent_Committed[of E clk c idem now db db'] assms(1) True obtain db1 db2 where d:
    "delete_expired_idempotency now db = Inr db1" "published_heads (ec_key c) db1 = sort (ec_expected_heads c)"
    "committed_db c db1 db2" "insert_idempotency E idem db2 = Inr db'" by blast
  have "storage_ok db1" using delete_expired_frame[OF d(1)] assms(2) storage_cong_idempotency by auto
  from storage_ok_committed[OF this d(3) assms(3) d(2)] have "storage_ok db2" .
  moreover obtain a where "db' = db2\<lparr>t_idempotency := a\<rparr>" using insert_idempotency_frame[OF d(4)] by blast
  then have "storage_ok db' = storage_ok db2" by (intro storage_ok_cong) simp_all
  ultimately show ?thesis by simp
next
  case False
  with assms show ?thesis
    by (auto simp: commit_entity_idempotent_def finish_tx_def bindR_def
        split: if_splits sum.splits prod.splits option.splits EntityCommitOutcome.splits)
qed

lemma storage_session: "storage_ok (db\<lparr>t_session := t\<rparr>) = storage_ok db"
  by (rule storage_ok_cong) simp_all

lemma storage_read:
  assumes "read_entity_consistent E clk clk' key rc db = (r, db')" "storage_ok db" shows "storage_ok db'"
proof -
  have "storage_ok d" if "advance_read_sessions E s rc f db = Inr d" for s f d
    using advance_read_sessions_only[OF that] assms(2) by (auto simp: storage_session)
  with assms show ?thesis
    by (auto simp: read_entity_consistent_def Let_def finish_tx_def bindR_def
        split: if_splits sum.splits prod.splits option.splits)
qed

lemma storage_read_idempotency:
  "read_idempotency i q now db = Inr (out, d) \<Longrightarrow> storage_ok d = storage_ok db"
  by (auto simp: read_idempotency_def Let_def bindR_eq_Inr storage_cong_idempotency dest!: delete_expired_frame split: if_splits)

lemma storage_read_idempotent:
  assumes "read_idempotency_consistent E clk clk' scope rc i q now db = (r, db')" "storage_ok db" shows "storage_ok db'"
proof -
  have "storage_ok d2" if "read_idempotency i q now db = Inr (out, d)" "advance_read_sessions E scope rc f d = Inr d2" for out d d2 f
    using storage_read_idempotency[OF that(1)] advance_read_sessions_only[OF that(2)] assms(2) by (auto simp: storage_session)
  with assms show ?thesis
    by (auto simp: read_idempotency_consistent_def finish_tx_def bindR_def
        split: if_splits sum.splits prod.splits option.splits)
qed

lemma storage_read_idempotent_in_unit:
  assumes "read_idempotency_in_work_unit E clk clk' wu rc i q now allow db = (r, db')" "storage_ok db"
  shows "storage_ok db'"
proof -
  have "storage_ok d2" if rd: "read_work_unit_idempotency E wu i q now allow db = Inr (out, d1)"
    and adv: "advance_read_sessions E s rc f d1 = Inr d2" for out d1 d2 s f
  proof -
    from rd obtain st d where ens: "ensure_work_unit E wu db = Inr (st, d)"
      by (auto simp: read_work_unit_idempotency_def bindR_eq_Inr)
    have "d1 = d \<or> delete_expired_idempotency now d = Inr d1"
      using rd ens by (auto simp: read_work_unit_idempotency_def bindR_eq_Inr split: if_splits option.splits)
    then have "storage_ok d1" using storage_ok_ensure[OF ens assms(2)]
      by (auto simp: storage_cong_idempotency dest!: delete_expired_frame)
    then show ?thesis using advance_read_sessions_only[OF adv] by (auto simp: storage_session)
  qed
  with assms show ?thesis
    by (auto simp: read_idempotency_in_work_unit_def Let_def finish_tx_def bindR_def
        split: if_splits sum.splits prod.splits option.splits)
qed

lemma storage_read_in_unit:
  assumes run: "read_entity_in_work_unit E clk clk' wu key rc db = (r, db')" and ok: "storage_ok db"
  shows "storage_ok db'"
proof (cases "ensure_work_unit E wu db")
  case (Inl e)
  with run ok show ?thesis by (simp add: read_entity_in_work_unit_def Let_def)
next
  case (Inr sd)
  obtain st d where sd: "sd = (st, d)" by (cases sd)
  note ens = Inr[unfolded sd]
  have okd: "storage_ok d" by (rule storage_ok_ensure[OF ens ok])
  have open_case: "storage_ok d3" if "capture_work_unit_entity u key d = Inr d2" "advance_read_sessions E s rc b d2 = Inr d3" for u s b d2 d3
    using storage_ok_capture[OF that(1) okd] advance_read_sessions_only[OF that(2)] by (auto simp: storage_session)
  show ?thesis
  proof (cases st)
    case SwOpen
    with run ens open_case ok show ?thesis
      by (auto simp: read_entity_in_work_unit_def Let_def finish_tx_def bindR_def
          split: if_splits sum.splits prod.splits option.splits)
  qed (use run ens okd ok in \<open>auto simp: read_entity_in_work_unit_def Let_def finish_tx_def split: sum.splits\<close>)
qed

lemma storage_retrieve:
  assumes "retrieve_entities_consistent E V clk clk' q rc db = (r, db')" "storage_ok db" shows "storage_ok db'"
proof -
  have "storage_ok d" if "advance_read_sessions E s rc f db = Inr d" for s f d
    using advance_read_sessions_only[OF that] assms(2) by (auto simp: storage_session)
  with assms show ?thesis
    by (auto simp: retrieve_entities_consistent_def finish_tx_def bindR_eq_Inr
        split: sum.splits prod.splits option.splits)
qed

lemma storage_retrieve_unit_entities:
  "retrieve_unit_entities u q cs db = Inr (es, db') \<Longrightarrow> storage_ok db \<Longrightarrow> storage_ok db'"
  by (induction cs arbitrary: db es) (auto simp: bindR_eq_Inr dest: storage_ok_capture)

lemma storage_retrieve_in_unit:
  assumes run: "retrieve_entities_in_work_unit E V clk clk' wu q rc db = (r, db')" and ok: "storage_ok db"
  shows "storage_ok db'"
proof (cases "ensure_work_unit E wu db")
  case (Inl e)
  with run ok show ?thesis by (simp add: retrieve_entities_in_work_unit_def Let_def)
next
  case (Inr sd)
  obtain st d where sd: "sd = (st, d)" by (cases sd)
  note ens = Inr[unfolded sd]
  have okd: "storage_ok d" by (rule storage_ok_ensure[OF ens ok])
  have open_case: "storage_ok d3" if "retrieve_unit_entities u q cs d = Inr (es, d2)"
    "advance_read_sessions E s rc b d2 = Inr d3" for u s b cs es d2 d3
    using storage_retrieve_unit_entities[OF that(1) okd] advance_read_sessions_only[OF that(2)]
    by (auto simp: storage_session)
  show ?thesis
  proof (cases st)
    case SwOpen
    with run ens open_case ok show ?thesis
      by (auto simp: retrieve_entities_in_work_unit_def Let_def finish_tx_def bindR_eq_Inr bindR_eq_Inl
          split: sum.splits prod.splits option.splits)
  qed (use run ens okd ok in \<open>auto simp: retrieve_entities_in_work_unit_def Let_def finish_tx_def
        split: sum.splits\<close>)
qed

lemma storage_commit_in_unit:
  assumes "commit_entity_in_work_unit E clk c db = (r, db')" "storage_ok db" "commit_wf (wc_entity c)" shows "storage_ok db'"
proof (cases r)
  case (Inl e)
  with assms commit_in_work_unit_Err show ?thesis by metis
next
  case (Inr out)
  from commit_in_work_unit_cases[OF assms(1)[unfolded Inr] assms(2,3)] show ?thesis
    by (auto intro: publishes_storage_ok)
qed

lemma publish_work_unit_Err:
  "publish_work_unit E p db = (Inl e, db') \<Longrightarrow> db' = db"
  by (auto simp: publish_work_unit_def Let_def dest: finish_tx_Err
      split: if_splits sum.splits prod.splits StoredWorkUnitState.splits)

lemma storage_publish:
  assumes "publish_work_unit E p db = (r, db')" "storage_ok db" "\<forall>res \<in> set (wp_resolutions p). resolution_wf res"
  shows "storage_ok db'"
proof (cases r)
  case (Inl e)
  with assms publish_work_unit_Err show ?thesis by metis
next
  case (Inr out)
  from publish_work_unit_cases[OF assms(1)[unfolded Inr] assms(2,3)] show ?thesis
    by (auto intro: publishes_storage_ok)
qed

lemma storage_changes: "read_changes q db = (r, db') \<Longrightarrow> storage_ok db' = storage_ok db"
proof -
  have "storage_ok d = storage_ok db" if "record_retention t db = Inr d1" "d = delete_changes t d1" for t d d1
  proof -
    from retention_frame[OF that(1)] that(2) obtain a b where "d = db\<lparr>t_retention := a, t_change := b\<rparr>" by auto
    then show ?thesis by (intro storage_ok_cong) simp_all
  qed
  then show "read_changes q db = (r, db') \<Longrightarrow> storage_ok db' = storage_ok db"
    by (auto simp: read_changes_def Let_def split: sum.splits)
qed

lemma storage_swept:
  assumes "after_sweep clk f db = (r, db')" "storage_ok db" and "\<And>d r d'. f d = (r, d') \<Longrightarrow> storage_ok d \<Longrightarrow> storage_ok d'"
  shows "storage_ok db'"
proof -
  obtain sr sd where s: "sweep_expired_work_units clk db = (sr, sd)" by (cases "sweep_expired_work_units clk db")
  have "storage_ok sd" using s assms(2)
    by (auto simp: sweep_expired_work_units_def finish_tx_def bindR_eq_Inr storage_ok_sweep split: sum.splits prod.splits)
  with assms s show ?thesis by (cases sr) (auto simp: after_sweep_def)
qed

lemma storage_called:
  assumes "call f p = (r, p')" "storage_ok (sp_db p)" and "\<And>d r d'. f d = (r, d') \<Longrightarrow> storage_ok d \<Longrightarrow> storage_ok d'"
  shows "storage_ok (sp_db p')"
  using assms by (auto simp: call_def split: if_splits prod.splits)

lemma storage_runtime [simp]: "storage_ok (db\<lparr>t_runtime := x\<rparr>) = storage_ok db"
  "storage_ok (db\<lparr>user_version := v\<rparr>) = storage_ok db"
  by (rule storage_ok_cong; simp)+

lemma storage_initialize:
  assumes "initialize_tx clk db = (r, db')" "storage_ok db" shows "storage_ok db'"
proof -
  have "storage_ok d" if "check_schema db = Inr d1" "expire_open_work_units t d1 = Inr d2" "start_runtime t d2 = Inr (x, d)" for d1 d2 d x t
  proof -
    have "storage_ok d1" using that(1) assms(2) by (auto simp: check_schema_def split: if_splits)
    from storage_ok_sweep[OF that(2) this] that(3) show ?thesis by (auto simp: start_runtime_def bindR_eq_Inr)
  qed
  with assms show ?thesis
    by (auto simp: initialize_tx_def wrap_internal_def finish_tx_def bindR_eq_Inr split: sum.splits prod.splits)
qed

lemma storage_shutdown:
  assumes "shutdown clk busy p = (r, p')" "storage_ok (sp_db p)" shows "storage_ok (sp_db p')"
proof -
  have "storage_ok d" if "persist_shutdown t busy db = (s, d)" "storage_ok db" for db d t s
    using that by (auto simp: persist_shutdown_def bindR_eq_Inr split: sum.splits if_splits dest: storage_ok_sweep)
  with assms show ?thesis
    by (auto simp: shutdown_def Let_def split: if_splits sum.splits prod.splits)
qed

lemma signalled_storage: "signal_changes b s = (r, p') \<Longrightarrow> storage_ok (sp_db p') = storage_ok (sp_db (snd s))"
  by (auto simp: signal_changes_def split: if_splits)

lemma storage_step:
  assumes "provider_step E p p'" and ok: "storage_ok (sp_db p)" shows "storage_ok (sp_db p')"
  using assms(1)
proof cases
  case (Initialize clk r)
  then show ?thesis unfolding initialize_def using ok by (rule storage_called) (rule storage_initialize)
next
  case (ReadEntity clk0 clk clk' key rc r)
  then show ?thesis unfolding read_entity_def using ok
    by (rule storage_called) (rule storage_swept, assumption, assumption, rule storage_read)
next
  case (ReadChanges q r)
  then show ?thesis unfolding provider_read_changes_def using ok
    by (rule storage_called) (auto simp: wrap_internal_def storage_changes[OF surjective_pairing])
next
  case (CommitEntity clk0 clk c r)
  have "storage_ok (sp_db (snd (call (after_sweep clk0 (commit_entity_transaction E clk c)) p)))"
    by (rule storage_called[OF surjective_pairing ok])
       (rule storage_swept, assumption, assumption, rule storage_commit_transaction[OF _ _ CommitEntity(2)])
  with CommitEntity show ?thesis by (auto simp: commit_entity_def Let_def signalled_storage)
next
  case (ReadIdempotency clk clk' scope rc i q now r)
  then show ?thesis unfolding provider_read_idempotency_def using ok
    by (rule storage_called) (rule storage_read_idempotent)
next
  case (ReadIdempotencyInWorkUnit clk clk' wu rc i q now allow r)
  show ?thesis
    by (rule storage_called[OF ReadIdempotencyInWorkUnit(1)[unfolded provider_read_idempotency_in_work_unit_def] ok])
       (rule storage_read_idempotent_in_unit)
next
  case (CommitIdempotent clk c idem now r)
  have "storage_ok (sp_db (snd (call (commit_entity_idempotent E clk c idem now) p)))"
    by (rule storage_called[OF surjective_pairing ok]) (rule storage_commit_idempotent[OF _ _ CommitIdempotent(2)])
  with CommitIdempotent show ?thesis by (auto simp: provider_commit_entity_idempotent_def Let_def signalled_storage)
next
  case (ReadInWorkUnit clk0 clk clk' wu key rc r)
  then show ?thesis unfolding provider_read_entity_in_work_unit_def using ok
    by (rule storage_called) (rule storage_swept, assumption, assumption, rule storage_read_in_unit)
next
  case (RetrieveEntities V clk clk' rq rc r)
  then show ?thesis unfolding provider_retrieve_entities_def using ok
    by (rule storage_called) (rule storage_retrieve)
next
  case (RetrieveInWorkUnit V clk0 clk clk' wu rq rc r)
  then show ?thesis unfolding provider_retrieve_entities_in_work_unit_def using ok
    by (rule storage_called) (rule storage_swept, assumption, assumption, rule storage_retrieve_in_unit)
next
  case (CommitInWorkUnit clk0 clk wc r)
  have "storage_ok (sp_db (snd (call (after_sweep clk0 (commit_entity_in_work_unit E clk wc)) p)))"
    by (rule storage_called[OF surjective_pairing ok])
       (rule storage_swept, assumption, assumption, rule storage_commit_in_unit[OF _ _ CommitInWorkUnit(2)])
  with CommitInWorkUnit show ?thesis by (auto simp: provider_commit_entity_in_work_unit_def Let_def signalled_storage)
next
  case (PublishWorkUnit clk0 w r)
  have "storage_ok (sp_db (snd (call (\<lambda>db. wrap_internal (after_sweep clk0 (publish_work_unit E w) db)) p)))"
  proof (rule storage_called[OF surjective_pairing ok])
    fix d r d'
    assume "wrap_internal (after_sweep clk0 (publish_work_unit E w) d) = (r, d')" and okd: "storage_ok d"
    then have "after_sweep clk0 (publish_work_unit E w) d = (fst (after_sweep clk0 (publish_work_unit E w) d), d')"
      by (auto simp: wrap_internal_def)
    then show "storage_ok d'" using okd by (rule storage_swept) (rule storage_publish[OF _ _ PublishWorkUnit(2)])
  qed
  with PublishWorkUnit show ?thesis by (auto simp: provider_publish_work_unit_def Let_def signalled_storage)
next
  case (Checkpoint clk0 wal r)
  have "storage_ok (snd (after_sweep clk0 (\<lambda>db. (case wal of (busy, log_frames, done_frames) \<Rightarrow>
          (if busy \<noteq> 0 \<or> done_frames \<noteq> log_frames then Inl provider_error_new else Inr (), db))) d))"
    if "storage_ok d" for d
    by (rule storage_swept[OF surjective_pairing that]) (auto split: prod.splits)
  with Checkpoint show ?thesis unfolding checkpoint_def
    by (elim storage_called[OF _ ok]) (auto simp: wrap_internal_def)
next
  case (Shutdown clk busy r)
  then show ?thesis using ok by (rule storage_shutdown)
next
  case Reopen
  then show ?thesis using ok by simp
qed


section \<open>What holds in every reachable state\<close>

definition provider_inv :: "sqlite_db \<Rightarrow> bool" where
  "provider_inv db \<longleftrightarrow> storage_ok db \<and> frontiers_ok db \<and> units_ok db \<and> idempotency_ok db \<and> log_ok db"

lemma provider_inv_empty: "provider_inv empty_db"
  by (simp add: provider_inv_def storage_ok_empty frontiers_ok_empty)
     (simp add: units_ok_def idempotency_ok_def log_ok_def empty_db_def)

lemma provider_inv_step:
  "provider_step E p p' \<Longrightarrow> provider_inv (sp_db p) \<Longrightarrow> provider_inv (sp_db p')"
  unfolding provider_inv_def
  using storage_step[of E p p'] frontier.step[of E p p'] records.step[of E p p'] change_log.step[of E p p']
  by (auto simp: frontier_step_def idempotency_step_def log_step_def)

lemma provider_inv_run:
  "provider_run E p p' \<Longrightarrow> provider_inv (sp_db p) \<Longrightarrow> provider_inv (sp_db p')"
  unfolding provider_run_def by (induction rule: rtranclp_induct) (auto intro: provider_inv_step)

text \<open>
  C13. The invariant holds in every state the provider reaches from an empty database, through any
  sequence of calls, failures, shutdowns, crashes and restarts: versions are owned by the published
  state or by one active unit, published heads and baselines refer to published versions, no
  session or causal frontier is ahead of its scope, unit rows are consistent, no identity is
  recorded both as published and as staged, and the cursors of the change log are unique.
\<close>
theorem reachable_invariant:
  assumes "provider_run E fresh_provider p"
  shows "provider_inv (sp_db p)"
  using provider_inv_run[OF assms] provider_inv_empty by (simp add: fresh_provider_def)

lemma call_read:
  assumes "read_entity E clk0 clk clk' key rc p = (Inr (Read sn ob), p')"
  shows "\<exists>d. sweep_expired_work_units clk0 (sp_db p) = (Inr (), d)
    \<and> read_entity_consistent E clk clk' key rc d = (Inr (Read sn ob), sp_db p')"
  using assms
  by (cases "sweep_expired_work_units clk0 (sp_db p)"; cases "fst (sweep_expired_work_units clk0 (sp_db p))")
     (auto simp: read_entity_def call_def after_sweep_def split: if_splits prod.splits)

lemma read_entity_consistent_Read:
  assumes "read_entity_consistent E clk clk' key rc d = (Inr (Read sn ob), db')"
  shows "sn = read_entity_snapshot key d"
    "consistency_observation clk (scope_json key) rc (current_scope_cursor (scope_json key) d) True d = Inr (Some ob)"
    "advance_read_sessions E (scope_json key) rc (ob_frontier ob) d = Inr db'"
  using assms
  by (auto simp: read_entity_consistent_def Let_def finish_tx_Ok bindR_eq_Inr split: sum.splits option.splits)

lemma read_entity_frontier:
  assumes "read_entity E clk0 clk clk' key rc p = (Inr (Read sn ob), p')" and "s \<in> set (rc_sessions rc)"
  shows "sc_monotonic_reads s \<Longrightarrow> read_cursor (scope_json key) (sc_key_json s) (sp_db p) \<le> ob_frontier ob"
    and "sc_read_your_writes s \<Longrightarrow> write_cursor (scope_json key) (sc_key_json s) (sp_db p) \<le> ob_frontier ob"
    and "sc_monotonic_reads s \<Longrightarrow> ob_frontier ob \<le> read_cursor (scope_json key) (sc_key_json s) (sp_db p')"
proof -
  from call_read[OF assms(1)] obtain d where sw: "sweep_expired_work_units clk0 (sp_db p) = (Inr (), d)"
    and rd: "read_entity_consistent E clk clk' key rc d = (Inr (Read sn ob), sp_db p')" by blast
  note R = read_entity_consistent_Read[OF rd]
  have ses: "t_session d = t_session (sp_db p)"
  proof -
    from sw obtain now where "expire_open_work_units now (sp_db p) = Inr d"
      by (auto simp: sweep_expired_work_units_def finish_tx_Ok bindR_eq_Inr)
    then obtain units where "foldR (\<lambda>u. expire_work_unit u now) units (sp_db p) = Inr d"
      using expire_open_work_units_Ok by blast
    then show ?thesis
      by (rule foldR_relates[where R = "\<lambda>a b. t_session b = t_session a"])
         (auto simp: expire_work_unit_Ok collect_crdt_garbage_def expired_unit_db_def Let_def)
  qed
  have cur: "read_cursor x k d = read_cursor x k (sp_db p)" "write_cursor x k d = write_cursor x k (sp_db p)" for x k
    by (simp_all add: read_cursor_def write_cursor_def ses)
  from R(2) have "list_all (\<lambda>s. session_required (scope_json key) s d \<le> current_scope_cursor (scope_json key) d) (rc_sessions rc)"
    and f: "ob_frontier ob = current_scope_cursor (scope_json key) d" by (auto simp: consistency_observation_Some)
  with assms(2) have req: "session_required (scope_json key) s d \<le> ob_frontier ob" by (simp add: list_all_iff)
  show "sc_monotonic_reads s \<Longrightarrow> read_cursor (scope_json key) (sc_key_json s) (sp_db p) \<le> ob_frontier ob"
    and "sc_read_your_writes s \<Longrightarrow> write_cursor (scope_json key) (sc_key_json s) (sp_db p) \<le> ob_frontier ob"
    using req by (auto simp: session_required_cursors cur)
  show "sc_monotonic_reads s \<Longrightarrow> ob_frontier ob \<le> read_cursor (scope_json key) (sc_key_json s) (sp_db p')"
    using advance_read_sessions_recorded[OF R(3) assms(2)] .
qed

lemma run_sessions:
  assumes "provider_run E p p'" and "provider_inv (sp_db p)"
  shows "read_cursor s k (sp_db p) \<le> read_cursor s k (sp_db p')" "write_cursor s k (sp_db p) \<le> write_cursor s k (sp_db p')"
  using frontier.run[OF assms(1)] assms(2) sessions_advance_cursors
  by (auto simp: frontier_step_def provider_inv_def)

text \<open>
  C14. Monotonic reads. Along any run, two answered reads of a session that asks for monotonic
  reads never go back in time: the later one observes a frontier at or past the earlier one,
  whatever happens in between, restarts included.
\<close>
theorem monotonic_reads_hold:
  assumes "provider_inv (sp_db p)"
    and "read_entity E c1 c2 c3 key rc p = (Inr (Read sn ob), p1)"
    and "provider_run E p1 p2"
    and "read_entity E c4 c5 c6 key' rc' p2 = (Inr (Read sn' ob'), p3)"
    and "scope_json key' = scope_json key"
    and "s \<in> set (rc_sessions rc)" "sc_monotonic_reads s"
    and "s' \<in> set (rc_sessions rc')" "sc_monotonic_reads s'" "sc_key_json s' = sc_key_json s"
  shows "ob_frontier ob \<le> ob_frontier ob'"
proof -
  let ?sc = "scope_json key" let ?k = "sc_key_json s"
  have inv1: "provider_inv (sp_db p1)"
    using provider_inv_step[OF provider_step.ReadEntity[OF assms(2)] assms(1)] .
  have "ob_frontier ob \<le> read_cursor ?sc ?k (sp_db p1)" by (rule read_entity_frontier(3)[OF assms(2,6,7)])
  also have "\<dots> \<le> read_cursor ?sc ?k (sp_db p2)" by (rule run_sessions(1)[OF assms(3) inv1])
  also have "\<dots> \<le> ob_frontier ob'" using read_entity_frontier(1)[OF assms(4,8,9)] assms(5,10) by simp
  finally show ?thesis .
qed

lemma commit_entity_Committed:
  assumes "commit_entity E c1 c2 c p = (Inr Committed, p1)" and "provider_inv (sp_db p)"
  shows "\<forall>k \<in> set (ec_write_session_keys c).
      write_cursor (scope_json (ec_key c)) k (sp_db p1) = current_scope_cursor (scope_json (ec_key c)) (sp_db p1)"
proof -
  from assms(1) obtain d where sw: "sweep_expired_work_units c1 (sp_db p) = (Inr (), d)"
    and com: "commit_entity_transaction E c2 c d = (Inr Committed, sp_db p1)"
    by (cases "sweep_expired_work_units c1 (sp_db p)"; cases "fst (sweep_expired_work_units c1 (sp_db p))")
       (auto simp: commit_entity_def Let_def signal_changes_def call_def after_sweep_def split: if_splits prod.splits)
  have ok: "frontiers_ok d"
    using frontier.sweep_transaction[OF sw] assms(2) by (auto simp: frontier_step_def provider_inv_def)
  have C: "committed_db c d (sp_db p1)" using commit_entity_transaction_Committed[OF com] by simp
  note T = committed_db_tables[OF C]
  let ?s = "scope_json (ec_key c)" let ?n = "t_change_seq d + 1"
  have cur: "current_scope_cursor ?s (sp_db p1) = ?n"
    by (auto simp: current_scope_cursor_def T(7) map_of_tbl_upsert split: option.splits)
  show ?thesis
  proof
    fix k assume k: "k \<in> set (ec_write_session_keys c)"
    have "w \<le> ?n" if "map_of (t_session d) (?s, k) = Some (r, w)" for r w
      using frontiers_ok_session(2)[OF ok that] current_scope_cursor_le[OF ok, of ?s] by simp
    then have "write_cursor ?s k (sp_db p1) = ?n"
      using k by (auto simp: write_cursor_def T(8) map_of_written_sessions split: option.splits)
    then show "write_cursor ?s k (sp_db p1) = current_scope_cursor ?s (sp_db p1)" by (simp add: cur)
  qed
qed

text \<open>
  C15. Read your writes. After a commit that names a session key, every later answered read in
  the same scope by a session with that key that asks for read-your-writes observes a frontier at
  or past the cursor the commit was published at, along any run.
\<close>
theorem read_your_writes_hold:
  assumes "provider_inv (sp_db p)" and "commit_wf c"
    and "commit_entity E c1 c2 c p = (Inr Committed, p1)"
    and "provider_run E p1 p2"
    and "read_entity E c4 c5 c6 key rc p2 = (Inr (Read sn ob), p3)"
    and "scope_json key = scope_json (ec_key c)"
    and "s \<in> set (rc_sessions rc)" "sc_read_your_writes s" "sc_key_json s \<in> set (ec_write_session_keys c)"
  shows "current_scope_cursor (scope_json (ec_key c)) (sp_db p1) \<le> ob_frontier ob"
proof -
  let ?sc = "scope_json (ec_key c)" let ?k = "sc_key_json s"
  have inv1: "provider_inv (sp_db p1)"
    using provider_inv_step[OF provider_step.CommitEntity[OF assms(3,2)] assms(1)] .
  have "current_scope_cursor ?sc (sp_db p1) = write_cursor ?sc ?k (sp_db p1)"
    using commit_entity_Committed[OF assms(3,1)] assms(9) by simp
  also have "\<dots> \<le> write_cursor ?sc ?k (sp_db p2)" by (rule run_sessions(2)[OF assms(4) inv1])
  also have "\<dots> \<le> ob_frontier ob" using read_entity_frontier(2)[OF assms(5,7,8)] assms(6) by simp
  finally show ?thesis .
qed

text \<open>
  C16. The life cycle of a work unit. Along any run a unit's row is never dropped, its scope,
  policy, baseline and expiry never change, a unit that is committed or expired stays so, and a
  closing unit never reopens.
\<close>
theorem work_unit_lifecycle:
  assumes "provider_run E p p'" and "map_of (t_work_unit (sp_db p)) u = Some row"
  shows "\<exists>row'. map_of (t_work_unit (sp_db p')) u = Some row'
    \<and> wur_scope_json row' = wur_scope_json row \<and> wur_policy_json row' = wur_policy_json row
    \<and> wur_baseline_cursor row' = wur_baseline_cursor row
    \<and> wur_expires_at_unix_ms row' = wur_expires_at_unix_ms row
    \<and> (wur_state row \<in> {DbCommitted, DbExpired} \<longrightarrow> wur_state row' = wur_state row)
    \<and> (wur_state row = DbClosing \<longrightarrow> wur_state row' \<noteq> DbOpen)"
  using progress.run[OF assms(1)] assms(2) unfolding units_progress_def state_progress_def by fastforce

text \<open>A pruning read of the change log answers or fails after dropping the rows recorded before its
  cutoff, or changes nothing; every other call only appends.\<close>

definition recorded_since :: "nat \<Rightarrow> nat \<times> change_row \<Rightarrow> bool" where
  "recorded_since t = (\<lambda>(_, r). t \<le> chr_recorded_at_unix_ms r)"

definition pruned_during :: "sqlite_env \<Rightarrow> sqlite_provider \<Rightarrow> sqlite_provider \<Rightarrow> nat \<Rightarrow> bool" where
  "pruned_during E p p' t \<longleftrightarrow>
     (\<exists>q r p1 p2. provider_run E p p1 \<and> provider_read_changes q p1 = (r, p2) \<and> provider_run E p2 p'
        \<and> cq_retained_after_unix_ms q = t)"

lemma run_refl [simp]: "provider_run E p p"
  by (simp add: provider_run_def)

lemma run_snoc: "provider_run E p p' \<Longrightarrow> provider_step E p' p'' \<Longrightarrow> provider_run E p p''"
  unfolding provider_run_def by (rule rtranclp.rtrancl_into_rtrancl)

lemma read_changes_prunes:
  assumes "provider_read_changes q p = (r, p')"
  shows "t_change_seq (sp_db p') = t_change_seq (sp_db p)
    \<and> (t_change (sp_db p') = t_change (sp_db p)
       \<or> t_change (sp_db p') = filter (recorded_since (cq_retained_after_unix_ms q)) (t_change (sp_db p)))"
proof -
  have "(\<lambda>(k, r). \<not> chr_recorded_at_unix_ms r < t) = recorded_since t" for t
    by (auto simp: recorded_since_def)
  with assms show ?thesis
    by (auto simp: provider_read_changes_def call_def wrap_internal_def read_changes_def Let_def delete_changes_def
        tbl_delete_def dest!: record_retention_Ok split: if_splits sum.splits prod.splits)
qed

lemma run_log:
  assumes "provider_run E p p'"
  shows "t_change_seq (sp_db p) \<le> t_change_seq (sp_db p')
    \<and> (\<exists>t new. t_change (sp_db p') = filter (recorded_since t) (t_change (sp_db p)) @ new
         \<and> sorted_wrt (<) (map fst new)
         \<and> (\<forall>x \<in> set new. t_change_seq (sp_db p) < fst x \<and> fst x \<le> t_change_seq (sp_db p'))
         \<and> (t = 0 \<or> pruned_during E p p' t))"
  using assms unfolding provider_run_def
proof (induction rule: rtranclp_induct)
  case base
  have "filter (recorded_since 0) xs = xs" for xs by (simp add: recorded_since_def case_prod_unfold)
  then show ?case by (intro conjI exI[of _ 0] exI[of _ "[]"]) simp_all
next
  case (step p1 p2)
  then have run: "provider_run E p p1" by (simp add: provider_run_def)
  from step.IH obtain t new where t: "t_change (sp_db p1) = filter (recorded_since t) (t_change (sp_db p)) @ new"
      "sorted_wrt (<) (map fst new)" "t = 0 \<or> pruned_during E p p1 t"
    and new: "\<forall>x \<in> set new. t_change_seq (sp_db p) < fst x \<and> fst x \<le> t_change_seq (sp_db p1)"
    and seq: "t_change_seq (sp_db p) \<le> t_change_seq (sp_db p1)" by blast
  have before: "t = 0 \<or> pruned_during E p p2 t"
    using t(3) run_snoc[OF _ step.hyps(2)] unfolding pruned_during_def by blast
  show ?case
  proof (cases "\<exists>q r. provider_read_changes q p1 = (r, p2)")
    case False
    from appends.writing_step[OF step.hyps(2) False] obtain rows where
      rows: "t_change (sp_db p2) = t_change (sp_db p1) @ rows" "sorted_wrt (<) (map fst rows)"
        "\<forall>x \<in> set rows. t_change_seq (sp_db p1) < fst x \<and> fst x \<le> t_change_seq (sp_db p2)"
      and seq2: "t_change_seq (sp_db p1) \<le> t_change_seq (sp_db p2)" unfolding log_appends_def by blast
    have "sorted_wrt (<) (map fst (new @ rows))" using t(2) new rows by (fastforce simp: sorted_wrt_append)
    moreover have "\<forall>x \<in> set (new @ rows). t_change_seq (sp_db p) < fst x \<and> fst x \<le> t_change_seq (sp_db p2)"
      using new rows(3) seq seq2 by fastforce
    ultimately show ?thesis using t(1) rows(1) before seq seq2
      by (intro conjI exI[of _ t] exI[of _ "new @ rows"]) simp_all
  next
    case True
    then obtain q r where q: "provider_read_changes q p1 = (r, p2)" by blast
    let ?t = "cq_retained_after_unix_ms q"
    note P = read_changes_prunes[OF q]
    have now: "pruned_during E p p2 ?t" using run q unfolding pruned_during_def by (blast intro: run_refl)
    from P consider "t_change (sp_db p2) = t_change (sp_db p1)"
      | "t_change (sp_db p2) = filter (recorded_since ?t) (t_change (sp_db p1))" by blast
    then show ?thesis
    proof cases
      case 1
      with t new seq before P show ?thesis by (intro conjI exI[of _ t] exI[of _ new]) simp_all
    next
      case 2
      have "filter (recorded_since ?t) (filter (recorded_since t) xs) = filter (recorded_since (max t ?t)) xs" for xs
        by (auto simp: recorded_since_def intro: filter_cong)
      with 2 t(1) have "t_change (sp_db p2) = filter (recorded_since (max t ?t)) (t_change (sp_db p))
          @ filter (recorded_since ?t) new" by simp
      moreover have "sorted_wrt (<) (map fst (filter (recorded_since ?t) new))"
        using t(2) by (simp add: sorted_wrt_map sorted_wrt_filter)
      moreover have "max t ?t = 0 \<or> pruned_during E p p2 (max t ?t)" using before now by (auto simp: max_def)
      ultimately show ?thesis using new seq P
        by (intro conjI exI[of _ "max t ?t"] exI[of _ "filter (recorded_since ?t) new"]) simp_all
    qed
  qed
qed

text \<open>
  C17. The change log is append-only except for retention. After any run it is what it was, less
  the rows recorded before a cutoff, followed by rows with ascending cursors beyond all cursors assigned
  before. The cutoff is that of a pruning read of the run (zero, so that nothing is dropped, if
  there was none), every row that is gone is at or before the retention cursor stored for its scope,
  and the head history keeps every entry it had.
\<close>
theorem change_log_append_only:
  assumes "provider_run E p p'"
  shows "t_change_seq (sp_db p) \<le> t_change_seq (sp_db p')
    \<and> (\<exists>t new. t_change (sp_db p') = filter (recorded_since t) (t_change (sp_db p)) @ new
         \<and> sorted_wrt (<) (map fst new)
         \<and> (\<forall>x \<in> set new. t_change_seq (sp_db p) < fst x)
         \<and> (t = 0 \<or> pruned_during E p p' t))
    \<and> (\<forall>(c, r) \<in> set (t_change (sp_db p)).
         (c, r) \<in> set (t_change (sp_db p')) \<or> reported_pruned c (scope_json (chr_key r)) (sp_db p'))
    \<and> (\<exists>h. t_history (sp_db p') = t_history (sp_db p) @ h
         \<and> (\<forall>((_, c), _) \<in> set h. t_change_seq (sp_db p) < c))"
proof (intro conjI)
  show "t_change_seq (sp_db p) \<le> t_change_seq (sp_db p')" using run_log[OF assms] by blast
  show "\<exists>t new. t_change (sp_db p') = filter (recorded_since t) (t_change (sp_db p)) @ new
         \<and> sorted_wrt (<) (map fst new)
         \<and> (\<forall>x \<in> set new. t_change_seq (sp_db p) < fst x)
         \<and> (t = 0 \<or> pruned_during E p p' t)" using run_log[OF assms] by blast
qed (use kept.run[OF assms] change_log.run[OF assms] in \<open>unfold log_kept_def log_step_def, blast\<close>)+

text \<open>
  C8. Pruning is never silent. Take any change the log ever held, at any earlier state of a run:
  a reader of its scope that has not passed it, and whose cursor is not before the \<open>oldest_cursor\<close> it is
  answered (or none is reported), finds it among the changes the page is the beginning of. No read
  of the run pruned it without moving the oldest cursor past the reader.
\<close>
theorem pruning_reported:
  assumes "provider_run E p p'" and "provider_read_changes q p' = (Inr page, p'')"
    and "case oldest_cursor page of None \<Rightarrow> True | Some oldest \<Rightarrow> oldest \<le> cq_after_cursor q + 1"
    and "(c, r) \<in> set (t_change (sp_db p))" and "scope_json (chr_key r) = cq_scope_json q"
    and "cq_after_cursor q < c" and "change_matches q r"
  shows "(c, r) \<in> set (t_change (sp_db p''))
    \<and> to_stored_change (c, r) \<in> set (visible_changes q (cq_after_cursor q) (sp_db p''))
    \<and> page_changes page = (let all = visible_changes q (cq_after_cursor q) (sp_db p'')
                            in if cq_limit q = 0 then all else take (cq_limit q) all)"
proof -
  have "read_changes q (sp_db p') = (Inr page, sp_db p'')"
    using assms(2) by (auto simp: provider_read_changes_def call_def wrap_internal_def map_err_def prod_eq_iff
        split: if_splits sum.splits prod.splits)
  from read_changes_Ok[OF this] have after: "cq_after_cursor q \<le> i64_max"
    and old: "oldest_cursor page = map_option (\<lambda>c. saturating_add_u64 c 1) (map_of (t_retention (sp_db p'')) (cq_scope_json q))"
    and page: "page_changes page = (let all = visible_changes q (cq_after_cursor q) (sp_db p'')
                            in if cq_limit q = 0 then all else take (cq_limit q) all)" by blast+
  have "\<not> reported_pruned c (cq_scope_json q) (sp_db p'')"
  proof
    assume "reported_pruned c (cq_scope_json q) (sp_db p'')"
    then obtain b where b: "map_of (t_retention (sp_db p'')) (cq_scope_json q) = Some b" "c \<le> b"
      by (auto simp: reported_pruned_def)
    then have "saturating_add_u64 b 1 \<le> cq_after_cursor q + 1" using assms(3) old by simp
    then show False using b(2) assms(6) after by (simp add: saturating_add_u64_def i64_max_def u64_max_def)
  qed
  moreover have "log_kept (sp_db p) (sp_db p'')"
    using log_kept_trans[OF kept.run[OF assms(1)] kept.reading_step[OF assms(2)]] .
  ultimately have "(c, r) \<in> set (t_change (sp_db p''))" using assms(4,5) unfolding log_kept_def by fastforce
  then show ?thesis using mem_visible_changes[OF _ assms(5,6,7)] page by blast
qed


text \<open>
  Generations and unclean shutdowns. Every successful initialization counts one generation
  and reports an unclean shutdown exactly when the stored runtime was still running: after an
  initialization a restart without shutdown is reported as a recovery, a restart after a completed
  shutdown is not; a provider that was shut down answers no call until it is reopened.
\<close>
theorem unclean_shutdown_detected:
  assumes "initialize c1 p = (Inr rec, p1)"
  shows "generation rec = rt_generation (t_runtime (sp_db p)) + 1
    \<and> recovered_after_unclean_shutdown rec = rt_running (t_runtime (sp_db p))
    \<and> (\<forall>c2 rec2 p2. initialize c2 (p1\<lparr>sp_connected := True, sp_changes := 0\<rparr>) = (Inr rec2, p2) \<longrightarrow>
         recovered_after_unclean_shutdown rec2 \<and> generation rec2 = generation rec + 1)
    \<and> (\<forall>c2 p2 c3 rec3 p3. shutdown c2 0 p1 = (Inr (), p2) \<longrightarrow>
         initialize c3 (p2\<lparr>sp_connected := True, sp_changes := 0\<rparr>) = (Inr rec3, p3) \<longrightarrow>
         \<not> recovered_after_unclean_shutdown rec3 \<and> generation rec3 = generation rec + 1)
    \<and> (\<forall>c2 busy. \<not> sp_connected (snd (shutdown c2 busy p1)))"
proof -
  have rt: "t_runtime d = t_runtime db" if "expire_open_work_units t db = Inr d" for t db d
  proof -
    from that obtain units where "foldR (\<lambda>u. expire_work_unit u t) units db = Inr d"
      using expire_open_work_units_Ok by blast
    then show ?thesis
      by (rule foldR_relates[where R = "\<lambda>a b. t_runtime b = t_runtime a"])
         (auto simp: expire_work_unit_Ok collect_crdt_garbage_def expired_unit_db_def Let_def)
  qed
  have init: "generation r = rt_generation (t_runtime (sp_db q)) + 1
      \<and> recovered_after_unclean_shutdown r = rt_running (t_runtime (sp_db q))
      \<and> rt_generation (t_runtime (sp_db q')) = generation r \<and> rt_running (t_runtime (sp_db q'))
      \<and> sp_connected q \<and> sp_connected q'"
    if "initialize c q = (Inr r, q')" for c q r q'
  proof -
    from that obtain t d1 d2 d3 where con: "sp_connected q" and q': "q' = q\<lparr>sp_db := d3\<rparr>"
      and 1: "check_schema (sp_db q) = Inr d1" and 2: "expire_open_work_units t d1 = Inr d2"
      and 3: "start_runtime t d2 = Inr (r, d3)"
      by (auto simp: initialize_def call_def initialize_tx_def wrap_internal_def finish_tx_def map_err_def bindR_eq_Inr
          split: if_splits sum.splits prod.splits)
    have "t_runtime d2 = t_runtime (sp_db q)"
      using rt[OF 2] 1 by (auto simp: check_schema_def split: if_splits)
    with 3 con q' show ?thesis
      by (auto simp: start_runtime_def bindR_eq_Inr checked_add_u64_Some bind_u64_def split: if_splits)
  qed
  have shut: "rt_running (t_runtime (sp_db q')) = False \<and> rt_generation (t_runtime (sp_db q')) = rt_generation (t_runtime (sp_db q))"
    if "shutdown c 0 q = (Inr (), q')" "sp_connected q" for c q q'
  proof -
    from that obtain now d where "expire_open_work_units now (sp_db q) = Inr d"
      "t_runtime (sp_db q') = (t_runtime d)\<lparr>rt_running := False, rt_clean_shutdown_at_unix_ms := Some now\<rparr>"
      by (auto simp: shutdown_def Let_def persist_shutdown_def bindR_eq_Inr bind_u64_def
          split: if_splits sum.splits prod.splits)
    then show ?thesis using rt by simp
  qed
  have closed: "\<not> sp_connected (snd (shutdown c busy q))" for c busy q
    by (auto simp: shutdown_def Let_def split: sum.split prod.split)
  have crash: "recovered_after_unclean_shutdown rec2 \<and> generation rec2 = generation rec + 1"
    if "initialize c2 (p1\<lparr>sp_connected := True, sp_changes := 0\<rparr>) = (Inr rec2, p2)" for c2 rec2 p2
    using init[OF that] init[OF assms] by simp
  have clean: "\<not> recovered_after_unclean_shutdown rec3 \<and> generation rec3 = generation rec + 1"
    if "shutdown c2 0 p1 = (Inr (), p2)" "initialize c3 (p2\<lparr>sp_connected := True, sp_changes := 0\<rparr>) = (Inr rec3, p3)" for c2 p2 c3 rec3 p3
    using init[OF that(2)] shut[OF that(1)] init[OF assms] by simp
  show ?thesis using init[OF assms] closed crash clean by blast
qed

section \<open>A concrete run\<close>

definition sample_provider :: sqlite_provider where
  "sample_provider = snd (commit_entity sample_env (Some 1) (Some 5) (sample_commit ''a'' [] ''v1'') fresh_provider)"

lemma sample_commit_wf: "commit_wf (sample_commit i hs v)"
  by (simp add: commit_wf_def sample_commit_def sample_version_def)

lemma sample_provider_run: "provider_run sample_env fresh_provider sample_provider"
proof -
  let ?r = "commit_entity sample_env (Some 1) (Some 5) (sample_commit ''a'' [] ''v1'') fresh_provider"
  have "?r = (fst ?r, sample_provider)" by (simp add: sample_provider_def)
  from provider_step.CommitEntity[OF this sample_commit_wf] show ?thesis
    unfolding provider_run_def by (rule r_into_rtranclp)
qed

lemma sample_provider_inv: "provider_inv (sp_db sample_provider)"
  using provider_inv_run[OF sample_provider_run] provider_inv_empty by (simp add: fresh_provider_def)

theorem reachable_invariant_witness:
  "provider_inv (sp_db sample_provider) \<and> t_change_seq (sp_db sample_provider) = 1"
proof -
  have "t_change_seq (sp_db sample_provider) = 1" by code_simp
  with reachable_invariant[OF sample_provider_run] show ?thesis by simp
qed

definition sample_read :: "sqlite_provider \<Rightarrow> EntitySnapshot option ConsistentRead provider_step" where
  "sample_read p = read_entity sample_env (Some 1) (Some 5) (Some 6) (sample_key ''a'') sample_consistency p"

definition read_observation :: "'a ConsistentRead provider_step \<Rightarrow> ReadObservation option" where
  "read_observation s = (case fst s of Inr (Read _ ob) \<Rightarrow> Some ob | _ \<Rightarrow> None)"

theorem monotonic_reads_hold_witness:
  "case (read_observation (sample_read sample_provider),
         read_observation (sample_read (snd (sample_read sample_provider)))) of
     (Some ob, Some ob') \<Rightarrow> ob_frontier ob \<le> ob_frontier ob'
   | _ \<Rightarrow> False"
proof -
  let ?r = "sample_read sample_provider" let ?q = "sample_read (snd ?r)"
  have "read_observation ?r \<noteq> None" "read_observation ?q \<noteq> None" by code_simp+
  then obtain sn ob sn' ob' where r: "fst ?r = Inr (Read sn ob)" and q: "fst ?q = Inr (Read sn' ob')"
    by (auto simp: read_observation_def split: sum.splits ConsistentRead.splits)
  let ?s = "\<lparr>sc_key_json = ''k'', sc_monotonic_reads = True, sc_read_your_writes = True\<rparr>"
  have s: "?s \<in> set (rc_sessions sample_consistency)" by (simp add: sample_consistency_def)
  have "ob_frontier ob \<le> ob_frontier ob'"
  proof (rule monotonic_reads_hold[OF sample_provider_inv _ _ _ refl s _ s])
    show "read_entity sample_env (Some 1) (Some 5) (Some 6) (sample_key ''a'') sample_consistency sample_provider
        = (Inr (Read sn ob), snd ?r)" using r by (simp add: sample_read_def prod_eq_iff)
    show "provider_run sample_env (snd ?r) (snd ?r)" by (simp add: provider_run_def)
    show "read_entity sample_env (Some 1) (Some 5) (Some 6) (sample_key ''a'') sample_consistency (snd ?r)
        = (Inr (Read sn' ob'), snd ?q)" using q by (simp add: sample_read_def prod_eq_iff)
  qed simp_all
  with r q show ?thesis by (simp add: read_observation_def)
qed

theorem read_your_writes_hold_witness:
  "case read_observation (sample_read sample_provider) of
     Some ob \<Rightarrow> current_scope_cursor ''{s}'' (sp_db sample_provider) \<le> ob_frontier ob
   | None \<Rightarrow> False"
proof -
  let ?r = "sample_read sample_provider"
  let ?c = "sample_commit ''a'' [] ''v1''"
  have "fst (commit_entity sample_env (Some 1) (Some 5) ?c fresh_provider) = Inr Committed" by code_simp
  then have com: "commit_entity sample_env (Some 1) (Some 5) ?c fresh_provider = (Inr Committed, sample_provider)"
    by (simp add: sample_provider_def prod_eq_iff)
  have "read_observation ?r \<noteq> None" by code_simp
  then obtain sn ob where r: "fst ?r = Inr (Read sn ob)"
    by (auto simp: read_observation_def split: sum.splits ConsistentRead.splits)
  let ?s = "\<lparr>sc_key_json = ''k'', sc_monotonic_reads = True, sc_read_your_writes = True\<rparr>"
  have s: "?s \<in> set (rc_sessions sample_consistency)" by (simp add: sample_consistency_def)
  have "current_scope_cursor (scope_json (ec_key ?c)) (sp_db sample_provider) \<le> ob_frontier ob"
  proof (rule read_your_writes_hold[OF _ sample_commit_wf com _ _ _ s])
    show "provider_inv (sp_db fresh_provider)" using provider_inv_empty by (simp add: fresh_provider_def)
    show "provider_run sample_env sample_provider sample_provider" by (simp add: provider_run_def)
    show "read_entity sample_env (Some 1) (Some 5) (Some 6) (sample_key ''a'') sample_consistency sample_provider
        = (Inr (Read sn ob), snd ?r)" using r by (simp add: sample_read_def prod_eq_iff)
  qed (simp_all add: sample_commit_def sample_key_def)
  moreover have "scope_json (ec_key ?c) = ''{s}''" by (simp add: sample_commit_def sample_key_def)
  ultimately show ?thesis using r by (simp add: read_observation_def)
qed

definition unit_provider :: sqlite_provider where
  "unit_provider = snd (provider_commit_entity_in_work_unit sample_env (Some 1) (Some 5) (sample_unit_commit True) sample_provider)"

theorem work_unit_lifecycle_witness:
  "\<exists>row'. map_of (t_work_unit (sp_db (snd (sample_read unit_provider)))) ''{u}'' = Some row'
     \<and> wur_state row' = DbCommitted"
proof -
  let ?r = "sample_read unit_provider"
  have "case map_of (t_work_unit (sp_db unit_provider)) ''{u}'' of None \<Rightarrow> False | Some row \<Rightarrow> wur_state row = DbCommitted"
    by code_simp
  then obtain row where row: "map_of (t_work_unit (sp_db unit_provider)) ''{u}'' = Some row" "wur_state row = DbCommitted"
    by (auto split: option.splits)
  have "?r = (fst ?r, snd ?r)" by simp
  from provider_step.ReadEntity[OF this[unfolded sample_read_def]]
  have "provider_run sample_env unit_provider (snd ?r)"
    unfolding provider_run_def sample_read_def by (rule r_into_rtranclp)
  from work_unit_lifecycle[OF this row(1)] row(2) show ?thesis by auto
qed

text \<open>Two commits with a pruning read between them: the first change, recorded at 7, is dropped by the
  cutoff 8, the second is kept, also by the next pruning read.\<close>

definition sample_cutoff :: "nat \<Rightarrow> ChangeQuery" where
  "sample_cutoff after = (sample_query after)\<lparr>cq_retained_after_unix_ms := 8\<rparr>"

definition sample_pruned :: sqlite_provider where
  "sample_pruned = snd (provider_read_changes (sample_cutoff 0) sample_provider)"

definition sample_later :: sqlite_provider where
  "sample_later = snd (commit_entity sample_env (Some 1) (Some 5)
     ((sample_commit ''b'' [] ''v2'')\<lparr>ec_recorded_at_unix_ms := 20\<rparr>) sample_pruned)"

lemma sample_pruned_run: "provider_run sample_env sample_provider sample_pruned"
  using run_snoc[OF run_refl provider_step.ReadChanges[OF surjective_pairing]] unfolding sample_pruned_def .

lemma sample_later_run: "provider_run sample_env sample_provider sample_later"
  unfolding sample_later_def
  by (rule run_snoc[OF sample_pruned_run provider_step.CommitEntity[OF surjective_pairing]])
     (simp add: commit_wf_def sample_commit_def sample_version_def)

theorem change_log_append_only_witness:
  "map fst (t_change (sp_db sample_provider)) = [1] \<and> map fst (t_change (sp_db sample_later)) = [2]
   \<and> reported_pruned 1 ''{s}'' (sp_db sample_later)
   \<and> (\<exists>t > 0. pruned_during sample_env sample_provider sample_later t)"
proof -
  have "list_all (\<lambda>(c, r). c = 1 \<and> scope_json (chr_key r) = ''{s}'') (t_change (sp_db sample_provider))"
    and before: "map fst (t_change (sp_db sample_provider)) = [1]"
    and later: "map fst (t_change (sp_db sample_later)) = [2]" by code_simp+
  then obtain r where r: "t_change (sp_db sample_provider) = [(1, r)]" "scope_json (chr_key r) = ''{s}''"
    by (auto simp: map_eq_Cons_conv)
  note L = change_log_append_only[OF sample_later_run]
  have gone: "(1, r) \<notin> set (t_change (sp_db sample_later))"
  proof
    assume "(1, r) \<in> set (t_change (sp_db sample_later))"
    then have "(1::nat) \<in> set (map fst (t_change (sp_db sample_later)))" by force
    with later show False by simp
  qed
  with L r have rep: "reported_pruned 1 ''{s}'' (sp_db sample_later)" by auto
  from L obtain t new where t: "t_change (sp_db sample_later) = filter (recorded_since t) [(1, r)] @ new"
    "t = 0 \<or> pruned_during sample_env sample_provider sample_later t" unfolding r(1) by blast
  have "t \<noteq> 0"
  proof
    assume "t = 0"
    then have "recorded_since t (1, r)" by (simp add: recorded_since_def)
    then have "(1, r) \<in> set (t_change (sp_db sample_later))" unfolding t(1) by simp
    with gone show False ..
  qed
  with t(2) before later rep show ?thesis by blast
qed

theorem pruning_reported_witness:
  "case provider_read_changes (sample_cutoff 1) sample_later of
     (Inr page, p'') \<Rightarrow> oldest_cursor page = Some 2
       \<and> (\<exists>r. (2, r) \<in> set (t_change (sp_db p'')) \<and> page_changes page = [to_stored_change (2, r)])
   | _ \<Rightarrow> False"
proof -
  let ?q = "sample_cutoff 1" let ?r = "provider_read_changes ?q sample_later"
  have "case fst ?r of Inr page \<Rightarrow> oldest_cursor page = Some 2 \<and> length (page_changes page) = 1 | _ \<Rightarrow> False" by code_simp
  then obtain page where page: "fst ?r = Inr page" "oldest_cursor page = Some 2" "length (page_changes page) = 1"
    by (auto split: sum.splits)
  then obtain p'' where run: "?r = (Inr page, p'')" by (cases ?r) simp
  have "list_all (\<lambda>(c, r). c = 2 \<and> scope_json (chr_key r) = ''{s}'') (t_change (sp_db sample_later))"
    and "length (t_change (sp_db sample_later)) = 1" "length (visible_changes ?q 1 (sp_db (snd ?r))) = 1" by code_simp+
  then obtain r where r: "(2, r) \<in> set (t_change (sp_db sample_later))" "scope_json (chr_key r) = ''{s}''"
    and one: "length (visible_changes ?q 1 (sp_db p'')) = 1"
    using run by (auto simp: length_Suc_conv)
  have "change_matches ?q r" "cq_scope_json ?q = ''{s}''" "cq_after_cursor ?q = 1" "cq_limit ?q = 1"
    by (simp_all add: change_matches_def sample_cutoff_def sample_query_def)
  note q = this
  have "(2, r) \<in> set (t_change (sp_db p''))
    \<and> to_stored_change (2, r) \<in> set (visible_changes ?q (cq_after_cursor ?q) (sp_db p''))
    \<and> page_changes page = (let all = visible_changes ?q (cq_after_cursor ?q) (sp_db p'')
                            in if cq_limit ?q = 0 then all else take (cq_limit ?q) all)"
    by (rule pruning_reported[OF run_refl run _ r(1)]) (use q page(2) r(2) in simp_all)
  with one q have "(2, r) \<in> set (t_change (sp_db p''))" "page_changes page = [to_stored_change (2, r)]"
    by (auto simp: length_Suc_conv)
  with run page(2) show ?thesis by auto
qed

theorem unclean_shutdown_detected_witness:
  "case initialize (Some 1) fresh_provider of
     (Inr rec, p1) \<Rightarrow> generation rec = 1
       \<and> (case initialize (Some 2) (p1\<lparr>sp_connected := True, sp_changes := 0\<rparr>) of
            (Inr rec2, _) \<Rightarrow> recovered_after_unclean_shutdown rec2 \<and> generation rec2 = 2
          | _ \<Rightarrow> False)
   | _ \<Rightarrow> False"
proof -
  let ?r = "initialize (Some 1) fresh_provider"
  let ?q = "initialize (Some 2) ((snd ?r)\<lparr>sp_connected := True, sp_changes := 0\<rparr>)"
  have "case fst ?r of Inr rec \<Rightarrow> generation rec = 1 | _ \<Rightarrow> False" "case fst ?q of Inr _ \<Rightarrow> True | _ \<Rightarrow> False"
    by code_simp+
  then obtain rec rec2 where r': "fst ?r = Inr rec" "generation rec = 1" and q': "fst ?q = Inr rec2"
    by (auto split: sum.splits)
  obtain p1 where r: "?r = (Inr rec, p1)" using r'(1) by (cases ?r) simp
  obtain p2 where q: "initialize (Some 2) (p1\<lparr>sp_connected := True, sp_changes := 0\<rparr>) = (Inr rec2, p2)"
    using q' r by (cases "initialize (Some 2) (p1\<lparr>sp_connected := True, sp_changes := 0\<rparr>)") simp
  have "recovered_after_unclean_shutdown rec2 \<and> generation rec2 = generation rec + 1"
    using unclean_shutdown_detected[OF r] q by blast
  then show ?thesis using r q r'(2) by simp
qed

end
