(* ===== verification/Provider_Interface.thy ===== *)
theory Provider_Interface
  imports Provider_Types
begin

text \<open>
  The interface between the engine and its storage, the trait \<open>Provider\<close> of
  \<open>crates/provider/src/lib.rs\<close>: a provider is a record of its methods over some state. The contract
  \<open>entity_store\<close> is what the engine relies on when it reads and commits entities; it is
  discharged for the SQLite provider and for the router over SQLite providers.
\<close>

section \<open>The trait\<close>

record 'p Provider =
  p_capabilities :: ProviderCapabilities
  p_initialize :: "'p \<Rightarrow> ProviderRecovery presult \<times> 'p"
  p_health_check :: "'p \<Rightarrow> unit presult \<times> 'p"
  p_read_entity :: "EntityKey \<Rightarrow> ReadConsistency \<Rightarrow> 'p \<Rightarrow> EntitySnapshot option ConsistentRead presult \<times> 'p"
  p_read_changes :: "ChangeQuery \<Rightarrow> 'p \<Rightarrow> ChangePage presult \<times> 'p"
  p_wait_for_changes :: "string \<Rightarrow> nat \<Rightarrow> 'p \<Rightarrow> unit option presult \<times> 'p"
  p_retrieve_entities :: "RetrieveQuery \<Rightarrow> ReadConsistency \<Rightarrow> 'p \<Rightarrow> RetrievedPage ConsistentRead presult \<times> 'p"
  p_commit_entity :: "EntityCommit \<Rightarrow> 'p \<Rightarrow> EntityCommitOutcome presult \<times> 'p"
  p_read_idempotency ::
    "string \<Rightarrow> ReadConsistency \<Rightarrow> string \<Rightarrow> string \<Rightarrow> nat \<Rightarrow> 'p \<Rightarrow> IdempotencyReadOutcome presult \<times> 'p"
  p_read_idempotency_in_work_unit ::
    "WorkUnit \<Rightarrow> ReadConsistency \<Rightarrow> string \<Rightarrow> string \<Rightarrow> nat \<Rightarrow> bool \<Rightarrow> 'p \<Rightarrow> IdempotencyReadOutcome presult \<times> 'p"
  p_commit_entity_idempotent ::
    "EntityCommit \<Rightarrow> IdempotencyRecord \<Rightarrow> nat \<Rightarrow> 'p \<Rightarrow> IdempotentCommitOutcome presult \<times> 'p"
  p_read_entity_in_work_unit ::
    "WorkUnit \<Rightarrow> EntityKey \<Rightarrow> ReadConsistency \<Rightarrow> 'p \<Rightarrow> WorkUnitReadOutcome presult \<times> 'p"
  p_retrieve_entities_in_work_unit ::
    "WorkUnit \<Rightarrow> RetrieveQuery \<Rightarrow> ReadConsistency \<Rightarrow> 'p \<Rightarrow> WorkUnitRetrieveOutcome presult \<times> 'p"
  p_commit_entity_in_work_unit :: "WorkUnitCommit \<Rightarrow> 'p \<Rightarrow> WorkUnitCommitOutcome presult \<times> 'p"
  p_publish_work_unit :: "WorkUnitPublish \<Rightarrow> 'p \<Rightarrow> WorkUnitCommitOutcome presult \<times> 'p"
  p_checkpoint :: "'p \<Rightarrow> unit presult \<times> 'p"
  p_shutdown :: "'p \<Rightarrow> unit presult \<times> 'p"

section \<open>Specification of an entity store\<close>

text \<open>The abstract store: the heads of every entity and the contents of its versions. A commit is an
  atomic compare-and-set on the heads of one entity.\<close>

type_synonym entity_state = "string list \<times> (string \<times> StoredVersionState \<times> string option) set"

definition spec_commit ::
  "EntityCommit \<Rightarrow> (EntityKey \<Rightarrow> entity_state) \<Rightarrow> EntityCommitOutcome \<times> (EntityKey \<Rightarrow> entity_state)" where
  "spec_commit c A =
     (let (hs, vs) = A (ec_key c)
      in if hs = sort (ec_expected_heads c)
         then (Committed, A(ec_key c := (sort (ec_head_versions c), vs \<union> version_content ` set (ec_new_versions c))))
         else (Conflict hs, A))"

definition spec_read :: "EntityKey \<Rightarrow> (EntityKey \<Rightarrow> entity_state) \<Rightarrow> EntitySnapshot option \<Rightarrow> bool" where
  "spec_read key A sn \<longleftrightarrow>
     (case sn of
        None \<Rightarrow> fst (A key) = []
      | Some sn \<Rightarrow> fst (A key) \<noteq> [] \<and> sn_head_versions sn = fst (A key)
                    \<and> version_content ` set (sn_versions sn) = snd (A key))"

definition store_abs ::
  "(EntityKey \<Rightarrow> 's \<Rightarrow> string list) \<Rightarrow> (EntityKey \<Rightarrow> 's \<Rightarrow> (string \<times> StoredVersionState \<times> string option) set)
   \<Rightarrow> 's \<Rightarrow> EntityKey \<Rightarrow> entity_state" where
  "store_abs heads contents s = (\<lambda>k. (heads k s, contents k s))"

section \<open>The contract of an entity store\<close>

text \<open>\<open>heads\<close> are the published heads of an entity, in ascending order, and \<open>contents\<close> the
  published versions with their state and value.\<close>

locale entity_store =
  fixes read :: "EntityKey \<Rightarrow> ReadConsistency \<Rightarrow> 's \<Rightarrow> EntitySnapshot option ConsistentRead presult \<times> 's"
    and commit :: "EntityCommit \<Rightarrow> 's \<Rightarrow> EntityCommitOutcome presult \<times> 's"
    and heads :: "EntityKey \<Rightarrow> 's \<Rightarrow> string list"
    and contents :: "EntityKey \<Rightarrow> 's \<Rightarrow> (string \<times> StoredVersionState \<times> string option) set"
    and invar :: "'s \<Rightarrow> bool"
  assumes read_invar: "invar s \<Longrightarrow> read key rc s = (r, s') \<Longrightarrow> invar s'"
    and read_keeps: "invar s \<Longrightarrow> read key rc s = (r, s') \<Longrightarrow> heads k s' = heads k s \<and> contents k s' = contents k s"
    and read_answer: "invar s \<Longrightarrow> read key rc s = (Inr (Read sn ob), s') \<Longrightarrow>
      (case sn of
         None \<Rightarrow> heads key s = []
       | Some sn \<Rightarrow> heads key s \<noteq> [] \<and> sn_head_versions sn = heads key s
                     \<and> version_content ` set (sn_versions sn) = contents key s)"
    and head_stored: "invar s \<Longrightarrow> v \<in> set (heads key s) \<Longrightarrow> \<exists>st x. (v, st, x) \<in> contents key s"
    and contents_unique: "invar s \<Longrightarrow> (v, a) \<in> contents key s \<Longrightarrow> (v, b) \<in> contents key s \<Longrightarrow> a = b"
    and commit_invar: "invar s \<Longrightarrow> commit_wf c \<Longrightarrow> commit c s = (out, s') \<Longrightarrow> invar s'"
    and commit_committed: "invar s \<Longrightarrow> commit_wf c \<Longrightarrow> commit c s = (Inr Committed, s') \<Longrightarrow>
      heads (ec_key c) s = sort (ec_expected_heads c) \<and> heads (ec_key c) s' = sort (ec_head_versions c)
      \<and> contents (ec_key c) s' = contents (ec_key c) s \<union> version_content ` set (ec_new_versions c)
      \<and> (\<forall>k. k \<noteq> ec_key c \<longrightarrow> heads k s' = heads k s \<and> contents k s' = contents k s)"
    and commit_refused: "invar s \<Longrightarrow> commit_wf c \<Longrightarrow> commit c s = (out, s') \<Longrightarrow> out \<noteq> Inr Committed \<Longrightarrow>
      heads k s' = heads k s \<and> contents k s' = contents k s"
    and commit_conflict: "invar s \<Longrightarrow> commit_wf c \<Longrightarrow> commit c s = (Inr (Conflict hs), s') \<Longrightarrow>
      hs = heads (ec_key c) s \<and> hs \<noteq> sort (ec_expected_heads c)"
begin

text \<open>A commit that did not fail and whose expectation is outdated is refused.\<close>

lemma stale_commit_conflicts:
  assumes "invar s" "commit_wf c" "commit c s = (Inr out, s')" "heads (ec_key c) s \<noteq> sort (ec_expected_heads c)"
  shows "out = Conflict (heads (ec_key c) s)"
proof (cases out)
  case Committed
  with commit_committed assms show ?thesis by blast
next
  case (Conflict hs)
  with commit_conflict assms show ?thesis by blast
qed

text \<open>The version a reader finds under a head is the one that was committed under that name.\<close>

lemma read_after_commit:
  assumes inv: "invar s" and wf: "commit_wf c" and com: "commit c s = (Inr Committed, s1)"
    and rd: "read (ec_key c) rc s1 = (Inr (Read (Some sn) ob), s2)"
    and v: "v \<in> set (ec_new_versions c)" "sv_version v \<in> set (ec_head_versions c)"
  shows "sn_head_versions sn = sort (ec_head_versions c)
    \<and> (\<exists>w. find (\<lambda>w. sv_version w = sv_version v) (sn_versions sn) = Some w \<and> version_content w = version_content v)"
proof -
  have inv1: "invar s1" by (rule commit_invar[OF inv wf com])
  note C = commit_committed[OF inv wf com] and R = read_answer[OF inv1 rd, simplified]
  have vc: "version_content v \<in> contents (ec_key c) s1" using C v(1) by blast
  then obtain w0 where w0: "w0 \<in> set (sn_versions sn)" "version_content w0 = version_content v" using R by (metis imageE)
  then have "sv_version w0 = sv_version v" by (simp add: version_content_def)
  with w0 obtain w where w: "find (\<lambda>w. sv_version w = sv_version v) (sn_versions sn) = Some w"
    by (cases "find (\<lambda>w. sv_version w = sv_version v) (sn_versions sn)") (auto simp: find_None_iff)
  then have "w \<in> set (sn_versions sn)" "sv_version w = sv_version v"
    by (auto simp: find_Some_iff in_set_conv_nth)
  then have "version_content w \<in> contents (ec_key c) s1" using R by blast
  with vc contents_unique[OF inv1] \<open>sv_version w = sv_version v\<close> have "version_content w = version_content v"
    unfolding version_content_def by (metis prod.collapse)
  with w C R show ?thesis by simp
qed

lemma commit_refines:
  assumes "invar s" "commit_wf c"
  shows "case commit c s of
      (Inl e, s') \<Rightarrow> store_abs heads contents s' = store_abs heads contents s
    | (Inr out, s') \<Rightarrow> spec_commit c (store_abs heads contents s) = (out, store_abs heads contents s')"
proof (cases "commit c s")
  case (Pair r s')
  show ?thesis
  proof (cases "r = Inr Committed")
    case True
    with commit_committed[OF assms] Pair show ?thesis
      by (auto simp: spec_commit_def store_abs_def fun_eq_iff)
  next
    case False
    then have "store_abs heads contents s' = store_abs heads contents s" using commit_refused[OF assms] Pair by (auto simp: store_abs_def fun_eq_iff)
    with False commit_conflict[OF assms] Pair show ?thesis
      by (auto simp: spec_commit_def store_abs_def split: sum.splits) (metis EntityCommitOutcome.exhaust)+
  qed
qed

lemma read_refines:
  assumes "invar s"
  shows "case read key rc s of
      (Inr (Read sn ob), s') \<Rightarrow> store_abs heads contents s' = store_abs heads contents s \<and> spec_read key (store_abs heads contents s) sn
    | (_, s') \<Rightarrow> store_abs heads contents s' = store_abs heads contents s"
proof (cases "read key rc s")
  case (Pair r s')
  then have "store_abs heads contents s' = store_abs heads contents s" using read_keeps[OF assms] by (auto simp: store_abs_def fun_eq_iff)
  moreover have "spec_read key (store_abs heads contents s) sn" if "r = Inr (Read sn ob)" for sn ob
    using read_answer[OF assms, of key rc sn ob s'] Pair that
    by (simp add: spec_read_def store_abs_def split: option.splits)
  ultimately show ?thesis using Pair by (auto split: sum.splits ConsistentRead.splits)
qed

end

end
