(* ===== verification/Sqlite_Store.thy ===== *)
theory Sqlite_Store
  imports Provider_Runs Provider_Interface
begin

text \<open>
  The SQLite provider behind the interface of providers, and the contract of an entity store
  discharged for it. The clock readings of a call are an argument: reading \<open>i\<close> of the call is
  \<open>clk i\<close>.
\<close>

definition sqlite_ops :: "sqlite_env \<Rightarrow> retrieval_env \<Rightarrow> (nat \<Rightarrow> clock) \<Rightarrow> nat \<times> nat \<times> nat \<Rightarrow> sqlite_provider Provider" where
  "sqlite_ops E V clk wal =
     \<lparr>p_capabilities = sqlite_capabilities,
      p_initialize = initialize (clk 0),
      p_health_check = health_check,
      p_read_entity = read_entity E (clk 0) (clk 1) (clk 2),
      p_read_changes = provider_read_changes,
      p_wait_for_changes = wait_for_changes_round,
      p_retrieve_entities = provider_retrieve_entities E V (clk 0) (clk 1),
      p_commit_entity = commit_entity E (clk 0) (clk 1),
      p_read_idempotency = provider_read_idempotency E (clk 0) (clk 1),
      p_read_idempotency_in_work_unit = provider_read_idempotency_in_work_unit E (clk 0) (clk 1),
      p_commit_entity_idempotent = provider_commit_entity_idempotent E (clk 0),
      p_read_entity_in_work_unit = provider_read_entity_in_work_unit E (clk 0) (clk 1) (clk 2),
      p_retrieve_entities_in_work_unit = provider_retrieve_entities_in_work_unit E V (clk 0) (clk 1) (clk 2),
      p_commit_entity_in_work_unit = provider_commit_entity_in_work_unit E (clk 0) (clk 1),
      p_publish_work_unit = provider_publish_work_unit E (clk 0),
      p_checkpoint = checkpoint (clk 0) wal,
      p_shutdown = shutdown (clk 0) (fst wal)\<rparr>"

definition sqlite_heads :: "EntityKey \<Rightarrow> sqlite_provider \<Rightarrow> string list" where
  "sqlite_heads key p = published_heads key (sp_db p)"

definition sqlite_contents :: "EntityKey \<Rightarrow> sqlite_provider \<Rightarrow> (string \<times> StoredVersionState \<times> string option) set" where
  "sqlite_contents key p = published_contents key (sp_db p)"

definition sqlite_inv :: "sqlite_provider \<Rightarrow> bool" where
  "sqlite_inv p \<longleftrightarrow> provider_inv (sp_db p)"

definition sqlite_abs :: "sqlite_provider \<Rightarrow> EntityKey \<Rightarrow> entity_state" where
  "sqlite_abs = store_abs sqlite_heads sqlite_contents"

section \<open>The contract holds\<close>

lemma sweep_published:
  assumes "sweep_expired_work_units clk db = (r, db')" and ok: "storage_ok db"
  shows "same_published db db' \<and> storage_ok db'"
proof -
  have "same_published db d \<and> storage_ok d" if run: "expire_open_work_units now db = Inr d" for now d
  proof -
    from expire_open_work_units_Ok[OF run] obtain units
      where "foldR (\<lambda>u. expire_work_unit u now) units db = Inr d" by blast
    then show ?thesis
      by (rule foldR_invariant[where P = "\<lambda>d. same_published db d \<and> storage_ok d"])
         (use ok in \<open>auto intro: same_published_trans same_published_expired storage_ok_expire_work_unit\<close>)
  qed
  with assms show ?thesis
    by (auto simp: sweep_expired_work_units_def finish_tx_def bindR_eq_Inr split: sum.splits prod.splits)
qed

text \<open>The published state of an entity, as the contract sees it.\<close>

definition same_entities :: "sqlite_db \<Rightarrow> sqlite_db \<Rightarrow> bool" where
  "same_entities db db' \<longleftrightarrow> (\<forall>k. published_heads k db' = published_heads k db
                               \<and> published_contents k db' = published_contents k db)"

lemma same_entities_refl [simp]: "same_entities db db"
  by (simp add: same_entities_def)

lemma same_entities_trans: "same_entities a b \<Longrightarrow> same_entities b c \<Longrightarrow> same_entities a c"
  by (simp add: same_entities_def)

lemma same_published_entities: "same_published db db' \<Longrightarrow> same_entities db db'"
  by (simp add: same_entities_def same_published_heads) (simp add: same_published_def)

lemma same_entities_session: "same_entities db (db\<lparr>t_session := t\<rparr>)"
  by (simp add: same_entities_def published_heads_def heads_of_def published_contents_rows)

lemma swept_entities:
  assumes "after_sweep clk f db = (r, db')" "storage_ok db"
    and "\<And>d r d'. f d = (r, d') \<Longrightarrow> storage_ok d \<Longrightarrow> same_entities d d'"
  shows "same_entities db db'"
proof -
  obtain sr d where s: "sweep_expired_work_units clk db = (sr, d)" by (cases "sweep_expired_work_units clk db")
  note P = sweep_published[OF s assms(2)]
  then have "same_entities db d" by (simp add: same_published_entities)
  with assms s P show ?thesis by (cases sr) (auto simp: after_sweep_def intro: same_entities_trans)
qed

lemma read_consistent_entities:
  assumes "read_entity_consistent E clk clk' key rc db = (r, db')" shows "same_entities db db'"
proof -
  have "same_entities db d" if "advance_read_sessions E s rc f db = Inr d" for s f d
    using advance_read_sessions_only[OF that] same_entities_session by auto
  with assms show ?thesis
    by (auto simp: read_entity_consistent_def Let_def finish_tx_def bindR_def
        split: if_splits sum.splits prod.splits option.splits)
qed

lemma called_entities:
  assumes "call f p = (r, p')" and "\<And>d r d'. f d = (r, d') \<Longrightarrow> d = sp_db p \<Longrightarrow> same_entities d d'"
  shows "same_entities (sp_db p) (sp_db p')"
  using assms by (auto simp: call_def split: if_splits prod.splits)

lemma commit_refused_entities:
  "commit_entity_transaction E clk c db = (r, db') \<Longrightarrow> r \<noteq> Inr Committed \<Longrightarrow> db' = db"
  by (auto simp: commit_entity_transaction_def finish_tx_def
      split: if_splits sum.splits prod.splits EntityCommitOutcome.splits)

lemma commit_entity_cases:
  assumes "commit_entity E clk0 clk c p = (r, p')" and ok: "storage_ok (sp_db p)"
  shows "(r \<noteq> Inr Committed \<longrightarrow> same_entities (sp_db p) (sp_db p'))
    \<and> (\<forall>out. r = Inr out \<longrightarrow> (\<exists>d. same_entities (sp_db p) d
            \<and> commit_entity_transaction E clk c d = (Inr out, sp_db p')))"
proof -
  let ?db = "sp_db p"
  obtain sr d where s: "sweep_expired_work_units clk0 ?db = (sr, d)" by (cases "sweep_expired_work_units clk0 ?db")
  have same: "same_entities ?db d" using sweep_published[OF s ok] by (simp add: same_published_entities)
  obtain tr td where t: "commit_entity_transaction E clk c d = (tr, td)" by (cases "commit_entity_transaction E clk c d")
  show ?thesis
  proof (cases "sp_connected p")
    case False
    with assms(1) show ?thesis by (auto simp: commit_entity_def call_def Let_def signal_changes_def split: if_splits)
  next
    case True
    show ?thesis
    proof (cases sr)
      case (Inl e)
      with True assms(1) s same show ?thesis
        by (auto simp: commit_entity_def call_def Let_def signal_changes_def after_sweep_def split: if_splits)
    next
      case (Inr u)
      with True assms(1) s t have "r = tr" "sp_db p' = td"
        by (auto simp: commit_entity_def call_def Let_def signal_changes_def after_sweep_def split: if_splits)
      with same t commit_refused_entities[OF t] show ?thesis by auto
    qed
  qed
qed

lemma sqlite_inv_storage: "sqlite_inv s \<Longrightarrow> storage_ok (sp_db s)"
  by (simp add: sqlite_inv_def provider_inv_def)

lemma sqlite_read_answer:
  assumes inv: "sqlite_inv s" and rd: "read_entity E c0 c1 c2 key rc s = (Inr (Read sn ob), s')"
  shows "case sn of None \<Rightarrow> sqlite_heads key s = []
     | Some sn \<Rightarrow> sqlite_heads key s \<noteq> [] \<and> sn_head_versions sn = sqlite_heads key s
                   \<and> version_content ` set (sn_versions sn) = sqlite_contents key s"
proof -
  from call_read[OF rd] obtain d where d: "sweep_expired_work_units c0 (sp_db s) = (Inr (), d)"
    "read_entity_consistent E c1 c2 key rc d = (Inr (Read sn ob), sp_db s')" by blast
  have same: "same_entities (sp_db s) d"
    using sweep_published[OF d(1)] sqlite_inv_storage[OF inv] by (simp add: same_published_entities)
  then have "version_content ` set (stored_versions key (\<lambda>_ row. evr_published_cursor row \<noteq> None) d) =
      sqlite_contents key s"
    unfolding published_contents_def[symmetric] by (simp add: same_entities_def sqlite_contents_def)
  moreover have "published_heads key d = sqlite_heads key s" "sort (published_heads key d) = published_heads key d"
    using same by (simp_all add: same_entities_def sqlite_heads_def) (simp add: published_heads_def)
  moreover have "sn = read_entity_snapshot key d" using read_entity_consistent_Read(1)[OF d(2)] .
  ultimately show ?thesis by (simp add: read_entity_snapshot_def Let_def del: not_None_eq)
qed

lemma sqlite_head_stored:
  assumes inv: "sqlite_inv s" and "v \<in> set (sqlite_heads key s)"
  shows "\<exists>st x. (v, st, x) \<in> sqlite_contents key s"
proof -
  note ok = sqlite_inv_storage[OF inv]
  from assms(2) have "(key, v) \<in> fst ` set (t_head (sp_db s))"
    by (force simp: sqlite_heads_def published_heads_def heads_of_def tbl_select_def)
  then have "map_of (t_head (sp_db s)) (key, v) \<noteq> None" by (simp add: map_of_eq_None_iff)
  with storage_okD(8)[OF ok, of key v] have "published_version (sp_db s) key v" by simp
  then obtain row where row: "map_of (t_version (sp_db s)) (key, v) = Some row" "evr_work_unit_json row = None"
    unfolding published_version_def by (cases "map_of (t_version (sp_db s)) (key, v)") simp_all
  with ok have "evr_published_cursor row \<noteq> None"
    using storage_okD(7) by (fastforce simp: version_ok_def split: option.splits)
  with row(1) have "(v, evr_state row, evr_value_json row) \<in> published_contents key (sp_db s)"
    unfolding published_contents_rows by (force dest: map_of_SomeD)
  then show ?thesis unfolding sqlite_contents_def by blast
qed

lemma sqlite_committed:
  assumes inv: "sqlite_inv s" and com: "commit_entity E c3 c4 c s = (Inr Committed, s')"
  shows "sqlite_heads (ec_key c) s = sort (ec_expected_heads c) \<and> sqlite_heads (ec_key c) s' = sort (ec_head_versions c)
      \<and> sqlite_contents (ec_key c) s' = sqlite_contents (ec_key c) s \<union> version_content ` set (ec_new_versions c)
      \<and> (\<forall>k. k \<noteq> ec_key c \<longrightarrow> sqlite_heads k s' = sqlite_heads k s \<and> sqlite_contents k s' = sqlite_contents k s)"
proof -
  from commit_entity_cases[OF com] sqlite_inv_storage[OF inv] obtain d where d: "same_entities (sp_db s) d"
    "commit_entity_transaction E c4 c d = (Inr Committed, sp_db s')" by auto
  have C: "committed_db c d (sp_db s')" "published_heads (ec_key c) d = sort (ec_expected_heads c)"
    using commit_entity_transaction_Committed[OF d(2)] by auto
  then show ?thesis using d(1) published_heads_committed[OF C(1)] published_contents_committed[OF C(1)]
    by (auto simp: same_entities_def sqlite_heads_def sqlite_contents_def)
qed

lemma sqlite_conflict:
  assumes inv: "sqlite_inv s" and com: "commit_entity E c3 c4 c s = (Inr (Conflict hs), s')"
  shows "hs = sqlite_heads (ec_key c) s \<and> hs \<noteq> sort (ec_expected_heads c)"
proof -
  from commit_entity_cases[OF com] sqlite_inv_storage[OF inv] obtain d where d: "same_entities (sp_db s) d"
    "commit_entity_transaction E c4 c d = (Inr (Conflict hs), sp_db s')" by auto
  then have "hs = sort (published_heads (ec_key c) d)" "hs \<noteq> sort (ec_expected_heads c)"
    by (auto simp: commit_entity_transaction_def commit_entity_in_transaction_def Let_def finish_tx_def bindR_eq_Inr
        split: if_splits sum.splits prod.splits EntityCommitOutcome.splits)
  with d(1) show ?thesis by (simp add: same_entities_def sqlite_heads_def) (simp add: published_heads_def)
qed

lemma sqlite_store: "entity_store (read_entity E c0 c1 c2) (commit_entity E c3 c4) sqlite_heads sqlite_contents sqlite_inv"
proof
  fix s key rc r s'
  assume inv: "sqlite_inv s" and rd: "read_entity E c0 c1 c2 key rc s = (r, s')"
  show "sqlite_inv s'"
    using inv provider_inv_step[OF provider_step.ReadEntity[OF rd]] by (simp add: sqlite_inv_def)
  have "same_entities (sp_db s) (sp_db s')"
    using rd unfolding read_entity_def
    by (rule called_entities) (rule swept_entities, assumption,
        use inv in \<open>simp add: sqlite_inv_def provider_inv_def\<close>, rule read_consistent_entities)
  then show "sqlite_heads k s' = sqlite_heads k s \<and> sqlite_contents k s' = sqlite_contents k s" for k
    by (simp add: same_entities_def sqlite_heads_def sqlite_contents_def)
next
  fix s key rc sn ob s'
  assume "sqlite_inv s" "read_entity E c0 c1 c2 key rc s = (Inr (Read sn ob), s')"
  then show "case sn of None \<Rightarrow> sqlite_heads key s = []
     | Some sn \<Rightarrow> sqlite_heads key s \<noteq> [] \<and> sn_head_versions sn = sqlite_heads key s
                   \<and> version_content ` set (sn_versions sn) = sqlite_contents key s" by (rule sqlite_read_answer)
next
  fix s v a key b
  assume inv: "sqlite_inv s" and "(v, a) \<in> sqlite_contents key s" "(v, b) \<in> sqlite_contents key s"
  moreover have "tbl_wf (t_version (sp_db s))" using storage_okD(1) inv by (simp add: sqlite_inv_def provider_inv_def)
  ultimately show "a = b"
    by (auto simp: sqlite_contents_def published_contents_rows tbl_wf_def dest: eq_key_imp_eq_value)
next
  fix s c out s'
  assume inv: "sqlite_inv s" and wf: "commit_wf c" and com: "commit_entity E c3 c4 c s = (out, s')"
  show "sqlite_inv s'"
    using inv provider_inv_step[OF provider_step.CommitEntity[OF com wf]] by (simp add: sqlite_inv_def)
  assume "out \<noteq> Inr Committed"
  then show "sqlite_heads k s' = sqlite_heads k s \<and> sqlite_contents k s' = sqlite_contents k s" for k
    using commit_entity_cases[OF com] inv
    by (simp add: same_entities_def sqlite_inv_def provider_inv_def sqlite_heads_def sqlite_contents_def)
qed (rule sqlite_head_stored sqlite_committed sqlite_conflict; assumption)+

interpretation sqlite: entity_store "read_entity E c0 c1 c2" "commit_entity E c3 c4" sqlite_heads sqlite_contents sqlite_inv
  for E c0 c1 c2 c3 c4
  by (rule sqlite_store)

text \<open>
  C21. The SQLite provider implements the abstract entity store. Seen through its abstraction (for
  every entity the heads and the version contents), a commit that is answered does what the
  specification does and answers the same, a commit that fails and every read leave the abstract
  store as it is, and a read that is answered returns the abstract heads and contents.
\<close>
theorem sqlite_refines_store:
  assumes "provider_inv (sp_db p)" and "commit_wf c"
  shows "(case commit_entity E c1 c2 c p of
            (Inl e, p') \<Rightarrow> sqlite_abs p' = sqlite_abs p
          | (Inr out, p') \<Rightarrow> spec_commit c (sqlite_abs p) = (out, sqlite_abs p'))
    \<and> (case read_entity E c3 c4 c5 key rc p of
            (Inr (Read sn ob), p') \<Rightarrow> sqlite_abs p' = sqlite_abs p \<and> spec_read key (sqlite_abs p) sn
          | (_, p') \<Rightarrow> sqlite_abs p' = sqlite_abs p)"
  using sqlite.commit_refines[where s = p and c = c and E = E and ?c3.0 = c1 and ?c4.0 = c2]
    sqlite.read_refines[where s = p and E = E and ?c0.0 = c3 and ?c1.0 = c4 and ?c2.0 = c5 and key = key and rc = rc] assms
  unfolding sqlite_abs_def by (simp add: sqlite_inv_def)

theorem sqlite_refines_store_witness:
  "fst (commit_entity sample_env (Some 1) (Some 5) (sample_commit ''b'' [] ''v2'') sample_provider) = Inr Committed
   \<and> spec_commit (sample_commit ''b'' [] ''v2'') (sqlite_abs sample_provider) =
     (Committed, sqlite_abs (snd (commit_entity sample_env (Some 1) (Some 5) (sample_commit ''b'' [] ''v2'') sample_provider)))"
proof -
  let ?c = "sample_commit ''b'' [] ''v2''"
  have "fst (commit_entity sample_env (Some 1) (Some 5) ?c sample_provider) = Inr Committed"
    by code_simp
  then obtain p' where p': "commit_entity sample_env (Some 1) (Some 5) ?c sample_provider = (Inr Committed, p')"
    by (metis prod.collapse)
  from sqlite_refines_store[OF sample_provider_inv sample_commit_wf,
      where E = sample_env and ?c1.0 = "Some 1" and ?c2.0 = "Some 5", THEN conjunct1, of "''b''" "[]" "''v2''"]
  show ?thesis unfolding p' by simp
qed

end
