(* ===== verification/Retrieval_Pages.thy ===== *)
theory Retrieval_Pages
  imports Retrieval
begin

text \<open>
  What retrieval returns: the candidates of a query are exactly the entities with a matching
  visible head version, and its pages walk through them in the query's order without gaps or
  repetitions. The order is an instance of the contract of comparison functions (\<open>comparison\<close>).
\<close>

section \<open>Paging\<close>

interpretation ranking: comparison "\<lambda>l r. compare_candidates l r order" for order
  by (rule comparison_candidates)

definition candidate_id :: "RetrievalCandidate \<Rightarrow> string \<times> string" where
  "candidate_id c = (ca_entity_type c, ca_entity_id c)"

text \<open>Reference: everything a query has still to return, in its order.\<close>

definition remaining :: "RetrieveQuery \<Rightarrow> RetrievalCandidate list \<Rightarrow> RetrievalCandidate list" where
  "remaining q cs =
     (let sorted_candidates = sort_by (\<lambda>l r. compare_candidates l r (rq_order q)) cs
      in case rq_after q of
           None \<Rightarrow> sorted_candidates
         | Some cursor \<Rightarrow>
             filter (\<lambda>c. compare_candidate_to_cursor c cursor (rq_order q) = Greater) sorted_candidates)"

lemma compare_tie:
  "compare_candidates l r order = OEqual \<Longrightarrow> candidate_id l = candidate_id r"
  by (cases order)
     (auto simp: compare_candidates_def candidate_key_def candidate_id_def cmp_def then_with.simps
      elim!: then_with.elims split: if_splits)

lemma distinct_sorted_wrt_map: "distinct (map g xs) \<longleftrightarrow> sorted_wrt (\<lambda>a b. g a \<noteq> g b) xs"
  by (induction xs) auto

lemma strictly_ranked:
  assumes "distinct (map candidate_id cs)"
  shows "sorted_wrt (\<lambda>a b. compare_candidates b a order = Greater) (sort_by (\<lambda>l r. compare_candidates l r order) cs)"
    (is "sorted_wrt ?gt ?s")
proof -
  have dist: "distinct (map candidate_id ?s)"
    using assms ranking.mset_sort_by[of order cs] by (metis mset_eq_imp_distinct_iff mset_map)
  have "?gt a b" if "compare_candidates a b order \<noteq> Greater" "candidate_id a \<noteq> candidate_id b" for a b
    using that compare_tie[of a b order] ranking.flip[of b a order] by (cases "compare_candidates a b order") auto
  moreover have "sorted_wrt (\<lambda>a b. candidate_id a \<noteq> candidate_id b) ?s"
    using dist by (simp add: distinct_sorted_wrt_map)
  ultimately show ?thesis
    using ranking.sorted_sort_by[of order cs] by (simp add: sorted_wrt_iff_nth_less)
qed

lemma cursor_compares: "compare_candidate_to_cursor c (candidate_cursor x o' fp) order = compare_candidates c x order"
  by (simp add: compare_candidate_to_cursor_def compare_candidates_def candidate_cursor_def cursor_key_def candidate_key_def)

definition cursor_candidate :: "RetrieveCursor \<Rightarrow> RetrievalCandidate" where
  "cursor_candidate k =
     \<lparr>ca_entity_type = rcu_entity_type k, ca_entity_id = rcu_entity_id k,
      ca_recorded_at_unix_ms = rcu_recorded_at_unix_ms k, ca_score = rcu_score k\<rparr>"

lemma to_cursor_candidate:
  "compare_candidate_to_cursor c k order = compare_candidates c (cursor_candidate k) order"
  by (simp add: compare_candidate_to_cursor_def compare_candidates_def cursor_candidate_def cursor_key_def candidate_key_def)

lemma remaining_strict:
  "distinct (map candidate_id cs) \<Longrightarrow>
     sorted_wrt (\<lambda>a b. compare_candidates b a (rq_order q) = Greater) (remaining q cs)"
  by (auto simp: remaining_def Let_def strictly_ranked sorted_wrt_filter split: option.splits)

lemma remaining_set: "rq_after q = None \<Longrightarrow> mset (remaining q cs) = mset cs"
  by (simp add: remaining_def Let_def ranking.mset_sort_by)

text \<open>After the last element of a page come exactly the candidates the page left over.\<close>

lemma remaining_after_page:
  assumes dist: "distinct (map candidate_id cs)" and split: "remaining q cs = page @ rest" and "page \<noteq> []"
    and q': "q' = q\<lparr>rq_after := Some (candidate_cursor (last page) (rq_order q) fp)\<rparr>"
  shows "remaining q' cs = rest"
proof -
  let ?o = "rq_order q" let ?s = "sort_by (\<lambda>l r. compare_candidates l r ?o) cs"
  let ?gt = "\<lambda>c. compare_candidates c (last page) ?o = Greater"
  have "filter ?gt ?s = filter ?gt (remaining q cs)"
  proof (cases "rq_after q")
    case (Some k)
    have "last page \<in> set (remaining q cs)" using split \<open>page \<noteq> []\<close> by simp
    then have "compare_candidates (last page) (cursor_candidate k) ?o = Greater"
      by (auto simp: remaining_def Let_def Some to_cursor_candidate)
    then have "compare_candidates c (cursor_candidate k) ?o = Greater" if "?gt c" for c
      using that ranking.total ranking.le_greater_trans by blast
    then show ?thesis by (auto simp: remaining_def Let_def Some to_cursor_candidate intro!: filter_cong)
  qed (simp add: remaining_def Let_def)
  also have "\<dots> = rest"
    unfolding split by (rule ranking.filter_after_last) (use remaining_strict[OF dist, of q] split \<open>page \<noteq> []\<close> in simp_all)
  finally show ?thesis by (simp add: remaining_def Let_def q' cursor_compares)
qed

lemma page_remaining:
  "page_of_candidates q cs =
     (if length (remaining q cs) \<le> rq_limit q then Ok (remaining q cs, None)
      else if rq_limit q = 0 then Err provider_error_new
      else Ok (take (rq_limit q) (remaining q cs),
               Some (candidate_cursor (last (take (rq_limit q) (remaining q cs))) (rq_order q) (rq_fingerprint q))))"
  by (auto simp: page_of_candidates_def remaining_def Let_def split: option.splits)

section \<open>Candidates\<close>

definition passes :: "json_env \<Rightarrow> (RetrieveFilter \<times> Value) list \<Rightarrow> MatchedVersion \<Rightarrow> bool" where
  "passes J filters m \<longleftrightarrow>
     (\<exists>value. from_str J (mv_value_json m) = Some value
            \<and> (\<forall>(f, expected) \<in> set filters. matches_filter J value f expected))"

text \<open>Reference: the candidate of an entity carries the best score and the latest time of its
  matching versions.\<close>

definition best_candidate :: "string \<times> string \<Rightarrow> MatchedVersion list \<Rightarrow> RetrievalCandidate option" where
  "best_candidate k ms =
     (if ms = [] then None
      else Some \<lparr>ca_entity_type = fst k, ca_entity_id = snd k,
                 ca_recorded_at_unix_ms = Max (set (map mv_recorded_at_unix_ms ms)),
                 ca_score = Max (set (map mv_score ms))\<rparr>)"

definition matches_of :: "json_env \<Rightarrow> (RetrieveFilter \<times> Value) list \<Rightarrow> MatchedVersion list \<Rightarrow> string \<times> string \<Rightarrow> MatchedVersion list" where
  "matches_of J filters ms k =
     filter (\<lambda>m. passes J filters m \<and> (mv_entity_type m, mv_entity_id m) = k) ms"

lemma filter_match_Ok:
  "filter_match J filters m cs = Inr cs' \<longleftrightarrow>
     from_str J (mv_value_json m) \<noteq> None
     \<and> cs' = (if passes J filters m then add_candidate m cs else cs)"
  by (cases "from_str J (mv_value_json m)") (auto simp: filter_match_def passes_def list_all_iff)

lemma map_of_add_candidate:
  assumes "btree_wf cs"
  shows "map_of (add_candidate m cs) k =
    (if k = (mv_entity_type m, mv_entity_id m)
     then Some (case map_of cs k of
        Some c \<Rightarrow> c\<lparr>ca_score := max (ca_score c) (mv_score m),
                    ca_recorded_at_unix_ms := max (ca_recorded_at_unix_ms c) (mv_recorded_at_unix_ms m)\<rparr>
      | None \<Rightarrow> \<lparr>ca_entity_type = mv_entity_type m, ca_entity_id = mv_entity_id m,
                 ca_recorded_at_unix_ms = mv_recorded_at_unix_ms m, ca_score = mv_score m\<rparr>)
     else map_of cs k)"
  using assms by (auto simp: add_candidate_def Let_def map_of_btree_insert)

lemma collect_candidates:
  "foldR (filter_match J filters) ms [] = Inr cs \<Longrightarrow>
     btree_wf cs \<and> (\<forall>k. map_of cs k = best_candidate k (matches_of J filters ms k))"
proof (induction ms arbitrary: cs rule: rev_induct)
  case Nil
  then show ?case by (simp add: btree_wf_def best_candidate_def matches_of_def)
next
  case (snoc m ms)
  from snoc.prems obtain cs0 where cs0: "foldR (filter_match J filters) ms [] = Inr cs0"
    "filter_match J filters m cs0 = Inr cs" by (auto simp: foldR_append bindR_eq_Inr)
  note IH = snoc.IH[OF cs0(1)]
  show ?case
  proof (cases "passes J filters m")
    case False
    with cs0(2) IH show ?thesis by (simp add: filter_match_Ok matches_of_def)
  next
    case True
    with cs0(2) have cs: "cs = add_candidate m cs0" by (simp add: filter_match_Ok)
    have "map_of cs k = best_candidate k (matches_of J filters (ms @ [m]) k)" for k
    proof (cases "k = (mv_entity_type m, mv_entity_id m)")
      case k: True
      let ?ms = "matches_of J filters ms k"
      have new: "matches_of J filters (ms @ [m]) k = ?ms @ [m]" using True k by (simp add: matches_of_def)
      have "map_of cs0 k = best_candidate k ?ms" using IH by blast
      then show ?thesis
        using IH unfolding cs new by (cases "?ms = []") (auto simp: map_of_add_candidate best_candidate_def k max.commute)
    next
      case k: False
      then have "matches_of J filters (ms @ [m]) k = matches_of J filters ms k" by (auto simp: matches_of_def)
      moreover have "map_of cs k = map_of cs0 k" using IH k by (simp add: cs map_of_add_candidate)
      ultimately show ?thesis using IH by metis
    qed
    moreover have "btree_wf cs" using IH by (simp add: cs add_candidate_def Let_def btree_insert_wf)
    ultimately show ?thesis by blast
  qed
qed

lemma best_candidate_id: "best_candidate k ms = Some c \<Longrightarrow> candidate_id c = k"
  by (auto simp: best_candidate_def candidate_id_def split: if_splits)

lemma all_candidates_Ok:
  assumes "all_candidates V q wu db = Inr cs"
    and filters: "mapR (parse_retrieval_filter (rv_json V)) (rq_filters q) = Inr filters"
  shows "distinct (map candidate_id cs)
    \<and> set cs = {c. \<exists>k. best_candidate k (matches_of (rv_json V) filters (matching_versions V q wu db) k) = Some c}"
    (is "_ \<and> _ = ?C")
proof -
  from assms obtain m where m: "foldR (filter_match (rv_json V) filters) (matching_versions V q wu db) [] = Inr m"
    "cs = map snd m" by (auto simp: all_candidates_def bindR_eq_Inr)
  note M = collect_candidates[OF m(1)]
  have wf: "distinct (map fst m)" using M btree_wf_distinct by blast
  have ids: "candidate_id c = k" if "(k, c) \<in> set m" for k c
    using that M map_of_is_SomeI[OF wf that] best_candidate_id by (metis (no_types, lifting))
  then have "map candidate_id cs = map fst m" unfolding m(2) by (auto simp: case_prod_beta')
  moreover have "c \<in> set cs \<longleftrightarrow> (\<exists>k. map_of m k = Some c)" for c
    using map_of_eq_Some_iff[OF wf, of _ c] unfolding m(2) by (force simp: image_iff)
  ultimately show ?thesis using wf M by auto
qed

lemma mem_matched_rows:
  "m \<in> set (matched_rows V db q heads (kv, row)) \<longleftrightarrow>
     (\<exists>value_json. evr_value_json row = Some value_json \<and> kv \<in> set heads \<and> evr_state row = Active
        \<and> selects_entity q (fst kv) \<and> text_matches V (rq_text q) value_json
        \<and> m = matched_version V db q kv row value_json)"
  by (auto simp: matched_rows_def matched_version_def count_list_0_iff set_replicate_conv_if split: option.splits)

lemma bex_pair: "(\<exists>x \<in> S. P x) \<longleftrightarrow> (\<exists>a b. (a, b) \<in> S \<and> P (a, b))"
  by auto

lemma mem_matching_versions:
  "m \<in> set (matching_versions V q wu db) \<longleftrightarrow>
     (\<exists>kv row value_json. (kv, row) \<in> set (t_version db) \<and> kv \<in> set (visible_heads wu (rq_scope_json q) db)
        \<and> evr_state row = Active \<and> evr_value_json row = Some value_json
        \<and> selects_entity q (fst kv) \<and> text_matches V (rq_text q) value_json
        \<and> m = matched_version V db q kv row value_json)"
proof -
  let ?h = "visible_heads wu (rq_scope_json q) db"
  have "m \<in> set (matching_versions V q wu db) \<longleftrightarrow>
      (\<exists>kv row. (kv, row) \<in> set (t_version db) \<and> m \<in> set (matched_rows V db q ?h (kv, row)))"
    unfolding matching_versions_def set_concat set_map UN_iff bex_simps(7) by (rule bex_pair)
  then show ?thesis unfolding mem_matched_rows by blast
qed

text \<open>
  Retrieval pages are complete. With a positive limit a retrieval that has candidates answers a
  page of at most that many, strictly ordered by the query's order and without an entity twice;
  when it answers no cursor the page is everything that was left, and when it answers one the page
  is full and the query continued at that cursor returns exactly the rest: over the pages no
  candidate is skipped or repeated. A query without cursor starts with all candidates.
\<close>
theorem retrieval_pages_complete:
  assumes "all_candidates V q wu db = Inr cs" and "0 < rq_limit q"
  shows "\<exists>page next. retrieve_candidates V q wu db = Inr (page, next)
    \<and> length page \<le> rq_limit q
    \<and> sorted_wrt (\<lambda>a b. compare_candidates b a (rq_order q) = Greater) page
    \<and> distinct (map candidate_id page)
    \<and> remaining q cs = page @ (case next of None \<Rightarrow> [] | Some cursor \<Rightarrow> remaining (q\<lparr>rq_after := Some cursor\<rparr>) cs)
    \<and> (next \<noteq> None \<longrightarrow> length page = rq_limit q)
    \<and> (rq_after q = None \<longrightarrow> mset (remaining q cs) = mset cs)"
proof -
  from assms(1) obtain filters where "mapR (parse_retrieval_filter (rv_json V)) (rq_filters q) = Inr filters"
    by (auto simp: all_candidates_def bindR_eq_Inr)
  from all_candidates_Ok[OF assms(1) this] have dist: "distinct (map candidate_id cs)" by simp
  let ?r = "remaining q cs" let ?n = "rq_limit q"
  note strict = remaining_strict[OF dist, of q]
  have ids: "distinct (map candidate_id ?r)"
  proof -
    have "mset ?r \<subseteq># mset cs"
      using multiset_filter_subset[of _ "mset cs"]
      by (simp add: remaining_def Let_def ranking.mset_sort_by split: option.splits)
    then have "mset (map candidate_id ?r) \<subseteq># mset (map candidate_id cs)" by (simp add: image_mset_subseteq_mono)
    then show ?thesis using dist by (metis distinct_append ex_mset mset_append mset_eq_imp_distinct_iff subset_mset.le_iff_add)
  qed
  show ?thesis
  proof (cases "length ?r \<le> ?n")
    case True
    with assms strict ids show ?thesis
      by (intro exI[of _ ?r] exI[of _ None]) (simp add: retrieve_candidates_def page_remaining remaining_set)
  next
    case False
    let ?page = "take ?n ?r" let ?k = "candidate_cursor (last ?page) (rq_order q) (rq_fingerprint q)"
    have "?page \<noteq> []" using False assms(2) by auto
    then have "remaining (q\<lparr>rq_after := Some ?k\<rparr>) cs = drop ?n ?r"
      by (intro remaining_after_page[OF dist _ _ HOL.refl, of q ?page]) simp_all
    with False assms strict ids show ?thesis
      by (intro exI[of _ ?page] exI[of _ "Some ?k"])
         (simp add: retrieve_candidates_def page_remaining remaining_set sorted_wrt_take take_map[symmetric] distinct_take)
  qed
qed

text \<open>
  C20. Retrieval returns exactly what matches. The candidates of a query are one per entity that has
  an active visible head version which the query selects, whose text matches and whose value passes
  every filter; its score is the best and its time the latest among those versions.
\<close>
theorem retrieval_candidates_exact:
  assumes "all_candidates V q wu db = Inr cs"
    and "mapR (parse_retrieval_filter (rv_json V)) (rq_filters q) = Inr filters"
  shows "distinct (map candidate_id cs)
    \<and> set cs = {c. \<exists>k. best_candidate k (matches_of (rv_json V) filters (matching_versions V q wu db) k) = Some c}
    \<and> candidate_id ` set cs =
        {(entity_type key, entity_id key) | key v row value_json value.
           ((key, v), row) \<in> set (t_version db) \<and> (key, v) \<in> set (visible_heads wu (rq_scope_json q) db)
           \<and> evr_state row = Active \<and> evr_value_json row = Some value_json
           \<and> selects_entity q key \<and> text_matches V (rq_text q) value_json
           \<and> from_str (rv_json V) value_json = Some value
           \<and> (\<forall>(f, expected) \<in> set filters. matches_filter (rv_json V) value f expected)}"
    (is "_ \<and> _ \<and> _ = ?ids")
proof -
  note A = all_candidates_Ok[OF assms]
  let ?ms = "matching_versions V q wu db" let ?J = "rv_json V"
  have "candidate_id ` set cs = {k. matches_of ?J filters ?ms k \<noteq> []}"
  proof -
    have none: "best_candidate k ms = None \<longleftrightarrow> ms = []" for k ms by (simp add: best_candidate_def)
    have mem: "c \<in> set cs \<longleftrightarrow> (\<exists>k. best_candidate k (matches_of ?J filters ?ms k) = Some c)" for c
      using A by blast
    show ?thesis
    proof (intro set_eqI iffI; unfold mem_Collect_eq)
      fix k assume "k \<in> candidate_id ` set cs"
      then obtain c where "best_candidate k (matches_of ?J filters ?ms k) = Some c"
        unfolding image_iff Bex_def mem by (blast dest: best_candidate_id)
      then show "matches_of ?J filters ?ms k \<noteq> []" using none by (metis option.distinct(1))
    next
      fix k assume "matches_of ?J filters ?ms k \<noteq> []"
      then obtain c where c: "best_candidate k (matches_of ?J filters ?ms k) = Some c" unfolding none[of k, symmetric] not_None_eq by blast
      from best_candidate_id[OF this] c show "k \<in> candidate_id ` set cs" unfolding image_iff Bex_def mem by blast
    qed
  qed
  also have "\<dots> = (\<lambda>m. (mv_entity_type m, mv_entity_id m)) ` {m \<in> set ?ms. passes ?J filters m}"
    by (auto simp: matches_of_def filter_empty_conv image_iff)
  also have "\<dots> = ?ids"
  proof (intro set_eqI iffI)
    fix k assume "k \<in> (\<lambda>m. (mv_entity_type m, mv_entity_id m)) ` {m \<in> set ?ms. passes ?J filters m}"
    then obtain m where m: "k = (mv_entity_type m, mv_entity_id m)" "m \<in> set ?ms" "passes ?J filters m" by blast
    from m(2) obtain kv row vj where kv: "(kv, row) \<in> set (t_version db)" "kv \<in> set (visible_heads wu (rq_scope_json q) db)"
      "evr_state row = Active" "evr_value_json row = Some vj" "selects_entity q (fst kv)" "text_matches V (rq_text q) vj"
      "m = matched_version V db q kv row vj" unfolding mem_matching_versions by blast
    from m(3) obtain x where "from_str ?J (mv_value_json m) = Some x"
      "\<forall>(f, expected) \<in> set filters. matches_filter ?J x f expected" unfolding passes_def by blast
    then show "k \<in> ?ids"
      using m(1) kv by (intro CollectI exI[of _ "fst kv"] exI[of _ "snd kv"] exI[of _ row] exI[of _ vj] exI[of _ x])
        (simp add: matched_version_def)
  next
    fix k assume "k \<in> ?ids"
    then obtain key v row vj x where k: "k = (entity_type key, entity_id key)" "((key, v), row) \<in> set (t_version db)"
      "(key, v) \<in> set (visible_heads wu (rq_scope_json q) db)" "evr_state row = Active" "evr_value_json row = Some vj"
      "selects_entity q key" "text_matches V (rq_text q) vj" "from_str ?J vj = Some x"
      "\<forall>(f, expected) \<in> set filters. matches_filter ?J x f expected" by blast
    let ?m = "matched_version V db q (key, v) row vj"
    have "?m \<in> set ?ms" unfolding mem_matching_versions using k(2-7) by (intro exI[of _ "(key, v)"] exI[of _ row] exI[of _ vj]) simp
    moreover have "passes ?J filters ?m" unfolding passes_def using k(8,9) by (simp add: matched_version_def)
    moreover have "k = (mv_entity_type ?m, mv_entity_id ?m)" using k(1) by (simp add: matched_version_def)
    ultimately show "k \<in> (\<lambda>m. (mv_entity_type m, mv_entity_id m)) ` {m \<in> set ?ms. passes ?J filters m}" by blast
  qed
  finally show ?thesis using A by blast
qed

section \<open>Concrete runs\<close>

definition sample_json :: json_env where
  "sample_json =
     \<lparr>from_str = (\<lambda>s. Some (String s)), to_string = (\<lambda>_. []), pointer = (\<lambda>v p. if p = ''/'' then Some v else None),
      set_pointer = (\<lambda>v _ _. v), nearest_f64 = of_int\<rparr>"

definition sample_retrieval :: retrieval_env where
  "sample_retrieval =
     \<lparr>rv_json = sample_json, rv_fts_match = (\<lambda>_ _. True), rv_negated_bm25 = (\<lambda>_ _ _. 2),
      rv_instr_lower = (\<lambda>_ _. True), rv_char_count = length, rv_zero = 0, rv_one = 1\<rparr>"

definition sample_retrieve :: RetrieveQuery where
  "sample_retrieve =
     \<lparr>rq_scope_json = ''{s}'', rq_entity_types = Some [''knowledge''], rq_text = Some ''one'', rq_entity_ids = None,
      rq_filters = [\<lparr>rf_pointer = ''/'', rf_operator = GreaterThanOrEqual, rf_value_json = ''0''\<rparr>],
      rq_order = Newest, rq_fingerprint = ''f'', rq_after = None, rq_limit = 1\<rparr>"

definition sample_candidate :: "string \<Rightarrow> RetrievalCandidate" where
  "sample_candidate i = \<lparr>ca_entity_type = ''knowledge'', ca_entity_id = i, ca_recorded_at_unix_ms = 7, ca_score = 2\<rparr>"

lemma sample_candidates:
  "all_candidates sample_retrieval sample_retrieve None sample_db2 = Inr [sample_candidate ''a'', sample_candidate ''b'']"
  by code_simp

theorem retrieval_pages_complete_witness:
  "\<exists>page next. retrieve_candidates sample_retrieval sample_retrieve None sample_db2 = Inr (page, next) \<and> length page \<le> 1
     \<and> mset (remaining sample_retrieve [sample_candidate ''a'', sample_candidate ''b'']) =
         {#sample_candidate ''a'', sample_candidate ''b''#}"
proof -
  have "0 < rq_limit sample_retrieve" "rq_limit sample_retrieve = 1" "rq_after sample_retrieve = None"
    by (simp_all add: sample_retrieve_def)
  with retrieval_pages_complete[OF sample_candidates] show ?thesis by (auto simp: add_mset_commute)
qed

theorem retrieval_candidates_exact_witness:
  "set [sample_candidate ''a'', sample_candidate ''b''] =
     {c. \<exists>k. best_candidate k (matches_of sample_json [(hd (rq_filters sample_retrieve), String ''0'')]
            (matching_versions sample_retrieval sample_retrieve None sample_db2) k) = Some c}"
proof -
  have F: "mapR (parse_retrieval_filter (rv_json sample_retrieval)) (rq_filters sample_retrieve) =
      Inr [(hd (rq_filters sample_retrieve), String ''0'')]" by code_simp
  have J: "rv_json sample_retrieval = sample_json" by (simp add: sample_retrieval_def)
  show ?thesis
    by (rule retrieval_candidates_exact[OF sample_candidates F, THEN conjunct2, THEN conjunct1, unfolded J])
qed

end
