(* ===== verification/Provider_Router.thy ===== *)
theory Provider_Router
  imports Sqlite_Store Retrieval_Pages
begin

text \<open>
  The routing provider, \<open>crates/provider-router/src/lib.rs\<close>: a provider that owns several providers
  and sends every call to the one its scope selects. A provider is an address (its \<open>Arc\<close>) into a
  heap of provider states, so \<open>Arc::ptr_eq\<close> is equality of addresses; \<open>ops\<close> gives the methods
  of the provider behind an address.
\<close>

record ScopeRoute =
  sr_scope :: "(string \<times> Value) list"
  sr_provider :: string

record RoutingProvider =
  rt_providers :: "(string \<times> nat) list"
  rt_default :: string
  rt_routes :: "ScopeRoute list"
  rt_capabilities :: ProviderCapabilities

record ScopedIdentity =
  si_scope :: "(string \<times> Value) list"
  si_fields :: "(string \<times> Value) list"

text \<open>The derived \<open>serde\<close> conversions the router calls: a scope from text, a scoped identity from
  text, a scope to text.\<close>

record router_env =
  parse_scope :: "string \<Rightarrow> (string \<times> Value) list option"
  parse_identity :: "string \<Rightarrow> ScopedIdentity option"
  print_scope :: "(string \<times> Value) list \<Rightarrow> string option"

section \<open>Construction and routing\<close>

definition and_capabilities :: "ProviderCapabilities \<Rightarrow> ProviderCapabilities \<Rightarrow> ProviderCapabilities" where
  "and_capabilities result next =
     \<lparr>authority = (authority result \<and> authority next),
      replica = (replica result \<and> replica next),
      change_stream = (change_stream result \<and> change_stream next),
      retrieval = (retrieval result \<and> retrieval next),
      idempotency = (idempotency result \<and> idempotency next),
      work_units = (work_units result \<and> work_units next),
      causal_reads = (causal_reads result \<and> causal_reads next),
      monotonic_reads = (monotonic_reads result \<and> monotonic_reads next),
      read_your_writes = (read_your_writes result \<and> read_your_writes next),
      linearizable_reads = (linearizable_reads result \<and> linearizable_reads next)\<rparr>"

text \<open>The first element is taken with \<open>expect\<close>; \<open>new\<close> has refused an empty map before.\<close>

fun intersect_capabilities :: "ProviderCapabilities list \<Rightarrow> ProviderCapabilities option" where
  "intersect_capabilities [] = None"
| "intersect_capabilities (c # cs) = Some (fold (\<lambda>next result. and_capabilities result next) cs c)"

definition check_route :: "(string \<times> nat) list \<Rightarrow> ScopeRoute \<Rightarrow> unit \<Rightarrow> unit presult" where
  "check_route providers route _ =
     (if sr_scope route = [] then Err provider_error_new
      else if map_of providers (sr_provider route) = None then Err provider_error_new
      else Ok ())"

definition routing_new ::
  "(nat \<Rightarrow> 'p Provider) \<Rightarrow> (string \<times> nat) list \<Rightarrow> string \<Rightarrow> ScopeRoute list \<Rightarrow> RoutingProvider presult" where
  "routing_new ops providers dflt routes =
     (if providers = [] then Err provider_error_new
      else if map_of providers dflt = None then Err provider_error_new
      else bindR (foldR (check_route providers) routes ()) (\<lambda>_.
           case intersect_capabilities (map (\<lambda>(_, a). p_capabilities (ops a)) providers) of
             None \<Rightarrow> Err provider_error_new
           | Some caps \<Rightarrow> Ok \<lparr>rt_providers = providers, rt_default = dflt, rt_routes = routes,
                              rt_capabilities = caps\<rparr>))"

definition route_matches :: "(string \<times> Value) list \<Rightarrow> ScopeRoute \<Rightarrow> bool" where
  "route_matches scope route \<longleftrightarrow> list_all (\<lambda>(key, v). map_of scope key = Some v) (sr_scope route)"

definition route_name :: "RoutingProvider \<Rightarrow> (string \<times> Value) list \<Rightarrow> string" where
  "route_name R scope =
     (case find (route_matches scope) (rt_routes R) of None \<Rightarrow> rt_default R | Some route \<Rightarrow> sr_provider route)"

definition route_scope :: "router_env \<Rightarrow> RoutingProvider \<Rightarrow> string \<Rightarrow> nat presult" where
  "route_scope J R json =
     bindR (ok_or (parse_scope J json) provider_error_new) (\<lambda>scope.
       ok_or (map_of (rt_providers R) (route_name R scope)) provider_error_new)"

definition route_identity :: "router_env \<Rightarrow> RoutingProvider \<Rightarrow> string \<Rightarrow> nat presult" where
  "route_identity J R identity_json =
     bindR (ok_or (parse_identity J identity_json) provider_error_new) (\<lambda>identity.
     bindR (ok_or (print_scope J (si_scope identity)) provider_error_new) (\<lambda>json.
       route_scope J R json))"

definition ensure_same_route :: "router_env \<Rightarrow> RoutingProvider \<Rightarrow> nat \<Rightarrow> string \<Rightarrow> unit presult" where
  "ensure_same_route J R expected json =
     bindR (route_scope J R json) (\<lambda>actual.
       if expected = actual then Ok () else Err provider_error_new)"

definition ensure_identity_route :: "router_env \<Rightarrow> RoutingProvider \<Rightarrow> nat \<Rightarrow> string \<Rightarrow> unit presult" where
  "ensure_identity_route J R provider identity_json =
     bindR (route_identity J R identity_json) (\<lambda>identity_provider.
       if provider = identity_provider then Ok () else Err provider_error_new)"

section \<open>Calls on the heap of providers\<close>

type_synonym 'p heap = "nat \<Rightarrow> 'p"

definition at_provider :: "nat \<Rightarrow> ('p \<Rightarrow> 'a \<times> 'p) \<Rightarrow> 'p heap \<Rightarrow> 'a \<times> 'p heap" where
  "at_provider a f h = (case f (h a) of (r, p) \<Rightarrow> (r, h(a := p)))"

definition forward :: "nat presult \<Rightarrow> (nat \<Rightarrow> 'p \<Rightarrow> 'a presult \<times> 'p) \<Rightarrow> 'p heap \<Rightarrow> 'a presult \<times> 'p heap" where
  "forward route f h = (case route of Inl e \<Rightarrow> (Err e, h) | Inr a \<Rightarrow> at_provider a (f a) h)"

definition map_context :: "'a presult \<times> 's \<Rightarrow> 'a presult \<times> 's" where
  "map_context s = (map_err error_context (fst s), snd s)"

section \<open>Life cycle\<close>

text \<open>The rollback of a failed start: errors of the clean-up only extend the message.\<close>

fun shutdown_initialized :: "(nat \<Rightarrow> 'p Provider) \<Rightarrow> (string \<times> nat) list \<Rightarrow> 'p heap \<Rightarrow> 'p heap" where
  "shutdown_initialized ops [] h = h"
| "shutdown_initialized ops ((name, a) # rest) h =
     shutdown_initialized ops rest (snd (at_provider a (p_shutdown (ops a)) h))"

fun initialize_from ::
  "(nat \<Rightarrow> 'p Provider) \<Rightarrow> (string \<times> nat) list \<Rightarrow> (string \<times> nat) list \<Rightarrow> ProviderRecovery \<Rightarrow> 'p heap
   \<Rightarrow> ProviderRecovery presult \<times> 'p heap" where
  "initialize_from ops [] initialized recovery h = (Ok recovery, h)"
| "initialize_from ops ((name, a) # rest) initialized recovery h =
     (case at_provider a (p_initialize (ops a)) h of
        (Inr current, h) \<Rightarrow>
          initialize_from ops rest (initialized @ [(name, a)])
            \<lparr>generation = max (generation recovery) (generation current),
             recovered_after_unclean_shutdown =
               (recovered_after_unclean_shutdown recovery \<or> recovered_after_unclean_shutdown current)\<rparr> h
      | (Inl error, h) \<Rightarrow> (Err (with_reason (pe_reason error)), shutdown_initialized ops (rev initialized) h))"

definition router_initialize :: "(nat \<Rightarrow> 'p Provider) \<Rightarrow> RoutingProvider \<Rightarrow> 'p heap \<Rightarrow> ProviderRecovery presult \<times> 'p heap" where
  "router_initialize ops R h =
     initialize_from ops (rt_providers R) [] \<lparr>generation = 0, recovered_after_unclean_shutdown = False\<rparr> h"

fun for_each_provider :: "(nat \<Rightarrow> 'p \<Rightarrow> unit presult \<times> 'p) \<Rightarrow> (string \<times> nat) list \<Rightarrow> 'p heap \<Rightarrow> unit presult \<times> 'p heap" where
  "for_each_provider f [] h = (Ok (), h)"
| "for_each_provider f ((name, a) # rest) h =
     (case map_context (at_provider a (f a) h) of
        (Inl error, h) \<Rightarrow> (Err error, h)
      | (Inr _, h) \<Rightarrow> for_each_provider f rest h)"

definition router_health_check :: "(nat \<Rightarrow> 'p Provider) \<Rightarrow> RoutingProvider \<Rightarrow> 'p heap \<Rightarrow> unit presult \<times> 'p heap" where
  "router_health_check ops R h = for_each_provider (\<lambda>a. p_health_check (ops a)) (rt_providers R) h"

definition router_checkpoint :: "(nat \<Rightarrow> 'p Provider) \<Rightarrow> RoutingProvider \<Rightarrow> 'p heap \<Rightarrow> unit presult \<times> 'p heap" where
  "router_checkpoint ops R h = for_each_provider (\<lambda>a. p_checkpoint (ops a)) (rt_providers R) h"

fun shutdown_from ::
  "(nat \<Rightarrow> 'p Provider) \<Rightarrow> (string \<times> nat) list \<Rightarrow> ProviderErrorReason option \<Rightarrow> 'p heap
   \<Rightarrow> ProviderErrorReason option \<times> 'p heap" where
  "shutdown_from ops [] reason h = (reason, h)"
| "shutdown_from ops ((name, a) # rest) reason h =
     (case at_provider a (p_shutdown (ops a)) h of
        (Inl error, h) \<Rightarrow>
          shutdown_from ops rest (case reason of None \<Rightarrow> Some (pe_reason error) | Some r \<Rightarrow> Some r) h
      | (Inr _, h) \<Rightarrow> shutdown_from ops rest reason h)"

definition router_shutdown :: "(nat \<Rightarrow> 'p Provider) \<Rightarrow> RoutingProvider \<Rightarrow> 'p heap \<Rightarrow> unit presult \<times> 'p heap" where
  "router_shutdown ops R h =
     (case shutdown_from ops (rev (rt_providers R)) None h of
        (Some reason, h) \<Rightarrow> (Err (with_reason reason), h)
      | (None, h) \<Rightarrow> (Ok (), h))"

section \<open>Scoped operations\<close>

text \<open>The provider that serves an operation, after the checks that all its scopes and identities
  lead to the same one.\<close>

definition route_with_identity :: "router_env \<Rightarrow> RoutingProvider \<Rightarrow> string \<Rightarrow> string \<Rightarrow> nat presult" where
  "route_with_identity J R scope identity_json =
     bindR (route_scope J R scope) (\<lambda>provider.
     bindR (ensure_identity_route J R provider identity_json) (\<lambda>_. Ok provider))"

definition route_with_scope :: "router_env \<Rightarrow> RoutingProvider \<Rightarrow> string \<Rightarrow> string \<Rightarrow> nat presult" where
  "route_with_scope J R scope other =
     bindR (route_scope J R scope) (\<lambda>provider.
     bindR (ensure_same_route J R provider other) (\<lambda>_. Ok provider))"

definition route_unit_commit :: "router_env \<Rightarrow> RoutingProvider \<Rightarrow> WorkUnitCommit \<Rightarrow> nat presult" where
  "route_unit_commit J R c =
     bindR (route_with_scope J R (wu_scope_json (wc_work_unit c)) (scope_json (ec_key (wc_entity c)))) (\<lambda>provider.
     bindR (case wc_idempotency c of
              None \<Rightarrow> Ok ()
            | Some i \<Rightarrow> ensure_identity_route J R provider (ir_identity_json i)) (\<lambda>_.
       Ok provider))"

definition route_publish :: "router_env \<Rightarrow> RoutingProvider \<Rightarrow> WorkUnitPublish \<Rightarrow> nat presult" where
  "route_publish J R p =
     bindR (route_scope J R (wu_scope_json (wp_work_unit p))) (\<lambda>provider.
     bindR (foldR (\<lambda>r _. ensure_same_route J R provider (scope_json (ec_key (wr_entity r)))) (wp_resolutions p) ()) (\<lambda>_.
       Ok provider))"

definition router_read_entity ::
  "router_env \<Rightarrow> (nat \<Rightarrow> 'p Provider) \<Rightarrow> RoutingProvider \<Rightarrow> EntityKey \<Rightarrow> ReadConsistency \<Rightarrow> 'p heap
   \<Rightarrow> EntitySnapshot option ConsistentRead presult \<times> 'p heap" where
  "router_read_entity J ops R key rc h =
     forward (route_scope J R (scope_json key)) (\<lambda>a. p_read_entity (ops a) key rc) h"

definition router_commit_entity ::
  "router_env \<Rightarrow> (nat \<Rightarrow> 'p Provider) \<Rightarrow> RoutingProvider \<Rightarrow> EntityCommit \<Rightarrow> 'p heap
   \<Rightarrow> EntityCommitOutcome presult \<times> 'p heap" where
  "router_commit_entity J ops R c h =
     forward (route_scope J R (scope_json (ec_key c))) (\<lambda>a. p_commit_entity (ops a) c) h"

definition router_read_changes ::
  "router_env \<Rightarrow> (nat \<Rightarrow> 'p Provider) \<Rightarrow> RoutingProvider \<Rightarrow> ChangeQuery \<Rightarrow> 'p heap
   \<Rightarrow> ChangePage presult \<times> 'p heap" where
  "router_read_changes J ops R q h =
     forward (route_scope J R (cq_scope_json q))
       (\<lambda>a. p_read_changes (ops a) q) h"

definition router_wait_for_changes ::
  "router_env \<Rightarrow> (nat \<Rightarrow> 'p Provider) \<Rightarrow> RoutingProvider \<Rightarrow> string \<Rightarrow> nat \<Rightarrow> 'p heap
   \<Rightarrow> unit option presult \<times> 'p heap" where
  "router_wait_for_changes J ops R scope after h =
     forward (route_scope J R scope)
       (\<lambda>a. p_wait_for_changes (ops a) scope after) h"

definition router_retrieve_entities ::
  "router_env \<Rightarrow> (nat \<Rightarrow> 'p Provider) \<Rightarrow> RoutingProvider \<Rightarrow> RetrieveQuery \<Rightarrow> ReadConsistency \<Rightarrow> 'p heap
   \<Rightarrow> RetrievedPage ConsistentRead presult \<times> 'p heap" where
  "router_retrieve_entities J ops R q rc h =
     forward (route_scope J R (rq_scope_json q))
       (\<lambda>a. p_retrieve_entities (ops a) q rc) h"

definition router_read_idempotency ::
  "router_env \<Rightarrow> (nat \<Rightarrow> 'p Provider) \<Rightarrow> RoutingProvider \<Rightarrow> string \<Rightarrow> ReadConsistency \<Rightarrow> string \<Rightarrow> string \<Rightarrow> nat \<Rightarrow> 'p heap
   \<Rightarrow> IdempotencyReadOutcome presult \<times> 'p heap" where
  "router_read_idempotency J ops R scope rc identity request now h =
     forward (route_with_identity J R scope identity)
       (\<lambda>a. p_read_idempotency (ops a) scope rc identity request now) h"

definition router_read_idempotency_in_work_unit ::
  "router_env \<Rightarrow> (nat \<Rightarrow> 'p Provider) \<Rightarrow> RoutingProvider \<Rightarrow> WorkUnit \<Rightarrow> ReadConsistency \<Rightarrow> string \<Rightarrow> string \<Rightarrow> nat \<Rightarrow> bool \<Rightarrow> 'p heap
   \<Rightarrow> IdempotencyReadOutcome presult \<times> 'p heap" where
  "router_read_idempotency_in_work_unit J ops R wu rc identity request now allow h =
     forward (route_with_identity J R (wu_scope_json wu) identity)
       (\<lambda>a. p_read_idempotency_in_work_unit (ops a) wu rc identity request now allow) h"

definition router_commit_entity_idempotent ::
  "router_env \<Rightarrow> (nat \<Rightarrow> 'p Provider) \<Rightarrow> RoutingProvider \<Rightarrow> EntityCommit \<Rightarrow> IdempotencyRecord \<Rightarrow> nat \<Rightarrow> 'p heap
   \<Rightarrow> IdempotentCommitOutcome presult \<times> 'p heap" where
  "router_commit_entity_idempotent J ops R c i now h =
     forward (route_with_identity J R (scope_json (ec_key c)) (ir_identity_json i))
       (\<lambda>a. p_commit_entity_idempotent (ops a) c i now) h"

definition router_read_entity_in_work_unit ::
  "router_env \<Rightarrow> (nat \<Rightarrow> 'p Provider) \<Rightarrow> RoutingProvider \<Rightarrow> WorkUnit \<Rightarrow> EntityKey \<Rightarrow> ReadConsistency \<Rightarrow> 'p heap
   \<Rightarrow> WorkUnitReadOutcome presult \<times> 'p heap" where
  "router_read_entity_in_work_unit J ops R wu key rc h =
     forward (route_with_scope J R (wu_scope_json wu) (scope_json key))
       (\<lambda>a. p_read_entity_in_work_unit (ops a) wu key rc) h"

definition router_retrieve_entities_in_work_unit ::
  "router_env \<Rightarrow> (nat \<Rightarrow> 'p Provider) \<Rightarrow> RoutingProvider \<Rightarrow> WorkUnit \<Rightarrow> RetrieveQuery \<Rightarrow> ReadConsistency \<Rightarrow> 'p heap
   \<Rightarrow> WorkUnitRetrieveOutcome presult \<times> 'p heap" where
  "router_retrieve_entities_in_work_unit J ops R wu q rc h =
     forward (route_with_scope J R (wu_scope_json wu) (rq_scope_json q))
       (\<lambda>a. p_retrieve_entities_in_work_unit (ops a) wu q rc) h"

definition router_commit_entity_in_work_unit ::
  "router_env \<Rightarrow> (nat \<Rightarrow> 'p Provider) \<Rightarrow> RoutingProvider \<Rightarrow> WorkUnitCommit \<Rightarrow> 'p heap
   \<Rightarrow> WorkUnitCommitOutcome presult \<times> 'p heap" where
  "router_commit_entity_in_work_unit J ops R c h =
     forward (route_unit_commit J R c)
       (\<lambda>a. p_commit_entity_in_work_unit (ops a) c) h"

definition router_publish_work_unit ::
  "router_env \<Rightarrow> (nat \<Rightarrow> 'p Provider) \<Rightarrow> RoutingProvider \<Rightarrow> WorkUnitPublish \<Rightarrow> 'p heap
   \<Rightarrow> WorkUnitCommitOutcome presult \<times> 'p heap" where
  "router_publish_work_unit J ops R p h =
     forward (route_publish J R p)
       (\<lambda>a. p_publish_work_unit (ops a) p) h"

definition router_ops :: "router_env \<Rightarrow> (nat \<Rightarrow> 'p Provider) \<Rightarrow> RoutingProvider \<Rightarrow> 'p heap Provider" where
  "router_ops J ops R =
     \<lparr>p_capabilities = rt_capabilities R,
      p_initialize = router_initialize ops R,
      p_health_check = router_health_check ops R,
      p_read_entity = router_read_entity J ops R,
      p_read_changes = router_read_changes J ops R,
      p_wait_for_changes = router_wait_for_changes J ops R,
      p_retrieve_entities = router_retrieve_entities J ops R,
      p_commit_entity = router_commit_entity J ops R,
      p_read_idempotency = router_read_idempotency J ops R,
      p_read_idempotency_in_work_unit = router_read_idempotency_in_work_unit J ops R,
      p_commit_entity_idempotent = router_commit_entity_idempotent J ops R,
      p_read_entity_in_work_unit = router_read_entity_in_work_unit J ops R,
      p_retrieve_entities_in_work_unit = router_retrieve_entities_in_work_unit J ops R,
      p_commit_entity_in_work_unit = router_commit_entity_in_work_unit J ops R,
      p_publish_work_unit = router_publish_work_unit J ops R,
      p_checkpoint = router_checkpoint ops R,
      p_shutdown = router_shutdown ops R\<rparr>"

section \<open>Routing\<close>

lemma and_capabilities_sel:
  "authority (and_capabilities a b) = (authority a \<and> authority b)"
  "replica (and_capabilities a b) = (replica a \<and> replica b)"
  "change_stream (and_capabilities a b) = (change_stream a \<and> change_stream b)"
  "retrieval (and_capabilities a b) = (retrieval a \<and> retrieval b)"
  "idempotency (and_capabilities a b) = (idempotency a \<and> idempotency b)"
  "work_units (and_capabilities a b) = (work_units a \<and> work_units b)"
  "causal_reads (and_capabilities a b) = (causal_reads a \<and> causal_reads b)"
  "monotonic_reads (and_capabilities a b) = (monotonic_reads a \<and> monotonic_reads b)"
  "read_your_writes (and_capabilities a b) = (read_your_writes a \<and> read_your_writes b)"
  "linearizable_reads (and_capabilities a b) = (linearizable_reads a \<and> linearizable_reads b)"
  by (simp_all add: and_capabilities_def)

lemma fold_capabilities:
  assumes "\<And>a b. sel (and_capabilities a b) = (sel a \<and> sel b)"
  shows "sel (fold (\<lambda>next result. and_capabilities result next) cs c) = (\<forall>d \<in> set (c # cs). sel d)"
  by (induction cs arbitrary: c) (auto simp: assms)

lemma intersect_capabilities_sel:
  assumes "\<And>a b. sel (and_capabilities a b) = (sel a \<and> sel b)" and "intersect_capabilities cs = Some caps"
  shows "sel caps = (\<forall>c \<in> set cs. sel c)"
  using assms(2) fold_capabilities[of sel, OF assms(1)] by (cases cs) auto

definition capability_fields :: "(ProviderCapabilities \<Rightarrow> bool) list" where
  "capability_fields = [authority, replica, change_stream, retrieval, idempotency, work_units, causal_reads,
     monotonic_reads, read_your_writes, linearizable_reads]"

lemma capability_field_and:
  "sel \<in> set capability_fields \<Longrightarrow> sel (and_capabilities a b) = (sel a \<and> sel b)"
  unfolding capability_fields_def by (auto simp: and_capabilities_def)

lemma check_routes_Ok:
  "foldR (check_route ps) rs () = Inr () \<longleftrightarrow> (\<forall>r \<in> set rs. sr_scope r \<noteq> [] \<and> map_of ps (sr_provider r) \<noteq> None)"
  by (induction rs) (auto simp: check_route_def bindR_def split: sum.splits)

lemma routing_new_Ok:
  assumes "routing_new ops ps d rs = Inr R"
  shows "rt_providers R = ps" "rt_default R = d" "rt_routes R = rs" "map_of ps d \<noteq> None"
    "r \<in> set rs \<Longrightarrow> map_of ps (sr_provider r) \<noteq> None"
    "intersect_capabilities (map (\<lambda>(_, a). p_capabilities (ops a)) ps) = Some (rt_capabilities R)"
  using assms check_routes_Ok[of ps rs]
  by (auto simp: routing_new_def bindR_eq_Inr split: if_splits option.splits)

lemma route_name_registered:
  assumes "routing_new ops ps d rs = Inr R" shows "map_of ps (route_name R scope) \<noteq> None"
proof (cases "find (route_matches scope) rs")
  case None
  with routing_new_Ok[OF assms] show ?thesis by (simp add: route_name_def)
next
  case (Some r)
  then have "r \<in> set rs" by (auto simp: find_Some_iff)
  with Some routing_new_Ok[OF assms] show ?thesis by (simp add: route_name_def)
qed

text \<open>
  C22. A router that was constructed serves every scope: for every scope text that parses, routing
  succeeds with the provider registered under the name the first matching route gives, or under
  the default name when no route matches; and the router promises exactly the capabilities that
  all its providers have.
\<close>
theorem routing_is_total:
  assumes "routing_new ops ps d rs = Inr R" and "parse_scope J json = Some scope"
  shows "(\<exists>a. route_scope J R json = Inr a
      \<and> ((\<exists>i < length rs. route_matches scope (rs ! i) \<and> (\<forall>j < i. \<not> route_matches scope (rs ! j))
             \<and> map_of ps (sr_provider (rs ! i)) = Some a)
         \<or> ((\<forall>r \<in> set rs. \<not> route_matches scope r) \<and> map_of ps d = Some a)))
    \<and> (\<forall>sel \<in> set capability_fields.
      sel (rt_capabilities R) = (\<forall>(n, a) \<in> set ps. sel (p_capabilities (ops a))))" (is "?route \<and> ?caps")
proof -
  note new = routing_new_Ok[OF assms(1)]
  obtain a where a: "map_of ps (route_name R scope) = Some a"
    using route_name_registered[OF assms(1)] by blast
  then have "route_scope J R json = Inr a" by (simp add: route_scope_def assms(2) new(1))
  moreover have "(\<exists>i < length rs. route_matches scope (rs ! i) \<and> (\<forall>j < i. \<not> route_matches scope (rs ! j))
             \<and> map_of ps (sr_provider (rs ! i)) = Some a)
         \<or> ((\<forall>r \<in> set rs. \<not> route_matches scope r) \<and> map_of ps d = Some a)"
    using a by (cases "find (route_matches scope) rs")
      (auto simp: route_name_def new find_None_iff find_Some_iff)
  ultimately have "?route" by blast
  moreover have "?caps"
  proof
    fix sel assume "sel \<in> set capability_fields"
    from intersect_capabilities_sel[OF capability_field_and[OF this] new(6)]
    show "sel (rt_capabilities R) = (\<forall>(n, a) \<in> set ps. sel (p_capabilities (ops a)))" by auto
  qed
  ultimately show ?thesis by blast
qed

section \<open>One provider per operation\<close>

lemma ensure_same_route_Ok [simp]: "ensure_same_route J R a s = Inr u \<longleftrightarrow> route_scope J R s = Inr a"
  by (auto simp: ensure_same_route_def bindR_eq_Inr split: if_splits)

lemma ensure_identity_route_Ok [simp]: "ensure_identity_route J R a i = Inr u \<longleftrightarrow> route_identity J R i = Inr a"
  by (auto simp: ensure_identity_route_def bindR_eq_Inr split: if_splits)

lemma route_with_identity_Ok:
  "route_with_identity J R s i = Inr a \<longleftrightarrow> route_scope J R s = Inr a \<and> route_identity J R i = Inr a"
  by (auto simp: route_with_identity_def bindR_eq_Inr)

lemma route_with_scope_Ok:
  "route_with_scope J R s t = Inr a \<longleftrightarrow> route_scope J R s = Inr a \<and> route_scope J R t = Inr a"
  by (auto simp: route_with_scope_def bindR_eq_Inr)

lemma route_unit_commit_Ok:
  "route_unit_commit J R c = Inr a \<longleftrightarrow>
     route_scope J R (wu_scope_json (wc_work_unit c)) = Inr a \<and> route_scope J R (scope_json (ec_key (wc_entity c))) = Inr a
     \<and> (\<forall>i. wc_idempotency c = Some i \<longrightarrow> route_identity J R (ir_identity_json i) = Inr a)"
  by (auto simp: route_unit_commit_def bindR_eq_Inr route_with_scope_Ok split: option.splits)

lemma route_publish_Ok:
  "route_publish J R p = Inr a \<longleftrightarrow>
     route_scope J R (wu_scope_json (wp_work_unit p)) = Inr a
     \<and> (\<forall>r \<in> set (wp_resolutions p). route_scope J R (scope_json (ec_key (wr_entity r))) = Inr a)"
proof -
  have "foldR (\<lambda>r _. ensure_same_route J R a (scope_json (ec_key (wr_entity r)))) rs () = Inr () \<longleftrightarrow>
    (\<forall>r \<in> set rs. route_scope J R (scope_json (ec_key (wr_entity r))) = Inr a)" for rs
    by (induction rs) (auto simp: bindR_eq_Inr)
  then show ?thesis by (auto simp: route_publish_def bindR_eq_Inr)
qed

lemma forwarded:
  assumes "forward route f h = (r, h')"
  shows "(\<exists>e. route = Inl e \<and> r = Inl e \<and> h' = h)
    \<or> (\<exists>a. route = Inr a \<and> f a (h a) = (r, h' a) \<and> (\<forall>b. b \<noteq> a \<longrightarrow> h' b = h b))"
  using assms by (auto simp: forward_def at_provider_def split: sum.splits prod.splits)

text \<open>The effect of a call that reached provider \<open>a\<close> and no other.\<close>

definition only_at :: "nat \<Rightarrow> ('p \<Rightarrow> 'a \<times> 'p) \<Rightarrow> 'p heap \<Rightarrow> 'a \<times> 'p heap \<Rightarrow> bool" where
  "only_at a f h s \<longleftrightarrow> f (h a) = (fst s, snd s a) \<and> (\<forall>b. b \<noteq> a \<longrightarrow> snd s b = h b)"

lemma forward_cases:
  "(\<exists>e. route = Inl e \<and> forward route f h = (Inl e, h)) \<or> (\<exists>a. route = Inr a \<and> only_at a (f a) h (forward route f h))"
  using forwarded[of route f h] by (cases "forward route f h") (auto simp: only_at_def)

text \<open>
  C23. An atomic operation never crosses providers. A publication, a commit into a work unit and an
  idempotent commit each either fail and change no provider, or every scope and every idempotency
  identity they mention is routed to one and the same provider, the answer is that provider's
  answer and every other provider is untouched.
\<close>
theorem atomic_operations_stay_on_one_provider:
  "((\<exists>e. router_publish_work_unit J ops R p h = (Inl e, h))
     \<or> (\<exists>a. (\<forall>s \<in> insert (wu_scope_json (wp_work_unit p))
                     ((\<lambda>r. scope_json (ec_key (wr_entity r))) ` set (wp_resolutions p)). route_scope J R s = Inr a)
          \<and> only_at a (p_publish_work_unit (ops a) p) h (router_publish_work_unit J ops R p h)))
   \<and> ((\<exists>e. router_commit_entity_in_work_unit J ops R wc h = (Inl e, h))
     \<or> (\<exists>a. route_scope J R (wu_scope_json (wc_work_unit wc)) = Inr a
          \<and> route_scope J R (scope_json (ec_key (wc_entity wc))) = Inr a
          \<and> (\<forall>i \<in> set_option (wc_idempotency wc). route_identity J R (ir_identity_json i) = Inr a)
          \<and> only_at a (p_commit_entity_in_work_unit (ops a) wc) h (router_commit_entity_in_work_unit J ops R wc h)))
   \<and> ((\<exists>e. router_commit_entity_idempotent J ops R c i now h = (Inl e, h))
     \<or> (\<exists>a. route_scope J R (scope_json (ec_key c)) = Inr a \<and> route_identity J R (ir_identity_json i) = Inr a
          \<and> only_at a (p_commit_entity_idempotent (ops a) c i now) h (router_commit_entity_idempotent J ops R c i now h)))"
  using forward_cases[of "route_publish J R p" "\<lambda>a. p_publish_work_unit (ops a) p" h]
    forward_cases[of "route_unit_commit J R wc" "\<lambda>a. p_commit_entity_in_work_unit (ops a) wc" h]
    forward_cases[of "route_with_identity J R (scope_json (ec_key c)) (ir_identity_json i)"
      "\<lambda>a. p_commit_entity_idempotent (ops a) c i now" h]
  by (auto simp: router_publish_work_unit_def router_commit_entity_in_work_unit_def
      router_commit_entity_idempotent_def route_publish_Ok route_unit_commit_Ok route_with_identity_Ok)

section \<open>Starting and stopping\<close>

lemma shutdown_initialized_heap:
  "distinct (map snd xs) \<Longrightarrow>
   shutdown_initialized ops xs h = (\<lambda>b. if b \<in> snd ` set xs then snd (p_shutdown (ops b) (h b)) else h b)"
proof (induction xs arbitrary: h)
  case (Cons x xs)
  obtain n a where x: "x = (n, a)" by (cases x)
  from Cons show ?case by (auto simp: x at_provider_def fun_eq_iff split: prod.splits)
qed simp

text \<open>The reason a shutdown reports: that of the first provider that fails to stop.\<close>

fun first_failure :: "(nat \<Rightarrow> 'p Provider) \<Rightarrow> 'p heap \<Rightarrow> (string \<times> nat) list \<Rightarrow> ProviderErrorReason option" where
  "first_failure ops h [] = None"
| "first_failure ops h ((_, a) # xs) =
     (case fst (p_shutdown (ops a) (h a)) of Inl e \<Rightarrow> Some (pe_reason e) | Inr _ \<Rightarrow> first_failure ops h xs)"

lemma first_failure_update [simp]: "a \<notin> snd ` set xs \<Longrightarrow> first_failure ops (h(a := p)) xs = first_failure ops h xs"
  by (induction xs) (auto split: sum.splits)

lemma first_failure_None: "first_failure ops h xs = None \<longleftrightarrow> (\<forall>(n, a) \<in> set xs. \<exists>u. fst (p_shutdown (ops a) (h a)) = Inr u)"
  by (induction xs) (auto split: sum.splits)

lemma first_failure_Some:
  "first_failure ops h xs = Some r \<Longrightarrow>
     \<exists>ys n a zs e. xs = ys @ (n, a) # zs \<and> fst (p_shutdown (ops a) (h a)) = Inl e \<and> r = pe_reason e
        \<and> (\<forall>(m, b) \<in> set ys. \<exists>u. fst (p_shutdown (ops b) (h b)) = Inr u)"
proof (induction xs)
  case (Cons x xs)
  obtain n a where x: "x = (n, a)" by (cases x)
  show ?case
  proof (cases "fst (p_shutdown (ops a) (h a))")
    case (Inl e)
    with Cons.prems show ?thesis
      by (intro exI[of _ "[]"] exI[of _ n] exI[of _ a] exI[of _ xs] exI[of _ e]) (simp add: x)
  next
    case (Inr u)
    with Cons.prems have "first_failure ops h xs = Some r" by (simp add: x)
    from Cons.IH[OF this] obtain ys m b zs e where "xs = ys @ (m, b) # zs" "fst (p_shutdown (ops b) (h b)) = Inl e"
      "r = pe_reason e" "\<forall>(m, b) \<in> set ys. \<exists>u. fst (p_shutdown (ops b) (h b)) = Inr u" by blast
    with Inr show ?thesis
      by (intro exI[of _ "x # ys"] exI[of _ m] exI[of _ b] exI[of _ zs] exI[of _ e]) (simp add: x)
  qed
qed simp

lemma shutdown_from_heap:
  assumes "distinct (map snd xs)"
  shows "shutdown_from ops xs reason h =
     (case reason of Some r \<Rightarrow> Some r | None \<Rightarrow> first_failure ops h xs,
      \<lambda>b. if b \<in> snd ` set xs then snd (p_shutdown (ops b) (h b)) else h b)"
  using assms
proof (induction xs arbitrary: h reason)
  case (Cons x xs)
  obtain n a where x: "x = (n, a)" by (cases x)
  obtain r p where s: "p_shutdown (ops a) (h a) = (r, p)" by (cases "p_shutdown (ops a) (h a)")
  have a: "a \<notin> snd ` set xs" "distinct (map snd xs)" using Cons.prems by (auto simp: x)
  have "(\<lambda>b. if b \<in> snd ` set xs then snd (p_shutdown (ops b) ((h(a := p)) b)) else (h(a := p)) b) =
    (\<lambda>b. if b \<in> snd ` set (x # xs) then snd (p_shutdown (ops b) (h b)) else h b)"
    using a(1) s by (auto simp: x)
  with Cons.IH[OF a(2)] a(1) have "shutdown_from ops xs q (h(a := p)) =
      (case q of Some r \<Rightarrow> Some r | None \<Rightarrow> first_failure ops h xs,
       \<lambda>b. if b \<in> snd ` set (x # xs) then snd (p_shutdown (ops b) (h b)) else h b)" for q
    by (simp del: fun_upd_apply split: option.splits)
  then show ?case by (simp add: x at_provider_def s split: sum.splits option.splits)
qed (simp split: option.splits)

text \<open>
  Shutting the router down stops every provider, also when some of them fail to stop: each
  provider ends in the state its own shutdown leaves, no other state changes, the call succeeds
  exactly when every provider stopped, and otherwise it reports the reason of the failing provider
  that comes last in the order of names.
\<close>
theorem shutdown_reaches_every_provider:
  assumes "distinct (map snd (rt_providers R))" and "router_shutdown ops R h = (r, h')"
  shows "h' = (\<lambda>b. if b \<in> snd ` set (rt_providers R) then snd (p_shutdown (ops b) (h b)) else h b)
    \<and> (r = Inr () \<longleftrightarrow> (\<forall>(n, a) \<in> set (rt_providers R). \<exists>u. fst (p_shutdown (ops a) (h a)) = Inr u))
    \<and> (\<forall>e. r = Inl e \<longrightarrow> (\<exists>xs n a ys e0. rt_providers R = xs @ (n, a) # ys
       \<and> fst (p_shutdown (ops a) (h a)) = Inl e0 \<and> e = \<lparr>pe_reason = pe_reason e0\<rparr>
       \<and> (\<forall>(m, b) \<in> set ys. \<exists>u. fst (p_shutdown (ops b) (h b)) = Inr u)))"
proof (intro conjI allI impI)
  have d: "distinct (map snd (rev (rt_providers R)))" using assms(1) by (simp add: rev_map[symmetric])
  note S = assms(2)[unfolded router_shutdown_def shutdown_from_heap[OF d]]
  show "h' = (\<lambda>b. if b \<in> snd ` set (rt_providers R) then snd (p_shutdown (ops b) (h b)) else h b)"
    using S by (auto split: option.splits)
  show "r = Inr () \<longleftrightarrow> (\<forall>(n, a) \<in> set (rt_providers R). \<exists>u. fst (p_shutdown (ops a) (h a)) = Inr u)"
    using S first_failure_None[of ops h "rev (rt_providers R)"] by (auto split: option.splits)
  show "\<exists>xs n a ys e0. rt_providers R = xs @ (n, a) # ys
       \<and> fst (p_shutdown (ops a) (h a)) = Inl e0 \<and> e = \<lparr>pe_reason = pe_reason e0\<rparr>
       \<and> (\<forall>(m, b) \<in> set ys. \<exists>u. fst (p_shutdown (ops b) (h b)) = Inr u)" if "r = Inl e" for e
  proof -
    from S that obtain q where q: "first_failure ops h (rev (rt_providers R)) = Some q" "e = with_reason q"
      by (auto split: option.splits)
    then obtain ys n a zs e0 where "rev (rt_providers R) = ys @ (n, a) # zs" "fst (p_shutdown (ops a) (h a)) = Inl e0"
      "q = pe_reason e0" "\<forall>(m, b) \<in> set ys. \<exists>u. fst (p_shutdown (ops b) (h b)) = Inr u"
      using first_failure_Some by blast
    moreover from this have "rt_providers R = rev zs @ (n, a) # rev ys" by (simp add: rev_eq_append_conv)
    ultimately show ?thesis using q(2)
      by (intro exI[of _ "rev zs"] exI[of _ n] exI[of _ a] exI[of _ "rev ys"] exI[of _ e0]) (simp add: with_reason_def)
  qed
qed

text \<open>The outcomes of a start: every provider of \<open>xs\<close> runs, or the start failed at one of them,
  the earlier ones (and the \<open>initialized\<close> ones before them) are stopped and the later ones are as
  they were.\<close>

definition all_started ::
  "(nat \<Rightarrow> 'p Provider) \<Rightarrow> (string \<times> nat) list \<Rightarrow> bool \<Rightarrow> 'p heap \<Rightarrow> ProviderRecovery \<Rightarrow> 'p heap \<Rightarrow> bool" where
  "all_started ops xs recovered h out h' \<longleftrightarrow>
     (\<forall>(n, a) \<in> set xs. \<exists>cur. p_initialize (ops a) (h a) = (Inr cur, h' a) \<and> generation cur \<le> generation out)
     \<and> (recovered_after_unclean_shutdown out \<longleftrightarrow> recovered
          \<or> (\<exists>(n, a) \<in> set xs. \<exists>cur. fst (p_initialize (ops a) (h a)) = Inr cur \<and> recovered_after_unclean_shutdown cur))
     \<and> (\<forall>b. b \<notin> snd ` set xs \<longrightarrow> h' b = h b)"

definition rolled_back ::
  "(nat \<Rightarrow> 'p Provider) \<Rightarrow> (string \<times> nat) list \<Rightarrow> (string \<times> nat) list \<Rightarrow> 'p heap \<Rightarrow> ProviderError \<Rightarrow> 'p heap \<Rightarrow> bool" where
  "rolled_back ops initialized xs h error h' \<longleftrightarrow>
     (\<exists>before n a after e. xs = before @ (n, a) # after
       \<and> p_initialize (ops a) (h a) = (Inl e, h' a) \<and> pe_reason error = pe_reason e
       \<and> (\<forall>(m, b) \<in> set before. \<exists>cur p. p_initialize (ops b) (h b) = (Inr cur, p) \<and> h' b = snd (p_shutdown (ops b) p))
       \<and> (\<forall>b \<in> snd ` set initialized. h' b = snd (p_shutdown (ops b) (h b)))
       \<and> (\<forall>b. b \<noteq> a \<and> b \<notin> snd ` set before \<and> b \<notin> snd ` set initialized \<longrightarrow> h' b = h b))"

lemma all_started_Cons:
  assumes "all_started ops xs (rec \<or> recovered_after_unclean_shutdown cur) (h(a := p)) out h'" "a \<notin> snd ` set xs"
    and "p_initialize (ops a) (h a) = (Inr cur, p)" "generation cur \<le> generation out"
  shows "all_started ops ((n, a) # xs) rec h out h'"
proof -
  have same: "(h(a := p)) b = h b" if "(m, b) \<in> set xs" for m b using assms(2) that by force
  have "\<forall>(n, b) \<in> set xs. \<exists>cur. p_initialize (ops b) (h b) = (Inr cur, h' b) \<and> generation cur \<le> generation out"
    using assms(1) same unfolding all_started_def by fastforce
  moreover have "(\<exists>(n, b) \<in> set xs. \<exists>cur. fst (p_initialize (ops b) ((h(a := p)) b)) = Inr cur \<and> recovered_after_unclean_shutdown cur) =
      (\<exists>(n, b) \<in> set xs. \<exists>cur. fst (p_initialize (ops b) (h b)) = Inr cur \<and> recovered_after_unclean_shutdown cur)"
    using assms(2) by (intro bex_cong) force+
  moreover have "h' a = p" using assms(1,2) by (simp add: all_started_def)
  ultimately show ?thesis using assms by (auto simp: all_started_def)
qed

lemma rolled_back_Cons:
  assumes "rolled_back ops (initialized @ [(n, a)]) xs (h(a := p)) error h'"
    and "a \<notin> snd ` set xs" "a \<notin> snd ` set initialized" and "p_initialize (ops a) (h a) = (Inr cur, p)"
  shows "rolled_back ops initialized ((n, a) # xs) h error h'"
proof -
  from assms(1) obtain before m b after e where f: "xs = before @ (m, b) # after"
     "p_initialize (ops b) ((h(a := p)) b) = (Inl e, h' b)" "pe_reason error = pe_reason e"
     "\<forall>(m, b) \<in> set before. \<exists>cur q. p_initialize (ops b) ((h(a := p)) b) = (Inr cur, q) \<and> h' b = snd (p_shutdown (ops b) q)"
     "\<forall>b \<in> snd ` set (initialized @ [(n, a)]). h' b = snd (p_shutdown (ops b) ((h(a := p)) b))"
     "\<forall>c. c \<noteq> b \<and> c \<notin> snd ` set before \<and> c \<notin> snd ` set (initialized @ [(n, a)]) \<longrightarrow> h' c = (h(a := p)) c"
    unfolding rolled_back_def by (elim exE conjE)
  have same: "(h(a := p)) c = h c" if "(k, c) \<in> set xs" for k c using assms(2) that by force
  have "\<forall>(m, b) \<in> set before. \<exists>cur q. p_initialize (ops b) (h b) = (Inr cur, q) \<and> h' b = snd (p_shutdown (ops b) q)"
    using f(1,4) same by fastforce
  moreover have "h' a = snd (p_shutdown (ops a) p)" using f(5) by simp
  ultimately have "\<forall>(m, b) \<in> set ((n, a) # before). \<exists>cur q. p_initialize (ops b) (h b) = (Inr cur, q) \<and> h' b = snd (p_shutdown (ops b) q)"
    using assms(4) by simp
  moreover have "\<forall>c. c \<noteq> b \<and> c \<notin> snd ` set ((n, a) # before) \<and> c \<notin> snd ` set initialized \<longrightarrow> h' c = h c"
    using f(6) by auto
  moreover have "p_initialize (ops b) (h b) = (Inl e, h' b)" using f(1,2) same[of m b] by (simp del: fun_upd_apply)
  moreover have "\<forall>b \<in> snd ` set initialized. h' b = snd (p_shutdown (ops b) (h b))" using f(5) assms(3) by auto
  ultimately show ?thesis unfolding rolled_back_def using f(1,3)
    by (intro exI[of _ "(n, a) # before"] exI[of _ m] exI[of _ b] exI[of _ after] exI[of _ e]) simp
qed

lemma initialize_from_generation:
  "initialize_from ops xs initialized rec h = (Inr out, h') \<Longrightarrow> generation rec \<le> generation out"
proof (induction xs arbitrary: initialized rec h)
  case (Cons x xs)
  then show ?case by (cases x) (fastforce split: prod.splits sum.splits)
qed simp

lemma initialize_from_effect:
  assumes "distinct (map snd (initialized @ xs))" and "initialize_from ops xs initialized rec h = (r, h')"
  shows "case r of
      Inr out \<Rightarrow> all_started ops xs (recovered_after_unclean_shutdown rec) h out h'
    | Inl error \<Rightarrow> rolled_back ops initialized xs h error h'"
  using assms
proof (induction xs arbitrary: initialized rec h)
  case (Cons x xs)
  obtain n a where x: "x = (n, a)" by (cases x)
  obtain q p where s: "p_initialize (ops a) (h a) = (q, p)" by (cases "p_initialize (ops a) (h a)")
  have a: "a \<notin> snd ` set initialized" "a \<notin> snd ` set xs" using Cons.prems(1) by (auto simp: x)
  show ?case
  proof (cases q)
    case (Inl e)
    have "distinct (map snd (rev initialized))" using Cons.prems(1) by (simp add: rev_map[symmetric])
    with Cons.prems(2) have "h' = (\<lambda>b. if b \<in> snd ` set initialized then snd (p_shutdown (ops b) ((h(a := p)) b)) else (h(a := p)) b)"
      "r = Inl \<lparr>pe_reason = pe_reason e\<rparr>"
      by (auto simp: x at_provider_def s Inl shutdown_initialized_heap with_reason_def)
    with a s Inl show ?thesis unfolding x rolled_back_def
      by (simp, intro exI[of _ "[]"] exI[of _ n] exI[of _ a] exI[of _ xs] exI[of _ e]) auto
  next
    case (Inr cur)
    let ?rec = "\<lparr>generation = max (generation rec) (generation cur),
             recovered_after_unclean_shutdown =
               (recovered_after_unclean_shutdown rec \<or> recovered_after_unclean_shutdown cur)\<rparr>"
    have run: "initialize_from ops xs (initialized @ [(n, a)]) ?rec (h(a := p)) = (r, h')"
      using Cons.prems(2) by (simp add: x at_provider_def s Inr)
    moreover have "distinct (map snd ((initialized @ [(n, a)]) @ xs))" using Cons.prems(1) by (simp add: x)
    ultimately have IH: "case r of
      Inr out \<Rightarrow> all_started ops xs (recovered_after_unclean_shutdown ?rec) (h(a := p)) out h'
    | Inl error \<Rightarrow> rolled_back ops (initialized @ [(n, a)]) xs (h(a := p)) error h'" by (rule Cons.IH[rotated])
    show ?thesis
    proof (cases r)
      case (Inl error)
      with IH rolled_back_Cons[OF _ a(2,1)] s Inr show ?thesis by (simp add: x)
    next
      case (Inr out)
      with run initialize_from_generation have "generation cur \<le> generation out" by fastforce
      with IH Inr all_started_Cons[OF _ a(2)] s \<open>q = Inr cur\<close> show ?thesis by (simp add: x)
    qed
  qed
qed (auto simp: all_started_def)

text \<open>
  C25. Starting the router starts all its providers or none. On success every provider is
  initialised, the reported generation bounds every provider's generation and recovery after an
  unclean shutdown is reported exactly when some provider reports it. On failure there is one
  provider whose initialisation failed, whose reason is reported; every provider before it was
  initialised and has been shut down again, and no provider after it was touched.
\<close>
theorem initialize_all_or_nothing:
  assumes "distinct (map snd (rt_providers R))" and "router_initialize ops R h = (r, h')"
  shows "case r of
      Inr out \<Rightarrow> all_started ops (rt_providers R) False h out h'
    | Inl error \<Rightarrow> rolled_back ops [] (rt_providers R) h error h'"
  using initialize_from_effect[of "[]" "rt_providers R", OF _ assms(2)[unfolded router_initialize_def]] assms(1)
  by (simp split: sum.splits)

section \<open>The router is an entity store\<close>

definition routed_heads :: "(EntityKey \<Rightarrow> 'p \<Rightarrow> string list) \<Rightarrow> router_env \<Rightarrow> RoutingProvider \<Rightarrow> EntityKey \<Rightarrow> 'p heap \<Rightarrow> string list" where
  "routed_heads heads J R k h = (case route_scope J R (scope_json k) of Inl _ \<Rightarrow> [] | Inr a \<Rightarrow> heads k (h a))"

definition routed_contents ::
  "(EntityKey \<Rightarrow> 'p \<Rightarrow> (string \<times> StoredVersionState \<times> string option) set) \<Rightarrow> router_env \<Rightarrow> RoutingProvider
   \<Rightarrow> EntityKey \<Rightarrow> 'p heap \<Rightarrow> (string \<times> StoredVersionState \<times> string option) set" where
  "routed_contents contents J R k h = (case route_scope J R (scope_json k) of Inl _ \<Rightarrow> {} | Inr a \<Rightarrow> contents k (h a))"

text \<open>The contract lifts from the providers to the router over them.\<close>

lemma routed_keeps:
  assumes "\<And>a. heads k (h' a) = heads k (h a) \<and> contents k (h' a) = contents k (h a)"
  shows "routed_heads heads J R k h' = routed_heads heads J R k h \<and> routed_contents contents J R k h' = routed_contents contents J R k h"
  using assms by (simp add: routed_heads_def routed_contents_def split: sum.splits)

lemma routed_store:
  assumes S: "\<And>a. entity_store (p_read_entity (ops a)) (p_commit_entity (ops a)) heads contents invar"
  shows "entity_store (router_read_entity J ops R) (router_commit_entity J ops R)
    (routed_heads heads J R) (routed_contents contents J R) (\<lambda>h. \<forall>a. invar (h a))"
proof
  fix h key rc r h' k
  assume inv: "\<forall>a. invar (h a)" and rd: "router_read_entity J ops R key rc h = (r, h')"
  note F = forwarded[OF rd[unfolded router_read_entity_def]]
  show "\<forall>a. invar (h' a)" using F inv entity_store.read_invar[OF S] by metis
  show "routed_heads heads J R k h' = routed_heads heads J R k h \<and> routed_contents contents J R k h' = routed_contents contents J R k h"
    by (rule routed_keeps) (use F inv entity_store.read_keeps[OF S] in metis)
next
  fix h key rc sn ob h'
  assume inv: "\<forall>a. invar (h a)" and rd: "router_read_entity J ops R key rc h = (Inr (Read sn ob), h')"
  from forwarded[OF rd[unfolded router_read_entity_def]] obtain a where a: "route_scope J R (scope_json key) = Inr a"
    "p_read_entity (ops a) key rc (h a) = (Inr (Read sn ob), h' a)" by blast
  with entity_store.read_answer[OF S] inv
  show "case sn of None \<Rightarrow> routed_heads heads J R key h = []
     | Some sn \<Rightarrow> routed_heads heads J R key h \<noteq> [] \<and> sn_head_versions sn = routed_heads heads J R key h
         \<and> version_content ` set (sn_versions sn) = routed_contents contents J R key h"
    unfolding routed_heads_def routed_contents_def a(1) sum.case by blast
next
  fix h v key
  assume "\<forall>a. invar (h a)" "v \<in> set (routed_heads heads J R key h)"
  then show "\<exists>st x. (v, st, x) \<in> routed_contents contents J R key h"
    using entity_store.head_stored[OF S] by (auto simp: routed_heads_def routed_contents_def split: sum.splits)
next
  fix h v a key b
  assume "\<forall>a. invar (h a)" "(v, a) \<in> routed_contents contents J R key h" "(v, b) \<in> routed_contents contents J R key h"
  then show "a = b"
    using entity_store.contents_unique[OF S, of _ v a key b]
    by (cases "route_scope J R (scope_json key)") (auto simp: routed_contents_def)
next
  fix h c out h'
  assume inv: "\<forall>a. invar (h a)" and wf: "commit_wf c" and com: "router_commit_entity J ops R c h = (out, h')"
  note F = forwarded[OF com[unfolded router_commit_entity_def]]
  show "\<forall>a. invar (h' a)" using F inv wf entity_store.commit_invar[OF S] by metis
  assume no: "out \<noteq> Inr Committed"
  show "routed_heads heads J R k h' = routed_heads heads J R k h \<and> routed_contents contents J R k h' = routed_contents contents J R k h" for k
    by (rule routed_keeps) (use F inv wf no entity_store.commit_refused[OF S] in metis)
next
  fix h c h'
  assume inv: "\<forall>a. invar (h a)" and wf: "commit_wf c" and com: "router_commit_entity J ops R c h = (Inr Committed, h')"
  from forwarded[OF com[unfolded router_commit_entity_def]] obtain a where a: "route_scope J R (scope_json (ec_key c)) = Inr a"
    "p_commit_entity (ops a) c (h a) = (Inr Committed, h' a)" "\<forall>b. b \<noteq> a \<longrightarrow> h' b = h b" by blast
  note C = entity_store.commit_committed[OF S _ wf a(2)]
  have "routed_heads heads J R k h' = routed_heads heads J R k h \<and> routed_contents contents J R k h' = routed_contents contents J R k h"
    if "k \<noteq> ec_key c" for k
    by (rule routed_keeps) (use C a(3) inv that in metis)
  with C inv show "routed_heads heads J R (ec_key c) h = sort (ec_expected_heads c)
      \<and> routed_heads heads J R (ec_key c) h' = sort (ec_head_versions c)
      \<and> routed_contents contents J R (ec_key c) h' = routed_contents contents J R (ec_key c) h \<union> version_content ` set (ec_new_versions c)
      \<and> (\<forall>k. k \<noteq> ec_key c \<longrightarrow> routed_heads heads J R k h' = routed_heads heads J R k h
           \<and> routed_contents contents J R k h' = routed_contents contents J R k h)"
    by (simp add: routed_heads_def routed_contents_def a(1))
next
  fix h c hs h'
  assume inv: "\<forall>a. invar (h a)" and wf: "commit_wf c" and com: "router_commit_entity J ops R c h = (Inr (Conflict hs), h')"
  from forwarded[OF com[unfolded router_commit_entity_def]] obtain a where a: "route_scope J R (scope_json (ec_key c)) = Inr a"
    "p_commit_entity (ops a) c (h a) = (Inr (Conflict hs), h' a)" by blast
  then have "routed_heads heads J R (ec_key c) h = heads (ec_key c) (h a)" by (simp add: routed_heads_def)
  with entity_store.commit_conflict[OF S _ wf a(2)] inv
  show "hs = routed_heads heads J R (ec_key c) h \<and> hs \<noteq> sort (ec_expected_heads c)" by metis
qed

text \<open>The router over SQLite providers; \<open>clk a\<close> are the clock readings of provider \<open>a\<close> in the call.\<close>

definition sqlite_at :: "sqlite_env \<Rightarrow> retrieval_env \<Rightarrow> (nat \<Rightarrow> nat \<Rightarrow> clock) \<Rightarrow> nat \<times> nat \<times> nat \<Rightarrow> nat \<Rightarrow> sqlite_provider Provider" where
  "sqlite_at E V clk wal a = sqlite_ops E V (clk a) wal"

interpretation routed: entity_store "router_read_entity J (sqlite_at E V clk wal) R" "router_commit_entity J (sqlite_at E V clk wal) R"
    "routed_heads sqlite_heads J R" "routed_contents sqlite_contents J R" "\<lambda>h. \<forall>a. sqlite_inv (h a)"
  for J E V clk wal R
  by (rule routed_store) (simp add: sqlite_at_def sqlite_ops_def, rule sqlite_store)

definition routed_abs :: "router_env \<Rightarrow> RoutingProvider \<Rightarrow> sqlite_provider heap \<Rightarrow> EntityKey \<Rightarrow> entity_state" where
  "routed_abs J R = store_abs (routed_heads sqlite_heads J R) (routed_contents sqlite_contents J R)"

text \<open>
  C26. A router over SQLite providers is one entity store. Seen through its abstraction, which reads
  every entity at the provider its scope is routed to, a commit that is answered does what the
  specification of the store does and answers the same, a commit that fails and every read leave
  the abstract store as it is, and a read that is answered returns the abstract heads and
  contents.
\<close>
theorem router_refines_store:
  assumes "\<forall>a. provider_inv (sp_db (h a))" and "commit_wf c"
  shows "(case router_commit_entity J (sqlite_at E V clk wal) R c h of
            (Inl e, h') \<Rightarrow> routed_abs J R h' = routed_abs J R h
          | (Inr out, h') \<Rightarrow> spec_commit c (routed_abs J R h) = (out, routed_abs J R h'))
    \<and> (case router_read_entity J (sqlite_at E V clk wal) R key rc h of
            (Inr (Read sn ob), h') \<Rightarrow> routed_abs J R h' = routed_abs J R h \<and> spec_read key (routed_abs J R h) sn
          | (_, h') \<Rightarrow> routed_abs J R h' = routed_abs J R h)"
  using routed.commit_refines[where s = h and c = c and J = J and E = E and V = V and clk = clk and wal = wal and R = R]
    routed.read_refines[where s = h and J = J and E = E and V = V and clk = clk and wal = wal and R = R and key = key and rc = rc] assms
  unfolding routed_abs_def by (simp add: sqlite_inv_def)

section \<open>Example\<close>

definition sample_router_env :: router_env where
  "sample_router_env =
     \<lparr>parse_scope = (\<lambda>s. if s = ''{s}'' then Some [(''t'', String ''x'')] else if s = ''{d}'' then Some [] else None),
      parse_identity = (\<lambda>s. if s = ''{i}'' then Some \<lparr>si_scope = [(''t'', String ''x'')], si_fields = []\<rparr> else None),
      print_scope = (\<lambda>m. Some (if m = [] then ''{d}'' else ''{s}''))\<rparr>"

definition sample_providers :: "(string \<times> nat) list" where
  "sample_providers = [(''a'', 0), (''b'', 1)]"

definition sample_routes :: "ScopeRoute list" where
  "sample_routes = [\<lparr>sr_scope = [(''t'', String ''x'')], sr_provider = ''b''\<rparr>]"

definition sample_router :: RoutingProvider where
  "sample_router = \<lparr>rt_providers = sample_providers, rt_default = ''a'', rt_routes = sample_routes,
     rt_capabilities = sqlite_capabilities\<rparr>"

definition sample_ops :: "nat \<Rightarrow> sqlite_provider Provider" where
  "sample_ops = sqlite_at sample_env sample_retrieval (\<lambda>_ _. Some 5) (0, 0, 0)"

lemma sample_router_new: "routing_new sample_ops sample_providers ''a'' sample_routes = Inr sample_router"
  by (simp add: routing_new_def sample_providers_def sample_routes_def sample_router_def sample_ops_def sqlite_at_def
      sqlite_ops_def check_route_def sqlite_capabilities_def and_capabilities_def)

theorem routing_is_total_witness: "\<exists>a. route_scope sample_router_env sample_router ''{s}'' = Inr a"
proof -
  have "parse_scope sample_router_env ''{s}'' = Some [(''t'', String ''x'')]" by (simp add: sample_router_env_def)
  from routing_is_total[OF sample_router_new this] show ?thesis by blast
qed

definition sample_crossing :: WorkUnitPublish where
  "sample_crossing =
     \<lparr>wp_work_unit = \<lparr>wu_identity_json = ''u'', wu_scope_json = ''{d}'', wu_policy_json = ''p'', wu_expiry_action = Discard,
        wu_now_unix_ms = 1, wu_expires_at_unix_ms = 9, wu_deadline_unix_ms = None\<rparr>,
      wp_resolutions = [\<lparr>wr_expected_published_heads = [], wr_entity = sample_commit ''a'' [] ''v1''\<rparr>],
      wp_recorded_at_unix_ms = 3\<rparr>"

theorem atomic_operations_stay_on_one_provider_witness:
  "\<exists>e. router_publish_work_unit sample_router_env sample_ops sample_router sample_crossing (\<lambda>_. fresh_provider) = (Inl e, \<lambda>_. fresh_provider)"
proof -
  have r: "route_scope sample_router_env sample_router ''{d}'' = Inr 0" "route_scope sample_router_env sample_router ''{s}'' = Inr 1"
    by (simp_all add: route_scope_def sample_router_env_def sample_router_def route_name_def route_matches_def
        sample_routes_def sample_providers_def)
  have "\<not> (\<exists>a. (\<forall>s \<in> insert (wu_scope_json (wp_work_unit sample_crossing))
      ((\<lambda>r. scope_json (ec_key (wr_entity r))) ` set (wp_resolutions sample_crossing)).
        route_scope sample_router_env sample_router s = Inr a))"
    by (simp add: sample_crossing_def sample_commit_def sample_key_def r)
  with atomic_operations_stay_on_one_provider[THEN conjunct1,
      of sample_router_env sample_ops sample_router sample_crossing "\<lambda>_. fresh_provider"] show ?thesis by blast
qed

lemma sample_router_distinct: "distinct (map snd (rt_providers sample_router))"
  by (simp add: sample_router_def sample_providers_def)

theorem shutdown_reaches_every_provider_witness:
  "snd (router_shutdown sample_ops sample_router (\<lambda>_. fresh_provider)) 1 = snd (p_shutdown (sample_ops 1) fresh_provider)"
proof -
  have "router_shutdown sample_ops sample_router (\<lambda>_. fresh_provider) =
    (fst (router_shutdown sample_ops sample_router (\<lambda>_. fresh_provider)), snd (router_shutdown sample_ops sample_router (\<lambda>_. fresh_provider)))"
    by simp
  from shutdown_reaches_every_provider[OF sample_router_distinct this, THEN conjunct1] show ?thesis
    by (simp add: sample_router_def sample_providers_def)
qed

theorem initialize_all_or_nothing_witness:
  "\<exists>out. fst (router_initialize sample_ops sample_router (\<lambda>_. fresh_provider)) = Inr out
     \<and> all_started sample_ops (rt_providers sample_router) False (\<lambda>_. fresh_provider) out
         (snd (router_initialize sample_ops sample_router (\<lambda>_. fresh_provider)))"
proof -
  let ?r = "router_initialize sample_ops sample_router (\<lambda>_. fresh_provider)"
  have run: "?r = (fst ?r, snd ?r)" by simp
  have "\<not> isl (fst ?r)" by code_simp
  then obtain out where "fst ?r = Inr out" by (cases "fst ?r") simp_all
  with initialize_all_or_nothing[OF sample_router_distinct run] show ?thesis by simp
qed

theorem router_refines_store_witness:
  "spec_commit (sample_commit ''b'' [] ''v2'') (routed_abs sample_router_env sample_router (\<lambda>_. fresh_provider)) =
     (Committed, routed_abs sample_router_env sample_router
        (snd (router_commit_entity sample_router_env sample_ops sample_router (sample_commit ''b'' [] ''v2'') (\<lambda>_. fresh_provider))))"
proof -
  let ?c = "sample_commit ''b'' [] ''v2''" and ?h = "\<lambda>_ :: nat. fresh_provider"
  have "fst (router_commit_entity sample_router_env sample_ops sample_router ?c ?h) = Inr Committed"
    by code_simp
  then obtain h' where h': "router_commit_entity sample_router_env sample_ops sample_router ?c ?h = (Inr Committed, h')"
    by (metis prod.collapse)
  have "\<forall>a. provider_inv (sp_db (?h a))" using provider_inv_empty by (simp add: fresh_provider_def)
  from router_refines_store[OF this sample_commit_wf, where J = sample_router_env and E = sample_env and V = sample_retrieval
      and clk = "\<lambda>_ _. Some 5" and wal = "(0, 0, 0)" and R = sample_router, folded sample_ops_def, THEN conjunct1, of "''b''" "[]" "''v2''"]
  show ?thesis unfolding h' by simp
qed

end
