(* ===== verification/Crdt_Values.thy ===== *)
theory Crdt_Values
  imports Json_Values
begin

text \<open>
  The JSON values inside a mergeable document, the types \<open>CrdtJson\<close> and \<open>CrdtText\<close> of
  \<open>crates/backend/src/conflict.rs\<close>: the conversion from and to JSON, the in-place update that
  keeps the identity of the parts that stay, and the calls that write a value into a document and read it back.
\<close>

text \<open>A text remembers the object it was read from and the heads of the document at that time.\<close>

record CrdtText =
  tx_value :: string
  tx_object :: "string option"
  tx_from_heads :: "string list"

datatype CrdtJson =
    CNull
  | CBool bool
  | CNumber json_number
  | CText CrdtText
  | CArray "CrdtJson list"
  | CObject "(string \<times> CrdtJson) list"

definition text_new :: "string \<Rightarrow> CrdtText" where
  "text_new v = \<lparr>tx_value = v, tx_object = None, tx_from_heads = []\<rparr>"

definition text_update :: "CrdtText \<Rightarrow> string \<Rightarrow> CrdtText" where
  "text_update t v = t\<lparr>tx_value := v\<rparr>"

fun crdt_from_json :: "Value \<Rightarrow> CrdtJson" where
  "crdt_from_json Null = CNull"
| "crdt_from_json (Bool b) = CBool b"
| "crdt_from_json (Number n) = CNumber n"
| "crdt_from_json (String s) = CText (text_new s)"
| "crdt_from_json (Array vs) = CArray (map crdt_from_json vs)"
| "crdt_from_json (Object m) = CObject (btree_collect (map (\<lambda>(k, v). (k, crdt_from_json v)) m))"

fun crdt_into_json :: "CrdtJson \<Rightarrow> Value" where
  "crdt_into_json CNull = Null"
| "crdt_into_json (CBool b) = Bool b"
| "crdt_into_json (CNumber n) = Number n"
| "crdt_into_json (CText t) = String (tx_value t)"
| "crdt_into_json (CArray cs) = Array (map crdt_into_json cs)"
| "crdt_into_json (CObject m) = Object (btree_collect (map (\<lambda>(k, c). (k, crdt_into_json c)) m))"

text \<open>An array keeps a prefix of its elements and updates them; an object first drops the keys that
  disappear, then updates the keys that stay and inserts the new ones.\<close>

function (sequential) crdt_update :: "CrdtJson \<Rightarrow> Value \<Rightarrow> CrdtJson"
  and update_elements :: "CrdtJson list \<Rightarrow> Value list \<Rightarrow> CrdtJson list"
  and update_entries :: "(string \<times> CrdtJson) list \<Rightarrow> (string \<times> Value) list \<Rightarrow> (string \<times> CrdtJson) list" where
  "crdt_update (CText current) (String next) = CText (text_update current next)"
| "crdt_update (CArray current) (Array next) = CArray (update_elements current next)"
| "crdt_update (CObject current) (Object next) =
     CObject (update_entries (filter (\<lambda>(k, _). map_of next k \<noteq> None) current) next)"
| "crdt_update current next = crdt_from_json next"
| "update_elements current [] = []"
| "update_elements [] next = map crdt_from_json next"
| "update_elements (c # current) (v # next) = crdt_update c v # update_elements current next"
| "update_entries current [] = current"
| "update_entries current ((k, v) # next) =
     (case map_of current k of
        Some c \<Rightarrow> update_entries (btree_insert k (crdt_update c v) current) next
      | None \<Rightarrow> update_entries (btree_insert k (crdt_from_json v) current) next)"
  by pat_completeness auto
termination
  by (relation "measure (\<lambda>x. case x of Inl (_, v) \<Rightarrow> size v | Inr (Inl (_, vs)) \<Rightarrow> size_list size vs
      | Inr (Inr (_, m)) \<Rightarrow> size_list (size_prod (\<lambda>_. 0) size) m)")
     auto

section \<open>Writing to and reading from documents\<close>

text \<open>
  The callbacks through which \<open>autosurgeon\<close> writes a value into a document (\<open>Reconcile\<close>) and builds
  one from it (\<open>Hydrate\<close>). A value calls one method of the reconciler; lists and maps go to the
  instances of the library. A double that is not finite is \<open>None\<close>.
\<close>

datatype reconciler_call =
    RcNone
  | RcBoolean bool
  | RcI64 int
  | RcU64 nat
  | RcF64 rat
  | RcText CrdtText
  | RcSeq "CrdtJson list"
  | RcMap "(string \<times> CrdtJson) list"

definition reconcile_number :: "json_number \<Rightarrow> reconciler_call option" where
  "reconcile_number n =
     (case number_as_i64 n of
        Some i \<Rightarrow> Some (RcI64 i)
      | None \<Rightarrow>
          (case number_as_u64 n of
             Some u \<Rightarrow> Some (RcU64 u)
           | None \<Rightarrow> (case n of Float f \<Rightarrow> Some (RcF64 f) | _ \<Rightarrow> None)))"

fun reconcile_json :: "CrdtJson \<Rightarrow> reconciler_call option" where
  "reconcile_json CNull = Some RcNone"
| "reconcile_json (CBool b) = Some (RcBoolean b)"
| "reconcile_json (CNumber n) = reconcile_number n"
| "reconcile_json (CText t) = Some (RcText t)"
| "reconcile_json (CArray vs) = Some (RcSeq vs)"
| "reconcile_json (CObject m) = Some (RcMap m)"

definition hydrate_int :: "int \<Rightarrow> CrdtJson" where
  "hydrate_int i = CNumber (if 0 \<le> i then PosInt (nat i) else NegInt i)"

definition hydrate_uint :: "nat \<Rightarrow> CrdtJson" where
  "hydrate_uint u = CNumber (PosInt u)"

definition hydrate_f64 :: "rat option \<Rightarrow> CrdtJson option" where
  "hydrate_f64 f = map_option (\<lambda>r. CNumber (Float r)) f"

definition hydrate_string :: "string \<Rightarrow> CrdtJson" where
  "hydrate_string s = CText (text_new s)"

text \<open>A text object in a document: its identity, its value and the heads of the document.\<close>

definition hydrate_text :: "string \<Rightarrow> string \<Rightarrow> string list \<Rightarrow> CrdtText" where
  "hydrate_text obj v heads = \<lparr>tx_value = v, tx_object = Some obj, tx_from_heads = heads\<rparr>"

text \<open>What the library finds at a property: nothing, or an object that is a text or not (a failed lookup is
  passed on).\<close>

definition hydrate_key :: "(bool \<times> string) option \<Rightarrow> string option" where
  "hydrate_key found = (case found of Some (True, obj) \<Rightarrow> Some obj | _ \<Rightarrow> None)"

definition text_key :: "CrdtText \<Rightarrow> string option" where
  "text_key t = tx_object t"

text \<open>A new text is inserted whole; a text that was read is turned into an edit of its object, unless the document
  has moved on since.\<close>

datatype text_edit = Splice nat nat string | UpdateText string

record StaleHeads =
  sh_expected :: "string list"
  sh_found :: "string list"

definition reconcile_text :: "string list \<Rightarrow> CrdtText \<Rightarrow> StaleHeads + text_edit" where
  "reconcile_text heads t =
     (if tx_object t = None then Inr (Splice 0 0 (tx_value t))
      else if heads \<noteq> tx_from_heads t then Inl \<lparr>sh_expected = tx_from_heads t, sh_found = heads\<rparr>
      else Inr (UpdateText (tx_value t)))"

text \<open>A number of \<open>serde_json\<close>: a negative integer is negative.\<close>

fun number_wf :: "json_number \<Rightarrow> bool" where
  "number_wf (PosInt n) = (n \<le> u64_max)"
| "number_wf (NegInt i) = (i < 0 \<and> - int i64_max - 1 \<le> i)"
| "number_wf (Float _) = True"

text \<open>Numbers keep their value and their kind, each through the scalar that holds it exactly, so the
  \<open>expect\<close> of \<open>reconcile\<close> is safe. A text that is read, edited and written to the unchanged document is an edit
  of the same object; when the document has changed it is refused, and a text that was never in a
  document is always inserted.\<close>

theorem document_scalars_survive:
  assumes "number_wf n"
  shows "(case reconcile_number n of
      Some (RcI64 i) \<Rightarrow> hydrate_int i = CNumber n \<and> - int i64_max - 1 \<le> i \<and> i \<le> int i64_max
    | Some (RcU64 u) \<Rightarrow> hydrate_uint u = CNumber n \<and> u \<le> u64_max
    | Some (RcF64 f) \<Rightarrow> hydrate_f64 (Some f) = Some (CNumber n)
    | _ \<Rightarrow> False)"
  using assms by (cases n) (auto simp: reconcile_number_def hydrate_int_def hydrate_uint_def hydrate_f64_def)

theorem text_edits_follow_the_document:
  "reconcile_text heads (text_update (hydrate_text obj v heads) v') = Inr (UpdateText v')"
  "heads' \<noteq> heads \<Longrightarrow>
     reconcile_text heads' (text_update (hydrate_text obj v heads) v') = Inl \<lparr>sh_expected = heads, sh_found = heads'\<rparr>"
  "text_key (text_update (hydrate_text obj v heads) v') = hydrate_key (Some (True, obj))"
  "reconcile_text heads (text_update (text_new v) v') = Inr (Splice 0 0 v')"
  by (simp_all add: reconcile_text_def text_update_def hydrate_text_def text_new_def text_key_def hydrate_key_def)

section \<open>Updating means replacing\<close>

lemma map_of_map_snd: "map_of (map (\<lambda>(k, v). (k, f v)) m) k = map_option f (map_of m k)"
  by (induction m) auto

lemma btree_wf_map: "btree_wf m \<Longrightarrow> btree_wf (map (\<lambda>(k, v). (k, f v)) m)"
  by (simp add: btree_wf_def case_prod_beta' comp_def)

lemma btree_wf_filter: "btree_wf m \<Longrightarrow> btree_wf (filter P m)"
  unfolding btree_wf_def by (induction m) auto

lemma map_of_filter_keys: "map_of (filter (\<lambda>(k, _). P k) m) k = (if P k then map_of m k else None)"
  by (induction m) auto

text \<open>The objects of a document value are ordered maps.\<close>

fun crdt_wf :: "CrdtJson \<Rightarrow> bool" where
  "crdt_wf (CArray cs) = list_all crdt_wf cs"
| "crdt_wf (CObject m) = (btree_wf m \<and> list_all (\<lambda>(k, c). crdt_wf c) m)"
| "crdt_wf c = True"

lemma crdt_from_json_wf: "value_wf v \<Longrightarrow> crdt_wf (crdt_from_json v)"
proof (induction v)
  case (Array vs)
  then show ?case by (auto simp: list_all_iff)
next
  case (Object m)
  then have "btree_collect (map (\<lambda>(k, v). (k, crdt_from_json v)) m) = map (\<lambda>(k, v). (k, crdt_from_json v)) m"
    by (simp add: btree_collect_id btree_wf_map)
  with Object show ?case by (fastforce simp: list_all_iff btree_wf_map)
qed simp_all

lemma crdt_json_roundtrip: "value_wf v \<Longrightarrow> crdt_into_json (crdt_from_json v) = v"
proof (induction v)
  case (Array vs)
  then show ?case by (simp add: list_all_iff map_idI)
next
  case (Object m)
  then have "btree_collect (map (\<lambda>(k, v). (k, crdt_from_json v)) m) = map (\<lambda>(k, v). (k, crdt_from_json v)) m"
    by (simp add: btree_collect_id btree_wf_map)
  moreover have "map (\<lambda>(k, c). (k, crdt_into_json c)) (map (\<lambda>(k, v). (k, crdt_from_json v)) m) = m"
    unfolding map_map by (rule map_idI) (use Object in \<open>fastforce simp: list_all_iff\<close>)
  ultimately show ?case using Object.prems by (simp add: btree_collect_id)
qed (simp_all add: text_new_def)

lemma list_all_btree_insert:
  "list_all P (btree_insert k v m) \<longleftrightarrow> P (k, v) \<and> (\<forall>x \<in> set m. fst x \<noteq> k \<longrightarrow> P x)" if "btree_wf m"
proof -
  have "set (btree_insert k v m) = insert (k, v) {x \<in> set m. fst x \<noteq> k}"
    using that
  proof (induction m)
    case (Cons e m)
    obtain k' v' where e: "e = (k', v')" by (cases e)
    from Cons.prems have m: "btree_wf m" "\<forall>x \<in> set m. k' < fst x" by (auto simp: btree_wf_def e)
    with Cons.IH[OF m(1)] show ?case by (auto simp: e dest: bspec[OF m(2)])
  qed simp
  then show ?thesis by (auto simp: list_all_iff)
qed

lemma crdt_update_json_aux:
  "crdt_wf c \<Longrightarrow> value_wf v \<Longrightarrow> crdt_into_json (crdt_update c v) = v \<and> crdt_wf (crdt_update c v)"
  "list_all crdt_wf cs \<Longrightarrow> list_all value_wf vs \<Longrightarrow>
     map crdt_into_json (update_elements cs vs) = vs \<and> list_all crdt_wf (update_elements cs vs)"
  "btree_wf cm \<Longrightarrow> list_all (\<lambda>(k, c). crdt_wf c) cm \<Longrightarrow> list_all (\<lambda>(k, v). value_wf v) m \<Longrightarrow> distinct (map fst m) \<Longrightarrow>
     btree_wf (update_entries cm m) \<and> list_all (\<lambda>(k, c). crdt_wf c) (update_entries cm m)
     \<and> (\<forall>k. map_option crdt_into_json (map_of (update_entries cm m) k) =
          (case map_of m k of Some v \<Rightarrow> Some v | None \<Rightarrow> map_option crdt_into_json (map_of cm k)))"
proof (induction c v and cs vs and cm m rule: crdt_update_update_elements_update_entries.induct)
  case (3 current m)
  let ?cur = "filter (\<lambda>(k, _). map_of m k \<noteq> None) current"
  have cur: "btree_wf ?cur" "list_all (\<lambda>(k, c). crdt_wf c) ?cur"
    using "3.prems"(1) by (auto simp: btree_wf_filter list_all_iff)
  have m: "btree_wf m" "list_all (\<lambda>(k, v). value_wf v) m" using "3.prems"(2) by auto
  note IH = "3.IH"[OF cur m(2) btree_wf_distinct[OF m(1)]]
  then have u: "btree_wf (update_entries ?cur m)" "list_all (\<lambda>(k, c). crdt_wf c) (update_entries ?cur m)"
    "\<forall>k. map_option crdt_into_json (map_of (update_entries ?cur m) k) =
          (case map_of m k of Some v \<Rightarrow> Some v | None \<Rightarrow> map_option crdt_into_json (map_of ?cur k))"
    by simp_all
  have "btree_collect (map (\<lambda>(k, c). (k, crdt_into_json c)) (update_entries ?cur m)) =
    map (\<lambda>(k, c). (k, crdt_into_json c)) (update_entries ?cur m)" using u(1) by (simp add: btree_collect_id btree_wf_map)
  also have "\<dots> = m"
  proof (rule btree_wf_unique)
    show "btree_wf (map (\<lambda>(k, c). (k, crdt_into_json c)) (update_entries ?cur m))" using u(1) by (rule btree_wf_map)
    show "map_of (map (\<lambda>(k, c). (k, crdt_into_json c)) (update_entries ?cur m)) = map_of m"
      using u(3) by (auto simp: fun_eq_iff map_of_map_snd map_of_filter_keys split: option.splits)
  qed (rule m(1))
  finally show ?case using u(1,2) by simp
next
  case (9 current k v m)
  have v: "value_wf v" "list_all (\<lambda>(k, v). value_wf v) m" "k \<notin> fst ` set m" "distinct (map fst m)"
    using "9.prems" by auto
  then have km: "map_of m k = None" by (simp add: map_of_eq_None_iff)
  show ?case
  proof (cases "map_of current k")
    case None
    have "btree_wf (btree_insert k (crdt_from_json v) current)"
      "list_all (\<lambda>(k, c). crdt_wf c) (btree_insert k (crdt_from_json v) current)"
      using "9.prems"(1,2) v(1) by (simp_all add: btree_insert_wf list_all_btree_insert crdt_from_json_wf) (auto simp: list_all_iff)
    from "9.IH"(1)[OF None this v(2,4)] show ?thesis
      using "9.prems"(1) v(1) km None
      by (auto simp: map_of_btree_insert crdt_json_roundtrip split: option.splits if_splits)
  next
    case (Some c)
    have "crdt_wf c" using "9.prems"(2) map_of_SomeD[OF Some] by (auto simp: list_all_iff)
    with "9.IH"(2)[OF Some] v(1) have c: "crdt_into_json (crdt_update c v) = v" "crdt_wf (crdt_update c v)" by auto
    have "btree_wf (btree_insert k (crdt_update c v) current)"
      "list_all (\<lambda>(k, c). crdt_wf c) (btree_insert k (crdt_update c v) current)"
      using "9.prems"(1,2) c(2) by (simp_all add: btree_insert_wf list_all_btree_insert) (auto simp: list_all_iff)
    from "9.IH"(3)[OF Some this v(2,4)] show ?thesis
      using "9.prems"(1) c(1) km Some
      by (auto simp: map_of_btree_insert split: option.splits if_splits)
  qed
qed (auto simp: text_update_def crdt_json_roundtrip crdt_from_json_wf list_all_iff map_idI simp del: crdt_from_json.simps
      split: option.splits)

lemma crdt_update_json:
  assumes "crdt_wf c" "value_wf v"
  shows "crdt_into_json (crdt_update c v) = v" "crdt_wf (crdt_update c v)"
  using crdt_update_json_aux(1)[OF assms] by auto

text \<open>
  C30. Values survive the conversion to document values and back, and updating a document value by a
  JSON value yields exactly that JSON value, whatever the document value was before: texts, arrays
  of other lengths, objects with other keys and values of another kind included.
\<close>
theorem crdt_update_is_replacement:
  assumes "crdt_wf c" and "value_wf v"
  shows "crdt_into_json (crdt_from_json v) = v \<and> crdt_into_json (crdt_update c v) = v \<and> crdt_wf (crdt_update c v)"
  using crdt_update_json[OF assms] crdt_json_roundtrip[OF assms(2)] by simp

theorem crdt_update_is_replacement_witness:
  "crdt_into_json (crdt_update (CObject [(''a'', CText (text_new ''x'')), (''b'', CNull)])
     (Object [(''a'', String ''y''), (''c'', Array [Bool True])])) = Object [(''a'', String ''y''), (''c'', Array [Bool True])]"
proof -
  have "crdt_wf (CObject [(''a'', CText (text_new ''x'')), (''b'', CNull)])" by code_simp
  moreover have "value_wf (Object [(''a'', String ''y''), (''c'', Array [Bool True])])" by code_simp
  ultimately show ?thesis using crdt_update_is_replacement by blast
qed

end
