(* ===== verification/Backend_Model.thy ===== *)
theory Backend_Model
  imports Provider_Interface Json_Values
begin

text \<open>
  The vocabulary of the backend: the errors of \<open>crates/backend/src/error.rs\<close> and the requests,
  results and deadlines of \<open>crates/backend/src/model.rs\<close>. Message texts are not modelled.
\<close>

section \<open>Errors\<close>

record EntityRef =
  er_entity_type :: string
  er_id :: string

record EntityVersionConflict =
  vc_entity_ref :: EntityRef
  vc_current_versions :: "string list"

datatype BackendErrorReason =
    CursorExpired
  | RequestDeadlineExceeded
  | IdempotencyConflict
  | InvalidRequest
  | NotFound
  | Overloaded
  | UnsupportedCapability
  | VersionConflict
  | WorkUnitExpired

record BackendError =
  be_reason :: BackendErrorReason
  be_current_versions :: "string list"
  be_conflicts :: "EntityVersionConflict list"

type_synonym 'a bresult = "BackendError + 'a"

definition backend_error_new :: "BackendErrorReason \<Rightarrow> BackendError" where
  "backend_error_new r = \<lparr>be_reason = r, be_current_versions = [], be_conflicts = []\<rparr>"

definition version_conflict :: "string list \<Rightarrow> BackendError" where
  "version_conflict vs = \<lparr>be_reason = VersionConflict, be_current_versions = vs, be_conflicts = []\<rparr>"

definition entity_conflicts :: "EntityVersionConflict list \<Rightarrow> BackendError" where
  "entity_conflicts cs = \<lparr>be_reason = VersionConflict, be_current_versions = [], be_conflicts = cs\<rparr>"

section \<open>Requests and results\<close>

type_synonym Meta = "(string \<times> Value) list"

definition DEADLINE_META_FIELD :: string where
  "DEADLINE_META_FIELD = ''deadline_unix_ms''"

type_synonym RequestDeadline = "nat option"

definition deadline_from_meta :: "Meta \<Rightarrow> RequestDeadline bresult" where
  "deadline_from_meta meta =
     (case map_of meta DEADLINE_META_FIELD of
        None \<Rightarrow> Ok None
      | Some v \<Rightarrow> bindR (ok_or (as_u64 v) (backend_error_new InvalidRequest)) (\<lambda>d. Ok (Some d)))"

definition deadline_check :: "RequestDeadline \<Rightarrow> nat \<Rightarrow> unit bresult" where
  "deadline_check d now =
     (if (case d of None \<Rightarrow> False | Some deadline \<Rightarrow> deadline \<le> now)
      then Err (backend_error_new RequestDeadlineExceeded) else Ok ())"

text \<open>A clock reading is \<open>None\<close> when the clock is before the Unix epoch.\<close>

definition deadline_check_now :: "nat option \<Rightarrow> RequestDeadline \<Rightarrow> unit bresult" where
  "deadline_check_now clk d =
     bindR (ok_or clk (backend_error_new InvalidRequest)) (\<lambda>now. deadline_check d now)"

datatype EntityVersion =
    EActive EntityRef string Value
  | EDeleted EntityRef string

record 'a RpcParams =
  rp_meta :: Meta
  rp_data :: 'a

record 'a RpcResult =
  rr_meta :: Meta
  rr_data :: 'a

record CreateEntityData =
  cd_entity_type :: string
  cd_id :: "string option"
  cd_value :: Value

record ReadEntityData =
  rd_entity_ref :: EntityRef

record UpdateEntityData =
  ud_entity_ref :: EntityRef
  ud_value :: Value

record DeleteEntityData =
  dd_entity_ref :: EntityRef

record MutationData =
  md_entity :: EntityVersion

type_synonym MutationResult = "MutationData RpcResult"

datatype ReadState = StateActive | StateConflicted | StateDeleted

record ReadEntityResultData =
  rs_state :: ReadState
  rs_variants :: "EntityVersion list"

type_synonym ReadEntityResult = "ReadEntityResultData RpcResult"

record RetrieveEntitiesData =
  rt_query :: string
  rt_types :: "string list option"
  rt_limit :: nat

record RetrievalHit =
  rh_score :: f64
  rh_variants :: "EntityVersion list"

record RetrieveEntitiesResultData =
  rh_hits :: "RetrievalHit list"

type_synonym RetrieveEntitiesResult = "RetrieveEntitiesResultData RpcResult"

record ChangeFilter =
  cf_types :: "string list option"
  cf_ids :: "string list option"

record SubscribeChangesData =
  sb_filter :: "ChangeFilter option"
  sb_after_cursor :: "string option"

datatype ChangeKind = CkConflicted | CkCreated | CkDeleted | CkResolved | CkUpdated

record ChangeRecord =
  cr_cursor :: string
  cr_entity_ref :: EntityRef
  cr_kind :: ChangeKind
  cr_head_versions :: "string list"

record PublishedChange =
  pc_meta :: Meta
  pc_change :: ChangeRecord

end
