(* ===== verification/Backend_Config.thy ===== *)
theory Backend_Config
  imports Backend_Model "HOL-Library.Sublist"
begin

text \<open>
  The backend configuration, \<open>crates/backend/src/config.rs\<close>: its data and its validation. JSON
  Schema belongs to the \<open>jsonschema\<close> crate and enters as the functions of a \<open>config_env\<close>.
\<close>

section \<open>Configuration data\<close>

record RetentionPolicy =
  rp_idempotency_seconds :: nat
  rp_changes_seconds :: nat

record EntityIdentityPolicy =
  scope_by :: "string list"

record MetaField =
  mf_pointer :: string
  mf_schema :: Value

record RuleMatch =
  all_present :: "string list"

datatype SnapshotPolicy = Request | Shared "string list"

datatype AcquireRequirement = CausalAfter string bool | Linearizable "string list"

record AcquirePolicy =
  allow_sources :: "ConsistencySource list"
  requirements :: "AcquireRequirement list"

datatype SessionGuarantee = MonotonicReads | ReadYourWrites

record SessionPolicy =
  se_key_by :: "string list"
  se_guarantees :: "SessionGuarantee list"

datatype CommitOrderingPolicy = OrderNone | OrderSerialize "string list"

record CommitConsistencyPolicy =
  cc_ordering :: CommitOrderingPolicy

record ConsistencyPolicy =
  cp_snapshot :: SnapshotPolicy
  cp_acquire :: AcquirePolicy
  cp_sessions :: "SessionPolicy list"
  cp_commit :: CommitConsistencyPolicy

datatype IdempotencyPolicy = IdempotencyDisabled | Keyed "string list"

datatype ConflictStrategy = Merge | Mvcc | Reject

datatype ConflictMergeStrategy = Automerge

record ConflictMergeRule =
  mr_path :: string
  mr_strategy :: ConflictMergeStrategy
  mr_group_by :: "string list"

datatype ConflictFallback = FallbackMvcc | FallbackReject

record ConflictPolicy =
  default_strategy :: ConflictStrategy
  strategy_from :: string
  cf_base_versions :: string
  cf_merge :: "ConflictMergeRule list"
  cf_otherwise :: ConflictFallback

datatype BatchCloseCondition = Marker string Value

datatype BatchExpiryPolicy = DiscardBatch

datatype PublicationPolicy =
    Immediate
  | Batch "string list" BatchCloseCondition nat BatchExpiryPolicy

record Behavior =
  bh_consistency :: ConsistencyPolicy
  bh_idempotency :: IdempotencyPolicy
  bh_conflict :: ConflictPolicy
  bh_publication :: PublicationPolicy

record PolicyRule =
  pr_name :: string
  pr_when :: RuleMatch
  pr_behavior :: Behavior

record EntityPolicy =
  ep_value_schema :: Value
  ep_rules :: "PolicyRule list"
  ep_fallback :: Behavior

record BackendConfig =
  schema_uri :: string
  bc_version :: nat
  bc_retention :: RetentionPolicy
  meta_fields :: "(string \<times> MetaField) list"
  entity_identity :: EntityIdentityPolicy
  entity_types :: "(string \<times> EntityPolicy) list"

datatype ConfigError = JsonError | SchemaError | InvalidConfig

text \<open>\<open>meta_valid\<close> is \<open>jsonschema::meta::validate\<close>, \<open>builds\<close> whether a validator can be built from
  a schema with the built-in retriever, \<open>accepts\<close> validation of a value by a built schema,
  \<open>config_schema_accepts\<close> validation by the embedded schema of configurations and
  \<open>config_from_value\<close> and \<open>strategy_from_value\<close> the derived decoders.\<close>

record config_env =
  ce_json :: json_env
  meta_valid :: "Value \<Rightarrow> bool"
  builds :: "Value \<Rightarrow> bool"
  accepts :: "Value \<Rightarrow> Value \<Rightarrow> bool"
  config_schema_accepts :: "Value \<Rightarrow> bool"
  config_from_value :: "Value \<Rightarrow> BackendConfig option"
  strategy_from_value :: "Value \<Rightarrow> ConflictStrategy option"

definition select_field :: "config_env \<Rightarrow> MetaField \<Rightarrow> Value \<Rightarrow> Value option" where
  "select_field C f meta = pointer (ce_json C) meta (mf_pointer f)"

definition validate_value :: "config_env \<Rightarrow> MetaField \<Rightarrow> Value \<Rightarrow> bool" where
  "validate_value C f v \<longleftrightarrow> builds C (mf_schema f) \<and> accepts C (mf_schema f) v"

section \<open>Validation\<close>

type_synonym cresult = "ConfigError + unit"

definition check_cfg :: "bool \<Rightarrow> cresult" where
  "check_cfg ok = guardR ok InvalidConfig"

text \<open>The scan of \<open>valid_json_pointer\<close>, over the bytes from the current index on.\<close>

fun pointer_scan :: "string \<Rightarrow> bool" where
  "pointer_scan [] = True"
| "pointer_scan (c # rest) =
     (if c = CHR ''~'' then
        (case rest of
           [] \<Rightarrow> False
         | d # rest' \<Rightarrow> if d = CHR ''0'' \<or> d = CHR ''1'' then pointer_scan rest' else False)
      else pointer_scan rest)"

definition valid_json_pointer :: "string \<Rightarrow> bool" where
  "valid_json_pointer p = (case p of [] \<Rightarrow> False | c # _ \<Rightarrow> if c = CHR ''/'' then pointer_scan p else False)"

definition strip_prefix :: "string \<Rightarrow> string \<Rightarrow> string option" where
  "strip_prefix s pre = (if take (length pre) s = pre then Some (drop (length pre) s) else None)"

definition nested_json_pointer :: "string \<Rightarrow> string \<Rightarrow> bool" where
  "nested_json_pointer parent child \<longleftrightarrow>
     parent = child \<or>
     (case strip_prefix child parent of
        None \<Rightarrow> False
      | Some rest \<Rightarrow> (case rest of [] \<Rightarrow> False | c # _ \<Rightarrow> c = CHR ''/''))"

definition validate_aliases :: "string list \<Rightarrow> (string \<times> MetaField) list \<Rightarrow> cresult" where
  "validate_aliases aliases fs =
     bindR (foldR (\<lambda>alias seen.
       if map_of fs alias = None then Err InvalidConfig
       else if alias \<in> set seen then Err InvalidConfig
       else Ok (alias # seen)) aliases []) (\<lambda>_. Ok ())"

definition validate_control_key_aliases ::
  "string list \<Rightarrow> (string \<times> MetaField) list \<Rightarrow> string list \<Rightarrow> cresult" where
  "validate_control_key_aliases aliases fs scope =
     bindR (validate_aliases aliases fs) (\<lambda>_.
       case find (\<lambda>alias. alias \<in> set scope) aliases of
         Some _ \<Rightarrow> Err InvalidConfig
       | None \<Rightarrow> Ok ())"

definition validate_json_schema :: "config_env \<Rightarrow> Value \<Rightarrow> cresult" where
  "validate_json_schema C schema = bindR (check_cfg (meta_valid C schema)) (\<lambda>_. check_cfg (builds C schema))"

definition validate_snapshot ::
  "SnapshotPolicy \<Rightarrow> PublicationPolicy \<Rightarrow> (string \<times> MetaField) list \<Rightarrow> string list \<Rightarrow> cresult" where
  "validate_snapshot snapshot publication fs scope =
     (case (snapshot, publication) of
        (Request, Immediate) \<Rightarrow> Ok ()
      | (Shared snapshot_key, Batch publication_key _ _ _) \<Rightarrow>
          bindR (check_cfg (snapshot_key \<noteq> [])) (\<lambda>_.
          bindR (validate_control_key_aliases snapshot_key fs scope) (\<lambda>_.
            check_cfg (set snapshot_key = set publication_key)))
      | (Shared _, Immediate) \<Rightarrow> Err InvalidConfig
      | (Request, Batch _ _ _ _) \<Rightarrow> Err InvalidConfig)"

definition validate_requirement ::
  "(string \<times> MetaField) list \<Rightarrow> string list \<Rightarrow> AcquireRequirement \<Rightarrow> nat \<Rightarrow> ConfigError + nat" where
  "validate_requirement fs scope requirement linearizable =
     (case requirement of
        CausalAfter token _ \<Rightarrow> bindR (validate_aliases [token] fs) (\<lambda>_. Ok linearizable)
      | Linearizable key_by \<Rightarrow>
          bindR (validate_control_key_aliases key_by fs scope) (\<lambda>_. Ok (linearizable + 1)))"

definition validate_session ::
  "(string \<times> MetaField) list \<Rightarrow> string list \<Rightarrow> SessionPolicy \<Rightarrow> string list list \<Rightarrow> ConfigError + string list list" where
  "validate_session fs scope session session_keys =
     bindR (check_cfg (se_key_by session \<noteq> [])) (\<lambda>_.
     bindR (validate_control_key_aliases (se_key_by session) fs scope) (\<lambda>_.
     bindR (check_cfg (sort (se_key_by session) \<notin> set session_keys)) (\<lambda>_.
     bindR (check_cfg (se_guarantees session \<noteq> [])) (\<lambda>_.
     bindR (check_cfg (length (remdups (se_guarantees session)) = length (se_guarantees session))) (\<lambda>_.
       Ok (sort (se_key_by session) # session_keys))))))"

definition is_batch :: "PublicationPolicy \<Rightarrow> bool" where
  "is_batch p = (case p of Immediate \<Rightarrow> False | Batch _ _ _ _ \<Rightarrow> True)"

definition is_causal :: "AcquireRequirement \<Rightarrow> bool" where
  "is_causal r = (case r of CausalAfter _ _ \<Rightarrow> True | Linearizable _ \<Rightarrow> False)"

definition validate_consistency ::
  "ConsistencyPolicy \<Rightarrow> PublicationPolicy \<Rightarrow> (string \<times> MetaField) list \<Rightarrow> string list \<Rightarrow> cresult" where
  "validate_consistency consistency publication fs scope =
     bindR (validate_snapshot (cp_snapshot consistency) publication fs scope) (\<lambda>_.
     let sources = allow_sources (cp_acquire consistency); reqs = requirements (cp_acquire consistency) in
     bindR (check_cfg (sources \<noteq> [])) (\<lambda>_.
     bindR (check_cfg (length (remdups sources) = length sources)) (\<lambda>_.
     bindR (foldR (validate_requirement fs scope) reqs 0) (\<lambda>linearizable.
     bindR (check_cfg (\<not> linearizable > 1)) (\<lambda>_.
     bindR (check_cfg (\<not> (linearizable = 1 \<and> Authority \<notin> set sources))) (\<lambda>_.
     bindR (foldR (validate_session fs scope) (cp_sessions consistency) []) (\<lambda>_.
     bindR (check_cfg (\<not> (is_batch publication \<and> (cp_sessions consistency \<noteq> [] \<or> list_ex is_causal reqs)))) (\<lambda>_.
       case cc_ordering (cp_commit consistency) of
         OrderNone \<Rightarrow> Ok ()
       | OrderSerialize key_by \<Rightarrow> validate_control_key_aliases key_by fs scope))))))))"

definition validate_group_path :: "string \<Rightarrow> string list \<Rightarrow> ConfigError + string list" where
  "validate_group_path p group_paths =
     bindR (check_cfg (valid_json_pointer p)) (\<lambda>_.
     bindR (check_cfg (p \<notin> set group_paths)) (\<lambda>_. Ok (p # group_paths)))"

definition validate_merge_rule :: "ConflictMergeRule \<Rightarrow> string list \<Rightarrow> ConfigError + string list" where
  "validate_merge_rule rule paths =
     bindR (check_cfg (valid_json_pointer (mr_path rule))) (\<lambda>_.
     bindR (check_cfg (\<not> list_ex (\<lambda>existing. nested_json_pointer existing (mr_path rule)
                                          \<or> nested_json_pointer (mr_path rule) existing) paths)) (\<lambda>_.
     bindR (foldR validate_group_path (mr_group_by rule) []) (\<lambda>_.
       Ok (mr_path rule # paths))))"

definition validate_conflict :: "ConflictPolicy \<Rightarrow> (string \<times> MetaField) list \<Rightarrow> cresult" where
  "validate_conflict conflict fs =
     bindR (validate_aliases [strategy_from conflict] fs) (\<lambda>_.
     bindR (validate_aliases [cf_base_versions conflict] fs) (\<lambda>_.
     bindR (foldR validate_merge_rule (cf_merge conflict) []) (\<lambda>_. Ok ())))"

definition validate_publication :: "PublicationPolicy \<Rightarrow> (string \<times> MetaField) list \<Rightarrow> string list \<Rightarrow> cresult" where
  "validate_publication publication fs scope =
     (case publication of
        Immediate \<Rightarrow> Ok ()
      | Batch key_by close_when staging_ttl_ms _ \<Rightarrow>
          bindR (check_cfg (key_by \<noteq> [])) (\<lambda>_.
          bindR (validate_control_key_aliases key_by fs scope) (\<lambda>_.
          bindR (check_cfg (staging_ttl_ms \<noteq> 0)) (\<lambda>_.
            case close_when of Marker field _ \<Rightarrow> validate_aliases [field] fs))))"

definition validate_behavior :: "Behavior \<Rightarrow> (string \<times> MetaField) list \<Rightarrow> string list \<Rightarrow> cresult" where
  "validate_behavior behavior fs scope =
     bindR (validate_consistency (bh_consistency behavior) (bh_publication behavior) fs scope) (\<lambda>_.
     bindR (case bh_idempotency behavior of
              IdempotencyDisabled \<Rightarrow> Ok ()
            | Keyed key_by \<Rightarrow>
                bindR (check_cfg (key_by \<noteq> [])) (\<lambda>_. validate_control_key_aliases key_by fs scope)) (\<lambda>_.
     bindR (validate_conflict (bh_conflict behavior) fs) (\<lambda>_.
       validate_publication (bh_publication behavior) fs scope)))"

definition validate_rule ::
  "(string \<times> MetaField) list \<Rightarrow> string list \<Rightarrow> PolicyRule \<Rightarrow> string list \<Rightarrow> ConfigError + string list" where
  "validate_rule fs scope rule rule_names =
     bindR (check_cfg (pr_name rule \<notin> set rule_names)) (\<lambda>_.
     bindR (check_cfg (all_present (pr_when rule) \<noteq> [])) (\<lambda>_.
     bindR (validate_aliases (all_present (pr_when rule)) fs) (\<lambda>_.
     bindR (validate_behavior (pr_behavior rule) fs scope) (\<lambda>_.
       Ok (pr_name rule # rule_names)))))"

definition validate_entity_type ::
  "config_env \<Rightarrow> (string \<times> MetaField) list \<Rightarrow> string list \<Rightarrow> string \<times> EntityPolicy \<Rightarrow> unit \<Rightarrow> cresult" where
  "validate_entity_type C fs scope entry _ =
     (let (name, policy) = entry in
      bindR (check_cfg (name \<noteq> [])) (\<lambda>_.
      bindR (validate_json_schema C (ep_value_schema policy)) (\<lambda>_.
      bindR (foldR (validate_rule fs scope) (ep_rules policy) []) (\<lambda>_.
        validate_behavior (ep_fallback policy) fs scope))))"

definition validate_meta_field :: "config_env \<Rightarrow> string \<times> MetaField \<Rightarrow> unit \<Rightarrow> cresult" where
  "validate_meta_field C entry _ =
     (let (name, field) = entry in
      bindR (check_cfg (name \<noteq> [])) (\<lambda>_.
      bindR (check_cfg (valid_json_pointer (mf_pointer field))) (\<lambda>_.
      bindR (check_cfg (mf_pointer field \<noteq> CHR ''/'' # DEADLINE_META_FIELD)) (\<lambda>_.
        validate_json_schema C (mf_schema field)))))"

definition validate_config :: "config_env \<Rightarrow> BackendConfig \<Rightarrow> cresult" where
  "validate_config C cfg =
     bindR (check_cfg (bc_version cfg = 1)) (\<lambda>_.
     bindR (check_cfg (meta_fields cfg \<noteq> [])) (\<lambda>_.
     bindR (check_cfg (entity_types cfg \<noteq> [])) (\<lambda>_.
     bindR (check_cfg (rp_idempotency_seconds (bc_retention cfg) \<noteq> 0)) (\<lambda>_.
     bindR (check_cfg (rp_changes_seconds (bc_retention cfg) \<noteq> 0)) (\<lambda>_.
     bindR (foldR (validate_meta_field C) (meta_fields cfg) ()) (\<lambda>_.
     bindR (validate_aliases (scope_by (entity_identity cfg)) (meta_fields cfg)) (\<lambda>_.
       foldR (validate_entity_type C (meta_fields cfg) (scope_by (entity_identity cfg))) (entity_types cfg) ())))))))"

definition config_from_json :: "config_env \<Rightarrow> string \<Rightarrow> ConfigError + BackendConfig" where
  "config_from_json C input =
     bindR (ok_or (from_str (ce_json C) input) JsonError) (\<lambda>document.
     bindR (guardR (config_schema_accepts C document) SchemaError) (\<lambda>_.
     bindR (ok_or (config_from_value C document) JsonError) (\<lambda>config.
     bindR (validate_config C config) (\<lambda>_. Ok config))))"

definition validate_entity_value :: "config_env \<Rightarrow> BackendConfig \<Rightarrow> string \<Rightarrow> Value \<Rightarrow> cresult" where
  "validate_entity_value C cfg ty v =
     bindR (ok_or (map_of (entity_types cfg) ty) InvalidConfig) (\<lambda>policy.
     bindR (check_cfg (builds C (ep_value_schema policy))) (\<lambda>_.
       check_cfg (accepts C (ep_value_schema policy) v)))"

section \<open>Pointers\<close>

text \<open>The reference tokens of a JSON Pointer (RFC 6901) and their text.\<close>

fun escape_token :: "string \<Rightarrow> string" where
  "escape_token [] = []"
| "escape_token (c # t) =
     (if c = CHR ''~'' then ''~0'' else if c = CHR ''/'' then ''~1'' else [c]) @ escape_token t"

definition pointer_of :: "string list \<Rightarrow> string" where
  "pointer_of ts = concat (map (\<lambda>t. CHR ''/'' # escape_token t) ts)"

lemma pointer_of_simps [simp]:
  "pointer_of [] = []" "pointer_of (t # ts) = CHR ''/'' # escape_token t @ pointer_of ts"
  "pointer_of (ts @ us) = pointer_of ts @ pointer_of us"
  by (simp_all add: pointer_of_def)

lemma pointer_scan_escape [simp]: "pointer_scan (escape_token t @ s) = pointer_scan s"
  by (induction t) auto

lemma pointer_scan_pointer [simp]: "pointer_scan (pointer_of ts @ s) = pointer_scan s"
  by (induction ts) auto

lemma pointer_scan_tokens: "pointer_scan p \<Longrightarrow> \<exists>t ts. p = escape_token t @ pointer_of ts"
proof (induction p rule: pointer_scan.induct)
  case 1
  then show ?case by (intro exI[of _ "[]"]) simp
next
  case (2 c rest)
  show ?case
  proof (cases "c = CHR ''~''")
    case True
    with "2.prems" obtain d rest' where r: "rest = d # rest'" "d = CHR ''0'' \<or> d = CHR ''1''" "pointer_scan rest'"
      by (auto split: list.splits if_splits)
    from "2.IH"(1)[OF True r(1) _ r(3)] r(2) obtain t ts where "rest' = escape_token t @ pointer_of ts" by blast
    with True r(1,2) show ?thesis
      by (intro exI[of _ "(if d = CHR ''0'' then CHR ''~'' else CHR ''/'') # t"] exI[of _ ts]) auto
  next
    case False
    with "2.prems" "2.IH"(2) obtain t ts where t: "rest = escape_token t @ pointer_of ts" by auto
    show ?thesis
    proof (cases "c = CHR ''/''")
      case True
      with t show ?thesis by (intro exI[of _ "[]"] exI[of _ "t # ts"]) simp
    next
      case no: False
      with t False show ?thesis by (intro exI[of _ "c # t"] exI[of _ ts]) simp
    qed
  qed
qed

lemma valid_json_pointer_tokens: "valid_json_pointer p \<longleftrightarrow> (\<exists>ts. ts \<noteq> [] \<and> p = pointer_of ts)"
proof
  assume v: "valid_json_pointer p"
  then obtain s where s: "p = CHR ''/'' # s" "pointer_scan s"
    by (auto simp: valid_json_pointer_def split: list.splits if_splits)
  from pointer_scan_tokens[OF s(2)] obtain t ts where "s = escape_token t @ pointer_of ts" by blast
  with s(1) show "\<exists>ts. ts \<noteq> [] \<and> p = pointer_of ts" by (intro exI[of _ "t # ts"]) simp
next
  assume "\<exists>ts. ts \<noteq> [] \<and> p = pointer_of ts"
  then obtain t ts where "p = pointer_of (t # ts)" by (metis neq_Nil_conv)
  then show "valid_json_pointer p"
    using pointer_scan_pointer[of ts "[]"] by (simp add: valid_json_pointer_def)
qed

lemma pointer_of_head: "pointer_of ts = [] \<or> (\<exists>s. pointer_of ts = CHR ''/'' # s)"
  by (cases ts) auto

lemma escape_token_inj:
  "escape_token t @ pointer_of ts = escape_token u @ pointer_of us \<Longrightarrow> t = u \<and> pointer_of ts = pointer_of us"
proof (induction t arbitrary: u)
  case Nil
  then show ?case using pointer_of_head[of ts] by (cases u) (auto split: if_splits)
next
  case (Cons c t)
  then show ?case using pointer_of_head[of us] by (cases u) (auto split: if_splits)
qed

lemma pointer_of_inj [simp]: "pointer_of ts = pointer_of us \<longleftrightarrow> ts = us"
proof (induction ts arbitrary: us)
  case Nil
  then show ?case by (cases us) auto
next
  case (Cons t ts)
  then show ?case by (cases us) (auto dest: escape_token_inj)
qed

lemma strip_prefix_Some: "strip_prefix s pre = Some rest \<longleftrightarrow> s = pre @ rest"
  by (auto simp: strip_prefix_def) (metis append_take_drop_id)

lemma nested_json_pointer_prefix:
  assumes "ts \<noteq> []" "us \<noteq> []"
  shows "nested_json_pointer (pointer_of ts) (pointer_of us) \<longleftrightarrow> prefix ts us"
proof
  assume "nested_json_pointer (pointer_of ts) (pointer_of us)"
  then have "ts = us \<or> (\<exists>s. pointer_of us = pointer_of ts @ CHR ''/'' # s)"
    by (simp add: nested_json_pointer_def strip_prefix_Some split: option.splits list.splits)
  then show "prefix ts us"
  proof (elim disjE exE)
    fix s assume 2: "pointer_of us = pointer_of ts @ CHR ''/'' # s"
    have "pointer_scan (pointer_of us)" using pointer_scan_pointer[of us "[]"] by simp
    with 2 have "pointer_scan (CHR ''/'' # s)" by simp
    then have "valid_json_pointer (CHR ''/'' # s)" by (simp add: valid_json_pointer_def)
    then obtain vs where "CHR ''/'' # s = pointer_of vs" using valid_json_pointer_tokens by blast
    with 2 have "pointer_of us = pointer_of (ts @ vs)" by simp
    then have "us = ts @ vs" by (simp only: pointer_of_inj)
    then show "prefix ts us" by simp
  qed simp
next
  assume "prefix ts us"
  then obtain vs where "us = ts @ vs" by (auto simp: prefix_def)
  then show "nested_json_pointer (pointer_of ts) (pointer_of us)"
    by (cases vs) (auto simp: nested_json_pointer_def strip_prefix_def)
qed

section \<open>What validation accepts\<close>

text \<open>A loop that collects what it has seen and refuses an element that clashes with it.\<close>

lemma foldR_collect:
  assumes "\<And>x seen s. g x seen = Inr s \<longleftrightarrow> ok x \<and> (\<forall>y \<in> set seen. rel y (f x)) \<and> s = f x # seen"
  shows "(\<exists>s. foldR g xs seen = Inr s) \<longleftrightarrow>
    (\<forall>x \<in> set xs. ok x) \<and> sorted_wrt rel (map f xs) \<and> (\<forall>y \<in> set seen. \<forall>x \<in> set xs. rel y (f x))"
proof (induction xs arbitrary: seen)
  case (Cons x xs)
  have "(\<exists>s. foldR g (x # xs) seen = Inr s) \<longleftrightarrow>
    ok x \<and> (\<forall>y \<in> set seen. rel y (f x)) \<and> (\<exists>s. foldR g xs (f x # seen) = Inr s)"
    using assms by (auto simp: bindR_eq_Inr)
  also have "\<dots> \<longleftrightarrow> ok x \<and> (\<forall>y \<in> set seen. rel y (f x)) \<and> (\<forall>x \<in> set xs. ok x) \<and> sorted_wrt rel (map f xs)
      \<and> (\<forall>y \<in> set (f x # seen). \<forall>x \<in> set xs. rel y (f x))" using Cons.IH by simp
  finally show ?case by auto
qed simp

lemma unit_Inr [simp]: "(\<exists>s :: unit. r = Inr s) \<longleftrightarrow> r = Inr ()"
  by auto

lemma check_cfg_Inr [simp]: "check_cfg b = Inr u \<longleftrightarrow> b"
  by (simp add: check_cfg_def)

lemma bindR_unit_Ok [simp]: "bindR m (\<lambda>_. Inr ()) = Inr () \<longleftrightarrow> (\<exists>x. m = Inr x)"
  by (cases m) auto

lemma sorted_wrt_neq: "sorted_wrt (\<noteq>) xs \<longleftrightarrow> distinct xs"
  by (induction xs) auto

definition aliases_wf :: "string list \<Rightarrow> (string \<times> MetaField) list \<Rightarrow> bool" where
  "aliases_wf aliases fs \<longleftrightarrow> distinct aliases \<and> set aliases \<subseteq> fst ` set fs"

definition key_wf :: "string list \<Rightarrow> (string \<times> MetaField) list \<Rightarrow> string list \<Rightarrow> bool" where
  "key_wf aliases fs scope \<longleftrightarrow> aliases_wf aliases fs \<and> set aliases \<inter> set scope = {}"

lemma validate_aliases_Ok: "validate_aliases aliases fs = Inr () \<longleftrightarrow> aliases_wf aliases fs"
proof -
  have "(\<exists>s. foldR (\<lambda>alias seen. if map_of fs alias = None then Err InvalidConfig
       else if alias \<in> set seen then Err InvalidConfig else Ok (alias # seen)) aliases [] = Inr s) \<longleftrightarrow>
     (\<forall>x \<in> set aliases. map_of fs x \<noteq> None) \<and> sorted_wrt (\<noteq>) (map (\<lambda>x. x) aliases)
     \<and> (\<forall>y \<in> set []. \<forall>x \<in> set aliases. y \<noteq> x)"
    by (rule foldR_collect) (auto split: if_splits)
  then show ?thesis
    by (auto simp: validate_aliases_def aliases_wf_def sorted_wrt_neq map_of_eq_None_iff subset_iff)
qed

lemma validate_control_key_aliases_Ok: "validate_control_key_aliases aliases fs scope = Inr () \<longleftrightarrow> key_wf aliases fs scope"
proof -
  have "(case find (\<lambda>alias. alias \<in> set scope) aliases of Some _ \<Rightarrow> Err InvalidConfig | None \<Rightarrow> Ok ()) = Inr () \<longleftrightarrow>
    set aliases \<inter> set scope = {}"
  proof (cases "find (\<lambda>alias. alias \<in> set scope) aliases")
    case None
    then have "set aliases \<inter> set scope = {}" by (auto simp: find_None_iff)
    with None show ?thesis by simp
  next
    case (Some a)
    then have "a \<in> set aliases \<inter> set scope" by (auto simp: find_Some_iff)
    with Some show ?thesis by auto
  qed
  then show ?thesis
    by (simp add: validate_control_key_aliases_def bindR_eq_Inr validate_aliases_Ok key_wf_def)
qed

lemmas alias_rules = validate_aliases_Ok validate_control_key_aliases_Ok

definition snapshot_wf :: "SnapshotPolicy \<Rightarrow> PublicationPolicy \<Rightarrow> (string \<times> MetaField) list \<Rightarrow> string list \<Rightarrow> bool" where
  "snapshot_wf snapshot publication fs scope \<longleftrightarrow>
     (snapshot = Request \<and> publication = Immediate)
     \<or> (\<exists>key key' close ttl e. snapshot = Shared key \<and> publication = Batch key' close ttl e
          \<and> key \<noteq> [] \<and> key_wf key fs scope \<and> set key = set key')"

definition requirement_wf :: "(string \<times> MetaField) list \<Rightarrow> string list \<Rightarrow> AcquireRequirement \<Rightarrow> bool" where
  "requirement_wf fs scope r =
     (case r of CausalAfter token _ \<Rightarrow> token \<in> fst ` set fs | Linearizable key \<Rightarrow> key_wf key fs scope)"

definition session_wf :: "(string \<times> MetaField) list \<Rightarrow> string list \<Rightarrow> SessionPolicy \<Rightarrow> bool" where
  "session_wf fs scope s \<longleftrightarrow>
     se_key_by s \<noteq> [] \<and> key_wf (se_key_by s) fs scope \<and> se_guarantees s \<noteq> [] \<and> distinct (se_guarantees s)"

definition linearizations :: "AcquireRequirement list \<Rightarrow> AcquireRequirement list" where
  "linearizations rs = filter (\<lambda>r. \<not> is_causal r) rs"

definition consistency_wf ::
  "ConsistencyPolicy \<Rightarrow> PublicationPolicy \<Rightarrow> (string \<times> MetaField) list \<Rightarrow> string list \<Rightarrow> bool" where
  "consistency_wf c publication fs scope \<longleftrightarrow>
     snapshot_wf (cp_snapshot c) publication fs scope
     \<and> allow_sources (cp_acquire c) \<noteq> [] \<and> distinct (allow_sources (cp_acquire c))
     \<and> (\<forall>r \<in> set (requirements (cp_acquire c)). requirement_wf fs scope r)
     \<and> length (linearizations (requirements (cp_acquire c))) \<le> 1
     \<and> (linearizations (requirements (cp_acquire c)) \<noteq> [] \<longrightarrow> Authority \<in> set (allow_sources (cp_acquire c)))
     \<and> (\<forall>s \<in> set (cp_sessions c). session_wf fs scope s) \<and> distinct (map (\<lambda>s. sort (se_key_by s)) (cp_sessions c))
     \<and> (is_batch publication \<longrightarrow> cp_sessions c = [] \<and> (\<forall>r \<in> set (requirements (cp_acquire c)). \<not> is_causal r))
     \<and> (\<forall>key. cc_ordering (cp_commit c) = OrderSerialize key \<longrightarrow> key_wf key fs scope)"

lemma validate_snapshot_Ok: "validate_snapshot s p fs scope = Inr () \<longleftrightarrow> snapshot_wf s p fs scope"
  by (auto simp: validate_snapshot_def snapshot_wf_def bindR_eq_Inr alias_rules
      split: SnapshotPolicy.splits PublicationPolicy.splits)

lemma validate_requirement_Ok:
  "validate_requirement fs scope r n = Inr m \<longleftrightarrow> requirement_wf fs scope r \<and> m = n + (if is_causal r then 0 else 1)"
  by (cases r) (auto simp: validate_requirement_def requirement_wf_def is_causal_def bindR_eq_Inr alias_rules aliases_wf_def)

lemma validate_requirements_Ok:
  "foldR (validate_requirement fs scope) rs n = Inr m \<longleftrightarrow>
     (\<forall>r \<in> set rs. requirement_wf fs scope r) \<and> m = n + length (linearizations rs)"
  by (induction rs arbitrary: n) (auto simp: bindR_eq_Inr validate_requirement_Ok linearizations_def)

lemma length_remdups_distinct: "length (remdups xs) = length xs \<longleftrightarrow> distinct xs"
  by (metis distinct_remdups length_remdups_eq remdups_id_iff_distinct)

lemma validate_sessions_Ok:
  "(\<exists>s. foldR (validate_session fs scope) ss [] = Inr s) \<longleftrightarrow>
     (\<forall>s \<in> set ss. session_wf fs scope s) \<and> distinct (map (\<lambda>s. sort (se_key_by s)) ss)"
  using foldR_collect[of "validate_session fs scope" "session_wf fs scope" "(\<noteq>)" "\<lambda>s. sort (se_key_by s)" ss "[]"]
  by (auto simp: validate_session_def bindR_eq_Inr alias_rules session_wf_def length_remdups_distinct sorted_wrt_neq)

lemma validate_consistency_Ok: "validate_consistency c p fs scope = Inr () \<longleftrightarrow> consistency_wf c p fs scope"
proof -
  have "(case cc_ordering (cp_commit c) of OrderNone \<Rightarrow> Ok ()
       | OrderSerialize key_by \<Rightarrow> validate_control_key_aliases key_by fs scope) = Inr () \<longleftrightarrow>
    (\<forall>key. cc_ordering (cp_commit c) = OrderSerialize key \<longrightarrow> key_wf key fs scope)"
    by (auto simp: alias_rules split: CommitOrderingPolicy.splits)
  moreover have "(\<exists>s. foldR (validate_session fs scope) (cp_sessions c) [] = Inr s \<and> Q) \<longleftrightarrow>
    ((\<forall>s \<in> set (cp_sessions c). session_wf fs scope s) \<and> distinct (map (\<lambda>s. sort (se_key_by s)) (cp_sessions c))) \<and> Q" for Q
    using validate_sessions_Ok by auto
  moreover have "(Suc 0 < n \<longrightarrow> False) \<longleftrightarrow> n \<le> 1" for n by auto
  ultimately show ?thesis
    by (auto simp: validate_consistency_def Let_def bindR_eq_Inr consistency_wf_def validate_snapshot_Ok
        validate_requirements_Ok length_remdups_distinct list_ex_iff not_less le_Suc_eq)
qed

text \<open>Merge rules address disjoint parts of a value: their paths are pointers none of which extends
  another.\<close>

definition merge_rules_wf :: "ConflictMergeRule list \<Rightarrow> bool" where
  "merge_rules_wf rules \<longleftrightarrow>
     (\<exists>tss. map mr_path rules = map pointer_of tss \<and> (\<forall>ts \<in> set tss. ts \<noteq> [])
        \<and> (\<forall>i < length tss. \<forall>j < length tss. i \<noteq> j \<longrightarrow> \<not> prefix (tss ! i) (tss ! j)))
     \<and> (\<forall>r \<in> set rules. distinct (mr_group_by r) \<and> (\<forall>p \<in> set (mr_group_by r). \<exists>ts. ts \<noteq> [] \<and> p = pointer_of ts))"

definition conflict_wf :: "ConflictPolicy \<Rightarrow> (string \<times> MetaField) list \<Rightarrow> bool" where
  "conflict_wf c fs \<longleftrightarrow> strategy_from c \<in> fst ` set fs \<and> cf_base_versions c \<in> fst ` set fs \<and> merge_rules_wf (cf_merge c)"

definition publication_wf :: "PublicationPolicy \<Rightarrow> (string \<times> MetaField) list \<Rightarrow> string list \<Rightarrow> bool" where
  "publication_wf p fs scope \<longleftrightarrow>
     (\<forall>key field equals ttl e. p = Batch key (Marker field equals) ttl e \<longrightarrow>
        key \<noteq> [] \<and> key_wf key fs scope \<and> 0 < ttl \<and> field \<in> fst ` set fs)"

definition behavior_wf :: "Behavior \<Rightarrow> (string \<times> MetaField) list \<Rightarrow> string list \<Rightarrow> bool" where
  "behavior_wf b fs scope \<longleftrightarrow>
     consistency_wf (bh_consistency b) (bh_publication b) fs scope
     \<and> (\<forall>key. bh_idempotency b = Keyed key \<longrightarrow> key \<noteq> [] \<and> key_wf key fs scope)
     \<and> conflict_wf (bh_conflict b) fs \<and> publication_wf (bh_publication b) fs scope"

definition config_wf :: "config_env \<Rightarrow> BackendConfig \<Rightarrow> bool" where
  "config_wf C cfg \<longleftrightarrow>
     bc_version cfg = 1 \<and> meta_fields cfg \<noteq> [] \<and> entity_types cfg \<noteq> []
     \<and> 0 < rp_idempotency_seconds (bc_retention cfg) \<and> 0 < rp_changes_seconds (bc_retention cfg)
     \<and> (\<forall>(name, f) \<in> set (meta_fields cfg).
          name \<noteq> [] \<and> (\<exists>ts. ts \<noteq> [] \<and> mf_pointer f = pointer_of ts) \<and> mf_pointer f \<noteq> CHR ''/'' # DEADLINE_META_FIELD
          \<and> meta_valid C (mf_schema f) \<and> builds C (mf_schema f))
     \<and> aliases_wf (scope_by (entity_identity cfg)) (meta_fields cfg)
     \<and> (\<forall>(name, p) \<in> set (entity_types cfg).
          name \<noteq> [] \<and> meta_valid C (ep_value_schema p) \<and> builds C (ep_value_schema p)
          \<and> distinct (map pr_name (ep_rules p))
          \<and> (\<forall>r \<in> set (ep_rules p). all_present (pr_when r) \<noteq> [] \<and> aliases_wf (all_present (pr_when r)) (meta_fields cfg)
               \<and> behavior_wf (pr_behavior r) (meta_fields cfg) (scope_by (entity_identity cfg)))
          \<and> behavior_wf (ep_fallback p) (meta_fields cfg) (scope_by (entity_identity cfg)))"

lemma validate_group_paths_Ok:
  "(\<exists>s. foldR validate_group_path ps [] = Inr s) \<longleftrightarrow> distinct ps \<and> (\<forall>p \<in> set ps. \<exists>ts. ts \<noteq> [] \<and> p = pointer_of ts)"
  using foldR_collect[of validate_group_path valid_json_pointer "(\<noteq>)" "\<lambda>p. p" ps "[]"]
  by (auto simp: validate_group_path_def bindR_eq_Inr sorted_wrt_neq valid_json_pointer_tokens)

lemma sorted_wrt_sym:
  assumes "\<And>x y. R x y \<Longrightarrow> R y x"
  shows "sorted_wrt R xs \<longleftrightarrow> (\<forall>i < length xs. \<forall>j < length xs. i \<noteq> j \<longrightarrow> R (xs ! i) (xs ! j))"
proof
  assume s: "sorted_wrt R xs"
  show "\<forall>i < length xs. \<forall>j < length xs. i \<noteq> j \<longrightarrow> R (xs ! i) (xs ! j)"
  proof (intro allI impI)
    fix i j assume "i < length xs" "j < length xs" "i \<noteq> j"
    then show "R (xs ! i) (xs ! j)"
      using sorted_wrt_nth_less[OF s] assms by (cases "i < j") auto
  qed
qed (simp add: sorted_wrt_iff_nth_less)

lemma unnested_paths:
  assumes "\<forall>ts \<in> set tss. ts \<noteq> []"
  shows "sorted_wrt (\<lambda>p q. \<not> (nested_json_pointer p q \<or> nested_json_pointer q p)) (map pointer_of tss) \<longleftrightarrow>
    (\<forall>i < length tss. \<forall>j < length tss. i \<noteq> j \<longrightarrow> \<not> prefix (tss ! i) (tss ! j))"
proof -
  have "nested_json_pointer (pointer_of (tss ! i)) (pointer_of (tss ! j)) = prefix (tss ! i) (tss ! j)"
    if "i < length tss" "j < length tss" for i j
    using that assms by (simp add: nested_json_pointer_prefix)
  moreover have "sorted_wrt (\<lambda>p q. \<not> (nested_json_pointer p q \<or> nested_json_pointer q p)) (map pointer_of tss) \<longleftrightarrow>
    (\<forall>i < length tss. \<forall>j < length tss. i \<noteq> j \<longrightarrow>
      \<not> (nested_json_pointer (pointer_of (tss ! i)) (pointer_of (tss ! j)) \<or> nested_json_pointer (pointer_of (tss ! j)) (pointer_of (tss ! i))))"
    by (subst sorted_wrt_sym) auto
  ultimately show ?thesis by auto
qed

lemma validate_merge_rules_Ok: "(\<exists>s. foldR validate_merge_rule rules [] = Inr s) \<longleftrightarrow> merge_rules_wf rules"
proof -
  let ?ok = "\<lambda>r. valid_json_pointer (mr_path r) \<and> distinct (mr_group_by r)
      \<and> (\<forall>p \<in> set (mr_group_by r). \<exists>ts. ts \<noteq> [] \<and> p = pointer_of ts)"
  let ?rel = "\<lambda>p q. \<not> (nested_json_pointer p q \<or> nested_json_pointer q p)"
  have "validate_merge_rule r seen = Inr s \<longleftrightarrow> ?ok r \<and> (\<forall>y \<in> set seen. ?rel y (mr_path r)) \<and> s = mr_path r # seen" for r seen s
    using validate_group_paths_Ok[of "mr_group_by r"]
    by (auto simp: validate_merge_rule_def bindR_eq_Inr list_ex_iff)
  from foldR_collect[of validate_merge_rule ?ok ?rel mr_path rules "[]", OF this]
  have *: "(\<exists>s. foldR validate_merge_rule rules [] = Inr s) \<longleftrightarrow> (\<forall>r \<in> set rules. ?ok r) \<and> sorted_wrt ?rel (map mr_path rules)"
    by simp
  have valid: "(\<forall>r \<in> set rules. valid_json_pointer (mr_path r)) \<longleftrightarrow>
    (\<exists>tss. map mr_path rules = map pointer_of tss \<and> (\<forall>ts \<in> set tss. ts \<noteq> []))"
  proof
    assume "\<forall>r \<in> set rules. valid_json_pointer (mr_path r)"
    then have "\<forall>r. \<exists>ts. r \<in> set rules \<longrightarrow> ts \<noteq> [] \<and> mr_path r = pointer_of ts"
      unfolding valid_json_pointer_tokens by blast
    then obtain f where "\<forall>r. r \<in> set rules \<longrightarrow> f r \<noteq> [] \<and> mr_path r = pointer_of (f r)" by metis
    then show "\<exists>tss. map mr_path rules = map pointer_of tss \<and> (\<forall>ts \<in> set tss. ts \<noteq> [])"
      by (intro exI[of _ "map f rules"]) simp
  next
    assume "\<exists>tss. map mr_path rules = map pointer_of tss \<and> (\<forall>ts \<in> set tss. ts \<noteq> [])"
    then show "\<forall>r \<in> set rules. valid_json_pointer (mr_path r)"
      unfolding valid_json_pointer_tokens by (metis (no_types, lifting) imageE image_eqI list.set_map)
  qed
  have key: "(\<forall>r \<in> set rules. valid_json_pointer (mr_path r)) \<and> sorted_wrt ?rel (map mr_path rules) \<longleftrightarrow>
    (\<exists>tss. map mr_path rules = map pointer_of tss \<and> (\<forall>ts \<in> set tss. ts \<noteq> [])
      \<and> (\<forall>i < length tss. \<forall>j < length tss. i \<noteq> j \<longrightarrow> \<not> prefix (tss ! i) (tss ! j)))"
    (is "?V \<and> ?S \<longleftrightarrow> (\<exists>tss. ?Q tss \<and> ?N tss \<and> ?D tss)")
  proof -
    have "?S \<longleftrightarrow> ?D tss" if "?Q tss" "?N tss" for tss using unnested_paths[OF that(2)] that(1) by simp
    then have "(\<exists>tss. ?Q tss \<and> ?N tss \<and> ?D tss) \<longleftrightarrow> (\<exists>tss. ?Q tss \<and> ?N tss) \<and> ?S" by blast
    then show ?thesis unfolding valid by simp
  qed
  show ?thesis unfolding merge_rules_wf_def * key[symmetric] by (simp only: ball_conj_distrib conj_ac)
qed

lemma validate_conflict_Ok: "validate_conflict c fs = Inr () \<longleftrightarrow> conflict_wf c fs"
  using validate_merge_rules_Ok[of "cf_merge c"]
  by (auto simp: validate_conflict_def bindR_eq_Inr alias_rules aliases_wf_def conflict_wf_def)

lemma validate_publication_Ok: "validate_publication p fs scope = Inr () \<longleftrightarrow> publication_wf p fs scope"
proof (cases p)
  case (Batch key close ttl e)
  then show ?thesis
    by (cases close) (simp add: validate_publication_def publication_wf_def bindR_eq_Inr alias_rules aliases_wf_def)
qed (simp add: validate_publication_def publication_wf_def)

lemma validate_behavior_Ok: "validate_behavior b fs scope = Inr () \<longleftrightarrow> behavior_wf b fs scope"
  by (cases "bh_idempotency b")
    (simp_all add: validate_behavior_def behavior_wf_def bindR_eq_Inr alias_rules validate_consistency_Ok
      validate_conflict_Ok validate_publication_Ok)

lemma validate_rules_Ok:
  "(\<exists>s. foldR (validate_rule fs scope) rules [] = Inr s) \<longleftrightarrow>
     distinct (map pr_name rules)
     \<and> (\<forall>r \<in> set rules. all_present (pr_when r) \<noteq> [] \<and> aliases_wf (all_present (pr_when r)) fs \<and> behavior_wf (pr_behavior r) fs scope)"
  using foldR_collect[of "validate_rule fs scope"
      "\<lambda>r. all_present (pr_when r) \<noteq> [] \<and> aliases_wf (all_present (pr_when r)) fs \<and> behavior_wf (pr_behavior r) fs scope"
      "(\<noteq>)" pr_name rules "[]"]
  by (auto simp: validate_rule_def bindR_eq_Inr alias_rules validate_behavior_Ok sorted_wrt_neq)

lemma foldR_unit: "foldR f xs () = Inr () \<longleftrightarrow> (\<forall>x \<in> set xs. f x () = Inr ())"
  by (induction xs) (auto simp: bindR_eq_Inr)

lemma validate_config_Ok: "validate_config C cfg = Inr () \<longleftrightarrow> config_wf C cfg"
proof -
  have fields: "validate_meta_field C e () = Inr () \<longleftrightarrow> (case e of (name, f) \<Rightarrow>
      name \<noteq> [] \<and> (\<exists>ts. ts \<noteq> [] \<and> mf_pointer f = pointer_of ts) \<and> mf_pointer f \<noteq> CHR ''/'' # DEADLINE_META_FIELD
      \<and> meta_valid C (mf_schema f) \<and> builds C (mf_schema f))" for e
    by (cases e) (auto simp: validate_meta_field_def validate_json_schema_def bindR_eq_Inr valid_json_pointer_tokens)
  have types: "validate_entity_type C fs scope e () = Inr () \<longleftrightarrow> (case e of (name, p) \<Rightarrow>
      name \<noteq> [] \<and> meta_valid C (ep_value_schema p) \<and> builds C (ep_value_schema p)
      \<and> distinct (map pr_name (ep_rules p))
      \<and> (\<forall>r \<in> set (ep_rules p). all_present (pr_when r) \<noteq> [] \<and> aliases_wf (all_present (pr_when r)) fs
           \<and> behavior_wf (pr_behavior r) fs scope)
      \<and> behavior_wf (ep_fallback p) fs scope)" for fs scope e
    using validate_rules_Ok[of fs scope "ep_rules (snd e)"]
    by (cases e) (auto simp: validate_entity_type_def validate_json_schema_def bindR_eq_Inr validate_behavior_Ok)
  show ?thesis
    by (simp add: validate_config_def config_wf_def bindR_eq_Inr foldR_unit alias_rules fields types)
qed

text \<open>
  C27. Validation accepts exactly the well-formed configurations: the nested loops with their
  accumulators decide a declarative condition, in which every alias is a configured metadata field,
  no key repeats a field or a field of the scope, a shared snapshot goes with batch publication on
  the same key fields, there is at most one linearization domain and then the authority is an
  allowed source, sessions are declared once, and the paths of merge rules are RFC 6901 pointers
  none of which is a prefix of another, so that merge rules never overlap.
\<close>
theorem validate_config_iff_wf: "validate_config C cfg = Inr () \<longleftrightarrow> config_wf C cfg"
  by (rule validate_config_Ok)

end
