(* ===== verification/Policy_Selection.thy ===== *)
theory Policy_Selection
  imports Backend_Config
begin

text \<open>
  The selection of a policy for a request, \<open>crates/backend/src/controller.rs\<close>: which metadata fields
  a request carries, which rule they match and the keys and plans the behaviour of the rule asks
  for. A \<open>BTreeSet\<close> of sources or guarantees is the list of its elements in ascending order.
\<close>

section \<open>Plans\<close>

record ControlKey =
  ck_scope :: "(string \<times> Value) list"
  ck_fields :: "(string \<times> Value) list"

record CausalConsistencyPlan =
  ca_field :: string
  ca_minimum :: "Value option"

record SessionConsistencyPlan =
  sp_key :: ControlKey
  sp_guarantees :: "SessionGuarantee list"

record ConsistencyPlan =
  cn_snapshot_key :: "ControlKey option"
  cn_allowed_sources :: "ConsistencySource list"
  cn_causal :: "CausalConsistencyPlan list"
  cn_linearization_key :: "ControlKey option"
  cn_sessions :: "SessionConsistencyPlan list"
  cn_commit_ordering_key :: "ControlKey option"

record ConflictPlan =
  cpl_strategy :: ConflictStrategy
  cpl_base_versions_field :: string
  cpl_base_versions :: "Value option"
  cpl_merge :: "ConflictMergeRule list"
  cpl_otherwise :: ConflictFallback

record PolicySelection =
  se_rule :: "string option"
  se_fields :: "(string \<times> Value) list"
  se_scope :: "(string \<times> Value) list"
  se_consistency :: ConsistencyPlan
  se_conflict :: ConflictPlan
  se_idempotency_key :: "ControlKey option"
  se_publication_key :: "ControlKey option"
  se_behavior :: Behavior

datatype PolicyError =
    UnknownEntityType string
  | MissingField string string
  | InvalidField string

definition source_set :: "ConsistencySource list \<Rightarrow> ConsistencySource list" where
  "source_set xs = filter (\<lambda>s. s \<in> set xs) [Authority, Replica]"

definition guarantee_set :: "SessionGuarantee list \<Rightarrow> SessionGuarantee list" where
  "guarantee_set xs = filter (\<lambda>g. g \<in> set xs) [MonotonicReads, ReadYourWrites]"

section \<open>Selection\<close>

definition select_key :: "string \<Rightarrow> (string \<times> Value) list \<Rightarrow> string list \<Rightarrow> PolicyError + (string \<times> Value) list" where
  "select_key ty fs names =
     bindR (mapR (\<lambda>name. bindR (ok_or (map_of fs name) (MissingField ty name)) (\<lambda>v. Ok (name, v))) names) (\<lambda>kvs.
       Ok (btree_collect kvs))"

definition control_key ::
  "string \<Rightarrow> (string \<times> Value) list \<Rightarrow> (string \<times> Value) list \<Rightarrow> string list \<Rightarrow> PolicyError + ControlKey" where
  "control_key ty fs scope names =
     bindR (select_key ty fs names) (\<lambda>key. Ok \<lparr>ck_scope = scope, ck_fields = key\<rparr>)"

definition control_key_opt ::
  "string \<Rightarrow> (string \<times> Value) list \<Rightarrow> (string \<times> Value) list \<Rightarrow> string list option \<Rightarrow> PolicyError + ControlKey option" where
  "control_key_opt ty fs scope names =
     (case names of None \<Rightarrow> Ok None | Some ns \<Rightarrow> bindR (control_key ty fs scope ns) (\<lambda>k. Ok (Some k)))"

definition acquire_requirement ::
  "string \<Rightarrow> (string \<times> Value) list \<Rightarrow> (string \<times> Value) list \<Rightarrow> AcquireRequirement
   \<Rightarrow> ConsistencySource list \<times> CausalConsistencyPlan list \<times> ControlKey option
   \<Rightarrow> PolicyError + ConsistencySource list \<times> CausalConsistencyPlan list \<times> ControlKey option" where
  "acquire_requirement ty fs scope requirement acc =
     (case acc of (allowed, causal, linearization) \<Rightarrow>
      case requirement of
        CausalAfter token is_optional \<Rightarrow>
          bindR (case map_of fs token of
                   Some v \<Rightarrow> Ok (Some v)
                 | None \<Rightarrow> if is_optional then Ok None else Err (MissingField ty token)) (\<lambda>minimum.
            Ok (allowed, causal @ [\<lparr>ca_field = token, ca_minimum = minimum\<rparr>], linearization))
      | Linearizable key_by \<Rightarrow>
          bindR (control_key ty fs scope key_by) (\<lambda>k.
            Ok (filter (\<lambda>s. s = Authority) allowed, causal, Some k)))"

definition build_consistency_plan ::
  "string \<Rightarrow> (string \<times> Value) list \<Rightarrow> (string \<times> Value) list \<Rightarrow> Behavior \<Rightarrow> PolicyError + ConsistencyPlan" where
  "build_consistency_plan ty fs scope behavior =
     (let c = bh_consistency behavior in
      bindR (control_key_opt ty fs scope (case cp_snapshot c of Request \<Rightarrow> None | Shared key_by \<Rightarrow> Some key_by)) (\<lambda>snapshot_key.
      bindR (foldR (acquire_requirement ty fs scope) (requirements (cp_acquire c))
              (source_set (allow_sources (cp_acquire c)), [], None)) (\<lambda>(allowed, causal, linearization_key).
      bindR (mapR (\<lambda>session. bindR (control_key ty fs scope (se_key_by session)) (\<lambda>k.
               Ok \<lparr>sp_key = k, sp_guarantees = guarantee_set (se_guarantees session)\<rparr>)) (cp_sessions c)) (\<lambda>sessions.
      bindR (control_key_opt ty fs scope
              (case cc_ordering (cp_commit c) of OrderNone \<Rightarrow> None | OrderSerialize key_by \<Rightarrow> Some key_by)) (\<lambda>ordering_key.
        Ok \<lparr>cn_snapshot_key = snapshot_key, cn_allowed_sources = allowed, cn_causal = causal,
            cn_linearization_key = linearization_key, cn_sessions = sessions, cn_commit_ordering_key = ordering_key\<rparr>)))))"

definition build_conflict_plan :: "config_env \<Rightarrow> (string \<times> Value) list \<Rightarrow> Behavior \<Rightarrow> PolicyError + ConflictPlan" where
  "build_conflict_plan C fs behavior =
     (let policy = bh_conflict behavior in
      bindR (case map_of fs (strategy_from policy) of
               None \<Rightarrow> Ok (default_strategy policy)
             | Some v \<Rightarrow> ok_or (strategy_from_value C v) (InvalidField (strategy_from policy))) (\<lambda>strategy.
        Ok \<lparr>cpl_strategy = strategy, cpl_base_versions_field = cf_base_versions policy,
            cpl_base_versions = map_of fs (cf_base_versions policy), cpl_merge = cf_merge policy,
            cpl_otherwise = cf_otherwise policy\<rparr>))"

definition select_fields :: "config_env \<Rightarrow> BackendConfig \<Rightarrow> Value \<Rightarrow> PolicyError + (string \<times> Value) list" where
  "select_fields C cfg meta =
     bindR (mapR (\<lambda>(name, selector, v).
              if validate_value C selector v then Ok (name, v) else Err (InvalidField name))
            (List.map_filter (\<lambda>(name, selector). map_option (\<lambda>v. (name, selector, v)) (select_field C selector meta))
              (meta_fields cfg))) (\<lambda>kvs.
       Ok (btree_collect kvs))"

definition rule_matches :: "(string \<times> Value) list \<Rightarrow> PolicyRule \<Rightarrow> bool" where
  "rule_matches fs rule \<longleftrightarrow> list_all (\<lambda>f. map_of fs f \<noteq> None) (all_present (pr_when rule))"

definition select_behavior :: "EntityPolicy \<Rightarrow> (string \<times> Value) list \<Rightarrow> string option \<times> Behavior" where
  "select_behavior policy fs =
     (case find (rule_matches fs) (ep_rules policy) of
        None \<Rightarrow> (None, ep_fallback policy)
      | Some rule \<Rightarrow> (Some (pr_name rule), pr_behavior rule))"

definition select_policy :: "config_env \<Rightarrow> BackendConfig \<Rightarrow> string \<Rightarrow> Value \<Rightarrow> PolicyError + PolicySelection" where
  "select_policy C cfg ty meta =
     bindR (ok_or (map_of (entity_types cfg) ty) (UnknownEntityType ty)) (\<lambda>policy.
     bindR (select_fields C cfg meta) (\<lambda>fs.
     let (rule, behavior) = select_behavior policy fs in
     bindR (select_key ty fs (scope_by (entity_identity cfg))) (\<lambda>scope.
     bindR (build_consistency_plan ty fs scope behavior) (\<lambda>consistency.
     bindR (build_conflict_plan C fs behavior) (\<lambda>conflict.
     bindR (control_key_opt ty fs scope
              (case bh_idempotency behavior of
                 IdempotencyDisabled \<Rightarrow> None
               | Keyed key_by \<Rightarrow> if list_all (\<lambda>f. map_of fs f \<noteq> None) key_by then Some key_by else None)) (\<lambda>idempotency_key.
     bindR (control_key_opt ty fs scope
              (case bh_publication behavior of Immediate \<Rightarrow> None | Batch key_by _ _ _ \<Rightarrow> Some key_by)) (\<lambda>publication_key.
       Ok \<lparr>se_rule = rule, se_fields = fs, se_scope = scope, se_consistency = consistency, se_conflict = conflict,
           se_idempotency_key = idempotency_key, se_publication_key = publication_key, se_behavior = behavior\<rparr>)))))))"

definition select_scope :: "config_env \<Rightarrow> BackendConfig \<Rightarrow> Value \<Rightarrow> PolicyError + (string \<times> Value) list" where
  "select_scope C cfg meta =
     bindR (select_fields C cfg meta) (\<lambda>fs.
       select_key ''change subscription'' fs (scope_by (entity_identity cfg)))"

section \<open>Keys\<close>

lemma mapR_key:
  "mapR (\<lambda>name. bindR (ok_or (map_of fs name) (e name)) (\<lambda>v. Ok (name, v))) names = Inr kvs \<longleftrightarrow>
     (\<forall>n \<in> set names. map_of fs n \<noteq> None) \<and> kvs = map (\<lambda>n. (n, the (map_of fs n))) names"
  by (induction names arbitrary: kvs) (auto simp: bindR_eq_Inr)

lemma mapR_error: "mapR f xs = Inl e \<Longrightarrow> \<exists>x \<in> set xs. f x = Inl e"
  by (induction xs) (auto simp: bindR_eq_Inl)

lemma mapR_member: "mapR f xs = Inr ys \<Longrightarrow> y \<in> set ys \<Longrightarrow> \<exists>x \<in> set xs. f x = Inr y"
  by (simp add: mapR_eq_Inr list_all2_conv_all_nth) (metis in_set_conv_nth)

lemma mapR_total: "mapR f xs = Inr ys \<Longrightarrow> x \<in> set xs \<Longrightarrow> \<exists>y. f x = Inr y"
  by (simp add: mapR_eq_Inr list_all2_conv_all_nth) (metis in_set_conv_nth)

lemma map_of_key: "map_of (map (\<lambda>n. (n, the (map_of fs n))) names) n = (if n \<in> set names then Some (the (map_of fs n)) else None)"
  by (induction names) auto

lemma select_key_Ok:
  assumes "select_key ty fs names = Inr key"
  shows "btree_wf key" "map_of key = map_of fs |` set names" "set names \<subseteq> dom (map_of fs)"
proof -
  from assms have names: "\<forall>n \<in> set names. map_of fs n \<noteq> None"
    and key: "key = btree_collect (map (\<lambda>n. (n, the (map_of fs n))) names)"
    by (auto simp: select_key_def bindR_eq_Inr mapR_key)
  show "btree_wf key" "set names \<subseteq> dom (map_of fs)" using key names by auto
  have "map_of key n = (map_of fs |` set names) n" for n
    using names map_of_key[of fs "rev names" n]
    by (auto simp: key map_of_btree_collect rev_map restrict_map_def)
  then show "map_of key = map_of fs |` set names" by blast
qed

lemma select_key_Err: "select_key ty fs names = Inl e \<Longrightarrow> \<exists>n \<in> set names. map_of fs n = None \<and> e = MissingField ty n"
  by (auto simp: select_key_def bindR_eq_Inl dest!: mapR_error)

text \<open>A control key carries the whole scope and the fields it was asked for.\<close>

definition key_of :: "(string \<times> Value) list \<Rightarrow> (string \<times> Value) list \<Rightarrow> ControlKey \<Rightarrow> bool" where
  "key_of fs scope k \<longleftrightarrow> ck_scope k = scope \<and> btree_wf (ck_fields k)
     \<and> (\<exists>names. set names \<subseteq> dom (map_of fs) \<and> map_of (ck_fields k) = map_of fs |` set names)"

lemma control_key_Ok:
  assumes "control_key ty fs scope names = Inr k"
  shows "key_of fs scope k" "map_of (ck_fields k) = map_of fs |` set names" "set names \<subseteq> dom (map_of fs)"
proof -
  from assms obtain key where "select_key ty fs names = Inr key" "k = \<lparr>ck_scope = scope, ck_fields = key\<rparr>"
    by (auto simp: control_key_def bindR_eq_Inr)
  with select_key_Ok[of ty fs names key] show "key_of fs scope k" "map_of (ck_fields k) = map_of fs |` set names"
    "set names \<subseteq> dom (map_of fs)" by (auto simp: key_of_def)
qed

lemma control_key_Err: "control_key ty fs scope names = Inl e \<Longrightarrow> \<exists>n \<in> set names. map_of fs n = None \<and> e = MissingField ty n"
  by (auto simp: control_key_def bindR_eq_Inl dest: select_key_Err)

lemma control_key_opt_Ok:
  assumes "control_key_opt ty fs scope names = Inr k" shows "\<forall>x \<in> set_option k. key_of fs scope x"
  using assms control_key_Ok(1) by (cases names) (auto simp: control_key_opt_def bindR_eq_Inr)

lemma control_key_opt_Err:
  assumes "control_key_opt ty fs scope names = Inl e"
  shows "\<exists>ns n. names = Some ns \<and> n \<in> set ns \<and> map_of fs n = None \<and> e = MissingField ty n"
  using assms by (cases names) (auto simp: control_key_opt_def bindR_eq_Inl dest!: control_key_Err)

definition selection_keys :: "PolicySelection \<Rightarrow> ControlKey set" where
  "selection_keys sel =
     set_option (cn_snapshot_key (se_consistency sel)) \<union> set_option (cn_linearization_key (se_consistency sel))
     \<union> set_option (cn_commit_ordering_key (se_consistency sel)) \<union> sp_key ` set (cn_sessions (se_consistency sel))
     \<union> set_option (se_idempotency_key sel) \<union> set_option (se_publication_key sel)"

lemma source_set_set [simp]: "set (source_set xs) = set xs"
proof (rule set_eqI)
  show "x \<in> set (source_set xs) \<longleftrightarrow> x \<in> set xs" for x by (cases x) (simp_all add: source_set_def)
qed

lemma acquire_requirements_Ok:
  assumes "foldR (acquire_requirement ty fs scope) reqs (source_set sources, [], None) = Inr (allowed, causal, lin)"
  shows "set allowed \<subseteq> set sources" "Authority \<in> set sources \<Longrightarrow> Authority \<in> set allowed"
    "\<forall>k \<in> set_option lin. key_of fs scope k \<and> set allowed \<subseteq> {Authority}"
    "lin = None \<Longrightarrow> allowed = source_set sources"
proof -
  let ?P = "\<lambda>(allowed, causal :: CausalConsistencyPlan list, lin).
    set allowed \<subseteq> set sources \<and> (Authority \<in> set sources \<longrightarrow> Authority \<in> set allowed)
    \<and> (\<forall>k \<in> set_option lin. key_of fs scope k \<and> set allowed \<subseteq> {Authority})
    \<and> (lin = None \<longrightarrow> allowed = source_set sources)"
  have "?P (allowed, causal, lin)" using assms
  proof (rule foldR_invariant[where P = ?P])
    fix r s s' assume "?P s" "acquire_requirement ty fs scope r s = Inr s'"
    then show "?P s'"
      by (cases r; cases s)
        (auto simp: acquire_requirement_def bindR_eq_Inr split: prod.splits option.splits if_splits
          dest: control_key_Ok(1))
  qed simp
  then show "set allowed \<subseteq> set sources" "Authority \<in> set sources \<Longrightarrow> Authority \<in> set allowed"
    "\<forall>k \<in> set_option lin. key_of fs scope k \<and> set allowed \<subseteq> {Authority}"
    "lin = None \<Longrightarrow> allowed = source_set sources" by auto
qed

lemma build_consistency_plan_Ok:
  assumes "build_consistency_plan ty fs scope b = Inr p"
  shows "\<forall>k \<in> set_option (cn_snapshot_key p) \<union> set_option (cn_linearization_key p)
      \<union> set_option (cn_commit_ordering_key p) \<union> sp_key ` set (cn_sessions p). key_of fs scope k"
    and "cn_linearization_key p \<noteq> None \<Longrightarrow> set (cn_allowed_sources p) \<subseteq> {Authority}"
    and "set (cn_allowed_sources p) \<subseteq> set (allow_sources (cp_acquire (bh_consistency b)))"
    and "consistency_wf (bh_consistency b) pub metas names \<Longrightarrow> cn_allowed_sources p \<noteq> []"
proof -
  let ?c = "bh_consistency b"
  from assms obtain sk allowed causal lin sessions ok where
    "control_key_opt ty fs scope (case cp_snapshot ?c of Request \<Rightarrow> None | Shared key_by \<Rightarrow> Some key_by) = Inr sk" and
    A: "foldR (acquire_requirement ty fs scope) (requirements (cp_acquire ?c)) (source_set (allow_sources (cp_acquire ?c)), [], None)
      = Inr (allowed, causal, lin)" and
    S: "mapR (\<lambda>session. bindR (control_key ty fs scope (se_key_by session)) (\<lambda>k.
               Ok \<lparr>sp_key = k, sp_guarantees = guarantee_set (se_guarantees session)\<rparr>)) (cp_sessions ?c) = Inr sessions" and
    "control_key_opt ty fs scope (case cc_ordering (cp_commit ?c) of OrderNone \<Rightarrow> None | OrderSerialize key_by \<Rightarrow> Some key_by) = Inr ok" and
    p: "p = \<lparr>cn_snapshot_key = sk, cn_allowed_sources = allowed, cn_causal = causal, cn_linearization_key = lin,
      cn_sessions = sessions, cn_commit_ordering_key = ok\<rparr>"
    by (auto simp: build_consistency_plan_def Let_def bindR_eq_Inr)
  then have "\<forall>k \<in> set_option sk \<union> set_option ok. key_of fs scope k" by (auto dest: control_key_opt_Ok)
  moreover have "\<forall>s \<in> set sessions. key_of fs scope (sp_key s)"
  proof
    fix s assume "s \<in> set sessions"
    from mapR_member[OF S this] obtain x :: SessionPolicy where "bindR (control_key ty fs scope (se_key_by x)) (\<lambda>k.
        Ok \<lparr>sp_key = k, sp_guarantees = guarantee_set (se_guarantees x)\<rparr>) = Inr s" by blast
    then have "control_key ty fs scope (se_key_by x) = Inr (sp_key s)" by (auto simp: bindR_eq_Inr)
    with control_key_Ok(1) show "key_of fs scope (sp_key s)" by blast
  qed
  ultimately show "\<forall>k \<in> set_option (cn_snapshot_key p) \<union> set_option (cn_linearization_key p)
      \<union> set_option (cn_commit_ordering_key p) \<union> sp_key ` set (cn_sessions p). key_of fs scope k"
    using acquire_requirements_Ok(3)[OF A] by (auto simp: p)
  show "cn_linearization_key p \<noteq> None \<Longrightarrow> set (cn_allowed_sources p) \<subseteq> {Authority}"
    using acquire_requirements_Ok(3)[OF A] by (auto simp: p)
  show "set (cn_allowed_sources p) \<subseteq> set (allow_sources (cp_acquire ?c))"
    using acquire_requirements_Ok(1)[OF A] by (simp add: p)
  show "cn_allowed_sources p \<noteq> []" if wf: "consistency_wf ?c pub metas names"
  proof (cases lin)
    case None
    with acquire_requirements_Ok(4)[OF A] have "set allowed = set (allow_sources (cp_acquire ?c))" by simp
    with wf show ?thesis by (auto simp: p consistency_wf_def)
  next
    case (Some k)
    have "lin = None" if "linearizations (requirements (cp_acquire ?c)) = []"
    proof -
      have causal: "\<forall>r \<in> set (requirements (cp_acquire ?c)). is_causal r" using that by (auto simp: linearizations_def filter_empty_conv)
      have "(\<lambda>(_, _, l). l = None) (allowed, causal, lin)" using A
        by (rule foldR_invariant)
          (use causal in \<open>auto simp: acquire_requirement_def is_causal_def bindR_eq_Inr split: AcquireRequirement.splits prod.splits\<close>)
      then show ?thesis by simp
    qed
    with Some wf have "Authority \<in> set (allow_sources (cp_acquire ?c))" by (auto simp: consistency_wf_def)
    with acquire_requirements_Ok(2)[OF A] show ?thesis by (auto simp: p)
  qed
qed

section \<open>Fields\<close>

lemma select_fields_Ok:
  assumes "select_fields C cfg meta = Inr fs" and "btree_wf (meta_fields cfg)"
  shows "btree_wf fs"
    and "map_of fs n = Some v \<longleftrightarrow> (\<exists>f. map_of (meta_fields cfg) n = Some f \<and> select_field C f meta = Some v \<and> validate_value C f v)"
    and "map_of fs n = None \<longleftrightarrow> (\<forall>f. map_of (meta_fields cfg) n = Some f \<longrightarrow> select_field C f meta = None)"
proof -
  let ?sel = "\<lambda>(name, f). map_option (\<lambda>v. (name, f, v)) (select_field C f meta)"
  let ?val = "\<lambda>(name, f, v). if validate_value C f v then Ok (name, v) else Err (InvalidField name)"
  from assms(1) obtain kvs where kvs: "mapR ?val (List.map_filter ?sel (meta_fields cfg)) = Inr kvs" "fs = btree_collect kvs"
    by (auto simp: select_fields_def bindR_eq_Inr)
  show "btree_wf fs" using kvs(2) by simp
  have valid: "validate_value C f v" if "(name, f) \<in> set (meta_fields cfg)" "select_field C f meta = Some v" for name f v
  proof -
    have "(name, f, v) \<in> set (List.map_filter ?sel (meta_fields cfg))" using that by (force simp: List.map_filter_def)
    from mapR_total[OF kvs(1) this] show ?thesis by (auto split: if_splits)
  qed
  have "kvs = List.map_filter (\<lambda>(name, f). map_option (\<lambda>v. (name, v)) (select_field C f meta)) ms"
    if "mapR ?val (List.map_filter ?sel ms) = Inr kvs" for ms kvs
    using that
  proof (induction ms arbitrary: kvs)
    case (Cons m ms)
    then show ?case
      by (cases m; cases "select_field C (snd m) meta") (auto simp: bindR_eq_Inr split: if_splits)
  qed (simp add: List.map_filter_def)
  from this[OF kvs(1)] have k: "kvs = List.map_filter (\<lambda>(name, f). map_option (\<lambda>v. (name, v)) (select_field C f meta)) (meta_fields cfg)" .
  have d: "distinct (map fst (meta_fields cfg))" by (rule btree_wf_distinct[OF assms(2)])
  have "map_of (List.map_filter (\<lambda>(name, f). map_option (\<lambda>v. (name, v)) (select_field C f meta)) ms) n =
      Option.bind (map_of ms n) (\<lambda>f. select_field C f meta)
    \<and> distinct (map fst (List.map_filter (\<lambda>(name, f). map_option (\<lambda>v. (name, v)) (select_field C f meta)) ms))
    \<and> fst ` set (List.map_filter (\<lambda>(name, f). map_option (\<lambda>v. (name, v)) (select_field C f meta)) ms) \<subseteq> fst ` set ms"
    if "distinct (map fst ms)" for ms n
    using that
  proof (induction ms)
    case (Cons m ms)
    obtain a f where m: "m = (a, f)" by (cases m)
    have "map_of ms a = None" using Cons.prems by (simp add: m map_of_eq_None_iff)
    with Cons show ?case by (cases "select_field C f meta") (auto simp: m)
  qed (simp add: List.map_filter_def)
  from this[OF d] have fs: "map_of fs n = Option.bind (map_of (meta_fields cfg) n) (\<lambda>f. select_field C f meta)" for n
    unfolding kvs(2) k by (simp add: btree_collect_distinct)
  show "map_of fs n = Some v \<longleftrightarrow> (\<exists>f. map_of (meta_fields cfg) n = Some f \<and> select_field C f meta = Some v \<and> validate_value C f v)"
    unfolding fs using valid map_of_SomeD by (fastforce simp: bind_eq_Some_conv)
  show "map_of fs n = None \<longleftrightarrow> (\<forall>f. map_of (meta_fields cfg) n = Some f \<longrightarrow> select_field C f meta = None)"
    unfolding fs by (cases "map_of (meta_fields cfg) n") auto
qed

lemma select_fields_Err:
  assumes "select_fields C cfg meta = Inl e"
  shows "\<exists>n f v. (n, f) \<in> set (meta_fields cfg) \<and> select_field C f meta = Some v \<and> \<not> validate_value C f v \<and> e = InvalidField n"
proof -
  from assms obtain n f v where "(n, f, v) \<in> set (List.map_filter (\<lambda>(name, f). map_option (\<lambda>v. (name, f, v)) (select_field C f meta)) (meta_fields cfg))"
    "\<not> validate_value C f v" "e = InvalidField n"
    by (auto simp: select_fields_def bindR_eq_Inl dest!: mapR_error split: if_splits)
  then have "(n, f) \<in> set (meta_fields cfg) \<and> select_field C f meta = Some v \<and> \<not> validate_value C f v \<and> e = InvalidField n"
    by (auto simp: List.map_filter_def)
  then show ?thesis by blast
qed

lemma select_policy_Ok:
  assumes "select_policy C cfg ty meta = Inr sel"
  obtains policy where "map_of (entity_types cfg) ty = Some policy"
    "select_fields C cfg meta = Inr (se_fields sel)"
    "select_behavior policy (se_fields sel) = (se_rule sel, se_behavior sel)"
    "select_key ty (se_fields sel) (scope_by (entity_identity cfg)) = Inr (se_scope sel)"
    "build_consistency_plan ty (se_fields sel) (se_scope sel) (se_behavior sel) = Inr (se_consistency sel)"
    "build_conflict_plan C (se_fields sel) (se_behavior sel) = Inr (se_conflict sel)"
    "control_key_opt ty (se_fields sel) (se_scope sel)
              (case bh_idempotency (se_behavior sel) of
                 IdempotencyDisabled \<Rightarrow> None
               | Keyed key_by \<Rightarrow> if list_all (\<lambda>f. map_of (se_fields sel) f \<noteq> None) key_by then Some key_by else None) = Inr (se_idempotency_key sel)"
    "control_key_opt ty (se_fields sel) (se_scope sel)
              (case bh_publication (se_behavior sel) of Immediate \<Rightarrow> None | Batch key_by _ _ _ \<Rightarrow> Some key_by) = Inr (se_publication_key sel)"
proof -
  from assms obtain policy fs where "map_of (entity_types cfg) ty = Some policy" "select_fields C cfg meta = Inr fs"
    by (auto simp: select_policy_def bindR_eq_Inr)
  moreover obtain rule b where "select_behavior policy fs = (rule, b)" by (cases "select_behavior policy fs")
  ultimately obtain scope consistency conflict ik pk where
    "select_key ty fs (scope_by (entity_identity cfg)) = Inr scope"
    "build_consistency_plan ty fs scope b = Inr consistency" "build_conflict_plan C fs b = Inr conflict"
    "control_key_opt ty fs scope (case bh_idempotency b of IdempotencyDisabled \<Rightarrow> None
       | Keyed key_by \<Rightarrow> if list_all (\<lambda>f. map_of fs f \<noteq> None) key_by then Some key_by else None) = Inr ik"
    "control_key_opt ty fs scope (case bh_publication b of Immediate \<Rightarrow> None | Batch key_by _ _ _ \<Rightarrow> Some key_by) = Inr pk"
    and sel: "sel = \<lparr>se_rule = rule, se_fields = fs, se_scope = scope, se_consistency = consistency, se_conflict = conflict,
       se_idempotency_key = ik, se_publication_key = pk, se_behavior = b\<rparr>"
    using assms by (auto simp: select_policy_def bindR_eq_Inr)
  with \<open>map_of (entity_types cfg) ty = Some policy\<close> \<open>select_fields C cfg meta = Inr fs\<close> \<open>select_behavior policy fs = (rule, b)\<close>
  show ?thesis unfolding sel by (intro that[of policy, unfolded sel PolicySelection.simps])
qed

lemma selected_behavior_wf:
  assumes "config_wf C cfg" "map_of (entity_types cfg) ty = Some policy" "select_behavior policy fs = (rule, b)"
  shows "behavior_wf b (meta_fields cfg) (scope_by (entity_identity cfg))"
proof -
  from assms(1) map_of_SomeD[OF assms(2)]
  have "behavior_wf (ep_fallback policy) (meta_fields cfg) (scope_by (entity_identity cfg))"
    "\<forall>r \<in> set (ep_rules policy). behavior_wf (pr_behavior r) (meta_fields cfg) (scope_by (entity_identity cfg))"
    unfolding config_wf_def by auto
  with assms(3) show ?thesis
    by (auto simp: select_behavior_def find_Some_iff split: option.splits)
qed

section \<open>What a selection is\<close>

text \<open>The behaviour of the first rule all of whose fields are present, or the fallback.\<close>

definition chosen :: "EntityPolicy \<Rightarrow> (string \<times> Value) list \<Rightarrow> string option \<Rightarrow> Behavior \<Rightarrow> bool" where
  "chosen policy fs rule b \<longleftrightarrow>
     (\<exists>i < length (ep_rules policy). rule_matches fs (ep_rules policy ! i) \<and> (\<forall>j < i. \<not> rule_matches fs (ep_rules policy ! j))
        \<and> rule = Some (pr_name (ep_rules policy ! i)) \<and> b = pr_behavior (ep_rules policy ! i))
     \<or> ((\<forall>r \<in> set (ep_rules policy). \<not> rule_matches fs r) \<and> rule = None \<and> b = ep_fallback policy)"

lemma select_behavior_chosen: "select_behavior policy fs = (rule, b) \<Longrightarrow> chosen policy fs rule b"
  by (auto simp: select_behavior_def chosen_def find_None_iff find_Some_iff split: option.splits)

text \<open>
  C28. What a selection is. The fields are exactly the configured fields the metadata carries, each
  accepted by its schema; the behaviour is that of the first rule all of whose fields are present,
  or the fallback; the scope is the restriction of the fields to the configured scope; every
  control key of the selection (snapshot, linearization, ordering, session, idempotency and
  publication keys) carries the whole scope, so keys of different scopes are different; and a
  selection with a linearization key allows the authority only.
\<close>
theorem selection_is_scoped:
  assumes "select_policy C cfg ty meta = Inr sel" and "btree_wf (meta_fields cfg)"
  shows "(\<forall>n v. map_of (se_fields sel) n = Some v \<longleftrightarrow>
            (\<exists>f. map_of (meta_fields cfg) n = Some f \<and> select_field C f meta = Some v \<and> validate_value C f v))
    \<and> (\<exists>policy. map_of (entity_types cfg) ty = Some policy \<and> chosen policy (se_fields sel) (se_rule sel) (se_behavior sel))
    \<and> map_of (se_scope sel) = map_of (se_fields sel) |` set (scope_by (entity_identity cfg))
    \<and> (\<forall>k \<in> selection_keys sel. key_of (se_fields sel) (se_scope sel) k)
    \<and> (cn_linearization_key (se_consistency sel) \<noteq> None \<longrightarrow> set (cn_allowed_sources (se_consistency sel)) \<subseteq> {Authority})"
proof -
  obtain policy where P: "map_of (entity_types cfg) ty = Some policy"
    "select_fields C cfg meta = Inr (se_fields sel)"
    "select_behavior policy (se_fields sel) = (se_rule sel, se_behavior sel)"
    "select_key ty (se_fields sel) (scope_by (entity_identity cfg)) = Inr (se_scope sel)"
    "build_consistency_plan ty (se_fields sel) (se_scope sel) (se_behavior sel) = Inr (se_consistency sel)"
    and K: "\<forall>k \<in> set_option (se_idempotency_key sel). key_of (se_fields sel) (se_scope sel) k"
      "\<forall>k \<in> set_option (se_publication_key sel). key_of (se_fields sel) (se_scope sel) k"
    by (rule select_policy_Ok[OF assms(1)]) (rule that, assumption+, (erule control_key_opt_Ok)+)
  have "\<forall>k \<in> selection_keys sel. key_of (se_fields sel) (se_scope sel) k"
    using K build_consistency_plan_Ok(1)[OF P(5)] unfolding selection_keys_def by blast
  moreover have "\<exists>policy. map_of (entity_types cfg) ty = Some policy \<and> chosen policy (se_fields sel) (se_rule sel) (se_behavior sel)"
    using P(1) select_behavior_chosen[OF P(3)] by blast
  ultimately show ?thesis
    using select_fields_Ok(2)[OF P(2) assms(2)] select_key_Ok(2)[OF P(4)] build_consistency_plan_Ok(2)[OF P(5)]
    by (intro conjI allI impI)
qed

section \<open>How a selection fails\<close>

lemma acquire_requirements_Err:
  "foldR (acquire_requirement ty fs scope) reqs acc = Inl e \<Longrightarrow>
   \<exists>n. (\<exists>r \<in> set reqs. n \<in> (case r of CausalAfter token _ \<Rightarrow> {token} | Linearizable key \<Rightarrow> set key))
       \<and> map_of fs n = None \<and> e = MissingField ty n"
proof (induction reqs arbitrary: acc)
  case (Cons r reqs)
  from Cons.prems consider "acquire_requirement ty fs scope r acc = Inl e"
    | acc' where "foldR (acquire_requirement ty fs scope) reqs acc' = Inl e" by (auto simp: bindR_eq_Inl)
  then show ?case
  proof cases
    case 1
    then have "\<exists>n. n \<in> (case r of CausalAfter token _ \<Rightarrow> {token} | Linearizable key \<Rightarrow> set key) \<and> map_of fs n = None \<and> e = MissingField ty n"
      by (cases r; cases acc)
        (auto simp: acquire_requirement_def bindR_eq_Inl split: option.splits if_splits dest!: control_key_Err)
    then show ?thesis by auto
  next
    case 2
    from Cons.IH[OF this] show ?thesis by auto
  qed
qed simp

lemma build_consistency_plan_Err:
  assumes "build_consistency_plan ty fs scope b = Inl e"
    and wf: "consistency_wf (bh_consistency b) (bh_publication b) metas names"
  shows "\<exists>n \<in> fst ` set metas. map_of fs n = None \<and> e = MissingField ty n"
proof -
  let ?c = "bh_consistency b"
  from assms(1) consider
    "control_key_opt ty fs scope (case cp_snapshot ?c of Request \<Rightarrow> None | Shared key_by \<Rightarrow> Some key_by) = Inl e"
    | "foldR (acquire_requirement ty fs scope) (requirements (cp_acquire ?c)) (source_set (allow_sources (cp_acquire ?c)), [], None) = Inl e"
    | s where "s \<in> set (cp_sessions ?c)" "control_key ty fs scope (se_key_by s) = Inl e"
    | "control_key_opt ty fs scope (case cc_ordering (cp_commit ?c) of OrderNone \<Rightarrow> None | OrderSerialize key_by \<Rightarrow> Some key_by) = Inl e"
    by (auto simp: build_consistency_plan_def Let_def bindR_eq_Inl split: prod.splits dest!: mapR_error)
  then show ?thesis
  proof cases
    case 1
    then obtain key n where "cp_snapshot ?c = Shared key" "n \<in> set key" "map_of fs n = None" "e = MissingField ty n"
      by (auto dest!: control_key_opt_Err split: SnapshotPolicy.splits)
    with wf show ?thesis by (auto simp: consistency_wf_def snapshot_wf_def key_wf_def aliases_wf_def)
  next
    case 2
    then obtain n r where nr: "r \<in> set (requirements (cp_acquire ?c))"
      "n \<in> (case r of CausalAfter token _ \<Rightarrow> {token} | Linearizable key \<Rightarrow> set key)" "map_of fs n = None" "e = MissingField ty n"
      using acquire_requirements_Err by blast
    moreover have "requirement_wf metas names r" using wf nr(1) by (simp add: consistency_wf_def)
    ultimately have "n \<in> fst ` set metas" by (auto simp: requirement_wf_def key_wf_def aliases_wf_def split: AcquireRequirement.splits)
    with nr(3,4) show ?thesis by blast
  next
    case 3
    from control_key_Err[OF 3(2)] obtain n where "n \<in> set (se_key_by s)" "map_of fs n = None" "e = MissingField ty n" by blast
    moreover have "session_wf metas names s" using wf 3(1) by (simp add: consistency_wf_def)
    ultimately show ?thesis by (auto simp: session_wf_def key_wf_def aliases_wf_def)
  next
    case 4
    then obtain key n where "cc_ordering (cp_commit ?c) = OrderSerialize key" "n \<in> set key" "map_of fs n = None" "e = MissingField ty n"
      by (auto dest!: control_key_opt_Err split: CommitOrderingPolicy.splits)
    with wf show ?thesis by (auto simp: consistency_wf_def key_wf_def aliases_wf_def)
  qed
qed

text \<open>Once the fields are selected, a selection fails for a field that is absent or names no strategy.\<close>

lemma select_policy_Err:
  assumes wf: "config_wf C cfg" and Some: "map_of (entity_types cfg) ty = Some policy" and Inr: "select_fields C cfg meta = Inr fs"
    and err: "select_policy C cfg ty meta = Inl e"
  shows "(\<exists>n \<in> fst ` set (meta_fields cfg). map_of fs n = None \<and> e = MissingField ty n)
    \<or> (\<exists>n v. map_of fs n = Some v \<and> strategy_from_value C v = None \<and> e = InvalidField n)"
proof -
  obtain rule b where b: "select_behavior policy fs = (rule, b)" by (cases "select_behavior policy fs")
  have bwf: "behavior_wf b (meta_fields cfg) (scope_by (entity_identity cfg))" by (rule selected_behavior_wf[OF wf Some b])
  from Some Inr b err consider
      "select_key ty fs (scope_by (entity_identity cfg)) = Inl e"
    | scope where "build_consistency_plan ty fs scope b = Inl e"
    | "build_conflict_plan C fs b = Inl e"
    | scope where "control_key_opt ty fs scope (case bh_idempotency b of IdempotencyDisabled \<Rightarrow> None
         | Keyed key_by \<Rightarrow> if list_all (\<lambda>f. map_of fs f \<noteq> None) key_by then Some key_by else None) = Inl e"
    | scope where "control_key_opt ty fs scope (case bh_publication b of Immediate \<Rightarrow> None | Batch key_by _ _ _ \<Rightarrow> Some key_by) = Inl e"
    by (auto simp: select_policy_def bindR_eq_Inl)
  then show ?thesis
  proof cases
    case 1
    have "set (scope_by (entity_identity cfg)) \<subseteq> fst ` set (meta_fields cfg)"
      using wf by (simp add: config_wf_def aliases_wf_def)
    with select_key_Err[OF 1] show ?thesis by blast
  next
    case 2
    from bwf have "consistency_wf (bh_consistency b) (bh_publication b) (meta_fields cfg) (scope_by (entity_identity cfg))"
      by (simp add: behavior_wf_def)
    from build_consistency_plan_Err[OF 2 this] show ?thesis by blast
  next
    case 3
    then show ?thesis by (auto simp: build_conflict_plan_def Let_def bindR_eq_Inl split: option.splits)
  next
    case 4
    then show ?thesis
      by (auto dest!: control_key_opt_Err simp: list_all_iff split: IdempotencyPolicy.splits if_splits)
  next
    case 5
    then obtain key close ttl x n where n: "bh_publication b = Batch key close ttl x" "n \<in> set key" "map_of fs n = None"
      "e = MissingField ty n" by (auto dest!: control_key_opt_Err split: PublicationPolicy.splits)
    with bwf have "n \<in> fst ` set (meta_fields cfg)"
      by (cases close) (auto simp: behavior_wf_def publication_wf_def key_wf_def aliases_wf_def)
    with n(3,4) show ?thesis by blast
  qed
qed

text \<open>
  C29. With a validated configuration a selection fails for the request's reasons only: the entity
  type is not configured; or a configured field is present with a value its schema refuses, or with
  a value that is no conflict strategy; or a configured field the policy needs is absent from the
  metadata.
\<close>
theorem selection_errors:
  assumes "validate_config C cfg = Inr ()" and "btree_wf (meta_fields cfg)" and "select_policy C cfg ty meta = Inl e"
  shows "(e = UnknownEntityType ty \<and> map_of (entity_types cfg) ty = None)
    \<or> (\<exists>n f v. e = InvalidField n \<and> map_of (meta_fields cfg) n = Some f \<and> select_field C f meta = Some v
         \<and> (\<not> validate_value C f v \<or> strategy_from_value C v = None))
    \<or> (\<exists>n f. e = MissingField ty n \<and> map_of (meta_fields cfg) n = Some f \<and> select_field C f meta = None)"
proof -
  note wf = assms(1)[unfolded validate_config_Ok]
  have d: "(n, f) \<in> set (meta_fields cfg) \<longleftrightarrow> map_of (meta_fields cfg) n = Some f" for n f
    using btree_wf_distinct[OF assms(2)] by simp
  show ?thesis
  proof (cases "map_of (entity_types cfg) ty")
    case None
    with assms(3) show ?thesis by (simp add: select_policy_def)
  next
    case (Some policy)
    show ?thesis
    proof (cases "select_fields C cfg meta")
      case (Inl e')
      with Some assms(3) have "e' = e" by (simp add: select_policy_def)
      with select_fields_Err[OF Inl] d show ?thesis by blast
    next
      case (Inr fs)
      note absent = select_fields_Ok(3)[OF Inr assms(2)] and present = select_fields_Ok(2)[OF Inr assms(2)]
      from select_policy_Err[OF wf Some Inr assms(3)] show ?thesis
      proof (elim disjE bexE exE conjE)
        fix n assume "n \<in> fst ` set (meta_fields cfg)" "map_of fs n = None" "e = MissingField ty n"
        with absent[of n] d show ?thesis by force
      qed (use present in blast)
    qed
  qed
qed

section \<open>Example\<close>

definition sample_config_env :: config_env where
  "sample_config_env =
     \<lparr>ce_json = \<lparr>from_str = (\<lambda>_. None), to_string = (\<lambda>_. []),
        pointer = (\<lambda>v p. case v of Object m \<Rightarrow> map_of m (tl p) | _ \<Rightarrow> None), set_pointer = (\<lambda>v _ _. v), nearest_f64 = of_int\<rparr>,
      meta_valid = (\<lambda>_. True), builds = (\<lambda>_. True), accepts = (\<lambda>_ v. v \<noteq> Null), config_schema_accepts = (\<lambda>_. True),
      config_from_value = (\<lambda>_. None), strategy_from_value = (\<lambda>v. if v = String ''reject'' then Some Reject else None)\<rparr>"

definition sample_field :: "string \<Rightarrow> string \<times> MetaField" where
  "sample_field n = (n, \<lparr>mf_pointer = CHR ''/'' # n, mf_schema = Bool True\<rparr>)"

definition sample_behavior :: Behavior where
  "sample_behavior =
     \<lparr>bh_consistency = \<lparr>cp_snapshot = Request,
        cp_acquire = \<lparr>allow_sources = [Authority, Replica], requirements = [Linearizable [''channel'']]\<rparr>,
        cp_sessions = [\<lparr>se_key_by = [''channel''], se_guarantees = [ReadYourWrites]\<rparr>], cp_commit = \<lparr>cc_ordering = OrderNone\<rparr>\<rparr>,
      bh_idempotency = Keyed [''request''],
      bh_conflict = \<lparr>default_strategy = Mvcc, strategy_from = ''strategy'', cf_base_versions = ''base'',
        cf_merge = [\<lparr>mr_path = ''/a'', mr_strategy = Automerge, mr_group_by = []\<rparr>, \<lparr>mr_path = ''/ab'', mr_strategy = Automerge, mr_group_by = [''/k'']\<rparr>],
        cf_otherwise = FallbackMvcc\<rparr>,
      bh_publication = Immediate\<rparr>"

definition sample_config :: BackendConfig where
  "sample_config =
     \<lparr>schema_uri = [], bc_version = 1, bc_retention = \<lparr>rp_idempotency_seconds = 60, rp_changes_seconds = 60\<rparr>,
      meta_fields = map sample_field [''base'', ''channel'', ''request'', ''strategy'', ''workspace''],
      entity_identity = \<lparr>scope_by = [''workspace'']\<rparr>,
      entity_types = [(''knowledge'', \<lparr>ep_value_schema = Bool True, ep_rules = [], ep_fallback = sample_behavior\<rparr>)]\<rparr>"

definition sample_meta :: Value where
  "sample_meta = Object [(''channel'', String ''c1''), (''request'', String ''r1''), (''workspace'', String ''w1'')]"

lemma sample_config_valid: "validate_config sample_config_env sample_config = Inr ()"
  by code_simp

lemma sample_config_fields: "btree_wf (meta_fields sample_config)"
  by code_simp

theorem selection_is_scoped_witness:
  "case select_policy sample_config_env sample_config ''knowledge'' sample_meta of
     Inl e \<Rightarrow> False
   | Inr sel \<Rightarrow> cn_linearization_key (se_consistency sel) \<noteq> None \<and> set (cn_allowed_sources (se_consistency sel)) \<subseteq> {Authority}"
proof -
  have ok: "\<not> isl (select_policy sample_config_env sample_config ''knowledge'' sample_meta)" by code_simp
  have lin: "cn_linearization_key (se_consistency (projr (select_policy sample_config_env sample_config ''knowledge'' sample_meta))) =
    Some \<lparr>ck_scope = [(''workspace'', String ''w1'')], ck_fields = [(''channel'', String ''c1'')]\<rparr>" by code_simp
  from ok obtain sel where sel: "select_policy sample_config_env sample_config ''knowledge'' sample_meta = Inr sel"
    by (cases "select_policy sample_config_env sample_config ''knowledge'' sample_meta") simp_all
  from selection_is_scoped[OF sel sample_config_fields] lin show ?thesis by (simp add: sel)
qed

theorem selection_errors_witness:
  "\<exists>e. select_policy sample_config_env sample_config ''knowledge'' (Object [(''workspace'', String ''w1'')]) = Inl e
     \<and> (\<exists>n f. e = MissingField ''knowledge'' n \<and> map_of (meta_fields sample_config) n = Some f
          \<and> select_field sample_config_env f (Object [(''workspace'', String ''w1'')]) = None)"
proof -
  have e: "select_policy sample_config_env sample_config ''knowledge'' (Object [(''workspace'', String ''w1'')]) =
    Inl (MissingField ''knowledge'' ''channel'')" by code_simp
  from selection_errors[OF sample_config_valid sample_config_fields e] e show ?thesis by auto
qed

end
