(* ===== verification/Conflict_Resolution.thy ===== *)
theory Conflict_Resolution
  imports Crdt_Values Policy_Selection
begin

text \<open>
  Conflict resolution, \<open>crates/backend/src/conflict.rs\<close>: mergeable documents and the resolution of
  concurrent candidates by a conflict plan. The document algorithms belong to the \<open>automerge\<close> and
  \<open>autosurgeon\<close> crates and enter as the functions of an \<open>automerge_env\<close> over a type of loaded
  documents.
\<close>

record CrdtDocument =
  doc_bytes :: "nat list"

record CrdtChange =
  cg_hash :: string
  cg_parents :: "string list"
  cg_bytes :: "nat list"

record ConflictCandidate =
  cand_value :: Value
  cand_crdt_fields :: "(string \<times> CrdtDocument) list"
  cand_source_version :: "string option"

record ConflictResolution =
  res_variants :: "ConflictCandidate list"

text \<open>\<open>Panicked\<close> stands for the panic of an \<open>expect\<close>.\<close>

datatype ConflictError =
    Rejected
  | EmptyMerge
  | AutomergeError
  | ReconcileError
  | HydrateError
  | StoredChangeError
  | FrontierMismatch
  | Panicked

text \<open>\<open>am_reconcile\<close> writes a document value under the key \<open>value\<close> of the root map, \<open>am_hydrate\<close> reads
  it, \<open>am_random_actor\<close> sets a fresh actor, \<open>am_change_from_bytes\<close> decodes a change with its hash and
  dependencies.\<close>

record 'd automerge_env =
  am_new :: 'd
  am_load :: "nat list \<Rightarrow> 'd option"
  am_save :: "'d \<Rightarrow> nat list"
  am_reconcile :: "CrdtJson \<Rightarrow> 'd \<Rightarrow> 'd option"
  am_hydrate :: "'d \<Rightarrow> CrdtJson option"
  am_random_actor :: "'d \<Rightarrow> 'd"
  am_merge :: "'d \<Rightarrow> 'd \<Rightarrow> 'd option"
  am_get_heads :: "'d \<Rightarrow> string list"
  am_get_changes :: "'d \<Rightarrow> CrdtChange list"
  am_change_from_bytes :: "nat list \<Rightarrow> CrdtChange option"
  am_apply_changes :: "CrdtChange list \<Rightarrow> 'd \<Rightarrow> 'd option"

section \<open>Documents\<close>

definition doc_load :: "'d automerge_env \<Rightarrow> CrdtDocument \<Rightarrow> ConflictError + 'd" where
  "doc_load A doc = ok_or (am_load A (doc_bytes doc)) AutomergeError"

definition doc_save :: "'d automerge_env \<Rightarrow> 'd \<Rightarrow> CrdtDocument" where
  "doc_save A d = \<lparr>doc_bytes = am_save A d\<rparr>"

definition doc_from_json :: "'d automerge_env \<Rightarrow> Value \<Rightarrow> ConflictError + CrdtDocument" where
  "doc_from_json A v =
     bindR (ok_or (am_reconcile A (crdt_from_json v) (am_new A)) ReconcileError) (\<lambda>d. Ok (doc_save A d))"

definition doc_from_bytes :: "'d automerge_env \<Rightarrow> nat list \<Rightarrow> ConflictError + CrdtDocument" where
  "doc_from_bytes A bytes = bindR (ok_or (am_load A bytes) AutomergeError) (\<lambda>_. Ok \<lparr>doc_bytes = bytes\<rparr>)"

definition decode_change :: "'d automerge_env \<Rightarrow> CrdtChange \<Rightarrow> ConflictError + CrdtChange" where
  "decode_change A change =
     bindR (ok_or (am_change_from_bytes A (cg_bytes change)) StoredChangeError) (\<lambda>decoded.
       if cg_hash decoded \<noteq> cg_hash change \<or> sort (cg_parents decoded) \<noteq> sort (cg_parents change)
       then Err StoredChangeError else Ok decoded)"

definition doc_from_changes :: "'d automerge_env \<Rightarrow> CrdtChange list \<Rightarrow> string list \<Rightarrow> ConflictError + CrdtDocument" where
  "doc_from_changes A changes expected_heads =
     bindR (mapR (decode_change A) changes) (\<lambda>decoded.
     bindR (ok_or (am_apply_changes A decoded (am_new A)) AutomergeError) (\<lambda>d.
       if sort (am_get_heads A d) \<noteq> sort expected_heads then Err FrontierMismatch else Ok (doc_save A d)))"

definition doc_change :: "'d automerge_env \<Rightarrow> CrdtDocument \<Rightarrow> Value \<Rightarrow> ConflictError + CrdtDocument" where
  "doc_change A doc v =
     bindR (doc_load A doc) (\<lambda>d.
     bindR (ok_or (am_hydrate A d) HydrateError) (\<lambda>envelope.
     bindR (ok_or (am_reconcile A (crdt_update envelope v) (am_random_actor A d)) ReconcileError) (\<lambda>d.
       Ok (doc_save A d))))"

definition doc_merge :: "'d automerge_env \<Rightarrow> CrdtDocument list \<Rightarrow> ConflictError + CrdtDocument" where
  "doc_merge A docs =
     (case docs of
        [] \<Rightarrow> Err EmptyMerge
      | first # rest \<Rightarrow>
          bindR (doc_load A first) (\<lambda>merged.
          bindR (foldR (\<lambda>doc merged. bindR (doc_load A doc) (\<lambda>other. ok_or (am_merge A merged other) AutomergeError)) rest merged)
            (\<lambda>merged. Ok (doc_save A merged))))"

definition doc_json :: "'d automerge_env \<Rightarrow> CrdtDocument \<Rightarrow> ConflictError + Value" where
  "doc_json A doc =
     bindR (doc_load A doc) (\<lambda>d.
     bindR (ok_or (am_hydrate A d) HydrateError) (\<lambda>envelope. Ok (crdt_into_json envelope)))"

definition doc_heads :: "'d automerge_env \<Rightarrow> CrdtDocument \<Rightarrow> ConflictError + string list" where
  "doc_heads A doc = bindR (doc_load A doc) (\<lambda>d. Ok (am_get_heads A d))"

definition doc_changes :: "'d automerge_env \<Rightarrow> CrdtDocument \<Rightarrow> ConflictError + CrdtChange list" where
  "doc_changes A doc = bindR (doc_load A doc) (\<lambda>d. Ok (am_get_changes A d))"

section \<open>Candidates\<close>

definition reject_if_required :: "ConflictFallback \<Rightarrow> ConflictError + unit" where
  "reject_if_required fallback = (case fallback of FallbackMvcc \<Rightarrow> Ok () | FallbackReject \<Rightarrow> Err Rejected)"

definition group_values :: "json_env \<Rightarrow> Value \<Rightarrow> ConflictMergeRule \<Rightarrow> Value list option" where
  "group_values J v rule = those (map (pointer J v) (mr_group_by rule))"

fun canonical_json :: "json_env \<Rightarrow> Value \<Rightarrow> string" where
  "canonical_json J (Object m) =
     to_string J (Object (btree_collect (map (\<lambda>(k, v). (k, String (canonical_json J v))) m)))"
| "canonical_json J (Array vs) = to_string J (Array (map (\<lambda>v. String (canonical_json J v)) vs))"
| "canonical_json J v = to_string J v"

definition prepare_rule ::
  "json_env \<Rightarrow> 'd automerge_env \<Rightarrow> ConflictPlan \<Rightarrow> Value \<Rightarrow> (string \<times> CrdtDocument) list \<Rightarrow> Value
   \<Rightarrow> ConflictMergeRule \<Rightarrow> (string \<times> CrdtDocument) list \<Rightarrow> ConflictError + (string \<times> CrdtDocument) list" where
  "prepare_rule J A plan base base_documents candidate rule crdt_fields =
     (case (pointer J base (mr_path rule), pointer J candidate (mr_path rule)) of
        (Some base_field, Some candidate_field) \<Rightarrow>
          if group_values J base_field rule \<noteq> group_values J candidate_field rule
          then bindR (reject_if_required (cpl_otherwise plan)) (\<lambda>_. Ok crdt_fields)
          else bindR (ok_or (map_of base_documents (mr_path rule)) Panicked) (\<lambda>document.
               bindR (doc_change A document candidate_field) (\<lambda>changed.
                 Ok (btree_insert (mr_path rule) changed crdt_fields)))
      | _ \<Rightarrow> bindR (reject_if_required (cpl_otherwise plan)) (\<lambda>_. Ok crdt_fields))"

definition prepare_value ::
  "json_env \<Rightarrow> 'd automerge_env \<Rightarrow> ConflictPlan \<Rightarrow> Value \<Rightarrow> (string \<times> CrdtDocument) list \<Rightarrow> Value
   \<Rightarrow> ConflictError + ConflictCandidate" where
  "prepare_value J A plan base base_documents candidate =
     bindR (foldR (prepare_rule J A plan base base_documents candidate) (cpl_merge plan) []) (\<lambda>crdt_fields.
       Ok \<lparr>cand_value = candidate, cand_crdt_fields = crdt_fields, cand_source_version = None\<rparr>)"

section \<open>Merging\<close>

type_synonym groups = "(string list \<times> Value list \<times> nat list) list"

definition push_group :: "string list \<Rightarrow> Value list \<Rightarrow> nat \<Rightarrow> groups \<Rightarrow> groups" where
  "push_group key grp index gs =
     (case map_of gs key of
        None \<Rightarrow> btree_insert key (grp, [index]) gs
      | Some (g, indexes) \<Rightarrow> btree_insert key (g, indexes @ [index]) gs)"

definition group_variant ::
  "json_env \<Rightarrow> ConflictPlan \<Rightarrow> ConflictMergeRule \<Rightarrow> nat \<times> ConflictCandidate \<Rightarrow> groups \<Rightarrow> ConflictError + groups" where
  "group_variant J plan rule entry gs =
     (let (index, candidate) = entry; skip = bindR (reject_if_required (cpl_otherwise plan)) (\<lambda>_. Ok gs) in
      case pointer J (cand_value candidate) (mr_path rule) of
        None \<Rightarrow> skip
      | Some field \<Rightarrow>
          if map_of (cand_crdt_fields candidate) (mr_path rule) = None then skip
          else (case group_values J field rule of
                  None \<Rightarrow> skip
                | Some grp \<Rightarrow> Ok (push_group (map (canonical_json J) grp) grp index gs)))"

definition set_merged ::
  "json_env \<Rightarrow> ConflictMergeRule \<Rightarrow> CrdtDocument \<Rightarrow> Value \<Rightarrow> nat \<Rightarrow> ConflictCandidate list
   \<Rightarrow> ConflictError + ConflictCandidate list" where
  "set_merged J rule document merged index variants =
     (if length variants \<le> index then Err Panicked
      else let c = variants ! index in
        bindR (ok_or (pointer J (cand_value c) (mr_path rule)) Panicked) (\<lambda>_.
          Ok (variants[index := c\<lparr>cand_value := set_pointer J (cand_value c) (mr_path rule) merged,
                                 cand_crdt_fields := btree_insert (mr_path rule) document (cand_crdt_fields c),
                                 cand_source_version := None\<rparr>])))"

definition merge_group ::
  "json_env \<Rightarrow> 'd automerge_env \<Rightarrow> ConflictPlan \<Rightarrow> ConflictMergeRule \<Rightarrow> string list \<times> Value list \<times> nat list
   \<Rightarrow> ConflictCandidate list \<Rightarrow> ConflictError + ConflictCandidate list" where
  "merge_group J A plan rule entry variants =
     (let indexes = snd (snd entry) in
      if length indexes < 2 then bindR (reject_if_required (cpl_otherwise plan)) (\<lambda>_. Ok variants)
      else bindR (mapR (\<lambda>i. if length variants \<le> i then Err Panicked
                            else ok_or (map_of (cand_crdt_fields (variants ! i)) (mr_path rule)) Panicked) indexes) (\<lambda>branches.
           bindR (doc_merge A branches) (\<lambda>document.
           bindR (doc_json A document) (\<lambda>merged.
             foldR (set_merged J rule document merged) indexes variants))))"

definition merge_rule ::
  "json_env \<Rightarrow> 'd automerge_env \<Rightarrow> ConflictPlan \<Rightarrow> ConflictMergeRule \<Rightarrow> ConflictCandidate list
   \<Rightarrow> ConflictError + ConflictCandidate list" where
  "merge_rule J A plan rule variants =
     bindR (foldR (group_variant J plan rule) (enumerate 0 variants) []) (\<lambda>gs.
       foldR (merge_group J A plan rule) gs variants)"

definition merge_field ::
  "'d automerge_env \<Rightarrow> string \<times> CrdtDocument \<Rightarrow> ConflictCandidate \<Rightarrow> ConflictError + ConflictCandidate" where
  "merge_field A field existing =
     (let (path, document) = field in
      case map_of (cand_crdt_fields existing) path of
        Some current \<Rightarrow>
          bindR (doc_merge A [current, document]) (\<lambda>merged.
            Ok (existing\<lparr>cand_crdt_fields := btree_insert path merged (cand_crdt_fields existing)\<rparr>))
      | None \<Rightarrow> Ok (existing\<lparr>cand_crdt_fields := btree_insert path document (cand_crdt_fields existing)\<rparr>))"

text \<open>The first variant with the same value absorbs a variant; without one it is appended.\<close>

fun collapse_into ::
  "'d automerge_env \<Rightarrow> ConflictCandidate \<Rightarrow> ConflictCandidate list \<Rightarrow> ConflictError + ConflictCandidate list" where
  "collapse_into A variant [] = Ok [variant]"
| "collapse_into A variant (existing # unique) =
     (if cand_value existing = cand_value variant
      then bindR (foldR (merge_field A) (cand_crdt_fields variant) (existing\<lparr>cand_source_version := None\<rparr>)) (\<lambda>existing.
             Ok (existing # unique))
      else bindR (collapse_into A variant unique) (\<lambda>unique. Ok (existing # unique)))"

definition collapse_identical_variants ::
  "'d automerge_env \<Rightarrow> ConflictCandidate list \<Rightarrow> ConflictError + ConflictCandidate list" where
  "collapse_identical_variants A variants = foldR (collapse_into A) variants []"

definition merge_candidates ::
  "json_env \<Rightarrow> 'd automerge_env \<Rightarrow> ConflictPlan \<Rightarrow> ConflictCandidate list \<Rightarrow> ConflictError + ConflictResolution" where
  "merge_candidates J A plan candidates =
     bindR (foldR (merge_rule J A plan) (cpl_merge plan) candidates) (\<lambda>variants.
     bindR (collapse_identical_variants A variants) (\<lambda>unique. Ok \<lparr>res_variants = unique\<rparr>))"

definition resolve_prepared_conflict ::
  "json_env \<Rightarrow> 'd automerge_env \<Rightarrow> ConflictPlan \<Rightarrow> ConflictCandidate list \<Rightarrow> ConflictError + ConflictResolution" where
  "resolve_prepared_conflict J A plan candidates =
     (if length candidates \<le> 1 then Ok \<lparr>res_variants = candidates\<rparr>
      else (case cpl_strategy plan of
              Reject \<Rightarrow> Err Rejected
            | Mvcc \<Rightarrow> Ok \<lparr>res_variants = candidates\<rparr>
            | Merge \<Rightarrow> merge_candidates J A plan candidates))"

definition resolve_conflict ::
  "json_env \<Rightarrow> 'd automerge_env \<Rightarrow> ConflictPlan \<Rightarrow> Value \<Rightarrow> Value list \<Rightarrow> ConflictError + ConflictResolution" where
  "resolve_conflict J A plan base candidates =
     (if length candidates \<le> 1
      then Ok \<lparr>res_variants = map (\<lambda>v. \<lparr>cand_value = v, cand_crdt_fields = [], cand_source_version = None\<rparr>) candidates\<rparr>
      else bindR (mapR (\<lambda>(path, v). bindR (doc_from_json A v) (\<lambda>doc. Ok (path, doc)))
               (List.map_filter (\<lambda>rule. map_option (Pair (mr_path rule)) (pointer J base (mr_path rule))) (cpl_merge plan))) (\<lambda>docs.
           bindR (mapR (prepare_value J A plan base (btree_collect docs)) candidates) (\<lambda>prepared.
             resolve_prepared_conflict J A plan prepared)))"

section \<open>What resolution keeps\<close>

text \<open>Merging either leaves a candidate as it is or makes a new version of it.\<close>

definition kept :: "ConflictCandidate \<Rightarrow> ConflictCandidate \<Rightarrow> bool" where
  "kept c w \<longleftrightarrow> w = c \<or> cand_source_version w = None"

lemma kept_refl [simp]: "kept c c"
  by (simp add: kept_def)

lemma kept_all_refl [simp]: "list_all2 kept cs cs"
  by (simp add: list_all2_refl)

lemma kept_all_trans: "list_all2 kept a b \<Longrightarrow> list_all2 kept b c \<Longrightarrow> list_all2 kept a c"
  by (rule list_all2_trans) (auto simp: kept_def)

lemma set_merged_kept:
  assumes "set_merged J rule document merged i vs = Inr ws"
  shows "list_all2 kept vs ws"
proof -
  from assms obtain c where "i < length vs" "ws = vs[i := c]" "cand_source_version c = None"
    by (auto simp: set_merged_def Let_def bindR_eq_Inr not_le split: if_splits)
  then show ?thesis by (auto simp: list_all2_conv_all_nth nth_list_update kept_def)
qed

lemma merge_group_kept: "merge_group J A plan rule g vs = Inr ws \<Longrightarrow> list_all2 kept vs ws"
  by (auto simp: merge_group_def Let_def bindR_eq_Inr split: if_splits
      elim!: foldR_relates[where R = "list_all2 kept"] intro: kept_all_trans set_merged_kept)

lemma merge_rules_kept: "foldR (merge_rule J A plan) rules vs = Inr ws \<Longrightarrow> list_all2 kept vs ws"
proof (erule foldR_relates[where R = "list_all2 kept"])
  show "list_all2 kept vs ws" if "merge_rule J A plan rule vs = Inr ws" for rule vs ws
    using that by (auto simp: merge_rule_def bindR_eq_Inr elim!: foldR_relates[where R = "list_all2 kept"]
        intro: kept_all_trans merge_group_kept)
qed (auto intro: kept_all_trans)

lemma merge_fields_value:
  "foldR (merge_field A) fs e = Inr e' \<Longrightarrow> cand_value e' = cand_value e \<and> cand_source_version e' = cand_source_version e"
  by (erule foldR_relates[where R = "\<lambda>e e'. cand_value e' = cand_value e \<and> cand_source_version e' = cand_source_version e"])
    (auto simp: merge_field_def Let_def bindR_eq_Inr split: prod.splits option.splits)

lemma collapse_into_Ok:
  assumes "collapse_into A v us = Inr ws"
  shows "map cand_value ws = (if cand_value v \<in> cand_value ` set us then map cand_value us else map cand_value us @ [cand_value v])"
    and "w \<in> set ws \<Longrightarrow> cand_source_version w \<noteq> None \<Longrightarrow> w = v \<or> w \<in> set us"
    and "us \<noteq> [] \<Longrightarrow> cand_source_version (hd us) = None \<Longrightarrow> cand_source_version (hd ws) = None"
proof -
  have "map cand_value ws = (if cand_value v \<in> cand_value ` set us then map cand_value us else map cand_value us @ [cand_value v])
    \<and> (\<forall>w \<in> set ws. cand_source_version w \<noteq> None \<longrightarrow> w = v \<or> w \<in> set us)
    \<and> (us \<noteq> [] \<longrightarrow> cand_source_version (hd us) = None \<longrightarrow> cand_source_version (hd ws) = None)"
    using assms
  proof (induction us arbitrary: ws)
    case (Cons e us)
    show ?case
    proof (cases "cand_value e = cand_value v")
      case True
      with Cons.prems obtain e' where
        "foldR (merge_field A) (cand_crdt_fields v) (e\<lparr>cand_source_version := None\<rparr>) = Inr e'" "ws = e' # us"
        by (auto simp: bindR_eq_Inr)
      with merge_fields_value[OF this(1)] True show ?thesis by simp
    next
      case False
      with Cons.prems obtain ws' where "collapse_into A v us = Inr ws'" "ws = e # ws'" by (auto simp: bindR_eq_Inr)
      with Cons.IH[OF this(1)] False show ?thesis by auto
    qed
  qed simp
  then show "map cand_value ws = (if cand_value v \<in> cand_value ` set us then map cand_value us else map cand_value us @ [cand_value v])"
    "w \<in> set ws \<Longrightarrow> cand_source_version w \<noteq> None \<Longrightarrow> w = v \<or> w \<in> set us"
    "us \<noteq> [] \<Longrightarrow> cand_source_version (hd us) = None \<Longrightarrow> cand_source_version (hd ws) = None" by auto
qed

definition collapsed :: "ConflictCandidate list \<Rightarrow> ConflictCandidate list \<Rightarrow> bool" where
  "collapsed vs us \<longleftrightarrow>
     distinct (map cand_value us) \<and> cand_value ` set us = cand_value ` set vs \<and> length us \<le> length vs
     \<and> (\<forall>w \<in> set us. cand_source_version w \<noteq> None \<longrightarrow> w \<in> set vs)
     \<and> (vs \<noteq> [] \<longrightarrow> cand_source_version (hd vs) = None \<longrightarrow> cand_source_version (hd us) = None)"

lemma collapsed_nonempty: "collapsed vs us \<Longrightarrow> us = [] \<longleftrightarrow> vs = []"
  by (auto simp: collapsed_def)

lemma collapse_step:
  assumes "collapsed vs us" "collapse_into A v us = Inr ws"
  shows "collapsed (vs @ [v]) ws"
proof -
  note C = collapse_into_Ok[OF assms(2)]
  have len: "length ws = length (map cand_value ws)" by simp
  have vals: "cand_value ` set ws = insert (cand_value v) (cand_value ` set us)"
    using arg_cong[OF C(1), of set] by auto
  have "distinct (map cand_value ws)" using assms(1) by (simp add: C(1) collapsed_def)
  moreover have "length ws \<le> Suc (length us)" unfolding len C(1) by simp
  moreover have "cand_source_version (hd ws) = None" if "cand_source_version (hd (vs @ [v])) = None"
  proof (cases "us = []")
    case True
    with that assms collapsed_nonempty show ?thesis by fastforce
  next
    case False
    with that assms(1) C(3) collapsed_nonempty[OF assms(1)] show ?thesis by (simp add: collapsed_def)
  qed
  moreover have "\<forall>w \<in> set ws. cand_source_version w \<noteq> None \<longrightarrow> w \<in> set (vs @ [v])"
    using C(2) assms(1) by (auto simp: collapsed_def)
  ultimately show ?thesis using vals assms(1) by (auto simp: collapsed_def)
qed

lemma collapse_identical_variants_Ok:
  assumes "collapse_identical_variants A vs = Inr us" shows "collapsed vs us"
proof -
  have "foldR (collapse_into A) ys us = Inr ws \<Longrightarrow> collapsed xs us \<Longrightarrow> collapsed (xs @ ys) ws" for xs ys us ws
  proof (induction ys arbitrary: xs us)
    case (Cons y ys)
    then obtain t where "collapse_into A y us = Inr t" "foldR (collapse_into A) ys t = Inr ws" by (auto simp: bindR_eq_Inr)
    with Cons.IH[of t "xs @ [y]"] collapse_step Cons.prems(2) show ?case by fastforce
  qed simp
  from this[of vs "[]" us "[]"] assms show ?thesis by (simp add: collapse_identical_variants_def collapsed_def)
qed

text \<open>What the variants of a resolution have to do with its candidates.\<close>

lemma resolved_variants:
  assumes "resolve_prepared_conflict J A plan candidates = Inr res"
  shows "length candidates \<le> 1 \<or> cpl_strategy plan \<noteq> Merge \<Longrightarrow> res_variants res = candidates"
    and "cpl_strategy plan = Reject \<Longrightarrow> length candidates \<le> 1"
    and "w \<in> set (res_variants res) \<Longrightarrow> cand_source_version w \<noteq> None \<Longrightarrow> w \<in> set candidates"
    and "candidates \<noteq> [] \<Longrightarrow> cand_source_version (hd candidates) = None \<Longrightarrow> cand_source_version (hd (res_variants res)) = None"
    and "\<not> length candidates \<le> 1 \<Longrightarrow> cpl_strategy plan = Merge \<Longrightarrow>
      \<exists>vs. foldR (merge_rule J A plan) (cpl_merge plan) candidates = Inr vs \<and> length vs = length candidates
         \<and> collapsed vs (res_variants res)"
proof -
  have simple: "res_variants res = candidates \<and> (cpl_strategy plan = Reject \<longrightarrow> length candidates \<le> 1)"
    if "length candidates \<le> 1 \<or> cpl_strategy plan \<noteq> Merge"
    using assms that by (auto simp: resolve_prepared_conflict_def split: if_splits ConflictStrategy.splits)
  have merged: "\<exists>vs. foldR (merge_rule J A plan) (cpl_merge plan) candidates = Inr vs \<and> length vs = length candidates
      \<and> collapsed vs (res_variants res) \<and> (\<forall>w \<in> set vs. cand_source_version w \<noteq> None \<longrightarrow> w \<in> set candidates)
      \<and> (candidates \<noteq> [] \<and> cand_source_version (hd candidates) = None \<longrightarrow> cand_source_version (hd vs) = None)"
    if "\<not> length candidates \<le> 1" "cpl_strategy plan = Merge"
  proof -
    from assms that obtain vs where vs: "foldR (merge_rule J A plan) (cpl_merge plan) candidates = Inr vs"
      "collapse_identical_variants A vs = Inr (res_variants res)"
      by (auto simp: resolve_prepared_conflict_def merge_candidates_def bindR_eq_Inr split: if_splits)
    note K = merge_rules_kept[OF vs(1)]
    have len: "length vs = length candidates" using K by (simp add: list_all2_lengthD)
    have "w \<in> set candidates" if "w \<in> set vs" "cand_source_version w \<noteq> None" for w
    proof -
      from that(1) obtain i where i: "i < length vs" "w = vs ! i" by (auto simp: in_set_conv_nth)
      with K that(2) have "vs ! i = candidates ! i" by (auto simp: list_all2_conv_all_nth kept_def)
      with i len show ?thesis by simp
    qed
    moreover have "cand_source_version (hd vs) = None" if "candidates \<noteq> []" "cand_source_version (hd candidates) = None"
      using K that by (cases candidates; cases vs) (auto simp: kept_def)
    ultimately show ?thesis using vs(1) len collapse_identical_variants_Ok[OF vs(2)] by (intro exI[of _ vs]) simp
  qed
  show "length candidates \<le> 1 \<or> cpl_strategy plan \<noteq> Merge \<Longrightarrow> res_variants res = candidates"
    and "cpl_strategy plan = Reject \<Longrightarrow> length candidates \<le> 1" using simple by auto
  show "w \<in> set (res_variants res) \<Longrightarrow> cand_source_version w \<noteq> None \<Longrightarrow> w \<in> set candidates"
    using simple merged unfolding collapsed_def by fastforce
  show "candidates \<noteq> [] \<Longrightarrow> cand_source_version (hd candidates) = None \<Longrightarrow> cand_source_version (hd (res_variants res)) = None"
    using simple merged unfolding collapsed_def by fastforce
  show "\<not> length candidates \<le> 1 \<Longrightarrow> cpl_strategy plan = Merge \<Longrightarrow>
      \<exists>vs. foldR (merge_rule J A plan) (cpl_merge plan) candidates = Inr vs \<and> length vs = length candidates
         \<and> collapsed vs (res_variants res)" using merged by blast
qed

text \<open>
  C31. What resolving a conflict does. With one candidate nothing changes; with several, rejection
  always fails, multi-version keeps all candidates as they are, and merging returns at least one
  and at most as many variants, with pairwise different values. A variant that still names a
  stored version is the unchanged candidate of that version, so the heads kept by a resolution
  never change their content; when the first candidate is new, so is the first variant; and
  without merge rules no value is lost or made up.
\<close>
theorem resolution_keeps_stored_versions:
  assumes "resolve_prepared_conflict J A plan candidates = Inr res"
  shows "(length candidates \<le> 1 \<or> cpl_strategy plan = Mvcc \<longrightarrow> res_variants res = candidates)
    \<and> (cpl_strategy plan = Reject \<longrightarrow> length candidates \<le> 1)
    \<and> (cpl_strategy plan = Merge \<and> length candidates > 1 \<longrightarrow> distinct (map cand_value (res_variants res)))
    \<and> length (res_variants res) \<le> length candidates \<and> (candidates \<noteq> [] \<longrightarrow> res_variants res \<noteq> [])
    \<and> (\<forall>w \<in> set (res_variants res). cand_source_version w \<noteq> None \<longrightarrow> w \<in> set candidates)
    \<and> (candidates \<noteq> [] \<and> cand_source_version (hd candidates) = None \<longrightarrow> cand_source_version (hd (res_variants res)) = None)
    \<and> (cpl_merge plan = [] \<longrightarrow> cand_value ` set (res_variants res) = cand_value ` set candidates)"
proof (cases "length candidates \<le> 1 \<or> cpl_strategy plan \<noteq> Merge")
  case True
  then show ?thesis using resolved_variants[OF assms] by auto
next
  case False
  with resolved_variants(5)[OF assms] obtain vs where vs: "foldR (merge_rule J A plan) (cpl_merge plan) candidates = Inr vs"
    "length vs = length candidates" "collapsed vs (res_variants res)" by auto
  moreover have "vs = candidates" if "cpl_merge plan = []" using vs(1) that by simp
  ultimately show ?thesis
    using False resolved_variants(3,4)[OF assms] collapsed_nonempty[OF vs(3)] unfolding collapsed_def by auto
qed

section \<open>No panic\<close>

lemma ok_or_neq [simp]: "e \<noteq> f \<Longrightarrow> ok_or x e \<noteq> Inl f"
  by (cases x) auto

lemma doc_load_no_panic [simp]: "doc_load A doc \<noteq> Inl Panicked"
  by (simp add: doc_load_def)

lemma foldR_no_error: "(\<And>x s. x \<in> set xs \<Longrightarrow> f x s \<noteq> Inl e) \<Longrightarrow> foldR f xs s \<noteq> Inl e"
  by (induction xs arbitrary: s) (auto simp: bindR_eq_Inl)

lemma doc_merge_no_panic [simp]: "doc_merge A docs \<noteq> Inl Panicked"
  unfolding doc_merge_def by (auto simp: bindR_eq_Inl split: list.splits intro!: foldR_no_error)

lemma doc_ops_no_panic [simp]:
  "doc_json A doc \<noteq> Inl Panicked" "doc_change A doc v \<noteq> Inl Panicked" "doc_from_json A v \<noteq> Inl Panicked"
  by (auto simp: doc_json_def doc_change_def doc_from_json_def bindR_eq_Inl)

lemma reject_if_required_no_panic [simp]: "reject_if_required f \<noteq> Inl Panicked"
  by (cases f) (auto simp: reject_if_required_def)

text \<open>A variant that the merge of a rule can use.\<close>

definition ready :: "json_env \<Rightarrow> ConflictMergeRule \<Rightarrow> ConflictCandidate list \<Rightarrow> nat \<Rightarrow> bool" where
  "ready J rule vs i \<longleftrightarrow> i < length vs \<and> pointer J (cand_value (vs ! i)) (mr_path rule) \<noteq> None
     \<and> map_of (cand_crdt_fields (vs ! i)) (mr_path rule) \<noteq> None"

lemma ready_cong: "length us = length vs \<Longrightarrow> us ! i = vs ! i \<Longrightarrow> ready J rule us i = ready J rule vs i"
  by (simp add: ready_def)

lemma set_merged_frame:
  assumes "set_merged J rule document merged i vs = Inr ws"
  shows "length ws = length vs" "j \<noteq> i \<Longrightarrow> ws ! j = vs ! j"
  using assms by (auto simp: set_merged_def Let_def bindR_eq_Inr split: if_splits)

lemma set_all_merged:
  "foldR (set_merged J rule document merged) is vs = Inr ws \<Longrightarrow> length ws = length vs \<and> (\<forall>j. j \<notin> set is \<longrightarrow> ws ! j = vs ! j)"
proof (induction "is" arbitrary: vs)
  case (Cons i "is")
  then obtain us where "set_merged J rule document merged i vs = Inr us" "foldR (set_merged J rule document merged) is us = Inr ws"
    by (auto simp: bindR_eq_Inr)
  with Cons.IH set_merged_frame[of J rule document merged i vs us] show ?case by auto
qed simp

lemma set_all_merged_no_panic:
  "distinct is \<Longrightarrow> \<forall>i \<in> set is. ready J rule vs i \<Longrightarrow> foldR (set_merged J rule document merged) is vs \<noteq> Inl Panicked"
proof (induction "is" arbitrary: vs)
  case (Cons i "is")
  have i: "set_merged J rule document merged i vs \<noteq> Inl Panicked"
    using Cons.prems(2) by (auto simp: set_merged_def ready_def Let_def)
  have "foldR (set_merged J rule document merged) is us \<noteq> Inl Panicked" if "set_merged J rule document merged i vs = Inr us" for us
  proof (rule Cons.IH)
    show "\<forall>j \<in> set is. ready J rule us j"
      using Cons.prems ready_cong[of us vs] set_merged_frame[OF that] by (metis distinct.simps(2) list.set_intros(2))
  qed (use Cons.prems(1) in simp)
  with i show ?case by (auto simp: bindR_eq_Inl)
qed simp

lemma merge_group_no_panic:
  assumes "distinct (snd (snd g))" "\<forall>i \<in> set (snd (snd g)). ready J rule vs i"
  shows "merge_group J A plan rule g vs \<noteq> Inl Panicked"
proof -
  have "mapR (\<lambda>i. if length vs \<le> i then Err Panicked
      else ok_or (map_of (cand_crdt_fields (vs ! i)) (mr_path rule)) Panicked) (snd (snd g)) \<noteq> Inl Panicked"
    using assms(2) by (auto dest!: mapR_error simp: ready_def split: if_splits)
  with set_all_merged_no_panic[OF assms] show ?thesis
    by (auto simp: merge_group_def Let_def bindR_eq_Inl)
qed

lemma merge_group_frame:
  assumes "merge_group J A plan rule g vs = Inr ws"
  shows "length ws = length vs" "j \<notin> set (snd (snd g)) \<Longrightarrow> ws ! j = vs ! j"
  using assms set_all_merged by (fastforce simp: merge_group_def Let_def bindR_eq_Inr split: if_splits)+

lemma merge_groups_no_panic:
  assumes "\<forall>g \<in> set gs. distinct (snd (snd g)) \<and> (\<forall>i \<in> set (snd (snd g)). ready J rule vs i)"
    and "sorted_wrt (\<lambda>g g'. set (snd (snd g)) \<inter> set (snd (snd g')) = {}) gs"
  shows "foldR (merge_group J A plan rule) gs vs \<noteq> Inl Panicked"
  using assms
proof (induction gs arbitrary: vs)
  case (Cons g gs)
  have "foldR (merge_group J A plan rule) gs ws \<noteq> Inl Panicked" if run: "merge_group J A plan rule g vs = Inr ws" for ws
  proof (rule Cons.IH)
    have "ready J rule ws i" if "g' \<in> set gs" "i \<in> set (snd (snd g'))" for g' i
    proof -
      have "i \<notin> set (snd (snd g))" using Cons.prems(2) that by auto
      with Cons.prems(1) that merge_group_frame[OF run] show ?thesis by (auto simp: ready_def)
    qed
    with Cons.prems(1) show "\<forall>g \<in> set gs. distinct (snd (snd g)) \<and> (\<forall>i \<in> set (snd (snd g)). ready J rule ws i)" by auto
  qed (use Cons.prems(2) in simp)
  with merge_group_no_panic[of g J rule vs A plan] Cons.prems(1) show ?case by (auto simp: bindR_eq_Inl)
qed simp

text \<open>The groups of a rule: disjoint lists of usable variants.\<close>

definition grouped :: "json_env \<Rightarrow> ConflictMergeRule \<Rightarrow> ConflictCandidate list \<Rightarrow> nat \<Rightarrow> groups \<Rightarrow> bool" where
  "grouped J rule vs n gs \<longleftrightarrow>
     btree_wf gs
     \<and> (\<forall>k g is. map_of gs k = Some (g, is) \<longrightarrow> distinct is \<and> (\<forall>i \<in> set is. i < n \<and> ready J rule vs i))
     \<and> (\<forall>k k' g g' is is'. map_of gs k = Some (g, is) \<longrightarrow> map_of gs k' = Some (g', is') \<longrightarrow> k \<noteq> k' \<longrightarrow> set is \<inter> set is' = {})"

lemma push_group_grouped:
  assumes "grouped J rule vs n gs" "ready J rule vs n"
  shows "grouped J rule vs (Suc n) (push_group key grp n gs)"
proof -
  obtain g0 is0 where push: "push_group key grp n gs = btree_insert key (g0, is0 @ [n]) gs"
    and is0: "case map_of gs key of None \<Rightarrow> is0 = [] | Some (_, is) \<Rightarrow> is0 = is"
  proof (cases "map_of gs key")
    case None
    then show ?thesis by (intro that[of grp "[]"]) (simp_all add: push_group_def)
  next
    case (Some a)
    then show ?thesis by (cases a) (auto intro!: that[of "fst a" "snd a"] simp: push_group_def)
  qed
  have wf: "btree_wf gs" using assms(1) by (simp add: grouped_def)
  have i0: "distinct is0 \<and> (\<forall>i \<in> set is0. i < n \<and> ready J rule vs i)"
    "\<forall>k g is. map_of gs k = Some (g, is) \<longrightarrow> k \<noteq> key \<longrightarrow> set is0 \<inter> set is = {}"
    using is0 assms(1) unfolding grouped_def by (auto split: option.splits) blast+
  have n: "n \<notin> set is" if "map_of gs k = Some (g, is)" for k g "is"
    using assms(1) that unfolding grouped_def by blast
  show ?thesis
    unfolding grouped_def push map_of_btree_insert[OF wf]
  proof (intro conjI allI impI)
    show "btree_wf (btree_insert key (g0, is0 @ [n]) gs)" using wf by (rule btree_insert_wf)
  next
    fix k g "is" assume "((map_of gs)(key \<mapsto> (g0, is0 @ [n]))) k = Some (g, is)"
    then show "distinct is" "\<forall>i \<in> set is. i < Suc n \<and> ready J rule vs i"
      using i0(1) assms unfolding grouped_def by (auto split: if_splits intro: less_SucI)
  next
    fix k k' g g' "is" is'
    assume "((map_of gs)(key \<mapsto> (g0, is0 @ [n]))) k = Some (g, is)" "((map_of gs)(key \<mapsto> (g0, is0 @ [n]))) k' = Some (g', is')" "k \<noteq> k'"
    then show "set is \<inter> set is' = {}"
      using i0 n assms(1) unfolding grouped_def by (auto split: if_splits) blast+
  qed
qed

lemma grouped_mono: "grouped J rule vs n gs \<Longrightarrow> grouped J rule vs (Suc n) gs"
  unfolding grouped_def by (auto intro: less_SucI)

lemma group_variants:
  assumes "foldR (group_variant J plan rule) (enumerate n ys) gs = Inr gs'" "grouped J rule (xs @ ys) n gs" "n = length xs"
  shows "grouped J rule (xs @ ys) (length (xs @ ys)) gs'"
  using assms
proof (induction ys arbitrary: xs n gs)
  case (Cons y ys)
  then obtain t where t: "group_variant J plan rule (n, y) gs = Inr t" "foldR (group_variant J plan rule) (enumerate (Suc n) ys) t = Inr gs'"
    by (auto simp: bindR_eq_Inr)
  have "t = gs \<or> (ready J rule (xs @ y # ys) n \<and> (\<exists>key grp. t = push_group key grp n gs))"
    using t(1) Cons.prems(3)
    by (auto simp: group_variant_def Let_def bindR_eq_Inr ready_def split: option.splits if_splits)
  then have "grouped J rule (xs @ y # ys) (Suc n) t"
    using Cons.prems(2) grouped_mono push_group_grouped by blast
  with Cons.IH[OF t(2), of "xs @ [y]"] Cons.prems(3) show ?case by simp
qed simp

lemma grouped_list:
  assumes "grouped J rule vs n gs"
  shows "\<forall>g \<in> set gs. distinct (snd (snd g)) \<and> (\<forall>i \<in> set (snd (snd g)). ready J rule vs i)"
    and "sorted_wrt (\<lambda>g g'. set (snd (snd g)) \<inter> set (snd (snd g')) = {}) gs"
proof -
  have d: "distinct (map fst gs)" using assms btree_wf_distinct by (auto simp: grouped_def)
  have m: "map_of gs (fst g) = Some (fst (snd g), snd (snd g))" if "g \<in> set gs" for g using d that by (cases g) auto
  show "\<forall>g \<in> set gs. distinct (snd (snd g)) \<and> (\<forall>i \<in> set (snd (snd g)). ready J rule vs i)"
    using assms m unfolding grouped_def by blast
  show "sorted_wrt (\<lambda>g g'. set (snd (snd g)) \<inter> set (snd (snd g')) = {}) gs"
    unfolding sorted_wrt_iff_nth_less
  proof (intro allI impI)
    fix i j assume ij: "i < j" "j < length gs"
    then have "fst (gs ! i) \<noteq> fst (gs ! j)" using d by (auto simp: distinct_conv_nth)
    moreover have "map_of gs (fst (gs ! i)) = Some (fst (snd (gs ! i)), snd (snd (gs ! i)))"
      "map_of gs (fst (gs ! j)) = Some (fst (snd (gs ! j)), snd (snd (gs ! j)))" using m ij by simp_all
    ultimately show "set (snd (snd (gs ! i))) \<inter> set (snd (snd (gs ! j))) = {}"
      using assms unfolding grouped_def by (elim conjE allE impE)
  qed
qed

lemma merge_rule_no_panic: "merge_rule J A plan rule vs \<noteq> Inl Panicked"
proof -
  have "foldR (group_variant J plan rule) (enumerate 0 vs) [] \<noteq> Inl Panicked"
    by (rule foldR_no_error) (auto simp: group_variant_def Let_def bindR_eq_Inl split: option.splits if_splits)
  moreover have "foldR (merge_group J A plan rule) gs vs \<noteq> Inl Panicked"
    if "foldR (group_variant J plan rule) (enumerate 0 vs) [] = Inr gs" for gs
  proof -
    have "grouped J rule ([] @ vs) 0 []" by (simp add: grouped_def btree_wf_def)
    from group_variants[OF _ this] that have "grouped J rule vs (length vs) gs" by simp
    from merge_groups_no_panic[OF grouped_list[OF this]] show ?thesis .
  qed
  ultimately show ?thesis by (auto simp: merge_rule_def bindR_eq_Inl)
qed

lemma collapse_no_panic: "collapse_identical_variants A vs \<noteq> Inl Panicked"
proof -
  have "foldR (merge_field A) fs e \<noteq> Inl Panicked" for fs e
    by (rule foldR_no_error) (auto simp: merge_field_def Let_def bindR_eq_Inl split: prod.splits option.splits)
  then have "collapse_into A v us \<noteq> Inl Panicked" for v us
    by (induction us) (auto simp: bindR_eq_Inl)
  then show ?thesis unfolding collapse_identical_variants_def by (intro foldR_no_error) simp
qed

lemma resolve_prepared_no_panic: "resolve_prepared_conflict J A plan candidates \<noteq> Inl Panicked"
proof -
  have "foldR (merge_rule J A plan) (cpl_merge plan) candidates \<noteq> Inl Panicked"
    by (rule foldR_no_error) (rule merge_rule_no_panic)
  then show ?thesis
    using collapse_no_panic
    by (auto simp: resolve_prepared_conflict_def merge_candidates_def bindR_eq_Inl split: ConflictStrategy.splits)
qed

text \<open>
  C32. Resolution never panics: the three places that unwrap what the grouping or the preparation
  promised (the document of a grouped field, the field of a grouped variant, the document of a base
  value) always find it, for every plan and every list of candidates, whatever the document library
  answers.
\<close>
theorem resolution_never_panics:
  "resolve_prepared_conflict J A plan candidates \<noteq> Inl Panicked \<and> resolve_conflict J A plan base vals \<noteq> Inl Panicked"
proof -
  let ?docs = "List.map_filter (\<lambda>rule. map_option (Pair (mr_path rule)) (pointer J base (mr_path rule))) (cpl_merge plan)"
  have from_json: "mapR (\<lambda>(path, v). bindR (doc_from_json A v) (\<lambda>doc. Ok (path, doc))) ?docs \<noteq> Inl Panicked"
    by (auto dest!: mapR_error simp: bindR_eq_Inl)
  have prepare: "prepare_value J A plan base (btree_collect docs) v \<noteq> Inl Panicked"
    if docs: "mapR (\<lambda>(path, v). bindR (doc_from_json A v) (\<lambda>doc. Ok (path, doc))) ?docs = Inr docs" for docs v
  proof -
    have path: "map_of (btree_collect docs) (mr_path rule) \<noteq> None"
      if "rule \<in> set (cpl_merge plan)" "pointer J base (mr_path rule) = Some field" for rule field
    proof -
      have "(mr_path rule, field) \<in> set ?docs" using that by (force simp: List.map_filter_def)
      then obtain i where "i < length ?docs" "?docs ! i = (mr_path rule, field)" by (auto simp: in_set_conv_nth)
      with list_all2_nthD[OF docs[unfolded mapR_eq_Inr], of i] list_all2_lengthD[OF docs[unfolded mapR_eq_Inr]]
      have "fst (docs ! i) = mr_path rule" "i < length docs" by (auto simp: bindR_eq_Inr) (metis fst_conv)
      then have "mr_path rule \<in> fst ` set docs" by (metis image_eqI nth_mem)
      then show ?thesis by (simp add: map_of_btree_collect map_of_eq_None_iff)
    qed
    have "foldR (prepare_rule J A plan base (btree_collect docs) v) (cpl_merge plan) [] \<noteq> Inl Panicked"
      by (rule foldR_no_error) (auto simp: prepare_rule_def bindR_eq_Inl split: option.splits dest: path)
    then show ?thesis by (simp add: prepare_value_def bindR_eq_Inl)
  qed
  have "mapR (prepare_value J A plan base (btree_collect docs)) vals \<noteq> Inl Panicked"
    if "mapR (\<lambda>(path, v). bindR (doc_from_json A v) (\<lambda>doc. Ok (path, doc))) ?docs = Inr docs" for docs
    using prepare[OF that] mapR_error by fastforce
  with from_json resolve_prepared_no_panic show ?thesis by (auto simp: resolve_conflict_def bindR_eq_Inl)
qed

section \<open>Example\<close>

definition sample_automerge :: "nat list automerge_env" where
  "sample_automerge =
     \<lparr>am_new = [], am_load = Some, am_save = (\<lambda>d. d), am_reconcile = (\<lambda>_ d. Some d), am_hydrate = (\<lambda>_. Some CNull),
      am_random_actor = (\<lambda>d. d), am_merge = (\<lambda>a b. Some (a @ b)), am_get_heads = (\<lambda>_. []), am_get_changes = (\<lambda>_. []),
      am_change_from_bytes = (\<lambda>_. None), am_apply_changes = (\<lambda>_ d. Some d)\<rparr>"

definition sample_plan :: "ConflictStrategy \<Rightarrow> ConflictPlan" where
  "sample_plan s = \<lparr>cpl_strategy = s, cpl_base_versions_field = ''base'', cpl_base_versions = Some (Array [String ''v1'']),
     cpl_merge = [\<lparr>mr_path = ''/a'', mr_strategy = Automerge, mr_group_by = []\<rparr>], cpl_otherwise = FallbackMvcc\<rparr>"

definition sample_candidates :: "ConflictCandidate list" where
  "sample_candidates =
     [\<lparr>cand_value = String ''x'', cand_crdt_fields = [], cand_source_version = None\<rparr>,
      \<lparr>cand_value = String ''y'', cand_crdt_fields = [], cand_source_version = Some ''v2''\<rparr>,
      \<lparr>cand_value = String ''x'', cand_crdt_fields = [], cand_source_version = Some ''v3''\<rparr>]"

theorem resolution_keeps_stored_versions_witness:
  "\<exists>res. resolve_prepared_conflict (ce_json sample_config_env) sample_automerge (sample_plan Merge) sample_candidates = Inr res
     \<and> length (res_variants res) = 2 \<and> distinct (map cand_value (res_variants res))
     \<and> (\<forall>w \<in> set (res_variants res). cand_source_version w \<noteq> None \<longrightarrow> w \<in> set sample_candidates)"
proof -
  let ?r = "resolve_prepared_conflict (ce_json sample_config_env) sample_automerge (sample_plan Merge) sample_candidates"
  have "\<not> isl ?r" "length (res_variants (projr ?r)) = 2" by code_simp+
  then obtain res where res: "?r = Inr res" "length (res_variants res) = 2" by (cases ?r) auto
  moreover have "cpl_strategy (sample_plan Merge) = Merge" "length sample_candidates > 1"
    by (simp_all add: sample_plan_def sample_candidates_def)
  ultimately show ?thesis using resolution_keeps_stored_versions[OF res(1)] by blast
qed

end
