(* ===== verification/Engine_Plans.thy ===== *)
theory Engine_Plans
  imports Conflict_Resolution
begin

text \<open>
  The parts of the engine, \<open>crates/backend/src/engine.rs\<close>, that do not call the provider: error
  mapping, read consistency, work units, base and head versions, candidates and stored versions.

  The derived serializers of \<open>serde\<close> enter as a \<open>wire_codec\<close>. Serializing the data of the backend
  does not fail, so the \<open>map_err\<close> branches after \<open>to_string\<close> have no counterpart.
\<close>

record WorkUnitPolicy =
  wp_snapshot_key :: "ControlKey option"
  wp_publication :: PublicationPolicy
  wp_linearization_key :: "ControlKey option"
  wp_commit_ordering_key :: "ControlKey option"

datatype RequestData =
    CreateData CreateEntityData
  | UpdateData UpdateEntityData
  | DeleteData DeleteEntityData

record wire_codec =
  cx_json :: json_env
  cx_key_json :: "ControlKey \<Rightarrow> string"
  cx_policy_json :: "WorkUnitPolicy \<Rightarrow> string"
  cx_plan_json :: "ConflictPlan \<Rightarrow> string"
  cx_plan_from :: "string \<Rightarrow> ConflictPlan option"
  cx_request_json :: "string \<Rightarrow> RequestData \<Rightarrow> string"
  cx_result_json :: "MutationResult \<Rightarrow> string"
  cx_result_from :: "string \<Rightarrow> MutationResult option"
  cx_meta_from :: "string \<Rightarrow> Meta option"

definition map_json :: "wire_codec \<Rightarrow> (string \<times> Value) list \<Rightarrow> string" where
  "map_json X m = to_string (cx_json X) (Object m)"

section \<open>Errors\<close>

definition invalid_request :: BackendError where
  "invalid_request = backend_error_new InvalidRequest"

definition provider_corruption :: BackendError where
  "provider_corruption = backend_error_new Overloaded"

definition not_found :: BackendError where
  "not_found = backend_error_new NotFound"

definition idempotency_conflict :: BackendError where
  "idempotency_conflict = backend_error_new IdempotencyConflict"

definition closed_work_unit :: BackendError where
  "closed_work_unit = backend_error_new InvalidRequest"

definition work_unit_policy_mismatch :: BackendError where
  "work_unit_policy_mismatch = backend_error_new InvalidRequest"

definition expired_work_unit :: BackendError where
  "expired_work_unit = backend_error_new WorkUnitExpired"

definition provider_backend_error :: "ProviderError \<Rightarrow> BackendError" where
  "provider_backend_error e =
     backend_error_new
       (case pe_reason e of
          Internal \<Rightarrow> Overloaded
        | Unauthenticated \<Rightarrow> Overloaded
        | Unavailable \<Rightarrow> Overloaded
        | DeadlineExceeded \<Rightarrow> RequestDeadlineExceeded)"

definition conflict_backend_error :: "ConflictError \<Rightarrow> BackendError" where
  "conflict_backend_error e = backend_error_new (if e = Rejected then VersionConflict else Overloaded)"

definition with_current_versions :: "string list \<Rightarrow> BackendError \<Rightarrow> BackendError" where
  "with_current_versions current e =
     (if be_reason e = VersionConflict \<and> be_current_versions e = [] then e\<lparr>be_current_versions := current\<rparr> else e)"

definition reject_fallback :: "ConflictFallback \<Rightarrow> unit bresult" where
  "reject_fallback fallback =
     (case fallback of FallbackMvcc \<Rightarrow> Ok () | FallbackReject \<Rightarrow> Err (backend_error_new VersionConflict))"

text \<open>\<open>unix_time_ms()\<close>.\<close>

definition time_ms :: "nat option \<Rightarrow> nat bresult" where
  "time_ms clk = ok_or clk invalid_request"

section \<open>Keys and consistency\<close>

definition write_session_keys :: "wire_codec \<Rightarrow> PolicySelection \<Rightarrow> string list" where
  "write_session_keys X sel =
     map (\<lambda>s. cx_key_json X (sp_key s))
       (filter (\<lambda>s. ReadYourWrites \<in> set (sp_guarantees s)) (cn_sessions (se_consistency sel)))"

definition ordering_key_json :: "wire_codec \<Rightarrow> PolicySelection \<Rightarrow> string option" where
  "ordering_key_json X sel = map_option (cx_key_json X) (cn_commit_ordering_key (se_consistency sel))"

definition causal_tokens :: "CausalConsistencyPlan list \<Rightarrow> string list \<Rightarrow> string list bresult" where
  "causal_tokens causal tokens =
     foldR (\<lambda>c tokens. case ca_minimum c of
              None \<Rightarrow> Ok tokens
            | Some token \<Rightarrow> bindR (ok_or (as_str token) invalid_request) (\<lambda>t. Ok (t # tokens))) causal tokens"

definition add_session ::
  "wire_codec \<Rightarrow> SessionConsistencyPlan \<Rightarrow> (string \<times> bool \<times> bool) list \<Rightarrow> (string \<times> bool \<times> bool) list" where
  "add_session X s sessions =
     (let key = cx_key_json X (sp_key s);
          (m, w) = (case map_of sessions key of None \<Rightarrow> (False, False) | Some g \<Rightarrow> g)
      in btree_insert key (m \<or> MonotonicReads \<in> set (sp_guarantees s), w \<or> ReadYourWrites \<in> set (sp_guarantees s)) sessions)"

record consistency_acc =
  ac_sources :: "ConsistencySource list"
  ac_tokens :: "string list"
  ac_sessions :: "(string \<times> bool \<times> bool) list"
  ac_linearization :: "string list"

definition add_selection :: "wire_codec \<Rightarrow> PolicySelection \<Rightarrow> consistency_acc \<Rightarrow> consistency_acc bresult" where
  "add_selection X sel a =
     (let c = se_consistency sel in
      bindR (causal_tokens (cn_causal c) (ac_tokens a)) (\<lambda>tokens.
        Ok \<lparr>ac_sources = filter (\<lambda>s. s \<in> set (cn_allowed_sources c)) (ac_sources a),
            ac_tokens = tokens,
            ac_sessions = fold (add_session X) (cn_sessions c) (ac_sessions a),
            ac_linearization = (case cn_linearization_key c of
                                  None \<Rightarrow> ac_linearization a
                                | Some k \<Rightarrow> cx_key_json X k # ac_linearization a)\<rparr>))"

text \<open>The tokens and linearization keys are \<open>BTreeSet\<close>s, turned into lists at the end.\<close>

definition read_consistency ::
  "wire_codec \<Rightarrow> PolicySelection list \<Rightarrow> nat option \<Rightarrow> bool \<Rightarrow> ReadConsistency bresult" where
  "read_consistency X sels deadline authority_only =
     bindR (foldR (add_selection X) sels
              \<lparr>ac_sources = (case sels of [] \<Rightarrow> [] | sel # _ \<Rightarrow> cn_allowed_sources (se_consistency sel)),
               ac_tokens = [], ac_sessions = [], ac_linearization = []\<rparr>) (\<lambda>a.
     let sources = (if authority_only then filter (\<lambda>s. s = Authority) (ac_sources a) else ac_sources a) in
       if sources = [] then Err (backend_error_new UnsupportedCapability)
       else Ok \<lparr>rc_allowed_sources = sources, rc_minimum_tokens = sort_dedup (ac_tokens a),
                rc_sessions = map (\<lambda>(k, m, w). \<lparr>sc_key_json = k, sc_monotonic_reads = m, sc_read_your_writes = w\<rparr>) (ac_sessions a),
                rc_linearization_keys = sort_dedup (ac_linearization a), rc_deadline_unix_ms = deadline\<rparr>)"

definition consistent_value :: "'a ConsistentRead \<Rightarrow> ('a \<times> ReadObservation) bresult" where
  "consistent_value r = (case r of Read v ob \<Rightarrow> Ok (v, ob) | ReadUnavailable \<Rightarrow> Err (backend_error_new Overloaded))"

definition consistency_meta :: "PolicySelection \<Rightarrow> string option \<Rightarrow> Meta" where
  "consistency_meta sel token =
     (case token of
        None \<Rightarrow> []
      | Some t \<Rightarrow> fold (\<lambda>c. btree_insert (ca_field c) (String t)) (cn_causal (se_consistency sel)) [])"

section \<open>Work units\<close>

record SelectedWorkUnit =
  sw_work_unit :: WorkUnit
  sw_close :: bool

definition selected_work_unit ::
  "wire_codec \<Rightarrow> nat option \<Rightarrow> PolicySelection \<Rightarrow> RequestDeadline \<Rightarrow> SelectedWorkUnit option bresult" where
  "selected_work_unit X clk sel deadline =
     (case bh_publication (se_behavior sel) of
        Immediate \<Rightarrow> Ok None
      | Batch _ close_when staging_ttl_ms _ \<Rightarrow>
          bindR (ok_or (se_publication_key sel) provider_corruption) (\<lambda>key.
          bindR (time_ms clk) (\<lambda>now.
          bindR (ok_or (checked_add_u64 now staging_ttl_ms) invalid_request) (\<lambda>expires.
          case close_when of
            Marker field equals \<Rightarrow>
              Ok (Some \<lparr>sw_work_unit =
                   \<lparr>wu_identity_json = cx_key_json X key,
                    wu_scope_json = map_json X (se_scope sel),
                    wu_policy_json = cx_policy_json X
                      \<lparr>wp_snapshot_key = cn_snapshot_key (se_consistency sel),
                       wp_publication = bh_publication (se_behavior sel),
                       wp_linearization_key = cn_linearization_key (se_consistency sel),
                       wp_commit_ordering_key = cn_commit_ordering_key (se_consistency sel)\<rparr>,
                    wu_expiry_action = Discard,
                    wu_now_unix_ms = now,
                    wu_expires_at_unix_ms = expires,
                    wu_deadline_unix_ms = deadline\<rparr>,
                   sw_close = (map_of (se_fields sel) field = Some equals)\<rparr>)))))"

definition same_transaction :: "SelectedWorkUnit option \<Rightarrow> SelectedWorkUnit option \<Rightarrow> bool" where
  "same_transaction a b =
     (case (a, b) of
        (None, None) \<Rightarrow> True
      | (Some x, Some y) \<Rightarrow>
          wu_identity_json (sw_work_unit x) = wu_identity_json (sw_work_unit y)
          \<and> wu_scope_json (sw_work_unit x) = wu_scope_json (sw_work_unit y)
          \<and> wu_policy_json (sw_work_unit x) = wu_policy_json (sw_work_unit y)
      | _ \<Rightarrow> False)"

text \<open>Every selection reads the clock of its own.\<close>

definition selected_retrieval_work_unit ::
  "wire_codec \<Rightarrow> (nat \<Rightarrow> nat option) \<Rightarrow> PolicySelection list \<Rightarrow> RequestDeadline \<Rightarrow> SelectedWorkUnit option bresult" where
  "selected_retrieval_work_unit X clk sels deadline =
     (case sels of
        [] \<Rightarrow> Ok None
      | sel # rest \<Rightarrow>
          bindR (selected_work_unit X (clk 0) sel deadline) (\<lambda>first.
          bindR (foldR (\<lambda>(i, sel) _. bindR (selected_work_unit X (clk i) sel deadline) (\<lambda>next.
                   if same_transaction first next then Ok () else Err invalid_request)) (enumerate 1 rest) ()) (\<lambda>_.
            Ok first)))"

definition entity_key :: "wire_codec \<Rightarrow> PolicySelection \<Rightarrow> EntityRef \<Rightarrow> EntityKey" where
  "entity_key X sel r =
     \<lparr>scope_json = map_json X (se_scope sel), entity_type = er_entity_type r, entity_id = er_id r\<rparr>"

section \<open>Base versions and heads\<close>

definition base_name :: "Value \<Rightarrow> string list \<Rightarrow> string list bresult" where
  "base_name v names =
     bindR (ok_or (as_str v) invalid_request) (\<lambda>version.
       if version \<in> set names then Err invalid_request else Ok (version # names))"

definition find_version :: "string \<Rightarrow> EntitySnapshot \<Rightarrow> StoredEntityVersion option" where
  "find_version name sn = find (\<lambda>v. sv_version v = name) (sn_versions sn)"

definition selected_bases :: "ConflictPlan \<Rightarrow> EntitySnapshot \<Rightarrow> StoredEntityVersion list bresult" where
  "selected_bases plan sn =
     bindR (ok_or (Option.bind (cpl_base_versions plan) as_array) invalid_request) (\<lambda>vals.
     if vals = [] then Err invalid_request
     else bindR (foldR base_name vals []) (\<lambda>names.
          mapR (\<lambda>name. ok_or (find_version name sn) (version_conflict (sn_head_versions sn))) (sort_dedup names)))"

definition concurrent_heads :: "EntitySnapshot \<Rightarrow> StoredEntityVersion list \<Rightarrow> StoredEntityVersion list bresult" where
  "concurrent_heads sn bases =
     mapR (\<lambda>version. ok_or (find_version version sn) provider_corruption)
       (filter (\<lambda>version. version \<notin> sv_version ` set bases) (sn_head_versions sn))"

definition reject_unless_exact_heads :: "ConflictPlan \<Rightarrow> EntitySnapshot \<Rightarrow> StoredEntityVersion list \<Rightarrow> unit bresult" where
  "reject_unless_exact_heads plan sn bases =
     (if cpl_strategy plan \<noteq> Reject then Ok ()
      else if set (map sv_version bases) \<noteq> set (sn_head_versions sn) then Err (version_conflict (sn_head_versions sn))
      else Ok ())"

section \<open>Candidates and stored versions\<close>

definition stored_value :: "wire_codec \<Rightarrow> StoredEntityVersion \<Rightarrow> Value bresult" where
  "stored_value X v =
     bindR (ok_or (sv_value_json v) provider_corruption) (\<lambda>s. ok_or (from_str (cx_json X) s) provider_corruption)"

definition load_crdt_document :: "'d automerge_env \<Rightarrow> StoredCrdtField \<Rightarrow> CrdtDocument bresult" where
  "load_crdt_document A f =
     map_err conflict_backend_error
       (doc_from_changes A (map (\<lambda>c. \<lparr>cg_hash = cc_hash c, cg_parents = cc_parents c, cg_bytes = cc_bytes c\<rparr>) (cf_changes f)) (cf_heads f))"

definition initial_crdt_fields ::
  "wire_codec \<Rightarrow> 'd automerge_env \<Rightarrow> ConflictPlan \<Rightarrow> Value \<Rightarrow> (string \<times> CrdtDocument) list bresult" where
  "initial_crdt_fields X A plan v =
     foldR (\<lambda>rule fs. case pointer (cx_json X) v (mr_path rule) of
              None \<Rightarrow> Ok fs
            | Some field \<Rightarrow> bindR (map_err conflict_backend_error (doc_from_json A field)) (\<lambda>doc.
                Ok (btree_insert (mr_path rule) doc fs))) (cpl_merge plan) []"

definition same_merge_group :: "wire_codec \<Rightarrow> ConflictMergeRule \<Rightarrow> Value \<Rightarrow> Value \<Rightarrow> bool" where
  "same_merge_group X rule l r \<longleftrightarrow> list_all (\<lambda>p. pointer (cx_json X) l p = pointer (cx_json X) r p) (mr_group_by rule)"

text \<open>The loop over the base versions collects one document each; it stops early, with an empty
  collection, at a base that cannot take part in the merge.\<close>

fun base_documents ::
  "wire_codec \<Rightarrow> 'd automerge_env \<Rightarrow> ConflictPlan \<Rightarrow> ConflictMergeRule \<Rightarrow> Value \<Rightarrow> StoredEntityVersion list
   \<Rightarrow> CrdtDocument list \<Rightarrow> CrdtDocument list bresult" where
  "base_documents X A plan rule proposed [] docs = Ok docs"
| "base_documents X A plan rule proposed (base # bases) docs =
     (let stop = bindR (reject_fallback (cpl_otherwise plan)) (\<lambda>_. Ok []) in
      if sv_state base \<noteq> Active then stop
      else bindR (stored_value X base) (\<lambda>base_value.
        case pointer (cx_json X) base_value (mr_path rule) of
          None \<Rightarrow> stop
        | Some base_field \<Rightarrow>
            if \<not> same_merge_group X rule base_field proposed then stop
            else (case find (\<lambda>f. cf_path f = mr_path rule) (sv_crdt_fields base) of
                    None \<Rightarrow> stop
                  | Some f \<Rightarrow>
                      bindR (load_crdt_document A f) (\<lambda>doc.
                      bindR (map_err conflict_backend_error (doc_json A doc)) (\<lambda>v.
                        if v \<noteq> base_field then Err provider_corruption
                        else base_documents X A plan rule proposed bases (docs @ [doc]))))))"

definition prepare_field ::
  "wire_codec \<Rightarrow> 'd automerge_env \<Rightarrow> ConflictPlan \<Rightarrow> StoredEntityVersion list \<Rightarrow> Value \<Rightarrow> ConflictMergeRule
   \<Rightarrow> (string \<times> CrdtDocument) list \<Rightarrow> (string \<times> CrdtDocument) list bresult" where
  "prepare_field X A plan bases v rule fs =
     (case pointer (cx_json X) v (mr_path rule) of
        None \<Rightarrow> bindR (reject_fallback (cpl_otherwise plan)) (\<lambda>_. Ok fs)
      | Some proposed \<Rightarrow>
          bindR (base_documents X A plan rule proposed bases []) (\<lambda>docs.
            if length docs = length bases
            then bindR (map_err conflict_backend_error (doc_merge A docs)) (\<lambda>base.
                 bindR (map_err conflict_backend_error (doc_change A base proposed)) (\<lambda>doc.
                   Ok (btree_insert (mr_path rule) doc fs)))
            else bindR (map_err conflict_backend_error (doc_from_json A proposed)) (\<lambda>doc.
                   Ok (btree_insert (mr_path rule) doc fs))))"

definition prepare_candidate ::
  "wire_codec \<Rightarrow> 'd automerge_env \<Rightarrow> ConflictPlan \<Rightarrow> StoredEntityVersion list \<Rightarrow> Value \<Rightarrow> ConflictCandidate bresult" where
  "prepare_candidate X A plan bases v =
     bindR (foldR (prepare_field X A plan bases v) (cpl_merge plan) []) (\<lambda>fs.
       Ok \<lparr>cand_value = v, cand_crdt_fields = fs, cand_source_version = None\<rparr>)"

definition stored_candidate :: "wire_codec \<Rightarrow> 'd automerge_env \<Rightarrow> StoredEntityVersion \<Rightarrow> ConflictCandidate bresult" where
  "stored_candidate X A version =
     bindR (stored_value X version) (\<lambda>v.
     bindR (mapR (\<lambda>f. bindR (load_crdt_document A f) (\<lambda>doc.
                    bindR (map_err conflict_backend_error (doc_json A doc)) (\<lambda>json.
                    bindR (ok_or (pointer (cx_json X) v (cf_path f)) provider_corruption) (\<lambda>field.
                      if json \<noteq> field then Err provider_corruption else Ok (cf_path f, doc))))) (sv_crdt_fields version)) (\<lambda>fs.
       Ok \<lparr>cand_value = v, cand_crdt_fields = btree_collect fs, cand_source_version = Some (sv_version version)\<rparr>))"

definition stored_crdt_field :: "'d automerge_env \<Rightarrow> string \<times> CrdtDocument \<Rightarrow> StoredCrdtField bresult" where
  "stored_crdt_field A f =
     bindR (map_err conflict_backend_error (doc_heads A (snd f))) (\<lambda>heads.
     bindR (map_err conflict_backend_error (doc_changes A (snd f))) (\<lambda>changes.
       Ok \<lparr>cf_path = fst f, cf_heads = heads,
           cf_changes = map (\<lambda>c. \<lparr>cc_hash = cg_hash c, cc_parents = cg_parents c, cc_bytes = cg_bytes c\<rparr>) changes\<rparr>))"

definition active_stored_version ::
  "wire_codec \<Rightarrow> 'd automerge_env \<Rightarrow> string \<Rightarrow> Value \<Rightarrow> (string \<times> CrdtDocument) list \<Rightarrow> StoredEntityVersion bresult" where
  "active_stored_version X A version v fs =
     bindR (mapR (stored_crdt_field A) fs) (\<lambda>stored.
       Ok \<lparr>sv_version = version, sv_state = Active, sv_value_json = Some (to_string (cx_json X) v), sv_crdt_fields = stored\<rparr>)"

section \<open>Results\<close>

definition stored_entity :: "wire_codec \<Rightarrow> EntityRef \<Rightarrow> StoredEntityVersion \<Rightarrow> EntityVersion bresult" where
  "stored_entity X r v =
     (case sv_state v of
        Active \<Rightarrow> bindR (stored_value X v) (\<lambda>x. Ok (EActive r (sv_version v) x))
      | Deleted \<Rightarrow> Ok (EDeleted r (sv_version v)))"

definition head_entities :: "wire_codec \<Rightarrow> EntityRef \<Rightarrow> EntitySnapshot \<Rightarrow> EntityVersion list bresult" where
  "head_entities X r sn =
     mapR (\<lambda>version. bindR (ok_or (find_version version sn) provider_corruption) (stored_entity X r)) (sn_head_versions sn)"

fun read_state :: "EntityVersion list \<Rightarrow> ReadState" where
  "read_state [EActive _ _ _] = StateActive"
| "read_state [EDeleted _ _] = StateDeleted"
| "read_state _ = StateConflicted"

definition mutation_change_kind :: "EntitySnapshot \<Rightarrow> string list \<Rightarrow> bool \<Rightarrow> StoredChangeKind" where
  "mutation_change_kind sn new_heads deleted =
     (if length new_heads > 1 then Conflicted
      else if length (sn_head_versions sn) > 1 then Resolved
      else if deleted then DeletedKind
      else Updated)"

definition mutation_result :: "EntityRef \<Rightarrow> string \<Rightarrow> Value \<Rightarrow> MutationResult" where
  "mutation_result r version v = \<lparr>rr_meta = [], rr_data = \<lparr>md_entity = EActive r version v\<rparr>\<rparr>"

definition snapshot_version :: "EntitySnapshot \<Rightarrow> string \<Rightarrow> StoredEntityVersion bresult" where
  "snapshot_version sn version = ok_or (find_version version sn) provider_corruption"

definition active_mutation_result :: "wire_codec \<Rightarrow> EntityRef \<Rightarrow> EntitySnapshot \<Rightarrow> MutationResult bresult" where
  "active_mutation_result X r sn =
     bindR (mapR (snapshot_version sn) (sn_head_versions sn)) (\<lambda>heads.
     bindR (ok_or (find (\<lambda>v. sv_state v = Active) heads) provider_corruption) (\<lambda>stored.
     bindR (stored_value X stored) (\<lambda>v. Ok (mutation_result r (sv_version stored) v))))"

section \<open>Publication conflicts\<close>

definition conflict_ref :: "WorkUnitConflict \<Rightarrow> EntityRef" where
  "conflict_ref c = \<lparr>er_entity_type = entity_type (wk_key c), er_id = entity_id (wk_key c)\<rparr>"

definition current_heads_of :: "WorkUnitConflict \<Rightarrow> string list" where
  "current_heads_of c = (case wk_current c of None \<Rightarrow> [] | Some sn \<Rightarrow> sn_head_versions sn)"

definition publication_conflict_error :: "WorkUnitConflict list \<Rightarrow> BackendError" where
  "publication_conflict_error cs =
     entity_conflicts (map (\<lambda>c. \<lparr>vc_entity_ref = conflict_ref c, vc_current_versions = current_heads_of c\<rparr>) cs)"

definition entity_conflict_error :: "WorkUnitConflict \<Rightarrow> string list \<Rightarrow> BackendError" where
  "entity_conflict_error c current = entity_conflicts [\<lparr>vc_entity_ref = conflict_ref c, vc_current_versions = current\<rparr>]"

definition map_work_unit_outcome :: "WorkUnitCommitOutcome \<Rightarrow> unit bresult" where
  "map_work_unit_outcome out =
     (case out of
        WcStaged \<Rightarrow> Ok ()
      | WcPublished \<Rightarrow> Ok ()
      | WcConflict current \<Rightarrow> Err (version_conflict current)
      | WcPublicationConflict cs \<Rightarrow> Err (publication_conflict_error cs)
      | WcPolicyMismatch \<Rightarrow> Err work_unit_policy_mismatch
      | WcClosing \<Rightarrow> Err closed_work_unit
      | WcCommitted \<Rightarrow> Err closed_work_unit
      | WcExpired \<Rightarrow> Err expired_work_unit
      | WcReplayed _ \<Rightarrow> Err provider_corruption
      | WcIdempotencyConflict \<Rightarrow> Err idempotency_conflict)"

end
