(* ===== verification/Query_Parsing.thy ===== *)
theory Query_Parsing
  imports Conflict_Resolution
begin

text \<open>
  The retrieval query language, \<open>crates/backend/src/query.rs\<close>: a JSON object becomes the query of
  the provider, and the cursor of a page becomes the start of the next one. SHA-256 and the derived
  serializers enter as a \<open>query_codec\<close>. A parsed cursor has a finite score (JSON has no other
  numbers), so \<open>is_finite\<close> has no counterpart.
\<close>

record QueryIdentity =
  qi_scope_json :: string
  qi_entity_types :: "string list option"
  qi_text :: "string option"
  qi_entity_ids :: "string list option"
  qi_filters :: "RetrieveFilter list"
  qi_order :: RetrieveOrder

record query_codec =
  qc_json :: json_env
  qc_identity_json :: "QueryIdentity \<Rightarrow> string"
  qc_sha256_hex :: "string \<Rightarrow> string"
  qc_cursor_json :: "RetrieveCursor \<Rightarrow> string"
  qc_cursor_from :: "string \<Rightarrow> RetrieveCursor option"

definition invalid :: BackendError where
  "invalid = backend_error_new InvalidRequest"

section \<open>Trimming\<close>

text \<open>\<open>str::trim\<close>: the UTF-8 encodings of the characters with the property \<open>White_Space\<close>.\<close>

definition white_space :: "string list" where
  "white_space =
     map (\<lambda>n. [char_of n]) [9..<14] @ [[CHR 0x20], [CHR 0xC2, CHR 0x85], [CHR 0xC2, CHR 0xA0], [CHR 0xE1, CHR 0x9A, CHR 0x80]]
     @ map (\<lambda>n. [CHR 0xE2, CHR 0x80, char_of n]) ([0x80..<0x8B] @ [0xA8, 0xA9, 0xAF])
     @ [[CHR 0xE2, CHR 0x81, CHR 0x9F], [CHR 0xE3, CHR 0x80, CHR 0x80]]"

lemma set_btree_insert: "set (btree_insert k v m) \<subseteq> insert (k, v) (set m)"
  by (induction k v m rule: btree_insert.induct) auto

lemma find_SomeD: "find P xs = Some x \<Longrightarrow> x \<in> set xs \<and> P x"
  by (induction xs) (auto split: if_splits)

function strip_leading :: "string list \<Rightarrow> string \<Rightarrow> string" where
  "strip_leading ws s =
     (case find (\<lambda>w. w \<noteq> [] \<and> take (length w) s = w) ws of
        None \<Rightarrow> s
      | Some w \<Rightarrow> strip_leading ws (drop (length w) s))"
  by auto
termination
proof (relation "measure (\<lambda>(ws, s). length s)")
  fix ws s w assume "find (\<lambda>w. w \<noteq> [] \<and> take (length w) s = w) ws = Some w"
  then have "w \<noteq> []" "take (length w) s = w" by (auto dest: find_SomeD)
  then have "s \<noteq> []" by auto
  with \<open>w \<noteq> []\<close> show "((ws, drop (length w) s), ws, s) \<in> measure (\<lambda>(ws, s). length s)" by simp
qed simp

declare strip_leading.simps [simp del]

definition trim :: "string \<Rightarrow> string" where
  "trim s = rev (strip_leading (map rev white_space) (rev (strip_leading white_space s)))"

section \<open>Fields of the query object\<close>

definition QUERY_FIELDS :: "string list" where
  "QUERY_FIELDS = [''text'', ''ids'', ''where'', ''order'', ''cursor'']"

definition reject_unknown_fields :: "(string \<times> Value) list \<Rightarrow> unit bresult" where
  "reject_unknown_fields m = (if list_all (\<lambda>(k, _). k \<in> set QUERY_FIELDS) m then Ok () else Err invalid)"

definition optional_non_empty_string :: "(string \<times> Value) list \<Rightarrow> string \<Rightarrow> string option bresult" where
  "optional_non_empty_string m field =
     (case map_of m field of
        None \<Rightarrow> Ok None
      | Some v \<Rightarrow> bindR (ok_or (as_str v) invalid) (\<lambda>s.
          if trim s = [] then Err invalid else Ok (Some (trim s))))"

definition unique_entry :: "Value \<Rightarrow> string list \<Rightarrow> string list bresult" where
  "unique_entry v unique =
     bindR (ok_or (as_str v) invalid) (\<lambda>s.
       if trim s = [] \<or> s \<in> set unique then Err invalid else Ok (s # unique))"

definition optional_string_set :: "(string \<times> Value) list \<Rightarrow> string \<Rightarrow> string list option bresult" where
  "optional_string_set m field =
     (case map_of m field of
        None \<Rightarrow> Ok None
      | Some v \<Rightarrow> bindR (ok_or (as_array v) invalid) (\<lambda>vals.
          if vals = [] then Err invalid
          else bindR (foldR unique_entry vals []) (\<lambda>unique. Ok (Some (sort unique)))))"

fun escapes_ok :: "string \<Rightarrow> bool" where
  "escapes_ok [] = True"
| "escapes_ok (c # cs) =
     (if c = CHR ''~'' \<and> (cs = [] \<or> hd cs \<notin> {CHR ''0'', CHR ''1''}) then False else escapes_ok cs)"

definition validate_pointer :: "string \<Rightarrow> unit bresult" where
  "validate_pointer p =
     (if take 1 p \<noteq> ''/'' then Err invalid else if \<not> escapes_ok p then Err invalid else Ok ())"

definition condition_operator :: "string \<Rightarrow> RetrieveFilterOperator option" where
  "condition_operator name =
     map_of [(''$eq'', Equal), (''$ne'', NotEqual), (''$lt'', LessThan), (''$lte'', LessThanOrEqual),
             (''$gt'', GreaterThan), (''$gte'', GreaterThanOrEqual), (''$contains'', Contains)] name"

definition parse_condition :: "Value \<Rightarrow> (RetrieveFilterOperator \<times> Value) bresult" where
  "parse_condition v =
     (case as_object v of
        Some [(name, operand)] \<Rightarrow>
          (case condition_operator name of
             Some op \<Rightarrow> Ok (op, operand)
           | None \<Rightarrow> if take 1 name = ''$'' then Err invalid else Ok (Equal, v))
      | _ \<Rightarrow> Ok (Equal, v))"

definition parse_filter :: "query_codec \<Rightarrow> string \<times> Value \<Rightarrow> RetrieveFilter bresult" where
  "parse_filter Q entry =
     bindR (validate_pointer (fst entry)) (\<lambda>_.
     bindR (parse_condition (snd entry)) (\<lambda>(op, operand).
       Ok \<lparr>rf_pointer = fst entry, rf_operator = op, rf_value_json = to_string (qc_json Q) operand\<rparr>))"

definition parse_filters :: "query_codec \<Rightarrow> Value option \<Rightarrow> RetrieveFilter list bresult" where
  "parse_filters Q v =
     (case v of
        None \<Rightarrow> Ok []
      | Some v \<Rightarrow> bindR (ok_or (as_object v) invalid) (mapR (parse_filter Q)))"

definition parse_order :: "Value option \<Rightarrow> bool \<Rightarrow> RetrieveOrder bresult" where
  "parse_order v has_text =
     (case v of
        None \<Rightarrow> Ok (if has_text then Relevance else Newest)
      | Some v \<Rightarrow>
          if as_str v = Some ''relevance'' then (if has_text then Ok Relevance else Err invalid)
          else if as_str v = Some ''newest'' then Ok Newest
          else if as_str v = Some ''oldest'' then Ok Oldest
          else if as_str v = Some ''id_asc'' then Ok IdAscending
          else if as_str v = Some ''id_desc'' then Ok IdDescending
          else Err invalid)"

definition parse_cursor ::
  "query_codec \<Rightarrow> Value option \<Rightarrow> RetrieveOrder \<Rightarrow> string \<Rightarrow> RetrieveCursor option bresult" where
  "parse_cursor Q v order fp =
     (case v of
        None \<Rightarrow> Ok None
      | Some v \<Rightarrow>
          bindR (ok_or (as_str v) invalid) (\<lambda>encoded.
          bindR (ok_or (qc_cursor_from Q encoded) invalid) (\<lambda>cursor.
            if rcu_order cursor \<noteq> order \<or> rcu_query_fingerprint cursor \<noteq> fp
               \<or> rcu_entity_type cursor = [] \<or> rcu_entity_id cursor = []
            then Err invalid else Ok (Some cursor))))"

definition query_identity :: "RetrieveQuery \<Rightarrow> QueryIdentity" where
  "query_identity q =
     \<lparr>qi_scope_json = rq_scope_json q, qi_entity_types = rq_entity_types q, qi_text = rq_text q,
      qi_entity_ids = rq_entity_ids q, qi_filters = rq_filters q, qi_order = rq_order q\<rparr>"

definition fingerprint :: "query_codec \<Rightarrow> RetrieveQuery \<Rightarrow> string" where
  "fingerprint Q q = qc_sha256_hex Q (qc_identity_json Q (query_identity q))"

definition encode_cursor :: "query_codec \<Rightarrow> RetrieveCursor \<Rightarrow> string" where
  "encode_cursor Q cursor = qc_cursor_json Q cursor"

section \<open>The query\<close>

definition parse_query ::
  "query_codec \<Rightarrow> string \<Rightarrow> string list \<Rightarrow> string \<Rightarrow> nat \<Rightarrow> RetrieveQuery bresult" where
  "parse_query Q scope types query_json limit =
     bindR (ok_or (from_str (qc_json Q) query_json) invalid) (\<lambda>instruction.
     bindR (ok_or (as_object instruction) invalid) (\<lambda>m.
     bindR (reject_unknown_fields m) (\<lambda>_.
     bindR (optional_non_empty_string m ''text'') (\<lambda>txt.
     bindR (optional_string_set m ''ids'') (\<lambda>ids.
     bindR (parse_filters Q (map_of m ''where'')) (\<lambda>filters.
     bindR (parse_order (map_of m ''order'') (txt \<noteq> None)) (\<lambda>order.
     let query = \<lparr>rq_scope_json = scope, rq_entity_types = Some types, rq_text = txt, rq_entity_ids = ids,
                  rq_filters = filters, rq_order = order, rq_fingerprint = [], rq_after = None, rq_limit = limit\<rparr>;
         query = query\<lparr>rq_fingerprint := fingerprint Q query\<rparr> in
     bindR (parse_cursor Q (map_of m ''cursor'') order (rq_fingerprint query)) (\<lambda>after.
       Ok (query\<lparr>rq_after := after\<rparr>)))))))))"

end
