(* ===== verification/Backend_Engine.thy ===== *)
theory Backend_Engine
  imports Engine_Plans Query_Parsing
begin

text \<open>
  The engine, \<open>crates/backend/src/engine.rs\<close>: the life cycle of \<open>BackendEngine\<close> and the handlers of
  \<open>BackendService\<close>, from the deadline check of a request to its commit.

  The provider is a state \<open>'p\<close> and its methods. A handler awaits its provider calls one after the
  other, and other requests may reach the provider in between: call site \<open>i\<close> of a handler finds the
  state after \<open>en_others i\<close>, and uses the methods \<open>en_ops i\<close> (the clock readings a call makes inside
  the provider belong to it). The clock readings and the random identifiers of a handler are
  \<open>en_clock i\<close> and \<open>en_uuid i k\<close>. The execution guards change no result; they are the subject of
  another theory.
\<close>

record ('p, 'd) engine_env =
  en_config :: BackendConfig
  en_config_env :: config_env
  en_codec :: wire_codec
  en_query :: query_codec
  en_automerge :: "'d automerge_env"
  en_ops :: "nat \<Rightarrow> 'p Provider"
  en_others :: "nat \<Rightarrow> 'p \<Rightarrow> 'p"
  en_clock :: "nat \<Rightarrow> nat option"
  en_uuid :: "nat \<Rightarrow> nat \<Rightarrow> string"

type_synonym ('p, 'a) engine_step = "'p \<Rightarrow> 'a bresult \<times> 'p"

definition bindE :: "('p \<Rightarrow> ('e + 'a) \<times> 'p) \<Rightarrow> ('a \<Rightarrow> 'p \<Rightarrow> ('e + 'b) \<times> 'p) \<Rightarrow> 'p \<Rightarrow> ('e + 'b) \<times> 'p" where
  "bindE m f s = (case m s of (Inl e, s') \<Rightarrow> (Inl e, s') | (Inr x, s') \<Rightarrow> f x s')"

definition liftE :: "'e + 'a \<Rightarrow> 'p \<Rightarrow> ('e + 'a) \<times> 'p" where
  "liftE r s = (r, s)"

definition provider_call ::
  "('p, 'd) engine_env \<Rightarrow> nat \<Rightarrow> ('p Provider \<Rightarrow> 'p \<Rightarrow> 'a presult \<times> 'p) \<Rightarrow> ('p, 'a) engine_step" where
  "provider_call En i f s =
     (case f (en_ops En i) (en_others En i s) of (r, s') \<Rightarrow> (map_err provider_backend_error r, s'))"

section \<open>Life cycle\<close>

datatype EngineError = ProviderFailed ProviderError | Capability

definition behaviors :: "EntityPolicy \<Rightarrow> Behavior list" where
  "behaviors policy = map pr_behavior (ep_rules policy) @ [ep_fallback policy]"

fun is_linearizable :: "AcquireRequirement \<Rightarrow> bool" where
  "is_linearizable (Linearizable _) = True"
| "is_linearizable (CausalAfter _ _) = False"

definition check_capability :: "bool \<Rightarrow> EngineError + unit" where
  "check_capability ok = (if ok then Ok () else Err Capability)"

definition check_session_capability :: "ProviderCapabilities \<Rightarrow> SessionPolicy \<Rightarrow> unit \<Rightarrow> EngineError + unit" where
  "check_session_capability caps session _ =
     bindR (check_capability (\<not> (MonotonicReads \<in> set (se_guarantees session) \<and> \<not> monotonic_reads caps))) (\<lambda>_.
       check_capability (\<not> (ReadYourWrites \<in> set (se_guarantees session) \<and> \<not> read_your_writes caps)))"

definition check_behavior_capabilities :: "ProviderCapabilities \<Rightarrow> Behavior \<Rightarrow> unit \<Rightarrow> EngineError + unit" where
  "check_behavior_capabilities caps behavior _ =
     (let acquire = cp_acquire (bh_consistency behavior);
          linearizable = list_ex is_linearizable (requirements acquire);
          sources = (if linearizable then filter (\<lambda>s. s = Authority) (source_set (allow_sources acquire))
                     else source_set (allow_sources acquire)) in
      bindR (check_capability (Authority \<in> set (allow_sources acquire))) (\<lambda>_.
      bindR (check_capability ((authority caps \<and> Authority \<in> set sources) \<or> (replica caps \<and> Replica \<in> set sources))) (\<lambda>_.
      bindR (check_capability (\<not> (list_ex is_causal (requirements acquire) \<and> \<not> causal_reads caps))) (\<lambda>_.
      bindR (check_capability (\<not> (linearizable \<and> \<not> linearizable_reads caps))) (\<lambda>_.
      bindR (foldR (check_session_capability caps) (cp_sessions (bh_consistency behavior)) ()) (\<lambda>_.
      bindR (check_capability (\<not> (bh_idempotency behavior \<noteq> IdempotencyDisabled \<and> \<not> idempotency caps))) (\<lambda>_.
        check_capability (\<not> (is_batch (bh_publication behavior) \<and> \<not> work_units caps)))))))))"

definition validate_provider_capabilities :: "BackendConfig \<Rightarrow> ProviderCapabilities \<Rightarrow> EngineError + unit" where
  "validate_provider_capabilities cfg caps =
     bindR (check_capability (change_stream caps)) (\<lambda>_.
     bindR (check_capability (retrieval caps)) (\<lambda>_.
     bindR (check_capability (authority caps)) (\<lambda>_.
       foldR (\<lambda>(_, policy) _. foldR (check_behavior_capabilities caps) (behaviors policy) ()) (entity_types cfg) ())))"

text \<open>The started engine is its configuration, its provider and what the provider recovered.\<close>

definition start :: "('p, 'd) engine_env \<Rightarrow> 'p \<Rightarrow> (EngineError + ProviderRecovery) \<times> 'p" where
  "start En =
     bindE (liftE (validate_provider_capabilities (en_config En) (p_capabilities (en_ops En 0)))) (\<lambda>_ s.
     case p_initialize (en_ops En 0) s of
       (Inl e, s) \<Rightarrow> (Err (ProviderFailed e), s)
     | (Inr recovery, s) \<Rightarrow>
         (case p_health_check (en_ops En 1) s of
            (Inr _, s) \<Rightarrow> (Ok recovery, s)
          | (Inl health_error, s) \<Rightarrow>
              (case p_shutdown (en_ops En 2) s of
                 (Inr _, s) \<Rightarrow> (Err (ProviderFailed health_error), s)
               | (Inl _, s) \<Rightarrow> (Err (ProviderFailed (with_reason (pe_reason health_error))), s))))"

definition engine_checkpoint :: "('p, 'd) engine_env \<Rightarrow> 'p \<Rightarrow> (EngineError + unit) \<times> 'p" where
  "engine_checkpoint En s = (case p_checkpoint (en_ops En 0) s of (r, s') \<Rightarrow> (map_err ProviderFailed r, s'))"

definition engine_shutdown :: "('p, 'd) engine_env \<Rightarrow> 'p \<Rightarrow> (EngineError + unit) \<times> 'p" where
  "engine_shutdown En s = (case p_shutdown (en_ops En 0) s of (r, s') \<Rightarrow> (map_err ProviderFailed r, s'))"

section \<open>Shared steps of the handlers\<close>

definition engine_select :: "('p, 'd) engine_env \<Rightarrow> string \<Rightarrow> Meta \<Rightarrow> PolicySelection bresult" where
  "engine_select En ty meta =
     map_err (\<lambda>_. invalid_request) (select_policy (en_config_env En) (en_config En) ty (Object meta))"

record PreparedIdempotency =
  pi_identity_json :: string
  pi_request_json :: string
  pi_result_json :: "string option"

definition idempotency_outcome :: "IdempotencyReadOutcome \<Rightarrow> string option bresult" where
  "idempotency_outcome out =
     (case out of
        IdemMissing \<Rightarrow> Ok None
      | IdemReplayed result \<Rightarrow> Ok (Some result)
      | IdemConflict \<Rightarrow> Err idempotency_conflict
      | IdemUnavailable \<Rightarrow> Err (backend_error_new Overloaded))"

definition prepare_idempotency ::
  "('p, 'd) engine_env \<Rightarrow> PolicySelection \<Rightarrow> SelectedWorkUnit option \<Rightarrow> ReadConsistency \<Rightarrow> string \<Rightarrow> RequestData
   \<Rightarrow> ('p, PreparedIdempotency option) engine_step" where
  "prepare_idempotency En sel wu consistency operation data =
     (let X = en_codec En in
      case (bh_idempotency (se_behavior sel), se_idempotency_key sel) of
        (IdempotencyDisabled, _) \<Rightarrow> liftE (Ok None)
      | (Keyed _, None) \<Rightarrow> liftE (Err invalid_request)
      | (Keyed _, Some key) \<Rightarrow>
          let identity = cx_key_json X key; request = cx_request_json X operation data in
          bindE (liftE (time_ms (en_clock En 3))) (\<lambda>now.
          bindE (provider_call En 0 (\<lambda>P. case wu of
                   Some w \<Rightarrow> p_read_idempotency_in_work_unit P (sw_work_unit w) consistency identity request now (\<not> sw_close w)
                 | None \<Rightarrow> p_read_idempotency P (map_json X (se_scope sel)) consistency identity request now)) (\<lambda>out.
          bindE (liftE (idempotency_outcome out)) (\<lambda>result.
            liftE (Ok (Some \<lparr>pi_identity_json = identity, pi_request_json = request, pi_result_json = result\<rparr>))))))"

definition idempotency_record_at ::
  "('p, 'd) engine_env \<Rightarrow> PreparedIdempotency \<Rightarrow> MutationResult \<Rightarrow> nat \<Rightarrow> IdempotencyRecord bresult" where
  "idempotency_record_at En prepared result now =
     bindR (ok_or (checked_mul_u64 (rp_idempotency_seconds (bc_retention (en_config En))) 1000) invalid_request) (\<lambda>retention_ms.
     bindR (ok_or (checked_add_u64 now retention_ms) invalid_request) (\<lambda>expires.
       Ok \<lparr>ir_identity_json = pi_identity_json prepared, ir_request_json = pi_request_json prepared,
           ir_result_json = cx_result_json (en_codec En) result, ir_expires_at_unix_ms = expires\<rparr>))"

definition idempotency_record ::
  "('p, 'd) engine_env \<Rightarrow> PreparedIdempotency \<Rightarrow> MutationResult \<Rightarrow> IdempotencyRecord bresult" where
  "idempotency_record En prepared result =
     bindR (time_ms (en_clock En 5)) (idempotency_record_at En prepared result)"

definition replayed :: "wire_codec \<Rightarrow> PreparedIdempotency option \<Rightarrow> MutationResult option bresult" where
  "replayed X prepared =
     (case Option.bind prepared pi_result_json of
        None \<Rightarrow> Ok None
      | Some result \<Rightarrow> bindR (ok_or (cx_result_from X result) provider_corruption) (\<lambda>r. Ok (Some r)))"

definition idempotent_outcome :: "wire_codec \<Rightarrow> MutationResult \<Rightarrow> IdempotentCommitOutcome \<Rightarrow> MutationResult bresult" where
  "idempotent_outcome X result out =
     (case out of
        ICommitted \<Rightarrow> Ok result
      | IEntityConflict current \<Rightarrow> Err (version_conflict current)
      | IReplayed stored \<Rightarrow> ok_or (cx_result_from X stored) provider_corruption
      | IIdempotencyConflict \<Rightarrow> Err idempotency_conflict)"

definition commit_idempotent ::
  "('p, 'd) engine_env \<Rightarrow> EntityCommit \<Rightarrow> PreparedIdempotency \<Rightarrow> MutationResult \<Rightarrow> ('p, MutationResult) engine_step" where
  "commit_idempotent En commit prepared result =
     bindE (liftE (time_ms (en_clock En 5))) (\<lambda>now.
     bindE (liftE (idempotency_record_at En prepared result now)) (\<lambda>record.
     bindE (provider_call En 2 (\<lambda>P. p_commit_entity_idempotent P commit record now)) (\<lambda>out.
       liftE (idempotent_outcome (en_codec En) result out))))"

definition work_unit_read :: "WorkUnitReadOutcome \<Rightarrow> (EntitySnapshot option \<times> ReadObservation) bresult" where
  "work_unit_read out =
     (case out of
        WrOpen r \<Rightarrow> consistent_value r
      | WrClosing \<Rightarrow> Err closed_work_unit
      | WrPolicyMismatch \<Rightarrow> Err work_unit_policy_mismatch
      | WrCommitted \<Rightarrow> Err closed_work_unit
      | WrExpired \<Rightarrow> Err expired_work_unit)"

definition read_selected ::
  "('p, 'd) engine_env \<Rightarrow> SelectedWorkUnit option \<Rightarrow> EntityKey \<Rightarrow> ReadConsistency
   \<Rightarrow> ('p, EntitySnapshot option \<times> ReadObservation) engine_step" where
  "read_selected En wu key consistency =
     (case wu of
        None \<Rightarrow> bindE (provider_call En 1 (\<lambda>P. p_read_entity P key consistency)) (\<lambda>r. liftE (consistent_value r))
      | Some w \<Rightarrow> bindE (provider_call En 1 (\<lambda>P. p_read_entity_in_work_unit P (sw_work_unit w) key consistency)) (\<lambda>r.
          liftE (work_unit_read r)))"

section \<open>Publication conflicts\<close>

definition conflict_head :: "EntitySnapshot \<Rightarrow> string \<Rightarrow> (string \<times> StoredEntityVersion) list \<Rightarrow> (string \<times> StoredEntityVersion) list bresult" where
  "conflict_head sn version heads =
     bindR (snapshot_version sn version) (\<lambda>stored. Ok (btree_insert version stored heads))"

definition conflict_heads :: "WorkUnitConflict \<Rightarrow> (string \<times> StoredEntityVersion) list bresult" where
  "conflict_heads c =
     bindR (foldR (conflict_head (wk_staged c)) (sn_head_versions (wk_staged c)) []) (\<lambda>heads.
       case wk_current c of
         None \<Rightarrow> Ok heads
       | Some current \<Rightarrow> foldR (conflict_head current) (sn_head_versions current) heads)"

text \<open>Concurrent heads become candidates when they are active; the names of deleted ones are kept.\<close>

definition sort_head ::
  "wire_codec \<Rightarrow> 'd automerge_env \<Rightarrow> StoredEntityVersion \<Rightarrow> ConflictCandidate list \<times> string list
   \<Rightarrow> (ConflictCandidate list \<times> string list) bresult" where
  "sort_head X A version acc =
     (case sv_state version of
        Active \<Rightarrow> bindR (stored_candidate X A version) (\<lambda>c. Ok (fst acc @ [c], snd acc))
      | Deleted \<Rightarrow> Ok (fst acc, snd acc @ [sv_version version]))"

definition publish_variant ::
  "('p, 'd) engine_env \<Rightarrow> nat \<Rightarrow> string \<Rightarrow> ConflictCandidate \<Rightarrow> StoredEntityVersion list \<times> string list
   \<Rightarrow> (StoredEntityVersion list \<times> string list) bresult" where
  "publish_variant En i ty c acc =
     (case acc of (new_versions, heads) \<Rightarrow>
      case cand_source_version c of
        Some version \<Rightarrow> Ok (new_versions, heads @ [version])
      | None \<Rightarrow>
          bindR (map_err (\<lambda>_. invalid_request) (validate_entity_value (en_config_env En) (en_config En) ty (cand_value c))) (\<lambda>_.
          let version = en_uuid En (3 + i) (length new_versions) in
          bindR (active_stored_version (en_codec En) (en_automerge En) version (cand_value c) (cand_crdt_fields c)) (\<lambda>stored.
            Ok (new_versions @ [stored], heads @ [version]))))"

definition resolve_publication_conflict ::
  "('p, 'd) engine_env \<Rightarrow> nat \<Rightarrow> WorkUnitConflict \<Rightarrow> WorkUnitResolution bresult" where
  "resolve_publication_conflict En i c =
     (let X = en_codec En; A = en_automerge En; current_heads = current_heads_of c in
      bindR (ok_or (cx_plan_from X (wk_conflict_policy_json c)) provider_corruption) (\<lambda>plan.
      if cpl_strategy plan = Reject then Err (entity_conflict_error c current_heads)
      else
      bindR (conflict_heads c) (\<lambda>heads.
      bindR (foldR (sort_head X A) (map snd heads) ([], [])) (\<lambda>(candidates, deleted).
      if deleted \<noteq> [] \<and> cpl_otherwise plan = FallbackReject then Err (entity_conflict_error c current_heads)
      else
      bindR (map_err (\<lambda>e. with_current_versions current_heads (conflict_backend_error e))
              (resolve_prepared_conflict (cx_json X) A plan candidates)) (\<lambda>resolved.
      bindR (foldR (publish_variant En i (entity_type (wk_key c))) (res_variants resolved) ([], deleted)) (\<lambda>(new_versions, head_versions).
      let head_versions = sort_dedup head_versions in
      if head_versions = [] then Err provider_corruption
      else
      bindR (time_ms (en_clock En (8 + i))) (\<lambda>recorded_at.
        Ok \<lparr>wr_expected_published_heads = current_heads,
            wr_entity =
              \<lparr>ec_key = wk_key c, ec_expected_heads = sn_head_versions (wk_staged c), ec_new_versions = new_versions,
               ec_head_versions = head_versions, ec_change_kind = Updated, ec_causal_token = en_uuid En 2 i,
               ec_event_meta_json = ''{}'', ec_write_session_keys = [], ec_ordering_key_json = None,
               ec_recorded_at_unix_ms = recorded_at, ec_deadline_unix_ms = None\<rparr>\<rparr>)))))))"

definition collect_resolution ::
  "('p, 'd) engine_env \<Rightarrow> nat \<times> WorkUnitConflict \<Rightarrow> WorkUnitResolution list \<times> EntityVersionConflict list
   \<Rightarrow> (WorkUnitResolution list \<times> EntityVersionConflict list) bresult" where
  "collect_resolution En entry acc =
     (case entry of (i, c) \<Rightarrow>
      case resolve_publication_conflict En i c of
        Inr r \<Rightarrow> Ok (fst acc @ [r], snd acc)
      | Inl e \<Rightarrow>
          if be_reason e = VersionConflict
          then Ok (fst acc,
                   snd acc @ (if be_conflicts e = []
                              then [\<lparr>vc_entity_ref = conflict_ref c, vc_current_versions = be_current_versions e\<rparr>]
                              else be_conflicts e))
          else Err e)"

definition resolve_publication_conflicts ::
  "('p, 'd) engine_env \<Rightarrow> WorkUnitConflict list \<Rightarrow> WorkUnitResolution list bresult" where
  "resolve_publication_conflicts En cs =
     bindR (foldR (collect_resolution En) (enumerate 0 cs) ([], [])) (\<lambda>(resolutions, rejected).
       if rejected = [] then Ok resolutions else Err (entity_conflicts rejected))"

section \<open>Committing\<close>

definition commit_outcome :: "EntityCommitOutcome \<Rightarrow> EntitySnapshot option bresult" where
  "commit_outcome out = (case out of Committed \<Rightarrow> Ok None | Conflict current \<Rightarrow> Err (version_conflict current))"

definition publish_resolved ::
  "('p, 'd) engine_env \<Rightarrow> WorkUnit \<Rightarrow> EntityKey \<Rightarrow> ReadConsistency \<Rightarrow> WorkUnitResolution list
   \<Rightarrow> ('p, EntitySnapshot option) engine_step" where
  "publish_resolved En wu key post_commit_consistency resolutions =
     bindE (liftE (time_ms (en_clock En 6))) (\<lambda>recorded_at.
     bindE (provider_call En 3 (\<lambda>P. p_publish_work_unit P
              \<lparr>wp_work_unit = wu, wp_resolutions = resolutions, wp_recorded_at_unix_ms = recorded_at\<rparr>)) (\<lambda>out.
     if out = WcPublished
     then bindE (provider_call En 4 (\<lambda>P. p_read_entity P key post_commit_consistency)) (\<lambda>r.
            liftE (bindR (consistent_value r) (\<lambda>(sn, _). Ok sn)))
     else liftE (bindR (map_work_unit_outcome out) (\<lambda>_. Ok None))))"

definition commit_selected ::
  "('p, 'd) engine_env \<Rightarrow> PolicySelection \<Rightarrow> SelectedWorkUnit option \<Rightarrow> EntityCommit \<Rightarrow> IdempotencyRecord option
   \<Rightarrow> ('p, EntitySnapshot option) engine_step" where
  "commit_selected En sel wu commit record =
     (let X = en_codec En in
      bindE (liftE (read_consistency X [sel] (ec_deadline_unix_ms commit) True)) (\<lambda>post_commit_consistency.
      case wu of
        None \<Rightarrow> bindE (provider_call En 2 (\<lambda>P. p_commit_entity P commit)) (\<lambda>out. liftE (commit_outcome out))
      | Some w \<Rightarrow>
          bindE (provider_call En 2 (\<lambda>P. p_commit_entity_in_work_unit P
                   \<lparr>wc_work_unit = sw_work_unit w, wc_entity = commit, wc_conflict_policy_json = cx_plan_json X (se_conflict sel),
                    wc_idempotency = record, wc_close = sw_close w\<rparr>)) (\<lambda>out.
          case out of
            WcPublicationConflict cs \<Rightarrow>
              bindE (liftE (resolve_publication_conflicts En cs)) (\<lambda>resolutions.
                publish_resolved En (sw_work_unit w) (ec_key commit) post_commit_consistency resolutions)
          | _ \<Rightarrow> liftE (bindR (map_work_unit_outcome out) (\<lambda>_. Ok None)))))"

record mutation_start =
  ms_deadline :: RequestDeadline
  ms_selection :: PolicySelection
  ms_work_unit :: "SelectedWorkUnit option"
  ms_consistency :: ReadConsistency
  ms_idempotency :: "PreparedIdempotency option"

text \<open>What \<open>create\<close>, \<open>update\<close> and \<open>delete\<close> begin with, and how they end.\<close>

definition begin_mutation ::
  "('p, 'd) engine_env \<Rightarrow> string \<Rightarrow> Meta \<Rightarrow> string \<Rightarrow> RequestData \<Rightarrow> ('p, mutation_start) engine_step" where
  "begin_mutation En ty meta operation data =
     bindE (liftE (deadline_from_meta meta)) (\<lambda>deadline.
     bindE (liftE (deadline_check_now (en_clock En 0) deadline)) (\<lambda>_.
     bindE (liftE (engine_select En ty meta)) (\<lambda>sel.
     bindE (liftE (deadline_check_now (en_clock En 1) deadline)) (\<lambda>_.
     bindE (liftE (selected_work_unit (en_codec En) (en_clock En 2) sel deadline)) (\<lambda>wu.
     bindE (liftE (read_consistency (en_codec En) [sel] deadline True)) (\<lambda>consistency.
     bindE (prepare_idempotency En sel wu consistency operation data) (\<lambda>idem.
       liftE (Ok \<lparr>ms_deadline = deadline, ms_selection = sel, ms_work_unit = wu, ms_consistency = consistency,
                  ms_idempotency = idem\<rparr>))))))))"

definition finish_mutation ::
  "('p, 'd) engine_env \<Rightarrow> mutation_start \<Rightarrow> EntityCommit \<Rightarrow> MutationResult \<Rightarrow> (EntitySnapshot \<Rightarrow> MutationResult bresult)
   \<Rightarrow> ('p, MutationResult) engine_step" where
  "finish_mutation En ms commit result from_snapshot =
     (case (ms_work_unit ms, ms_idempotency ms) of
        (None, Some prepared) \<Rightarrow> commit_idempotent En commit prepared result
      | (wu, idem) \<Rightarrow>
          bindE (liftE (case idem of
                          None \<Rightarrow> Ok None
                        | Some prepared \<Rightarrow> bindR (idempotency_record En prepared result) (\<lambda>r. Ok (Some r)))) (\<lambda>record.
          bindE (commit_selected En (ms_selection ms) wu commit record) (\<lambda>sn.
            liftE (case sn of None \<Rightarrow> Ok result | Some sn \<Rightarrow> from_snapshot sn))))"

text \<open>The fields every commit of the engine takes from the selection and the clock.\<close>

definition engine_commit ::
  "('p, 'd) engine_env \<Rightarrow> mutation_start \<Rightarrow> EntityKey \<Rightarrow> string list \<Rightarrow> StoredEntityVersion list \<Rightarrow> string list
   \<Rightarrow> StoredChangeKind \<Rightarrow> string \<Rightarrow> EntityCommit bresult" where
  "engine_commit En ms key expected new_versions heads kind token =
     bindR (time_ms (en_clock En 4)) (\<lambda>recorded_at.
       Ok \<lparr>ec_key = key, ec_expected_heads = expected, ec_new_versions = new_versions, ec_head_versions = heads,
           ec_change_kind = kind, ec_causal_token = token,
           ec_event_meta_json = map_json (en_codec En) (se_fields (ms_selection ms)),
           ec_write_session_keys = write_session_keys (en_codec En) (ms_selection ms),
           ec_ordering_key_json = ordering_key_json (en_codec En) (ms_selection ms),
           ec_recorded_at_unix_ms = recorded_at, ec_deadline_unix_ms = ms_deadline ms\<rparr>)"

section \<open>Create\<close>

definition create_commit ::
  "('p, 'd) engine_env \<Rightarrow> mutation_start \<Rightarrow> EntityRef \<Rightarrow> Value \<Rightarrow> (EntityCommit \<times> MutationResult) bresult" where
  "create_commit En ms r v =
     (let X = en_codec En; A = en_automerge En; sel = ms_selection ms; version = en_uuid En 1 0 in
      bindR (initial_crdt_fields X A (se_conflict sel) v) (\<lambda>fs.
      bindR (active_stored_version X A version v fs) (\<lambda>stored.
      bindR (engine_commit En ms (entity_key X sel r) [] [stored] [version] Created version) (\<lambda>commit.
        Ok (commit, (mutation_result r version v)\<lparr>rr_meta := consistency_meta sel (Some version)\<rparr>)))))"

definition created_ref :: "('p, 'd) engine_env \<Rightarrow> CreateEntityData \<Rightarrow> EntityRef" where
  "created_ref En d =
     \<lparr>er_entity_type = cd_entity_type d, er_id = (case cd_id d of Some i \<Rightarrow> i | None \<Rightarrow> en_uuid En 0 0)\<rparr>"

definition validated :: "('p, 'd) engine_env \<Rightarrow> string \<Rightarrow> Value \<Rightarrow> unit bresult" where
  "validated En ty v = map_err (\<lambda>_. invalid_request) (validate_entity_value (en_config_env En) (en_config En) ty v)"

definition create :: "('p, 'd) engine_env \<Rightarrow> CreateEntityData RpcParams \<Rightarrow> ('p, MutationResult) engine_step" where
  "create En params =
     (let d = rp_data params; X = en_codec En in
      bindE (begin_mutation En (cd_entity_type d) (rp_meta params) ''create'' (CreateData d)) (\<lambda>ms.
      bindE (liftE (replayed X (ms_idempotency ms))) (\<lambda>replay.
      case replay of
        Some result \<Rightarrow> liftE (Ok result)
      | None \<Rightarrow>
          bindE (liftE (validated En (cd_entity_type d) (cd_value d))) (\<lambda>_.
          let r = created_ref En d in
          bindE (read_selected En (ms_work_unit ms) (entity_key X (ms_selection ms) r) (ms_consistency ms)) (\<lambda>(sn, _).
          case sn of
            Some sn \<Rightarrow> liftE (Err (version_conflict (sn_head_versions sn)))
          | None \<Rightarrow>
              bindE (liftE (create_commit En ms r (cd_value d))) (\<lambda>(commit, result).
                finish_mutation En ms commit result (active_mutation_result X r)))))))"

section \<open>Read\<close>

definition engine_read :: "('p, 'd) engine_env \<Rightarrow> ReadEntityData RpcParams \<Rightarrow> ('p, ReadEntityResult) engine_step" where
  "engine_read En params =
     (let r = rd_entity_ref (rp_data params); X = en_codec En in
      bindE (liftE (deadline_from_meta (rp_meta params))) (\<lambda>deadline.
      bindE (liftE (deadline_check_now (en_clock En 0) deadline)) (\<lambda>_.
      bindE (liftE (engine_select En (er_entity_type r) (rp_meta params))) (\<lambda>sel.
      bindE (liftE (deadline_check_now (en_clock En 1) deadline)) (\<lambda>_.
      bindE (liftE (selected_work_unit X (en_clock En 2) sel deadline)) (\<lambda>wu.
      bindE (liftE (read_consistency X [sel] deadline False)) (\<lambda>consistency.
      bindE (read_selected En wu (entity_key X sel r) consistency) (\<lambda>(sn, observation).
      bindE (liftE (ok_or sn not_found)) (\<lambda>sn.
      bindE (liftE (deadline_check_now (en_clock En 7) deadline)) (\<lambda>_.
      bindE (liftE (head_entities X r sn)) (\<lambda>variants.
        liftE (Ok \<lparr>rr_meta = consistency_meta sel (ob_causal_token observation),
                   rr_data = \<lparr>rs_state = read_state variants, rs_variants = variants\<rparr>\<rparr>))))))))))))"

section \<open>Update\<close>

record placed_variants =
  pv_new_versions :: "StoredEntityVersion list"
  pv_heads :: "string list"
  pv_accepted :: "(string \<times> Value) option"

definition place_variant ::
  "('p, 'd) engine_env \<Rightarrow> ConflictCandidate \<Rightarrow> placed_variants \<Rightarrow> placed_variants bresult" where
  "place_variant En c pv =
     (case cand_source_version c of
        Some version \<Rightarrow> Ok (pv\<lparr>pv_heads := pv_heads pv @ [version]\<rparr>)
      | None \<Rightarrow>
          let version = en_uuid En 1 (length (pv_new_versions pv)) in
          bindR (active_stored_version (en_codec En) (en_automerge En) version (cand_value c) (cand_crdt_fields c)) (\<lambda>stored.
            Ok \<lparr>pv_new_versions = pv_new_versions pv @ [stored], pv_heads = pv_heads pv @ [version],
                pv_accepted = (if pv_accepted pv = None then Some (version, cand_value c) else pv_accepted pv)\<rparr>))"

definition update_commit ::
  "('p, 'd) engine_env \<Rightarrow> mutation_start \<Rightarrow> EntityRef \<Rightarrow> EntitySnapshot \<Rightarrow> Value \<Rightarrow> (EntityCommit \<times> MutationResult) bresult" where
  "update_commit En ms r sn v =
     (let X = en_codec En; A = en_automerge En; sel = ms_selection ms; plan = se_conflict sel; heads = sn_head_versions sn in
      bindR (selected_bases plan sn) (\<lambda>bases.
      bindR (reject_unless_exact_heads plan sn bases) (\<lambda>_.
      bindR (concurrent_heads sn bases) (\<lambda>concurrent.
      if cpl_strategy plan = Reject \<and> concurrent \<noteq> [] then Err (version_conflict heads)
      else
      bindR (map_err (with_current_versions heads) (prepare_candidate X A plan bases v)) (\<lambda>proposed.
      bindR (foldR (sort_head X A) concurrent ([proposed], [])) (\<lambda>(active_candidates, preserved_deleted).
      if preserved_deleted \<noteq> [] \<and> cpl_otherwise plan = FallbackReject then Err (version_conflict heads)
      else
      bindR (map_err (\<lambda>e. with_current_versions heads (conflict_backend_error e))
              (resolve_prepared_conflict (cx_json X) A plan active_candidates)) (\<lambda>resolved.
      bindR (foldR (place_variant En) (res_variants resolved)
              \<lparr>pv_new_versions = [], pv_heads = preserved_deleted, pv_accepted = None\<rparr>) (\<lambda>pv.
      bindR (ok_or (pv_accepted pv) (backend_error_new Overloaded)) (\<lambda>(version, accepted).
      bindR (engine_commit En ms (entity_key X sel r) heads (pv_new_versions pv) (pv_heads pv)
              (mutation_change_kind sn (pv_heads pv) False) version) (\<lambda>commit.
        Ok (commit, (mutation_result r version accepted)\<lparr>rr_meta := consistency_meta sel (Some version)\<rparr>)))))))))))"

definition update :: "('p, 'd) engine_env \<Rightarrow> UpdateEntityData RpcParams \<Rightarrow> ('p, MutationResult) engine_step" where
  "update En params =
     (let d = rp_data params; r = ud_entity_ref d; X = en_codec En in
      bindE (begin_mutation En (er_entity_type r) (rp_meta params) ''update'' (UpdateData d)) (\<lambda>ms.
      bindE (liftE (replayed X (ms_idempotency ms))) (\<lambda>replay.
      case replay of
        Some result \<Rightarrow> liftE (Ok result)
      | None \<Rightarrow>
          bindE (liftE (validated En (er_entity_type r) (ud_value d))) (\<lambda>_.
          bindE (read_selected En (ms_work_unit ms) (entity_key X (ms_selection ms) r) (ms_consistency ms)) (\<lambda>(sn, _).
          bindE (liftE (ok_or sn not_found)) (\<lambda>sn.
          bindE (liftE (update_commit En ms r sn (ud_value d))) (\<lambda>(commit, result).
            finish_mutation En ms commit result (active_mutation_result X r))))))))"

section \<open>Delete\<close>

definition delete_commit ::
  "('p, 'd) engine_env \<Rightarrow> mutation_start \<Rightarrow> EntityRef \<Rightarrow> EntitySnapshot \<Rightarrow> (EntityCommit \<times> MutationResult) bresult" where
  "delete_commit En ms r sn =
     (let X = en_codec En; sel = ms_selection ms; plan = se_conflict sel; version = en_uuid En 1 0 in
      bindR (selected_bases plan sn) (\<lambda>bases.
      bindR (reject_unless_exact_heads plan sn bases) (\<lambda>_.
      bindR (concurrent_heads sn bases) (\<lambda>concurrent.
      if concurrent \<noteq> [] \<and> (cpl_strategy plan = Reject \<or> cpl_otherwise plan = FallbackReject)
      then Err (version_conflict (sn_head_versions sn))
      else
        let heads = map sv_version concurrent @ [version];
            deleted = \<lparr>sv_version = version, sv_state = Deleted, sv_value_json = None, sv_crdt_fields = []\<rparr> in
        bindR (engine_commit En ms (entity_key X sel r) (sn_head_versions sn) [deleted] heads
                (mutation_change_kind sn heads True) version) (\<lambda>commit.
          Ok (commit, \<lparr>rr_meta = consistency_meta sel (Some version), rr_data = \<lparr>md_entity = EDeleted r version\<rparr>\<rparr>))))))"

definition delete :: "('p, 'd) engine_env \<Rightarrow> DeleteEntityData RpcParams \<Rightarrow> ('p, MutationResult) engine_step" where
  "delete En params =
     (let d = rp_data params; r = dd_entity_ref d; X = en_codec En in
      bindE (begin_mutation En (er_entity_type r) (rp_meta params) ''delete'' (DeleteData d)) (\<lambda>ms.
      bindE (liftE (replayed X (ms_idempotency ms))) (\<lambda>replay.
      case replay of
        Some result \<Rightarrow> liftE (Ok result)
      | None \<Rightarrow>
          bindE (read_selected En (ms_work_unit ms) (entity_key X (ms_selection ms) r) (ms_consistency ms)) (\<lambda>(sn, _).
          bindE (liftE (ok_or sn not_found)) (\<lambda>sn.
          bindE (liftE (delete_commit En ms r sn)) (\<lambda>(commit, result).
            finish_mutation En ms commit result (\<lambda>_. Ok result)))))))"

section \<open>Retrieve\<close>

definition retrieval_types :: "BackendConfig \<Rightarrow> RetrieveEntitiesData \<Rightarrow> string list bresult" where
  "retrieval_types cfg d =
     (if rt_limit d = 0 \<or> rt_limit d > 100 then Err invalid_request
      else if (case rt_types d of None \<Rightarrow> False
               | Some types \<Rightarrow> types = [] \<or> list_ex (\<lambda>name. map_of (entity_types cfg) name = None) types)
      then Err invalid_request
      else Ok (sort_dedup (case rt_types d of Some types \<Rightarrow> types | None \<Rightarrow> map fst (entity_types cfg))))"

definition work_unit_retrieve :: "WorkUnitRetrieveOutcome \<Rightarrow> (RetrievedPage \<times> ReadObservation) bresult" where
  "work_unit_retrieve out =
     (case out of
        WtOpen r \<Rightarrow> consistent_value r
      | WtClosing \<Rightarrow> Err closed_work_unit
      | WtPolicyMismatch \<Rightarrow> Err work_unit_policy_mismatch
      | WtCommitted \<Rightarrow> Err closed_work_unit
      | WtExpired \<Rightarrow> Err expired_work_unit)"

definition retrieval_hit :: "wire_codec \<Rightarrow> RetrievedEntity \<Rightarrow> RetrievalHit bresult" where
  "retrieval_hit X e =
     bindR (head_entities X \<lparr>er_entity_type = entity_type (re_key e), er_id = entity_id (re_key e)\<rparr> (re_snapshot e)) (\<lambda>variants.
       Ok \<lparr>rh_score = re_score e, rh_variants = variants\<rparr>)"

definition extend_meta :: "Meta \<Rightarrow> Meta \<Rightarrow> Meta" where
  "extend_meta m n = fold (\<lambda>(k, v). btree_insert k v) n m"

definition retrieval_meta :: "query_codec \<Rightarrow> PolicySelection list \<Rightarrow> RetrievedPage \<Rightarrow> ReadObservation \<Rightarrow> Meta" where
  "retrieval_meta Q sels page ob =
     (let meta = fold (\<lambda>sel m. extend_meta m (consistency_meta sel (ob_causal_token ob))) sels [] in
      case rp_next_cursor page of
        None \<Rightarrow> meta
      | Some cursor \<Rightarrow> btree_insert ''next_cursor'' (String (encode_cursor Q cursor)) meta)"

definition retrieve ::
  "('p, 'd) engine_env \<Rightarrow> RetrieveEntitiesData RpcParams \<Rightarrow> ('p, RetrieveEntitiesResult) engine_step" where
  "retrieve En params =
     (let d = rp_data params; X = en_codec En; meta = rp_meta params in
      bindE (liftE (deadline_from_meta meta)) (\<lambda>deadline.
      bindE (liftE (deadline_check_now (en_clock En 0) deadline)) (\<lambda>_.
      bindE (liftE (retrieval_types (en_config En) d)) (\<lambda>types.
      bindE (liftE (mapR (\<lambda>ty. engine_select En ty meta) types)) (\<lambda>sels.
      bindE (liftE (deadline_check_now (en_clock En 1) deadline)) (\<lambda>_.
      bindE (liftE (read_consistency X sels deadline False)) (\<lambda>consistency.
      bindE (liftE (selected_retrieval_work_unit X (\<lambda>i. en_clock En (8 + i)) sels deadline)) (\<lambda>wu.
      bindE (liftE (map_err (\<lambda>_. invalid_request) (select_scope (en_config_env En) (en_config En) (Object meta)))) (\<lambda>scope.
      bindE (liftE (parse_query (en_query En) (map_json X scope) types (rt_query d) (rt_limit d))) (\<lambda>query.
      bindE (case wu of
               Some w \<Rightarrow> bindE (provider_call En 1 (\<lambda>P. p_retrieve_entities_in_work_unit P (sw_work_unit w) query consistency)) (\<lambda>out.
                 liftE (work_unit_retrieve out))
             | None \<Rightarrow> bindE (provider_call En 1 (\<lambda>P. p_retrieve_entities P query consistency)) (\<lambda>out.
                 liftE (consistent_value out))) (\<lambda>(page, ob).
      bindE (liftE (deadline_check_now (en_clock En 7) deadline)) (\<lambda>_.
      bindE (liftE (mapR (retrieval_hit X) (rp_entities page))) (\<lambda>hits.
        liftE (Ok \<lparr>rr_meta = retrieval_meta (en_query En) sels page ob, rr_data = \<lparr>rh_hits = hits\<rparr>\<rparr>))))))))))))))"

section \<open>Subscribe\<close>

text \<open>\<open>u64::from_str\<close>, on the digits after an optional plus sign, and \<open>u64::to_string\<close>.\<close>

definition digit_of :: "char \<Rightarrow> nat option" where
  "digit_of c = (if 48 \<le> (of_char c :: nat) \<and> (of_char c :: nat) \<le> 57 then Some (of_char c - 48) else None)"

fun parse_digits :: "string \<Rightarrow> nat \<Rightarrow> nat option" where
  "parse_digits [] n = Some n"
| "parse_digits (c # cs) n =
     Option.bind (digit_of c) (\<lambda>d. Option.bind (checked_mul_u64 n 10) (\<lambda>n.
       Option.bind (checked_add_u64 n d) (parse_digits cs)))"

definition parse_change_cursor :: "string \<Rightarrow> nat bresult" where
  "parse_change_cursor s =
     (let digits = (if take 1 s = ''+'' then tl s else s) in
      if digits = [] then Err invalid_request else ok_or (parse_digits digits 0) invalid_request)"

fun show_u64 :: "nat \<Rightarrow> string" where
  "show_u64 n = (if n < 10 then [char_of (48 + n)] else show_u64 (n div 10) @ [char_of (48 + n mod 10)])"

declare show_u64.simps [simp del]

definition retained_after :: "nat option \<Rightarrow> nat \<Rightarrow> nat bresult" where
  "retained_after clk retention_seconds =
     bindR (ok_or (checked_mul_u64 retention_seconds 1000) invalid_request) (\<lambda>retention_ms.
     bindR (time_ms clk) (\<lambda>now. Ok (saturating_sub_u64 now retention_ms)))"

definition validate_change_cursor :: "nat \<Rightarrow> ChangePage \<Rightarrow> unit bresult" where
  "validate_change_cursor cursor page =
     (if cursor > current_cursor page
         \<or> (case oldest_cursor page of None \<Rightarrow> False | Some oldest \<Rightarrow> saturating_add_u64 cursor 1 < oldest)
      then Err (backend_error_new CursorExpired) else Ok ())"

text \<open>A subscription is polling from a cursor or waiting for the scope to move past it.\<close>

datatype stream_state = Polling nat | Waiting nat

record ChangeSubscription =
  su_scope :: string
  su_filter :: ChangeFilter
  su_cursor :: nat
  su_stream :: stream_state

definition change_query ::
  "('p, 'd) engine_env \<Rightarrow> nat \<Rightarrow> string \<Rightarrow> ChangeFilter \<Rightarrow> nat \<Rightarrow> nat \<Rightarrow> ChangeQuery bresult" where
  "change_query En i scope flt after limit =
     bindR (retained_after (en_clock En i) (rp_changes_seconds (bc_retention (en_config En)))) (\<lambda>retained.
       Ok \<lparr>cq_scope_json = scope, cq_entity_types = cf_types flt, cq_entity_ids = cf_ids flt,
           cq_after_cursor = after, cq_limit = limit, cq_retained_after_unix_ms = retained\<rparr>)"

definition subscribe ::
  "('p, 'd) engine_env \<Rightarrow> SubscribeChangesData RpcParams \<Rightarrow> ('p, ChangeSubscription) engine_step" where
  "subscribe En params =
     (let d = rp_data params;
          flt = (case sb_filter d of None \<Rightarrow> \<lparr>cf_types = None, cf_ids = None\<rparr> | Some f \<Rightarrow> f) in
      bindE (liftE (deadline_from_meta (rp_meta params))) (\<lambda>deadline.
      bindE (liftE (deadline_check_now (en_clock En 0) deadline)) (\<lambda>_.
      bindE (liftE (map_err (\<lambda>_. invalid_request) (select_scope (en_config_env En) (en_config En) (Object (rp_meta params))))) (\<lambda>scope.
      let scope = map_json (en_codec En) scope in
      bindE (liftE (change_query En 2 scope flt 0 1)) (\<lambda>query.
      bindE (provider_call En 0 (\<lambda>P. p_read_changes P query)) (\<lambda>probe.
      bindE (liftE (deadline_check_now (en_clock En 1) deadline)) (\<lambda>_.
      bindE (liftE (case sb_after_cursor d of Some c \<Rightarrow> parse_change_cursor c | None \<Rightarrow> Ok (current_cursor probe))) (\<lambda>cursor.
      bindE (liftE (validate_change_cursor cursor probe)) (\<lambda>_.
        liftE (Ok \<lparr>su_scope = scope, su_filter = flt, su_cursor = cursor, su_stream = Polling cursor\<rparr>))))))))))"

definition change_kind :: "StoredChangeKind \<Rightarrow> ChangeKind" where
  "change_kind k =
     (case k of Conflicted \<Rightarrow> CkConflicted | Created \<Rightarrow> CkCreated | DeletedKind \<Rightarrow> CkDeleted
      | Resolved \<Rightarrow> CkResolved | Updated \<Rightarrow> CkUpdated)"

definition published_change :: "Meta \<Rightarrow> StoredChange \<Rightarrow> PublishedChange" where
  "published_change meta ch =
     \<lparr>pc_meta = meta,
      pc_change = \<lparr>cr_cursor = show_u64 (ch_cursor ch),
        cr_entity_ref = \<lparr>er_entity_type = ch_entity_type ch, er_id = ch_entity_id ch\<rparr>,
        cr_kind = change_kind (ch_kind ch), cr_head_versions = ch_head_versions ch\<rparr>\<rparr>"

text \<open>The loop over a page yields its events one by one; an invalid one ends the stream after the
  events before it.\<close>

fun yield_changes :: "wire_codec \<Rightarrow> nat \<Rightarrow> StoredChange list \<Rightarrow> PublishedChange list \<times> nat bresult" where
  "yield_changes X cursor [] = ([], Ok cursor)"
| "yield_changes X cursor (ch # chs) =
     (case cx_meta_from X (ch_event_meta_json ch) of
        None \<Rightarrow> ([], Err provider_corruption)
      | Some meta \<Rightarrow> (case yield_changes X (ch_cursor ch) chs of (evs, r) \<Rightarrow> (published_change meta ch # evs, r)))"

text \<open>One turn of the stream: the events it yields, and the state it goes on in or the error it ends with.\<close>

definition stream_turn ::
  "('p, 'd) engine_env \<Rightarrow> string \<Rightarrow> ChangeFilter \<Rightarrow> stream_state \<Rightarrow> 'p \<Rightarrow> (PublishedChange list \<times> stream_state bresult) \<times> 'p" where
  "stream_turn En scope flt st s =
     (case st of
        Waiting cursor \<Rightarrow>
          (case provider_call En 0 (\<lambda>P. p_wait_for_changes P scope cursor) s of
             (Inl e, s) \<Rightarrow> (([], Err e), s)
           | (Inr None, s) \<Rightarrow> (([], Ok (Waiting cursor)), s)
           | (Inr (Some _), s) \<Rightarrow> (([], Ok (Polling cursor)), s))
      | Polling cursor \<Rightarrow>
          (case bindE (liftE (change_query En 0 scope flt cursor 256)) (\<lambda>query.
                bindE (provider_call En 0 (\<lambda>P. p_read_changes P query)) (\<lambda>page.
                bindE (liftE (validate_change_cursor cursor page)) (\<lambda>_. liftE (Ok page)))) s of
             (Inl e, s) \<Rightarrow> (([], Err e), s)
           | (Inr page, s) \<Rightarrow>
               if page_changes page = [] then (([], Ok (Waiting (current_cursor page))), s)
               else (case yield_changes (en_codec En) cursor (page_changes page) of (evs, r) \<Rightarrow>
                       ((evs, bindR r (\<lambda>cursor. Ok (Polling cursor))), s))))"

end
