(* ===== verification/Engine_Capabilities.thy ===== *)
theory Engine_Capabilities
  imports Backend_Engine Sqlite_Store
begin

text \<open>
  What starting the engine guarantees: a configuration the provider was accepted for selects no
  plan that needs a capability the provider lacks.
\<close>

section \<open>Accepted behaviours\<close>

lemma check_capability_Inr [simp]: "check_capability b = Inr u \<longleftrightarrow> b"
  by (simp add: check_capability_def)

definition behavior_supported :: "ProviderCapabilities \<Rightarrow> Behavior \<Rightarrow> bool" where
  "behavior_supported caps b \<longleftrightarrow>
     (let acquire = cp_acquire (bh_consistency b) in
      Authority \<in> set (allow_sources acquire)
      \<and> (list_ex is_causal (requirements acquire) \<longrightarrow> causal_reads caps)
      \<and> (list_ex is_linearizable (requirements acquire) \<longrightarrow> linearizable_reads caps)
      \<and> (\<forall>s \<in> set (cp_sessions (bh_consistency b)).
           (MonotonicReads \<in> set (se_guarantees s) \<longrightarrow> monotonic_reads caps)
           \<and> (ReadYourWrites \<in> set (se_guarantees s) \<longrightarrow> read_your_writes caps))
      \<and> (bh_idempotency b \<noteq> IdempotencyDisabled \<longrightarrow> idempotency caps)
      \<and> (is_batch (bh_publication b) \<longrightarrow> work_units caps))"

lemma check_sessions_Ok:
  "foldR (check_session_capability caps) ss () = Inr () \<longleftrightarrow>
     (\<forall>s \<in> set ss. (MonotonicReads \<in> set (se_guarantees s) \<longrightarrow> monotonic_reads caps)
        \<and> (ReadYourWrites \<in> set (se_guarantees s) \<longrightarrow> read_your_writes caps))"
  unfolding foldR_unit by (auto simp: check_session_capability_def bindR_eq_Inr)

lemma check_behavior_Ok:
  assumes "authority caps"
  shows "check_behavior_capabilities caps b () = Inr () \<longleftrightarrow> behavior_supported caps b"
  using assms
  by (auto simp: check_behavior_capabilities_def behavior_supported_def Let_def bindR_eq_Inr check_sessions_Ok)

lemma validate_capabilities_Ok:
  "validate_provider_capabilities cfg caps = Inr () \<longleftrightarrow>
     change_stream caps \<and> retrieval caps \<and> authority caps
     \<and> (\<forall>(ty, policy) \<in> set (entity_types cfg). \<forall>b \<in> set (behaviors policy). behavior_supported caps b)"
  by (auto simp: validate_provider_capabilities_def bindR_eq_Inr foldR_unit check_behavior_Ok split: prod.splits)

section \<open>Plans of an accepted behaviour\<close>

lemma plan_needs:
  assumes "build_consistency_plan ty fs scope b = Inr p" and "behavior_supported caps b"
  shows "Authority \<in> set (cn_allowed_sources p)"
    and "cn_causal p \<noteq> [] \<longrightarrow> causal_reads caps"
    and "cn_linearization_key p \<noteq> None \<longrightarrow> linearizable_reads caps"
    and "\<forall>s \<in> set (cn_sessions p). (MonotonicReads \<in> set (sp_guarantees s) \<longrightarrow> monotonic_reads caps)
           \<and> (ReadYourWrites \<in> set (sp_guarantees s) \<longrightarrow> read_your_writes caps)"
proof -
  let ?c = "bh_consistency b" let ?reqs = "requirements (cp_acquire ?c)"
  from assms(1) obtain sk allowed causal lin sessions ok where
    A: "foldR (acquire_requirement ty fs scope) ?reqs (source_set (allow_sources (cp_acquire ?c)), [], None)
      = Inr (allowed, causal, lin)" and
    S: "mapR (\<lambda>session. bindR (control_key ty fs scope (se_key_by session)) (\<lambda>k.
               Ok \<lparr>sp_key = k, sp_guarantees = guarantee_set (se_guarantees session)\<rparr>)) (cp_sessions ?c) = Inr sessions" and
    p: "p = \<lparr>cn_snapshot_key = sk, cn_allowed_sources = allowed, cn_causal = causal, cn_linearization_key = lin,
      cn_sessions = sessions, cn_commit_ordering_key = ok\<rparr>"
    by (auto simp: build_consistency_plan_def Let_def bindR_eq_Inr)
  have allow: "Authority \<in> set (allow_sources (cp_acquire ?c))" using assms(2) by (simp add: behavior_supported_def Let_def)
  with acquire_requirements_Ok(2)[OF A] show "Authority \<in> set (cn_allowed_sources p)" by (simp add: p)
  let ?P = "\<lambda>(_, causal, lin). (causal \<noteq> [] \<longrightarrow> list_ex is_causal ?reqs) \<and> (lin \<noteq> None \<longrightarrow> list_ex is_linearizable ?reqs)"
  have "?P (allowed, causal, lin)" using A
  proof (rule foldR_invariant)
    fix r s s' assume "r \<in> set ?reqs" "?P s" "acquire_requirement ty fs scope r s = Inr s'"
    then show "?P s'"
      by (auto simp: acquire_requirement_def bindR_eq_Inr list_ex_iff is_causal_def
          split: AcquireRequirement.splits prod.splits intro: bexI[of _ r])
  qed simp
  then show "cn_causal p \<noteq> [] \<longrightarrow> causal_reads caps" "cn_linearization_key p \<noteq> None \<longrightarrow> linearizable_reads caps"
    using assms(2) by (simp_all add: p behavior_supported_def Let_def)
  show "\<forall>s \<in> set (cn_sessions p). (MonotonicReads \<in> set (sp_guarantees s) \<longrightarrow> monotonic_reads caps)
           \<and> (ReadYourWrites \<in> set (sp_guarantees s) \<longrightarrow> read_your_writes caps)"
  proof
    fix s assume "s \<in> set (cn_sessions p)"
    then have "s \<in> set sessions" by (simp add: p)
    from mapR_member[OF S this] obtain x :: SessionPolicy where x: "x \<in> set (cp_sessions ?c)"
      "bindR (control_key ty fs scope (se_key_by x)) (\<lambda>k.
        Ok \<lparr>sp_key = k, sp_guarantees = guarantee_set (se_guarantees x)\<rparr>) = Inr s" by blast
    then have "sp_guarantees s = guarantee_set (se_guarantees x)" by (auto simp: bindR_eq_Inr)
    with x(1) assms(2) show "(MonotonicReads \<in> set (sp_guarantees s) \<longrightarrow> monotonic_reads caps)
           \<and> (ReadYourWrites \<in> set (sp_guarantees s) \<longrightarrow> read_your_writes caps)"
      by (simp add: behavior_supported_def Let_def guarantee_set_def)
  qed
qed

lemma select_behavior_member: "select_behavior policy fs = (rule, b) \<Longrightarrow> b \<in> set (behaviors policy)"
  by (auto simp: select_behavior_def behaviors_def dest: find_SomeD split: option.splits)

section \<open>Reads of a single type\<close>

lemma read_consistency_single:
  assumes "Authority \<in> set (cn_allowed_sources (se_consistency sel))"
  shows "case read_consistency X [sel] d authority_only of
      Inl e \<Rightarrow> e = invalid_request \<and> (\<exists>c \<in> set (cn_causal (se_consistency sel)). \<exists>t. ca_minimum c = Some t \<and> as_str t = None)
    | Inr rc \<Rightarrow> Authority \<in> set (rc_allowed_sources rc) \<and> set (rc_allowed_sources rc) \<subseteq> set (cn_allowed_sources (se_consistency sel))
        \<and> rc_deadline_unix_ms rc = d"
proof -
  have err: "e = invalid_request \<and> (\<exists>c \<in> set cs. \<exists>t. ca_minimum c = Some t \<and> as_str t = None)"
    if "causal_tokens cs ts = Inl e" for cs ts e
    using that unfolding causal_tokens_def
    by (induction cs arbitrary: ts) (auto simp: bindR_eq_Inl split: option.splits)
  show ?thesis
    using assms
    by (auto simp: read_consistency_def add_selection_def Let_def bindR_eq_Inl bindR_eq_Inr filter_empty_conv
        split: sum.splits if_splits dest!: err)
qed

text \<open>
  C33. A configuration the engine started with never asks its provider for what it cannot do. If
  the capability check accepted the provider, then every policy selected under the configuration
  admits authority reads; it has causal, linearizable, monotonic or read-your-writes obligations,
  an idempotency key or a work unit only if the provider has that capability; and building the read
  consistency of a request fails only on a causal token that is not a string, never for want of a
  source.
\<close>
theorem selections_are_supported:
  assumes "validate_provider_capabilities cfg caps = Inr ()" and "select_policy C cfg ty meta = Inr sel"
  shows "Authority \<in> set (cn_allowed_sources (se_consistency sel)) \<and> authority caps
    \<and> (cn_causal (se_consistency sel) \<noteq> [] \<longrightarrow> causal_reads caps)
    \<and> (cn_linearization_key (se_consistency sel) \<noteq> None \<longrightarrow> linearizable_reads caps)
    \<and> (\<forall>s \<in> set (cn_sessions (se_consistency sel)).
         (MonotonicReads \<in> set (sp_guarantees s) \<longrightarrow> monotonic_reads caps)
         \<and> (ReadYourWrites \<in> set (sp_guarantees s) \<longrightarrow> read_your_writes caps))
    \<and> (se_idempotency_key sel \<noteq> None \<longrightarrow> idempotency caps)
    \<and> (se_publication_key sel \<noteq> None \<longrightarrow> work_units caps)
    \<and> (case read_consistency X [sel] d authority_only of
         Inl e \<Rightarrow> e = invalid_request \<and> (\<exists>c \<in> set (cn_causal (se_consistency sel)). \<exists>t. ca_minimum c = Some t \<and> as_str t = None)
       | Inr rc \<Rightarrow> Authority \<in> set (rc_allowed_sources rc)
           \<and> set (rc_allowed_sources rc) \<subseteq> set (cn_allowed_sources (se_consistency sel)) \<and> rc_deadline_unix_ms rc = d)"
proof -
  obtain policy where P: "map_of (entity_types cfg) ty = Some policy"
    "select_behavior policy (se_fields sel) = (se_rule sel, se_behavior sel)"
    "build_consistency_plan ty (se_fields sel) (se_scope sel) (se_behavior sel) = Inr (se_consistency sel)"
    and K: "se_idempotency_key sel \<noteq> None \<longrightarrow> bh_idempotency (se_behavior sel) \<noteq> IdempotencyDisabled"
      "se_publication_key sel \<noteq> None \<longrightarrow> is_batch (bh_publication (se_behavior sel))"
    by (rule select_policy_Ok[OF assms(2)])
      (rule that, assumption+, auto simp: control_key_opt_def is_batch_def split: PublicationPolicy.splits IdempotencyPolicy.splits)
  have caps: "authority caps" "behavior_supported caps (se_behavior sel)"
    using assms(1) map_of_SomeD[OF P(1)] select_behavior_member[OF P(2)] by (auto simp: validate_capabilities_Ok)
  note N = plan_needs[OF P(3) caps(2)]
  have "(se_idempotency_key sel \<noteq> None \<longrightarrow> idempotency caps) \<and> (se_publication_key sel \<noteq> None \<longrightarrow> work_units caps)"
    using caps(2) K by (simp add: behavior_supported_def Let_def)
  with caps(1) N read_consistency_single[OF N(1), where X = X and d = d and authority_only = authority_only] show ?thesis by blast
qed

theorem selections_are_supported_witness:
  "validate_provider_capabilities sample_config sqlite_capabilities = Inr ()
   \<and> (case select_policy sample_config_env sample_config ''knowledge'' sample_meta of
        Inl e \<Rightarrow> False
      | Inr sel \<Rightarrow> Authority \<in> set (cn_allowed_sources (se_consistency sel)) \<and> se_idempotency_key sel \<noteq> None)"
proof -
  have v: "validate_provider_capabilities sample_config sqlite_capabilities = Inr ()" by code_simp
  have ok: "\<not> isl (select_policy sample_config_env sample_config ''knowledge'' sample_meta)"
    "se_idempotency_key (projr (select_policy sample_config_env sample_config ''knowledge'' sample_meta)) \<noteq> None" by code_simp+
  then obtain sel where sel: "select_policy sample_config_env sample_config ''knowledge'' sample_meta = Inr sel"
    by (cases "select_policy sample_config_env sample_config ''knowledge'' sample_meta") simp_all
  from selections_are_supported[OF v sel] v ok show ?thesis by (simp add: sel)
qed

end
