(* ===== verification/Engine_Mutations.thy ===== *)
theory Engine_Mutations
  imports Backend_Engine Sqlite_Store
begin

text \<open>
  What the handlers of the engine do to the store. The contract \<open>engine_store\<close> is what the engine
  relies on: an entity store, idempotency records, and a relation \<open>run\<close> of everything the provider
  may go through between two calls. The handlers are analysed once against the contract and then
  for the SQLite provider.
\<close>

section \<open>Steps\<close>

lemma bindE_Inr: "bindE m f s = (Inr y, s') \<longleftrightarrow> (\<exists>x t. m s = (Inr x, t) \<and> f x t = (Inr y, s'))"
  by (auto simp: bindE_def split: prod.splits sum.splits)

lemma liftE_eq [simp]: "liftE r s = (x, s') \<longleftrightarrow> r = x \<and> s' = s"
  by (auto simp: liftE_def)

lemma bindE_lift [simp]: "bindE (liftE (Inr x)) f = f x" "bindE (liftE (Inl e)) f = liftE (Inl e)"
  by (auto simp: bindE_def liftE_def fun_eq_iff)

lemma provider_call_Inr:
  "provider_call En i f s = (Inr r, s') \<longleftrightarrow> f (en_ops En i) (en_others En i s) = (Inr r, s')"
  by (auto simp: provider_call_def split: prod.splits)

lemma consistent_value_Inr: "consistent_value r = Inr x \<longleftrightarrow> r = Read (fst x) (snd x)"
  by (cases r) (auto simp: consistent_value_def)

lemma commit_outcome_Inr: "commit_outcome out = Inr sn \<longleftrightarrow> out = Committed \<and> sn = None"
  by (cases out) (auto simp: commit_outcome_def)

lemmas step_simps = bindE_Inr provider_call_Inr consistent_value_Inr commit_outcome_Inr

section \<open>Commits of the handlers\<close>

lemma active_stored_version_Ok:
  "active_stored_version X A version v fs = Inr stored \<Longrightarrow> version_content stored = (version, Active, Some (to_string (cx_json X) v))"
  by (auto simp: active_stored_version_def version_content_def bindR_eq_Inr)

lemma engine_commit_Ok:
  assumes "engine_commit En ms key expected new_versions heads kind token = Inr c"
  shows "ec_key c = key" "ec_expected_heads c = expected" "ec_new_versions c = new_versions" "ec_head_versions c = heads"
  using assms by (auto simp: engine_commit_def bindR_eq_Inr)

lemma create_commit_Ok:
  assumes "create_commit En ms r v = Inr (c, result)"
  shows "commit_wf c" "ec_key c = entity_key (en_codec En) (ms_selection ms) r" "ec_expected_heads c = []"
    "ec_head_versions c = [en_uuid En 1 0]"
    "version_content ` set (ec_new_versions c) = {(en_uuid En 1 0, Active, Some (to_string (cx_json (en_codec En)) v))}"
    "result = \<lparr>rr_meta = consistency_meta (ms_selection ms) (Some (en_uuid En 1 0)),
       rr_data = \<lparr>md_entity = EActive r (en_uuid En 1 0) v\<rparr>\<rparr>"
proof -
  let ?v = "en_uuid En 1 0"
  from assms obtain fs stored where S: "active_stored_version (en_codec En) (en_automerge En) ?v v fs = Inr stored"
    and C: "engine_commit En ms (entity_key (en_codec En) (ms_selection ms) r) [] [stored] [?v] Created ?v = Inr c"
    and R: "result = (mutation_result r ?v v)\<lparr>rr_meta := consistency_meta (ms_selection ms) (Some ?v)\<rparr>"
    by (auto simp: create_commit_def Let_def bindR_eq_Inr)
  note C = engine_commit_Ok[OF C] and V = active_stored_version_Ok[OF S]
  show "ec_key c = entity_key (en_codec En) (ms_selection ms) r" "ec_expected_heads c = []" "ec_head_versions c = [?v]"
    using C by simp_all
  show "version_content ` set (ec_new_versions c) = {(?v, Active, Some (to_string (cx_json (en_codec En)) v))}"
    using C V by simp
  show "commit_wf c" using C V by (simp add: commit_wf_def version_content_def)
  show "result = \<lparr>rr_meta = consistency_meta (ms_selection ms) (Some ?v), rr_data = \<lparr>md_entity = EActive r ?v v\<rparr>\<rparr>"
    using R by (simp add: mutation_result_def)
qed

text \<open>The versions a request names as its bases.\<close>

definition base_version_names :: "ConflictPlan \<Rightarrow> string list" where
  "base_version_names plan =
     (case cpl_base_versions plan of Some (Array vs) \<Rightarrow> List.map_filter as_str vs | _ \<Rightarrow> [])"

lemma find_version_Some: "find_version name sn = Some v \<Longrightarrow> sv_version v = name \<and> v \<in> set (sn_versions sn)"
  by (auto simp: find_version_def dest: find_SomeD)

lemma find_versions:
  "list_all2 (\<lambda>name v. find_version name sn = Some v) names vs \<Longrightarrow> map sv_version vs = names \<and> set vs \<subseteq> set (sn_versions sn)"
  by (induction rule: list_all2_induct) (auto dest: find_version_Some)

lemma base_names_Ok:
  "foldR base_name vals names = Inr names' \<Longrightarrow> set names' = set names \<union> set (List.map_filter as_str vals)"
  by (induction vals arbitrary: names) (auto simp: base_name_def bindR_eq_Inr List.map_filter_simps split: if_splits)

lemma selected_bases_Ok:
  assumes "selected_bases plan sn = Inr bases"
  shows "sv_version ` set bases = set (base_version_names plan)"
proof -
  from assms obtain vals names where A: "cpl_base_versions plan = Some (Array vals)" "foldR base_name vals [] = Inr names"
    "mapR (\<lambda>name. ok_or (find_version name sn) (version_conflict (sn_head_versions sn))) (sort_dedup names) = Inr bases"
    by (auto simp: selected_bases_def bindR_eq_Inr bind_eq_Some_conv elim!: as_array.elims split: if_splits)
  have "map sv_version bases = sort_dedup names" using A(3) find_versions by (simp add: mapR_eq_Inr)
  then have "sv_version ` set bases = set names" by (metis list.set_map sort_dedup_props(1))
  with A(1) base_names_Ok[OF A(2)] show ?thesis by (simp add: base_version_names_def)
qed

lemma concurrent_heads_Ok:
  assumes "concurrent_heads sn bases = Inr concurrent"
  shows "map sv_version concurrent = filter (\<lambda>h. h \<notin> sv_version ` set bases) (sn_head_versions sn)"
    and "v \<in> set concurrent \<Longrightarrow> v \<in> set (sn_versions sn)"
proof -
  have C: "list_all2 (\<lambda>h v. find_version h sn = Some v) (filter (\<lambda>h. h \<notin> sv_version ` set bases) (sn_head_versions sn)) concurrent"
    using assms by (simp add: concurrent_heads_def mapR_eq_Inr)
  from find_versions[OF this]
  show "map sv_version concurrent = filter (\<lambda>h. h \<notin> sv_version ` set bases) (sn_head_versions sn)"
    "v \<in> set concurrent \<Longrightarrow> v \<in> set (sn_versions sn)" by auto
qed

lemma delete_commit_Ok:
  assumes "delete_commit En ms r sn = Inr (c, result)"
  shows "commit_wf c" "ec_key c = entity_key (en_codec En) (ms_selection ms) r" "ec_expected_heads c = sn_head_versions sn"
    "set (ec_head_versions c) = set (sn_head_versions sn) - set (base_version_names (se_conflict (ms_selection ms))) \<union> {en_uuid En 1 0}"
    "version_content ` set (ec_new_versions c) = {(en_uuid En 1 0, Deleted, None)}"
    "result = \<lparr>rr_meta = consistency_meta (ms_selection ms) (Some (en_uuid En 1 0)), rr_data = \<lparr>md_entity = EDeleted r (en_uuid En 1 0)\<rparr>\<rparr>"
    "cpl_strategy (se_conflict (ms_selection ms)) = Reject \<or> cpl_otherwise (se_conflict (ms_selection ms)) = FallbackReject \<Longrightarrow>
       ec_head_versions c = [en_uuid En 1 0]"
    "cpl_strategy (se_conflict (ms_selection ms)) = Reject \<Longrightarrow>
       set (sn_head_versions sn) = set (base_version_names (se_conflict (ms_selection ms)))"
proof -
  let ?plan = "se_conflict (ms_selection ms)" let ?v = "en_uuid En 1 0"
  let ?d = "\<lparr>sv_version = ?v, sv_state = Deleted, sv_value_json = None, sv_crdt_fields = []\<rparr>"
  from assms obtain bases concurrent where
    B: "selected_bases ?plan sn = Inr bases" and E: "reject_unless_exact_heads ?plan sn bases = Inr ()"
    and H: "concurrent_heads sn bases = Inr concurrent"
    and G: "concurrent \<noteq> [] \<longrightarrow> cpl_strategy ?plan \<noteq> Reject \<and> cpl_otherwise ?plan \<noteq> FallbackReject"
    and C: "engine_commit En ms (entity_key (en_codec En) (ms_selection ms) r) (sn_head_versions sn) [?d]
        (map sv_version concurrent @ [?v]) (mutation_change_kind sn (map sv_version concurrent @ [?v]) True) ?v = Inr c"
    and R: "result = \<lparr>rr_meta = consistency_meta (ms_selection ms) (Some ?v), rr_data = \<lparr>md_entity = EDeleted r ?v\<rparr>\<rparr>"
    by (auto simp: delete_commit_def Let_def bindR_eq_Inr split: if_splits)
  note C = engine_commit_Ok[OF C]
  have heads: "set (map sv_version concurrent) = set (sn_head_versions sn) - set (base_version_names ?plan)"
    unfolding concurrent_heads_Ok(1)[OF H] using selected_bases_Ok[OF B] by auto
  show "ec_key c = entity_key (en_codec En) (ms_selection ms) r" "ec_expected_heads c = sn_head_versions sn" using C by simp_all
  show "set (ec_head_versions c) = set (sn_head_versions sn) - set (base_version_names ?plan) \<union> {?v}" using C heads by auto
  show "version_content ` set (ec_new_versions c) = {(?v, Deleted, None)}" using C by (simp add: version_content_def)
  show "commit_wf c" using C heads by (auto simp: commit_wf_def)
  show "result = \<lparr>rr_meta = consistency_meta (ms_selection ms) (Some ?v), rr_data = \<lparr>md_entity = EDeleted r ?v\<rparr>\<rparr>" by (rule R)
  show "cpl_strategy ?plan = Reject \<or> cpl_otherwise ?plan = FallbackReject \<Longrightarrow> ec_head_versions c = [?v]" using C G by auto
  show "cpl_strategy ?plan = Reject \<Longrightarrow> set (sn_head_versions sn) = set (base_version_names ?plan)"
    using E selected_bases_Ok[OF B] by (auto simp: reject_unless_exact_heads_def split: if_splits)
qed

lemma sort_heads_Ok:
  assumes "foldR (sort_head X A) vs (cs, ds) = Inr (cs', ds')"
  shows "ds' = ds @ map sv_version (filter (\<lambda>v. sv_state v = Deleted) vs)
    \<and> (\<exists>new. cs' = cs @ new \<and> map cand_source_version new = map (Some \<circ> sv_version) (filter (\<lambda>v. sv_state v = Active) vs))"
  using assms
proof (induction vs arbitrary: cs ds)
  case (Cons v vs)
  from Cons.prems obtain cs1 ds1 where S: "sort_head X A v (cs, ds) = Inr (cs1, ds1)" "foldR (sort_head X A) vs (cs1, ds1) = Inr (cs', ds')"
    by (auto simp: bindR_eq_Inr)
  from Cons.IH[OF S(2)] S(1) show ?case
    by (cases "sv_state v") (auto simp: sort_head_def stored_candidate_def bindR_eq_Inr)
qed simp

text \<open>What the loop over the variants of a resolution adds to the new versions and to the heads.\<close>

definition placed :: "wire_codec \<Rightarrow> ConflictCandidate list \<Rightarrow> placed_variants \<Rightarrow> placed_variants \<Rightarrow> StoredEntityVersion list \<Rightarrow> bool" where
  "placed X cs pv pv' news \<longleftrightarrow>
     pv_new_versions pv' = pv_new_versions pv @ news
     \<and> set (pv_heads pv') = set (pv_heads pv) \<union> {v. Some v \<in> cand_source_version ` set cs} \<union> sv_version ` set news
     \<and> length news = length (filter (\<lambda>c. cand_source_version c = None) cs)
     \<and> (pv_accepted pv \<noteq> None \<longrightarrow> pv_accepted pv' = pv_accepted pv)
     \<and> (pv_accepted pv = None \<longrightarrow>
          (case find (\<lambda>c. cand_source_version c = None) cs of
             None \<Rightarrow> pv_accepted pv' = None
           | Some c \<Rightarrow> \<exists>version. pv_accepted pv' = Some (version, cand_value c)
                 \<and> (version, Active, Some (to_string (cx_json X) (cand_value c))) \<in> version_content ` set news))"

lemma place_variants_Ok:
  assumes "foldR (place_variant En) cs pv = Inr pv'"
  shows "\<exists>news. placed (en_codec En) cs pv pv' news"
  using assms
proof (induction cs arbitrary: pv)
  case Nil
  then show ?case by (auto simp: placed_def)
next
  case (Cons c cs)
  from Cons.prems obtain pv1 where P: "place_variant En c pv = Inr pv1" "foldR (place_variant En) cs pv1 = Inr pv'"
    by (auto simp: bindR_eq_Inr)
  from Cons.IH[OF P(2)] obtain news where N: "placed (en_codec En) cs pv1 pv' news" by blast
  show ?case
  proof (cases "cand_source_version c")
    case (Some version)
    with P(1) have "pv1 = pv\<lparr>pv_heads := pv_heads pv @ [version]\<rparr>" by (simp add: place_variant_def)
    with N Some have "placed (en_codec En) (c # cs) pv pv' news" by (auto simp: placed_def)
    then show ?thesis by blast
  next
    case None
    let ?u = "en_uuid En 1 (length (pv_new_versions pv))"
    let ?s = "active_stored_version (en_codec En) (en_automerge En) ?u (cand_value c) (cand_crdt_fields c)"
    from None P(1) obtain stored where S: "?s = Inr stored"
      "pv1 = \<lparr>pv_new_versions = pv_new_versions pv @ [stored], pv_heads = pv_heads pv @ [?u],
              pv_accepted = (if pv_accepted pv = None then Some (?u, cand_value c) else pv_accepted pv)\<rparr>"
      unfolding place_variant_def Let_def by (cases ?s) simp_all
    have u: "?u = sv_version stored" using active_stored_version_Ok[OF S(1)] by (simp add: version_content_def)
    have V: "version_content stored = (sv_version stored, Active, Some (to_string (cx_json (en_codec En)) (cand_value c)))"
      using active_stored_version_Ok[OF S(1)] by (simp add: version_content_def)
    have "placed (en_codec En) (c # cs) pv pv' (stored # news)"
      using N None V unfolding placed_def S(2) u by (auto split: if_splits option.splits)
    then show ?thesis by blast
  qed
qed

text \<open>Resolving a proposal against the concurrent heads and placing the variants.\<close>

lemma placed_heads:
  assumes S: "foldR (sort_head X A) cur ([proposed], []) = Inr (cands, deleted)"
    and R: "resolve_prepared_conflict J B plan cands = Inr resolved"
    and N: "placed X (res_variants resolved) \<lparr>pv_new_versions = [], pv_heads = deleted, pv_accepted = None\<rparr> pv news"
    and acc: "pv_accepted pv = Some (version, x)" and proposed: "cand_source_version proposed = None"
  shows "set (pv_heads pv) \<subseteq> sv_version ` set cur \<union> sv_version ` set news" "pv_new_versions pv = news" "version \<in> set (pv_heads pv)"
    and "(version, Active, Some (to_string (cx_json X) x)) \<in> version_content ` set news"
    and "w \<in> set cur \<Longrightarrow> sv_state w = Deleted \<Longrightarrow> sv_version w \<in> set (pv_heads pv)"
    and "cpl_strategy plan \<noteq> Merge \<Longrightarrow> x = cand_value proposed \<and> set (pv_heads pv) = sv_version ` set cur \<union> {version}"
proof -
  from sort_heads_Ok[OF S] obtain new where deleted: "deleted = map sv_version (filter (\<lambda>w. sv_state w = Deleted) cur)"
    and cands: "cands = proposed # new" and new: "map cand_source_version new = map (Some \<circ> sv_version) (filter (\<lambda>w. sv_state w = Active) cur)"
    by auto
  have sources: "{v. Some v \<in> cand_source_version ` set cands} = sv_version ` {w \<in> set cur. sv_state w = Active}"
    using arg_cong[OF new, of set] proposed unfolding cands by auto
  have heads: "set (pv_heads pv) = set deleted \<union> {v. Some v \<in> cand_source_version ` set (res_variants resolved)} \<union> sv_version ` set news"
    and news: "pv_new_versions pv = news" "length news = length (filter (\<lambda>c. cand_source_version c = None) (res_variants resolved))"
    using N by (simp_all add: placed_def)
  have accepted: "\<exists>w. find (\<lambda>c. cand_source_version c = None) (res_variants resolved) = Some w \<and> x = cand_value w
      \<and> (version, Active, Some (to_string (cx_json X) x)) \<in> version_content ` set news"
    using N acc by (auto simp: placed_def split: option.splits)
  then have version: "version \<in> sv_version ` set news" by (auto simp: version_content_def)
  have kept: "{v. Some v \<in> cand_source_version ` set (res_variants resolved)} \<subseteq> sv_version ` {w \<in> set cur. sv_state w = Active}"
    unfolding sources[symmetric] using resolved_variants(3)[OF R] by force
  show "pv_new_versions pv = news" "version \<in> set (pv_heads pv)"
    "(version, Active, Some (to_string (cx_json X) x)) \<in> version_content ` set news"
    using news(1) heads version accepted by auto
  show "set (pv_heads pv) \<subseteq> sv_version ` set cur \<union> sv_version ` set news"
    using heads kept unfolding deleted by auto
  show "w \<in> set cur \<Longrightarrow> sv_state w = Deleted \<Longrightarrow> sv_version w \<in> set (pv_heads pv)"
    using heads unfolding deleted by auto
  assume "cpl_strategy plan \<noteq> Merge"
  then have eq: "res_variants resolved = cands" using resolved_variants(1)[OF R] by simp
  have "filter (\<lambda>c. cand_source_version c = None) new = []"
    using arg_cong[OF new, of set] by (auto simp: filter_empty_conv image_iff)
  then have "length news = 1" using news(2) proposed by (simp add: eq cands)
  with version have "sv_version ` set news = {version}" by (cases news) auto
  moreover have "set deleted \<union> sv_version ` {w \<in> set cur. sv_state w = Active} = sv_version ` set cur"
    unfolding deleted by (auto simp: image_iff) (metis StoredVersionState.exhaust)
  moreover have "x = cand_value proposed" using accepted proposed by (simp add: eq cands)
  ultimately show "x = cand_value proposed \<and> set (pv_heads pv) = sv_version ` set cur \<union> {version}" using heads sources by (auto simp: eq)
qed

lemma update_commit_Ok:
  assumes "update_commit En ms r sn v = Inr (c, result)"
  defines "plan \<equiv> se_conflict (ms_selection ms)"
  defines "concurrent \<equiv> set (sn_head_versions sn) - set (base_version_names plan)"
  shows "commit_wf c" "ec_key c = entity_key (en_codec En) (ms_selection ms) r" "ec_expected_heads c = sn_head_versions sn"
    and "\<exists>version x. result = \<lparr>rr_meta = consistency_meta (ms_selection ms) (Some version), rr_data = \<lparr>md_entity = EActive r version x\<rparr>\<rparr>
      \<and> version \<in> set (ec_head_versions c)
      \<and> (version, Active, Some (to_string (cx_json (en_codec En)) x)) \<in> version_content ` set (ec_new_versions c)
      \<and> (cpl_strategy plan \<noteq> Merge \<longrightarrow> x = v \<and> set (ec_head_versions c) = concurrent \<union> {version})"
    and "\<forall>h \<in> concurrent. h \<in> set (ec_head_versions c)
      \<or> cpl_strategy plan = Merge \<and> (\<exists>w \<in> set (sn_versions sn). sv_version w = h \<and> sv_state w = Active)"
    and "cpl_strategy plan = Reject \<Longrightarrow> set (sn_head_versions sn) = set (base_version_names plan)"
proof -
  let ?X = "en_codec En" let ?A = "en_automerge En"
  from assms(1) obtain bases cur proposed cands deleted resolved pv version x where
    B: "selected_bases plan sn = Inr bases" and E: "reject_unless_exact_heads plan sn bases = Inr ()"
    and H: "concurrent_heads sn bases = Inr cur"
    and P: "prepare_candidate ?X ?A plan bases v = Inr proposed"
    and S: "foldR (sort_head ?X ?A) cur ([proposed], []) = Inr (cands, deleted)"
    and R: "resolve_prepared_conflict (cx_json ?X) ?A plan cands = Inr resolved"
    and V: "foldR (place_variant En) (res_variants resolved) \<lparr>pv_new_versions = [], pv_heads = deleted, pv_accepted = None\<rparr> = Inr pv"
    and acc: "pv_accepted pv = Some (version, x)"
    and C: "engine_commit En ms (entity_key ?X (ms_selection ms) r) (sn_head_versions sn) (pv_new_versions pv) (pv_heads pv)
              (mutation_change_kind sn (pv_heads pv) False) version = Inr c"
    and res: "result = (mutation_result r version x)\<lparr>rr_meta := consistency_meta (ms_selection ms) (Some version)\<rparr>"
    by (auto simp: update_commit_def plan_def Let_def bindR_eq_Inr split: if_splits)
  note C = engine_commit_Ok[OF C] and H1 = concurrent_heads_Ok[OF H]
  have cur: "sv_version ` set cur = concurrent"
    using H1(1) selected_bases_Ok[OF B] unfolding concurrent_def by (metis (no_types) set_diff_eq set_filter list.set_map)
  have proposed: "cand_source_version proposed = None" "cand_value proposed = v"
    using P by (auto simp: prepare_candidate_def bindR_eq_Inr)
  obtain news where N: "placed ?X (res_variants resolved) \<lparr>pv_new_versions = [], pv_heads = deleted, pv_accepted = None\<rparr> pv news"
    using place_variants_Ok[OF V] by blast
  note D = placed_heads[OF S R N acc proposed(1), unfolded cur proposed(2)]
  show "ec_key c = entity_key ?X (ms_selection ms) r" "ec_expected_heads c = sn_head_versions sn" using C by simp_all
  show "commit_wf c" using C D(1,2) unfolding commit_wf_def concurrent_def by auto
  show "\<exists>version x. result = \<lparr>rr_meta = consistency_meta (ms_selection ms) (Some version), rr_data = \<lparr>md_entity = EActive r version x\<rparr>\<rparr>
      \<and> version \<in> set (ec_head_versions c)
      \<and> (version, Active, Some (to_string (cx_json ?X) x)) \<in> version_content ` set (ec_new_versions c)
      \<and> (cpl_strategy plan \<noteq> Merge \<longrightarrow> x = v \<and> set (ec_head_versions c) = concurrent \<union> {version})"
    using res C D(2,3,4,6) by (intro exI[of _ version] exI[of _ x]) (auto simp: mutation_result_def)
  show "\<forall>h \<in> concurrent. h \<in> set (ec_head_versions c)
      \<or> cpl_strategy plan = Merge \<and> (\<exists>w \<in> set (sn_versions sn). sv_version w = h \<and> sv_state w = Active)"
  proof
    fix h assume "h \<in> concurrent"
    then obtain w where w: "w \<in> set cur" "sv_version w = h" using cur by blast
    show "h \<in> set (ec_head_versions c) \<or> cpl_strategy plan = Merge \<and> (\<exists>w \<in> set (sn_versions sn). sv_version w = h \<and> sv_state w = Active)"
      using D(5)[OF w(1)] D(6) \<open>h \<in> concurrent\<close> w H1(2)[OF w(1)] C by (cases "sv_state w") auto
  qed
  show "cpl_strategy plan = Reject \<Longrightarrow> set (sn_head_versions sn) = set (base_version_names plan)"
    using E selected_bases_Ok[OF B] by (auto simp: reject_unless_exact_heads_def split: if_splits)
qed

section \<open>Runs of the handlers\<close>

text \<open>A mutation that answers has either replayed a record or read the entity and committed a plan.\<close>

lemma create_cases:
  assumes "create En params s = (Inr res, s')"
  defines "r \<equiv> created_ref En (rp_data params)"
  obtains (Replay) ms where
    "begin_mutation En (cd_entity_type (rp_data params)) (rp_meta params) ''create'' (CreateData (rp_data params)) s = (Inr ms, s')"
    "replayed (en_codec En) (ms_idempotency ms) = Inr (Some res)"
  | (Commit) ms s1 ob s2 c result where
    "begin_mutation En (cd_entity_type (rp_data params)) (rp_meta params) ''create'' (CreateData (rp_data params)) s = (Inr ms, s1)"
    "read_selected En (ms_work_unit ms) (entity_key (en_codec En) (ms_selection ms) r) (ms_consistency ms) s1 = (Inr (None, ob), s2)"
    "create_commit En ms r (cd_value (rp_data params)) = Inr (c, result)"
    "finish_mutation En ms c result (active_mutation_result (en_codec En) r) s2 = (Inr res, s')"
proof -
  from assms(1) obtain ms s1 replay where B:
    "begin_mutation En (cd_entity_type (rp_data params)) (rp_meta params) ''create'' (CreateData (rp_data params)) s = (Inr ms, s1)"
    and R: "replayed (en_codec En) (ms_idempotency ms) = Inr replay"
    and rest: "(case replay of Some result \<Rightarrow> liftE (Ok result)
      | None \<Rightarrow> bindE (liftE (validated En (cd_entity_type (rp_data params)) (cd_value (rp_data params)))) (\<lambda>_.
          bindE (read_selected En (ms_work_unit ms) (entity_key (en_codec En) (ms_selection ms) (created_ref En (rp_data params))) (ms_consistency ms)) (\<lambda>(sn, _).
          case sn of Some sn \<Rightarrow> liftE (Err (version_conflict (sn_head_versions sn)))
          | None \<Rightarrow> bindE (liftE (create_commit En ms (created_ref En (rp_data params)) (cd_value (rp_data params)))) (\<lambda>(commit, result).
              finish_mutation En ms commit result (active_mutation_result (en_codec En) (created_ref En (rp_data params))))))) s1 = (Inr res, s')"
    unfolding create_def Let_def bindE_Inr liftE_eq by blast
  show thesis
  proof (cases replay)
    case (Some result)
    with rest R B that(1) show ?thesis by simp
  next
    case None
    with rest show ?thesis
      by (auto simp: step_simps r_def split: option.splits prod.splits intro: that(2)[OF B])
  qed
qed

lemma update_cases:
  assumes "update En params s = (Inr res, s')"
  defines "r \<equiv> ud_entity_ref (rp_data params)"
  obtains (Replay) ms where
    "begin_mutation En (er_entity_type r) (rp_meta params) ''update'' (UpdateData (rp_data params)) s = (Inr ms, s')"
    "replayed (en_codec En) (ms_idempotency ms) = Inr (Some res)"
  | (Commit) ms s1 sn ob s2 c result where
    "begin_mutation En (er_entity_type r) (rp_meta params) ''update'' (UpdateData (rp_data params)) s = (Inr ms, s1)"
    "read_selected En (ms_work_unit ms) (entity_key (en_codec En) (ms_selection ms) r) (ms_consistency ms) s1 = (Inr (Some sn, ob), s2)"
    "update_commit En ms r sn (ud_value (rp_data params)) = Inr (c, result)"
    "finish_mutation En ms c result (active_mutation_result (en_codec En) r) s2 = (Inr res, s')"
proof -
  from assms(1) obtain ms s1 replay where B:
    "begin_mutation En (er_entity_type r) (rp_meta params) ''update'' (UpdateData (rp_data params)) s = (Inr ms, s1)"
    and R: "replayed (en_codec En) (ms_idempotency ms) = Inr replay"
    and rest: "(case replay of Some result \<Rightarrow> liftE (Ok result)
      | None \<Rightarrow> bindE (liftE (validated En (er_entity_type r) (ud_value (rp_data params)))) (\<lambda>_.
          bindE (read_selected En (ms_work_unit ms) (entity_key (en_codec En) (ms_selection ms) r) (ms_consistency ms)) (\<lambda>(sn, _).
          bindE (liftE (ok_or sn not_found)) (\<lambda>sn.
          bindE (liftE (update_commit En ms r sn (ud_value (rp_data params)))) (\<lambda>(commit, result).
            finish_mutation En ms commit result (active_mutation_result (en_codec En) r)))))) s1 = (Inr res, s')"
    unfolding update_def Let_def bindE_Inr liftE_eq r_def by blast
  show thesis
  proof (cases replay)
    case (Some result)
    with rest R B that(1) show ?thesis by simp
  next
    case None
    with rest show ?thesis by (auto simp: step_simps split: prod.splits intro: that(2)[OF B])
  qed
qed

lemma delete_cases:
  assumes "delete En params s = (Inr res, s')"
  defines "r \<equiv> dd_entity_ref (rp_data params)"
  obtains (Replay) ms where
    "begin_mutation En (er_entity_type r) (rp_meta params) ''delete'' (DeleteData (rp_data params)) s = (Inr ms, s')"
    "replayed (en_codec En) (ms_idempotency ms) = Inr (Some res)"
  | (Commit) ms s1 sn ob s2 c result where
    "begin_mutation En (er_entity_type r) (rp_meta params) ''delete'' (DeleteData (rp_data params)) s = (Inr ms, s1)"
    "read_selected En (ms_work_unit ms) (entity_key (en_codec En) (ms_selection ms) r) (ms_consistency ms) s1 = (Inr (Some sn, ob), s2)"
    "delete_commit En ms r sn = Inr (c, result)"
    "finish_mutation En ms c result (\<lambda>_. Ok result) s2 = (Inr res, s')"
proof -
  from assms(1) obtain ms s1 replay where B:
    "begin_mutation En (er_entity_type r) (rp_meta params) ''delete'' (DeleteData (rp_data params)) s = (Inr ms, s1)"
    and R: "replayed (en_codec En) (ms_idempotency ms) = Inr replay"
    and rest: "(case replay of Some result \<Rightarrow> liftE (Ok result)
      | None \<Rightarrow>
          bindE (read_selected En (ms_work_unit ms) (entity_key (en_codec En) (ms_selection ms) r) (ms_consistency ms)) (\<lambda>(sn, _).
          bindE (liftE (ok_or sn not_found)) (\<lambda>sn.
          bindE (liftE (delete_commit En ms r sn)) (\<lambda>(commit, result).
            finish_mutation En ms commit result (\<lambda>_. Ok result))))) s1 = (Inr res, s')"
    unfolding delete_def Let_def bindE_Inr liftE_eq r_def by blast
  show thesis
  proof (cases replay)
    case (Some result)
    with rest R B that(1) show ?thesis by simp
  next
    case None
    with rest show ?thesis by (auto simp: step_simps split: prod.splits intro: that(2)[OF B])
  qed
qed

section \<open>Effects\<close>

definition committed_effect ::
  "(EntityKey \<Rightarrow> 's \<Rightarrow> string list) \<Rightarrow> (EntityKey \<Rightarrow> 's \<Rightarrow> (string \<times> StoredVersionState \<times> string option) set)
   \<Rightarrow> EntityCommit \<Rightarrow> 's \<Rightarrow> 's \<Rightarrow> bool" where
  "committed_effect heads contents c s s' \<longleftrightarrow>
     heads (ec_key c) s = sort (ec_expected_heads c) \<and> heads (ec_key c) s' = sort (ec_head_versions c)
     \<and> contents (ec_key c) s' = contents (ec_key c) s \<union> version_content ` set (ec_new_versions c)
     \<and> (\<forall>k. k \<noteq> ec_key c \<longrightarrow> heads k s' = heads k s \<and> contents k s' = contents k s)"

text \<open>Two states with the same heads and versions of every entity.\<close>

definition same_store ::
  "(EntityKey \<Rightarrow> 's \<Rightarrow> string list) \<Rightarrow> (EntityKey \<Rightarrow> 's \<Rightarrow> (string \<times> StoredVersionState \<times> string option) set)
   \<Rightarrow> 's \<Rightarrow> 's \<Rightarrow> bool" where
  "same_store heads contents s s' \<longleftrightarrow> (\<forall>k. heads k s' = heads k s \<and> contents k s' = contents k s)"

text \<open>The answer is the recorded result of an earlier request with the same identity and content: the
  record is there in the state \<open>s0\<close> the answering provider call finds, after whatever other clients did, and
  that call, the last one, leaves all entities as they are in \<open>s0\<close>.\<close>

definition answered_by_record ::
  "('p, 'd) engine_env \<Rightarrow> (EntityKey \<Rightarrow> 'p \<Rightarrow> string list)
   \<Rightarrow> (EntityKey \<Rightarrow> 'p \<Rightarrow> (string \<times> StoredVersionState \<times> string option) set) \<Rightarrow> ('p \<Rightarrow> 'p \<Rightarrow> bool)
   \<Rightarrow> (string \<Rightarrow> string \<Rightarrow> 'p \<Rightarrow> string option) \<Rightarrow> PolicySelection \<Rightarrow> string \<Rightarrow> RequestData
   \<Rightarrow> MutationResult \<Rightarrow> 'p \<Rightarrow> 'p \<Rightarrow> bool" where
  "answered_by_record En heads contents run recorded sel operation data res s s' \<longleftrightarrow>
     (\<exists>key s0 stored. se_idempotency_key sel = Some key \<and> run s s0
        \<and> recorded (cx_key_json (en_codec En) key) (cx_request_json (en_codec En) operation data) s0 = Some stored
        \<and> cx_result_from (en_codec En) stored = Some res \<and> same_store heads contents s0 s')"

text \<open>A variant of a read result shows a stored version.\<close>

definition shows_version ::
  "json_env \<Rightarrow> EntityRef \<Rightarrow> (string \<times> StoredVersionState \<times> string option) set \<Rightarrow> string \<Rightarrow> EntityVersion \<Rightarrow> bool" where
  "shows_version J r cs h ev \<longleftrightarrow>
     (case ev of
        EActive r' v x \<Rightarrow> r' = r \<and> v = h \<and> (\<exists>j. (h, Active, Some j) \<in> cs \<and> from_str J j = Some x)
      | EDeleted r' v \<Rightarrow> r' = r \<and> v = h \<and> (\<exists>j. (h, Deleted, j) \<in> cs))"

lemma stored_entity_shows:
  assumes "stored_entity X r w = Inr ev" and "(sv_version w, sv_state w, sv_value_json w) \<in> cs"
  shows "shows_version (cx_json X) r cs (sv_version w) ev"
  using assms by (cases "sv_state w") (auto simp: stored_entity_def stored_value_def shows_version_def bindR_eq_Inr)

lemma head_entities_Ok:
  assumes "head_entities X r sn = Inr variants"
  shows "list_all2 (shows_version (cx_json X) r (version_content ` set (sn_versions sn))) (sn_head_versions sn) variants"
proof -
  have "shows_version (cx_json X) r (version_content ` set (sn_versions sn)) h ev"
    if "bindR (ok_or (find_version h sn) provider_corruption) (stored_entity X r) = Inr ev" for h ev
  proof -
    from that obtain w where w: "find_version h sn = Some w" "stored_entity X r w = Inr ev" by (auto simp: bindR_eq_Inr)
    note W = find_version_Some[OF w(1)]
    have "(sv_version w, sv_state w, sv_value_json w) \<in> version_content ` set (sn_versions sn)"
      using imageI[OF conjunct2[OF W], of version_content] by (simp add: version_content_def)
    from stored_entity_shows[OF w(2) this] W show ?thesis by simp
  qed
  with assms show ?thesis by (auto simp: head_entities_def mapR_eq_Inr elim: list_all2_mono)
qed

section \<open>The contract\<close>

locale engine_store =
  fixes En :: "('p, 'd) engine_env"
    and heads :: "EntityKey \<Rightarrow> 'p \<Rightarrow> string list"
    and contents :: "EntityKey \<Rightarrow> 'p \<Rightarrow> (string \<times> StoredVersionState \<times> string option) set"
    and invar :: "'p \<Rightarrow> bool"
    and run :: "'p \<Rightarrow> 'p \<Rightarrow> bool"
    and recorded :: "string \<Rightarrow> string \<Rightarrow> 'p \<Rightarrow> string option"
  assumes store: "entity_store (p_read_entity (en_ops En i)) (p_commit_entity (en_ops En j)) heads contents invar"
    and run_refl: "run s s"
    and run_trans: "run s s' \<Longrightarrow> run s' s'' \<Longrightarrow> run s s''"
    and run_invar: "run s s' \<Longrightarrow> invar s \<Longrightarrow> invar s'"
    and others: "run s (en_others En i s)"
    and read_run: "p_read_entity (en_ops En i) key rc s = (r, s') \<Longrightarrow> run s s'"
    and idem_read_run: "p_read_idempotency (en_ops En i) scope rc ident req now s = (out, s') \<Longrightarrow> run s s'"
    and idem_read_replayed: "invar s \<Longrightarrow>
      p_read_idempotency (en_ops En i) scope rc ident req now s = (Inr (IdemReplayed stored), s') \<Longrightarrow>
      recorded ident req s = Some stored \<and> same_store heads contents s s'"
    and idem_committed: "invar s \<Longrightarrow> commit_wf c \<Longrightarrow>
      p_commit_entity_idempotent (en_ops En i) c rec now s = (Inr ICommitted, s') \<Longrightarrow> committed_effect heads contents c s s' \<and> invar s'"
    and idem_replayed: "invar s \<Longrightarrow> commit_wf c \<Longrightarrow>
      p_commit_entity_idempotent (en_ops En i) c rec now s = (Inr (IReplayed stored), s') \<Longrightarrow>
      recorded (ir_identity_json rec) (ir_request_json rec) s = Some stored \<and> same_store heads contents s s'"
begin

lemma begin_mutation_Ok:
  assumes "begin_mutation En ty meta op data s = (Inr ms, s')" and inv: "invar s"
    and imm: "engine_select En ty meta = Inr sel" "bh_publication (se_behavior sel) = Immediate"
  shows "ms_selection ms = sel" "ms_work_unit ms = None" "run s s'"
    and "\<And>prepared. ms_idempotency ms = Some prepared \<Longrightarrow>
      \<exists>key. se_idempotency_key sel = Some key \<and> pi_identity_json prepared = cx_key_json (en_codec En) key
        \<and> pi_request_json prepared = cx_request_json (en_codec En) op data
        \<and> (\<forall>stored. pi_result_json prepared = Some stored \<longrightarrow>
             (\<exists>s0. run s s0 \<and> recorded (pi_identity_json prepared) (pi_request_json prepared) s0 = Some stored
                \<and> same_store heads contents s0 s'))"
proof -
  from assms(1) obtain wu consistency idem where
    W: "selected_work_unit (en_codec En) (en_clock En 2) sel (ms_deadline ms) = Inr wu" and
    I: "prepare_idempotency En sel wu consistency op data s = (Inr idem, s')" and
    ms: "ms_selection ms = sel" "ms_work_unit ms = wu" "ms_idempotency ms = idem"
    using imm(1) by (auto simp: begin_mutation_def step_simps)
  then have wu: "wu = None" using imm(2) by (simp add: selected_work_unit_def)
  with ms show "ms_selection ms = sel" "ms_work_unit ms = None" by simp_all
  have *: "run s s' \<and> (\<forall>prepared. idem = Some prepared \<longrightarrow>
      (\<exists>key. se_idempotency_key sel = Some key \<and> pi_identity_json prepared = cx_key_json (en_codec En) key
        \<and> pi_request_json prepared = cx_request_json (en_codec En) op data
        \<and> (\<forall>stored. pi_result_json prepared = Some stored \<longrightarrow>
             (\<exists>s0. run s s0 \<and> recorded (pi_identity_json prepared) (pi_request_json prepared) s0 = Some stored
                \<and> same_store heads contents s0 s'))))"
  proof (cases "bh_idempotency (se_behavior sel)")
    case IdempotencyDisabled
    with I show ?thesis by (simp add: prepare_idempotency_def run_refl)
  next
    case (Keyed fields)
    show ?thesis
    proof (cases "se_idempotency_key sel")
      case None
      with Keyed I show ?thesis by (simp add: prepare_idempotency_def)
    next
      case (Some key)
      let ?i = "cx_key_json (en_codec En) key" let ?q = "cx_request_json (en_codec En) op data"
      from Keyed Some I wu obtain now out result where
        R: "p_read_idempotency (en_ops En 0) (map_json (en_codec En) (se_scope sel)) consistency ?i ?q now (en_others En 0 s) = (Inr out, s')" and
        O: "idempotency_outcome out = Inr result" and
        idem: "idem = Some \<lparr>pi_identity_json = ?i, pi_request_json = ?q, pi_result_json = result\<rparr>"
        by (auto simp: prepare_idempotency_def Let_def step_simps)
      have inv0: "invar (en_others En 0 s)" by (rule run_invar[OF others inv])
      have run: "run s s'" by (rule run_trans[OF others idem_read_run[OF R]])
      have "\<exists>s0. run s s0 \<and> recorded ?i ?q s0 = Some stored \<and> same_store heads contents s0 s'" if "result = Some stored" for stored
      proof -
        have "out = IdemReplayed stored" using O that by (auto simp: idempotency_outcome_def split: IdempotencyReadOutcome.splits)
        with idem_read_replayed[OF inv0] R others show ?thesis by blast
      qed
      with run idem Some show ?thesis by simp
    qed
  qed
  then show "run s s'" by simp
  show "\<And>prepared. ms_idempotency ms = Some prepared \<Longrightarrow>
      \<exists>key. se_idempotency_key sel = Some key \<and> pi_identity_json prepared = cx_key_json (en_codec En) key
        \<and> pi_request_json prepared = cx_request_json (en_codec En) op data
        \<and> (\<forall>stored. pi_result_json prepared = Some stored \<longrightarrow>
             (\<exists>s0. run s s0 \<and> recorded (pi_identity_json prepared) (pi_request_json prepared) s0 = Some stored
                \<and> same_store heads contents s0 s'))"
    using * ms(3) by simp
qed

lemma read_selected_Ok:
  assumes "read_selected En None key rc s = (Inr (sn, ob), s')" and "invar s"
  shows "\<exists>s0. run s s0 \<and> run s0 s' \<and> invar s0 \<and> heads key s0 = heads key s'
    \<and> (case sn of None \<Rightarrow> heads key s0 = []
        | Some sn \<Rightarrow> heads key s0 \<noteq> [] \<and> sn_head_versions sn = heads key s0
                     \<and> version_content ` set (sn_versions sn) = contents key s0)"
proof -
  let ?s = "en_others En 1 s"
  from assms(1) have R: "p_read_entity (en_ops En 1) key rc ?s = (Inr (Read sn ob), s')"
    by (auto simp: read_selected_def step_simps)
  have inv: "invar ?s" by (rule run_invar[OF others assms(2)])
  show ?thesis
    using others read_run[OF R] inv entity_store.read_answer[OF store inv R]
      conjunct1[OF entity_store.read_keeps[OF store inv R, of key]] by (intro exI[of _ ?s]) auto
qed

text \<open>A mutation without work unit ends with the answer of a record or with its commit.\<close>

lemma finish_mutation_Ok:
  assumes "finish_mutation En ms c result f s = (Inr res, s')" and "ms_work_unit ms = None" and inv: "invar s" and wf: "commit_wf c"
  shows "(\<exists>prepared s0 stored. ms_idempotency ms = Some prepared \<and> run s s0
            \<and> recorded (pi_identity_json prepared) (pi_request_json prepared) s0 = Some stored
            \<and> cx_result_from (en_codec En) stored = Some res \<and> same_store heads contents s0 s')
    \<or> (res = result \<and> (\<exists>s0. run s s0 \<and> committed_effect heads contents c s0 s' \<and> invar s'))"
proof -
  let ?s = "en_others En 2 s"
  have inv2: "invar ?s" by (rule run_invar[OF others inv])
  show ?thesis
  proof (cases "ms_idempotency ms")
    case None
    from assms(1,2) None have C: "p_commit_entity (en_ops En 2) c ?s = (Inr Committed, s')" and "res = result"
      by (auto simp: finish_mutation_def commit_selected_def step_simps Let_def)
    moreover have "committed_effect heads contents c ?s s'"
      unfolding committed_effect_def by (rule entity_store.commit_committed[OF store inv2 wf C])
    moreover have "invar s'" by (rule entity_store.commit_invar[OF store inv2 wf C])
    ultimately show ?thesis using others by blast
  next
    case (Some prepared)
    from assms(1,2) Some obtain now rec out where
      R: "idempotency_record_at En prepared result now = Inr rec" and
      C: "p_commit_entity_idempotent (en_ops En 2) c rec now ?s = (Inr out, s')" and
      O: "idempotent_outcome (en_codec En) result out = Inr res"
      by (auto simp: finish_mutation_def commit_idempotent_def step_simps)
    have rec: "ir_identity_json rec = pi_identity_json prepared" "ir_request_json rec = pi_request_json prepared"
      using R by (auto simp: idempotency_record_at_def bindR_eq_Inr)
    show ?thesis
    proof (cases out)
      case ICommitted
      with O have "res = result" by (simp add: idempotent_outcome_def)
      moreover have "committed_effect heads contents c ?s s' \<and> invar s'" using idem_committed[OF inv2 wf] C ICommitted by blast
      ultimately show ?thesis using others by blast
    next
      case (IReplayed stored)
      with O have "cx_result_from (en_codec En) stored = Some res" by (simp add: idempotent_outcome_def)
      moreover have "recorded (pi_identity_json prepared) (pi_request_json prepared) ?s = Some stored"
        "same_store heads contents ?s s'" using idem_replayed[OF inv2 wf] C IReplayed rec by fastforce+
      ultimately show ?thesis using Some others by blast
    qed (use O in \<open>simp_all add: idempotent_outcome_def\<close>)
  qed
qed

text \<open>The shape of every mutation without work unit: its prologue, a plan of the commit made from
  what was read, and the commit.\<close>

lemma mutation_answer:
  assumes B: "begin_mutation En ty meta op data s = (Inr ms, s1)" and inv: "invar s"
    and imm: "engine_select En ty meta = Inr sel" "bh_publication (se_behavior sel) = Immediate"
    and F: "finish_mutation En ms c result f s2 = (Inr res, s')" and run: "run s1 s2" and wf: "commit_wf c"
  shows "answered_by_record En heads contents run recorded sel op data res s s'
    \<or> (res = result \<and> (\<exists>s0. run s2 s0 \<and> committed_effect heads contents c s0 s' \<and> invar s'))"
proof -
  note B = begin_mutation_Ok[OF B inv imm]
  have run2: "run s s2" by (rule run_trans[OF B(3) run])
  from finish_mutation_Ok[OF F B(2) run_invar[OF run2 inv] wf] show ?thesis
  proof
    assume "\<exists>prepared s0 stored. ms_idempotency ms = Some prepared \<and> run s2 s0
      \<and> recorded (pi_identity_json prepared) (pi_request_json prepared) s0 = Some stored
      \<and> cx_result_from (en_codec En) stored = Some res \<and> same_store heads contents s0 s'"
    then obtain prepared s0 stored where P: "ms_idempotency ms = Some prepared" "run s2 s0"
      "recorded (pi_identity_json prepared) (pi_request_json prepared) s0 = Some stored"
      "cx_result_from (en_codec En) stored = Some res" "same_store heads contents s0 s'" by blast
    from B(4)[OF P(1)] P run_trans[OF run2 P(2)] show ?thesis unfolding answered_by_record_def by auto
  qed blast
qed

lemma replay_answer:
  assumes B: "begin_mutation En ty meta op data s = (Inr ms, s')" and inv: "invar s"
    and imm: "engine_select En ty meta = Inr sel" "bh_publication (se_behavior sel) = Immediate"
    and "replayed (en_codec En) (ms_idempotency ms) = Inr (Some res)"
  shows "answered_by_record En heads contents run recorded sel op data res s s'"
proof -
  from assms(5) obtain prepared stored where P: "ms_idempotency ms = Some prepared" "pi_result_json prepared = Some stored"
    "cx_result_from (en_codec En) stored = Some res"
    by (auto simp: replayed_def bindR_eq_Inr split: option.splits) (metis bind_eq_Some_conv)
  from begin_mutation_Ok(4)[OF B inv imm P(1)] P(2,3) show ?thesis unfolding answered_by_record_def by auto metis
qed

text \<open>The handlers.\<close>

lemma create_Ok:
  assumes run0: "create En params s = (Inr res, s')" and inv: "invar s"
    and imm: "engine_select En (cd_entity_type (rp_data params)) (rp_meta params) = Inr sel" "bh_publication (se_behavior sel) = Immediate"
  defines "r \<equiv> created_ref En (rp_data params)" and "v \<equiv> en_uuid En 1 0"
  defines "key \<equiv> entity_key (en_codec En) sel r"
  shows "answered_by_record En heads contents run recorded sel ''create'' (CreateData (rp_data params)) res s s'
    \<or> (\<exists>s0. run s s0 \<and> heads key s0 = [] \<and> heads key s' = [v]
        \<and> contents key s' = insert (v, Active, Some (to_string (cx_json (en_codec En)) (cd_value (rp_data params)))) (contents key s0)
        \<and> (\<forall>k. k \<noteq> key \<longrightarrow> heads k s' = heads k s0 \<and> contents k s' = contents k s0)
        \<and> res = \<lparr>rr_meta = consistency_meta sel (Some v), rr_data = \<lparr>md_entity = EActive r v (cd_value (rp_data params))\<rparr>\<rparr>
        \<and> invar s')"
proof -
  from run0 show ?thesis
  proof (cases rule: create_cases)
    case (Replay ms)
    then show ?thesis using replay_answer[OF _ inv imm] by blast
  next
    case (Commit ms s1 ob s2 c result)
    note M = begin_mutation_Ok[OF Commit(1) inv imm]
    have S: "read_selected En None key (ms_consistency ms) s1 = (Inr (None, ob), s2)"
      using Commit(2) M(1,2) by (simp add: key_def r_def)
    from read_selected_Ok[OF S run_invar[OF M(3) inv]] have run2: "run s1 s2" by (blast intro: run_trans)
    note C = create_commit_Ok[OF Commit(3), folded v_def r_def]
    from mutation_answer[OF Commit(1) inv imm Commit(4) run2 C(1)] show ?thesis
    proof
      assume "res = result \<and> (\<exists>s0. run s2 s0 \<and> committed_effect heads contents c s0 s' \<and> invar s')"
      then obtain s0 where s0: "res = result" "run s2 s0" "committed_effect heads contents c s0 s'" "invar s'" by blast
      have "run s s0" by (rule run_trans[OF run_trans[OF M(3) run2] s0(2)])
      with s0 C M(1) show ?thesis unfolding committed_effect_def key_def by (intro disjI2 exI[of _ s0]) simp
    qed simp
  qed
qed

lemma update_Ok:
  assumes run0: "update En params s = (Inr res, s')" and inv: "invar s"
    and imm: "engine_select En (er_entity_type (ud_entity_ref (rp_data params))) (rp_meta params) = Inr sel"
      "bh_publication (se_behavior sel) = Immediate"
  defines "r \<equiv> ud_entity_ref (rp_data params)" and "plan \<equiv> se_conflict sel"
  defines "key \<equiv> entity_key (en_codec En) sel r" and "bases \<equiv> set (base_version_names plan)"
  shows "answered_by_record En heads contents run recorded sel ''update'' (UpdateData (rp_data params)) res s s'
    \<or> (\<exists>s0 s1 v x. run s s0 \<and> run s0 s1 \<and> heads key s0 \<noteq> [] \<and> set (heads key s1) = set (heads key s0)
        \<and> res = \<lparr>rr_meta = consistency_meta sel (Some v), rr_data = \<lparr>md_entity = EActive r v x\<rparr>\<rparr>
        \<and> v \<in> set (heads key s') \<and> (v, Active, Some (to_string (cx_json (en_codec En)) x)) \<in> contents key s'
        \<and> contents key s1 \<subseteq> contents key s'
        \<and> (\<forall>k. k \<noteq> key \<longrightarrow> heads k s' = heads k s1 \<and> contents k s' = contents k s1)
        \<and> (\<forall>h \<in> set (heads key s1) - bases. h \<in> set (heads key s')
              \<or> cpl_strategy plan = Merge \<and> (\<exists>j. (h, Active, j) \<in> contents key s0))
        \<and> (cpl_strategy plan \<noteq> Merge \<longrightarrow> x = ud_value (rp_data params) \<and> set (heads key s') = set (heads key s1) - bases \<union> {v})
        \<and> (cpl_strategy plan = Reject \<longrightarrow> set (heads key s1) = bases))"
proof -
  let ?d = "rp_data params" let ?X = "en_codec En"
  note imm = imm[folded r_def]
  from run0 show ?thesis
  proof (cases rule: update_cases)
    case (Replay ms)
    then show ?thesis using replay_answer[OF _ inv imm] unfolding r_def by blast
  next
    case (Commit ms s1 sn ob s2 c result)
    note Commit = Commit[folded r_def]
    note M = begin_mutation_Ok[OF Commit(1) inv imm]
    have S: "read_selected En None key (ms_consistency ms) s1 = (Inr (Some sn, ob), s2)"
      using Commit(2) M(1,2) by (simp add: key_def)
    from read_selected_Ok[OF S run_invar[OF M(3) inv]] obtain q where q: "run s1 q" "run q s2" "heads key q \<noteq> []"
      "sn_head_versions sn = heads key q" "version_content ` set (sn_versions sn) = contents key q" by auto
    have run2: "run s1 s2" by (rule run_trans[OF q(1,2)])
    note C = update_commit_Ok[OF Commit(3), unfolded M(1), folded plan_def, folded bases_def key_def]
    from mutation_answer[OF Commit(1) inv imm Commit(4) run2 C(1)] show ?thesis
    proof
      assume "res = result \<and> (\<exists>s0. run s2 s0 \<and> committed_effect heads contents c s0 s' \<and> invar s')"
      then obtain s0 where s0: "res = result" "run s2 s0" "committed_effect heads contents c s0 s'" "invar s'" by blast
      have runs: "run s q" "run q s0" by (rule run_trans[OF M(3) q(1)], rule run_trans[OF q(2) s0(2)])
      have eff: "set (heads key s0) = set (heads key q)" "set (heads key s') = set (ec_head_versions c)"
        "contents key s' = contents key s0 \<union> version_content ` set (ec_new_versions c)"
        "\<forall>k. k \<noteq> key \<longrightarrow> heads k s' = heads k s0 \<and> contents k s' = contents k s0"
        using s0(3) C(2,3) q(4) by (simp_all add: committed_effect_def)
      from C(4) obtain version x where V: "result = \<lparr>rr_meta = consistency_meta sel (Some version), rr_data = \<lparr>md_entity = EActive r version x\<rparr>\<rparr>"
        "version \<in> set (ec_head_versions c)" "(version, Active, Some (to_string (cx_json ?X) x)) \<in> version_content ` set (ec_new_versions c)"
        "cpl_strategy plan \<noteq> Merge \<longrightarrow> x = ud_value ?d \<and> set (ec_head_versions c) = set (sn_head_versions sn) - bases \<union> {version}"
        by (elim exE conjE)
      have dropped: "h \<in> set (heads key s') \<or> cpl_strategy plan = Merge \<and> (\<exists>j. (h, Active, j) \<in> contents key q)"
        if h: "h \<in> set (heads key s0) - bases" for h
      proof -
        have active: "\<exists>j. (h, Active, j) \<in> contents key q" if "w \<in> set (sn_versions sn)" "sv_version w = h" "sv_state w = Active" for w
        proof -
          have "version_content w \<in> contents key q" using that(1) unfolding q(5)[symmetric] by simp
          with that show ?thesis by (auto simp: version_content_def)
        qed
        have "h \<in> set (sn_head_versions sn) - bases" using h eff(1) q(4) by simp
        from bspec[OF C(5) this] show ?thesis unfolding eff(2) by (elim disjE conjE bexE) (simp_all add: active)
      qed
      show ?thesis
      proof (intro disjI2 exI conjI)
        show "\<forall>h \<in> set (heads key s0) - bases. h \<in> set (heads key s')
            \<or> cpl_strategy plan = Merge \<and> (\<exists>j. (h, Active, j) \<in> contents key q)" using dropped by blast
        show "cpl_strategy plan \<noteq> Merge \<longrightarrow> x = ud_value ?d \<and> set (heads key s') = set (heads key s0) - bases \<union> {version}"
          using V(4) eff(1,2) q(4) by simp
        show "cpl_strategy plan = Reject \<longrightarrow> set (heads key s0) = bases" using C(6) eff(1) q(4) by simp
        show "res = \<lparr>rr_meta = consistency_meta sel (Some version), rr_data = \<lparr>md_entity = EActive r version x\<rparr>\<rparr>"
          using V(1) s0(1) by simp
      qed (use runs q(3) eff V(2,3) in \<open>simp_all\<close>)
    qed simp
  qed
qed

lemma delete_Ok:
  assumes run0: "delete En params s = (Inr res, s')" and inv: "invar s"
    and imm: "engine_select En (er_entity_type (dd_entity_ref (rp_data params))) (rp_meta params) = Inr sel"
      "bh_publication (se_behavior sel) = Immediate"
  defines "r \<equiv> dd_entity_ref (rp_data params)" and "plan \<equiv> se_conflict sel" and "v \<equiv> en_uuid En 1 0"
  defines "key \<equiv> entity_key (en_codec En) sel r" and "bases \<equiv> set (base_version_names plan)"
  shows "answered_by_record En heads contents run recorded sel ''delete'' (DeleteData (rp_data params)) res s s'
    \<or> (\<exists>s0. run s s0 \<and> heads key s0 \<noteq> []
        \<and> res = \<lparr>rr_meta = consistency_meta sel (Some v), rr_data = \<lparr>md_entity = EDeleted r v\<rparr>\<rparr>
        \<and> set (heads key s') = set (heads key s0) - bases \<union> {v}
        \<and> contents key s' = insert (v, Deleted, None) (contents key s0)
        \<and> (\<forall>k. k \<noteq> key \<longrightarrow> heads k s' = heads k s0 \<and> contents k s' = contents k s0)
        \<and> (cpl_strategy plan = Reject \<or> cpl_otherwise plan = FallbackReject \<longrightarrow> heads key s' = [v])
        \<and> (cpl_strategy plan = Reject \<longrightarrow> set (heads key s0) = bases))"
proof -
  note imm = imm[folded r_def]
  from run0 show ?thesis
  proof (cases rule: delete_cases)
    case (Replay ms)
    then show ?thesis using replay_answer[OF _ inv imm] unfolding r_def by blast
  next
    case (Commit ms s1 sn ob s2 c result)
    note Commit = Commit[folded r_def]
    note M = begin_mutation_Ok[OF Commit(1) inv imm]
    have S: "read_selected En None key (ms_consistency ms) s1 = (Inr (Some sn, ob), s2)"
      using Commit(2) M(1,2) by (simp add: key_def)
    from read_selected_Ok[OF S run_invar[OF M(3) inv]] have run2: "run s1 s2"
      and sn: "sn_head_versions sn \<noteq> []" by (auto intro: run_trans)
    note C = delete_commit_Ok[OF Commit(3), unfolded M(1), folded plan_def v_def, folded bases_def key_def]
    from mutation_answer[OF Commit(1) inv imm Commit(4) run2 C(1)] show ?thesis
    proof
      assume "res = result \<and> (\<exists>s0. run s2 s0 \<and> committed_effect heads contents c s0 s' \<and> invar s')"
      then obtain s0 where s0: "res = result" "run s2 s0" "committed_effect heads contents c s0 s'" "invar s'" by blast
      have run: "run s s0" by (rule run_trans[OF run_trans[OF M(3) run2] s0(2)])
      have eff: "heads key s0 = sort (sn_head_versions sn)" "heads key s' = sort (ec_head_versions c)"
        "contents key s' = insert (v, Deleted, None) (contents key s0)"
        "\<forall>k. k \<noteq> key \<longrightarrow> heads k s' = heads k s0 \<and> contents k s' = contents k s0"
        using s0(3) C(2,3,5) by (simp_all add: committed_effect_def)
      show ?thesis
      proof (intro disjI2 exI conjI)
        show "heads key s0 \<noteq> []" using eff(1) sn by simp
        show "set (heads key s') = set (heads key s0) - bases \<union> {v}" using eff(1,2) C(4) by simp
        show "cpl_strategy plan = Reject \<or> cpl_otherwise plan = FallbackReject \<longrightarrow> heads key s' = [v]"
          using eff(2) C(7) by auto
        show "cpl_strategy plan = Reject \<longrightarrow> set (heads key s0) = bases" using C(8) eff(1) by simp
      qed (use run eff s0(1) C(6) in \<open>simp_all\<close>)
    qed simp
  qed
qed

lemma read_Ok:
  assumes "engine_read En params s = (Inr res, s')" and inv: "invar s"
    and imm: "engine_select En (er_entity_type (rd_entity_ref (rp_data params))) (rp_meta params) = Inr sel"
      "bh_publication (se_behavior sel) = Immediate"
  defines "r \<equiv> rd_entity_ref (rp_data params)" and "q \<equiv> en_others En 1 s"
  defines "key \<equiv> entity_key (en_codec En) sel r"
  shows "heads key q \<noteq> [] \<and> rs_state (rr_data res) = read_state (rs_variants (rr_data res))
    \<and> list_all2 (shows_version (cx_json (en_codec En)) r (contents key q)) (heads key q) (rs_variants (rr_data res))"
proof -
  from assms(1) imm obtain deadline rc sn ob variants where
    R: "p_read_entity (en_ops En 1) key rc q = (Inr (Read (Some sn) ob), s')"
    and V: "head_entities (en_codec En) r sn = Inr variants"
    and res: "rr_data res = \<lparr>rs_state = read_state variants, rs_variants = variants\<rparr>"
    by (auto simp: engine_read_def Let_def step_simps selected_work_unit_def read_selected_def r_def q_def key_def split: prod.splits)
  have invq: "invar q" unfolding q_def by (rule run_invar[OF others inv])
  from entity_store.read_answer[OF store invq R] head_entities_Ok[OF V] res show ?thesis by simp
qed

end

end
