(* ===== verification/Engine_Sqlite.thy ===== *)
theory Engine_Sqlite
  imports Engine_Mutations Retrieval_Pages
begin

text \<open>
  The engine over the SQLite provider. Before each of its provider calls, other clients may take
  the provider through any run; what the handlers guarantee then holds for every such interleaving.
\<close>

section \<open>The contract holds\<close>

text \<open>An interference is a run of the provider; anything else counts as none.\<close>

definition interference :: "sqlite_env \<Rightarrow> (nat \<Rightarrow> sqlite_provider \<Rightarrow> sqlite_provider) \<Rightarrow> nat \<Rightarrow> sqlite_provider \<Rightarrow> sqlite_provider" where
  "interference E f i p = (if provider_run E p (f i p) then f i p else p)"

definition over_sqlite ::
  "sqlite_env \<Rightarrow> retrieval_env \<Rightarrow> (nat \<Rightarrow> nat \<Rightarrow> clock) \<Rightarrow> nat \<times> nat \<times> nat \<Rightarrow> (nat \<Rightarrow> sqlite_provider \<Rightarrow> sqlite_provider)
   \<Rightarrow> (sqlite_provider, 'd) engine_env \<Rightarrow> (sqlite_provider, 'd) engine_env" where
  "over_sqlite E V clk wal f En = En\<lparr>en_ops := (\<lambda>i. sqlite_ops E V (clk i) wal), en_others := interference E f\<rparr>"

text \<open>The result recorded for a request under an idempotency identity.\<close>

definition sqlite_recorded :: "string \<Rightarrow> string \<Rightarrow> sqlite_provider \<Rightarrow> string option" where
  "sqlite_recorded ident req p =
     (case map_of (t_idempotency (sp_db p)) ident of
        None \<Rightarrow> None
      | Some r \<Rightarrow> if idr_request_json r = req then Some (idr_result_json r) else None)"

lemma over_sqlite_simps [simp]:
  "en_codec (over_sqlite E V clk wal f En) = en_codec En" "en_uuid (over_sqlite E V clk wal f En) = en_uuid En"
  "en_config (over_sqlite E V clk wal f En) = en_config En" "en_config_env (over_sqlite E V clk wal f En) = en_config_env En"
  "en_clock (over_sqlite E V clk wal f En) = en_clock En" "en_automerge (over_sqlite E V clk wal f En) = en_automerge En"
  "en_others (over_sqlite E V clk wal f En) = interference E f"
  "en_ops (over_sqlite E V clk wal f En) i = sqlite_ops E V (clk i) wal"
  by (simp_all add: over_sqlite_def)

lemma over_sqlite_select [simp]: "engine_select (over_sqlite E V clk wal f En) = engine_select En"
  by (simp add: engine_select_def fun_eq_iff)

lemma over_sqlite_ref [simp]: "created_ref (over_sqlite E V clk wal f En) d = created_ref En d"
  by (simp add: created_ref_def split: option.split)

lemma interference_run: "provider_run E p (interference E f i p)"
  by (simp add: interference_def provider_run_def)

lemma provider_step_run: "provider_step E p p' \<Longrightarrow> provider_run E p p'"
  by (simp add: provider_run_def)

lemma expired_record:
  assumes "delete_expired_idempotency now db = Inr db1" "tbl_wf (t_idempotency db)" "map_of (t_idempotency db1) i = Some r"
  shows "map_of (t_idempotency db) i = Some r"
  using assms by (auto simp: delete_expired_idempotency_Ok map_of_tbl_delete split: option.splits if_splits)

lemma read_replayed_recorded:
  assumes "provider_read_idempotency E c c' scope rc ident req now p = (Inr (IdemReplayed stored), p')" and inv: "sqlite_inv p"
  shows "sqlite_recorded ident req p = Some stored \<and> same_store sqlite_heads sqlite_contents p p'"
proof
  have wf: "tbl_wf (t_idempotency (sp_db p))" using inv by (simp add: sqlite_inv_def provider_inv_def idempotency_ok_def)
  from assms(1) obtain db where "read_idempotency ident req now (sp_db p) = Inr (IdemReplayed stored, db)"
    by (auto simp: provider_read_idempotency_def call_def read_idempotency_consistent_def finish_tx_def bindR_eq_Inr
        split: if_splits prod.splits sum.splits option.splits)
  then obtain db1 r where "delete_expired_idempotency now (sp_db p) = Inr db1" "map_of (t_idempotency db1) ident = Some r"
    "idr_request_json r = req" "idr_result_json r = stored"
    by (auto simp: read_idempotency_def bindR_eq_Inr Let_def split: option.splits if_splits)
  with expired_record[OF _ wf] show "sqlite_recorded ident req p = Some stored" by (simp add: sqlite_recorded_def)
  from assms(1) obtain d1 f where "read_idempotency ident req now (sp_db p) = Inr (IdemReplayed stored, d1)"
    and adv: "advance_read_sessions E scope rc f d1 = Inr (sp_db p')"
    by (auto simp: provider_read_idempotency_def call_def read_idempotency_consistent_def finish_tx_def bindR_eq_Inr
        split: if_splits prod.splits sum.splits option.splits)
  then have "delete_expired_idempotency now (sp_db p) = Inr d1"
    by (auto simp: read_idempotency_def bindR_eq_Inr Let_def split: option.splits if_splits)
  then obtain a b where "d1 = (sp_db p)\<lparr>t_idempotency := a, t_wu_idempotency := b\<rparr>"
    by (auto simp: delete_expired_idempotency_Ok)
  with advance_read_sessions_only[OF adv] have hd: "t_head (sp_db p') = t_head (sp_db p)" and tv: "t_version (sp_db p') = t_version (sp_db p)"
    by auto
  show "same_store sqlite_heads sqlite_contents p p'"
    by (simp add: same_store_def sqlite_heads_def sqlite_contents_def published_heads_def heads_of_def hd published_contents_cong[OF tv])
qed

lemma commit_replayed_recorded:
  assumes "provider_commit_entity_idempotent E c com rec now p = (Inr (IReplayed stored), p')" and inv: "sqlite_inv p"
  shows "sqlite_recorded (ir_identity_json rec) (ir_request_json rec) p = Some stored
    \<and> same_store sqlite_heads sqlite_contents p p'"
proof
  show "same_store sqlite_heads sqlite_contents p p'"
    using idempotent_commit_unchanged[OF assms(1)] by (simp add: same_store_def)
  have wf: "tbl_wf (t_idempotency (sp_db p))" using inv by (simp add: sqlite_inv_def provider_inv_def idempotency_ok_def)
  from assms(1) obtain db where "commit_entity_idempotent E c com rec now (sp_db p) = (Inr (IReplayed stored), db)"
    by (auto simp: provider_commit_entity_idempotent_def Let_def signal_changes_def call_def split: if_splits prod.splits)
  then obtain db1 r where "delete_expired_idempotency now (sp_db p) = Inr db1" "map_of (t_idempotency db1) (ir_identity_json rec) = Some r"
    "idr_request_json r = ir_request_json rec" "idr_result_json r = stored"
    by (auto simp: commit_entity_idempotent_def finish_tx_def bindR_eq_Inr
        split: sum.splits option.splits if_splits prod.splits EntityCommitOutcome.splits)
  with expired_record[OF _ wf] show "sqlite_recorded (ir_identity_json rec) (ir_request_json rec) p = Some stored"
    by (simp add: sqlite_recorded_def)
qed

lemma same_entities_idempotency:
  "same_entities db (db\<lparr>t_idempotency := t\<rparr>)" "same_entities db (db\<lparr>t_idempotency := t, t_wu_idempotency := u\<rparr>)"
  by (simp_all add: same_entities_def published_heads_def heads_of_def published_contents_rows)

lemma idempotent_commit_effect:
  assumes "provider_commit_entity_idempotent E c com rec now p = (Inr ICommitted, p')"
  shows "committed_effect sqlite_heads sqlite_contents com p p'"
proof -
  from assms have "commit_entity_idempotent E c com rec now (sp_db p) = (Inr ICommitted, sp_db p')"
    by (auto simp: provider_commit_entity_idempotent_def Let_def signal_changes_def call_def split: if_splits prod.splits)
  from commit_entity_idempotent_Committed[OF this] obtain db1 db2 where
    d: "delete_expired_idempotency now (sp_db p) = Inr db1" "published_heads (ec_key com) db1 = sort (ec_expected_heads com)"
    "committed_db com db1 db2" "insert_idempotency E rec db2 = Inr (sp_db p')" by blast
  have "same_entities (sp_db p) db1" "same_entities db2 (sp_db p')"
    using d(1) insert_idempotency_Ok[OF d(4)] same_entities_idempotency by (auto simp: delete_expired_idempotency_Ok)
  with d(2) published_heads_committed[OF d(3)] published_contents_committed[OF d(3)] show ?thesis
    by (auto simp: committed_effect_def same_entities_def sqlite_heads_def sqlite_contents_def)
qed

interpretation sqlite_engine:
  engine_store "over_sqlite E V clk wal f En" sqlite_heads sqlite_contents sqlite_inv "provider_run E" sqlite_recorded
  for E V clk wal f En
proof (rule engine_store.intro)
  fix i j s s' s'' key rc r scope ident req now out stored c rec
  show "entity_store (p_read_entity (en_ops (over_sqlite E V clk wal f En) i)) (p_commit_entity (en_ops (over_sqlite E V clk wal f En) j))
     sqlite_heads sqlite_contents sqlite_inv" by (simp add: sqlite_ops_def sqlite_store)
  show "provider_run E s s" by (simp add: provider_run_def)
  show "provider_run E s s' \<Longrightarrow> provider_run E s' s'' \<Longrightarrow> provider_run E s s''" by (simp add: provider_run_def)
  show "provider_run E s s' \<Longrightarrow> sqlite_inv s \<Longrightarrow> sqlite_inv s'"
    using provider_inv_run by (simp add: sqlite_inv_def)
  show "provider_run E s (en_others (over_sqlite E V clk wal f En) i s)" by (simp add: interference_run)
  show "p_read_entity (en_ops (over_sqlite E V clk wal f En) i) key rc s = (r, s') \<Longrightarrow> provider_run E s s'"
    by (auto simp: sqlite_ops_def intro: provider_step_run provider_step.ReadEntity)
  show "p_read_idempotency (en_ops (over_sqlite E V clk wal f En) i) scope rc ident req now s = (out, s') \<Longrightarrow> provider_run E s s'"
    by (auto simp: sqlite_ops_def intro: provider_step_run provider_step.ReadIdempotency)
  show "sqlite_inv s \<Longrightarrow> p_read_idempotency (en_ops (over_sqlite E V clk wal f En) i) scope rc ident req now s = (Inr (IdemReplayed stored), s') \<Longrightarrow>
      sqlite_recorded ident req s = Some stored \<and> same_store sqlite_heads sqlite_contents s s'" by (simp add: sqlite_ops_def read_replayed_recorded)
  show "sqlite_inv s \<Longrightarrow> commit_wf c \<Longrightarrow> p_commit_entity_idempotent (en_ops (over_sqlite E V clk wal f En) i) c rec now s = (Inr ICommitted, s') \<Longrightarrow>
      committed_effect sqlite_heads sqlite_contents c s s' \<and> sqlite_inv s'"
    using provider_inv_step[OF provider_step.CommitIdempotent] by (auto simp: sqlite_ops_def sqlite_inv_def idempotent_commit_effect)
  show "sqlite_inv s \<Longrightarrow> commit_wf c \<Longrightarrow> p_commit_entity_idempotent (en_ops (over_sqlite E V clk wal f En) i) c rec now s = (Inr (IReplayed stored), s') \<Longrightarrow>
      sqlite_recorded (ir_identity_json rec) (ir_request_json rec) s = Some stored
      \<and> same_store sqlite_heads sqlite_contents s s'" by (simp add: sqlite_ops_def commit_replayed_recorded)
qed

lemma answered_over_sqlite [simp]: "answered_by_record (over_sqlite E V clk wal f En) = answered_by_record En"
  by (simp add: answered_by_record_def fun_eq_iff)

section \<open>Mutations\<close>

lemma only_head_read:
  assumes "engine_read (over_sqlite E V clk wal f En) params p = (Inr res, p')" and inv: "sqlite_inv p" and idle: "f 1 p = p"
    and sel: "engine_select En (er_entity_type (rd_entity_ref (rp_data params))) (rp_meta params) = Inr sel"
      "bh_publication (se_behavior sel) = Immediate"
  defines "key \<equiv> entity_key (en_codec En) sel (rd_entity_ref (rp_data params))"
  assumes head: "sqlite_heads key p = [v]" and stored: "(v, Active, Some j) \<in> sqlite_contents key p"
    and x: "from_str (cx_json (en_codec En)) j = Some x"
  shows "rr_data res = \<lparr>rs_state = StateActive, rs_variants = [EActive (rd_entity_ref (rp_data params)) v x]\<rparr>"
proof -
  let ?r = "rd_entity_ref (rp_data params)"
  have "interference E f 1 p = p" unfolding interference_def idle by simp
  with sqlite_engine.read_Ok[OF assms(1) inv] sel head obtain ev where
    ev: "rs_variants (rr_data res) = [ev]" "shows_version (cx_json (en_codec En)) ?r (sqlite_contents key p) v ev"
    and st: "rs_state (rr_data res) = read_state (rs_variants (rr_data res))"
    by (auto simp: key_def list_all2_Cons1)
  have uniq: "a = (Active, Some j)" if "(v, a) \<in> sqlite_contents key p" for a
    by (rule sqlite.contents_unique[OF inv that stored])
  have "ev = EActive ?r v x"
    using ev(2) x uniq by (cases ev) (auto simp: shows_version_def dest!: uniq)
  with ev(1) st show ?thesis by (cases "rr_data res") simp
qed




section \<open>Example\<close>

definition sample_codec :: wire_codec where
  "sample_codec =
     \<lparr>cx_json = \<lparr>from_str = (\<lambda>s. Some (String s)), to_string = (\<lambda>v. case v of String s \<Rightarrow> s | _ \<Rightarrow> ''{s}''),
        pointer = (\<lambda>_ _. None), set_pointer = (\<lambda>v _ _. v), nearest_f64 = of_int\<rparr>,
      cx_key_json = (\<lambda>_. ''{k}''), cx_policy_json = (\<lambda>_. ''{p}''), cx_plan_json = (\<lambda>_. ''{c}''), cx_plan_from = (\<lambda>_. None),
      cx_request_json = (\<lambda>operation _. operation), cx_result_json = (\<lambda>_. ''r''), cx_result_from = (\<lambda>_. None), cx_meta_from = (\<lambda>_. Some [])\<rparr>"

definition sample_query_codec :: query_codec where
  "sample_query_codec =
     \<lparr>qc_json = cx_json sample_codec, qc_identity_json = (\<lambda>_. ''i''), qc_sha256_hex = (\<lambda>s. s), qc_cursor_json = (\<lambda>_. ''c''),
      qc_cursor_from = (\<lambda>_. None)\<rparr>"

definition sample_engine :: "(sqlite_provider, nat list) engine_env" where
  "sample_engine =
     \<lparr>en_config = sample_config, en_config_env = sample_config_env, en_codec = sample_codec, en_query = sample_query_codec,
      en_automerge = sample_automerge, en_ops = (\<lambda>i. sqlite_ops sample_env sample_retrieval (\<lambda>_. Some 9) (0, 0, 0)),
      en_others = (\<lambda>_ p. p), en_clock = (\<lambda>_. Some 10), en_uuid = (\<lambda>i k. replicate (Suc k) (CHR ''u''))\<rparr>"

lemma sample_over_sqlite: "over_sqlite sample_env sample_retrieval (\<lambda>_ _. Some 9) (0, 0, 0) (\<lambda>_ p. p) sample_engine = sample_engine"
  by (simp add: over_sqlite_def sample_engine_def fun_eq_iff interference_def)

definition sample_create :: "CreateEntityData RpcParams" where
  "sample_create =
     \<lparr>rp_meta = [(''channel'', String ''c1''), (''request'', String ''r1''), (''workspace'', String ''w1'')],
      rp_data = \<lparr>cd_entity_type = ''knowledge'', cd_id = Some ''n1'', cd_value = String ''x''\<rparr>\<rparr>"

definition sample_selection :: PolicySelection where
  "sample_selection = projr (engine_select sample_engine ''knowledge'' (rp_meta sample_create))"

lemma sample_selected:
  "engine_select sample_engine ''knowledge'' (rp_meta sample_create) = Inr sample_selection"
  "bh_publication (se_behavior sample_selection) = Immediate"
proof -
  have "\<not> isl (engine_select sample_engine ''knowledge'' (rp_meta sample_create))" by code_simp
  then show "engine_select sample_engine ''knowledge'' (rp_meta sample_create) = Inr sample_selection"
    unfolding sample_selection_def by (cases "engine_select sample_engine ''knowledge'' (rp_meta sample_create)") simp_all
  show "bh_publication (se_behavior sample_selection) = Immediate" by code_simp
qed

definition sample_ref :: EntityRef where
  "sample_ref = \<lparr>er_entity_type = ''knowledge'', er_id = ''n1''\<rparr>"

definition sample_stored :: sqlite_provider where
  "sample_stored = snd (create sample_engine sample_create fresh_provider)"

lemma sample_created: "\<exists>res. create sample_engine sample_create fresh_provider = (Inr res, sample_stored)"
proof -
  have "\<not> isl (fst (create sample_engine sample_create fresh_provider))" by code_simp
  then show ?thesis unfolding sample_stored_def
    by (cases "create sample_engine sample_create fresh_provider"; cases "fst (create sample_engine sample_create fresh_provider)") simp_all
qed


text \<open>An update and a deletion of an entity with one version.\<close>

definition sample_based_meta :: Meta where
  "sample_based_meta =
     [(''base'', Array [String ''v1'']), (''channel'', String ''c1''), (''request'', String ''r1''), (''workspace'', String ''w1'')]"

definition sample_based_selection :: PolicySelection where
  "sample_based_selection = projr (engine_select sample_engine ''knowledge'' sample_based_meta)"

lemma sample_based_selected:
  "engine_select sample_engine ''knowledge'' sample_based_meta = Inr sample_based_selection"
  "bh_publication (se_behavior sample_based_selection) = Immediate"
  "cpl_strategy (se_conflict sample_based_selection) = Mvcc" "base_version_names (se_conflict sample_based_selection) = [''v1'']"
proof -
  have "\<not> isl (engine_select sample_engine ''knowledge'' sample_based_meta)" by code_simp
  then show "engine_select sample_engine ''knowledge'' sample_based_meta = Inr sample_based_selection"
    unfolding sample_based_selection_def by (cases "engine_select sample_engine ''knowledge'' sample_based_meta") simp_all
  show "bh_publication (se_behavior sample_based_selection) = Immediate"
    "cpl_strategy (se_conflict sample_based_selection) = Mvcc" "base_version_names (se_conflict sample_based_selection) = [''v1'']"
    by code_simp+
qed

definition sample_target :: EntityRef where
  "sample_target = \<lparr>er_entity_type = ''knowledge'', er_id = ''a''\<rparr>"

definition sample_update :: "UpdateEntityData RpcParams" where
  "sample_update = \<lparr>rp_meta = sample_based_meta, rp_data = \<lparr>ud_entity_ref = sample_target, ud_value = String ''y''\<rparr>\<rparr>"

definition sample_delete :: "DeleteEntityData RpcParams" where
  "sample_delete = \<lparr>rp_meta = sample_based_meta, rp_data = \<lparr>dd_entity_ref = sample_target\<rparr>\<rparr>"



end
