(* ===== verification/Execution_Locks.thy ===== *)
theory Execution_Locks
  imports Engine_Sqlite
begin

text \<open>
  The execution guards of the engine, \<open>ExecutionLocks\<close> of \<open>crates/backend/src/engine.rs\<close>: requests
  that share a linearization, ordering or idempotency key execute one after the other. A request is
  a task; it looks its locks up in one critical section of the table and then waits for them in the
  order of their keys. A lock is an address; it is alive while some task refers to it, and the table
  refers to it weakly. Which waiting task gets a free lock is left open, and a task may be dropped
  at any point.
\<close>

section \<open>Tasks and locks\<close>

fun insert_key :: "wire_codec \<Rightarrow> bool \<Rightarrow> ControlKey option \<Rightarrow> string list" where
  "insert_key X True (Some k) = [cx_key_json X k]"
| "insert_key X _ _ = []"

definition selection_lock_keys :: "wire_codec \<Rightarrow> bool \<Rightarrow> PolicySelection \<Rightarrow> string list" where
  "selection_lock_keys X mutation sel =
     insert_key X True (cn_linearization_key (se_consistency sel))
     @ insert_key X mutation (cn_commit_ordering_key (se_consistency sel))
     @ insert_key X mutation (se_idempotency_key sel)"

definition lock_keys :: "wire_codec \<Rightarrow> PolicySelection list \<Rightarrow> bool \<Rightarrow> string list" where
  "lock_keys X sels mutation = sort_dedup (concat (map (selection_lock_keys X mutation) sels))"

text \<open>A task that acquires has some of its guards and waits for the other locks; a task that
  executes has all of them.\<close>

datatype exec_task =
    Idle
  | Acquiring (task_keys: "string list") (task_held: "nat list") (task_todo: "nat list")
  | Executing (task_keys: "string list") (task_held: "nat list")
  where "task_keys Idle = []" | "task_held Idle = []" | "task_todo Idle = []" | "task_todo (Executing _ _) = []"

definition task_locks :: "exec_task \<Rightarrow> nat list" where
  "task_locks t = task_held t @ task_todo t"

record exec_state =
  ex_known :: "(string \<times> nat) list"
  ex_next :: nat
  ex_tasks :: "exec_task list"

definition lock_alive :: "exec_state \<Rightarrow> nat \<Rightarrow> bool" where
  "lock_alive s a = list_ex (\<lambda>t. a \<in> set (task_locks t)) (ex_tasks s)"

definition lock_free :: "exec_state \<Rightarrow> nat \<Rightarrow> bool" where
  "lock_free s a = list_all (\<lambda>t. a \<notin> set (task_held t)) (ex_tasks s)"

text \<open>The critical section of \<open>acquire_many\<close>. A guard dropped by another task meanwhile counts as
  dropped before it.\<close>

definition find_lock :: "string \<Rightarrow> (string \<times> nat) list \<times> nat \<times> nat list \<Rightarrow> (string \<times> nat) list \<times> nat \<times> nat list" where
  "find_lock key acc =
     (case acc of (known, fresh, locks) \<Rightarrow>
      case map_of known key of
        Some a \<Rightarrow> (known, fresh, locks @ [a])
      | None \<Rightarrow> (btree_insert key fresh known, Suc fresh, locks @ [fresh]))"

definition find_locks :: "exec_state \<Rightarrow> string list \<Rightarrow> (string \<times> nat) list \<times> nat \<times> nat list" where
  "find_locks s keys = fold find_lock keys (filter (\<lambda>(_, a). lock_alive s a) (ex_known s), ex_next s, [])"

inductive exec_step :: "wire_codec \<Rightarrow> exec_state \<Rightarrow> exec_state \<Rightarrow> bool" for X where
  Arrive: "exec_step X s (s\<lparr>ex_tasks := ex_tasks s @ [Idle]\<rparr>)"
| Lookup: "i < length (ex_tasks s) \<Longrightarrow> ex_tasks s ! i = Idle \<Longrightarrow> keys = lock_keys X sels mutation \<Longrightarrow>
     find_locks s keys = (known, fresh, locks) \<Longrightarrow>
     exec_step X s \<lparr>ex_known = known, ex_next = fresh, ex_tasks = (ex_tasks s)[i := Acquiring keys [] locks]\<rparr>"
| Lock: "i < length (ex_tasks s) \<Longrightarrow> ex_tasks s ! i = Acquiring keys held (a # todo) \<Longrightarrow> lock_free s a \<Longrightarrow>
     exec_step X s (s\<lparr>ex_tasks := (ex_tasks s)[i := Acquiring keys (held @ [a]) todo]\<rparr>)"
| Acquired: "i < length (ex_tasks s) \<Longrightarrow> ex_tasks s ! i = Acquiring keys held [] \<Longrightarrow>
     exec_step X s (s\<lparr>ex_tasks := (ex_tasks s)[i := Executing keys held]\<rparr>)"
| Drop: "i < length (ex_tasks s) \<Longrightarrow> exec_step X s (s\<lparr>ex_tasks := (ex_tasks s)[i := Idle]\<rparr>)"

definition exec_init :: exec_state where
  "exec_init = \<lparr>ex_known = [], ex_next = 0, ex_tasks = []\<rparr>"

definition exec_reachable :: "wire_codec \<Rightarrow> exec_state \<Rightarrow> bool" where
  "exec_reachable X s = (exec_step X)\<^sup>*\<^sup>* exec_init s"

section \<open>Invariant\<close>

text \<open>The table names every lock a task refers to by the key the task asked for, and no two keys
  share a lock; no lock is held twice.\<close>

definition task_ok :: "(string \<times> nat) list \<Rightarrow> exec_task \<Rightarrow> bool" where
  "task_ok known t \<longleftrightarrow> sorted_wrt (<) (task_keys t) \<and> list_all2 (\<lambda>k a. map_of known k = Some a) (task_keys t) (task_locks t)"

definition table_ok :: "(string \<times> nat) list \<Rightarrow> nat \<Rightarrow> bool" where
  "table_ok known fresh \<longleftrightarrow> btree_wf known \<and> inj_on (map_of known) (dom (map_of known)) \<and> (\<forall>a \<in> snd ` set known. a < fresh)"

definition exec_ok :: "exec_state \<Rightarrow> bool" where
  "exec_ok s \<longleftrightarrow> table_ok (ex_known s) (ex_next s) \<and> (\<forall>t \<in> set (ex_tasks s). task_ok (ex_known s) t)
     \<and> (\<forall>i < length (ex_tasks s). \<forall>j < length (ex_tasks s).
          i \<noteq> j \<longrightarrow> set (task_held (ex_tasks s ! i)) \<inter> set (task_held (ex_tasks s ! j)) = {})"

lemma table_ok_fresh: "table_ok known fresh \<Longrightarrow> map_of known k \<noteq> Some fresh"
  by (force simp: table_ok_def dest!: map_of_SomeD)

lemma table_ok_inj: "table_ok known fresh \<Longrightarrow> map_of known x = Some a \<Longrightarrow> map_of known y = Some a \<Longrightarrow> x = y"
  unfolding table_ok_def by (metis domI inj_onD)

lemma find_lock_Ok:
  assumes "find_lock k (known, fresh, locks) = (known', fresh', locks')" "table_ok known fresh"
  shows "table_ok known' fresh'" "map_of known \<subseteq>\<^sub>m map_of known'" "fresh \<le> fresh'" "\<exists>a. locks' = locks @ [a] \<and> map_of known' k = Some a"
proof -
  have wf: "btree_wf known" using assms(2) by (simp add: table_ok_def)
  show "map_of known \<subseteq>\<^sub>m map_of known'" "fresh \<le> fresh'" "\<exists>a. locks' = locks @ [a] \<and> map_of known' k = Some a"
    using assms(1) wf by (auto simp: find_lock_def map_of_btree_insert map_le_def split: option.splits)
  show "table_ok known' fresh'"
  proof (cases "map_of known k")
    case (Some a)
    with assms show ?thesis by (auto simp: find_lock_def)
  next
    case None
    then have eq: "known' = btree_insert k fresh known" "fresh' = Suc fresh" using assms(1) by (auto simp: find_lock_def)
    have inj: "inj_on ((map_of known)(k \<mapsto> fresh)) (insert k (dom (map_of known)))"
      using assms(2) None table_ok_fresh[OF assms(2)] by (auto simp: table_ok_def inj_on_def)
    have sub: "snd ` set (btree_insert k fresh known) \<subseteq> insert fresh (snd ` set known)"
      by (induction k fresh known rule: btree_insert.induct) auto
    have bound: "\<forall>a \<in> snd ` set (btree_insert k fresh known). a < Suc fresh"
    proof (rule ballI)
      fix a assume "a \<in> snd ` set (btree_insert k fresh known)"
      then have "a = fresh \<or> a \<in> snd ` set known" using sub by blast
      then show "a < Suc fresh" using assms(2) by (auto simp: table_ok_def)
    qed
    show ?thesis unfolding table_ok_def eq
      using bound inj by (simp add: wf btree_insert_wf map_of_btree_insert)
  qed
qed

lemma find_locks_Ok:
  assumes "fold find_lock keys (known, fresh, locks) = (known', fresh', locks')" "table_ok known fresh"
  shows "table_ok known' fresh' \<and> map_of known \<subseteq>\<^sub>m map_of known'
    \<and> (\<exists>new. locks' = locks @ new \<and> list_all2 (\<lambda>k a. map_of known' k = Some a) keys new)"
  using assms
proof (induction keys arbitrary: known fresh locks)
  case (Cons k keys)
  obtain known1 fresh1 locks1 where 1: "find_lock k (known, fresh, locks) = (known1, fresh1, locks1)" by (metis prod_cases3)
  note F = find_lock_Ok[OF 1 Cons.prems(2)]
  have IH: "table_ok known' fresh' \<and> map_of known1 \<subseteq>\<^sub>m map_of known'
      \<and> (\<exists>new. locks' = locks1 @ new \<and> list_all2 (\<lambda>k a. map_of known' k = Some a) keys new)"
    using Cons.IH[OF _ F(1)] Cons.prems(1) 1 by simp
  with F(2,4) show ?case by (auto simp: map_le_def dom_def intro: map_le_trans)
qed simp

lemma table_ok_filter:
  assumes "table_ok known fresh"
  shows "table_ok (filter P known) fresh" "map_of (filter P known) k = Some a \<longleftrightarrow> map_of known k = Some a \<and> P (k, a)"
proof -
  have wf: "btree_wf known" "btree_wf (filter P known)" using assms by (simp_all add: table_ok_def btree_wf_filter)
  have eq: "map_of (filter P known) k = Some a \<longleftrightarrow> map_of known k = Some a \<and> P (k, a)" for k a
    using wf[THEN btree_wf_distinct] by (simp add: map_of_eq_Some_iff)
  then show "map_of (filter P known) k = Some a \<longleftrightarrow> map_of known k = Some a \<and> P (k, a)" .
  have "inj_on (map_of (filter P known)) (dom (map_of (filter P known)))"
  proof (rule inj_onI)
    fix x y assume "x \<in> dom (map_of (filter P known))" "y \<in> dom (map_of (filter P known))" "map_of (filter P known) x = map_of (filter P known) y"
    then obtain a where "map_of known x = Some a" "map_of known y = Some a" by (auto simp: eq)
    with table_ok_inj[OF assms] show "x = y" by blast
  qed
  with wf assms show "table_ok (filter P known) fresh" by (auto simp: table_ok_def)
qed

lemma task_ok_mono: "task_ok known t \<Longrightarrow> (\<And>k a. a \<in> set (task_locks t) \<Longrightarrow> map_of known k = Some a \<Longrightarrow> map_of known' k = Some a) \<Longrightarrow> task_ok known' t"
  by (auto simp: task_ok_def intro: list.rel_mono_strong)

lemma exec_ok_update:
  assumes "exec_ok s" "task_ok (ex_known s) t"
    and "\<And>j. j < length (ex_tasks s) \<Longrightarrow> j \<noteq> i \<Longrightarrow> set (task_held t) \<inter> set (task_held (ex_tasks s ! j)) = {}"
  shows "exec_ok (s\<lparr>ex_tasks := (ex_tasks s)[i := t]\<rparr>)"
proof -
  have "task_ok (ex_known s) u" if "u \<in> set ((ex_tasks s)[i := t])" for u
    using that assms(1,2) set_update_subset_insert[of "ex_tasks s" i t] by (auto simp: exec_ok_def)
  moreover have "set (task_held ((ex_tasks s)[i := t] ! a)) \<inter> set (task_held ((ex_tasks s)[i := t] ! b)) = {}"
    if "a < length (ex_tasks s)" "b < length (ex_tasks s)" "a \<noteq> b" for a b
  proof (cases "a = i")
    case True
    with that assms(3)[of b] show ?thesis by (simp add: nth_list_update)
  next
    case False
    show ?thesis
    proof (cases "b = i")
      case True
      with that assms(3)[of a] show ?thesis by (simp add: nth_list_update Int_commute)
    next
      case b: False
      with False that assms(1) show ?thesis by (simp add: exec_ok_def)
    qed
  qed
  ultimately show ?thesis using assms(1) by (simp add: exec_ok_def)
qed

lemma lock_keys_sorted: "sorted_wrt (<) (lock_keys X sels mutation)"
  by (simp add: lock_keys_def strict_sorted_iff)

lemma exec_ok_lookup:
  assumes ok: "exec_ok s" and F: "find_locks s keys = (known, fresh, locks)" and keys: "sorted_wrt (<) keys"
  shows "exec_ok \<lparr>ex_known = known, ex_next = fresh, ex_tasks = (ex_tasks s)[i := Acquiring keys [] locks]\<rparr>"
proof -
  let ?alive = "filter (\<lambda>(_, a). lock_alive s a) (ex_known s)" let ?s = "s\<lparr>ex_known := known, ex_next := fresh\<rparr>"
  have T: "table_ok (ex_known s) (ex_next s)" using ok by (simp add: exec_ok_def)
  note alive = table_ok_filter[OF T, of "\<lambda>(_, a). lock_alive s a"]
  note L = find_locks_Ok[OF F[unfolded find_locks_def] alive(1)]
  have "task_ok known t" if t: "t \<in> set (ex_tasks s)" for t
  proof (rule task_ok_mono)
    show "task_ok (ex_known s) t" using ok t by (simp add: exec_ok_def)
    fix k a assume "a \<in> set (task_locks t)" "map_of (ex_known s) k = Some a"
    moreover from this t have "lock_alive s a" by (auto simp: lock_alive_def list_ex_iff)
    ultimately have "map_of ?alive k = Some a" by (simp add: alive(2))
    with L show "map_of known k = Some a" by (auto simp: map_le_def dom_def)
  qed
  then have "exec_ok ?s" using ok L by (simp add: exec_ok_def)
  moreover have "task_ok known (Acquiring keys [] locks)" using L keys by (auto simp: task_ok_def task_locks_def)
  ultimately have "exec_ok (?s\<lparr>ex_tasks := (ex_tasks ?s)[i := Acquiring keys [] locks]\<rparr>)"
    by (intro exec_ok_update) simp_all
  then show ?thesis by (cases s) simp
qed

lemma exec_ok_step:
  assumes "exec_step X s s'" "exec_ok s"
  shows "exec_ok s'"
  using assms
proof (induction rule: exec_step.induct)
  case (Arrive s)
  then show ?case by (auto simp: exec_ok_def task_ok_def task_locks_def nth_append)
next
  case (Lookup i s keys sels mutation known fresh locks)
  then show ?case using exec_ok_lookup[OF Lookup.prems Lookup.hyps(4)] lock_keys_sorted by simp
next
  case (Lock i s keys held a todo)
  let ?old = "Acquiring keys held (a # todo)"
  have "task_ok (ex_known s) ?old" using Lock by (metis exec_ok_def nth_mem)
  then have "task_ok (ex_known s) (Acquiring keys (held @ [a]) todo)" by (simp add: task_ok_def task_locks_def)
  moreover have "set (task_held ?old) \<inter> set (task_held (ex_tasks s ! j)) = {}" if "j < length (ex_tasks s)" "j \<noteq> i" for j
    using Lock that unfolding exec_ok_def by (metis (no_types, lifting))
  ultimately show ?case using Lock by (intro exec_ok_update) (auto simp: lock_free_def list_all_length)
next
  case (Acquired i s keys held)
  let ?old = "Acquiring keys held []"
  have "task_ok (ex_known s) ?old" using Acquired by (metis exec_ok_def nth_mem)
  then have "task_ok (ex_known s) (Executing keys held)" by (simp add: task_ok_def task_locks_def)
  moreover have "set (task_held ?old) \<inter> set (task_held (ex_tasks s ! j)) = {}" if "j < length (ex_tasks s)" "j \<noteq> i" for j
    using Acquired that unfolding exec_ok_def by (metis (no_types, lifting))
  ultimately show ?case using Acquired by (intro exec_ok_update) auto
next
  case (Drop i s)
  then show ?case by (intro exec_ok_update) (simp_all add: task_ok_def task_locks_def)
qed

lemma exec_ok_reachable: "exec_reachable X s \<Longrightarrow> exec_ok s"
  unfolding exec_reachable_def
proof (induction rule: rtranclp_induct)
  case base
  show ?case by (simp add: exec_init_def exec_ok_def table_ok_def btree_wf_def)
next
  case (step s s')
  then show ?case by (blast intro: exec_ok_step)
qed

section \<open>Mutual exclusion and progress\<close>

lemma exec_ok_task: "exec_ok s \<Longrightarrow> i < length (ex_tasks s) \<Longrightarrow> task_ok (ex_known s) (ex_tasks s ! i)"
  by (simp add: exec_ok_def)

lemma task_ok_key:
  "task_ok known t \<Longrightarrow> length (task_locks t) = length (task_keys t)
     \<and> (\<forall>n < length (task_keys t). map_of known (task_keys t ! n) = Some (task_locks t ! n))"
  by (auto simp: task_ok_def list_all2_conv_all_nth)

text \<open>The key a task waits for next, and whose lock that is.\<close>

definition awaited :: "exec_task \<Rightarrow> string" where
  "awaited t = task_keys t ! length (task_held t)"

definition waits_for :: "exec_state \<Rightarrow> nat \<Rightarrow> nat \<Rightarrow> bool" where
  "waits_for s i j \<longleftrightarrow> i < length (ex_tasks s) \<and> j < length (ex_tasks s) \<and> task_todo (ex_tasks s ! i) \<noteq> []
     \<and> hd (task_todo (ex_tasks s ! i)) \<in> set (task_held (ex_tasks s ! j))"

definition can_proceed :: "exec_state \<Rightarrow> nat \<Rightarrow> bool" where
  "can_proceed s i \<longleftrightarrow> i < length (ex_tasks s)
     \<and> (is_Executing (ex_tasks s ! i)
        \<or> is_Acquiring (ex_tasks s ! i) \<and> (task_todo (ex_tasks s ! i) = [] \<or> lock_free s (hd (task_todo (ex_tasks s ! i)))))"

lemma todo_key:
  assumes "task_ok known t" "task_todo t \<noteq> []"
  shows "length (task_held t) < length (task_keys t)" "map_of known (awaited t) = Some (hd (task_todo t))" "awaited t \<in> set (task_keys t)"
proof -
  note K = task_ok_key[OF assms(1)]
  have "0 < length (task_todo t)" using assms(2) by simp
  moreover have "length (task_held t) + length (task_todo t) = length (task_keys t)" using K by (simp add: task_locks_def)
  ultimately show len: "length (task_held t) < length (task_keys t)" by linarith
  then show "awaited t \<in> set (task_keys t)" by (simp add: awaited_def)
  show "map_of known (awaited t) = Some (hd (task_todo t))"
    using K len assms(2) by (simp add: awaited_def task_locks_def nth_append hd_conv_nth)
qed

lemma waits_for_greater:
  assumes ok: "exec_ok s" and w: "waits_for s i j" and j: "task_todo (ex_tasks s ! j) \<noteq> []"
  shows "awaited (ex_tasks s ! i) < awaited (ex_tasks s ! j)"
proof -
  let ?i = "ex_tasks s ! i" let ?j = "ex_tasks s ! j"
  have oki: "task_ok (ex_known s) ?i" and okj: "task_ok (ex_known s) ?j" using exec_ok_task[OF ok] w by (auto simp: waits_for_def)
  have T: "table_ok (ex_known s) (ex_next s)" using ok by (simp add: exec_ok_def)
  from w obtain n where n: "n < length (task_held ?j)" "task_held ?j ! n = hd (task_todo ?i)"
    by (auto simp: waits_for_def in_set_conv_nth)
  have len: "length (task_held ?j) < length (task_keys ?j)" by (rule todo_key(1)[OF okj j])
  with n task_ok_key[OF okj] have "map_of (ex_known s) (task_keys ?j ! n) = Some (hd (task_todo ?i))"
    by (auto simp: task_locks_def nth_append)
  with todo_key(2)[OF oki] w table_ok_inj[OF T] have "task_keys ?j ! n = awaited ?i" by (auto simp: waits_for_def)
  moreover have "sorted_wrt (<) (task_keys ?j)" using okj by (simp add: task_ok_def)
  ultimately show ?thesis using n(1) len sorted_wrt_nth_less[of "(<)" "task_keys ?j" n "length (task_held ?j)"] by (auto simp: awaited_def)
qed

lemma chain_proceeds:
  assumes ok: "exec_ok s" and "i < length (ex_tasks s)" "is_Acquiring (ex_tasks s ! i)"
  shows "\<exists>j. (waits_for s)\<^sup>*\<^sup>* i j \<and> can_proceed s j"
  using assms(2,3)
proof (induction "card {k \<in> \<Union>t \<in> set (ex_tasks s). set (task_keys t). awaited (ex_tasks s ! i) < k}" arbitrary: i rule: less_induct)
  case less
  let ?K = "\<Union>t \<in> set (ex_tasks s). set (task_keys t)" let ?i = "ex_tasks s ! i"
  show ?case
  proof (cases "task_todo ?i = [] \<or> lock_free s (hd (task_todo ?i))")
    case True
    with less.prems have "can_proceed s i" by (simp add: can_proceed_def)
    then show ?thesis by blast
  next
    case False
    then obtain j where w: "waits_for s i j" using less.prems by (auto simp: waits_for_def lock_free_def list_all_length)
    let ?j = "ex_tasks s ! j"
    have jlen: "j < length (ex_tasks s)" and held: "task_held ?j \<noteq> []" using w by (auto simp: waits_for_def)
    show ?thesis
    proof (cases "can_proceed s j")
      case True
      with w show ?thesis by blast
    next
      case stuck: False
      with jlen held have acq: "is_Acquiring ?j" "task_todo ?j \<noteq> []" by (cases ?j; auto simp: can_proceed_def)+
      have lt: "awaited ?i < awaited ?j" by (rule waits_for_greater[OF ok w acq(2)])
      have "awaited ?j \<in> ?K" using todo_key(3)[OF exec_ok_task[OF ok jlen] acq(2)] jlen by (auto intro!: bexI[of _ ?j])
      then have "{k \<in> ?K. awaited ?j < k} \<subset> {k \<in> ?K. awaited ?i < k}" using lt by auto
      then have "card {k \<in> ?K. awaited ?j < k} < card {k \<in> ?K. awaited ?i < k}" by (intro psubset_card_mono) auto
      from less.hyps[OF this jlen acq(1)] w show ?thesis by (blast intro: converse_rtranclp_into_rtranclp)
    qed
  qed
qed

lemma lock_keys_cover:
  assumes "sel \<in> set sels" "cn_linearization_key (se_consistency sel) = Some k
    \<or> mutation \<and> (cn_commit_ordering_key (se_consistency sel) = Some k \<or> se_idempotency_key sel = Some k)"
  shows "cx_key_json X k \<in> set (lock_keys X sels mutation)"
proof -
  have "cx_key_json X k \<in> set (selection_lock_keys X mutation sel)" using assms(2) by (elim disjE conjE) (simp_all add: selection_lock_keys_def)
  with assms(1) have "cx_key_json X k \<in> set (concat (map (selection_lock_keys X mutation) sels))" by auto
  then show ?thesis unfolding lock_keys_def by (simp only: sort_dedup_props(1))
qed

text \<open>
  C37. The execution guards exclude and never deadlock. In every reachable state, two requests that
  execute at the same time share no key: not the linearization key of a read or a mutation, nor, for
  mutations, the ordering or the idempotency key. And no request waits for ever in a circle: following who holds
  the lock it waits for, every waiting request leads to a request that executes or can take its next
  lock at once.
\<close>
theorem execution_guards_exclude_and_progress:
  assumes "exec_reachable X s"
  shows "(\<forall>i j. i < length (ex_tasks s) \<and> j < length (ex_tasks s) \<and> i \<noteq> j
            \<and> is_Executing (ex_tasks s ! i) \<and> is_Executing (ex_tasks s ! j) \<longrightarrow>
            set (task_keys (ex_tasks s ! i)) \<inter> set (task_keys (ex_tasks s ! j)) = {})
    \<and> (\<forall>i. i < length (ex_tasks s) \<and> is_Acquiring (ex_tasks s ! i) \<longrightarrow>
            (\<exists>j. (waits_for s)\<^sup>*\<^sup>* i j \<and> can_proceed s j))
    \<and> (\<forall>sels sel mutation k. sel \<in> set sels
            \<and> (cn_linearization_key (se_consistency sel) = Some k
               \<or> mutation \<and> (cn_commit_ordering_key (se_consistency sel) = Some k \<or> se_idempotency_key sel = Some k)) \<longrightarrow>
            cx_key_json X k \<in> set (lock_keys X sels mutation))"
proof (intro conjI)
  note ok = exec_ok_reachable[OF assms]
  show "\<forall>i. i < length (ex_tasks s) \<and> is_Acquiring (ex_tasks s ! i) \<longrightarrow> (\<exists>j. (waits_for s)\<^sup>*\<^sup>* i j \<and> can_proceed s j)"
    using chain_proceeds[OF ok] by blast
  show "\<forall>sels sel mutation k. sel \<in> set sels
            \<and> (cn_linearization_key (se_consistency sel) = Some k
               \<or> mutation \<and> (cn_commit_ordering_key (se_consistency sel) = Some k \<or> se_idempotency_key sel = Some k)) \<longrightarrow>
            cx_key_json X k \<in> set (lock_keys X sels mutation)"
    using lock_keys_cover by blast
  show "\<forall>i j. i < length (ex_tasks s) \<and> j < length (ex_tasks s) \<and> i \<noteq> j
            \<and> is_Executing (ex_tasks s ! i) \<and> is_Executing (ex_tasks s ! j) \<longrightarrow>
            set (task_keys (ex_tasks s ! i)) \<inter> set (task_keys (ex_tasks s ! j)) = {}"
  proof (intro allI impI, elim conjE)
    fix i j assume ij: "i < length (ex_tasks s)" "j < length (ex_tasks s)" "i \<noteq> j" "is_Executing (ex_tasks s ! i)" "is_Executing (ex_tasks s ! j)"
    have held: "map_of (ex_known s) k = Some a \<Longrightarrow> k \<in> set (task_keys t) \<Longrightarrow> a \<in> set (task_held t)"
      if "task_ok (ex_known s) t" "is_Executing t" for t k a
    proof -
      assume k: "map_of (ex_known s) k = Some a" "k \<in> set (task_keys t)"
      have "task_locks t = task_held t" using that(2) by (cases t) (auto simp: task_locks_def)
      with task_ok_key[OF that(1)] k show "a \<in> set (task_held t)" by (fastforce simp: in_set_conv_nth)
    qed
    have known: "k \<in> set (task_keys t) \<Longrightarrow> \<exists>a. map_of (ex_known s) k = Some a" if "task_ok (ex_known s) t" for t k
      using task_ok_key[OF that] by (auto simp: in_set_conv_nth)
    have "set (task_held (ex_tasks s ! i)) \<inter> set (task_held (ex_tasks s ! j)) = {}" using ok ij by (simp add: exec_ok_def)
    with held[OF exec_ok_task[OF ok ij(1)] ij(4)] held[OF exec_ok_task[OF ok ij(2)] ij(5)] known[OF exec_ok_task[OF ok ij(1)]]
    show "set (task_keys (ex_tasks s ! i)) \<inter> set (task_keys (ex_tasks s ! j)) = {}" by blast
  qed
qed

section \<open>Example\<close>

text \<open>Two requests with one idempotency key: the first executes, the second waits for it.\<close>

definition sample_keyed :: PolicySelection where
  "sample_keyed = sample_selection\<lparr>se_idempotency_key := Some \<lparr>ck_scope = [], ck_fields = []\<rparr>,
     se_consistency := (se_consistency sample_selection)\<lparr>cn_linearization_key := None, cn_commit_ordering_key := None\<rparr>\<rparr>"

definition sample_guarded :: exec_state where
  "sample_guarded = \<lparr>ex_known = [(''{k}'', 0)], ex_next = 1, ex_tasks = [Executing [''{k}''] [0], Acquiring [''{k}''] [] [0]]\<rparr>"

lemma sample_guarded_reachable: "exec_reachable sample_codec sample_guarded"
proof -
  let ?s = "\<lambda>known fresh ts. \<lparr>ex_known = known, ex_next = fresh, ex_tasks = ts\<rparr>"
  let ?K = "[(''{k}'', 0)]"
  have keys: "lock_keys sample_codec [sample_keyed] True = [''{k}'']"
    by (simp add: lock_keys_def selection_lock_keys_def sample_keyed_def sample_codec_def sort_dedup_def)
  have 1: "exec_step sample_codec exec_init (?s [] 0 [Idle])"
    using exec_step.Arrive[of sample_codec exec_init] by (simp add: exec_init_def)
  have 2: "exec_step sample_codec (?s [] 0 [Idle]) (?s ?K 1 [Acquiring [''{k}''] [] [0]])"
    using exec_step.Lookup[of 0 "?s [] 0 [Idle]" "[''{k}'']" sample_codec "[sample_keyed]" True ?K 1 "[0]"] keys
    by (simp add: find_locks_def find_lock_def)
  have 3: "exec_step sample_codec (?s ?K 1 [Acquiring [''{k}''] [] [0]]) (?s ?K 1 [Acquiring [''{k}''] [0] []])"
    using exec_step.Lock[of 0 "?s ?K 1 [Acquiring [''{k}''] [] [0]]" "[''{k}'']" "[]" 0 "[]" sample_codec] by (simp add: lock_free_def)
  have 4: "exec_step sample_codec (?s ?K 1 [Acquiring [''{k}''] [0] []]) (?s ?K 1 [Executing [''{k}''] [0]])"
    using exec_step.Acquired[of 0 "?s ?K 1 [Acquiring [''{k}''] [0] []]" "[''{k}'']" "[0]" sample_codec] by simp
  have 5: "exec_step sample_codec (?s ?K 1 [Executing [''{k}''] [0]]) (?s ?K 1 [Executing [''{k}''] [0], Idle])"
    using exec_step.Arrive[of sample_codec "?s ?K 1 [Executing [''{k}''] [0]]"] by simp
  have 6: "exec_step sample_codec (?s ?K 1 [Executing [''{k}''] [0], Idle]) sample_guarded"
  proof -
    let ?t = "?s ?K 1 [Executing [''{k}''] [0], Idle]"
    have "find_locks ?t [''{k}''] = (?K, 1, [0])"
      by (simp add: find_locks_def find_lock_def lock_alive_def task_locks_def)
    from exec_step.Lookup[OF _ _ keys[symmetric] this, of 1] show ?thesis by (simp add: sample_guarded_def)
  qed
  note step = rtranclp.rtrancl_into_rtrancl[of "exec_step sample_codec" exec_init]
  show ?thesis unfolding exec_reachable_def
    by (rule step[OF _ 6], rule step[OF _ 5], rule step[OF _ 4], rule step[OF _ 3], rule step[OF _ 2], rule step[OF _ 1]) simp
qed

theorem execution_guards_exclude_and_progress_witness:
  "exec_reachable sample_codec sample_guarded \<and> (\<exists>j. (waits_for sample_guarded)\<^sup>*\<^sup>* 1 j \<and> can_proceed sample_guarded j)"
proof -
  have "1 < length (ex_tasks sample_guarded) \<and> is_Acquiring (ex_tasks sample_guarded ! 1)" by (simp add: sample_guarded_def)
  with execution_guards_exclude_and_progress[OF sample_guarded_reachable] sample_guarded_reachable show ?thesis by blast
qed

end
