(* ===== verification/Change_Streams.thy ===== *)
theory Change_Streams
  imports Engine_Sqlite
begin

text \<open>
  Subscriptions end to end: the cursors of events are decimal numbers that parse back, the change log
  of the SQLite provider covers its head history up to what it reports as pruned, and a
  subscription over any interleaving with other activity delivers exactly the changes of its scope
  and filter.
\<close>

section \<open>Decimal cursors\<close>

lemma digit_of_char_of: "d < 10 \<Longrightarrow> digit_of (char_of (48 + d)) = Some d"
  by (simp add: digit_of_def)

lemma parse_digits_show:
  "n \<le> u64_max \<Longrightarrow> parse_digits (show_u64 n @ cs) 0 = parse_digits cs n"
proof (induction n arbitrary: cs rule: show_u64.induct)
  case (1 n)
  have le: "n div 10 * 10 \<le> u64_max" "n div 10 \<le> u64_max" using "1.prems" by (auto intro: order_trans[OF div_times_less_eq_dividend] order_trans[OF div_le_dividend])
  show ?case
  proof (cases "n < 10")
    case True
    with "1.prems" show ?thesis
      by (simp add: show_u64.simps[of n] digit_of_char_of checked_mul_u64_def checked_add_u64_def u64_max_def)
  next
    case False
    have "checked_mul_u64 (n div 10) 10 = Some (n div 10 * 10)" using le(1) unfolding checked_mul_u64_def by argo
    moreover have "checked_add_u64 (n div 10 * 10) (n mod 10) = Some n" using "1.prems" by (simp add: checked_add_u64_def)
    ultimately show ?thesis using "1.IH"[OF False le(2)] False by (simp add: show_u64.simps[of n] digit_of_char_of)
  qed
qed

lemma show_u64_digits: "c \<in> set (show_u64 n) \<Longrightarrow> digit_of c \<noteq> None"
proof (induction n rule: show_u64.induct)
  case (1 n)
  have "digit_of (char_of (48 + d)) \<noteq> None" if "d < 10" for d :: nat using that by (simp add: digit_of_char_of)
  with 1 show ?case by (cases "n < 10") (auto simp: show_u64.simps[of n])
qed

lemma show_u64_nonempty: "show_u64 n \<noteq> []"
  by (subst show_u64.simps) simp

lemma parse_show_cursor: "n \<le> u64_max \<Longrightarrow> parse_change_cursor (show_u64 n) = Inr n"
proof -
  assume n: "n \<le> u64_max"
  have "take 1 (show_u64 n) \<noteq> ''+''"
    using show_u64_digits[of "hd (show_u64 n)" n] show_u64_nonempty[of n] by (cases "show_u64 n") (auto simp: digit_of_def)
  with parse_digits_show[OF n, of "[]"] show_u64_nonempty[of n] show ?thesis
    by (simp add: parse_change_cursor_def Let_def)
qed

section \<open>The change log covers the history\<close>

text \<open>Every entry of the head history, which is never pruned, has its row in the change log or is
  at or before the pruned cursor of its scope.\<close>

definition feed_covers :: "sqlite_db \<Rightarrow> EntityKey \<Rightarrow> nat \<Rightarrow> string list \<Rightarrow> bool" where
  "feed_covers db key c hs \<longleftrightarrow>
     (\<exists>r. (c, r) \<in> set (t_change db) \<and> chr_key r = key \<and> chr_head_versions r = hs)
     \<or> (\<exists>p. map_of (t_retention db) (scope_json key) = Some p \<and> c \<le> p)"

definition feed_ok :: "sqlite_db \<Rightarrow> bool" where
  "feed_ok db \<longleftrightarrow> (\<forall>((key, c), hs) \<in> set (t_history db). feed_covers db key c hs)
     \<and> (\<forall>(c, r) \<in> set (t_change db). ((chr_key r, c), chr_head_versions r) \<in> set (t_history db))"

definition feed_step :: "sqlite_db \<Rightarrow> sqlite_db \<Rightarrow> bool" where
  "feed_step db db' \<longleftrightarrow> (feed_ok db \<longrightarrow> feed_ok db')"

lemma feed_step_eq:
  "t_change db' = t_change db \<Longrightarrow> t_history db' = t_history db \<Longrightarrow> t_retention db' = t_retention db \<Longrightarrow> feed_step db db'"
  by (simp add: feed_step_def feed_ok_def feed_covers_def)

lemma feed_retention:
  assumes "record_retention t db = Inr db1" "feed_ok db"
  shows "feed_ok (delete_changes t db1)"
proof -
  let ?d = "delete_changes t db1"
  obtain rt where db1: "db1 = db\<lparr>t_retention := rt\<rparr>" using record_retention_Ok[OF assms(1)] by blast
  have tabs: "t_history ?d = t_history db" "t_retention ?d = t_retention db1"
    and ch: "set (t_change ?d) = {(c, r) \<in> set (t_change db). \<not> chr_recorded_at_unix_ms r < t}"
    unfolding delete_changes_set by (simp_all add: delete_changes_def db1)
  have "feed_covers ?d key c hs" if "((key, c), hs) \<in> set (t_history db)" for key c hs
  proof -
    have "feed_covers db key c hs" using assms(2) that by (auto simp: feed_ok_def)
    then consider r where "(c, r) \<in> set (t_change db)" "chr_key r = key" "chr_head_versions r = hs"
      | p where "map_of (t_retention db) (scope_json key) = Some p" "c \<le> p" by (auto simp: feed_covers_def)
    then show ?thesis
    proof cases
      case 1
      show ?thesis
      proof (cases "chr_recorded_at_unix_ms r < t")
        case True
        from record_retention_covers[OF assms(1) 1(1) True] 1(2) show ?thesis by (auto simp: feed_covers_def tabs)
      next
        case False
        with 1 ch show ?thesis by (auto simp: feed_covers_def)
      qed
    next
      case 2
      with record_retention_keeps[OF assms(1) 2(1)] show ?thesis by (auto simp: feed_covers_def tabs intro: order_trans)
    qed
  qed
  moreover have "((chr_key r, c), chr_head_versions r) \<in> set (t_history db)" if "(c, r) \<in> set (t_change ?d)" for c r
    using assms(2) that unfolding ch by (auto simp: feed_ok_def)
  ultimately show ?thesis unfolding feed_ok_def tabs by blast
qed

interpretation feed: statement_frame E feed_step for E
proof unfold_locales
  fix key :: EntityKey and kind hs tok meta t cursor keys db d db'
  assume c: "insert_change E key kind hs tok meta t db = Inr (cursor, d)"
    and a: "advance_write_sessions E (scope_json key) keys cursor d = Inr db'"
  from insert_change_Ok[OF c] advance_write_sessions_Ok[OF a] obtain r where
    tc: "t_change db' = t_change db @ [(cursor, r)]" "chr_key r = key" "chr_head_versions r = hs"
    and th: "t_history db' = t_history db @ [((key, cursor), hs)]" "t_retention db' = t_retention db" by auto
  show "feed_step db db'" unfolding feed_step_def
  proof
    assume ok: "feed_ok db"
    have "feed_covers db' k c h" if "feed_covers db k c h" for k c h using that by (auto simp: feed_covers_def tc th)
    moreover have "feed_covers db' key cursor hs" by (auto simp: feed_covers_def tc th)
    ultimately show "feed_ok db'" using ok by (auto simp: feed_ok_def tc th)
  qed
next
  fix t db db'
  assume "record_retention t db = Inr db'"
  then show "feed_step db (delete_changes t db')" using feed_retention by (simp add: feed_step_def)
next
  fix u now db db'
  assume "expire_work_unit u now db = Inr db'"
  then show "feed_step db db'"
    by (intro feed_step_eq) (auto simp: expire_work_unit_Ok collect_crdt_garbage_def expired_unit_db_def Let_def)
next
  fix a b c
  assume "feed_step a b" "feed_step b c"
  then show "feed_step a c" by (simp add: feed_step_def)
qed (auto intro: feed_step_eq dest!: insert_versions_frame replace_heads_frame delete_expired_frame
      insert_idempotency_frame store_work_unit_idempotency_only promote_idempotency_only
      unit_heads_frame advance_read_sessions_only simp: close_work_unit_def)

interpretation feed: provider_frame E feed_step for E
  by unfold_locales (simp_all add: feed_step_eq)

lemma feed_ok_run: "provider_run E p p' \<Longrightarrow> feed_ok (sp_db p) \<Longrightarrow> feed_ok (sp_db p')"
  using feed.run[of E p p'] by (simp add: feed_step_def)

section \<open>Streams\<close>

fun stream_cursor :: "stream_state \<Rightarrow> nat" where
  "stream_cursor (Polling c) = c"
| "stream_cursor (Waiting c) = c"

text \<open>A stream over the provider, between whose turns anything else may happen.\<close>

inductive stream_run ::
  "sqlite_env \<Rightarrow> retrieval_env \<Rightarrow> (sqlite_provider, 'd) engine_env \<Rightarrow> string \<Rightarrow> ChangeFilter \<Rightarrow> stream_state \<Rightarrow> sqlite_provider
   \<Rightarrow> PublishedChange list \<Rightarrow> stream_state \<Rightarrow> sqlite_provider \<Rightarrow> bool" for E V En scope flt st p where
  Start: "stream_run E V En scope flt st p [] st p"
| Others: "stream_run E V En scope flt st p evs st' p' \<Longrightarrow> provider_run E p' p'' \<Longrightarrow> stream_run E V En scope flt st p evs st' p''"
| Turn: "stream_run E V En scope flt st p evs st' p' \<Longrightarrow>
     stream_turn (over_sqlite E V clk wal f (En\<lparr>en_clock := now\<rparr>)) scope flt st' p' = ((evs', Inr st''), p'') \<Longrightarrow>
     stream_run E V En scope flt st p (evs @ evs') st'' p''"

definition subscribed :: "string \<Rightarrow> ChangeFilter \<Rightarrow> EntityKey \<Rightarrow> bool" where
  "subscribed scope flt key \<longleftrightarrow> scope_json key = scope
     \<and> (case cf_types flt of None \<Rightarrow> True | Some types \<Rightarrow> entity_type key \<in> set types)
     \<and> (case cf_ids flt of None \<Rightarrow> True | Some ids \<Rightarrow> entity_id key \<in> set ids)"

text \<open>The changes a subscriber is to see between two cursors, from the head history.\<close>

definition due :: "string \<Rightarrow> ChangeFilter \<Rightarrow> nat \<Rightarrow> nat \<Rightarrow> sqlite_db \<Rightarrow> (nat \<times> string \<times> string \<times> string list) set" where
  "due scope flt a b db =
     (\<lambda>((key, c), hs). (c, entity_type key, entity_id key, hs))
       ` {((key, c), hs) \<in> set (t_history db). subscribed scope flt key \<and> a < c \<and> c \<le> b}"

definition event_summary :: "PublishedChange \<Rightarrow> nat \<times> string \<times> string \<times> string list" where
  "event_summary e =
     (let ch = pc_change e in
      (case parse_change_cursor (cr_cursor ch) of Inl _ \<Rightarrow> 0 | Inr c \<Rightarrow> c,
       er_entity_type (cr_entity_ref ch), er_id (cr_entity_ref ch), cr_head_versions ch))"

definition change_summary :: "StoredChange \<Rightarrow> nat \<times> string \<times> string \<times> string list" where
  "change_summary ch = (ch_cursor ch, ch_entity_type ch, ch_entity_id ch, ch_head_versions ch)"

lemma yield_changes_Ok:
  assumes "yield_changes X a chs = (evs, Inr b)" "\<And>ch. ch \<in> set chs \<Longrightarrow> ch_cursor ch \<le> u64_max"
  shows "map event_summary evs = map change_summary chs \<and> b = (if chs = [] then a else ch_cursor (last chs))"
  using assms
proof (induction X a chs arbitrary: evs rule: yield_changes.induct)
  case (2 X a ch chs)
  from "2.prems"(1) obtain m es where m: "cx_meta_from X (ch_event_meta_json ch) = Some m"
    "yield_changes X (ch_cursor ch) chs = (es, Inr b)" "evs = published_change m ch # es"
    by (auto split: option.splits prod.splits)
  have "event_summary (published_change m ch) = change_summary ch"
    using "2.prems"(2)[of ch] by (simp add: event_summary_def change_summary_def published_change_def parse_show_cursor)
  with "2.IH"[OF m(1,2)] "2.prems"(2) m(3) show ?case by auto
qed simp

lemma due_join:
  assumes "a \<le> b" "b \<le> c" shows "due scope flt a c db = due scope flt a b db \<union> due scope flt b c db"
  using assms unfolding due_def image_Un[symmetric] by (intro arg_cong2[where f = "(`)"] refl) auto

lemma due_run:
  assumes "provider_run E p p'" "b \<le> t_change_seq (sp_db p)"
  shows "due scope flt a b (sp_db p') = due scope flt a b (sp_db p)" "b \<le> t_change_seq (sp_db p')"
proof -
  from change_log.run[OF assms(1)] obtain h where
    h: "t_history (sp_db p') = t_history (sp_db p) @ h" "\<forall>((_, c), _) \<in> set h. t_change_seq (sp_db p) < c"
    and seq: "t_change_seq (sp_db p) \<le> t_change_seq (sp_db p')" unfolding log_step_def by blast
  show "b \<le> t_change_seq (sp_db p')" using assms(2) seq by simp
  have "{((key, c), hs) \<in> set h. subscribed scope flt key \<and> a < c \<and> c \<le> b} = {}" using h(2) assms(2) by fastforce
  then have "{((key, c), hs) \<in> set (t_history (sp_db p')). subscribed scope flt key \<and> a < c \<and> c \<le> b}
    = {((key, c), hs) \<in> set (t_history (sp_db p)). subscribed scope flt key \<and> a < c \<and> c \<le> b}" unfolding h(1) by auto
  then show "due scope flt a b (sp_db p') = due scope flt a b (sp_db p)" unfolding due_def by (rule arg_cong)
qed

lemma set_take_strict:
  fixes f :: "'a \<Rightarrow> nat"
  assumes "sorted_wrt (<) (map f xs)" "take n xs \<noteq> []"
  shows "set (take n xs) = {x \<in> set xs. f x \<le> f (last (take n xs))}"
proof -
  let ?t = "take n xs"
  have split: "xs = ?t @ drop n xs" by simp
  have less: "f x < f y" if "x \<in> set ?t" "y \<in> set (drop n xs)" for x y
    using assms(1) that by (subst (asm) split) (auto simp: sorted_wrt_append simp del: append_take_drop_id)
  have "f x \<le> f (last ?t)" if "x \<in> set ?t" for x
  proof (cases "x = last ?t")
    case False
    with that have "x \<in> set (butlast ?t)" using assms(2) by (metis append_butlast_last_id in_set_butlast_appendI not_in_set_insert set_ConsD append_Nil2 UnE list.set(1) empty_iff set_append)
    moreover have "sorted_wrt (<) (map f (butlast ?t @ [last ?t]))"
      using assms by (simp add: take_map[symmetric] sorted_wrt_take)
    ultimately show ?thesis by (auto simp: sorted_wrt_append intro: less_imp_le)
  qed simp
  moreover have "x \<in> set ?t" if "x \<in> set xs" "f x \<le> f (last ?t)" for x
  proof (rule ccontr)
    assume "x \<notin> set ?t"
    with that(1) have "x \<in> set (drop n xs)" by (metis split set_append UnE)
    with less[of "last ?t" x] assms(2) that(2) show False by auto
  qed
  ultimately show ?thesis by (auto dest: in_set_takeD)
qed

lemma current_cursor_bound: "frontiers_ok db \<Longrightarrow> current_scope_cursor scope db \<le> t_change_seq db"
  using frontiers_ok_scope[of db scope] by (auto simp: current_scope_cursor_def split: option.splits prod.splits)

lemma read_changes_call:
  assumes "provider_call (over_sqlite E V clk wal f En) i (\<lambda>P. p_read_changes P q) p = (Inr page, p')"
  shows "\<exists>p0. provider_run E p p0 \<and> provider_run E p0 p' \<and> read_changes q (sp_db p0) = (Inr page, sp_db p')"
proof -
  let ?p = "interference E f i p"
  have r: "provider_read_changes q ?p = (Inr page, p')"
    using assms by (auto simp: provider_call_def sqlite_ops_def split: prod.splits sum.splits)
  then have "read_changes q (sp_db ?p) = (Inr page, sp_db p')"
    by (auto simp: provider_read_changes_def call_def wrap_internal_def prod_eq_iff split: if_splits prod.splits sum.splits)
  moreover have "provider_run E ?p p'" by (rule provider_step_run[OF provider_step.ReadChanges[OF r]])
  ultimately show ?thesis using interference_run by blast
qed

lemma validate_change_cursor_Ok:
  assumes "validate_change_cursor a page = Inr u" "a \<le> i64_max"
    "oldest_cursor page = map_option (\<lambda>c. saturating_add_u64 c 1) pruned"
  shows "a \<le> current_cursor page" "pruned = Some c \<Longrightarrow> c \<le> a"
proof -
  show "a \<le> current_cursor page" using assms(1) by (auto simp: validate_change_cursor_def split: if_splits)
  assume "pruned = Some c"
  with assms have "saturating_add_u64 c 1 \<le> saturating_add_u64 a 1" by (simp add: validate_change_cursor_def split: if_splits)
  then show "c \<le> a" using assms(2) by (simp add: saturating_add_u64_def i64_max_def u64_max_def)
qed

lemma change_matches_subscribed:
  "cq_entity_types q = cf_types flt \<Longrightarrow> cq_entity_ids q = cf_ids flt \<Longrightarrow>
   subscribed scope flt (chr_key r) \<longleftrightarrow> scope_json (chr_key r) = scope \<and> change_matches q r"
  by (auto simp: subscribed_def change_matches_def split: option.splits)

text \<open>What is visible after a cursor that nothing of the scope is pruned past is what is due.\<close>

lemma due_visible:
  assumes ok: "feed_ok db" and np: "\<And>c. map_of (t_retention db) scope = Some c \<Longrightarrow> c \<le> a"
    and q: "cq_scope_json q = scope" "cq_entity_types q = cf_types flt" "cq_entity_ids q = cf_ids flt"
  shows "due scope flt a b db = change_summary ` {ch \<in> set (visible_changes q a db). ch_cursor ch \<le> b}"
proof -
  note M = change_matches_subscribed[OF q(2,3), of scope]
  have sum: "change_summary (to_stored_change (c, r)) = (c, entity_type (chr_key r), entity_id (chr_key r), chr_head_versions r)" for c r
    by (simp add: change_summary_def to_stored_change_def)
  show ?thesis
  proof (intro set_eqI iffI)
    fix x assume "x \<in> due scope flt a b db"
    then obtain key c hs where x: "x = (c, entity_type key, entity_id key, hs)" and h: "((key, c), hs) \<in> set (t_history db)"
      and sub: "subscribed scope flt key" and c: "a < c" "c \<le> b" by (auto simp: due_def)
    have "feed_covers db key c hs" using ok h by (auto simp: feed_ok_def)
    moreover have "\<not> (\<exists>p. map_of (t_retention db) (scope_json key) = Some p \<and> c \<le> p)"
      using np c(1) sub by (fastforce simp: subscribed_def)
    ultimately obtain r where r: "(c, r) \<in> set (t_change db)" "chr_key r = key" "chr_head_versions r = hs"
      by (auto simp: feed_covers_def)
    have "to_stored_change (c, r) \<in> set (visible_changes q a db)"
      using mem_visible_changes[OF r(1), of q a] sub M[of r] c(1) r(2) q(1) by simp
    then show "x \<in> change_summary ` {ch \<in> set (visible_changes q a db). ch_cursor ch \<le> b}"
      using c(2) sum[of c r] x r by (auto intro!: image_eqI)
  next
    fix x assume "x \<in> change_summary ` {ch \<in> set (visible_changes q a db). ch_cursor ch \<le> b}"
    then obtain c r where x: "x = change_summary (to_stored_change (c, r))" "c \<le> b" and r: "(c, r) \<in> set (t_change db)"
      and v: "scope_json (chr_key r) = scope" "a < c" "change_matches q r"
      unfolding set_visible_changes q(1) by auto
    have "((chr_key r, c), chr_head_versions r) \<in> set (t_history db)" using ok r by (auto simp: feed_ok_def)
    then show "x \<in> due scope flt a b db" using x v M[of r] by (force simp: due_def sum)
  qed
qed

definition stream_inv :: "sqlite_provider \<Rightarrow> bool" where
  "stream_inv p \<longleftrightarrow> provider_inv (sp_db p) \<and> feed_ok (sp_db p)"

lemma stream_inv_run: "provider_run E p p' \<Longrightarrow> stream_inv p \<Longrightarrow> stream_inv p'"
  using provider_inv_run feed_ok_run by (auto simp: stream_inv_def)

text \<open>What one turn delivers.\<close>

definition turn_delivers :: "string \<Rightarrow> ChangeFilter \<Rightarrow> nat \<Rightarrow> PublishedChange list \<Rightarrow> nat \<Rightarrow> sqlite_provider \<Rightarrow> bool" where
  "turn_delivers scope flt a evs b p \<longleftrightarrow> a \<le> b \<and> b \<le> t_change_seq (sp_db p)
     \<and> sorted_wrt (<) (map (fst \<circ> event_summary) evs) \<and> event_summary ` set evs = due scope flt a b (sp_db p)"

lemma polled_page:
  assumes read: "read_changes q (sp_db p0) = (Inr page, sp_db p')" and inv: "stream_inv p'"
    and valid: "validate_change_cursor a page = Inr u" and wf: "tbl_wf (t_change (sp_db p0))"
    and q: "cq_scope_json q = scope" "cq_entity_types q = cf_types flt" "cq_entity_ids q = cf_ids flt" "cq_after_cursor q = a"
      "0 < cq_limit q"
  shows "page_changes page = [] \<Longrightarrow> turn_delivers scope flt a [] (current_cursor page) p'"
    and "yield_changes X a (page_changes page) = (evs, Inr b) \<Longrightarrow> page_changes page \<noteq> [] \<Longrightarrow> turn_delivers scope flt a evs b p'"
proof -
  let ?db = "sp_db p'" let ?all = "visible_changes q a (sp_db p')"
  have a: "a \<le> i64_max" and cur: "current_cursor page = current_scope_cursor scope ?db"
    and page: "page_changes page = take (cq_limit q) ?all"
    and old: "oldest_cursor page = map_option (\<lambda>c. saturating_add_u64 c 1) (map_of (t_retention ?db) scope)"
    using read_changes_Ok[OF read] q by (auto simp: Let_def)
  note valid' = validate_change_cursor_Ok[OF valid a old]
  have ok: "feed_ok ?db" "log_ok ?db" "frontiers_ok ?db" using inv by (auto simp: stream_inv_def provider_inv_def)
  note due = due_visible[OF ok(1) valid'(2) q(1-3)]
  have curseq: "current_cursor page \<le> t_change_seq ?db" unfolding cur by (rule current_cursor_bound[OF ok(3)])
  have strict: "sorted_wrt (<) (map ch_cursor ?all)" by (rule visible_changes_strict[OF read_changes_log(2)[OF read wf]])
  have cursors: "a < ch_cursor ch \<and> ch_cursor ch \<le> t_change_seq ?db" if "ch \<in> set ?all" for ch
    using that ok(2) unfolding set_visible_changes by (auto simp: log_ok_def)
  show "page_changes page = [] \<Longrightarrow> turn_delivers scope flt a [] (current_cursor page) p'"
    using due[of "current_cursor page"] page q(5) valid'(1) curseq by (simp add: turn_delivers_def)
  assume y: "yield_changes X a (page_changes page) = (evs, Inr b)" and ne: "page_changes page \<noteq> []"
  have sub: "set (page_changes page) \<subseteq> set ?all" unfolding page by (auto dest: in_set_takeD)
  have seq: "t_change_seq ?db \<le> u64_max" using ok(3) by (simp add: frontiers_ok_def i64_max_def u64_max_def)
  have "ch_cursor ch \<le> u64_max" if "ch \<in> set (page_changes page)" for ch using cursors[of ch] that sub seq by auto
  from yield_changes_Ok[OF y this] ne have evs: "map event_summary evs = map change_summary (page_changes page)"
    and b: "b = ch_cursor (last (page_changes page))" by auto
  have "last (page_changes page) \<in> set ?all" using sub ne by auto
  with cursors b have ab: "a \<le> b" "b \<le> t_change_seq ?db" by fastforce+
  have "map (fst \<circ> event_summary) evs = map ch_cursor (page_changes page)"
    using arg_cong[OF evs, of "map fst"] by (simp add: change_summary_def comp_def)
  moreover have "sorted_wrt (<) (map ch_cursor (page_changes page))"
    unfolding page using strict by (simp add: take_map[symmetric] sorted_wrt_take)
  moreover have "event_summary ` set evs = change_summary ` set (page_changes page)"
    using arg_cong[OF evs, of set] by simp
  moreover have "set (page_changes page) = {ch \<in> set ?all. ch_cursor ch \<le> b}"
    using set_take_strict[OF strict, of "cq_limit q"] ne unfolding b page by simp
  ultimately show "turn_delivers scope flt a evs b p'" using ab due[of b] by (simp add: turn_delivers_def)
qed

lemma change_query_Ok:
  "change_query En i scope flt a n = Inr q \<Longrightarrow> cq_scope_json q = scope \<and> cq_entity_types q = cf_types flt
     \<and> cq_entity_ids q = cf_ids flt \<and> cq_after_cursor q = a \<and> cq_limit q = n"
  by (auto simp: change_query_def bindR_eq_Inr)

lemma polling_turn:
  assumes "stream_turn (over_sqlite E V clk wal f En) scope flt (Polling a) p = ((evs, Inr st), p')" and "stream_inv p"
  shows "provider_run E p p' \<and> turn_delivers scope flt a evs (stream_cursor st) p'"
proof -
  let ?En = "over_sqlite E V clk wal f En"
  from assms(1) obtain q page where q: "change_query ?En 0 scope flt a 256 = Inr q"
    and c: "provider_call ?En 0 (\<lambda>P. p_read_changes P q) p = (Inr page, p')"
    and v: "validate_change_cursor a page = Inr ()"
    and r: "if page_changes page = [] then evs = [] \<and> st = Waiting (current_cursor page)
       else \<exists>b. yield_changes (en_codec En) a (page_changes page) = (evs, Inr b) \<and> st = Polling b"
    by (auto simp: stream_turn_def bindE_def liftE_def bindR_eq_Inr split: sum.splits prod.splits if_splits)
  from read_changes_call[OF c] obtain p0 where
    p0: "provider_run E p p0" "provider_run E p0 p'" and rd: "read_changes q (sp_db p0) = (Inr page, sp_db p')" by blast
  have run: "provider_run E p p'" using p0 by (simp add: provider_run_def)
  have "tbl_wf (t_change (sp_db p0))" using stream_inv_run[OF p0(1) assms(2)] by (simp add: stream_inv_def provider_inv_def log_ok_def)
  note P = polled_page[OF rd stream_inv_run[OF run assms(2)] v this]
  have "turn_delivers scope flt a evs (stream_cursor st) p'"
  proof (cases "page_changes page = []")
    case True
    with r P(1)[of scope flt] change_query_Ok[OF q] show ?thesis by simp
  next
    case False
    with r P(2)[of scope flt] change_query_Ok[OF q] show ?thesis by auto
  qed
  with run show ?thesis ..
qed

lemma due_empty [simp]: "due scope flt a a db = {}"
  by (auto simp: due_def)

lemma waiting_turn:
  assumes "stream_turn (over_sqlite E V clk wal f En) scope flt (Waiting a) p = ((evs, Inr st), p')"
    and "a \<le> t_change_seq (sp_db p)"
  shows "provider_run E p p' \<and> turn_delivers scope flt a evs (stream_cursor st) p'"
proof -
  let ?En = "over_sqlite E V clk wal f En" let ?p = "interference E f 0 p"
  from assms(1) have r: "evs = []" "stream_cursor st = a" "p' = snd (wait_for_changes_round scope a ?p)"
    by (auto simp: stream_turn_def provider_call_def sqlite_ops_def split: sum.splits prod.splits option.splits)
  have "p' = ?p" unfolding r(3) by (simp add: wait_for_changes_round_def call_def)
  then have run: "provider_run E p p'" using interference_run by simp
  with due_run(2)[OF run assms(2)] r show ?thesis by (simp add: turn_delivers_def)
qed

lemma stream_turn_delivers:
  assumes "stream_turn (over_sqlite E V clk wal f En) scope flt st p = ((evs, Inr st'), p')" and "stream_inv p"
    and "stream_cursor st \<le> t_change_seq (sp_db p)"
  shows "provider_run E p p' \<and> turn_delivers scope flt (stream_cursor st) evs (stream_cursor st') p'"
  using assms polling_turn[of E V clk wal f En scope flt _ p evs st' p'] waiting_turn[of E V clk wal f En scope flt _ p evs st' p']
  by (cases st) auto

lemma turn_delivers_append:
  assumes "turn_delivers scope flt a evs b p" "turn_delivers scope flt b evs' c p'" "provider_run E p p'"
  shows "turn_delivers scope flt a (evs @ evs') c p'"
proof -
  have le: "a \<le> b" "b \<le> c" and sets: "event_summary ` set evs = due scope flt a b (sp_db p)"
    "event_summary ` set evs' = due scope flt b c (sp_db p')" and seq: "b \<le> t_change_seq (sp_db p)"
    using assms(1,2) by (auto simp: turn_delivers_def)
  have "fst x \<le> b" if "x \<in> event_summary ` set evs" for x using that unfolding sets by (auto simp: due_def)
  moreover have "b < fst y" if "y \<in> event_summary ` set evs'" for y using that unfolding sets by (auto simp: due_def)
  ultimately have "fst (event_summary e) < fst (event_summary e')" if "e \<in> set evs" "e' \<in> set evs'" for e e'
    using that by (meson imageI le_less_trans)
  then have "sorted_wrt (<) (map (fst \<circ> event_summary) (evs @ evs'))"
    using assms(1,2) by (auto simp: turn_delivers_def sorted_wrt_append)
  moreover have "event_summary ` set (evs @ evs') = due scope flt a c (sp_db p')"
    using sets due_run(1)[OF assms(3) seq] due_join[OF le] by (simp add: image_Un)
  ultimately show ?thesis using assms(2) le by (simp add: turn_delivers_def)
qed

lemma stream_run_delivers:
  assumes "stream_run E V En scope flt st p evs st' p'" "stream_inv p" "stream_cursor st \<le> t_change_seq (sp_db p)"
  shows "stream_inv p' \<and> turn_delivers scope flt (stream_cursor st) evs (stream_cursor st') p'"
  using assms
proof (induction rule: stream_run.induct)
  case Start
  then show ?case by (simp add: turn_delivers_def)
next
  case (Others evs st' p' p'')
  then have inv: "stream_inv p'" and d: "turn_delivers scope flt (stream_cursor st) evs (stream_cursor st') p'" by auto
  from d due_run[where b = "stream_cursor st'", OF Others.hyps(2)] stream_inv_run[OF Others.hyps(2) inv]
  show ?case by (simp add: turn_delivers_def)
next
  case (Turn evs st' p' clk wal f now evs' st'' p'')
  then have inv: "stream_inv p'" and d: "turn_delivers scope flt (stream_cursor st) evs (stream_cursor st') p'" by auto
  then have "stream_cursor st' \<le> t_change_seq (sp_db p')" by (simp add: turn_delivers_def)
  from stream_turn_delivers[OF Turn.hyps(2) inv this] have run: "provider_run E p' p''"
    and d': "turn_delivers scope flt (stream_cursor st') evs' (stream_cursor st'') p''" by auto
  show ?case using turn_delivers_append[OF d d' run] stream_inv_run[OF run inv] by simp
qed

lemma subscribe_Ok:
  assumes "subscribe (over_sqlite E V clk wal f En) params p = (Inr sub, p')" "stream_inv p"
  shows "stream_inv p' \<and> su_stream sub = Polling (su_cursor sub) \<and> su_cursor sub \<le> t_change_seq (sp_db p')"
proof -
  let ?En = "over_sqlite E V clk wal f En"
  from assms(1) obtain scope flt q page where q: "change_query ?En 2 scope flt 0 1 = Inr q"
    and c: "provider_call ?En 0 (\<lambda>P. p_read_changes P q) p = (Inr page, p')"
    and v: "validate_change_cursor (su_cursor sub) page = Inr ()" and st: "su_stream sub = Polling (su_cursor sub)"
    by (auto simp: subscribe_def bindE_def liftE_def Let_def split: sum.splits prod.splits)
  from read_changes_call[OF c] obtain p0 where
    p0: "provider_run E p p0" "provider_run E p0 p'" and rd: "read_changes q (sp_db p0) = (Inr page, sp_db p')" by blast
  have run: "provider_run E p p'" using p0 by (simp add: provider_run_def)
  have inv: "stream_inv p'" by (rule stream_inv_run[OF run assms(2)])
  have "su_cursor sub \<le> current_cursor page" using v by (auto simp: validate_change_cursor_def split: if_splits)
  also have "\<dots> \<le> t_change_seq (sp_db p')"
    using read_changes_Ok[OF rd] current_cursor_bound inv by (auto simp: stream_inv_def provider_inv_def)
  finally show ?thesis using inv st by simp
qed

lemma stream_inv_reachable: "provider_run E fresh_provider p \<Longrightarrow> stream_inv p"
  using stream_inv_run[of E fresh_provider p] provider_inv_empty
  by (simp add: stream_inv_def fresh_provider_def feed_ok_def empty_db_def)

text \<open>
  C38. A subscription delivers every change exactly once and in order. Take any reachable provider, a
  subscription opened on it, and any run of its stream, interleaved with arbitrary other activity
  (commits, publications, pruning reads, restarts), in which no turn ended with an error. Then the events
  delivered, in order, have strictly ascending cursors, and they are exactly the entries of the
  append-only head history that match the scope and the filter and lie between the
  cursor of the subscription and the cursor the stream has reached: nothing is missed, even if the log was pruned
  meanwhile, and nothing is delivered twice.
\<close>
theorem subscription_delivers_every_change:
  assumes "provider_run E fresh_provider p"
    and "subscribe (over_sqlite E V clk wal f En) params p = (Inr sub, p1)"
    and "stream_run E V En (su_scope sub) (su_filter sub) (su_stream sub) p1 evs st p2"
  shows "sorted_wrt (<) (map (fst \<circ> event_summary) evs)
    \<and> event_summary ` set evs = due (su_scope sub) (su_filter sub) (su_cursor sub) (stream_cursor st) (sp_db p2)
    \<and> su_cursor sub \<le> stream_cursor st"
proof -
  note S = subscribe_Ok[OF assms(2) stream_inv_reachable[OF assms(1)]]
  from stream_run_delivers[OF assms(3)] S show ?thesis by (auto simp: turn_delivers_def)
qed

section \<open>Example\<close>

definition sample_subscribe :: "SubscribeChangesData RpcParams" where
  "sample_subscribe =
     \<lparr>rp_meta = [(''channel'', String ''c1''), (''request'', String ''r1''), (''workspace'', String ''w1'')],
      rp_data = \<lparr>sb_filter = None, sb_after_cursor = Some ''0''\<rparr>\<rparr>"

definition sample_subscription :: ChangeSubscription where
  "sample_subscription = projr (fst (subscribe sample_engine sample_subscribe sample_provider))"

definition sample_subscribed :: sqlite_provider where
  "sample_subscribed = snd (subscribe sample_engine sample_subscribe sample_provider)"

definition sample_turn :: "(PublishedChange list \<times> stream_state bresult) \<times> sqlite_provider" where
  "sample_turn = stream_turn sample_engine (su_scope sample_subscription) (su_filter sample_subscription)
     (su_stream sample_subscription) sample_subscribed"

theorem subscription_delivers_every_change_witness:
  "map event_summary (fst (fst sample_turn)) = [(1, ''knowledge'', ''a'', [''v1''])]
     \<and> event_summary ` set (fst (fst sample_turn)) =
         due (su_scope sample_subscription) (su_filter sample_subscription) (su_cursor sample_subscription) 1 (sp_db (snd sample_turn))"
proof -
  let ?over = "over_sqlite sample_env sample_retrieval (\<lambda>_ _. Some 9) (0, 0, 0) (\<lambda>_ p. p) sample_engine"
  have "\<not> isl (fst (subscribe sample_engine sample_subscribe sample_provider))" by code_simp
  then have sub: "subscribe ?over sample_subscribe sample_provider = (Inr sample_subscription, sample_subscribed)"
    unfolding sample_over_sqlite sample_subscription_def sample_subscribed_def
    by (cases "subscribe sample_engine sample_subscribe sample_provider"; cases "fst (subscribe sample_engine sample_subscribe sample_provider)") simp_all
  have turn: "snd (fst sample_turn) = Inr (Polling 1)" and evs: "map event_summary (fst (fst sample_turn)) = [(1, ''knowledge'', ''a'', [''v1''])]"
    by code_simp+
  have clock: "sample_engine\<lparr>en_clock := en_clock sample_engine\<rparr> = sample_engine" by simp
  have "stream_turn (over_sqlite sample_env sample_retrieval (\<lambda>_ _. Some 9) (0, 0, 0) (\<lambda>_ p. p) (sample_engine\<lparr>en_clock := en_clock sample_engine\<rparr>))
      (su_scope sample_subscription) (su_filter sample_subscription) (su_stream sample_subscription) sample_subscribed
    = ((fst (fst sample_turn), Inr (Polling 1)), snd sample_turn)"
    unfolding clock sample_over_sqlite using turn by (simp add: sample_turn_def[symmetric] prod_eq_iff)
  from stream_run.Turn[OF stream_run.Start this] have
    "stream_run sample_env sample_retrieval sample_engine (su_scope sample_subscription) (su_filter sample_subscription)
      (su_stream sample_subscription) sample_subscribed (fst (fst sample_turn)) (Polling 1) (snd sample_turn)" by simp
  from subscription_delivers_every_change[OF sample_provider_run sub this] evs show ?thesis by simp
qed

end
