(* ===== verification/Query_Walks.thy ===== *)
theory Query_Walks
  imports Engine_Sqlite
begin

text \<open>
  A client that pages through a query: it sends the query text, then the same text with the cursor
  of the last page, until a page comes without one. Cursors carry a score, which JSON may not read back
  exactly: only the order by relevance depends on it, and there a page can be repeated
  (\<open>relevance_walk_can_repeat\<close>).
\<close>

section \<open>Resuming a query\<close>

lemma map_of_cursor:
  assumes "btree_wf m"
  shows "f \<noteq> ''cursor'' \<Longrightarrow> map_of (btree_insert ''cursor'' v m) f = map_of m f"
    "map_of (btree_insert ''cursor'' v m) ''cursor'' = Some v"
  using assms by (simp_all add: map_of_btree_insert)

lemma fingerprint_after [simp]:
  "fingerprint Q (q\<lparr>rq_after := a\<rparr>) = fingerprint Q q" "fingerprint Q (q\<lparr>rq_fingerprint := f\<rparr>) = fingerprint Q q"
  by (simp_all add: fingerprint_def query_identity_def)

text \<open>A query whose cursor is one that a page of the same query returned continues that query.\<close>

lemma parse_query_resumed:
  assumes "from_str (qc_json Q) base = Some (Object m)" "btree_wf m"
    and "from_str (qc_json Q) resumed = Some (Object (btree_insert ''cursor'' (String enc) m))"
    and "parse_query Q scope types base n = Inr q"
    and "qc_cursor_from Q enc = Some cur" "rcu_order cur = rq_order q" "rcu_query_fingerprint cur = rq_fingerprint q"
    and "rcu_entity_type cur \<noteq> []" "rcu_entity_id cur \<noteq> []"
  shows "parse_query Q scope types resumed n = Inr (q\<lparr>rq_after := Some cur\<rparr>)"
proof -
  let ?m = "btree_insert ''cursor'' (String enc) m"
  note M = map_of_cursor[where v = "String enc", OF assms(2)]
  have same: "optional_non_empty_string ?m ''text'' = optional_non_empty_string m ''text''"
    "optional_string_set ?m ''ids'' = optional_string_set m ''ids''"
    by (simp_all add: optional_non_empty_string_def optional_string_set_def M)
  from assms(1,4) have known: "list_all (\<lambda>(k, _). k \<in> set QUERY_FIELDS) m"
    by (auto simp: parse_query_def bindR_eq_Inr reject_unknown_fields_def split: if_splits)
  have "list_all (\<lambda>(k, _). k \<in> set QUERY_FIELDS) ?m"
    using known set_btree_insert[of "''cursor''" "String enc" m] by (fastforce simp: list_all_iff QUERY_FIELDS_def)
  then have fields: "reject_unknown_fields ?m = Inr ()" by (simp add: reject_unknown_fields_def)
  from assms(1,4) show ?thesis
    using assms(3,5-9) fields
    by (auto simp: parse_query_def bindR_eq_Inr same M parse_cursor_def Let_def)
qed

section \<open>Walking the pages\<close>

fun walk_pages ::
  "query_codec \<Rightarrow> retrieval_env \<Rightarrow> string \<Rightarrow> string list \<Rightarrow> nat \<Rightarrow> (string option \<Rightarrow> string) \<Rightarrow> string option \<Rightarrow> sqlite_db
   \<Rightarrow> nat \<Rightarrow> string option \<Rightarrow> RetrievalCandidate list option" where
  "walk_pages Q V scope types n query_text wu db 0 cursor = None"
| "walk_pages Q V scope types n query_text wu db (Suc pages) cursor =
     (case parse_query Q scope types (query_text cursor) n of
        Inl _ \<Rightarrow> None
      | Inr q \<Rightarrow>
          (case retrieve_candidates V q wu db of
             Inl _ \<Rightarrow> None
           | Inr (page, None) \<Rightarrow> Some page
           | Inr (page, Some c) \<Rightarrow>
               map_option ((@) page) (walk_pages Q V scope types n query_text wu db pages (Some (encode_cursor Q c)))))"

lemma all_candidates_after [simp]: "all_candidates V (q\<lparr>rq_after := a\<rparr>) wu db = all_candidates V q wu db"
proof -
  have "matched_rows V db (q\<lparr>rq_after := a\<rparr>) heads = matched_rows V db q heads" for heads
    by (simp add: fun_eq_iff matched_rows_def selects_entity_def matched_version_def split: option.split)
  then have "matching_versions V (q\<lparr>rq_after := a\<rparr>) wu db = matching_versions V q wu db"
    by (simp add: matching_versions_def)
  then show ?thesis by (simp add: all_candidates_def)
qed

lemma parse_query_limit: "parse_query Q scope types s n = Inr q \<Longrightarrow> rq_limit q = n"
  by (auto simp: parse_query_def bindR_eq_Inr Let_def)

text \<open>Only the order by relevance looks at the score of a cursor.\<close>

lemma compare_ignores_score:
  "order = Relevance \<longrightarrow> s = rcu_score k \<Longrightarrow>
     compare_candidate_to_cursor c (k\<lparr>rcu_score := s\<rparr>) order = compare_candidate_to_cursor c k order"
  by (cases order) (simp_all add: compare_candidate_to_cursor_def cursor_key_def candidate_key_def)

lemma remaining_ignores_score:
  "rq_order q = Relevance \<longrightarrow> s = rcu_score k \<Longrightarrow>
     remaining (q\<lparr>rq_after := Some (k\<lparr>rcu_score := s\<rparr>)\<rparr>) cs = remaining (q\<lparr>rq_after := Some k\<rparr>) cs"
  by (simp add: remaining_def Let_def compare_ignores_score)

text \<open>A text too short for the full-text index, or none, gives every candidate the same score.\<close>

definition short_text :: "retrieval_env \<Rightarrow> string option \<Rightarrow> bool" where
  "short_text V text = (case text of None \<Rightarrow> True | Some t \<Rightarrow> rv_char_count V t < 3)"

lemma short_text_score: "short_text V text \<Longrightarrow> text_score V db text kv \<in> {rv_zero V, rv_one V}"
  by (auto simp: short_text_def text_score_def split: option.splits)

lemma short_text_scores:
  assumes "short_text V (rq_text q)" and "all_candidates V q wu db = Inr cs" and "c \<in> set cs"
  shows "ca_score c \<in> {rv_zero V, rv_one V}"
proof -
  from assms(2) obtain filters where f: "mapR (parse_retrieval_filter (rv_json V)) (rq_filters q) = Inr filters"
    by (auto simp: all_candidates_def bindR_eq_Inr)
  from all_candidates_Ok[OF assms(2) f] assms(3) obtain k where
    k: "best_candidate k (matches_of (rv_json V) filters (matching_versions V q wu db) k) = Some c" by blast
  let ?ms = "matches_of (rv_json V) filters (matching_versions V q wu db) k"
  have "?ms \<noteq> []" and score: "ca_score c = Max (set (map mv_score ?ms))"
    using k by (auto simp: best_candidate_def split: if_splits)
  then have "ca_score c \<in> set (map mv_score ?ms)" by (metis List.finite_set Max_in map_is_Nil_conv set_empty)
  then obtain m where m: "m \<in> set (matching_versions V q wu db)" "ca_score c = mv_score m"
    by (auto simp: matches_of_def)
  then obtain kv row where "mv_score m = text_score V db (rq_text q) kv"
    by (auto simp: matching_versions_def mem_matched_rows matched_version_def)
  with m(2) short_text_score[OF assms(1)] show ?thesis by metis
qed

lemma walk_from:
  assumes dist: "distinct (map candidate_id cs)" and cs: "all_candidates V q wu db = Inr cs"
    and n: "0 < n" "rq_limit q = n"
    and resume: "\<And>c. c \<in> set cs \<Longrightarrow>
      let k = candidate_cursor c (rq_order q) (rq_fingerprint q)
      in \<exists>s. (rq_order q = Relevance \<longrightarrow> s = rcu_score k)
        \<and> parse_query Q scope types (query_text (Some (encode_cursor Q k))) n = Inr (q\<lparr>rq_after := Some (k\<lparr>rcu_score := s\<rparr>)\<rparr>)"
    and at: "parse_query Q scope types (query_text cursor) n = Inr (q\<lparr>rq_after := a\<rparr>)"
    and fuel: "length (remaining (q\<lparr>rq_after := a\<rparr>) cs) div n < pages"
  shows "walk_pages Q V scope types n query_text wu db pages cursor = Some (remaining (q\<lparr>rq_after := a\<rparr>) cs)"
  using at fuel
proof (induction pages arbitrary: a cursor)
  case (Suc pages)
  let ?q = "q\<lparr>rq_after := a\<rparr>" let ?r = "remaining (q\<lparr>rq_after := a\<rparr>) cs"
  have page: "retrieve_candidates V ?q wu db = page_of_candidates ?q cs" by (simp add: retrieve_candidates_def cs)
  show ?case
  proof (cases "length ?r \<le> n")
    case True
    with Suc.prems(1) page n show ?thesis by (simp add: page_remaining)
  next
    case False
    let ?page = "take n ?r" let ?k = "candidate_cursor (last (take n ?r)) (rq_order q) (rq_fingerprint q)"
    have ne: "?page \<noteq> []" using False n by auto
    have sub: "set ?r \<subseteq> set cs"
      using ranking.mset_sort_by[THEN mset_eq_setD] by (auto simp: remaining_def Let_def split: option.splits)
    have "last ?page \<in> set ?r" using ne by (metis in_set_takeD last_in_set)
    with sub resume[of "last ?page"] obtain s where s: "rq_order q = Relevance \<longrightarrow> s = rcu_score ?k"
      and parse: "parse_query Q scope types (query_text (Some (encode_cursor Q ?k))) n = Inr (q\<lparr>rq_after := Some (?k\<lparr>rcu_score := s\<rparr>)\<rparr>)"
      by (auto simp: Let_def)
    have rest: "remaining (q\<lparr>rq_after := Some (?k\<lparr>rcu_score := s\<rparr>)\<rparr>) cs = drop n ?r"
      using remaining_after_page[OF dist _ ne HOL.refl, of ?q "drop n ?r" "rq_fingerprint q"] remaining_ignores_score[OF s, of cs] by simp
    have "length (drop n ?r) div n < pages" using Suc.prems(2) False n by (simp add: le_div_geq less_Suc_eq_le)
    then have "walk_pages Q V scope types n query_text wu db pages (Some (encode_cursor Q ?k)) = Some (drop n ?r)"
      using Suc.IH[OF parse] unfolding rest by blast
    with False n page Suc.prems(1) show ?thesis by (simp add: page_remaining)
  qed
qed simp

text \<open>
  C39. Paging ends and shows everything once. A client asks a query without cursor and repeats it, with
  the cursor of each page as the text of the field \<open>cursor\<close>, while the stored entities stay the
  same. With a positive limit \<open>n\<close> it is done after at most one page more than the number of
  candidates divided by \<open>n\<close>, and the pages are together all candidates of the query, each
  once, in the query's order: every cursor is accepted and continues where its page ended. The client's
  texts are JSON objects that differ in that field only, and no candidate has an empty type or
  identifier (the tables refuse such rows). Cursors survive their encoding but for the score: \<open>serde_json\<close>
  without \<open>float_roundtrip\<close> may read another double than was written, except for zero and one.
  Hence the order by relevance is covered for texts below the three characters of the full-text index
  only (all scores are one); the other four orders ignore the score and are covered in full.
\<close>
theorem query_walk_complete:
  assumes "btree_wf m" and "from_str (qc_json Q) (query_text None) = Some (Object m)"
    and "\<And>enc. from_str (qc_json Q) (query_text (Some enc)) = Some (Object (btree_insert ''cursor'' (String enc) m))"
    and "parse_query Q scope types (query_text None) n = Inr q" and "rq_after q = None" and "0 < n"
    and "all_candidates V q wu db = Inr cs"
    and "\<forall>c \<in> set cs. ca_entity_type c \<noteq> [] \<and> ca_entity_id c \<noteq> []
      \<and> (let k = candidate_cursor c (rq_order q) (rq_fingerprint q)
         in \<exists>s. qc_cursor_from Q (qc_cursor_json Q k) = Some (k\<lparr>rcu_score := s\<rparr>)
              \<and> (rcu_score k \<in> {rv_zero V, rv_one V} \<longrightarrow> s = rcu_score k))"
    and "rq_order q = Relevance \<longrightarrow> short_text V (rq_text q)"
  shows "walk_pages Q V scope types n query_text wu db (Suc (length cs div n)) None = Some (remaining q cs)
    \<and> mset (remaining q cs) = mset cs
    \<and> sorted_wrt (\<lambda>a b. compare_candidates b a (rq_order q) = Greater) (remaining q cs)"
proof -
  from assms(7) obtain filters where "mapR (parse_retrieval_filter (rv_json V)) (rq_filters q) = Inr filters"
    by (auto simp: all_candidates_def bindR_eq_Inr)
  from all_candidates_Ok[OF assms(7) this] have dist: "distinct (map candidate_id cs)" by simp
  have same: "q\<lparr>rq_after := None\<rparr> = q" using assms(5) by (cases q) simp
  have mset: "mset (remaining q cs) = mset cs" by (rule remaining_set[OF assms(5)])
  then have len: "length (remaining q cs) = length cs" by (rule mset_eq_length)
  have "walk_pages Q V scope types n query_text wu db (Suc (length cs div n)) None = Some (remaining (q\<lparr>rq_after := None\<rparr>) cs)"
  proof (rule walk_from[OF dist assms(7,6) parse_query_limit[OF assms(4)]])
    fix c assume c: "c \<in> set cs"
    let ?k = "candidate_cursor c (rq_order q) (rq_fingerprint q)"
    from assms(8) c obtain s where s: "qc_cursor_from Q (encode_cursor Q ?k) = Some (?k\<lparr>rcu_score := s\<rparr>)"
        "rcu_score ?k \<in> {rv_zero V, rv_one V} \<longrightarrow> s = rcu_score ?k"
      and ne: "ca_entity_type c \<noteq> []" "ca_entity_id c \<noteq> []" by (auto simp: Let_def encode_cursor_def)
    have "rq_order q = Relevance \<longrightarrow> s = rcu_score ?k"
      using s(2) assms(9) short_text_scores[OF _ assms(7) c] by (auto simp: candidate_cursor_def)
    moreover have "parse_query Q scope types (query_text (Some (encode_cursor Q ?k))) n = Inr (q\<lparr>rq_after := Some (?k\<lparr>rcu_score := s\<rparr>)\<rparr>)"
      by (rule parse_query_resumed[OF assms(2,1,3,4) s(1)]) (use ne in \<open>simp_all add: candidate_cursor_def\<close>)
    ultimately show "let k = candidate_cursor c (rq_order q) (rq_fingerprint q)
      in \<exists>s. (rq_order q = Relevance \<longrightarrow> s = rcu_score k)
        \<and> parse_query Q scope types (query_text (Some (encode_cursor Q k))) n = Inr (q\<lparr>rq_after := Some (k\<lparr>rcu_score := s\<rparr>)\<rparr>)"
      unfolding Let_def by blast
  qed (use assms(4) same len in simp_all)
  then show ?thesis using mset remaining_strict[OF dist, of q] by (simp add: same)
qed

section \<open>Example\<close>

definition sample_instruction :: "(string \<times> Value) list" where
  "sample_instruction = [(''order'', String ''id_asc'')]"

definition sample_query_json :: json_env where
  "sample_query_json = sample_json\<lparr>from_str := (\<lambda>s. case s of
     CHR ''c'' # enc \<Rightarrow> Some (Object (btree_insert ''cursor'' (String enc) sample_instruction))
   | _ \<Rightarrow> Some (Object sample_instruction))\<rparr>"

definition sample_paging_codec :: query_codec where
  "sample_paging_codec =
     \<lparr>qc_json = sample_query_json, qc_identity_json = qi_scope_json, qc_sha256_hex = (\<lambda>s. s),
      qc_cursor_json = rcu_entity_id,
      qc_cursor_from = (\<lambda>s. Some \<lparr>rcu_order = IdAscending, rcu_query_fingerprint = ''{s}'', rcu_score = 0,
        rcu_recorded_at_unix_ms = 7, rcu_entity_type = ''knowledge'', rcu_entity_id = s\<rparr>)\<rparr>"

definition sample_query_text :: "string option \<Rightarrow> string" where
  "sample_query_text cursor = (case cursor of None \<Rightarrow> ''q'' | Some enc \<Rightarrow> CHR ''c'' # enc)"

definition sample_parsed :: RetrieveQuery where
  "sample_parsed = projr (parse_query sample_paging_codec ''{s}'' [''knowledge''] ''q'' 1)"

theorem query_walk_complete_witness:
  "\<exists>cs. all_candidates sample_retrieval sample_parsed None sample_db2 = Inr cs \<and> length cs = 2
     \<and> walk_pages sample_paging_codec sample_retrieval ''{s}'' [''knowledge''] 1 sample_query_text None sample_db2 3 None
         = Some (remaining sample_parsed cs)"
proof -
  let ?c = "\<lambda>i. \<lparr>ca_entity_type = ''knowledge'', ca_entity_id = i, ca_recorded_at_unix_ms = 7, ca_score = 0\<rparr>"
  have cs: "all_candidates sample_retrieval sample_parsed None sample_db2 = Inr [?c ''a'', ?c ''b'']" by code_simp
  have "\<not> isl (parse_query sample_paging_codec ''{s}'' [''knowledge''] ''q'' 1)" by code_simp
  then have q: "parse_query sample_paging_codec ''{s}'' [''knowledge''] (sample_query_text None) 1 = Inr sample_parsed"
    unfolding sample_parsed_def sample_query_text_def by (cases "parse_query sample_paging_codec ''{s}'' [''knowledge''] ''q'' 1") simp_all
  have p: "rq_after sample_parsed = None" "rq_order sample_parsed = IdAscending" "rq_fingerprint sample_parsed = ''{s}''" by code_simp+
  have wf: "btree_wf sample_instruction" by (simp add: sample_instruction_def btree_wf_def)
  have base: "from_str (qc_json sample_paging_codec) (sample_query_text None) = Some (Object sample_instruction)"
    and resumed: "from_str (qc_json sample_paging_codec) (sample_query_text (Some enc)) =
      Some (Object (btree_insert ''cursor'' (String enc) sample_instruction))" for enc
    by (simp_all add: sample_paging_codec_def sample_query_json_def sample_query_text_def)
  have cursors: "\<forall>c \<in> set [?c ''a'', ?c ''b'']. ca_entity_type c \<noteq> [] \<and> ca_entity_id c \<noteq> []
      \<and> (let k = candidate_cursor c (rq_order sample_parsed) (rq_fingerprint sample_parsed)
         in \<exists>s. qc_cursor_from sample_paging_codec (qc_cursor_json sample_paging_codec k) = Some (k\<lparr>rcu_score := s\<rparr>)
              \<and> (rcu_score k \<in> {rv_zero sample_retrieval, rv_one sample_retrieval} \<longrightarrow> s = rcu_score k))"
    by (simp add: sample_paging_codec_def candidate_cursor_def p)
  have order: "rq_order sample_parsed = Relevance \<longrightarrow> short_text sample_retrieval (rq_text sample_parsed)" by (simp add: p)
  have three: "Suc (length [?c ''a'', ?c ''b''] div 1) = 3" by simp
  from query_walk_complete[OF wf base resumed q p(1) zero_less_one cs cursors order] cs show ?thesis unfolding three by auto
qed

section \<open>Relevance and rounded scores\<close>

text \<open>A query by relevance over a text the index covers, and a cursor whose score is read back one rank
  above the one written: the page after it starts with the hit it should follow. With pages of one hit
  the client sees the same hit for ever.\<close>

definition ranked_instruction :: "(string \<times> Value) list" where
  "ranked_instruction = [(''text'', String ''one'')]"

definition ranked_json :: json_env where
  "ranked_json = sample_json\<lparr>from_str := (\<lambda>s. case s of
     CHR ''c'' # enc \<Rightarrow> Some (Object (btree_insert ''cursor'' (String enc) ranked_instruction))
   | _ \<Rightarrow> Some (Object ranked_instruction))\<rparr>"

definition rounding_codec :: query_codec where
  "rounding_codec =
     \<lparr>qc_json = ranked_json, qc_identity_json = qi_scope_json, qc_sha256_hex = (\<lambda>s. s),
      qc_cursor_json = rcu_entity_id,
      qc_cursor_from = (\<lambda>s. Some \<lparr>rcu_order = Relevance, rcu_query_fingerprint = ''{s}'', rcu_score = 3,
        rcu_recorded_at_unix_ms = 7, rcu_entity_type = ''knowledge'', rcu_entity_id = s\<rparr>)\<rparr>"

definition ranked_query :: "string option \<Rightarrow> RetrieveQuery" where
  "ranked_query cursor = projr (parse_query rounding_codec ''{s}'' [''knowledge''] (sample_query_text cursor) 1)"

lemma relevance_walk_can_repeat:
  "\<not> short_text sample_retrieval (rq_text (ranked_query None))
   \<and> walk_pages rounding_codec sample_retrieval ''{s}'' [''knowledge''] 1 sample_query_text None sample_db2 pages None = None"
proof -
  let ?walk = "walk_pages rounding_codec sample_retrieval ''{s}'' [''knowledge''] 1 sample_query_text None sample_db2"
  let ?a = "sample_candidate ''a''"
  have page: "parse_query rounding_codec ''{s}'' [''knowledge''] (sample_query_text cursor) 1 = Inr (ranked_query cursor)
      \<and> retrieve_candidates sample_retrieval (ranked_query cursor) None sample_db2
        = Inr ([?a], Some (candidate_cursor ?a Relevance ''{s}''))"
    if "cursor = None \<or> cursor = Some ''a''" for cursor
    using that by (elim disjE; hypsubst; code_simp)
  have enc: "encode_cursor rounding_codec (candidate_cursor ?a Relevance ''{s}'') = ''a''" by code_simp
  have walk: "?walk pages cursor = None" if "cursor = None \<or> cursor = Some ''a''" for cursor pages
    using that
  proof (induction pages arbitrary: cursor)
    case (Suc pages)
    then show ?case using page[OF Suc.prems] by (simp add: enc)
  qed simp
  have "\<not> short_text sample_retrieval (rq_text (ranked_query None))" by code_simp
  with walk show ?thesis by simp
qed

end
