(* ===== verification/Artifact_Store.thy ===== *)
theory Artifact_Store
  imports Query_Parsing
begin

text \<open>
  The artifact store of the server, \<open>crates/server/src/artifact_store.rs\<close>: uploads are collected in
  part files and moved into a content-addressed directory. The file system is a table of the nodes by
  their absolute paths; nodes below a symbolic link are not followed, and reading and writing never
  fail for reasons of the device. SHA-256, Base64, \<open>canonicalize\<close> and the identity of the process enter
  as an \<open>artifact_env\<close>; fresh upload identifiers are arguments.
\<close>

section \<open>The file system\<close>

type_synonym path = "string list"

datatype fs_node =
    RegularFile (file_content: string)
  | Directory (dir_mode: nat)
  | SymbolicLink (link_owner: nat)
  | OtherNode

type_synonym file_system = "(path, fs_node) table"

datatype ErrorKind = NotFoundKind | AlreadyExistsKind | InvalidInputKind | InvalidDataKind | PermissionDeniedKind | NotADirectoryKind | OtherKind

type_synonym 'a io_result = "ErrorKind + 'a"

definition set_node :: "path \<Rightarrow> fs_node \<Rightarrow> file_system \<Rightarrow> file_system" where
  "set_node p n fs = tbl_upsert p n (\<lambda>_. n) fs"

definition remove_file :: "path \<Rightarrow> file_system \<Rightarrow> file_system" where
  "remove_file p fs = tbl_delete (\<lambda>q _. q = p) fs"

text \<open>\<open>DirBuilder::create\<close> with \<open>recursive\<close>: missing directories get the mode 0700, which is 448.\<close>

definition create_dir :: "path \<Rightarrow> file_system \<Rightarrow> file_system io_result" where
  "create_dir p fs =
     (case map_of fs p of
        None \<Rightarrow> Ok (set_node p (Directory 448) fs)
      | Some (Directory _) \<Rightarrow> Ok fs
      | Some _ \<Rightarrow> Err NotADirectoryKind)"

definition ancestors :: "path \<Rightarrow> path list" where
  "ancestors p = map (\<lambda>n. take n p) [1..<Suc (length p)]"

definition create_dir_all :: "path \<Rightarrow> file_system \<Rightarrow> file_system io_result" where
  "create_dir_all p = foldR create_dir (ancestors p)"

text \<open>The group and other bits of a mode are its lowest six.\<close>

definition validate_private_permissions :: "path \<Rightarrow> file_system \<Rightarrow> unit io_result" where
  "validate_private_permissions p fs =
     (case map_of fs p of
        Some (Directory mode) \<Rightarrow> if mode mod 64 = 0 then Ok () else Err PermissionDeniedKind
      | _ \<Rightarrow> Err NotFoundKind)"

definition create_private_dir :: "path \<Rightarrow> file_system \<Rightarrow> file_system io_result" where
  "create_private_dir p fs =
     (case map_of fs p of
        Some (SymbolicLink _) \<Rightarrow> Err InvalidInputKind
      | Some (Directory _) \<Rightarrow> bindR (validate_private_permissions p fs) (\<lambda>_. Ok fs)
      | Some _ \<Rightarrow> Err AlreadyExistsKind
      | None \<Rightarrow> bindR (create_dir_all p fs) (\<lambda>fs. bindR (validate_private_permissions p fs) (\<lambda>_. Ok fs)))"

definition create_private_file :: "path \<Rightarrow> file_system \<Rightarrow> file_system io_result" where
  "create_private_file p fs =
     (if map_of fs p \<noteq> None then Err AlreadyExistsKind
      else case map_of fs (butlast p) of
        Some (Directory _) \<Rightarrow> Ok (set_node p (RegularFile []) fs)
      | Some _ \<Rightarrow> Err NotADirectoryKind
      | None \<Rightarrow> Err NotFoundKind)"

section \<open>The store\<close>

definition MAX_ARTIFACT_CHUNK_BYTES :: nat where
  "MAX_ARTIFACT_CHUNK_BYTES = 512 * 1024"

record artifact_env =
  ae_sha256_hex :: "string \<Rightarrow> string"
  ae_encode :: "string \<Rightarrow> string"
  ae_decode :: "string \<Rightarrow> string option"
  ae_canonicalize :: "file_system \<Rightarrow> path \<Rightarrow> path"
  ae_euid :: nat

record StoredArtifact =
  sa_provider :: string
  sa_key :: string
  sa_byte_length :: nat
  sa_digest :: string

record DownloadChunk =
  dc_bytes_base64 :: string
  dc_byte_length :: nat
  dc_next_offset :: nat
  dc_eof :: bool

record 'm ArtifactUploadBeginData =
  ub_id :: "string option"
  ub_media_type :: string
  ub_name :: "string option"
  ub_expected_byte_length :: "nat option"
  ub_expected_digest :: "string option"
  ub_metadata :: 'm

record 'm Upload =
  up_data :: "'m ArtifactUploadBeginData"
  up_path :: path
  up_committed :: "StoredArtifact option"

datatype ArtifactStoreError = InvalidArtifact | ArtifactNotFound | ArtifactIo ErrorKind

record 'm ArtifactStore =
  as_provider :: string
  as_objects :: path
  as_uploads :: path
  as_active :: "(string \<times> 'm Upload) list"
  as_files :: file_system

type_synonym 'a aresult = "ArtifactStoreError + 'a"

definition io :: "'a io_result \<Rightarrow> 'a aresult" where
  "io = map_err ArtifactIo"

definition symbolic_link_owner_is_trusted :: "artifact_env \<Rightarrow> nat \<Rightarrow> bool" where
  "symbolic_link_owner_is_trusted E owner \<longleftrightarrow> owner = 0 \<or> owner = ae_euid E"

fun reject_links :: "artifact_env \<Rightarrow> path list \<Rightarrow> file_system \<Rightarrow> unit io_result" where
  "reject_links E [] fs = Ok ()"
| "reject_links E (p # ps) fs =
     (case map_of fs p of
        Some (SymbolicLink owner) \<Rightarrow>
          if \<not> symbolic_link_owner_is_trusted E owner then Err InvalidInputKind else reject_links E ps fs
      | Some _ \<Rightarrow> reject_links E ps fs
      | None \<Rightarrow> Ok ())"

definition reject_symbolic_link_components :: "artifact_env \<Rightarrow> path \<Rightarrow> file_system \<Rightarrow> unit io_result" where
  "reject_symbolic_link_components E p fs = reject_links E (ancestors p) fs"

definition ends_with :: "string \<Rightarrow> string \<Rightarrow> bool" where
  "ends_with s t \<longleftrightarrow> length t \<le> length s \<and> drop (length s - length t) s = t"

definition clear_entry :: "path \<times> fs_node \<Rightarrow> file_system \<Rightarrow> file_system io_result" where
  "clear_entry entry fs =
     (case snd entry of
        RegularFile _ \<Rightarrow> if ends_with (last (fst entry)) ''.part'' then Ok (remove_file (fst entry) fs) else Err InvalidDataKind
      | _ \<Rightarrow> Err InvalidDataKind)"

definition read_dir :: "path \<Rightarrow> file_system \<Rightarrow> (path \<times> fs_node) list" where
  "read_dir p fs = filter (\<lambda>(q, _). q \<noteq> [] \<and> butlast q = p) fs"

definition clear_incomplete_uploads :: "path \<Rightarrow> file_system \<Rightarrow> file_system io_result" where
  "clear_incomplete_uploads p fs = foldR clear_entry (read_dir p fs) fs"

definition open_store :: "artifact_env \<Rightarrow> path \<Rightarrow> string \<Rightarrow> file_system \<Rightarrow> 'm ArtifactStore aresult" where
  "open_store E base provider fs =
     (if trim provider = [] then Err InvalidArtifact
      else
        bindR (io (reject_symbolic_link_components E base fs)) (\<lambda>_.
        bindR (io (create_private_dir base fs)) (\<lambda>fs.
        let base = ae_canonicalize E fs base; objects = base @ [''objects'']; uploads = base @ [''uploads''] in
        bindR (io (create_private_dir objects fs)) (\<lambda>fs.
        bindR (io (create_private_dir uploads fs)) (\<lambda>fs.
        bindR (io (clear_incomplete_uploads uploads fs)) (\<lambda>fs.
          Ok \<lparr>as_provider = provider, as_objects = objects, as_uploads = uploads, as_active = [], as_files = fs\<rparr>))))))"

section \<open>Uploads\<close>

definition begin_upload ::
  "string \<Rightarrow> 'm ArtifactUploadBeginData \<Rightarrow> 'm ArtifactStore \<Rightarrow> string aresult \<times> 'm ArtifactStore" where
  "begin_upload upload_id data st =
     (let p = as_uploads st @ [upload_id @ ''.part''] in
      case create_private_file p (as_files st) of
        Inl e \<Rightarrow> (Err (ArtifactIo e), st)
      | Inr fs \<Rightarrow>
          (Ok upload_id, st\<lparr>as_files := fs,
             as_active := btree_insert upload_id \<lparr>up_data = data, up_path = p, up_committed = None\<rparr> (as_active st)\<rparr>))"

definition file_len :: "path \<Rightarrow> file_system \<Rightarrow> nat io_result" where
  "file_len p fs =
     (case map_of fs p of
        Some (RegularFile s) \<Rightarrow> Ok (length s)
      | Some _ \<Rightarrow> Err OtherKind
      | None \<Rightarrow> Err NotFoundKind)"

definition append_file :: "path \<Rightarrow> string \<Rightarrow> file_system \<Rightarrow> file_system" where
  "append_file p bytes fs =
     (case map_of fs p of Some (RegularFile s) \<Rightarrow> set_node p (RegularFile (s @ bytes)) fs | _ \<Rightarrow> fs)"

definition check_append :: "artifact_env \<Rightarrow> string \<Rightarrow> nat \<Rightarrow> string \<Rightarrow> 'm ArtifactStore \<Rightarrow> (path \<times> string \<times> nat) aresult" where
  "check_append E upload_id offset bytes_base64 st =
     bindR (ok_or (ae_decode E bytes_base64) InvalidArtifact) (\<lambda>bytes.
     bindR (guardR (\<not> (bytes = [] \<or> length bytes > MAX_ARTIFACT_CHUNK_BYTES)) InvalidArtifact) (\<lambda>_.
     bindR (ok_or (map_of (as_active st) upload_id) ArtifactNotFound) (\<lambda>upload.
     bindR (guardR (up_committed upload = None) InvalidArtifact) (\<lambda>_.
     bindR (io (file_len (up_path upload) (as_files st))) (\<lambda>current.
     bindR (guardR (current = offset) InvalidArtifact) (\<lambda>_.
     bindR (ok_or (checked_add_u64 current (length bytes)) InvalidArtifact) (\<lambda>next_offset.
     bindR (guardR (case ub_expected_byte_length (up_data upload) of None \<Rightarrow> True | Some expected \<Rightarrow> \<not> next_offset > expected)
              InvalidArtifact) (\<lambda>_.
       Ok (up_path upload, bytes, next_offset)))))))))"

definition append_upload ::
  "artifact_env \<Rightarrow> string \<Rightarrow> nat \<Rightarrow> string \<Rightarrow> 'm ArtifactStore \<Rightarrow> nat aresult \<times> 'm ArtifactStore" where
  "append_upload E upload_id offset bytes_base64 st =
     (case check_append E upload_id offset bytes_base64 st of
        Inl e \<Rightarrow> (Err e, st)
      | Inr (p, bytes, next_offset) \<Rightarrow> (Ok next_offset, st\<lparr>as_files := append_file p bytes (as_files st)\<rparr>))"

function hash_loop :: "string \<Rightarrow> string \<Rightarrow> nat \<Rightarrow> nat \<times> string" where
  "hash_loop unread hasher byte_length =
     (let buffer = take (64 * 1024) unread in
      if buffer = [] then (byte_length, hasher)
      else hash_loop (drop (64 * 1024) unread) (hasher @ buffer) (byte_length + length buffer))"
  by auto
termination by (relation "measure (\<lambda>(unread, _, _). length unread)") auto

declare hash_loop.simps [simp del]

definition hash_file :: "artifact_env \<Rightarrow> path \<Rightarrow> file_system \<Rightarrow> (nat \<times> string) io_result" where
  "hash_file E p fs =
     (case map_of fs p of
        Some (RegularFile s) \<Rightarrow> (case hash_loop s [] 0 of (n, hashed) \<Rightarrow> Ok (n, ae_sha256_hex E hashed))
      | Some _ \<Rightarrow> Err OtherKind
      | None \<Rightarrow> Err NotFoundKind)"

definition object_path :: "'m ArtifactStore \<Rightarrow> string \<Rightarrow> path" where
  "object_path st digest_hex = as_objects st @ [''sha256'', take 2 digest_hex, drop 2 digest_hex]"

text \<open>The checks of a commit before it touches a file.\<close>

definition verify_upload :: "artifact_env \<Rightarrow> 'm Upload \<Rightarrow> file_system \<Rightarrow> (nat \<times> string) aresult" where
  "verify_upload E upload fs =
     bindR (io (hash_file E (up_path upload) fs)) (\<lambda>(byte_length, digest_hex).
     bindR (guardR (case ub_expected_byte_length (up_data upload) of None \<Rightarrow> True | Some expected \<Rightarrow> expected = byte_length)
              InvalidArtifact) (\<lambda>_.
     bindR (guardR (case ub_expected_digest (up_data upload) of None \<Rightarrow> True | Some expected \<Rightarrow> expected = ''sha256:'' @ digest_hex)
              InvalidArtifact) (\<lambda>_.
       Ok (byte_length, digest_hex))))"

text \<open>Moving the part file to its destination, unless the content is there already.\<close>

definition rename :: "path \<Rightarrow> path \<Rightarrow> file_system \<Rightarrow> file_system" where
  "rename p q fs = (case map_of fs p of None \<Rightarrow> fs | Some n \<Rightarrow> set_node q n (remove_file p fs))"

definition place_object :: "artifact_env \<Rightarrow> path \<Rightarrow> path \<Rightarrow> nat \<times> string \<Rightarrow> file_system \<Rightarrow> file_system io_result" where
  "place_object E p destination hash fs =
     (case map_of fs destination of
        Some (RegularFile _) \<Rightarrow>
          bindR (hash_file E destination fs) (\<lambda>existing.
            if fst existing \<noteq> fst hash \<or> snd existing \<noteq> snd hash then Err InvalidDataKind else Ok (remove_file p fs))
      | Some _ \<Rightarrow> Err InvalidDataKind
      | None \<Rightarrow> Ok (rename p destination fs))"

definition commit_upload ::
  "artifact_env \<Rightarrow> string \<Rightarrow> 'm ArtifactStore \<Rightarrow> ('m ArtifactUploadBeginData \<times> StoredArtifact) aresult \<times> 'm ArtifactStore" where
  "commit_upload E upload_id st =
     (case map_of (as_active st) upload_id of
        None \<Rightarrow> (Err ArtifactNotFound, st)
      | Some upload \<Rightarrow>
          (case up_committed upload of
             Some committed \<Rightarrow> (Ok (up_data upload, committed), st)
           | None \<Rightarrow>
               (case verify_upload E upload (as_files st) of
                  Inl e \<Rightarrow> (Err e, st)
                | Inr (byte_length, digest_hex) \<Rightarrow>
                    let destination = object_path st digest_hex in
                    (case create_private_dir (butlast destination) (as_files st) of
                       Inl e \<Rightarrow> (Err (ArtifactIo e), st)
                     | Inr fs \<Rightarrow>
                         (case place_object E (up_path upload) destination (byte_length, digest_hex) fs of
                            Inl e \<Rightarrow> (Err (ArtifactIo e), st\<lparr>as_files := fs\<rparr>)
                          | Inr fs \<Rightarrow>
                              let committed = \<lparr>sa_provider = as_provider st, sa_key = ''sha256/'' @ digest_hex,
                                               sa_byte_length = byte_length, sa_digest = ''sha256:'' @ digest_hex\<rparr>
                              in (Ok (up_data upload, committed),
                                  st\<lparr>as_files := fs,
                                     as_active := btree_insert upload_id (upload\<lparr>up_committed := Some committed\<rparr>) (as_active st)\<rparr>))))))"

definition finish_upload :: "string \<Rightarrow> 'm ArtifactStore \<Rightarrow> 'm ArtifactStore" where
  "finish_upload upload_id st = st\<lparr>as_active := filter (\<lambda>(k, _). k \<noteq> upload_id) (as_active st)\<rparr>"

section \<open>Downloads\<close>

definition hex_digit :: "char \<Rightarrow> bool" where
  "hex_digit c \<longleftrightarrow> (48 \<le> (of_char c :: nat) \<and> (of_char c :: nat) \<le> 57) \<or> (97 \<le> (of_char c :: nat) \<and> (of_char c :: nat) \<le> 102)"

definition parse_key :: "string \<Rightarrow> string aresult" where
  "parse_key key =
     (if take 7 key \<noteq> ''sha256/'' then Err InvalidArtifact
      else let digest = drop 7 key in
           if length digest \<noteq> 64 \<or> \<not> list_all hex_digit digest then Err InvalidArtifact else Ok digest)"

definition read_artifact :: "artifact_env \<Rightarrow> string \<Rightarrow> string \<Rightarrow> nat \<Rightarrow> nat \<Rightarrow> 'm ArtifactStore \<Rightarrow> DownloadChunk aresult" where
  "read_artifact E provider key offset max_bytes st =
     (if provider \<noteq> as_provider st then Err InvalidArtifact
      else
        bindR (parse_key key) (\<lambda>digest_hex.
        case map_of (as_files st) (object_path st digest_hex) of
          Some (RegularFile content) \<Rightarrow>
            if offset > length content then Err InvalidArtifact
            else if max_bytes = 0 \<or> max_bytes > MAX_ARTIFACT_CHUNK_BYTES then Err InvalidArtifact
            else
              (let read_length = min (length content - offset) max_bytes;
                   bytes = take read_length (drop offset content);
                   next_offset = offset + read_length
               in Ok \<lparr>dc_bytes_base64 = ae_encode E bytes, dc_byte_length = length content,
                      dc_next_offset = next_offset, dc_eof = (next_offset = length content)\<rparr>)
        | _ \<Rightarrow> Err ArtifactNotFound))"

end
