(* ===== verification/Artifact_Transfers.thy ===== *)
theory Artifact_Transfers
  imports Artifact_Store
begin

text \<open>
  Transfers through the artifact store: whatever else happens in between, the bytes accepted for an
  upload are the bytes a client downloads after the commit.
\<close>

section \<open>Files\<close>

lemma map_of_set_node [simp]: "map_of (set_node p n fs) = (map_of fs)(p \<mapsto> n)"
  by (auto simp: set_node_def map_of_tbl_upsert fun_eq_iff split: option.split)

lemma map_of_remove_file [simp]: "map_of (remove_file p fs) = (map_of fs)(p := None)"
  by (induction fs) (auto simp: remove_file_def tbl_delete_def fun_eq_iff)

lemma map_of_rename: "map_of fs p = Some n \<Longrightarrow> map_of (rename p q fs) = (map_of fs)(p := None, q \<mapsto> n)"
  by (simp add: rename_def)

lemma hash_loop_all: "hash_loop unread hasher n = (n + length unread, hasher @ unread)"
proof (induction unread hasher n rule: hash_loop.induct)
  case (1 unread hasher n)
  show ?case
  proof (cases "take (64 * 1024) unread = []")
    case True
    then have "unread = []" by simp
    then show ?thesis by (simp add: hash_loop.simps[of "[]"])
  next
    case False
    from "1.IH"[OF refl False] have "hash_loop unread hasher n =
        (n + length (take (64 * 1024) unread) + length (drop (64 * 1024) unread),
         (hasher @ take (64 * 1024) unread) @ drop (64 * 1024) unread)"
      using False by (simp add: hash_loop.simps[of unread] Let_def)
    then show ?thesis by simp
  qed
qed

lemma hash_file_Ok: "hash_file E p fs = Inr (n, d) \<longleftrightarrow> (\<exists>s. map_of fs p = Some (RegularFile s) \<and> n = length s \<and> d = ae_sha256_hex E s)"
  by (auto simp: hash_file_def hash_loop_all split: option.splits fs_node.splits)

definition dirs_grow :: "file_system \<Rightarrow> file_system \<Rightarrow> bool" where
  "dirs_grow fs fs' \<longleftrightarrow> (\<forall>p n. map_of fs p = Some n \<longrightarrow> map_of fs' p = Some n)
     \<and> (\<forall>p s. map_of fs' p = Some (RegularFile s) \<longrightarrow> map_of fs p = Some (RegularFile s))"

lemma dirs_grow_refl: "dirs_grow fs fs"
  by (simp add: dirs_grow_def)

lemma create_dir_grows: "create_dir p fs = Inr fs' \<Longrightarrow> dirs_grow fs fs'"
  by (auto simp: create_dir_def dirs_grow_def split: option.splits fs_node.splits if_splits)

lemma create_dirs_grow: "foldR create_dir ps fs = Inr fs' \<Longrightarrow> dirs_grow fs fs'"
proof (induction ps arbitrary: fs)
  case (Cons p ps)
  then obtain d where d: "create_dir p fs = Inr d" "foldR create_dir ps d = Inr fs'" by (auto simp: bindR_eq_Inr)
  from create_dir_grows[OF d(1)] Cons.IH[OF d(2)] show ?case unfolding dirs_grow_def by blast
qed (simp add: dirs_grow_def)

lemma create_private_dir_grows: "create_private_dir p fs = Inr fs' \<Longrightarrow> dirs_grow fs fs'"
  by (auto simp: create_private_dir_def bindR_eq_Inr create_dir_all_def dirs_grow_refl dest: create_dirs_grow
      split: option.splits fs_node.splits)

section \<open>Operations of clients\<close>

datatype 'm artifact_op =
    BeginOp string "'m ArtifactUploadBeginData"
  | AppendOp string nat string
  | CommitOp string
  | FinishOp string

fun artifact_apply :: "artifact_env \<Rightarrow> 'm artifact_op \<Rightarrow> 'm ArtifactStore \<Rightarrow> 'm ArtifactStore" where
  "artifact_apply E (BeginOp u data) st = snd (begin_upload u data st)"
| "artifact_apply E (AppendOp u offset bytes) st = snd (append_upload E u offset bytes st)"
| "artifact_apply E (CommitOp u) st = snd (commit_upload E u st)"
| "artifact_apply E (FinishOp u) st = finish_upload u st"

definition artifact_run :: "artifact_env \<Rightarrow> 'm artifact_op list \<Rightarrow> 'm ArtifactStore \<Rightarrow> 'm ArtifactStore" where
  "artifact_run E ops st = fold (artifact_apply E) ops st"

text \<open>The bytes an operation adds to an upload, and those a sequence of operations adds.\<close>

fun op_bytes :: "artifact_env \<Rightarrow> string \<Rightarrow> 'm artifact_op \<Rightarrow> 'm ArtifactStore \<Rightarrow> string" where
  "op_bytes E u (AppendOp v offset bytes) st =
     (if v = u \<and> \<not> isl (fst (append_upload E v offset bytes st)) then the (ae_decode E bytes) else [])"
| "op_bytes E u _ st = []"

fun uploaded_bytes :: "artifact_env \<Rightarrow> string \<Rightarrow> 'm artifact_op list \<Rightarrow> 'm ArtifactStore \<Rightarrow> string" where
  "uploaded_bytes E u [] st = []"
| "uploaded_bytes E u (op # ops) st = op_bytes E u op st @ uploaded_bytes E u ops (artifact_apply E op st)"

fun restarts :: "string \<Rightarrow> 'm artifact_op \<Rightarrow> bool" where
  "restarts u (BeginOp v _) = (v = u)"
| "restarts u (FinishOp v) = (v = u)"
| "restarts u _ = False"

section \<open>Invariants\<close>

definition part_path :: "'m ArtifactStore \<Rightarrow> string \<Rightarrow> path" where
  "part_path st u = as_uploads st @ [u @ ''.part'']"

definition artifact_ok :: "'m ArtifactStore \<Rightarrow> bool" where
  "artifact_ok st \<longleftrightarrow> btree_wf (as_active st)
     \<and> (\<exists>b. as_objects st = b @ [''objects''] \<and> as_uploads st = b @ [''uploads''])
     \<and> (\<forall>(u, up) \<in> set (as_active st). up_path up = part_path st u)"

definition same_store :: "'m ArtifactStore \<Rightarrow> 'm ArtifactStore \<Rightarrow> bool" where
  "same_store st st' \<longleftrightarrow> as_provider st' = as_provider st \<and> as_objects st' = as_objects st \<and> as_uploads st' = as_uploads st"

lemma same_store_paths: "same_store st st' \<Longrightarrow> part_path st' u = part_path st u \<and> object_path st' d = object_path st d"
  by (simp add: same_store_def part_path_def object_path_def)

lemma object_not_part: "artifact_ok st \<Longrightarrow> object_path st d \<noteq> part_path st u"
  by (auto simp: artifact_ok_def object_path_def part_path_def)

lemma part_path_inj [simp]: "part_path st u = part_path st v \<longleftrightarrow> u = v"
  by (simp add: part_path_def)

lemma active_path: "artifact_ok st \<Longrightarrow> map_of (as_active st) u = Some up \<Longrightarrow> up_path up = part_path st u"
  by (auto simp: artifact_ok_def dest!: map_of_SomeD)

lemma begin_upload_Ok:
  assumes "begin_upload u data st = (Inr r, st')"
  shows "map_of (as_files st) (part_path st u) = None
    \<and> st' = st\<lparr>as_files := set_node (part_path st u) (RegularFile []) (as_files st),
        as_active := btree_insert u \<lparr>up_data = data, up_path = part_path st u, up_committed = None\<rparr> (as_active st)\<rparr>"
  using assms by (auto simp: begin_upload_def create_private_file_def part_path_def Let_def split: sum.splits if_splits option.splits fs_node.splits)

lemma begin_upload_Err: "begin_upload u data st = (Inl e, st') \<Longrightarrow> st' = st"
  by (auto simp: begin_upload_def Let_def split: sum.splits)

lemma check_append_Ok:
  assumes "check_append E u offset b64 st = Inr (p, bytes, next_offset)" "artifact_ok st"
  shows "\<exists>up s. map_of (as_active st) u = Some up \<and> up_committed up = None \<and> ae_decode E b64 = Some bytes \<and> p = part_path st u
    \<and> map_of (as_files st) p = Some (RegularFile s) \<and> offset = length s \<and> next_offset = length (s @ bytes)"
proof -
  from assms(1) obtain up current where up: "ae_decode E b64 = Some bytes" "map_of (as_active st) u = Some up" "up_committed up = None"
    "file_len (up_path up) (as_files st) = Inr current" "current = offset" "checked_add_u64 current (length bytes) = Some next_offset"
    "p = up_path up"
    unfolding check_append_def by (auto simp: bindR_eq_Inr io_def)
  from up(4) obtain s where "map_of (as_files st) (up_path up) = Some (RegularFile s)" "current = length s"
    by (auto simp: file_len_def split: option.splits fs_node.splits)
  with up active_path[OF assms(2) up(2)] show ?thesis by (auto simp: checked_add_u64_Some)
qed

lemma append_upload_Ok:
  assumes "append_upload E u offset b64 st = (Inr next_offset, st')" "artifact_ok st"
  shows "\<exists>up s bytes. map_of (as_active st) u = Some up \<and> up_committed up = None \<and> ae_decode E b64 = Some bytes
    \<and> map_of (as_files st) (part_path st u) = Some (RegularFile s) \<and> offset = length s \<and> next_offset = length (s @ bytes)
    \<and> st' = st\<lparr>as_files := set_node (part_path st u) (RegularFile (s @ bytes)) (as_files st)\<rparr>"
proof -
  from assms(1) obtain p bytes where c: "check_append E u offset b64 st = Inr (p, bytes, next_offset)"
    and st': "st' = st\<lparr>as_files := append_file p bytes (as_files st)\<rparr>"
    by (auto simp: append_upload_def split: sum.splits)
  from check_append_Ok[OF c assms(2)] st' show ?thesis by (auto simp: append_file_def)
qed

lemma append_upload_Err: "append_upload E u offset b64 st = (Inl e, st') \<Longrightarrow> st' = st"
  by (auto simp: append_upload_def split: sum.splits)

text \<open>What a commit leaves behind: nothing, new directories only, or the content at its key.\<close>

definition stored_as :: "artifact_env \<Rightarrow> 'm ArtifactStore \<Rightarrow> string \<Rightarrow> StoredArtifact" where
  "stored_as E st s = \<lparr>sa_provider = as_provider st, sa_key = ''sha256/'' @ ae_sha256_hex E s, sa_byte_length = length s,
     sa_digest = ''sha256:'' @ ae_sha256_hex E s\<rparr>"

definition holds_content :: "artifact_env \<Rightarrow> 'm ArtifactStore \<Rightarrow> string \<Rightarrow> bool" where
  "holds_content E st s \<longleftrightarrow> (\<exists>s'. map_of (as_files st) (object_path st (ae_sha256_hex E s)) = Some (RegularFile s')
     \<and> ae_sha256_hex E s' = ae_sha256_hex E s \<and> length s' = length s)"

lemma verify_upload_Ok:
  "verify_upload E up fs = Inr (n, d) \<Longrightarrow> \<exists>s. map_of fs (up_path up) = Some (RegularFile s) \<and> n = length s \<and> d = ae_sha256_hex E s
     \<and> (\<forall>k. ub_expected_byte_length (up_data up) = Some k \<longrightarrow> length s = k)
     \<and> (\<forall>k. ub_expected_digest (up_data up) = Some k \<longrightarrow> k = ''sha256:'' @ ae_sha256_hex E s)"
  by (auto simp: verify_upload_def bindR_eq_Inr io_def map_err_eq_Inr hash_file_Ok split: option.splits)

lemma place_object_Ok:
  assumes "place_object E p q (length s, ae_sha256_hex E s) fs = Inr fs'" "map_of fs p = Some (RegularFile s)" "p \<noteq> q"
  shows "(\<exists>s'. map_of fs' q = Some (RegularFile s') \<and> ae_sha256_hex E s' = ae_sha256_hex E s \<and> length s' = length s)
    \<and> (\<forall>r. r \<noteq> p \<longrightarrow> map_of fs r \<noteq> None \<longrightarrow> map_of fs' r = map_of fs r) \<and> (\<forall>r. r \<noteq> p \<and> r \<noteq> q \<longrightarrow> map_of fs' r = map_of fs r)"
  using assms by (auto simp: place_object_def bindR_eq_Inr hash_file_Ok map_of_rename split: option.splits fs_node.splits if_splits)

lemma commit_placed:
  assumes ok: "artifact_ok st" and up: "map_of (as_active st) u = Some up"
    and s: "map_of (as_files st) (part_path st u) = Some (RegularFile s)" and grow: "dirs_grow (as_files st) fs"
    and placed: "place_object E (up_path up) (object_path st (ae_sha256_hex E s)) (length s, ae_sha256_hex E s) fs = Inr fs'"
    and st': "st' = st\<lparr>as_files := fs', as_active := act\<rparr>"
  shows "holds_content E st' s"
    "\<forall>q x. q \<noteq> part_path st u \<longrightarrow> map_of (as_files st) q = Some x \<longrightarrow> map_of fs' q = Some x"
proof -
  have src: "map_of fs (part_path st u) = Some (RegularFile s)" using grow s unfolding dirs_grow_def by blast
  have ne: "part_path st u \<noteq> object_path st (ae_sha256_hex E s)" using object_not_part[OF ok] by metis
  note P = place_object_Ok[OF placed[unfolded active_path[OF ok up]] src ne]
  show "holds_content E st' s" using P unfolding st' by (simp add: holds_content_def object_path_def)
  show "\<forall>q x. q \<noteq> part_path st u \<longrightarrow> map_of (as_files st) q = Some x \<longrightarrow> map_of fs' q = Some x"
  proof (intro allI impI)
    fix q x assume q: "q \<noteq> part_path st u" "map_of (as_files st) q = Some x"
    then have x: "map_of fs q = Some x" using grow unfolding dirs_grow_def by blast
    then have "map_of fs q \<noteq> None" by simp
    with x show "map_of fs' q = Some x" using P[THEN conjunct2, THEN conjunct1, rule_format, OF q(1)] by simp
  qed
qed

lemma commit_upload_cases:
  assumes "commit_upload E u st = (r, st')" "artifact_ok st"
  shows "(st' = st \<and> (\<forall>data sa. r = Inr (data, sa) \<longrightarrow>
           (\<exists>up. map_of (as_active st) u = Some up \<and> up_data up = data \<and> up_committed up = Some sa)))
    \<or> (\<exists>e fs. r = Inl e \<and> dirs_grow (as_files st) fs \<and> st' = st\<lparr>as_files := fs\<rparr>)
    \<or> (\<exists>up s fs. map_of (as_active st) u = Some up \<and> up_committed up = None \<and> map_of (as_files st) (part_path st u) = Some (RegularFile s)
         \<and> (\<forall>k. ub_expected_byte_length (up_data up) = Some k \<longrightarrow> length s = k)
         \<and> r = Inr (up_data up, stored_as E st s)
         \<and> st' = st\<lparr>as_files := fs, as_active := btree_insert u (up\<lparr>up_committed := Some (stored_as E st s)\<rparr>) (as_active st)\<rparr>
         \<and> holds_content E st' s
         \<and> (\<forall>q x. q \<noteq> part_path st u \<longrightarrow> map_of (as_files st) q = Some x \<longrightarrow> map_of fs q = Some x))"
proof (cases "map_of (as_active st) u")
  case None
  with assms(1) show ?thesis by (auto simp: commit_upload_def)
next
  case (Some up)
  note up = Some
  show ?thesis
  proof (cases "up_committed up")
    case (Some sa)
    with assms(1) up show ?thesis by (auto simp: commit_upload_def)
  next
    case none: None
    show ?thesis
    proof (cases "verify_upload E up (as_files st)")
      case (Inl e)
      with assms(1) up none show ?thesis by (auto simp: commit_upload_def)
    next
      case (Inr nd)
      obtain n d where nd: "nd = (n, d)" by (cases nd)
      from verify_upload_Ok[OF Inr[unfolded nd]] active_path[OF assms(2) up] obtain s where
        s: "map_of (as_files st) (part_path st u) = Some (RegularFile s)" "n = length s" "d = ae_sha256_hex E s"
        and len: "\<forall>k. ub_expected_byte_length (up_data up) = Some k \<longrightarrow> length s = k" by auto
      let ?q = "object_path st d"
      show ?thesis
      proof (cases "create_private_dir (butlast ?q) (as_files st)")
        case (Inl e)
        with assms(1) up none Inr nd show ?thesis by (auto simp: commit_upload_def Let_def)
      next
        case dir: (Inr fs)
        from create_private_dir_grows[OF dir] have grow: "dirs_grow (as_files st) fs" .
        show ?thesis
        proof (cases "place_object E (up_path up) ?q (n, d) fs")
          case (Inl e)
          with assms(1) up none Inr nd dir grow show ?thesis by (auto simp: commit_upload_def Let_def)
        next
          case placed: (Inr fs')
          let ?st = "st\<lparr>as_files := fs', as_active := btree_insert u (up\<lparr>up_committed := Some (stored_as E st s)\<rparr>) (as_active st)\<rparr>"
          have r: "r = Inr (up_data up, stored_as E st s)" and st': "st' = ?st"
            using assms(1) up none Inr nd dir placed by (auto simp: commit_upload_def Let_def stored_as_def s(2,3))
          note kept = commit_placed[OF assms(2) up s(1) grow placed[unfolded s(2,3)] st']
          show ?thesis
            by (intro disjI2 exI[of _ up] exI[of _ s] exI[of _ fs'] conjI) (rule up none s(1) len r st' kept)+
        qed
      qed
    qed
  qed
qed

text \<open>What every operation keeps: the store, its objects, and the parts of other uploads.\<close>

definition keeps_files :: "string \<Rightarrow> 'm ArtifactStore \<Rightarrow> 'm ArtifactStore \<Rightarrow> bool" where
  "keeps_files u st st' \<longleftrightarrow> same_store st st' \<and> artifact_ok st'
     \<and> (\<forall>q x. q \<noteq> part_path st u \<longrightarrow> map_of (as_files st) q = Some x \<longrightarrow> map_of (as_files st') q = Some x)
     \<and> (\<forall>v. v \<noteq> u \<longrightarrow> map_of (as_active st') v = map_of (as_active st) v)"

lemma keeps_filesI:
  assumes "same_store st st'" "artifact_ok st'"
    "\<And>q x. q \<noteq> part_path st u \<Longrightarrow> map_of (as_files st) q = Some x \<Longrightarrow> map_of (as_files st') q = Some x"
    "\<And>v. v \<noteq> u \<Longrightarrow> map_of (as_active st') v = map_of (as_active st) v"
  shows "keeps_files u st st'"
  unfolding keeps_files_def using assms by blast

lemma artifact_ok_insert:
  assumes "artifact_ok st" "up_path up = part_path st u"
  shows "artifact_ok (st\<lparr>as_files := fs, as_active := btree_insert u up (as_active st)\<rparr>)"
proof -
  let ?st = "st\<lparr>as_files := fs, as_active := btree_insert u up (as_active st)\<rparr>"
  have paths: "up_path x = part_path ?st v" if "(v, x) \<in> set (btree_insert u up (as_active st))" for v x
    using that set_btree_insert[of u up "as_active st"] assms by (auto simp: artifact_ok_def part_path_def)
  show ?thesis using assms(1) paths by (auto simp: artifact_ok_def btree_insert_wf)
qed

lemma artifact_ok_files: "artifact_ok (st\<lparr>as_files := fs\<rparr>) = artifact_ok st"
  by (simp add: artifact_ok_def part_path_def)

lemma keeps_begin:
  assumes "artifact_ok st" shows "keeps_files u st (snd (begin_upload u data st))"
proof (cases "begin_upload u data st")
  case (Pair r st')
  show ?thesis
  proof (cases r)
    case (Inl e)
    with Pair begin_upload_Err[of u data st e st'] assms show ?thesis by (simp add: keeps_files_def same_store_def)
  next
    case (Inr i)
    with begin_upload_Ok[of u data st i st'] Pair have
      st': "st' = st\<lparr>as_files := set_node (part_path st u) (RegularFile []) (as_files st),
        as_active := btree_insert u \<lparr>up_data = data, up_path = part_path st u, up_committed = None\<rparr> (as_active st)\<rparr>" by simp
    have wf: "btree_wf (as_active st)" using assms by (simp add: artifact_ok_def)
    have "artifact_ok st'" unfolding st' by (rule artifact_ok_insert[OF assms]) simp
    then have "keeps_files u st st'"
      by (intro keeps_filesI) (simp_all add: st' same_store_def map_of_btree_insert[OF wf])
    with Pair show ?thesis by simp
  qed
qed

lemma keeps_append:
  assumes "artifact_ok st" shows "keeps_files u st (snd (append_upload E u offset b64 st))"
proof (cases "append_upload E u offset b64 st")
  case (Pair r st')
  show ?thesis
  proof (cases r)
    case (Inl e)
    with Pair append_upload_Err[of E u offset b64 st e st'] assms show ?thesis by (simp add: keeps_files_def same_store_def)
  next
    case (Inr i)
    with append_upload_Ok[of E u offset b64 st i st'] Pair assms obtain s where
      st': "st' = st\<lparr>as_files := set_node (part_path st u) (RegularFile s) (as_files st)\<rparr>" by blast
    have "keeps_files u st st'"
      by (intro keeps_filesI) (simp_all add: st' same_store_def artifact_ok_files assms)
    with Pair show ?thesis by simp
  qed
qed

lemma keeps_dirs:
  assumes "dirs_grow (as_files st) fs" "artifact_ok st" shows "keeps_files v st (st\<lparr>as_files := fs\<rparr>)"
proof -
  from assms(1) have "map_of fs q = Some x" if "map_of (as_files st) q = Some x" for q x using that unfolding dirs_grow_def by blast
  with assms(2) show ?thesis by (intro keeps_filesI) (simp_all add: same_store_def artifact_ok_files)
qed

lemma keeps_commit:
  assumes "artifact_ok st" shows "keeps_files u st (snd (commit_upload E u st))"
proof (cases "commit_upload E u st")
  case (Pair r st')
  have wf: "btree_wf (as_active st)" using assms by (simp add: artifact_ok_def)
  from commit_upload_cases[OF Pair assms] have "keeps_files u st st'"
  proof (elim disjE exE conjE)
    assume "st' = st"
    with assms show ?thesis by (simp add: keeps_files_def same_store_def)
  next
    fix fs assume grow: "dirs_grow (as_files st) fs" and st': "st' = st\<lparr>as_files := fs\<rparr>"
    show ?thesis unfolding st' by (rule keeps_dirs[OF grow assms])
  next
    fix up s fs
    assume up: "map_of (as_active st) u = Some up"
      and st': "st' = st\<lparr>as_files := fs, as_active := btree_insert u (up\<lparr>up_committed := Some (stored_as E st s)\<rparr>) (as_active st)\<rparr>"
      and kept: "\<forall>q x. q \<noteq> part_path st u \<longrightarrow> map_of (as_files st) q = Some x \<longrightarrow> map_of fs q = Some x"
    have "artifact_ok st'" unfolding st' by (rule artifact_ok_insert[OF assms]) (simp add: active_path[OF assms up])
    with kept show ?thesis by (intro keeps_filesI) (simp_all add: st' same_store_def map_of_btree_insert[OF wf])
  qed
  with Pair show ?thesis by simp
qed

lemma map_of_filter_key: "v \<noteq> u \<Longrightarrow> map_of (filter (\<lambda>(k, _). k \<noteq> u) m) v = map_of m v"
  by (induction m) auto

lemma keeps_finish:
  assumes "artifact_ok st" shows "keeps_files u st (finish_upload u st)"
proof -
  let ?m = "filter (\<lambda>(k, _). k \<noteq> u) (as_active st)"
  have "btree_wf ?m" using assms by (simp add: artifact_ok_def btree_wf_def sorted_wrt_map sorted_wrt_filter)
  then show ?thesis using assms
    by (intro keeps_filesI) (auto simp: finish_upload_def same_store_def artifact_ok_def part_path_def map_of_filter_key)
qed

fun op_upload :: "'m artifact_op \<Rightarrow> string" where
  "op_upload (BeginOp u _) = u"
| "op_upload (AppendOp u _ _) = u"
| "op_upload (CommitOp u) = u"
| "op_upload (FinishOp u) = u"

lemma keeps_apply: "artifact_ok st \<Longrightarrow> keeps_files (op_upload op) st (artifact_apply E op st)"
  by (cases op) (simp_all add: keeps_begin keeps_append keeps_commit keeps_finish)

section \<open>One upload\<close>

text \<open>The upload \<open>u\<close> was begun with \<open>data\<close> and has received the bytes \<open>s\<close>.\<close>

definition tracked :: "artifact_env \<Rightarrow> string \<Rightarrow> 'm ArtifactUploadBeginData \<Rightarrow> string \<Rightarrow> 'm ArtifactStore \<Rightarrow> bool" where
  "tracked E u data s st \<longleftrightarrow> artifact_ok st
     \<and> (\<exists>up. map_of (as_active st) u = Some up \<and> up_data up = data
         \<and> (case up_committed up of
              None \<Rightarrow> map_of (as_files st) (part_path st u) = Some (RegularFile s)
            | Some sa \<Rightarrow> sa = stored_as E st s \<and> holds_content E st s
                \<and> (\<forall>k. ub_expected_byte_length data = Some k \<longrightarrow> length s = k)))"

lemma same_store_stored: "same_store st st' \<Longrightarrow> stored_as E st' s = stored_as E st s"
  by (simp add: same_store_def stored_as_def)

lemma holds_content_kept:
  assumes "keeps_files u st st'" "artifact_ok st" "holds_content E st s" shows "holds_content E st' s"
proof -
  from assms(1) have same: "same_store st st'" by (simp add: keeps_files_def)
  from assms(3) obtain s' where s': "map_of (as_files st) (object_path st (ae_sha256_hex E s)) = Some (RegularFile s')"
    "ae_sha256_hex E s' = ae_sha256_hex E s" "length s' = length s" by (auto simp: holds_content_def)
  have "map_of (as_files st') (object_path st (ae_sha256_hex E s)) = Some (RegularFile s')"
    using assms(1) s'(1) object_not_part[OF assms(2)] unfolding keeps_files_def by blast
  with s' same_store_paths[OF same] show ?thesis by (auto simp: holds_content_def)
qed

lemma tracked_other:
  assumes "tracked E u data s st" "keeps_files v st st'" "v \<noteq> u" shows "tracked E u data s st'"
proof -
  from assms(1) obtain up where ok: "artifact_ok st" and up: "map_of (as_active st) u = Some up" "up_data up = data"
    and c: "case up_committed up of None \<Rightarrow> map_of (as_files st) (part_path st u) = Some (RegularFile s)
      | Some sa \<Rightarrow> sa = stored_as E st s \<and> holds_content E st s \<and> (\<forall>k. ub_expected_byte_length data = Some k \<longrightarrow> length s = k)"
    by (auto simp: tracked_def)
  from assms(2) have same: "same_store st st'" and ok': "artifact_ok st'" and act: "map_of (as_active st') u = Some up"
    and files: "map_of (as_files st) (part_path st u) = Some x \<Longrightarrow> map_of (as_files st') (part_path st u) = Some x" for x
    using up(1) assms(3) unfolding keeps_files_def by auto
  show ?thesis unfolding tracked_def
  proof (intro conjI exI[of _ up] ok' act up(2))
    show "case up_committed up of None \<Rightarrow> map_of (as_files st') (part_path st' u) = Some (RegularFile s)
      | Some sa \<Rightarrow> sa = stored_as E st' s \<and> holds_content E st' s \<and> (\<forall>k. ub_expected_byte_length data = Some k \<longrightarrow> length s = k)"
      using c files holds_content_kept[OF assms(2) ok] same_store_paths[OF same] same_store_stored[OF same] by (auto split: option.splits)
  qed
qed

lemma tracked_append:
  assumes "tracked E u data s st"
  shows "tracked E u data (s @ op_bytes E u (AppendOp u offset b64) st) (snd (append_upload E u offset b64 st))"
proof (cases "append_upload E u offset b64 st")
  case (Pair r st')
  show ?thesis
  proof (cases r)
    case (Inl e)
    with Pair append_upload_Err[of E u offset b64 st e st'] assms show ?thesis by simp
  next
    case (Inr i)
    have ok: "artifact_ok st" using assms by (simp add: tracked_def)
    from append_upload_Ok[OF Pair[unfolded Inr] ok] obtain up s' bytes where
      up: "map_of (as_active st) u = Some up" "up_committed up = None" "ae_decode E b64 = Some bytes"
      and s': "map_of (as_files st) (part_path st u) = Some (RegularFile s')"
      and st': "st' = st\<lparr>as_files := set_node (part_path st u) (RegularFile (s' @ bytes)) (as_files st)\<rparr>" by blast
    have "s' = s" "up_data up = data" using assms up s' by (auto simp: tracked_def)
    then have "tracked E u data (s @ bytes) st'"
      using ok up unfolding tracked_def by (simp add: st' artifact_ok_files part_path_def)
    then show ?thesis using Pair Inr up(3) by simp
  qed
qed

lemma tracked_commit:
  assumes "tracked E u data s st" "commit_upload E u st = (r, st')"
  shows "tracked E u data s st'"
    and "r = Inr (data', sa) \<Longrightarrow> data' = data \<and> sa = stored_as E st s \<and> holds_content E st' s
      \<and> (\<forall>k. ub_expected_byte_length data = Some k \<longrightarrow> length s = k)"
proof -
  have ok: "artifact_ok st" using assms by (simp add: tracked_def)
  have wf: "btree_wf (as_active st)" using ok by (simp add: artifact_ok_def)
  have ok': "artifact_ok st'" using keeps_commit[OF ok, of u E] assms(2) by (simp add: keeps_files_def)
  have "tracked E u data s st' \<and> (r = Inr (data', sa) \<longrightarrow> data' = data \<and> sa = stored_as E st s \<and> holds_content E st' s
      \<and> (\<forall>k. ub_expected_byte_length data = Some k \<longrightarrow> length s = k))"
    using commit_upload_cases[OF assms(2) ok]
  proof (elim disjE exE conjE)
    assume "st' = st" "\<forall>data sa. r = Inr (data, sa) \<longrightarrow> (\<exists>up. map_of (as_active st) u = Some up \<and> up_data up = data \<and> up_committed up = Some sa)"
    with assms(1) show ?thesis by (auto simp: tracked_def)
  next
    fix e fs assume r: "r = Inl e" and grow: "dirs_grow (as_files st) fs" and st': "st' = st\<lparr>as_files := fs\<rparr>"
    have "tracked E u data s st'" unfolding st' by (rule tracked_other[OF assms(1) keeps_dirs[OF grow ok, of "CHR ''x'' # u"]]) simp
    with r show ?thesis by simp
  next
    fix up s' fs
    assume up: "map_of (as_active st) u = Some up" "up_committed up = None"
      and s': "map_of (as_files st) (part_path st u) = Some (RegularFile s')"
      and len: "\<forall>k. ub_expected_byte_length (up_data up) = Some k \<longrightarrow> length s' = k"
      and r: "r = Inr (up_data up, stored_as E st s')"
      and st': "st' = st\<lparr>as_files := fs, as_active := btree_insert u (up\<lparr>up_committed := Some (stored_as E st s')\<rparr>) (as_active st)\<rparr>"
      and holds: "holds_content E st' s'"
    have eq: "s' = s" "up_data up = data" using assms(1) up s' by (auto simp: tracked_def)
    have act: "map_of (as_active st') u = Some (up\<lparr>up_committed := Some (stored_as E st s)\<rparr>)"
      unfolding st' by (simp add: map_of_btree_insert[OF wf] eq)
    have same: "stored_as E st' s = stored_as E st s" unfolding st' by (simp add: stored_as_def)
    have "tracked E u data s st'" unfolding tracked_def using ok' act holds len same by (simp add: eq)
    with r holds len show ?thesis by (simp add: eq)
  qed
  then show "tracked E u data s st'" and "r = Inr (data', sa) \<Longrightarrow> data' = data \<and> sa = stored_as E st s \<and> holds_content E st' s
      \<and> (\<forall>k. ub_expected_byte_length data = Some k \<longrightarrow> length s = k)" by blast+
qed

lemma tracked_apply:
  assumes "tracked E u data s st" "\<not> restarts u op"
  shows "tracked E u data (s @ op_bytes E u op st) (artifact_apply E op st)"
proof -
  have ok: "artifact_ok st" using assms(1) by (simp add: tracked_def)
  note keeps = keeps_apply[OF ok, of op E]
  show ?thesis
  proof (cases "op_upload op = u")
    case False
    with tracked_other[OF assms(1) keeps] show ?thesis by (cases op) auto
  next
    case True
    with assms tracked_append[OF assms(1)] tracked_commit(1)[OF assms(1) surjective_pairing] show ?thesis by (cases op) auto
  qed
qed

lemma tracked_run:
  "tracked E u data s st \<Longrightarrow> \<forall>op \<in> set ops. \<not> restarts u op \<Longrightarrow>
   tracked E u data (s @ uploaded_bytes E u ops st) (artifact_run E ops st)"
proof (induction ops arbitrary: s st)
  case (Cons op ops)
  from tracked_apply[OF Cons.prems(1)] Cons.prems(2) have "tracked E u data (s @ op_bytes E u op st) (artifact_apply E op st)" by simp
  from Cons.IH[OF this] Cons.prems(2) show ?case by (simp add: artifact_run_def)
qed (simp add: artifact_run_def)

lemma run_ok: "artifact_ok st \<Longrightarrow> artifact_ok (artifact_run E ops st)"
proof (induction ops arbitrary: st)
  case (Cons op ops)
  from keeps_apply[OF Cons.prems, of op E] have "artifact_ok (artifact_apply E op st)" by (simp add: keeps_files_def)
  from Cons.IH[OF this] show ?case by (simp add: artifact_run_def)
qed (simp add: artifact_run_def)

lemma content_kept_run:
  "artifact_ok st \<Longrightarrow> holds_content E st s \<Longrightarrow> holds_content E (artifact_run E ops st) s \<and> same_store st (artifact_run E ops st)"
proof (induction ops arbitrary: st)
  case (Cons op ops)
  let ?st = "artifact_apply E op st"
  note keeps = keeps_apply[OF Cons.prems(1), of op E]
  then have ok: "artifact_ok ?st" and same: "same_store st ?st" by (simp_all add: keeps_files_def)
  from Cons.IH[OF ok holds_content_kept[OF keeps Cons.prems]] same show ?case by (simp add: artifact_run_def same_store_def)
qed (simp add: artifact_run_def same_store_def)

lemma open_store_ok: "open_store E base provider fs = Inr st \<Longrightarrow> artifact_ok st"
  by (auto simp: open_store_def bindR_eq_Inr Let_def artifact_ok_def btree_wf_def split: if_splits)

lemma begin_tracked:
  assumes "begin_upload u data st = (Inr r, st')" "artifact_ok st" shows "tracked E u data [] st'"
proof -
  from begin_upload_Ok[OF assms(1)] have st': "st' = st\<lparr>as_files := set_node (part_path st u) (RegularFile []) (as_files st),
        as_active := btree_insert u \<lparr>up_data = data, up_path = part_path st u, up_committed = None\<rparr> (as_active st)\<rparr>" by simp
  have "artifact_ok st'" unfolding st' by (rule artifact_ok_insert[OF assms(2)]) simp
  moreover have "btree_wf (as_active st)" using assms(2) by (simp add: artifact_ok_def)
  ultimately show ?thesis by (simp add: tracked_def st' map_of_btree_insert part_path_def)
qed

section \<open>Downloads\<close>

text \<open>A client that reads chunk after chunk until the end of the file.\<close>

fun download :: "artifact_env \<Rightarrow> StoredArtifact \<Rightarrow> nat \<Rightarrow> 'm ArtifactStore \<Rightarrow> nat \<Rightarrow> nat \<Rightarrow> string option" where
  "download E sa max_bytes st 0 offset = None"
| "download E sa max_bytes st (Suc n) offset =
     (case read_artifact E (sa_provider sa) (sa_key sa) offset max_bytes st of
        Inl _ \<Rightarrow> None
      | Inr chunk \<Rightarrow> Option.bind (ae_decode E (dc_bytes_base64 chunk)) (\<lambda>bytes.
          if dc_eof chunk then Some bytes
          else map_option ((@) bytes) (download E sa max_bytes st n (dc_next_offset chunk))))"

lemma download_from:
  assumes content: "map_of (as_files st) (object_path st (ae_sha256_hex E s)) = Some (RegularFile c)"
    and key: "length (ae_sha256_hex E s) = 64" "list_all hex_digit (ae_sha256_hex E s)"
    and codec: "\<And>b. ae_decode E (ae_encode E b) = Some b"
    and m: "0 < m" "m \<le> MAX_ARTIFACT_CHUNK_BYTES"
    and "offset \<le> length c" "(length c - offset) div m < n"
  shows "download E (stored_as E st s) m st n offset = Some (drop offset c)"
  using assms(7,8)
proof (induction n arbitrary: offset)
  case (Suc n)
  let ?k = "min (length c - offset) m"
  have read: "read_artifact E (sa_provider (stored_as E st s)) (sa_key (stored_as E st s)) offset m st =
    Inr \<lparr>dc_bytes_base64 = ae_encode E (take ?k (drop offset c)), dc_byte_length = length c, dc_next_offset = offset + ?k,
         dc_eof = (offset + ?k = length c)\<rparr>"
    using content key m Suc.prems(1) by (simp add: read_artifact_def stored_as_def parse_key_def Let_def)
  show ?case
  proof (cases "length c - offset \<le> m")
    case True
    with read codec Suc.prems(1) show ?thesis by simp
  next
    case False
    then have k: "?k = m" "offset + m < length c" by auto
    have "(length c - (offset + m)) div m < n" using Suc.prems(2) False m(1) by (simp add: le_div_geq diff_diff_add)
    from Suc.IH[OF less_imp_le[OF k(2)] this] read codec k
    have "download E (stored_as E st s) m st (Suc n) offset = Some (take m (drop offset c) @ drop m (drop offset c))"
      by (simp add: add.commute)
    then show ?thesis by (simp only: append_take_drop_id)
  qed
qed simp

text \<open>
  C40. What was uploaded is what is downloaded. Open a store, let clients use it in any way, begin an
  upload, and let all clients go on, the upload itself being neither begun again nor finished. If its
  commit then succeeds, it reports the provider, the key, the digest and the length of exactly the
  bytes that were accepted for it, in the order of their offsets, and that length is the expected one
  if one was announced. From then on, whatever else happens to the store, a client that reads the
  stored artifact in chunks of any permitted size receives exactly those bytes, after at most one chunk more
  than their number divided by the size. Base64 round trips, the digest has 64 hexadecimal digits and
  no other content has the digest and length of this one.
\<close>
theorem artifact_round_trip:
  assumes "open_store E base provider fs = Inr st0"
    and "begin_upload u data (artifact_run E ops0 st0) = (Inr r, st1)"
    and "\<forall>op \<in> set ops. \<not> restarts u op" and "uploaded_bytes E u ops st1 = s"
    and "commit_upload E u (artifact_run E ops st1) = (Inr (data', stored), st2)"
    and "\<And>b. ae_decode E (ae_encode E b) = Some b"
    and "length (ae_sha256_hex E s) = 64" "list_all hex_digit (ae_sha256_hex E s)"
    and "\<And>c. ae_sha256_hex E c = ae_sha256_hex E s \<Longrightarrow> length c = length s \<Longrightarrow> c = s"
    and "0 < m" "m \<le> MAX_ARTIFACT_CHUNK_BYTES"
  shows "data' = data \<and> sa_key stored = ''sha256/'' @ ae_sha256_hex E s \<and> sa_byte_length stored = length s
    \<and> (\<forall>k. ub_expected_byte_length data = Some k \<longrightarrow> length s = k)
    \<and> download E stored m (artifact_run E ops' st2) (Suc (length s div m)) 0 = Some s"
proof -
  let ?st = "artifact_run E ops st1" let ?fin = "artifact_run E ops' st2"
  have "tracked E u data [] st1" by (rule begin_tracked[OF assms(2) run_ok[OF open_store_ok[OF assms(1)]]])
  from tracked_run[OF this assms(3)] have t: "tracked E u data s ?st" by (simp add: assms(4))
  note C = tracked_commit[OF t assms(5)]
  from C(2)[OF refl] have c: "data' = data" "stored = stored_as E ?st s" "holds_content E st2 s"
    "\<forall>k. ub_expected_byte_length data = Some k \<longrightarrow> length s = k" by blast+
  have ok: "artifact_ok st2" using C(1) by (simp add: tracked_def)
  from content_kept_run[OF ok c(3), of ops'] have holds: "holds_content E ?fin s" and same: "same_store st2 ?fin" by blast+
  then obtain c' where c': "map_of (as_files ?fin) (object_path ?fin (ae_sha256_hex E s)) = Some (RegularFile c')"
    "ae_sha256_hex E c' = ae_sha256_hex E s" "length c' = length s" by (auto simp: holds_content_def)
  have "c' = s" by (rule assms(9)[OF c'(2,3)])
  moreover have "stored = stored_as E ?fin s"
  proof -
    have "artifact_ok ?st" using t by (simp add: tracked_def)
    from keeps_commit[OF this, of u E] assms(5) have "same_store ?st st2" by (simp add: keeps_files_def)
    with same c(2) show ?thesis by (simp add: same_store_def stored_as_def)
  qed
  ultimately have "download E stored m ?fin (Suc (length s div m)) 0 = Some s"
    using download_from[OF c'(1) assms(7,8,6,10,11), of 0 "Suc (length s div m)"] by simp
  with c show ?thesis by (simp add: stored_as_def)
qed

section \<open>Example\<close>

definition sample_artifact_env :: artifact_env where
  "sample_artifact_env =
     \<lparr>ae_sha256_hex = (\<lambda>s. replicate 64 (if s = ''hi'' then CHR ''a'' else CHR ''b'')), ae_encode = (\<lambda>s. s), ae_decode = Some,
      ae_canonicalize = (\<lambda>_ p. p), ae_euid = 1\<rparr>"

definition sample_upload :: "unit ArtifactUploadBeginData" where
  "sample_upload = \<lparr>ub_id = None, ub_media_type = ''text/plain'', ub_name = None, ub_expected_byte_length = Some 2,
     ub_expected_digest = None, ub_metadata = ()\<rparr>"

definition sample_store :: "unit ArtifactStore" where
  "sample_store = projr (open_store sample_artifact_env [''srv''] ''node'' [])"

definition sample_begun :: "unit ArtifactStore" where
  "sample_begun = snd (begin_upload ''u'' sample_upload sample_store)"

definition sample_appends :: "unit artifact_op list" where
  "sample_appends = [AppendOp ''u'' 0 ''h'', AppendOp ''u'' 5 ''x'', AppendOp ''u'' 1 ''i'']"

definition sample_commit_upload :: "(unit ArtifactUploadBeginData \<times> StoredArtifact) aresult \<times> unit ArtifactStore" where
  "sample_commit_upload = commit_upload sample_artifact_env ''u'' (artifact_run sample_artifact_env sample_appends sample_begun)"

lemma sum_projr: "\<not> isl x \<Longrightarrow> x = Inr (projr x)"
  by (cases x) simp_all

theorem artifact_round_trip_witness:
  "\<exists>stored. fst sample_commit_upload = Inr (sample_upload, stored)
     \<and> download sample_artifact_env stored 1 (artifact_run sample_artifact_env [FinishOp ''u''] (snd sample_commit_upload)) 3 0 = Some ''hi''"
proof -
  let ?E = sample_artifact_env
  have opened: "open_store ?E [''srv''] ''node'' [] = Inr sample_store"
    unfolding sample_store_def by (rule sum_projr) code_simp
  have "\<not> isl (fst (begin_upload ''u'' sample_upload sample_store))" by code_simp
  then obtain r where "fst (begin_upload ''u'' sample_upload sample_store) = Inr r" using sum_projr by blast
  then have begun: "begin_upload ''u'' sample_upload (artifact_run ?E [] sample_store) = (Inr r, sample_begun)"
    by (simp add: artifact_run_def sample_begun_def prod_eq_iff)
  have only: "\<forall>op \<in> set sample_appends. \<not> restarts ''u'' op" by (simp add: sample_appends_def)
  have bytes: "uploaded_bytes ?E ''u'' sample_appends sample_begun = ''hi''" by code_simp
  have "\<not> isl (fst sample_commit_upload)" by code_simp
  then obtain data' stored where c: "fst sample_commit_upload = Inr (data', stored)" using sum_projr by (metis surj_pair)
  then have committed: "commit_upload ?E ''u'' (artifact_run ?E sample_appends sample_begun) = (Inr (data', stored), snd sample_commit_upload)"
    by (simp add: sample_commit_upload_def prod_eq_iff)
  have env: "ae_decode ?E (ae_encode ?E b) = Some b" "ae_sha256_hex ?E d = ae_sha256_hex ?E ''hi'' \<Longrightarrow> d = ''hi''" for b d
    by (auto simp: sample_artifact_env_def replicate_eq_replicate split: if_splits)
  have hash: "length (ae_sha256_hex ?E ''hi'') = 64" "list_all hex_digit (ae_sha256_hex ?E ''hi'')"
    by (simp_all add: sample_artifact_env_def list_all_iff hex_digit_def)
  have size: "(1::nat) \<le> MAX_ARTIFACT_CHUNK_BYTES" and three: "Suc (length ''hi'' div 1) = 3"
    by (simp_all add: MAX_ARTIFACT_CHUNK_BYTES_def)
  from artifact_round_trip[OF opened begun only bytes committed env(1) hash env(2) zero_less_one size, of "[FinishOp ''u'']"] c
  show ?thesis unfolding three by blast
qed

end
