(* ===== verification/Request_Frames.thy ===== *)
theory Request_Frames
  imports Patchouli_Prelude
begin

text \<open>
  The framing of requests, \<open>read_request_frame\<close> of \<open>crates/server/src/lib.rs\<close>: one request per line, at
  most \<open>MAX_REQUEST_BYTES\<close> bytes long. A buffered reader hands out the bytes of the connection
  in buffers of any size; it is the list of the buffers it will still return, an empty buffer
  being the end of the stream.
\<close>

section \<open>The reader\<close>

definition MAX_REQUEST_BYTES :: nat where
  "MAX_REQUEST_BYTES = 1024 * 1024"

datatype RequestFrame = FrameLine string | InvalidUtf8 | TooLarge

type_synonym buf_reader = "string list"

fun fill_buf :: "buf_reader \<Rightarrow> string" where
  "fill_buf [] = []"
| "fill_buf (b # bs) = b"

fun consume :: "nat \<Rightarrow> buf_reader \<Rightarrow> buf_reader" where
  "consume n [] = []"
| "consume n (b # bs) = (if drop n b = [] then bs else drop n b # bs)"

text \<open>\<open>String::from_utf8\<close>: the well-formed byte sequences of the Unicode standard.\<close>

definition byte_in :: "char \<Rightarrow> nat \<Rightarrow> nat \<Rightarrow> bool" where
  "byte_in c lo hi \<longleftrightarrow> lo \<le> of_char c \<and> (of_char c :: nat) \<le> hi"

fun valid_utf8 :: "string \<Rightarrow> bool" where
  "valid_utf8 [] = True"
| "valid_utf8 (a # s) =
     (if byte_in a 0x00 0x7F then valid_utf8 s
      else case s of
        [] \<Rightarrow> False
      | b # s \<Rightarrow>
          if byte_in a 0xC2 0xDF then byte_in b 0x80 0xBF \<and> valid_utf8 s
          else case s of
            [] \<Rightarrow> False
          | c # s \<Rightarrow>
              if byte_in a 0xE0 0xEF
              then byte_in b (if byte_in a 0xE0 0xE0 then 0xA0 else 0x80) (if byte_in a 0xED 0xED then 0x9F else 0xBF)
                   \<and> byte_in c 0x80 0xBF \<and> valid_utf8 s
              else case s of
                [] \<Rightarrow> False
              | d # s \<Rightarrow>
                  byte_in a 0xF0 0xF4
                  \<and> byte_in b (if byte_in a 0xF0 0xF0 then 0x90 else 0x80) (if byte_in a 0xF4 0xF4 then 0x8F else 0xBF)
                  \<and> byte_in c 0x80 0xBF \<and> byte_in d 0x80 0xBF \<and> valid_utf8 s)"

definition frame_from_bytes :: "string \<Rightarrow> RequestFrame" where
  "frame_from_bytes frame = (if valid_utf8 frame then FrameLine frame else InvalidUtf8)"

section \<open>Reading a frame\<close>

text \<open>The variables of the loop, and one iteration: it returns a frame or goes on.\<close>

record frame_loop =
  fl_reader :: buf_reader
  fl_frame :: string
  fl_too_large :: bool

definition finish_frame :: "frame_loop \<Rightarrow> RequestFrame" where
  "finish_frame s = (if fl_too_large s then TooLarge else frame_from_bytes (fl_frame s))"

definition newline_position :: "string \<Rightarrow> nat option" where
  "newline_position b = (let n = length (takeWhile (\<lambda>c. c \<noteq> CHR 0x0A) b) in if n < length b then Some n else None)"

definition frame_iteration :: "frame_loop \<Rightarrow> (RequestFrame option \<times> buf_reader) + frame_loop" where
  "frame_iteration s =
     (let buffer = fill_buf (fl_reader s) in
      if buffer = [] then
        Inl (if fl_frame s = [] \<and> \<not> fl_too_large s then None else Some (finish_frame s), fl_reader s)
      else
        (let newline = newline_position buffer;
             chunk_len = (case newline of Some n \<Rightarrow> n | None \<Rightarrow> length buffer);
             s = (if \<not> fl_too_large s \<and> saturating_add_u64 (length (fl_frame s)) chunk_len \<le> MAX_REQUEST_BYTES
                  then s\<lparr>fl_frame := fl_frame s @ take chunk_len buffer\<rparr>
                  else s\<lparr>fl_too_large := True, fl_frame := []\<rparr>);
             s = s\<lparr>fl_reader := consume (chunk_len + (if newline \<noteq> None then 1 else 0)) (fl_reader s)\<rparr>
         in if newline \<noteq> None then Inl (Some (finish_frame s), fl_reader s) else Inr s))"

lemma newline_position_Some: "newline_position b = Some n \<Longrightarrow> n < length b"
  by (auto simp: newline_position_def Let_def split: if_splits)

lemma consume_less: "fill_buf r \<noteq> [] \<Longrightarrow> 0 < n \<Longrightarrow> length (concat (consume n r)) < length (concat r)"
  by (cases r) auto

lemma frame_iteration_less:
  assumes "frame_iteration s = Inr s'" shows "length (concat (fl_reader s')) < length (concat (fl_reader s))"
proof -
  have ne: "fill_buf (fl_reader s) \<noteq> []" using assms by (auto simp: frame_iteration_def Let_def split: if_splits)
  with assms have "fl_reader s' = consume (length (fill_buf (fl_reader s))) (fl_reader s)"
    by (auto simp: frame_iteration_def Let_def split: if_splits option.splits)
  with consume_less[OF ne] ne show ?thesis by simp
qed

function frame_loop_run :: "frame_loop \<Rightarrow> RequestFrame option \<times> buf_reader" where
  "frame_loop_run s = (case frame_iteration s of Inl r \<Rightarrow> r | Inr s' \<Rightarrow> frame_loop_run s')"
  by auto
termination by (relation "measure (\<lambda>s. length (concat (fl_reader s)))") (simp_all add: frame_iteration_less)

declare frame_loop_run.simps [simp del]

definition read_request_frame :: "buf_reader \<Rightarrow> RequestFrame option \<times> buf_reader" where
  "read_request_frame r = frame_loop_run \<lparr>fl_reader = r, fl_frame = [], fl_too_large = False\<rparr>"

section \<open>Frames are lines\<close>

text \<open>Reference: the next frame of a byte sequence and what follows it.\<close>

definition line_of :: "string \<Rightarrow> string" where
  "line_of bytes = takeWhile (\<lambda>c. c \<noteq> CHR 0x0A) bytes"

definition frame_of_line :: "string \<Rightarrow> RequestFrame" where
  "frame_of_line line = (if MAX_REQUEST_BYTES < length line then TooLarge else frame_from_bytes line)"

definition next_frame :: "string \<Rightarrow> RequestFrame option \<times> string" where
  "next_frame bytes =
     (if bytes = [] then (None, []) else (Some (frame_of_line (line_of bytes)), drop (Suc (length (line_of bytes))) bytes))"

text \<open>The state of the loop after the bytes \<open>seen\<close> of the current line.\<close>

definition frame_seen :: "string \<Rightarrow> frame_loop \<Rightarrow> bool" where
  "frame_seen seen s \<longleftrightarrow> CHR 0x0A \<notin> set seen \<and> (fl_too_large s \<longleftrightarrow> MAX_REQUEST_BYTES < length seen)
     \<and> fl_frame s = (if fl_too_large s then [] else seen) \<and> [] \<notin> set (fl_reader s)"

lemma finish_frame_seen: "frame_seen seen s \<Longrightarrow> finish_frame s = frame_of_line seen"
  by (auto simp: frame_seen_def finish_frame_def frame_of_line_def)

lemma concat_consume: "n \<le> length (fill_buf r) \<Longrightarrow> concat (consume n r) = drop n (concat r)"
  by (cases r) (auto simp: )

lemma consume_nonempty: "[] \<notin> set r \<Longrightarrow> [] \<notin> set (consume n r)"
  by (cases r) (auto dest: sym)

lemma concat_fill_buf: "\<exists>rest. concat r = fill_buf r @ rest"
  by (cases r) auto

lemma add_chunk:
  assumes "frame_seen seen s" "CHR 0x0A \<notin> set chunk" "chunk_len = length chunk"
  shows "frame_seen (seen @ chunk)
    ((if \<not> fl_too_large s \<and> saturating_add_u64 (length (fl_frame s)) chunk_len \<le> MAX_REQUEST_BYTES
      then s\<lparr>fl_frame := fl_frame s @ chunk\<rparr> else s\<lparr>fl_too_large := True, fl_frame := []\<rparr>)\<lparr>fl_reader := consume n (fl_reader s)\<rparr>)"
proof -
  have "saturating_add_u64 a b \<le> MAX_REQUEST_BYTES \<longleftrightarrow> a + b \<le> MAX_REQUEST_BYTES" for a b
    by (auto simp: saturating_add_u64_def MAX_REQUEST_BYTES_def u64_max_def)
  with assms show ?thesis by (auto simp: frame_seen_def consume_nonempty)
qed

lemma newline_position_split:
  "newline_position b = Some n \<Longrightarrow> line_of (b @ rest) = take n b \<and> CHR 0x0A \<notin> set (take n b)"
  "newline_position b = None \<Longrightarrow> CHR 0x0A \<notin> set b"
proof -
  let ?P = "\<lambda>c. c \<noteq> CHR 0x0A"
  show "CHR 0x0A \<notin> set b" if "newline_position b = None"
  proof -
    have "length b \<le> length (takeWhile ?P b)" using that by (simp add: newline_position_def Let_def split: if_splits)
    then have "takeWhile ?P b = b" by (metis takeWhile_eq_take take_all)
    then show ?thesis by (auto simp: takeWhile_eq_all_conv)
  qed
  assume n: "newline_position b = Some n"
  then have w: "n = length (takeWhile ?P b)" "n < length b" by (auto simp: newline_position_def Let_def split: if_splits)
  then have t: "take n b = takeWhile ?P b" by (simp only: takeWhile_eq_take[symmetric])
  have "takeWhile ?P b \<noteq> b" using w by (metis less_irrefl)
  then have "\<exists>x \<in> set b. \<not> ?P x" by (auto simp: takeWhile_eq_all_conv)
  then have "takeWhile ?P (b @ rest) = takeWhile ?P b" by (auto intro: takeWhile_append1)
  then show "line_of (b @ rest) = take n b \<and> CHR 0x0A \<notin> set (take n b)"
    unfolding t line_of_def by (auto dest: set_takeWhileD)
qed

lemma line_of_append: "CHR 0x0A \<notin> set seen \<Longrightarrow> line_of (seen @ xs) = seen @ line_of xs"
  by (auto simp: line_of_def intro: takeWhile_append2)

lemma iteration_cases:
  assumes "frame_seen seen s"
  shows "(fill_buf (fl_reader s) = [] \<and> frame_iteration s = Inl (fst (next_frame seen), fl_reader s))
    \<or> (\<exists>n s'. newline_position (fill_buf (fl_reader s)) = Some n \<and> frame_iteration s = Inl (Some (finish_frame s'), fl_reader s')
         \<and> frame_seen (seen @ take n (fill_buf (fl_reader s))) s' \<and> fl_reader s' = consume (Suc n) (fl_reader s))
    \<or> (\<exists>s'. fill_buf (fl_reader s) \<noteq> [] \<and> newline_position (fill_buf (fl_reader s)) = None \<and> frame_iteration s = Inr s'
         \<and> frame_seen (seen @ fill_buf (fl_reader s)) s' \<and> fl_reader s' = consume (length (fill_buf (fl_reader s))) (fl_reader s))"
proof -
  let ?b = "fill_buf (fl_reader s)"
  let ?add = "\<lambda>k n. (if \<not> fl_too_large s \<and> saturating_add_u64 (length (fl_frame s)) k \<le> MAX_REQUEST_BYTES
      then s\<lparr>fl_frame := fl_frame s @ take k ?b\<rparr> else s\<lparr>fl_too_large := True, fl_frame := []\<rparr>)\<lparr>fl_reader := consume n (fl_reader s)\<rparr>"
  consider "?b = []" | n where "?b \<noteq> []" "newline_position ?b = Some n" | "?b \<noteq> []" "newline_position ?b = None" by fastforce
  then show ?thesis
  proof cases
    case 1
    have "line_of seen = seen" using assms by (auto simp: frame_seen_def line_of_def takeWhile_eq_all_conv)
    moreover have "fl_frame s = [] \<and> \<not> fl_too_large s \<longleftrightarrow> seen = []" using assms by (auto simp: frame_seen_def)
    ultimately show ?thesis using 1 finish_frame_seen[OF assms] by (simp add: frame_iteration_def Let_def next_frame_def)
  next
    case (2 n)
    have n: "n < length ?b" by (rule newline_position_Some[OF 2(2)])
    have nl: "CHR 0x0A \<notin> set (take n ?b)" using newline_position_split(1)[OF 2(2)] by blast
    have seen: "frame_seen (seen @ take n ?b) (?add n (Suc n))" by (rule add_chunk[OF assms nl]) (use n in simp)
    have "frame_iteration s = Inl (Some (finish_frame (?add n (Suc n))), fl_reader (?add n (Suc n)))"
      using 2 by (simp add: frame_iteration_def Let_def)
    then show ?thesis using 2(2) seen by (intro disjI2 disjI1 exI[of _ n] exI[of _ "?add n (Suc n)"] conjI) simp_all
  next
    case 3
    have nl: "CHR 0x0A \<notin> set ?b" by (rule newline_position_split(2)[OF 3(2)])
    then have nl': "CHR 0x0A \<notin> set (take (length ?b) ?b)" by simp
    have seen: "frame_seen (seen @ take (length ?b) ?b) (?add (length ?b) (length ?b))" by (rule add_chunk[OF assms nl']) simp
    have "frame_iteration s = Inr (?add (length ?b) (length ?b))" using 3 by (simp add: frame_iteration_def Let_def)
    then show ?thesis using 3 seen by (intro disjI2 exI[of _ "?add (length ?b) (length ?b)"] conjI) simp_all
  qed
qed

lemma loop_run_next_frame:
  assumes "frame_seen seen s"
  shows "\<exists>r. frame_loop_run s = (fst (next_frame (seen @ concat (fl_reader s))), r)
    \<and> concat r = snd (next_frame (seen @ concat (fl_reader s))) \<and> [] \<notin> set r"
  using assms
proof (induction s arbitrary: seen rule: frame_loop_run.induct)
  case (1 s)
  let ?b = "fill_buf (fl_reader s)" let ?r = "fl_reader s"
  have ok: "[] \<notin> set ?r" "CHR 0x0A \<notin> set seen" using "1.prems" by (auto simp: frame_seen_def)
  obtain rest where rest: "concat ?r = ?b @ rest" using concat_fill_buf by blast
  from iteration_cases[OF "1.prems"] show ?case
  proof (elim disjE exE conjE)
    assume b: "?b = []" and it: "frame_iteration s = Inl (fst (next_frame seen), ?r)"
    have "?r = []" using b ok(1) by (cases ?r) auto
    moreover have "line_of seen = seen" using ok(2) by (auto simp: line_of_def takeWhile_eq_all_conv)
    ultimately show ?thesis using it by (auto simp: frame_loop_run.simps[of s] next_frame_def)
  next
    fix n s'
    assume nl: "newline_position ?b = Some n" and it: "frame_iteration s = Inl (Some (finish_frame s'), fl_reader s')"
      and seen: "frame_seen (seen @ take n ?b) s'" and rd: "fl_reader s' = consume (Suc n) ?r"
    have n: "Suc n \<le> length ?b" using newline_position_Some[OF nl] by simp
    have line: "line_of (seen @ concat ?r) = seen @ take n ?b"
      unfolding line_of_append[OF ok(2)] rest using newline_position_split(1)[OF nl, of rest] by simp
    have "concat (fl_reader s') = drop (Suc n) (concat ?r)" unfolding rd by (rule concat_consume[OF n])
    moreover have "[] \<notin> set (fl_reader s')" using seen by (simp add: frame_seen_def)
    moreover have "concat ?r \<noteq> []" using rest n by auto
    ultimately show ?thesis
      using it finish_frame_seen[OF seen] line n by (simp add: frame_loop_run.simps[of s] next_frame_def)
  next
    fix s'
    assume it: "frame_iteration s = Inr s'" and seen: "frame_seen (seen @ ?b) s'" and rd: "fl_reader s' = consume (length ?b) ?r"
    have "seen @ concat ?r = (seen @ ?b) @ concat (fl_reader s')" unfolding rd using concat_consume[of "length ?b" ?r] rest by simp
    with "1.IH"[OF it seen] it show ?thesis by (simp add: frame_loop_run.simps[of s])
  qed
qed

text \<open>All frames of a connection, by the server and by the reference.\<close>

lemma read_request_frame_Ok:
  assumes "[] \<notin> set r"
  shows "\<exists>r'. read_request_frame r = (fst (next_frame (concat r)), r') \<and> concat r' = snd (next_frame (concat r)) \<and> [] \<notin> set r'"
  using loop_run_next_frame[of "[]" "\<lparr>fl_reader = r, fl_frame = [], fl_too_large = False\<rparr>"] assms
  by (simp add: read_request_frame_def frame_seen_def)

fun read_frames :: "nat \<Rightarrow> buf_reader \<Rightarrow> RequestFrame list option" where
  "read_frames 0 r = None"
| "read_frames (Suc n) r =
     (case read_request_frame r of
        (None, _) \<Rightarrow> Some []
      | (Some f, r') \<Rightarrow> map_option ((#) f) (read_frames n r'))"

function lines_of :: "string \<Rightarrow> string list" where
  "lines_of bytes = (if bytes = [] then [] else line_of bytes # lines_of (drop (Suc (length (line_of bytes))) bytes))"
  by auto
termination by (relation "measure length") auto

declare lines_of.simps [simp del]

lemma read_frames_lines:
  "[] \<notin> set r \<Longrightarrow> length (concat r) < n \<Longrightarrow> read_frames n r = Some (map frame_of_line (lines_of (concat r)))"
proof (induction n arbitrary: r)
  case (Suc n)
  from read_request_frame_Ok[OF Suc.prems(1)] obtain r' where
    rd: "read_request_frame r = (fst (next_frame (concat r)), r')" "concat r' = snd (next_frame (concat r))" "[] \<notin> set r'" by blast
  define c where "c = concat r"
  note rd = rd[folded c_def]
  show ?case unfolding c_def[symmetric]
  proof (cases "c = []")
    case True
    with rd show "read_frames (Suc n) r = Some (map frame_of_line (lines_of c))" by (simp add: next_frame_def lines_of.simps)
  next
    case False
    then have "length (concat r') < n" using rd(2) Suc.prems(2)[folded c_def] by (cases c) (auto simp: next_frame_def)
    from Suc.IH[OF rd(3) this] rd False show "read_frames (Suc n) r = Some (map frame_of_line (lines_of c))"
      by (simp add: next_frame_def lines_of.simps[of c])
  qed
qed simp

inductive loop_reaches :: "frame_loop \<Rightarrow> frame_loop \<Rightarrow> bool" where
  "loop_reaches s s"
| "loop_reaches s s' \<Longrightarrow> frame_iteration s' = Inr s'' \<Longrightarrow> loop_reaches s s''"

lemma loop_reaches_bounded:
  assumes "loop_reaches s s'" "length (fl_frame s) \<le> MAX_REQUEST_BYTES"
  shows "length (fl_frame s') \<le> MAX_REQUEST_BYTES"
  using assms
proof (induction rule: loop_reaches.induct)
  case (2 s s' s'')
  then have "length (fl_frame s') \<le> MAX_REQUEST_BYTES" by simp
  with "2.hyps"(2) show ?case
    by (auto simp: frame_iteration_def Let_def saturating_add_u64_def MAX_REQUEST_BYTES_def u64_max_def split: if_splits option.splits)
qed

text \<open>
  C7. Requests are framed by their lines, whatever the buffering. However the bytes of a connection are
  cut into buffers, reading frames until the end of the stream ends and yields exactly
  one frame per line, in order: the line itself when it is at most 1 MiB long and valid UTF-8, and
  an error frame otherwise, after which the next line is read intact. The buffer the
  frame is collected in never holds more than 1 MiB, however long a line is.
\<close>
theorem frames_are_lines:
  assumes "[] \<notin> set r"
  shows "read_frames (Suc (length (concat r))) r = Some (map frame_of_line (lines_of (concat r)))
    \<and> (\<forall>s. loop_reaches \<lparr>fl_reader = r, fl_frame = [], fl_too_large = False\<rparr> s \<longrightarrow> length (fl_frame s) \<le> MAX_REQUEST_BYTES)"
proof (intro conjI allI impI)
  show "read_frames (Suc (length (concat r))) r = Some (map frame_of_line (lines_of (concat r)))"
    by (rule read_frames_lines[OF assms]) simp
  show "length (fl_frame s) \<le> MAX_REQUEST_BYTES" if "loop_reaches \<lparr>fl_reader = r, fl_frame = [], fl_too_large = False\<rparr> s" for s
    using loop_reaches_bounded[OF that] by simp
qed

theorem frames_are_lines_witness:
  "read_frames 9 [''ab'', ''c'' @ [CHR 0x0A], [CHR 0xFF, CHR 0x0A], ''de''] = Some [FrameLine ''abc'', InvalidUtf8, FrameLine ''de'']"
proof -
  let ?r = "[''ab'', ''c'' @ [CHR 0x0A], [CHR 0xFF, CHR 0x0A], ''de'']"
  have ne: "[] \<notin> set ?r" by simp
  have nine: "Suc (length (concat ?r)) = 9" by simp
  have "map frame_of_line (lines_of (concat ?r)) = [FrameLine ''abc'', InvalidUtf8, FrameLine ''de'']" by code_simp
  with frames_are_lines[OF ne] show ?thesis unfolding nine by simp
qed

end
