(* ===== verification/Server_Session.thy ===== *)
theory Server_Session
  imports Engine_Sqlite Artifact_Store Request_Frames
begin

text \<open>
  The JSON-RPC sessions of the server, \<open>crates/server/src/lib.rs\<close>: error responses, the handlers behind
  \<open>dispatch\<close>, subscriptions and the loop of a connection. The derived decoders and encoders of the wire types
  (\<open>crates/backend/src/wire.rs\<close>, \<open>artifact.rs\<close>, \<open>fact.rs\<close>), the texts of error messages and the
  process identity enter as a \<open>server_env\<close>; each request has its own, with its clock readings and
  identifiers. Events of subscriptions are written by their own tasks and are not part of the loop.
\<close>

section \<open>Wire data\<close>

record HandshakeParams =
  hp_protocol_versions :: "nat list"
  hp_capabilities :: "string list"

record HandshakeResult =
  hr_protocol_version :: nat
  hr_version :: string
  hr_cluster_id :: string
  hr_node_id :: string
  hr_capabilities :: "string list"
  hr_max_request_bytes :: nat
  hr_max_artifact_chunk_bytes :: nat
  hr_max_result_items :: nat
  hr_idempotency_retention_seconds :: nat
  hr_change_retention_seconds :: nat

record ControlStatusResultData =
  cs_ready :: bool
  cs_provider :: string
  cs_generation :: nat
  cs_recovered_after_unclean_shutdown :: bool
  cs_pid :: nat
  cs_started_at_unix_ms :: nat
  cs_active_connections :: nat

datatype ArtifactPlacement =
    Managed string string
  | Indexed string string "string option"

record 'm ArtifactValue =
  av_media_type :: string
  av_name :: "string option"
  av_byte_length :: "nat option"
  av_digest :: "string option"
  av_placement :: ArtifactPlacement
  av_metadata :: 'm

record ArtifactUploadChunkData =
  uc_upload_id :: string
  uc_offset :: nat
  uc_bytes_base64 :: string

record ArtifactDownloadChunkData =
  dl_id :: string
  dl_version :: "string option"
  dl_offset :: nat
  dl_max_bytes :: nat

record ArtifactDownloadChunkResultData =
  dr_entity :: EntityVersion
  dr_offset :: nat
  dr_next_offset :: nat
  dr_eof :: bool
  dr_bytes_base64 :: string

datatype rpc_result =
    HandshakeDone HandshakeResult
  | StatusDone ControlStatusResultData
  | CheckpointDone
  | ShutdownAccepted
  | UploadBegun string nat
  | ChunkStored nat
  | Mutated MutationResult
  | EntityRead ReadEntityResult
  | Retrieved RetrieveEntitiesResult
  | Downloaded Meta ArtifactDownloadChunkResultData
  | Subscribed string string
  | Unsubscribed bool

record ('p, 'd, 'm) server_env =
  sv_engine :: "('p, 'd) engine_env"
  sv_artifacts :: artifact_env
  sv_clock :: "nat \<Rightarrow> nat option"
  sv_upload_id :: string
  sv_version :: string
  sv_cluster_id :: string
  sv_node_id :: string
  sv_provider_kind :: string
  sv_recovery :: ProviderRecovery
  sv_pid :: nat
  sv_started_at_unix_ms :: nat
  sv_active_connections :: nat
  sv_from_str :: "string \<Rightarrow> Value option"
  sv_result_json :: "rpc_result \<Rightarrow> Value"
  sv_decode_text :: "Value \<Rightarrow> string"
  sv_backend_text :: "BackendError \<Rightarrow> string"
  sv_artifact_text :: "ArtifactStoreError \<Rightarrow> string"
  sv_engine_text :: "EngineError \<Rightarrow> string"
  sv_handshake :: "Value \<Rightarrow> HandshakeParams option"
  sv_empty :: "Value \<Rightarrow> unit RpcParams option"
  sv_upload_begin :: "Value \<Rightarrow> 'm ArtifactUploadBeginData RpcParams option"
  sv_upload_chunk :: "Value \<Rightarrow> ArtifactUploadChunkData RpcParams option"
  sv_upload_commit :: "Value \<Rightarrow> string RpcParams option"
  sv_download_chunk :: "Value \<Rightarrow> ArtifactDownloadChunkData RpcParams option"
  sv_create :: "Value \<Rightarrow> CreateEntityData RpcParams option"
  sv_read :: "Value \<Rightarrow> ReadEntityData RpcParams option"
  sv_retrieve :: "Value \<Rightarrow> RetrieveEntitiesData RpcParams option"
  sv_update :: "Value \<Rightarrow> UpdateEntityData RpcParams option"
  sv_delete :: "Value \<Rightarrow> DeleteEntityData RpcParams option"
  sv_subscribe :: "Value \<Rightarrow> SubscribeChangesData RpcParams option"
  sv_unsubscribe :: "Value \<Rightarrow> string RpcParams option"
  sv_artifact_json :: "'m ArtifactValue \<Rightarrow> Value"
  sv_artifact_from :: "Value \<Rightarrow> 'm ArtifactValue option"

section \<open>Responses\<close>

datatype ProtocolErrorReason =
    PCursorExpired | PDeadlineExceeded | PForbidden | PIdempotencyConflict | PInvalidRequest | PNotFound | POverloaded
  | PUnauthenticated | PUnsupportedCapability | PVersionConflict | PWorkUnitExpired

fun reason_text :: "ProtocolErrorReason \<Rightarrow> string" where
  "reason_text PCursorExpired = ''CURSOR_EXPIRED''"
| "reason_text PDeadlineExceeded = ''DEADLINE_EXCEEDED''"
| "reason_text PForbidden = ''FORBIDDEN''"
| "reason_text PIdempotencyConflict = ''IDEMPOTENCY_CONFLICT''"
| "reason_text PInvalidRequest = ''INVALID_REQUEST''"
| "reason_text PNotFound = ''NOT_FOUND''"
| "reason_text POverloaded = ''OVERLOADED''"
| "reason_text PUnauthenticated = ''UNAUTHENTICATED''"
| "reason_text PUnsupportedCapability = ''UNSUPPORTED_CAPABILITY''"
| "reason_text PVersionConflict = ''VERSION_CONFLICT''"
| "reason_text PWorkUnitExpired = ''WORK_UNIT_EXPIRED''"

text \<open>The keys of an object are in their order, as in a \<open>BTreeMap\<close>.\<close>

definition rpc_success :: "('p, 'd, 'm) server_env \<Rightarrow> Value \<Rightarrow> rpc_result \<Rightarrow> Value" where
  "rpc_success S i result = Object [(''id'', i), (''jsonrpc'', String ''2.0''), (''result'', sv_result_json S result)]"

definition conflict_json :: "EntityVersionConflict \<Rightarrow> Value" where
  "conflict_json c =
     Object [(''current_versions'', Array (map String (vc_current_versions c))),
             (''ref'', Object [(''id'', String (er_id (vc_entity_ref c))), (''type'', String (er_entity_type (vc_entity_ref c)))])]"

definition error_data_json ::
  "ProtocolErrorReason \<Rightarrow> string list option \<Rightarrow> EntityVersionConflict list option \<Rightarrow> Value" where
  "error_data_json reason current_versions conflicts =
     Object ((case conflicts of None \<Rightarrow> [] | Some cs \<Rightarrow> [(''conflicts'', Array (map conflict_json cs))])
       @ (case current_versions of None \<Rightarrow> [] | Some vs \<Rightarrow> [(''current_versions'', Array (map String vs))])
       @ [(''reason'', String (reason_text reason))])"

definition rpc_protocol_error ::
  "Value \<Rightarrow> int \<Rightarrow> string \<Rightarrow> ProtocolErrorReason \<Rightarrow> string list option \<Rightarrow> EntityVersionConflict list option \<Rightarrow> Value" where
  "rpc_protocol_error i code message reason current_versions conflicts =
     Object [(''error'', Object [(''code'', Number (NegInt code)), (''data'', error_data_json reason current_versions conflicts),
                                 (''message'', String message)]),
             (''id'', i), (''jsonrpc'', String ''2.0'')]"

definition rpc_error :: "Value \<Rightarrow> int \<Rightarrow> string \<Rightarrow> Value" where
  "rpc_error i code message =
     (let reason =
        (if code = -32602 then Some PInvalidRequest
         else if code = -32001 then Some PUnauthenticated
         else if code = -32002 then Some PForbidden
         else if code = -32006 then Some PUnsupportedCapability
         else None)
      in case reason of
           Some reason \<Rightarrow> rpc_protocol_error i code message reason None None
         | None \<Rightarrow> Object [(''error'', Object [(''code'', Number (NegInt code)), (''message'', String message)]),
                           (''id'', i), (''jsonrpc'', String ''2.0'')])"

fun backend_error_code :: "BackendErrorReason \<Rightarrow> int \<times> ProtocolErrorReason" where
  "backend_error_code CursorExpired = (-32010, PCursorExpired)"
| "backend_error_code RequestDeadlineExceeded = (-32007, PDeadlineExceeded)"
| "backend_error_code IdempotencyConflict = (-32005, PIdempotencyConflict)"
| "backend_error_code InvalidRequest = (-32602, PInvalidRequest)"
| "backend_error_code NotFound = (-32003, PNotFound)"
| "backend_error_code Overloaded = (-32009, POverloaded)"
| "backend_error_code UnsupportedCapability = (-32006, PUnsupportedCapability)"
| "backend_error_code VersionConflict = (-32004, PVersionConflict)"
| "backend_error_code WorkUnitExpired = (-32011, PWorkUnitExpired)"

definition rpc_backend_error :: "('p, 'd, 'm) server_env \<Rightarrow> Value \<Rightarrow> BackendError \<Rightarrow> Value" where
  "rpc_backend_error S i e =
     (case backend_error_code (be_reason e) of (code, reason) \<Rightarrow>
        rpc_protocol_error i code (sv_backend_text S e) reason
          (if be_current_versions e = [] then None else Some (be_current_versions e))
          (if be_conflicts e = [] then None else Some (be_conflicts e)))"

definition rpc_artifact_error :: "('p, 'd, 'm) server_env \<Rightarrow> Value \<Rightarrow> ArtifactStoreError \<Rightarrow> Value" where
  "rpc_artifact_error S i e =
     (case e of
        InvalidArtifact \<Rightarrow> rpc_error i (-32602) (sv_artifact_text S e)
      | ArtifactNotFound \<Rightarrow> rpc_error i (-32003) ''artifact content was not found''
      | ArtifactIo _ \<Rightarrow> rpc_error i (-32603) (sv_artifact_text S e))"

section \<open>Dispatch\<close>

definition PROTOCOL_VERSION :: nat where
  "PROTOCOL_VERSION = 1"

definition SERVER_CAPABILITIES :: "string list" where
  "SERVER_CAPABILITIES = [''artifacts'', ''subscriptions'']"

definition ARTIFACT_ENTITY_TYPE :: string where
  "ARTIFACT_ENTITY_TYPE = ''artifact''"

text \<open>What requests change: the provider behind the engine and the artifact store.\<close>

record ('p, 'm) server_state =
  ss_provider :: 'p
  ss_store :: "'m ArtifactStore"

type_synonym ('p, 'm) response = "Value \<times> ('p, 'm) server_state"

definition with_params ::
  "('p, 'd, 'm) server_env \<Rightarrow> Value \<Rightarrow> 'a option \<Rightarrow> Value \<Rightarrow> ('a \<Rightarrow> ('p, 'm) server_state \<Rightarrow> ('p, 'm) response)
   \<Rightarrow> ('p, 'm) server_state \<Rightarrow> ('p, 'm) response" where
  "with_params S i decoded params handler st =
     (case decoded of None \<Rightarrow> (rpc_error i (-32602) (sv_decode_text S params), st) | Some p \<Rightarrow> handler p st)"

definition check_deadline :: "nat option \<Rightarrow> Meta \<Rightarrow> unit bresult" where
  "check_deadline clk meta = bindR (deadline_from_meta meta) (deadline_check_now clk)"

definition before_deadline ::
  "('p, 'd, 'm) server_env \<Rightarrow> nat \<Rightarrow> Value \<Rightarrow> Meta \<Rightarrow> (('p, 'm) server_state \<Rightarrow> ('p, 'm) response)
   \<Rightarrow> ('p, 'm) server_state \<Rightarrow> ('p, 'm) response" where
  "before_deadline S k i meta handler st =
     (case check_deadline (sv_clock S k) meta of Inl e \<Rightarrow> (rpc_backend_error S i e, st) | Inr _ \<Rightarrow> handler st)"

definition engine_reply ::
  "('p, 'd, 'm) server_env \<Rightarrow> Value \<Rightarrow> ('a \<Rightarrow> rpc_result) \<Rightarrow> ('p, 'a) engine_step \<Rightarrow> ('p, 'm) server_state \<Rightarrow> ('p, 'm) response" where
  "engine_reply S i f step st =
     (case step (ss_provider st) of
        (Inl e, p) \<Rightarrow> (rpc_backend_error S i e, st\<lparr>ss_provider := p\<rparr>)
      | (Inr r, p) \<Rightarrow> (rpc_success S i (f r), st\<lparr>ss_provider := p\<rparr>))"

definition handshake :: "('p, 'd, 'm) server_env \<Rightarrow> Value \<Rightarrow> Value \<Rightarrow> Value \<times> bool" where
  "handshake S i params =
     (case sv_handshake S params of
        None \<Rightarrow> (rpc_error i (-32602) (sv_decode_text S params), False)
      | Some hp \<Rightarrow>
          if PROTOCOL_VERSION \<notin> set (hp_protocol_versions hp)
          then (rpc_error i (-32006) ''protocol version 1 is required'', False)
          else
            (rpc_success S i (HandshakeDone
               \<lparr>hr_protocol_version = PROTOCOL_VERSION, hr_version = sv_version S, hr_cluster_id = sv_cluster_id S, hr_node_id = sv_node_id S,
                hr_capabilities = filter (\<lambda>c. c \<in> set (hp_capabilities hp)) SERVER_CAPABILITIES,
                hr_max_request_bytes = MAX_REQUEST_BYTES, hr_max_artifact_chunk_bytes = MAX_ARTIFACT_CHUNK_BYTES,
                hr_max_result_items = 100,
                hr_idempotency_retention_seconds = rp_idempotency_seconds (bc_retention (en_config (sv_engine S))),
                hr_change_retention_seconds = rp_changes_seconds (bc_retention (en_config (sv_engine S)))\<rparr>), True))"

definition control_status :: "('p, 'd, 'm) server_env \<Rightarrow> Value \<Rightarrow> unit RpcParams \<Rightarrow> ('p, 'm) server_state \<Rightarrow> ('p, 'm) response" where
  "control_status S i params =
     before_deadline S 0 i (rp_meta params) (\<lambda>st.
       (rpc_success S i (StatusDone
          \<lparr>cs_ready = True, cs_provider = sv_provider_kind S, cs_generation = generation (sv_recovery S),
           cs_recovered_after_unclean_shutdown = recovered_after_unclean_shutdown (sv_recovery S), cs_pid = sv_pid S,
           cs_started_at_unix_ms = sv_started_at_unix_ms S, cs_active_connections = sv_active_connections S\<rparr>), st))"

definition control_checkpoint :: "('p, 'd, 'm) server_env \<Rightarrow> Value \<Rightarrow> unit RpcParams \<Rightarrow> ('p, 'm) server_state \<Rightarrow> ('p, 'm) response" where
  "control_checkpoint S i params =
     before_deadline S 0 i (rp_meta params) (\<lambda>st.
       case engine_checkpoint (sv_engine S) (ss_provider st) of
         (Inr _, p) \<Rightarrow> before_deadline S 1 i (rp_meta params) (\<lambda>st. (rpc_success S i CheckpointDone, st)) (st\<lparr>ss_provider := p\<rparr>)
       | (Inl e, p) \<Rightarrow> (rpc_error i (-32603) (sv_engine_text S e), st\<lparr>ss_provider := p\<rparr>))"

definition artifact_upload_begin ::
  "('p, 'd, 'm) server_env \<Rightarrow> Value \<Rightarrow> 'm ArtifactUploadBeginData RpcParams \<Rightarrow> ('p, 'm) server_state \<Rightarrow> ('p, 'm) response" where
  "artifact_upload_begin S i params =
     before_deadline S 0 i (rp_meta params) (\<lambda>st.
       case begin_upload (sv_upload_id S) (rp_data params) (ss_store st) of
         (Inl e, store) \<Rightarrow> (rpc_artifact_error S i e, st\<lparr>ss_store := store\<rparr>)
       | (Inr u, store) \<Rightarrow> (rpc_success S i (UploadBegun u MAX_ARTIFACT_CHUNK_BYTES), st\<lparr>ss_store := store\<rparr>))"

definition artifact_upload_chunk ::
  "('p, 'd, 'm) server_env \<Rightarrow> Value \<Rightarrow> ArtifactUploadChunkData RpcParams \<Rightarrow> ('p, 'm) server_state \<Rightarrow> ('p, 'm) response" where
  "artifact_upload_chunk S i params =
     before_deadline S 0 i (rp_meta params) (\<lambda>st.
       case append_upload (sv_artifacts S) (uc_upload_id (rp_data params)) (uc_offset (rp_data params))
              (uc_bytes_base64 (rp_data params)) (ss_store st) of
         (Inl e, store) \<Rightarrow> (rpc_artifact_error S i e, st\<lparr>ss_store := store\<rparr>)
       | (Inr next_offset, store) \<Rightarrow> (rpc_success S i (ChunkStored next_offset), st\<lparr>ss_store := store\<rparr>))"

definition artifact_value :: "'m ArtifactUploadBeginData \<Rightarrow> StoredArtifact \<Rightarrow> 'm ArtifactValue" where
  "artifact_value upload stored =
     \<lparr>av_media_type = ub_media_type upload, av_name = ub_name upload, av_byte_length = Some (sa_byte_length stored),
      av_digest = Some (sa_digest stored), av_placement = Managed (sa_provider stored) (sa_key stored),
      av_metadata = ub_metadata upload\<rparr>"

definition artifact_upload_commit ::
  "('p, 'd, 'm) server_env \<Rightarrow> Value \<Rightarrow> string RpcParams \<Rightarrow> ('p, 'm) server_state \<Rightarrow> ('p, 'm) response" where
  "artifact_upload_commit S i params =
     before_deadline S 0 i (rp_meta params) (\<lambda>st.
       case commit_upload (sv_artifacts S) (rp_data params) (ss_store st) of
         (Inl e, store) \<Rightarrow> (rpc_artifact_error S i e, st\<lparr>ss_store := store\<rparr>)
       | (Inr (upload, stored), store) \<Rightarrow>
           before_deadline S 1 i (rp_meta params) (\<lambda>st.
             case create (sv_engine S)
                    \<lparr>rp_meta = rp_meta params,
                     rp_data = \<lparr>cd_entity_type = ARTIFACT_ENTITY_TYPE, cd_id = ub_id upload,
                                cd_value = sv_artifact_json S (artifact_value upload stored)\<rparr>\<rparr> (ss_provider st) of
               (Inl e, p) \<Rightarrow> (rpc_backend_error S i e, st\<lparr>ss_provider := p\<rparr>)
             | (Inr result, p) \<Rightarrow>
                 (rpc_success S i (Mutated result),
                  st\<lparr>ss_provider := p, ss_store := finish_upload (rp_data params) (ss_store st)\<rparr>))
             (st\<lparr>ss_store := store\<rparr>))"

datatype ArtifactDownloadError = DownloadBackend BackendError | DownloadStore ArtifactStoreError | DownloadInternal string

fun version_of :: "EntityVersion \<Rightarrow> string" where
  "version_of (EActive _ v _) = v"
| "version_of (EDeleted _ v) = v"

fun active_version :: "EntityVersion \<Rightarrow> bool" where
  "active_version (EActive _ _ _) = True"
| "active_version (EDeleted _ _) = False"

definition select_variant :: "string option \<Rightarrow> EntityVersion list \<Rightarrow> EntityVersion bresult" where
  "select_variant version variants =
     (case version of
        Some v \<Rightarrow> ok_or (find (\<lambda>e. active_version e \<and> version_of e = v) variants) (backend_error_new NotFound)
      | None \<Rightarrow>
          if length variants = 1 then ok_or (find active_version variants) (backend_error_new NotFound)
          else Err (version_conflict (map version_of variants)))"

definition key_digest :: "string \<Rightarrow> string option" where
  "key_digest key = (if take 7 key = ''sha256/'' then Some (''sha256:'' @ drop 7 key) else None)"

text \<open>A selected variant is active; the branch for a deleted one is unreachable.\<close>

definition read_managed ::
  "('p, 'd, 'm) server_env \<Rightarrow> ArtifactDownloadChunkData \<Rightarrow> EntityVersion \<Rightarrow> 'm ArtifactStore \<Rightarrow> ArtifactDownloadError + DownloadChunk" where
  "read_managed S d entity store =
     (case entity of
        EDeleted _ _ \<Rightarrow> Err (DownloadInternal ''deleted variants are filtered above'')
      | EActive _ _ v \<Rightarrow>
          bindR (ok_or (sv_artifact_from S v) (DownloadInternal (sv_decode_text S v))) (\<lambda>value.
          case av_placement value of
            Indexed _ _ _ \<Rightarrow> Err (DownloadBackend (backend_error_new UnsupportedCapability))
          | Managed provider key \<Rightarrow>
              if provider \<noteq> as_provider store then Err (DownloadBackend (backend_error_new UnsupportedCapability))
              else
                bindR (map_err DownloadStore (read_artifact (sv_artifacts S) provider key (dl_offset d) (dl_max_bytes d) store)) (\<lambda>chunk.
                  if av_byte_length value \<noteq> Some (dc_byte_length chunk) \<or> av_digest value \<noteq> key_digest key
                  then Err (DownloadInternal ''managed artifact descriptor does not match stored content'') else Ok chunk)))"

definition backendE :: "'a bresult \<Rightarrow> 'p \<Rightarrow> (ArtifactDownloadError + 'a) \<times> 'p" where
  "backendE r = liftE (map_err DownloadBackend r)"

definition download_artifact_chunk ::
  "('p, 'd, 'm) server_env \<Rightarrow> ArtifactDownloadChunkData RpcParams \<Rightarrow> 'm ArtifactStore \<Rightarrow> 'p
   \<Rightarrow> (ArtifactDownloadError + Meta \<times> ArtifactDownloadChunkResultData) \<times> 'p" where
  "download_artifact_chunk S params store =
     (let d = rp_data params; meta = rp_meta params in
      bindE (backendE (deadline_from_meta meta)) (\<lambda>deadline.
      bindE (backendE (deadline_check_now (sv_clock S 0) deadline)) (\<lambda>_.
      bindE (\<lambda>p. case engine_read (sv_engine S)
                      \<lparr>rp_meta = meta, rp_data = \<lparr>rd_entity_ref = \<lparr>er_entity_type = ARTIFACT_ENTITY_TYPE, er_id = dl_id d\<rparr>\<rparr>\<rparr> p of
                   (r, p') \<Rightarrow> (map_err DownloadBackend r, p')) (\<lambda>read.
      bindE (backendE (deadline_check_now (sv_clock S 1) deadline)) (\<lambda>_.
      bindE (backendE (select_variant (dl_version d) (rs_variants (rr_data read)))) (\<lambda>entity.
      bindE (liftE (read_managed S d entity store)) (\<lambda>chunk.
      bindE (backendE (deadline_check_now (sv_clock S 2) deadline)) (\<lambda>_.
        liftE (Ok (rr_meta read,
          \<lparr>dr_entity = entity, dr_offset = dl_offset d, dr_next_offset = dc_next_offset chunk, dr_eof = dc_eof chunk,
           dr_bytes_base64 = dc_bytes_base64 chunk\<rparr>))))))))))"

definition artifact_download_chunk ::
  "('p, 'd, 'm) server_env \<Rightarrow> Value \<Rightarrow> ArtifactDownloadChunkData RpcParams \<Rightarrow> ('p, 'm) server_state \<Rightarrow> ('p, 'm) response" where
  "artifact_download_chunk S i params st =
     (case download_artifact_chunk S params (ss_store st) (ss_provider st) of (r, p) \<Rightarrow>
        (case r of
           Inr (meta, result) \<Rightarrow> rpc_success S i (Downloaded meta result)
         | Inl (DownloadBackend e) \<Rightarrow> rpc_backend_error S i e
         | Inl (DownloadStore e) \<Rightarrow> rpc_artifact_error S i e
         | Inl (DownloadInternal message) \<Rightarrow> rpc_error i (-32603) message,
         st\<lparr>ss_provider := p\<rparr>))"

text \<open>The methods behind the handshake; the flag asks the server to shut down.\<close>

definition is_request_id :: "Value \<Rightarrow> bool" where
  "is_request_id i = (case i of Number _ \<Rightarrow> True | String _ \<Rightarrow> True | _ \<Rightarrow> False)"

definition control_shutdown :: "('p, 'd, 'm) server_env \<Rightarrow> Value \<Rightarrow> Value \<Rightarrow> Value \<times> bool" where
  "control_shutdown S i params =
     (case sv_empty S params of
        None \<Rightarrow> (rpc_error i (-32602) (sv_decode_text S params), False)
      | Some p \<Rightarrow>
          (case check_deadline (sv_clock S 0) (rp_meta p) of
             Inl e \<Rightarrow> (rpc_backend_error S i e, False)
           | Inr _ \<Rightarrow> (rpc_success S i ShutdownAccepted, True)))"

definition dispatch_method ::
  "('p, 'd, 'm) server_env \<Rightarrow> string \<Rightarrow> Value \<Rightarrow> Value \<Rightarrow> ('p, 'm) server_state \<Rightarrow> ('p, 'm) response" where
  "dispatch_method S method_name i params =
     (let En = sv_engine S in
      if method_name = ''patchouli.control.status@1'' then with_params S i (sv_empty S params) params (control_status S i)
      else if method_name = ''patchouli.control.checkpoint@1'' then with_params S i (sv_empty S params) params (control_checkpoint S i)
      else if method_name = ''patchouli.artifact.upload.begin@1'' then with_params S i (sv_upload_begin S params) params (artifact_upload_begin S i)
      else if method_name = ''patchouli.artifact.upload.chunk@1'' then with_params S i (sv_upload_chunk S params) params (artifact_upload_chunk S i)
      else if method_name = ''patchouli.artifact.upload.commit@1'' then with_params S i (sv_upload_commit S params) params (artifact_upload_commit S i)
      else if method_name = ''patchouli.artifact.download.chunk@1'' then with_params S i (sv_download_chunk S params) params (artifact_download_chunk S i)
      else if method_name = ''patchouli.entity.create@1'' then with_params S i (sv_create S params) params (\<lambda>p. engine_reply S i Mutated (create En p))
      else if method_name = ''patchouli.entity.read@1'' then with_params S i (sv_read S params) params (\<lambda>p. engine_reply S i EntityRead (engine_read En p))
      else if method_name = ''patchouli.entity.retrieve@1'' then with_params S i (sv_retrieve S params) params (\<lambda>p. engine_reply S i Retrieved (retrieve En p))
      else if method_name = ''patchouli.entity.update@1'' then with_params S i (sv_update S params) params (\<lambda>p. engine_reply S i Mutated (update En p))
      else if method_name = ''patchouli.entity.delete@1'' then with_params S i (sv_delete S params) params (\<lambda>p. engine_reply S i Mutated (delete En p))
      else (\<lambda>st. (rpc_error i (-32601) ''method not found'', st)))"

definition request_id :: "(string \<times> Value) list \<Rightarrow> Value" where
  "request_id m = (case map_of m ''id'' of None \<Rightarrow> Null | Some i \<Rightarrow> i)"

definition request_params :: "(string \<times> Value) list \<Rightarrow> Value" where
  "request_params m = (case map_of m ''params'' of None \<Rightarrow> Object [] | Some v \<Rightarrow> v)"

definition well_formed_request :: "(string \<times> Value) list \<Rightarrow> bool" where
  "well_formed_request m \<longleftrightarrow> map_of m ''jsonrpc'' = Some (String ''2.0'') \<and> is_request_id (request_id m)"

definition dispatch ::
  "('p, 'd, 'm) server_env \<Rightarrow> string \<Rightarrow> bool \<Rightarrow> ('p, 'm) server_state \<Rightarrow> (Value \<times> bool) \<times> bool \<times> ('p, 'm) server_state" where
  "dispatch S line handshaken st =
     (case sv_from_str S line of
        None \<Rightarrow> ((rpc_error Null (-32700) ''parse error'', False), handshaken, st)
      | Some request \<Rightarrow>
          (case as_object request of
             None \<Rightarrow> ((rpc_error Null (-32600) ''invalid request'', False), handshaken, st)
           | Some m \<Rightarrow>
               let i = request_id m in
               if \<not> well_formed_request m then ((rpc_error i (-32600) ''invalid request'', False), handshaken, st)
               else case Option.bind (map_of m ''method'') as_str of
                 None \<Rightarrow> ((rpc_error i (-32600) ''invalid request'', False), handshaken, st)
               | Some method_name \<Rightarrow>
                   let params = request_params m in
                   if method_name = ''patchouli.protocol.handshake@1'' then
                     (case handshake S i params of (r, ok) \<Rightarrow> ((r, False), handshaken \<or> ok, st))
                   else if \<not> handshaken then ((rpc_error i (-32001) ''handshake is required'', False), handshaken, st)
                   else if method_name = ''patchouli.control.shutdown@1'' then (control_shutdown S i params, handshaken, st)
                   else (case dispatch_method S method_name i params st of (r, st) \<Rightarrow> ((r, False), handshaken, st))))"

section \<open>Connections\<close>

record connection =
  co_handshaken :: bool
  co_subscriptions :: "(string \<times> ChangeSubscription) list"
  co_next_subscription_id :: nat

definition fresh_connection :: connection where
  "fresh_connection = \<lparr>co_handshaken = False, co_subscriptions = [], co_next_subscription_id = 1\<rparr>"

definition unsubscribe ::
  "('p, 'd, 'm) server_env \<Rightarrow> Value \<Rightarrow> Value \<Rightarrow> connection \<Rightarrow> Value \<times> connection" where
  "unsubscribe S i params c =
     (case sv_unsubscribe S params of
        None \<Rightarrow> (rpc_error i (-32602) (sv_decode_text S params), c)
      | Some p \<Rightarrow>
          (case check_deadline (sv_clock S 0) (rp_meta p) of
             Inl e \<Rightarrow> (rpc_backend_error S i e, c)
           | Inr _ \<Rightarrow>
               (rpc_success S i (Unsubscribed (map_of (co_subscriptions c) (rp_data p) \<noteq> None)),
                c\<lparr>co_subscriptions := filter (\<lambda>(k, _). k \<noteq> rp_data p) (co_subscriptions c)\<rparr>)))"

definition subscribe_connection ::
  "('p, 'd, 'm) server_env \<Rightarrow> Value \<Rightarrow> Value \<Rightarrow> connection \<Rightarrow> ('p, 'm) server_state \<Rightarrow> Value \<times> connection \<times> ('p, 'm) server_state" where
  "subscribe_connection S i params c st =
     (case sv_subscribe S params of
        None \<Rightarrow> (rpc_error i (-32602) (sv_decode_text S params), c, st)
      | Some p \<Rightarrow>
          (case subscribe (sv_engine S) p (ss_provider st) of
             (Inl e, q) \<Rightarrow> (rpc_backend_error S i e, c, st\<lparr>ss_provider := q\<rparr>)
           | (Inr sub, q) \<Rightarrow>
               let sid = ''subscription-'' @ show_u64 (co_next_subscription_id c) in
               (rpc_success S i (Subscribed sid (show_u64 (su_cursor sub))),
                c\<lparr>co_next_subscription_id := co_next_subscription_id c + 1,
                   co_subscriptions := btree_insert sid sub (co_subscriptions c)\<rparr>,
                st\<lparr>ss_provider := q\<rparr>)))"

text \<open>\<open>None\<close> leaves the line to \<open>dispatch\<close>.\<close>

definition handle_subscription ::
  "('p, 'd, 'm) server_env \<Rightarrow> string \<Rightarrow> connection \<Rightarrow> ('p, 'm) server_state
   \<Rightarrow> (Value \<times> connection \<times> ('p, 'm) server_state) option" where
  "handle_subscription S line c st =
     Option.bind (sv_from_str S line) (\<lambda>request.
     Option.bind (as_object request) (\<lambda>m.
     Option.bind (Option.bind (map_of m ''method'') as_str) (\<lambda>method_name.
       if method_name \<noteq> ''patchouli.changes.subscribe@1'' \<and> method_name \<noteq> ''patchouli.changes.unsubscribe@1'' then None
       else if \<not> well_formed_request m then None
       else if method_name = ''patchouli.changes.unsubscribe@1''
         then (case unsubscribe S (request_id m) (request_params m) c of (r, c) \<Rightarrow> Some (r, c, st))
         else Some (subscribe_connection S (request_id m) (request_params m) c st))))"

text \<open>One iteration of \<open>serve\<close>: the response it writes, and whether the loop ends.\<close>

definition serve_frame ::
  "('p, 'd, 'm) server_env \<Rightarrow> RequestFrame \<Rightarrow> connection \<Rightarrow> ('p, 'm) server_state
   \<Rightarrow> Value \<times> bool \<times> connection \<times> ('p, 'm) server_state" where
  "serve_frame S frame c st =
     (case frame of
        InvalidUtf8 \<Rightarrow> (rpc_error Null (-32700) ''parse error'', False, c, st)
      | TooLarge \<Rightarrow> (rpc_error Null (-32600) ''request exceeds server limit'', False, c, st)
      | FrameLine line \<Rightarrow>
          (case (if co_handshaken c then handle_subscription S line c st else None) of
             Some (r, c, st) \<Rightarrow> (r, False, c, st)
           | None \<Rightarrow>
               (case dispatch S line (co_handshaken c) st of ((r, stop), handshaken, st) \<Rightarrow>
                  (r, stop, c\<lparr>co_handshaken := handshaken\<rparr>, st))))"

fun serve ::
  "(('p, 'd, 'm) server_env \<times> RequestFrame) list \<Rightarrow> connection \<Rightarrow> ('p, 'm) server_state
   \<Rightarrow> Value list \<times> bool \<times> connection \<times> ('p, 'm) server_state" where
  "serve [] c st = ([], False, c, st)"
| "serve ((S, frame) # requests) c st =
     (case serve_frame S frame c st of
        (r, True, c, st) \<Rightarrow> ([r], True, c, st)
      | (r, False, c, st) \<Rightarrow> (case serve requests c st of (rs, rest) \<Rightarrow> (r # rs, rest)))"

section \<open>Every request is answered\<close>

text \<open>A response to a request with the identifier \<open>i\<close>: a result or an error, never both, and no notification.\<close>

fun responds :: "Value \<Rightarrow> Value \<Rightarrow> bool" where
  "responds i (Object m) \<longleftrightarrow> map_of m ''id'' = Some i \<and> map_of m ''jsonrpc'' = Some (String ''2.0'')
     \<and> map_of m ''method'' = None \<and> (map_of m ''result'' = None) \<noteq> (map_of m ''error'' = None)"
| "responds i _ \<longleftrightarrow> False"

fun is_error :: "Value \<Rightarrow> bool" where
  "is_error (Object m) \<longleftrightarrow> map_of m ''error'' \<noteq> None"
| "is_error _ \<longleftrightarrow> False"

lemma responses [simp]:
  "responds i (rpc_success S i x)" "responds i (rpc_error i code message)" "responds i (rpc_backend_error S i e)"
  "responds i (rpc_artifact_error S i a)" "is_error (rpc_error i code message)"
  by (simp_all add: rpc_success_def rpc_error_def rpc_backend_error_def rpc_artifact_error_def rpc_protocol_error_def Let_def
      split: prod.split ArtifactStoreError.split)

lemma with_params_responds:
  "(\<And>p st. responds i (fst (h p st))) \<Longrightarrow> responds i (fst (with_params S i decoded params h st))"
  by (simp add: with_params_def split: option.split)

lemma before_deadline_responds:
  "(\<And>st. responds i (fst (h st))) \<Longrightarrow> responds i (fst (before_deadline S k i meta h st))"
  by (simp add: before_deadline_def split: sum.split)

lemma engine_reply_responds: "responds i (fst (engine_reply S i f step st))"
  by (simp add: engine_reply_def split: prod.split sum.split)

lemma handlers_respond:
  "responds i (fst (control_status S i p1 st))" "responds i (fst (control_checkpoint S i p1 st))"
  "responds i (fst (artifact_upload_begin S i p2 st))" "responds i (fst (artifact_upload_chunk S i p3 st))"
  "responds i (fst (artifact_upload_commit S i p4 st))" "responds i (fst (artifact_download_chunk S i p5 st))"
  by (auto simp: control_status_def control_checkpoint_def artifact_upload_begin_def artifact_upload_chunk_def
      artifact_upload_commit_def artifact_download_chunk_def intro!: before_deadline_responds split: prod.split sum.split ArtifactDownloadError.split)

lemma dispatch_method_responds: "responds i (fst (dispatch_method S method_name i params st))"
  by (simp add: dispatch_method_def Let_def with_params_responds handlers_respond engine_reply_responds)

lemma handshake_responds: "responds i (fst (handshake S i params))"
  by (simp add: handshake_def split: option.split)

lemma control_shutdown_responds: "responds i (fst (control_shutdown S i params))"
  by (simp add: control_shutdown_def split: option.split sum.split)

text \<open>The identifier a frame is answered with.\<close>

definition frame_id :: "('p, 'd, 'm) server_env \<Rightarrow> RequestFrame \<Rightarrow> Value" where
  "frame_id S frame =
     (case frame of
        FrameLine line \<Rightarrow> (case Option.bind (sv_from_str S line) as_object of None \<Rightarrow> Null | Some m \<Rightarrow> request_id m)
      | _ \<Rightarrow> Null)"

lemma dispatch_responds: "responds (frame_id S (FrameLine line)) (fst (fst (dispatch S line handshaken st)))"
proof (cases "Option.bind (sv_from_str S line) as_object")
  case None
  then show ?thesis by (auto simp: dispatch_def frame_id_def split: option.split)
next
  case (Some m)
  have cases: "responds i (fst (fst (case handshake S i params of (r, ok) \<Rightarrow> ((r, False), handshaken \<or> ok, st))))"
    "responds i (fst (fst (case dispatch_method S name i params st of (r, st) \<Rightarrow> ((r, False), hs, st))))" for i params name hs
    using handshake_responds[of i S params] dispatch_method_responds[of i S name params st]
    by (cases "handshake S i params"; cases "dispatch_method S name i params st"; simp)+
  from Some obtain v where "sv_from_str S line = Some v" "as_object v = Some m" by (auto simp: bind_eq_Some_conv)
  with Some show ?thesis
    by (auto simp: dispatch_def frame_id_def Let_def cases control_shutdown_responds split: option.split)
qed

lemma handle_subscription_responds:
  "handle_subscription S line c st = Some (r, c', st') \<Longrightarrow> responds (frame_id S (FrameLine line)) r"
  by (auto simp: handle_subscription_def frame_id_def bind_eq_Some_conv unsubscribe_def subscribe_connection_def Let_def
      split: if_splits option.splits sum.splits prod.splits)

lemma serve_frame_responds:
  assumes "serve_frame S frame c st = (r, stop, c', st')" shows "responds (frame_id S frame) r"
proof (cases frame)
  case (FrameLine line)
  show ?thesis
  proof (cases "if co_handshaken c then handle_subscription S line c st else None")
    case None
    with assms FrameLine dispatch_responds[of S line "co_handshaken c" st] show ?thesis
      by (cases "dispatch S line (co_handshaken c) st") (auto simp: serve_frame_def split: prod.splits)
  next
    case (Some x)
    then have "handle_subscription S line c st = Some (r, c', st')"
      using assms FrameLine by (cases x) (auto simp: serve_frame_def split: if_splits)
    with handle_subscription_responds FrameLine show ?thesis by blast
  qed
qed (use assms in \<open>auto simp: serve_frame_def frame_id_def\<close>)

section \<open>The handshake comes first\<close>

definition accepts_handshake :: "('p, 'd, 'm) server_env \<Rightarrow> RequestFrame \<Rightarrow> bool" where
  "accepts_handshake S frame \<longleftrightarrow>
     (\<exists>line m hp. frame = FrameLine line \<and> Option.bind (sv_from_str S line) as_object = Some m \<and> well_formed_request m
        \<and> Option.bind (map_of m ''method'') as_str = Some ''patchouli.protocol.handshake@1''
        \<and> sv_handshake S (request_params m) = Some hp \<and> PROTOCOL_VERSION \<in> set (hp_protocol_versions hp))"

lemma dispatch_before_handshake:
  assumes "dispatch S line False st = ((r, stop), handshaken, st')"
  shows "\<not> stop \<and> st' = st \<and> handshaken = accepts_handshake S (FrameLine line) \<and> (\<not> handshaken \<longrightarrow> is_error r)"
  using assms
  by (auto simp: dispatch_def Let_def accepts_handshake_def handshake_def split: option.splits if_splits)

lemma frame_before_handshake:
  assumes "serve_frame S frame c st = (r, stop, c', st')" "\<not> co_handshaken c"
  shows "\<not> stop \<and> st' = st \<and> c' = c\<lparr>co_handshaken := accepts_handshake S frame\<rparr> \<and> (\<not> accepts_handshake S frame \<longrightarrow> is_error r)"
proof (cases frame)
  case (FrameLine line)
  obtain x hs y where d: "dispatch S line False st = (x, hs, y)" by (cases "dispatch S line False st")
  with assms FrameLine have "x = (r, stop)" "c' = c\<lparr>co_handshaken := hs\<rparr>" "y = st'"
    by (auto simp: serve_frame_def split: prod.splits)
  with dispatch_before_handshake[of S line st r stop hs st'] d FrameLine show ?thesis by simp
qed (use assms in \<open>auto simp: serve_frame_def accepts_handshake_def\<close>)

lemma serve_responds:
  "serve requests c st = (rs, stop, c', st') \<Longrightarrow>
   list_all2 (\<lambda>(S, frame) r. responds (frame_id S frame) r) (take (length rs) requests) rs \<and> (\<not> stop \<longrightarrow> length rs = length requests)"
proof (induction requests c st arbitrary: rs rule: serve.induct)
  case (2 S frame requests c st)
  obtain r b c1 st1 where f: "serve_frame S frame c st = (r, b, c1, st1)" by (cases "serve_frame S frame c st")
  note r = serve_frame_responds[OF f]
  show ?case
  proof (cases b)
    case True
    with "2.prems" f r show ?thesis by auto
  next
    case False
    obtain rs1 where rest: "serve requests c1 st1 = (rs1, stop, c', st')" "rs = r # rs1"
      using "2.prems" f False by (auto split: prod.splits)
    have "list_all2 (\<lambda>(S, frame) r. responds (frame_id S frame) r) (take (length rs1) requests) rs1 \<and> (\<not> stop \<longrightarrow> length rs1 = length requests)"
      by (rule "2.IH"[OF f[symmetric] refl _ refl rest(1)]) (simp add: False)
    with rest(2) r show ?thesis by simp
  qed
qed simp

lemma serve_before_handshake:
  "serve requests c st = (rs, stop, c', st') \<Longrightarrow> \<not> co_handshaken c \<Longrightarrow> \<forall>(S, frame) \<in> set requests. \<not> accepts_handshake S frame \<Longrightarrow>
   \<not> stop \<and> st' = st \<and> c' = c \<and> list_all is_error rs"
proof (induction requests arbitrary: rs)
  case (Cons a requests)
  obtain S frame where a: "a = (S, frame)" by (cases a)
  obtain r b c1 st1 where f: "serve_frame S frame c st = (r, b, c1, st1)" by (cases "serve_frame S frame c st")
  from frame_before_handshake[OF f Cons.prems(2)] Cons.prems(2,3) a have
    b: "\<not> b" "st1 = st" "c1 = c" "is_error r" by auto
  with Cons.prems(1) a f obtain rs1 where "serve requests c st = (rs1, stop, c', st')" "rs = r # rs1"
    by (auto split: prod.splits)
  with Cons.IH[of rs1] Cons.prems(2,3) b(4) show ?case by simp
qed simp

text \<open>
  C19. A connection answers every request and does nothing before the handshake. Every frame of a
  connection, up to a shutdown it asks for, is answered by exactly one response, in order, that carries the
  identifier of the request (null where the line is no JSON object or no line at all) and
  either a result or an error. As long as no handshake has been accepted, every response is an
  error, and neither the database nor the artifact store nor the subscriptions are touched and no
  shutdown is triggered, whatever the client sends.
\<close>
theorem session_answers_and_gates:
  assumes "serve requests fresh_connection st = (rs, stop, c, st')"
  shows "list_all2 (\<lambda>(S, frame) r. responds (frame_id S frame) r) (take (length rs) requests) rs
    \<and> (\<not> stop \<longrightarrow> length rs = length requests)
    \<and> ((\<forall>(S, frame) \<in> set requests. \<not> accepts_handshake S frame) \<longrightarrow>
         \<not> stop \<and> st' = st \<and> c = fresh_connection \<and> list_all is_error rs)"
proof -
  have "\<not> co_handshaken fresh_connection" by (simp add: fresh_connection_def)
  with serve_responds[OF assms] serve_before_handshake[OF assms] show ?thesis by blast
qed

text \<open>The response for content that is missing has the code of the reason \<open>NOT_FOUND\<close>, but, unlike the
  response for a missing entity, no data that names the reason.\<close>

lemma artifact_not_found_without_reason:
  "rpc_artifact_error S i ArtifactNotFound =
     Object [(''error'', Object [(''code'', Number (NegInt (-32003))), (''message'', String ''artifact content was not found'')]),
             (''id'', i), (''jsonrpc'', String ''2.0'')]"
  by (simp add: rpc_artifact_error_def rpc_error_def)

section \<open>Example\<close>

text \<open>A client that creates an entity without a handshake.\<close>

definition sample_request :: Value where
  "sample_request = Object [(''id'', String ''r''), (''jsonrpc'', String ''2.0''), (''method'', String ''patchouli.entity.create@1'')]"

definition sample_server :: "(sqlite_provider, nat list, unit) server_env" where
  "sample_server =
     \<lparr>sv_engine = sample_engine, sv_artifacts = \<lparr>ae_sha256_hex = (\<lambda>s. s), ae_encode = (\<lambda>s. s), ae_decode = Some,
        ae_canonicalize = (\<lambda>_ p. p), ae_euid = 1\<rparr>, sv_clock = (\<lambda>_. Some 10), sv_upload_id = ''u'', sv_version = ''0.1.2'',
      sv_cluster_id = ''c'', sv_node_id = ''n'', sv_provider_kind = ''sqlite'',
      sv_recovery = \<lparr>generation = 1, recovered_after_unclean_shutdown = False\<rparr>, sv_pid = 1, sv_started_at_unix_ms = 1,
      sv_active_connections = 1, sv_from_str = (\<lambda>_. Some sample_request), sv_result_json = (\<lambda>_. Null), sv_decode_text = (\<lambda>_. []),
      sv_backend_text = (\<lambda>_. []), sv_artifact_text = (\<lambda>_. []), sv_engine_text = (\<lambda>_. []), sv_handshake = (\<lambda>_. None),
      sv_empty = (\<lambda>_. None), sv_upload_begin = (\<lambda>_. None), sv_upload_chunk = (\<lambda>_. None), sv_upload_commit = (\<lambda>_. None),
      sv_download_chunk = (\<lambda>_. None), sv_create = (\<lambda>_. Some sample_create), sv_read = (\<lambda>_. None), sv_retrieve = (\<lambda>_. None),
      sv_update = (\<lambda>_. None), sv_delete = (\<lambda>_. None), sv_subscribe = (\<lambda>_. None), sv_unsubscribe = (\<lambda>_. None),
      sv_artifact_json = (\<lambda>_. Null), sv_artifact_from = (\<lambda>_. None)\<rparr>"

definition sample_server_state :: "(sqlite_provider, unit) server_state" where
  "sample_server_state =
     \<lparr>ss_provider = fresh_provider, ss_store = \<lparr>as_provider = ''n'', as_objects = [], as_uploads = [], as_active = [], as_files = []\<rparr>\<rparr>"

theorem session_answers_and_gates_witness:
  "\<exists>r c. serve [(sample_server, FrameLine ''x'')] fresh_connection sample_server_state = ([r], False, c, sample_server_state)
     \<and> responds (String ''r'') r \<and> is_error r"
proof -
  obtain rs stop c st' where run: "serve [(sample_server, FrameLine ''x'')] fresh_connection sample_server_state = (rs, stop, c, st')"
    by (metis prod.exhaust)
  have no: "\<forall>(S, frame) \<in> set [(sample_server, FrameLine ''x'')]. \<not> accepts_handshake S frame"
    by (simp add: accepts_handshake_def sample_server_def)
  have i: "frame_id sample_server (FrameLine ''x'') = String ''r''"
    by (simp add: frame_id_def sample_server_def sample_request_def request_id_def)
  from session_answers_and_gates[OF run] no have "length rs = 1" "\<not> stop" "st' = sample_server_state"
    "list_all2 (\<lambda>(S, frame) r. responds (frame_id S frame) r) (take (length rs) [(sample_server, FrameLine ''x'')]) rs" "list_all is_error rs"
    by auto
  then obtain r where "rs = [r]" "responds (String ''r'') r" "is_error r" using i by (cases rs) auto
  with run \<open>\<not> stop\<close> \<open>st' = sample_server_state\<close> show ?thesis by simp
qed

end
