(* ===== verification/Local_Client.thy ===== *)
theory Local_Client
  imports Server_Session
begin

text \<open>
  The client of the server's protocol, \<open>LocalClient\<close> in \<open>crates/server/src/lib.rs\<close>: requests with increasing
  identifiers, responses matched by identifier, and change notifications kept aside until they are asked
  for. The incoming side of the connection is the list of what is still to be read, closed at its
  end; decoders, and whether a request can be written, enter as a \<open>client_env\<close>. Identifiers are below the
  bound of \<open>i64\<close>.
\<close>

section \<open>State\<close>

datatype IpcError = IpcIo | IpcJson | IpcConnectionClosed | IpcRpc int string | IpcResponseIdMismatch

type_synonym 'a ipc_result = "IpcError + 'a"

datatype client_input = InputLine string | InputError

record 'e client_env =
  cl_from_str :: "string \<Rightarrow> Value option"
  cl_event :: "Value \<Rightarrow> 'e option"
  cl_write :: "Value \<Rightarrow> bool"

record 'e LocalClient =
  lc_input :: "client_input list"
  lc_sent :: "Value list"
  lc_next_id :: nat
  lc_notifications :: "'e list"

definition get_member :: "string \<Rightarrow> Value \<Rightarrow> Value option" where
  "get_member key v = Option.bind (as_object v) (\<lambda>m. map_of m key)"

definition member_or_null :: "string \<Rightarrow> Value \<Rightarrow> Value" where
  "member_or_null key v = (case get_member key v of None \<Rightarrow> Null | Some x \<Rightarrow> x)"

section \<open>Messages\<close>

definition message_of :: "'e client_env \<Rightarrow> client_input \<Rightarrow> Value ipc_result" where
  "message_of E item =
     (case item of
        InputError \<Rightarrow> Err IpcIo
      | InputLine line \<Rightarrow> ok_or (cl_from_str E line) IpcJson)"

fun read_message :: "'e client_env \<Rightarrow> client_input list \<Rightarrow> Value ipc_result \<times> client_input list" where
  "read_message E [] = (Err IpcConnectionClosed, [])"
| "read_message E (item # rest) = (message_of E item, rest)"

definition is_event :: "Value \<Rightarrow> bool" where
  "is_event v \<longleftrightarrow> get_member ''method'' v = Some (String ''patchouli.changes.event@1'')"

definition decode_event :: "'e client_env \<Rightarrow> Value \<Rightarrow> 'e ipc_result" where
  "decode_event E v = ok_or (cl_event E (member_or_null ''params'' v)) IpcJson"

definition next_change :: "'e client_env \<Rightarrow> 'e LocalClient \<Rightarrow> 'e ipc_result \<times> 'e LocalClient" where
  "next_change E c =
     (case lc_notifications c of
        event # rest \<Rightarrow> (Ok event, c\<lparr>lc_notifications := rest\<rparr>)
      | [] \<Rightarrow>
          (case read_message E (lc_input c) of (r, input) \<Rightarrow>
             (bindR r (\<lambda>response. if is_event response then decode_event E response else Err IpcResponseIdMismatch),
              c\<lparr>lc_input := input\<rparr>)))"

section \<open>Calls\<close>

fun read_response ::
  "'e client_env \<Rightarrow> Value \<Rightarrow> client_input list \<Rightarrow> 'e list \<Rightarrow> Value ipc_result \<times> client_input list \<times> 'e list" where
  "read_response E i [] notifications = (Err IpcConnectionClosed, [], notifications)"
| "read_response E i (item # rest) notifications =
     (case message_of E item of
        Inl e \<Rightarrow> (Err e, rest, notifications)
      | Inr response \<Rightarrow>
          (if is_event response
           then case decode_event E response of
                  Inl e \<Rightarrow> (Err e, rest, notifications)
                | Inr event \<Rightarrow> read_response E i rest (notifications @ [event])
           else if get_member ''id'' response \<noteq> Some i then (Err IpcResponseIdMismatch, rest, notifications)
           else (Ok response, rest, notifications)))"

definition answer_of :: "(Value \<Rightarrow> 'a option) \<Rightarrow> Value \<Rightarrow> 'a ipc_result" where
  "answer_of decode response =
     (case get_member ''error'' response of
        Some error \<Rightarrow>
          Err (IpcRpc
            (case get_member ''code'' error of
               Some (Number n) \<Rightarrow> (case number_as_i64 n of Some code \<Rightarrow> code | None \<Rightarrow> -32603)
             | _ \<Rightarrow> -32603)
            (case Option.bind (get_member ''message'' error) as_str of
               Some message \<Rightarrow> message
             | None \<Rightarrow> ''unknown JSON-RPC error''))
      | None \<Rightarrow> ok_or (decode (member_or_null ''result'' response)) IpcJson)"

definition request_json :: "nat \<Rightarrow> string \<Rightarrow> Value \<Rightarrow> Value" where
  "request_json i method_name params =
     Object [(''id'', Number (PosInt i)), (''jsonrpc'', String ''2.0''), (''method'', String method_name), (''params'', params)]"

definition client_call ::
  "'e client_env \<Rightarrow> (Value \<Rightarrow> 'a option) \<Rightarrow> string \<Rightarrow> Value \<Rightarrow> 'e LocalClient \<Rightarrow> 'a ipc_result \<times> 'e LocalClient" where
  "client_call E decode method_name params c =
     (let i = lc_next_id c; c = c\<lparr>lc_next_id := i + 1\<rparr>; request = request_json i method_name params in
      if \<not> cl_write E request then (Err IpcIo, c)
      else
        let c = c\<lparr>lc_sent := lc_sent c @ [request]\<rparr> in
        case read_response E (Number (PosInt i)) (lc_input c) (lc_notifications c) of
          (r, input, notifications) \<Rightarrow>
            (bindR r (answer_of decode), c\<lparr>lc_input := input, lc_notifications := notifications\<rparr>))"

section \<open>Operations\<close>

text \<open>Parameters are given as they are serialised; \<open>no_data\<close> is an empty \<open>RpcParams\<close>.\<close>

definition no_data :: Value where
  "no_data = Object [(''data'', Object []), (''meta'', Object [])]"

definition connect_with_capabilities ::
  "'e client_env \<Rightarrow> (Value \<Rightarrow> 'h option) \<Rightarrow> client_input list option \<Rightarrow> Value \<Rightarrow> ('e LocalClient \<times> 'h) ipc_result" where
  "connect_with_capabilities E decode stream params =
     bindR (ok_or stream IpcIo) (\<lambda>input.
       case client_call E decode ''patchouli.protocol.handshake@1'' params
              \<lparr>lc_input = input, lc_sent = [], lc_next_id = 1, lc_notifications = []\<rparr> of
         (r, client) \<Rightarrow> bindR r (\<lambda>handshake. Ok (client, handshake)))"

definition client_connect ::
  "'e client_env \<Rightarrow> (Value \<Rightarrow> 'h option) \<Rightarrow> client_input list option \<Rightarrow> Value \<Rightarrow> 'e LocalClient ipc_result" where
  "client_connect E decode stream params =
     bindR (connect_with_capabilities E decode stream params) (\<lambda>(client, _). Ok client)"

definition client_status where
  "client_status E decode = client_call E decode ''patchouli.control.status@1'' no_data"

definition client_shutdown where
  "client_shutdown E decode = client_call E decode ''patchouli.control.shutdown@1'' no_data"

definition client_checkpoint where
  "client_checkpoint E decode = client_call E decode ''patchouli.control.checkpoint@1'' no_data"

definition client_begin_artifact_upload where
  "client_begin_artifact_upload E decode = client_call E decode ''patchouli.artifact.upload.begin@1''"

definition client_upload_artifact_chunk where
  "client_upload_artifact_chunk E decode = client_call E decode ''patchouli.artifact.upload.chunk@1''"

definition client_commit_artifact_upload where
  "client_commit_artifact_upload E decode = client_call E decode ''patchouli.artifact.upload.commit@1''"

definition client_download_artifact_chunk where
  "client_download_artifact_chunk E decode = client_call E decode ''patchouli.artifact.download.chunk@1''"

definition client_create where
  "client_create E decode = client_call E decode ''patchouli.entity.create@1''"

definition client_read where
  "client_read E decode = client_call E decode ''patchouli.entity.read@1''"

definition client_retrieve where
  "client_retrieve E decode = client_call E decode ''patchouli.entity.retrieve@1''"

definition client_update where
  "client_update E decode = client_call E decode ''patchouli.entity.update@1''"

definition client_delete where
  "client_delete E decode = client_call E decode ''patchouli.entity.delete@1''"

definition client_subscribe where
  "client_subscribe E decode = client_call E decode ''patchouli.changes.subscribe@1''"

definition client_unsubscribe where
  "client_unsubscribe E decode = client_call E decode ''patchouli.changes.unsubscribe@1''"

section \<open>The server's side of notifications\<close>

text \<open>The task of a subscription: it writes the events of its stream, until the stream fails, which closes the
  connection, or a notification cannot be written. \<open>enc\<close> serialises the parameters of an event.\<close>

definition event_notification :: "('e \<Rightarrow> Value) \<Rightarrow> 'e \<Rightarrow> Value" where
  "event_notification enc event =
     Object [(''jsonrpc'', String ''2.0''), (''method'', String ''patchouli.changes.event@1''), (''params'', enc event)]"

fun forward_events :: "('e \<Rightarrow> Value) \<Rightarrow> (Value \<Rightarrow> bool) \<Rightarrow> ('x + 'e) list \<Rightarrow> Value list" where
  "forward_events enc writes [] = []"
| "forward_events enc writes (Inl _ # stream) = []"
| "forward_events enc writes (Inr event # stream) =
     (if writes (event_notification enc event) then event_notification enc event # forward_events enc writes stream else [])"

section \<open>No notification is lost\<close>

text \<open>The notifications a client still has to hand out: those it kept and those it has not read yet.\<close>

definition event_of :: "'e client_env \<Rightarrow> client_input \<Rightarrow> 'e option" where
  "event_of E item =
     (case message_of E item of
        Inr v \<Rightarrow> if is_event v then cl_event E (member_or_null ''params'' v) else None
      | Inl _ \<Rightarrow> None)"

definition pending :: "'e client_env \<Rightarrow> 'e LocalClient \<Rightarrow> 'e list" where
  "pending E c = lc_notifications c @ List.map_filter (event_of E) (lc_input c)"

lemma map_filter_Cons: "List.map_filter f (x # xs) = (case f x of None \<Rightarrow> [] | Some y \<Rightarrow> [y]) @ List.map_filter f xs"
  by (simp add: List.map_filter_def split: option.split)

lemma read_response_pending:
  "read_response E i input ns = (r, input', ns') \<Longrightarrow>
   ns' @ List.map_filter (event_of E) input' = ns @ List.map_filter (event_of E) input"
  by (induction E i input ns rule: read_response.induct)
    (auto simp: map_filter_Cons event_of_def decode_event_def ok_or_def split: sum.splits if_splits option.splits)

lemma client_call_pending: "client_call E decode m params c = (r, c') \<Longrightarrow> pending E c' = pending E c"
  by (auto simp: client_call_def pending_def Let_def split: if_splits prod.splits dest: read_response_pending)

lemma next_change_pending:
  "next_change E c = (r, c') \<Longrightarrow> (case r of Inr ev \<Rightarrow> [ev] | Inl _ \<Rightarrow> []) @ pending E c' = pending E c"
  by (cases "lc_notifications c"; cases "lc_input c")
    (auto simp: next_change_def pending_def map_filter_Cons event_of_def decode_event_def ok_or_def bindR_def
      split: sum.splits if_splits option.splits)


text \<open>What the task writes, a client reads as the events up to the first failure.\<close>

lemma forwarded_events_read:
  assumes "\<And>v. cl_from_str E (pr v) = Some v" "\<And>ev. cl_event E (enc ev) = Some ev" "\<And>v. writes v"
  shows "List.map_filter (event_of E) (map (\<lambda>v. InputLine (pr v)) (forward_events enc writes stream)) =
    map projr (takeWhile (\<lambda>x. \<not> isl x) stream)"
proof (induction stream)
  case (Cons x stream)
  have "event_of E (InputLine (pr (event_notification enc ev))) = Some ev" for ev
    using assms(1,2) by (simp add: event_of_def message_of_def event_notification_def is_event_def member_or_null_def get_member_def)
  with Cons assms(3) show ?case by (cases x) (simp_all add: map_filter_Cons List.map_filter_def)
qed (simp add: List.map_filter_def)

text \<open>Any use of a client: calls and requests for the next change, in any order.\<close>

datatype client_op = CallOp string Value | NextChangeOp

fun client_run :: "'e client_env \<Rightarrow> (Value \<Rightarrow> 'a option) \<Rightarrow> client_op list \<Rightarrow> 'e LocalClient \<Rightarrow> 'e list \<times> 'e LocalClient" where
  "client_run E decode [] c = ([], c)"
| "client_run E decode (CallOp m params # ops) c = client_run E decode ops (snd (client_call E decode m params c))"
| "client_run E decode (NextChangeOp # ops) c =
     (case next_change E c of (r, c) \<Rightarrow>
        (case client_run E decode ops c of (changes, c) \<Rightarrow> ((case r of Inr event \<Rightarrow> [event] | Inl _ \<Rightarrow> []) @ changes, c)))"

lemma client_run_in_order: "client_run E decode ops c = (changes, c') \<Longrightarrow> changes @ pending E c' = pending E c"
proof (induction E decode ops c arbitrary: changes rule: client_run.induct)
  case (2 E decode m params ops c)
  then show ?case using client_call_pending[of E decode m params c] by (metis client_run.simps(2) prod.collapse)
next
  case (3 E decode ops c)
  obtain r c1 where n: "next_change E c = (r, c1)" by fastforce
  obtain changes1 where "client_run E decode ops c1 = (changes1, c')"
    "changes = (case r of Inr event \<Rightarrow> [event] | Inl _ \<Rightarrow> []) @ changes1"
    using 3(2) n by (auto split: prod.splits)
  with 3(1)[OF n[symmetric]] next_change_pending[OF n] show ?case by simp
qed simp

section \<open>A client and its server\<close>

text \<open>Calls one after the other, with their parameters, and the requests they send.\<close>

fun client_calls ::
  "'e client_env \<Rightarrow> (Value \<Rightarrow> 'a option) \<Rightarrow> (string \<times> Value) list \<Rightarrow> 'e LocalClient \<Rightarrow> 'a ipc_result list \<times> 'e LocalClient" where
  "client_calls E decode [] c = ([], c)"
| "client_calls E decode ((m, params) # calls) c =
     (case client_call E decode m params c of (r, c) \<Rightarrow>
        (case client_calls E decode calls c of (rs, c) \<Rightarrow> (r # rs, c)))"

fun client_requests :: "nat \<Rightarrow> (string \<times> Value) list \<Rightarrow> Value list" where
  "client_requests i [] = []"
| "client_requests i ((m, params) # calls) = request_json i m params # client_requests (Suc i) calls"

text \<open>What the client reads: before each response, any number of notifications.\<close>

fun interleaving :: "(Value \<Rightarrow> string) \<Rightarrow> client_input list list \<Rightarrow> Value list \<Rightarrow> client_input list" where
  "interleaving pr (events # rest) (r # rs) = events @ InputLine (pr r) # interleaving pr rest rs"
| "interleaving pr _ _ = []"

definition all_events :: "'e client_env \<Rightarrow> client_input list \<Rightarrow> bool" where
  "all_events E items \<longleftrightarrow> list_all (\<lambda>item. event_of E item \<noteq> None) items"

lemma get_member_Object [simp]: "get_member key (Object m) = map_of m key"
  by (simp add: get_member_def)

lemma responds_not_event: "responds i r \<Longrightarrow> \<not> is_event r \<and> get_member ''id'' r = Some i"
  by (cases r) (auto simp: is_event_def)

lemma read_response_answered:
  assumes "all_events E items" "responds i r" "cl_from_str E line = Some r"
  shows "read_response E i (items @ InputLine line # rest) ns = (Inr r, rest, ns @ List.map_filter (event_of E) items)"
  using assms(1)
proof (induction items arbitrary: ns)
  case Nil
  then show ?case using assms(2,3) responds_not_event[OF assms(2)] by (simp add: message_of_def List.map_filter_def)
next
  case (Cons item items)
  then obtain ev where "event_of E item = Some ev" "all_events E items" by (auto simp: all_events_def)
  moreover from this obtain v where "message_of E item = Inr v" "is_event v" "decode_event E v = Inr ev"
    by (auto simp: event_of_def decode_event_def split: sum.splits if_splits)
  ultimately show ?case using Cons.IH[of "ns @ [ev]"] by (simp add: map_filter_Cons)
qed

lemma client_call_answered:
  assumes "all_events E items" "responds (Number (PosInt (lc_next_id c))) r" "cl_from_str E line = Some r"
    and "cl_write E (request_json (lc_next_id c) m params)" "lc_input c = items @ InputLine line # rest"
  shows "client_call E decode m params c =
    (answer_of decode r, c\<lparr>lc_next_id := Suc (lc_next_id c), lc_sent := lc_sent c @ [request_json (lc_next_id c) m params],
       lc_input := rest, lc_notifications := lc_notifications c @ List.map_filter (event_of E) items\<rparr>)"
  using read_response_answered[OF assms(1-3)] assms(4,5) by (simp add: client_call_def Let_def)

lemma client_calls_answered:
  assumes "list_all2 (\<lambda>q r. \<exists>i. get_member ''id'' q = Some i \<and> responds i r) (client_requests (lc_next_id c) calls) rs"
    and "length eventss = length rs" "list_all (all_events E) eventss"
    and "\<forall>q \<in> set (client_requests (lc_next_id c) calls). cl_write E q" "\<forall>r \<in> set rs. cl_from_str E (pr r) = Some r"
    and "lc_input c = interleaving pr eventss rs"
  shows "client_calls E decode calls c =
    (map (answer_of decode) rs,
     c\<lparr>lc_next_id := lc_next_id c + length calls, lc_sent := lc_sent c @ client_requests (lc_next_id c) calls, lc_input := [],
        lc_notifications := lc_notifications c @ concat (map (List.map_filter (event_of E)) eventss)\<rparr>)"
  using assms
proof (induction calls arbitrary: c rs eventss)
  case Nil
  then show ?case by (cases eventss) simp_all
next
  case (Cons call calls)
  obtain m params where call: "call = (m, params)" by (cases call)
  from Cons.prems(1) obtain r rs1 where rs: "rs = r # rs1" "responds (Number (PosInt (lc_next_id c))) r"
    "list_all2 (\<lambda>q r. \<exists>i. get_member ''id'' q = Some i \<and> responds i r) (client_requests (Suc (lc_next_id c)) calls) rs1"
    by (auto simp: call list_all2_Cons1 request_json_def)
  from Cons.prems(2) rs(1) obtain items rest where ev: "eventss = items # rest" by (cases eventss) auto
  note step = client_call_answered[of E items c r "pr r" m params "interleaving pr rest rs1" decode]
  have "client_call E decode m params c =
    (answer_of decode r, c\<lparr>lc_next_id := Suc (lc_next_id c), lc_sent := lc_sent c @ [request_json (lc_next_id c) m params],
       lc_input := interleaving pr rest rs1, lc_notifications := lc_notifications c @ List.map_filter (event_of E) items\<rparr>)"
    using Cons.prems rs ev by (intro step) (simp_all add: call)
  with Cons.IH[of "c\<lparr>lc_next_id := Suc (lc_next_id c), lc_sent := lc_sent c @ [request_json (lc_next_id c) m params],
       lc_input := interleaving pr rest rs1, lc_notifications := lc_notifications c @ List.map_filter (event_of E) items\<rparr>" rs1 rest]
    Cons.prems rs ev show ?case by (simp add: call)
qed

lemma client_requests_length [simp]: "length (client_requests i calls) = length calls"
  by (induction i calls rule: client_requests.induct) auto

lemma client_requests_id: "q \<in> set (client_requests i calls) \<Longrightarrow> \<exists>j. get_member ''id'' q = Some (Number (PosInt j)) \<and> as_object q \<noteq> None"
  by (induction i calls rule: client_requests.induct) (auto simp: request_json_def)

text \<open>
  C4. A client and its server agree. The server's responses to the requests of a client, read with any
  notifications in between, give every call the response to its own request: its result, or the
  error the server reports, and never a mismatch. The notifications stay available in their order,
  after those already kept, and nothing is left unread. And however a client is used and whatever
  arrives, it hands out each change once, in the order of arrival: what it handed out followed by
  what it still holds or has to read is what it had to hand out at first.
\<close>
theorem client_and_server_agree:
  assumes "serve (zip servers (map (\<lambda>q. FrameLine (pr q)) (client_requests (lc_next_id c) calls))) conn st = (rs, False, conn', st')"
    and "length servers = length calls"
    and "\<forall>S \<in> set servers. \<forall>q \<in> set (client_requests (lc_next_id c) calls). sv_from_str S (pr q) = Some q"
    and "\<forall>q \<in> set (client_requests (lc_next_id c) calls). cl_write E q" and "\<forall>r \<in> set rs. cl_from_str E (pr r) = Some r"
    and "length eventss = length rs" and "list_all (all_events E) eventss" and "lc_input c = interleaving pr eventss rs"
  shows "client_calls E decode calls c =
      (map (answer_of decode) rs,
       c\<lparr>lc_next_id := lc_next_id c + length calls, lc_sent := lc_sent c @ client_requests (lc_next_id c) calls, lc_input := [],
          lc_notifications := lc_notifications c @ concat (map (List.map_filter (event_of E)) eventss)\<rparr>)
    \<and> length rs = length calls
    \<and> (\<forall>ops c0 changes c1. client_run E decode ops c0 = (changes, c1) \<longrightarrow> changes @ pending E c1 = pending E c0)"
proof -
  let ?qs = "client_requests (lc_next_id c) calls"
  let ?frames = "zip servers (map (\<lambda>q. FrameLine (pr q)) ?qs)"
  note answered = serve_responds[OF assms(1)]
  have len: "length rs = length calls" using answered assms(2) by simp
  have ok: "list_all2 (\<lambda>(S, frame) r. responds (frame_id S frame) r) ?frames rs"
    using answered[THEN conjunct1] assms(2) by (simp add: len)
  have "list_all2 (\<lambda>q r. \<exists>i. get_member ''id'' q = Some i \<and> responds i r) ?qs rs"
  proof (rule list_all2_all_nthI)
    fix n assume n: "n < length ?qs"
    then have q: "?qs ! n \<in> set ?qs" by simp
    obtain j where j: "get_member ''id'' (?qs ! n) = Some (Number (PosInt j))" "as_object (?qs ! n) \<noteq> None"
      using client_requests_id[OF q] by blast
    have "sv_from_str (servers ! n) (pr (?qs ! n)) = Some (?qs ! n)" using assms(2,3) q n by simp
    with j have "frame_id (servers ! n) (FrameLine (pr (?qs ! n))) = Number (PosInt j)"
      by (auto simp: frame_id_def request_id_def get_member_def)
    with list_all2_nthD[OF ok, of n] n len assms(2) j(1)
    show "\<exists>i. get_member ''id'' (?qs ! n) = Some i \<and> responds i (rs ! n)" by simp
  qed (simp add: len)
  from client_calls_answered[OF this assms(6,7,4,5,8), of decode] len client_run_in_order show ?thesis by blast
qed


section \<open>Example\<close>

definition sample_call :: Value where
  "sample_call = request_json 1 ''patchouli.control.status@1'' no_data"

text \<open>The server answers before a handshake, with an error.\<close>

definition sample_answer :: Value where
  "sample_answer = rpc_error (Number (PosInt 1)) (-32001) ''handshake is required''"

definition sample_print :: "Value \<Rightarrow> string" where
  "sample_print v = (if v = sample_call then ''q'' else ''a'')"

definition sample_change :: client_input where
  "sample_change = InputLine ''e''"

definition sample_client_env :: "string client_env" where
  "sample_client_env =
     \<lparr>cl_from_str = (\<lambda>s. if s = ''e'' then Some (Object [(''method'', String ''patchouli.changes.event@1''), (''params'', String ''x'')])
                         else Some sample_answer),
      cl_event = as_str, cl_write = (\<lambda>_. True)\<rparr>"

definition sample_local_client :: "string LocalClient" where
  "sample_local_client = \<lparr>lc_input = [sample_change, InputLine ''a''], lc_sent = [], lc_next_id = 1, lc_notifications = []\<rparr>"

theorem client_and_server_agree_witness:
  "client_calls sample_client_env Some [(''patchouli.control.status@1'', no_data)] sample_local_client =
     ([Inl (IpcRpc (-32001) ''handshake is required'')],
      \<lparr>lc_input = [], lc_sent = [sample_call], lc_next_id = 2, lc_notifications = [''x'']\<rparr>)"
proof -
  let ?S = "sample_server\<lparr>sv_from_str := \<lambda>_. Some sample_call\<rparr>"
  have qs: "client_requests (lc_next_id sample_local_client) [(''patchouli.control.status@1'', no_data)] = [sample_call]"
    by (simp add: sample_local_client_def sample_call_def)
  have run: "serve (zip [?S] (map (\<lambda>q. FrameLine (sample_print q)) (client_requests (lc_next_id sample_local_client)
      [(''patchouli.control.status@1'', no_data)]))) fresh_connection sample_server_state =
      ([sample_answer], False, fresh_connection, sample_server_state)"
    unfolding qs by (simp add: serve_frame_def fresh_connection_def dispatch_def sample_call_def request_json_def
        well_formed_request_def is_request_id_def request_id_def sample_answer_def Let_def)
  have ev: "event_of sample_client_env sample_change = Some ''x''"
    by (simp add: event_of_def sample_change_def message_of_def sample_client_env_def is_event_def member_or_null_def)
  have ne: "sample_answer \<noteq> sample_call"
    by (simp add: sample_answer_def sample_call_def request_json_def rpc_error_def rpc_protocol_error_def Let_def)
  have "client_calls sample_client_env Some [(''patchouli.control.status@1'', no_data)] sample_local_client =
      (map (answer_of Some) [sample_answer],
       sample_local_client\<lparr>lc_next_id := lc_next_id sample_local_client + length [(''patchouli.control.status@1'', no_data)],
          lc_sent := lc_sent sample_local_client @ client_requests (lc_next_id sample_local_client) [(''patchouli.control.status@1'', no_data)],
          lc_input := [], lc_notifications := lc_notifications sample_local_client
            @ concat (map (List.map_filter (event_of sample_client_env)) [[sample_change]])\<rparr>)"
    by (rule client_and_server_agree[OF run, THEN conjunct1])
      (use ne ev in \<open>simp_all add: qs sample_client_env_def sample_print_def all_events_def sample_local_client_def
        sample_change_def sample_call_def\<close>)
  then show ?thesis
    unfolding qs by (simp add: sample_local_client_def answer_of_def sample_answer_def rpc_error_def rpc_protocol_error_def
        map_filter_Cons ev List.map_filter_def)
qed

end
