(* ===== verification/Remote_Provider.thy ===== *)
theory Remote_Provider
  imports Sqlite_Store
begin

text \<open>
  The remote provider, \<open>crates/provider-remote/src/lib.rs\<close>: a provider whose operations are HTTP calls
  (\<open>RemoteProvider\<close>, the client) and the endpoint that serves a provider to such clients
  (\<open>remote_provider_router\<close>).

  The libraries between the two are arguments, and so is the type \<open>'b\<close> of message bodies: \<open>url_env\<close> is the crate \<open>url\<close>, \<open>http_env\<close> the HTTP client
  with the network behind it, a step on the world \<open>'w\<close> it reaches, and \<open>wire_env\<close> the conversions of
  \<open>serde_json\<close> and of the HTTP header type, with \<open>axum\<close>'s JSON extractor, the size of a body in bytes
  and the double that is read back where a score was written. An exchange ends with a response,
  with an error, or is still open (\<open>None\<close>); a body can be absent or unreadable (\<open>None\<close>). As
  everywhere, the text of an error message is not modelled.
\<close>

section \<open>Protocol\<close>

definition REMOTE_PROVIDER_PROTOCOL :: nat where
  "REMOTE_PROVIDER_PROTOCOL = 4"

record RemoteProviderInfo =
  pi_protocol :: nat
  pi_provider :: string
  pi_capabilities :: ProviderCapabilities
  pi_recovery :: ProviderRecovery
  pi_change_retention_seconds :: nat

record RemoteChangeQuery =
  rcq_scope_json :: string
  rcq_entity_types :: "string list option"
  rcq_entity_ids :: "string list option"
  rcq_after_cursor :: nat
  rcq_limit :: nat

datatype ProviderCall =
    Health
  | ReadEntity EntityKey ReadConsistency
  | ReadChanges RemoteChangeQuery
  | WaitForChanges string nat
  | RetrieveEntities RetrieveQuery ReadConsistency
  | CommitEntity EntityCommit
  | ReadIdempotency string ReadConsistency string string nat
  | ReadIdempotencyInWorkUnit WorkUnit ReadConsistency string string nat bool
  | CommitEntityIdempotent EntityCommit IdempotencyRecord nat
  | ReadEntityInWorkUnit WorkUnit EntityKey ReadConsistency
  | RetrieveEntitiesInWorkUnit WorkUnit RetrieveQuery ReadConsistency
  | CommitEntityInWorkUnit WorkUnitCommit
  | PublishWorkUnit WorkUnitPublish
  | Checkpoint

datatype ProviderReply =
    Unit
  | Entity "EntitySnapshot option ConsistentRead"
  | Changes ChangePage
  | Retrieved "RetrievedPage ConsistentRead"
  | EntityCommit EntityCommitOutcome
  | IdempotencyRead IdempotencyReadOutcome
  | IdempotentCommit IdempotentCommitOutcome
  | WorkUnitRead WorkUnitReadOutcome
  | WorkUnitRetrieve WorkUnitRetrieveOutcome
  | WorkUnitCommit WorkUnitCommitOutcome

record RemoteError =
  re_reason :: ProviderErrorReason

text \<open>The name of an operation in the error messages and the log.\<close>

fun operation :: "ProviderCall \<Rightarrow> string" where
  "operation Health = ''health check''"
| "operation (ReadEntity _ _) = ''read entity''"
| "operation (ReadChanges _) = ''read changes''"
| "operation (WaitForChanges _ _) = ''wait for changes''"
| "operation (RetrieveEntities _ _) = ''retrieve entities''"
| "operation (CommitEntity _) = ''commit entity''"
| "operation (ReadIdempotency _ _ _ _ _) = ''read idempotency''"
| "operation (ReadIdempotencyInWorkUnit _ _ _ _ _ _) = ''read work-unit idempotency''"
| "operation (CommitEntityIdempotent _ _ _) = ''commit idempotent entity''"
| "operation (ReadEntityInWorkUnit _ _ _) = ''read entity in work unit''"
| "operation (RetrieveEntitiesInWorkUnit _ _ _) = ''retrieve entities in work unit''"
| "operation (CommitEntityInWorkUnit _) = ''commit entity in work unit''"
| "operation (PublishWorkUnit _) = ''publish work unit''"
| "operation Checkpoint = ''checkpoint provider''"

section \<open>Libraries\<close>

record 'u url_env =
  url_parse :: "string \<Rightarrow> 'u option"
  url_scheme :: "'u \<Rightarrow> string"
  url_host_str :: "'u \<Rightarrow> string option"
  url_path :: "'u \<Rightarrow> string"
  url_set_path :: "string \<Rightarrow> 'u \<Rightarrow> 'u"
  url_join :: "'u \<Rightarrow> string \<Rightarrow> 'u option"

datatype http_method = GET | POST

record ('u, 'b) http_request =
  hr_method :: http_method
  hr_url :: 'u
  hr_authorization :: "string option"
  hr_body :: "'b option"
  hr_timeout_seconds :: "nat option"

record 'b http_response =
  rs_status :: nat
  rs_body :: "'b option"

text \<open>The questions the code asks of a \<open>reqwest::Error\<close>.\<close>

record reqwest_error =
  is_timeout :: bool
  is_connect :: bool
  is_request :: bool

record ('u, 'b, 'w) http_env =
  http_build :: "reqwest_error option"
  http_send :: "('u, 'b) http_request \<Rightarrow> 'w \<Rightarrow> (reqwest_error + 'b http_response) option \<times> 'w"

record 'b wire_env =
  enc_call :: "ProviderCall \<Rightarrow> 'b"
  dec_call :: "'b option \<Rightarrow> 'b http_response + ProviderCall"
  enc_reply :: "ProviderReply \<Rightarrow> 'b"
  dec_reply :: "'b \<Rightarrow> ProviderReply option"
  enc_info :: "RemoteProviderInfo \<Rightarrow> 'b"
  dec_info :: "'b \<Rightarrow> RemoteProviderInfo option"
  enc_error :: "RemoteError \<Rightarrow> 'b"
  dec_error :: "'b \<Rightarrow> RemoteError option"
  to_str :: "string \<Rightarrow> string option"
  wire_size :: "'b \<Rightarrow> nat"
  wire_score :: "f64 \<Rightarrow> f64"

definition is_success :: "nat \<Rightarrow> bool" where
  "is_success status \<longleftrightarrow> 200 \<le> status \<and> status < 300"

section \<open>Client\<close>

record 'u RemoteProvider =
  rp_endpoint :: 'u
  rp_token :: string
  rp_info :: RemoteProviderInfo

definition is_loopback_host :: "string \<Rightarrow> bool" where
  "is_loopback_host host \<longleftrightarrow> host \<in> {''localhost'', ''127.0.0.1'', ''::1''}"

definition normalize_endpoint :: "'u url_env \<Rightarrow> string \<Rightarrow> 'u presult" where
  "normalize_endpoint U endpoint =
     bindR (ok_or (url_parse U endpoint) provider_error_new) (\<lambda>url.
     if url_scheme U url = ''https''
        \<or> url_scheme U url = ''http'' \<and> (case url_host_str U url of None \<Rightarrow> False | Some host \<Rightarrow> is_loopback_host host)
     then let url = (if url_path U url \<noteq> [] \<and> last (url_path U url) = CHR ''/'' then url
                     else url_set_path U (url_path U url @ ''/'') url)
          in ok_or (url_join U url ''provider/v2/'') provider_error_new
     else Err provider_error_new)"

definition validate_endpoint :: "'u url_env \<Rightarrow> string \<Rightarrow> unit presult" where
  "validate_endpoint U endpoint = bindR (normalize_endpoint U endpoint) (\<lambda>_. Ok ())"

definition transport_error :: "reqwest_error \<Rightarrow> ProviderError" where
  "transport_error error =
     with_reason (if is_timeout error then DeadlineExceeded
                  else if is_connect error \<or> is_request error then Unavailable
                  else Internal)"

definition reason_for_status :: "nat \<Rightarrow> ProviderErrorReason" where
  "reason_for_status status =
     (if status = 401 then Unauthenticated
      else if status = 408 \<or> status = 504 then DeadlineExceeded
      else if status = 502 \<or> status = 503 then Unavailable
      else Internal)"

definition bearer :: "string \<Rightarrow> string" where
  "bearer token = ''Bearer '' @ token"

text \<open>The client's timeout bounds the whole exchange: one that is still open then fails as timed out.
  Without a timeout the exchange stays open, which is the value \<open>None\<close>.\<close>

definition decode_response :: "'b wire_env \<Rightarrow> ('b \<Rightarrow> 'a option) \<Rightarrow> 'b http_response \<Rightarrow> 'a presult" where
  "decode_response K dec response =
     (let status = rs_status response
      in if \<not> is_success status
         then let fallback_reason = reason_for_status status;
                  error = (case Option.bind (rs_body response) (dec_error K) of
                             None \<Rightarrow> \<lparr>re_reason = fallback_reason\<rparr>
                           | Some error \<Rightarrow> error);
                  reason = (case fallback_reason of Internal \<Rightarrow> re_reason error | reason \<Rightarrow> reason)
              in Err (with_reason reason)
         else ok_or (Option.bind (rs_body response) dec) provider_error_new)"

definition send ::
  "'b wire_env \<Rightarrow> ('u, 'b, 'w) http_env \<Rightarrow> ('b \<Rightarrow> 'a option) \<Rightarrow> ('u, 'b) http_request \<Rightarrow> string \<Rightarrow> 'w
   \<Rightarrow> 'a option presult \<times> 'w" where
  "send K H dec request token w =
     (case http_send H (request\<lparr>hr_authorization := Some (bearer token)\<rparr>) w of
        (None, w) \<Rightarrow>
          ((case hr_timeout_seconds request of
              None \<Rightarrow> Ok None
            | Some _ \<Rightarrow> Err (transport_error \<lparr>is_timeout = True, is_connect = False, is_request = False\<rparr>)), w)
      | (Some (Inl error), w) \<Rightarrow> (Err (transport_error error), w)
      | (Some (Inr response), w) \<Rightarrow> (bindR (decode_response K dec response) (\<lambda>x. Ok (Some x)), w))"

text \<open>An exchange with a timeout is never left open, so \<open>answered\<close> loses nothing on those.\<close>

definition answered :: "'a option presult \<times> 'w \<Rightarrow> 'a presult \<times> 'w" where
  "answered s = (bindR (fst s) (\<lambda>x. ok_or x deadline_exceeded), snd s)"

definition connect ::
  "'u url_env \<Rightarrow> 'b wire_env \<Rightarrow> ('u, 'b, 'w) http_env \<Rightarrow> string \<Rightarrow> string \<Rightarrow> 'w \<Rightarrow> 'u RemoteProvider presult \<times> 'w" where
  "connect U K H endpoint token w =
     (if token = [] then (Err provider_error_new, w)
      else case normalize_endpoint U endpoint of
        Inl e \<Rightarrow> (Err e, w)
      | Inr endpoint \<Rightarrow>
          (case http_build H of
             Some error \<Rightarrow> (Err (transport_error error), w)
           | None \<Rightarrow>
               (case url_join U endpoint ''info'' of
                  None \<Rightarrow> (Err provider_error_new, w)
                | Some info_url \<Rightarrow>
                    (case answered (send K H (dec_info K)
                             \<lparr>hr_method = GET, hr_url = info_url, hr_authorization = None, hr_body = None,
                              hr_timeout_seconds = Some 30\<rparr> token w) of
                       (Inl e, w) \<Rightarrow> (Err e, w)
                     | (Inr info, w) \<Rightarrow>
                         (if pi_protocol info \<noteq> REMOTE_PROVIDER_PROTOCOL then (Err provider_error_new, w)
                          else (Ok \<lparr>rp_endpoint = endpoint, rp_token = token, rp_info = info\<rparr>, w))))))"

definition call_with_timeout ::
  "'u url_env \<Rightarrow> 'b wire_env \<Rightarrow> ('u, 'b, 'w) http_env \<Rightarrow> 'u RemoteProvider \<Rightarrow> ProviderCall \<Rightarrow> nat option \<Rightarrow> 'w
   \<Rightarrow> ProviderReply option presult \<times> 'w" where
  "call_with_timeout U K H self c timeout w =
     (case url_join U (rp_endpoint self) ''call'' of
        None \<Rightarrow> (Err provider_error_new, w)
      | Some call_url \<Rightarrow>
          send K H (dec_reply K)
            \<lparr>hr_method = POST, hr_url = call_url, hr_authorization = None, hr_body = Some (enc_call K c),
             hr_timeout_seconds = timeout\<rparr> (rp_token self) w)"

definition remote_call ::
  "'u url_env \<Rightarrow> 'b wire_env \<Rightarrow> ('u, 'b, 'w) http_env \<Rightarrow> 'u RemoteProvider \<Rightarrow> ProviderCall \<Rightarrow> 'w
   \<Rightarrow> ProviderReply presult \<times> 'w" where
  "remote_call U K H self c w = answered (call_with_timeout U K H self c (Some 30) w)"

section \<open>The client as a provider\<close>

definition unexpected_reply :: ProviderError where
  "unexpected_reply = provider_error_new"

definition expect_reply :: "(ProviderReply \<Rightarrow> 'a option) \<Rightarrow> ProviderReply presult \<times> 'w \<Rightarrow> 'a presult \<times> 'w" where
  "expect_reply f s = (bindR (fst s) (\<lambda>reply. ok_or (f reply) unexpected_reply), snd s)"

definition remote_capabilities :: "'u RemoteProvider \<Rightarrow> ProviderCapabilities" where
  "remote_capabilities self = pi_capabilities (rp_info self)"

definition remote_initialize :: "'u RemoteProvider \<Rightarrow> 'w \<Rightarrow> ProviderRecovery presult \<times> 'w" where
  "remote_initialize self w = (Ok (pi_recovery (rp_info self)), w)"

definition remote_health_check ::
  "'u url_env \<Rightarrow> 'b wire_env \<Rightarrow> ('u, 'b, 'w) http_env \<Rightarrow> 'u RemoteProvider \<Rightarrow> 'w \<Rightarrow> unit presult \<times> 'w" where
  "remote_health_check U K H self w =
     expect_reply (\<lambda>reply. case reply of Unit \<Rightarrow> Some () | _ \<Rightarrow> None) (remote_call U K H self Health w)"

definition remote_read_entity ::
  "'u url_env \<Rightarrow> 'b wire_env \<Rightarrow> ('u, 'b, 'w) http_env \<Rightarrow> 'u RemoteProvider \<Rightarrow> EntityKey \<Rightarrow> ReadConsistency \<Rightarrow> 'w
   \<Rightarrow> EntitySnapshot option ConsistentRead presult \<times> 'w" where
  "remote_read_entity U K H self key consistency w =
     expect_reply (\<lambda>reply. case reply of Entity v \<Rightarrow> Some v | _ \<Rightarrow> None)
       (remote_call U K H self (ReadEntity key consistency) w)"

definition remote_read_changes ::
  "'u url_env \<Rightarrow> 'b wire_env \<Rightarrow> ('u, 'b, 'w) http_env \<Rightarrow> 'u RemoteProvider \<Rightarrow> ChangeQuery \<Rightarrow> 'w \<Rightarrow> ChangePage presult \<times> 'w" where
  "remote_read_changes U K H self query w =
     expect_reply (\<lambda>reply. case reply of Changes v \<Rightarrow> Some v | _ \<Rightarrow> None)
       (remote_call U K H self
          (ReadChanges
             \<lparr>rcq_scope_json = cq_scope_json query, rcq_entity_types = cq_entity_types query,
              rcq_entity_ids = cq_entity_ids query, rcq_after_cursor = cq_after_cursor query,
              rcq_limit = cq_limit query\<rparr>) w)"

definition remote_wait_for_changes ::
  "'u url_env \<Rightarrow> 'b wire_env \<Rightarrow> ('u, 'b, 'w) http_env \<Rightarrow> 'u RemoteProvider \<Rightarrow> string \<Rightarrow> nat \<Rightarrow> 'w
   \<Rightarrow> unit option presult \<times> 'w" where
  "remote_wait_for_changes U K H self scope after_cursor w =
     (case call_with_timeout U K H self (WaitForChanges scope after_cursor) None w of
        (Inl e, w) \<Rightarrow> (Err e, w)
      | (Inr None, w) \<Rightarrow> (Ok None, w)
      | (Inr (Some Unit), w) \<Rightarrow> (Ok (Some ()), w)
      | (Inr (Some _), w) \<Rightarrow> (Err unexpected_reply, w))"

definition remote_retrieve_entities ::
  "'u url_env \<Rightarrow> 'b wire_env \<Rightarrow> ('u, 'b, 'w) http_env \<Rightarrow> 'u RemoteProvider \<Rightarrow> RetrieveQuery \<Rightarrow> ReadConsistency \<Rightarrow> 'w
   \<Rightarrow> RetrievedPage ConsistentRead presult \<times> 'w" where
  "remote_retrieve_entities U K H self query consistency w =
     expect_reply (\<lambda>reply. case reply of Retrieved v \<Rightarrow> Some v | _ \<Rightarrow> None)
       (remote_call U K H self (RetrieveEntities query consistency) w)"

definition remote_commit_entity ::
  "'u url_env \<Rightarrow> 'b wire_env \<Rightarrow> ('u, 'b, 'w) http_env \<Rightarrow> 'u RemoteProvider \<Rightarrow> EntityCommit \<Rightarrow> 'w
   \<Rightarrow> EntityCommitOutcome presult \<times> 'w" where
  "remote_commit_entity U K H self commit w =
     expect_reply (\<lambda>reply. case reply of EntityCommit v \<Rightarrow> Some v | _ \<Rightarrow> None)
       (remote_call U K H self (CommitEntity commit) w)"

definition remote_read_idempotency ::
  "'u url_env \<Rightarrow> 'b wire_env \<Rightarrow> ('u, 'b, 'w) http_env \<Rightarrow> 'u RemoteProvider
   \<Rightarrow> string \<Rightarrow> ReadConsistency \<Rightarrow> string \<Rightarrow> string \<Rightarrow> nat \<Rightarrow> 'w \<Rightarrow> IdempotencyReadOutcome presult \<times> 'w" where
  "remote_read_idempotency U K H self scope consistency identity_json request_json now_unix_ms w =
     expect_reply (\<lambda>reply. case reply of IdempotencyRead v \<Rightarrow> Some v | _ \<Rightarrow> None)
       (remote_call U K H self (ReadIdempotency scope consistency identity_json request_json now_unix_ms) w)"

definition remote_read_idempotency_in_work_unit ::
  "'u url_env \<Rightarrow> 'b wire_env \<Rightarrow> ('u, 'b, 'w) http_env \<Rightarrow> 'u RemoteProvider
   \<Rightarrow> WorkUnit \<Rightarrow> ReadConsistency \<Rightarrow> string \<Rightarrow> string \<Rightarrow> nat \<Rightarrow> bool \<Rightarrow> 'w \<Rightarrow> IdempotencyReadOutcome presult \<times> 'w" where
  "remote_read_idempotency_in_work_unit U K H self work_unit consistency identity_json request_json now_unix_ms allow_replay w =
     expect_reply (\<lambda>reply. case reply of IdempotencyRead v \<Rightarrow> Some v | _ \<Rightarrow> None)
       (remote_call U K H self
          (ReadIdempotencyInWorkUnit work_unit consistency identity_json request_json now_unix_ms allow_replay) w)"

definition remote_commit_entity_idempotent ::
  "'u url_env \<Rightarrow> 'b wire_env \<Rightarrow> ('u, 'b, 'w) http_env \<Rightarrow> 'u RemoteProvider \<Rightarrow> EntityCommit \<Rightarrow> IdempotencyRecord \<Rightarrow> nat \<Rightarrow> 'w
   \<Rightarrow> IdempotentCommitOutcome presult \<times> 'w" where
  "remote_commit_entity_idempotent U K H self commit idem now_unix_ms w =
     expect_reply (\<lambda>reply. case reply of IdempotentCommit v \<Rightarrow> Some v | _ \<Rightarrow> None)
       (remote_call U K H self (CommitEntityIdempotent commit idem now_unix_ms) w)"

definition remote_read_entity_in_work_unit ::
  "'u url_env \<Rightarrow> 'b wire_env \<Rightarrow> ('u, 'b, 'w) http_env \<Rightarrow> 'u RemoteProvider \<Rightarrow> WorkUnit \<Rightarrow> EntityKey \<Rightarrow> ReadConsistency \<Rightarrow> 'w
   \<Rightarrow> WorkUnitReadOutcome presult \<times> 'w" where
  "remote_read_entity_in_work_unit U K H self work_unit key consistency w =
     expect_reply (\<lambda>reply. case reply of WorkUnitRead v \<Rightarrow> Some v | _ \<Rightarrow> None)
       (remote_call U K H self (ReadEntityInWorkUnit work_unit key consistency) w)"

definition remote_retrieve_entities_in_work_unit ::
  "'u url_env \<Rightarrow> 'b wire_env \<Rightarrow> ('u, 'b, 'w) http_env \<Rightarrow> 'u RemoteProvider \<Rightarrow> WorkUnit \<Rightarrow> RetrieveQuery \<Rightarrow> ReadConsistency \<Rightarrow> 'w
   \<Rightarrow> WorkUnitRetrieveOutcome presult \<times> 'w" where
  "remote_retrieve_entities_in_work_unit U K H self work_unit query consistency w =
     expect_reply (\<lambda>reply. case reply of WorkUnitRetrieve v \<Rightarrow> Some v | _ \<Rightarrow> None)
       (remote_call U K H self (RetrieveEntitiesInWorkUnit work_unit query consistency) w)"

definition remote_commit_entity_in_work_unit ::
  "'u url_env \<Rightarrow> 'b wire_env \<Rightarrow> ('u, 'b, 'w) http_env \<Rightarrow> 'u RemoteProvider \<Rightarrow> WorkUnitCommit \<Rightarrow> 'w
   \<Rightarrow> WorkUnitCommitOutcome presult \<times> 'w" where
  "remote_commit_entity_in_work_unit U K H self commit w =
     expect_reply (\<lambda>reply. case reply of WorkUnitCommit v \<Rightarrow> Some v | _ \<Rightarrow> None)
       (remote_call U K H self (CommitEntityInWorkUnit commit) w)"

definition remote_publish_work_unit ::
  "'u url_env \<Rightarrow> 'b wire_env \<Rightarrow> ('u, 'b, 'w) http_env \<Rightarrow> 'u RemoteProvider \<Rightarrow> WorkUnitPublish \<Rightarrow> 'w
   \<Rightarrow> WorkUnitCommitOutcome presult \<times> 'w" where
  "remote_publish_work_unit U K H self publish w =
     expect_reply (\<lambda>reply. case reply of WorkUnitCommit v \<Rightarrow> Some v | _ \<Rightarrow> None)
       (remote_call U K H self (PublishWorkUnit publish) w)"

definition remote_checkpoint ::
  "'u url_env \<Rightarrow> 'b wire_env \<Rightarrow> ('u, 'b, 'w) http_env \<Rightarrow> 'u RemoteProvider \<Rightarrow> 'w \<Rightarrow> unit presult \<times> 'w" where
  "remote_checkpoint U K H self w =
     expect_reply (\<lambda>reply. case reply of Unit \<Rightarrow> Some () | _ \<Rightarrow> None) (remote_call U K H self Checkpoint w)"

definition remote_shutdown :: "'w \<Rightarrow> unit presult \<times> 'w" where
  "remote_shutdown w = (Ok (), w)"

definition remote_ops ::
  "'u url_env \<Rightarrow> 'b wire_env \<Rightarrow> ('u, 'b, 'w) http_env \<Rightarrow> 'u RemoteProvider \<Rightarrow> 'w Provider" where
  "remote_ops U K H self =
     \<lparr>p_capabilities = remote_capabilities self,
      p_initialize = remote_initialize self,
      p_health_check = remote_health_check U K H self,
      p_read_entity = remote_read_entity U K H self,
      p_read_changes = remote_read_changes U K H self,
      p_wait_for_changes = remote_wait_for_changes U K H self,
      p_retrieve_entities = remote_retrieve_entities U K H self,
      p_commit_entity = remote_commit_entity U K H self,
      p_read_idempotency = remote_read_idempotency U K H self,
      p_read_idempotency_in_work_unit = remote_read_idempotency_in_work_unit U K H self,
      p_commit_entity_idempotent = remote_commit_entity_idempotent U K H self,
      p_read_entity_in_work_unit = remote_read_entity_in_work_unit U K H self,
      p_retrieve_entities_in_work_unit = remote_retrieve_entities_in_work_unit U K H self,
      p_commit_entity_in_work_unit = remote_commit_entity_in_work_unit U K H self,
      p_publish_work_unit = remote_publish_work_unit U K H self,
      p_checkpoint = remote_checkpoint U K H self,
      p_shutdown = remote_shutdown\<rparr>"

section \<open>Server\<close>

text \<open>The served provider is \<open>P\<close> with its state; \<open>now\<close> is the reading of the server's clock in the call.\<close>

record ProviderServerState =
  ss_token :: string
  ss_info :: RemoteProviderInfo
  ss_change_retention_ms :: nat

definition remote_provider_router ::
  "'p Provider \<Rightarrow> string \<Rightarrow> string \<Rightarrow> ProviderRecovery \<Rightarrow> nat \<Rightarrow> ProviderServerState presult" where
  "remote_provider_router P kind token recovery change_retention_seconds =
     (if token = [] then Err provider_error_new
      else if change_retention_seconds = 0 then Err provider_error_new
      else bindR (ok_or (checked_mul_u64 change_retention_seconds 1000) provider_error_new) (\<lambda>change_retention_ms.
        Ok \<lparr>ss_token = token,
            ss_info = \<lparr>pi_protocol = REMOTE_PROVIDER_PROTOCOL, pi_provider = kind,
                       pi_capabilities = p_capabilities P, pi_recovery = recovery,
                       pi_change_retention_seconds = change_retention_seconds\<rparr>,
            ss_change_retention_ms = change_retention_ms\<rparr>))"

definition authenticated :: "'b wire_env \<Rightarrow> string option \<Rightarrow> string \<Rightarrow> bool" where
  "authenticated K header token =
     (case Option.bind header (to_str K) of
        None \<Rightarrow> False
      | Some v \<Rightarrow> (let expected = ''Bearer '' @ token in length v = length expected \<and> v = expected))"

definition json_response :: "nat \<Rightarrow> 'b \<Rightarrow> 'b http_response" where
  "json_response status body = \<lparr>rs_status = status, rs_body = Some body\<rparr>"

definition remote_failure :: "'b wire_env \<Rightarrow> nat \<Rightarrow> ProviderErrorReason \<Rightarrow> 'b http_response" where
  "remote_failure K status reason = json_response status (enc_error K \<lparr>re_reason = reason\<rparr>)"

definition status_for_reason :: "ProviderErrorReason \<Rightarrow> nat" where
  "status_for_reason reason =
     (case reason of
        Unauthenticated \<Rightarrow> 401
      | DeadlineExceeded \<Rightarrow> 408
      | Unavailable \<Rightarrow> 503
      | Internal \<Rightarrow> 500)"

definition provider_shutting_down :: ProviderError where
  "provider_shutting_down = with_reason Unavailable"

text \<open>The shutdown signal as a waiting call meets it: its value on entry, whether it changes before the
  provider answers (\<open>Some None\<close> when the sender is gone, \<open>Some (Some b)\<close> for a new value \<open>b\<close>), and which
  arm of \<open>tokio::select!\<close>, which picks at random, is looked at first.\<close>

record shutdown_watch =
  sw_value :: bool
  sw_changed :: "bool option option"
  sw_first :: bool

definition shutdown_arm :: "bool option \<Rightarrow> unit option presult" where
  "shutdown_arm changed =
     (case changed of
        None \<Rightarrow> Err provider_shutting_down
      | Some stopping \<Rightarrow> if stopping then Err provider_shutting_down else Ok (Some ()))"

definition select_wait ::
  "'p Provider \<Rightarrow> shutdown_watch \<Rightarrow> string \<Rightarrow> nat \<Rightarrow> 'p \<Rightarrow> unit option presult \<times> 'p" where
  "select_wait P sw scope after_cursor p =
     (case sw_changed sw of
        None \<Rightarrow> p_wait_for_changes P scope after_cursor p
      | Some changed \<Rightarrow>
          (if sw_first sw then (shutdown_arm changed, p)
           else case p_wait_for_changes P scope after_cursor p of
              (Inr None, p) \<Rightarrow> (shutdown_arm changed, p)
            | s \<Rightarrow> s))"

definition reply_with :: "('a \<Rightarrow> ProviderReply) \<Rightarrow> 'a presult \<times> 'p \<Rightarrow> ProviderReply option presult \<times> 'p" where
  "reply_with reply s = (bindR (fst s) (\<lambda>x. Ok (Some (reply x))), snd s)"

fun execute_call ::
  "'p Provider \<Rightarrow> nat \<Rightarrow> ProviderCall \<Rightarrow> nat \<Rightarrow> shutdown_watch \<Rightarrow> 'p \<Rightarrow> ProviderReply option presult \<times> 'p" where
  "execute_call P now Health change_retention_ms sw p = reply_with (\<lambda>_. Unit) (p_health_check P p)"
| "execute_call P now (ReadEntity key consistency) change_retention_ms sw p =
     reply_with Entity (p_read_entity P key consistency p)"
| "execute_call P now (ReadChanges query) change_retention_ms sw p =
     reply_with Changes
       (p_read_changes P
          \<lparr>cq_scope_json = rcq_scope_json query, cq_entity_types = rcq_entity_types query,
           cq_entity_ids = rcq_entity_ids query, cq_after_cursor = rcq_after_cursor query,
           cq_limit = rcq_limit query,
           cq_retained_after_unix_ms = saturating_sub_u64 now change_retention_ms\<rparr> p)"
| "execute_call P now (WaitForChanges scope after_cursor) change_retention_ms sw p =
     (if sw_value sw then (Err provider_shutting_down, p)
      else let s = select_wait P sw scope after_cursor p
           in (bindR (fst s) (\<lambda>done. Ok (map_option (\<lambda>_. Unit) done)), snd s))"
| "execute_call P now (RetrieveEntities query consistency) change_retention_ms sw p =
     reply_with Retrieved (p_retrieve_entities P query consistency p)"
| "execute_call P now (CommitEntity commit) change_retention_ms sw p =
     reply_with EntityCommit (p_commit_entity P commit p)"
| "execute_call P now (ReadIdempotency scope consistency identity_json request_json now_unix_ms) change_retention_ms sw p =
     reply_with IdempotencyRead (p_read_idempotency P scope consistency identity_json request_json now_unix_ms p)"
| "execute_call P now (ReadIdempotencyInWorkUnit work_unit consistency identity_json request_json now_unix_ms allow_replay)
       change_retention_ms sw p =
     reply_with IdempotencyRead
       (p_read_idempotency_in_work_unit P work_unit consistency identity_json request_json now_unix_ms allow_replay p)"
| "execute_call P now (CommitEntityIdempotent commit idem now_unix_ms) change_retention_ms sw p =
     reply_with IdempotentCommit (p_commit_entity_idempotent P commit idem now_unix_ms p)"
| "execute_call P now (ReadEntityInWorkUnit work_unit key consistency) change_retention_ms sw p =
     reply_with WorkUnitRead (p_read_entity_in_work_unit P work_unit key consistency p)"
| "execute_call P now (RetrieveEntitiesInWorkUnit work_unit query consistency) change_retention_ms sw p =
     reply_with WorkUnitRetrieve (p_retrieve_entities_in_work_unit P work_unit query consistency p)"
| "execute_call P now (CommitEntityInWorkUnit commit) change_retention_ms sw p =
     reply_with WorkUnitCommit (p_commit_entity_in_work_unit P commit p)"
| "execute_call P now (PublishWorkUnit publish) change_retention_ms sw p =
     reply_with WorkUnitCommit (p_publish_work_unit P publish p)"
| "execute_call P now Checkpoint change_retention_ms sw p = reply_with (\<lambda>_. Unit) (p_checkpoint P p)"

definition provider_info :: "'b wire_env \<Rightarrow> ProviderServerState \<Rightarrow> string option \<Rightarrow> 'b http_response" where
  "provider_info K st header =
     (if \<not> authenticated K header (ss_token st) then remote_failure K 401 Unauthenticated
      else json_response 200 (enc_info K (ss_info st)))"

definition provider_call_http ::
  "'b wire_env \<Rightarrow> 'p Provider \<Rightarrow> ProviderServerState \<Rightarrow> nat \<Rightarrow> shutdown_watch \<Rightarrow> string option \<Rightarrow> ProviderCall \<Rightarrow> 'p
   \<Rightarrow> 'b http_response option \<times> 'p" where
  "provider_call_http K P st now sw header c p =
     (if \<not> authenticated K header (ss_token st) then (Some (remote_failure K 401 Unauthenticated), p)
      else case execute_call P now c (ss_change_retention_ms st) sw p of
        (Inr None, p) \<Rightarrow> (None, p)
      | (Inr (Some reply), p) \<Rightarrow> (Some (json_response 200 (enc_reply K reply)), p)
      | (Inl error, p) \<Rightarrow>
          (Some (json_response (status_for_reason (pe_reason error)) (enc_error K \<lparr>re_reason = pe_reason error\<rparr>)), p))"

text \<open>The routes. The JSON extractor runs before the handler: a body that is not a call is rejected with
  the extractor's response. An unknown path is \<open>404\<close>, a wrong method \<open>405\<close>.\<close>

definition serve_request ::
  "'b wire_env \<Rightarrow> 'p Provider \<Rightarrow> ProviderServerState \<Rightarrow> nat \<Rightarrow> shutdown_watch
   \<Rightarrow> http_method \<Rightarrow> string \<Rightarrow> string option \<Rightarrow> 'b option \<Rightarrow> 'p \<Rightarrow> 'b http_response option \<times> 'p" where
  "serve_request K P st now sw mth path header body p =
     (if path = ''/provider/v2/info''
      then if mth = GET then (Some (provider_info K st header), p) else (Some \<lparr>rs_status = 405, rs_body = None\<rparr>, p)
      else if path = ''/provider/v2/call''
      then if mth = POST
           then case dec_call K body of
                  Inl rejection \<Rightarrow> (Some rejection, p)
                | Inr c \<Rightarrow> provider_call_http K P st now sw header c p
           else (Some \<lparr>rs_status = 405, rs_body = None\<rparr>, p)
      else (Some \<lparr>rs_status = 404, rs_body = None\<rparr>, p))"

end
