(* ===== verification/Server_Main.thy ===== *)
theory Server_Main
  imports Server_Session Remote_Provider
begin

text \<open>
  The life of the two daemons: the accept loop of \<open>LocalServer\<close> (\<open>crates/server/src/lib.rs\<close>) and the
  commands \<open>serve\<close> and \<open>provide\<close> of \<open>crates/server/src/main.rs\<close>. The transport, the signals and the tasks of
  the connections are the environment: the loop is driven by the list of what happens to it, and leaves a
  trace of what it did. What a connection does is the subject of the session.
\<close>

section \<open>The accept loop\<close>

datatype ServerError = ServerIo | ServerEngine EngineError | ServerArtifacts | ShutdownAfterError ServerError EngineError

text \<open>What the arms of \<open>tokio::select!\<close> deliver: a connection or a failure to accept one, a change of the
  shutdown flag (\<open>None\<close> when its sender is gone), a finished connection, the shutdown signal or a failure to
  listen for it. \<open>Finished\<close> is possible for a running connection only.\<close>

datatype run_event = Accepted | AcceptFailed | ShutdownFlag "bool option" | Finished nat | Signal bool

datatype run_action = Spawned nat | Reported nat | ShutdownSent | EngineStopped

record run_state =
  rn_connections :: "nat list"
  rn_next :: nat
  rn_trace :: "run_action list"

definition act :: "run_action \<Rightarrow> run_state \<Rightarrow> run_state" where
  "act a s = s\<lparr>rn_trace := rn_trace s @ [a]\<rparr>"

definition spawn_connection :: "run_state \<Rightarrow> run_state" where
  "spawn_connection s =
     (act (Spawned (rn_next s)) s)\<lparr>rn_connections := rn_connections s @ [rn_next s], rn_next := rn_next s + 1\<rparr>"

definition report_connection_result :: "nat \<Rightarrow> run_state \<Rightarrow> run_state" where
  "report_connection_result n s = (act (Reported n) s)\<lparr>rn_connections := remove1 n (rn_connections s)\<rparr>"

text \<open>\<open>None\<close>: the loop is still running when the events end.\<close>

fun run_loop :: "run_event list \<Rightarrow> run_state \<Rightarrow> (ServerError + unit) option \<times> run_state" where
  "run_loop [] s = (None, s)"
| "run_loop (Accepted # events) s = run_loop events (spawn_connection s)"
| "run_loop (AcceptFailed # events) s = (Some (Err ServerIo), s)"
| "run_loop (ShutdownFlag changed # events) s =
     (if changed = None \<or> changed = Some True then (Some (Ok ()), s) else run_loop events s)"
| "run_loop (Finished n # events) s =
     (if n \<in> set (rn_connections s) then run_loop events (report_connection_result n s) else run_loop events s)"
| "run_loop (Signal ok # events) s = (Some (if ok then Ok () else Err ServerIo), s)"

fun join_all :: "nat list \<Rightarrow> run_state \<Rightarrow> run_state" where
  "join_all [] s = s"
| "join_all (n # ns) s = join_all ns (report_connection_result n s)"

definition combine_results :: "ServerError + unit \<Rightarrow> EngineError + unit \<Rightarrow> ServerError + unit" where
  "combine_results result stopped =
     (case (result, stopped) of
        (Inr _, Inr _) \<Rightarrow> Ok ()
      | (Inl error, Inr _) \<Rightarrow> Err error
      | (Inr _, Inl error) \<Rightarrow> Err (ServerEngine error)
      | (Inl failed, Inl stopped) \<Rightarrow> Err (ShutdownAfterError failed stopped))"

text \<open>\<open>order\<close> picks the order in which the remaining connections end.\<close>

definition run_server ::
  "('p, 'd) engine_env \<Rightarrow> (nat list \<Rightarrow> nat list) \<Rightarrow> run_event list \<Rightarrow> run_state \<Rightarrow> 'p
   \<Rightarrow> ((ServerError + unit) \<times> run_state \<times> 'p) option" where
  "run_server En order events s p =
     (case run_loop events s of
        (None, _) \<Rightarrow> None
      | (Some result, s) \<Rightarrow>
          (let s = join_all (order (rn_connections s)) (act ShutdownSent s)
           in case engine_shutdown En p of
                (stopped, p) \<Rightarrow> Some (combine_results result stopped, act EngineStopped s, p)))"

section \<open>The commands\<close>

text \<open>\<open>bind\<close> fails to listen or to open the artifact store, or it yields the server.\<close>

definition bind_server :: "bool \<Rightarrow> ArtifactStoreError + 'm ArtifactStore \<Rightarrow> ServerError + 'm ArtifactStore" where
  "bind_server listening store = (if \<not> listening then Err ServerIo else map_err (\<lambda>_. ServerArtifacts) store)"

definition initial_run :: run_state where
  "initial_run = \<lparr>rn_connections = [], rn_next = 0, rn_trace = []\<rparr>"

definition serve_command ::
  "('p, 'd) engine_env \<Rightarrow> bool \<Rightarrow> ArtifactStoreError + 'm ArtifactStore \<Rightarrow> (nat list \<Rightarrow> nat list) \<Rightarrow> run_event list \<Rightarrow> 'p
   \<Rightarrow> ((ServerError + unit) \<times> 'p) option" where
  "serve_command En listening store order events p =
     (case start En p of
        (Inl e, p) \<Rightarrow> Some (Err (ServerEngine e), p)
      | (Inr _, p) \<Rightarrow>
          (case bind_server listening store of
             Inl bind_error \<Rightarrow>
               (case engine_shutdown En p of
                  (Inl shutdown_error, p) \<Rightarrow> Some (Err (ShutdownAfterError bind_error shutdown_error), p)
                | (Inr _, p) \<Rightarrow> Some (Err bind_error, p))
           | Inr _ \<Rightarrow> map_option (\<lambda>(r, _, p). (r, p)) (run_server En order events initial_run p)))"

text \<open>The provider daemon: \<open>listening\<close> and \<open>served\<close> are the outcomes of binding the address and of \<open>axum::serve\<close>
  after its graceful shutdown; \<open>opened\<close> is that of \<open>SqliteProvider::open\<close>.\<close>

datatype ProvideError = ProvideProvider ProviderError | ProvideIo | ProvideBoth ProvideError ProviderError

definition provide_body ::
  "'p Provider \<Rightarrow> string \<Rightarrow> string \<Rightarrow> nat \<Rightarrow> bool \<Rightarrow> bool \<Rightarrow> 'p \<Rightarrow> (ProvideError + unit) \<times> 'p" where
  "provide_body P kind token change_retention_seconds listening served p =
     (case p_initialize P p of
        (Inl e, p) \<Rightarrow> (Err (ProvideProvider e), p)
      | (Inr recovery, p) \<Rightarrow>
          (case p_health_check P p of
             (Inl e, p) \<Rightarrow> (Err (ProvideProvider e), p)
           | (Inr _, p) \<Rightarrow>
               (case remote_provider_router P kind token recovery change_retention_seconds of
                  Inl e \<Rightarrow> (Err (ProvideProvider e), p)
                | Inr _ \<Rightarrow> (if listening \<and> served then Ok () else Err ProvideIo, p))))"

definition serve_provider ::
  "'p Provider \<Rightarrow> string \<Rightarrow> string \<Rightarrow> nat \<Rightarrow> bool \<Rightarrow> bool \<Rightarrow> bool \<Rightarrow> 'p \<Rightarrow> (ProvideError + unit) \<times> 'p" where
  "serve_provider P kind token change_retention_seconds opened listening served p =
     (if \<not> opened then (Err (ProvideProvider provider_error_new), p)
      else
        case provide_body P kind token change_retention_seconds listening served p of (result, p) \<Rightarrow>
          (case p_shutdown P p of (stopped, p) \<Rightarrow>
             ((case (result, stopped) of
                 (Inr _, Inr _) \<Rightarrow> Ok ()
               | (Inl error, Inr _) \<Rightarrow> Err error
               | (Inr _, Inl error) \<Rightarrow> Err (ProvideProvider error)
               | (Inl error, Inl shutdown_error) \<Rightarrow> Err (ProvideBoth error shutdown_error)), p)))"

section \<open>What is started is stopped\<close>

text \<open>The connections a trace started and those it saw the end of.\<close>

definition spawned :: "run_action list \<Rightarrow> nat list" where
  "spawned tr = List.map_filter (\<lambda>a. case a of Spawned n \<Rightarrow> Some n | _ \<Rightarrow> None) tr"

definition reported :: "run_action list \<Rightarrow> nat list" where
  "reported tr = List.map_filter (\<lambda>a. case a of Reported n \<Rightarrow> Some n | _ \<Rightarrow> None) tr"

lemma traced [simp]:
  "spawned [] = []" "reported [] = []" "spawned (tr @ tr') = spawned tr @ spawned tr'" "reported (tr @ tr') = reported tr @ reported tr'"
  "spawned [Spawned n] = [n]" "spawned [Reported n] = []" "spawned [ShutdownSent] = []" "spawned [EngineStopped] = []"
  "reported [Spawned n] = []" "reported [Reported n] = [n]" "reported [ShutdownSent] = []" "reported [EngineStopped] = []"
  by (simp_all add: spawned_def reported_def List.map_filter_def)

text \<open>The connections are those started and not yet reported; identifiers are fresh.\<close>

definition run_inv :: "run_state \<Rightarrow> bool" where
  "run_inv s \<longleftrightarrow>
     distinct (rn_connections s) \<and> distinct (spawned (rn_trace s)) \<and> distinct (reported (rn_trace s))
     \<and> set (reported (rn_trace s)) \<inter> set (rn_connections s) = {}
     \<and> set (spawned (rn_trace s)) = set (reported (rn_trace s)) \<union> set (rn_connections s)
     \<and> (\<forall>n \<in> set (spawned (rn_trace s)). n < rn_next s)"

lemma run_inv_spawn: "run_inv s \<Longrightarrow> run_inv (spawn_connection s)"
  by (auto simp: run_inv_def spawn_connection_def act_def intro: less_SucI)

lemma run_inv_report: "run_inv s \<Longrightarrow> n \<in> set (rn_connections s) \<Longrightarrow> run_inv (report_connection_result n s)"
  by (auto simp: run_inv_def report_connection_result_def act_def)

lemma run_inv_sent: "run_inv s \<Longrightarrow> run_inv (act ShutdownSent s)"
  by (simp add: run_inv_def act_def)

lemma run_loop_inv: "run_loop events s = (r, s') \<Longrightarrow> run_inv s \<Longrightarrow> run_inv s' \<and> (EngineStopped \<in> set (rn_trace s') \<longrightarrow> EngineStopped \<in> set (rn_trace s))"
proof (induction events s rule: run_loop.induct)
  case (2 events s)
  then show ?case using run_inv_spawn[of s] by (simp add: spawn_connection_def act_def)
next
  case (5 n events s)
  then show ?case using run_inv_report[of s n] by (auto simp: report_connection_result_def act_def split: if_splits)
qed (auto split: if_splits)

lemma join_all_inv:
  assumes "run_inv s" "distinct ns" "set ns \<subseteq> set (rn_connections s)"
  shows "run_inv (join_all ns s) \<and> set (rn_connections (join_all ns s)) = set (rn_connections s) - set ns
    \<and> set (rn_trace (join_all ns s)) = set (rn_trace s) \<union> Reported ` set ns"
  using assms
proof (induction ns arbitrary: s)
  case (Cons n ns)
  let ?s = "report_connection_result n s"
  have c: "set (rn_connections ?s) = set (rn_connections s) - {n}"
    using Cons.prems(1) by (simp add: report_connection_result_def run_inv_def act_def)
  with Cons.prems have "run_inv ?s" "set ns \<subseteq> set (rn_connections ?s)" by (auto intro: run_inv_report)
  with Cons.IH[of ?s] Cons.prems(2) c show ?case by (auto simp: report_connection_result_def act_def)
qed simp

text \<open>When the accept loop ends, for whatever reason, every connection it had accepted has ended and was
  reported once before the engine is stopped, the engine is stopped once, as the last thing, and the server
  succeeds exactly when both the loop and the engine's shutdown did.\<close>

theorem server_stops_in_order:
  assumes "run_server En order events initial_run p = Some (r, s, p')"
    and "\<forall>ns. distinct (order ns) = distinct ns \<and> set (order ns) = set ns"
  shows "(\<exists>tr. rn_trace s = tr @ [EngineStopped] \<and> EngineStopped \<notin> set tr \<and> ShutdownSent \<in> set tr
           \<and> distinct (spawned tr) \<and> distinct (reported tr) \<and> set (reported tr) = set (spawned tr))
    \<and> p' = snd (engine_shutdown En p)
    \<and> (r = Inr () \<longleftrightarrow> (\<exists>s1. run_loop events initial_run = (Some (Inr ()), s1)) \<and> fst (engine_shutdown En p) = Inr ())"
proof -
  from assms(1) obtain result s1 where l: "run_loop events initial_run = (Some result, s1)"
    and s: "s = act EngineStopped (join_all (order (rn_connections s1)) (act ShutdownSent s1))"
    and p: "p' = snd (engine_shutdown En p)" and r: "r = combine_results result (fst (engine_shutdown En p))"
    by (auto simp: run_server_def Let_def split: prod.splits option.splits)
  have "run_inv initial_run" by (simp add: run_inv_def initial_run_def)
  from run_loop_inv[OF l this] have i: "run_inv s1" "EngineStopped \<notin> set (rn_trace s1)" by (auto simp: initial_run_def)
  let ?j = "join_all (order (rn_connections s1)) (act ShutdownSent s1)"
  have "set (order (rn_connections s1)) \<subseteq> set (rn_connections (act ShutdownSent s1))" "distinct (order (rn_connections s1))"
    using assms(2) i(1) by (simp_all add: act_def run_inv_def)
  from join_all_inv[OF run_inv_sent[OF i(1)] this(2,1)] assms(2) have
    j: "run_inv ?j" "set (rn_connections ?j) = {}" "set (rn_trace ?j) = insert ShutdownSent (set (rn_trace s1)) \<union> Reported ` set (rn_connections s1)"
    by (auto simp: act_def)
  have "rn_trace s = rn_trace ?j @ [EngineStopped]" by (simp add: s act_def)
  moreover have "r = Inr () \<longleftrightarrow> result = Inr () \<and> fst (engine_shutdown En p) = Inr ()"
    by (auto simp: r combine_results_def split: sum.splits)
  ultimately show ?thesis using j i(2) p l by (auto simp: run_inv_def)
qed

text \<open>The provider daemon stops the provider it opened on every path, and succeeds exactly when everything did.\<close>

theorem provide_always_stops:
  assumes "serve_provider P kind token secs True listening served p = (r, p')"
  shows "p' = snd (p_shutdown P (snd (provide_body P kind token secs listening served p)))
    \<and> (r = Inr () \<longleftrightarrow> fst (provide_body P kind token secs listening served p) = Inr ()
         \<and> fst (p_shutdown P (snd (provide_body P kind token secs listening served p))) = Inr ())"
  using assms by (auto simp: serve_provider_def split: prod.splits sum.splits)

end
