(* ===== verification/Remote_Links.thy ===== *)
theory Remote_Links
  imports Remote_Provider Retrieval_Pages
begin

text \<open>
  A remote provider and the server behind it, joined by a network. Over a reliable link the remote provider
  is the served provider, but for calls longer than the server's extractor accepts and for scores, which JSON
  may not read back exactly; over any link every call is executed at most once, an answer is the answer of
  that execution, and an idempotent commit that is retried takes effect at most once. A client without the
  token reaches nothing.
\<close>

section \<open>Links\<close>

text \<open>What arrives of a value with scores in it: \<open>serde_json\<close> without its feature \<open>float_roundtrip\<close>
  may read another double than the one written, \<open>f\<close> says which.\<close>

definition on_wire_cursor :: "(f64 \<Rightarrow> f64) \<Rightarrow> RetrieveCursor \<Rightarrow> RetrieveCursor" where
  "on_wire_cursor f k = k\<lparr>rcu_score := f (rcu_score k)\<rparr>"

definition on_wire_query :: "(f64 \<Rightarrow> f64) \<Rightarrow> RetrieveQuery \<Rightarrow> RetrieveQuery" where
  "on_wire_query f q = q\<lparr>rq_after := map_option (on_wire_cursor f) (rq_after q)\<rparr>"

definition on_wire_page :: "(f64 \<Rightarrow> f64) \<Rightarrow> RetrievedPage \<Rightarrow> RetrievedPage" where
  "on_wire_page f page =
     \<lparr>rp_entities = map (\<lambda>e. e\<lparr>re_score := f (re_score e)\<rparr>) (rp_entities page),
      rp_next_cursor = map_option (on_wire_cursor f) (rp_next_cursor page)\<rparr>"

fun on_wire_read :: "(f64 \<Rightarrow> f64) \<Rightarrow> RetrievedPage ConsistentRead \<Rightarrow> RetrievedPage ConsistentRead" where
  "on_wire_read f (Read page ob) = Read (on_wire_page f page) ob"
| "on_wire_read f ReadUnavailable = ReadUnavailable"

fun on_wire_retrieve :: "(f64 \<Rightarrow> f64) \<Rightarrow> WorkUnitRetrieveOutcome \<Rightarrow> WorkUnitRetrieveOutcome" where
  "on_wire_retrieve f (WtOpen r) = WtOpen (on_wire_read f r)"
| "on_wire_retrieve f out = out"

fun on_wire_call :: "(f64 \<Rightarrow> f64) \<Rightarrow> ProviderCall \<Rightarrow> ProviderCall" where
  "on_wire_call f (RetrieveEntities q rc) = RetrieveEntities (on_wire_query f q) rc"
| "on_wire_call f (RetrieveEntitiesInWorkUnit wu q rc) = RetrieveEntitiesInWorkUnit wu (on_wire_query f q) rc"
| "on_wire_call f c = c"

fun on_wire_reply :: "(f64 \<Rightarrow> f64) \<Rightarrow> ProviderReply \<Rightarrow> ProviderReply" where
  "on_wire_reply f (Retrieved r) = Retrieved (on_wire_read f r)"
| "on_wire_reply f (WorkUnitRetrieve out) = WorkUnitRetrieve (on_wire_retrieve f out)"
| "on_wire_reply f r = r"

text \<open>\<open>axum\<close> limits the body an extractor reads to two megabytes unless a layer sets another limit;
  the router sets none.\<close>

definition DEFAULT_BODY_LIMIT :: nat where
  "DEFAULT_BODY_LIMIT = 2097152"

definition call_fits :: "'b wire_env \<Rightarrow> ProviderCall \<Rightarrow> bool" where
  "call_fits K c \<longleftrightarrow> wire_size K (enc_call K c) \<le> DEFAULT_BODY_LIMIT"

text \<open>What the libraries document: a body within the limit is decoded to the call it encodes, up to
  the scores, a longer one is rejected with \<open>413\<close> and a text that is no \<open>RemoteError\<close>; replies are decoded
  to what they encode, up to the scores, and descriptions and errors exactly.\<close>

definition wire_faithful :: "'b wire_env \<Rightarrow> bool" where
  "wire_faithful K \<longleftrightarrow>
     (\<forall>c. if call_fits K c then dec_call K (Some (enc_call K c)) = Inr (on_wire_call (wire_score K) c)
          else \<exists>rejection. dec_call K (Some (enc_call K c)) = Inl rejection \<and> rs_status rejection = 413
                 \<and> Option.bind (rs_body rejection) (dec_error K) = None)
     \<and> (\<forall>r. dec_reply K (enc_reply K r) = Some (on_wire_reply (wire_score K) r))
     \<and> (\<forall>i. dec_info K (enc_info K i) = Some i) \<and> (\<forall>e. dec_error K (enc_error K e) = Some e)"

text \<open>The server's answer to a request.\<close>

definition answer_to ::
  "'u url_env \<Rightarrow> 'b wire_env \<Rightarrow> 'p Provider \<Rightarrow> ProviderServerState \<Rightarrow> nat \<Rightarrow> shutdown_watch
   \<Rightarrow> ('u, 'b) http_request \<Rightarrow> 'p \<Rightarrow> 'b http_response option \<times> 'p" where
  "answer_to U K P st now sw req =
     serve_request K P st now sw (hr_method req) (url_path U (hr_url req)) (hr_authorization req) (hr_body req)"

text \<open>A network that delivers every request once and every answer, and one that may lose a request, or
  its answer after the server has executed it.\<close>

definition reliable_link ::
  "'u url_env \<Rightarrow> 'b wire_env \<Rightarrow> ('u, 'b, 'p) http_env \<Rightarrow> 'p Provider \<Rightarrow> ProviderServerState \<Rightarrow> nat \<Rightarrow> shutdown_watch \<Rightarrow> bool" where
  "reliable_link U K H P st now sw \<longleftrightarrow>
     http_build H = None
     \<and> (\<forall>req p. http_send H req p = apfst (map_option Inr) (answer_to U K P st now sw req p))"

definition lost :: "(reqwest_error + 'b http_response) option \<Rightarrow> bool" where
  "lost out \<longleftrightarrow> (case out of None \<Rightarrow> True | Some r \<Rightarrow> isl r)"

definition lossy_link ::
  "'u url_env \<Rightarrow> 'b wire_env \<Rightarrow> ('u, 'b, 'p) http_env \<Rightarrow> 'p Provider \<Rightarrow> ProviderServerState \<Rightarrow> nat \<Rightarrow> shutdown_watch \<Rightarrow> bool" where
  "lossy_link U K H P st now sw \<longleftrightarrow>
     (\<forall>req p out p'. http_send H req p = (out, p') \<longrightarrow>
        lost out \<and> p' = p
        \<or> (\<exists>answer. answer_to U K P st now sw req p = (answer, p') \<and> (lost out \<or> out = map_option Inr answer)))"

definition endpoint_routes :: "'u url_env \<Rightarrow> string \<Rightarrow> 'u \<Rightarrow> bool" where
  "endpoint_routes U endpoint base \<longleftrightarrow>
     normalize_endpoint U endpoint = Inr base
     \<and> (\<exists>u. url_join U base ''info'' = Some u \<and> url_path U u = ''/provider/v2/info'')
     \<and> (\<exists>u. url_join U base ''call'' = Some u \<and> url_path U u = ''/provider/v2/call'')"

section \<open>Reasons and statuses\<close>

lemma reason_for_status_for_reason [simp]: "reason_for_status (status_for_reason r) = r"
  by (cases r) (simp_all add: reason_for_status_def status_for_reason_def)

lemma status_for_reason_failure [simp]: "\<not> is_success (status_for_reason r)"
  by (cases r) (simp_all add: is_success_def status_for_reason_def)

lemma is_success_200 [simp]: "is_success 200"
  by (simp add: is_success_def)

lemma with_pe_reason [simp]: "with_reason (pe_reason e) = e"
  by (simp add: with_reason_def)

lemma decode_answer [simp]: "decode_response K dec (json_response 200 b) = ok_or (dec b) provider_error_new"
  by (simp add: decode_response_def json_response_def)

lemma decode_failure [simp]:
  assumes "wire_faithful K"
  shows "decode_response K dec (json_response (status_for_reason r) (enc_error K \<lparr>re_reason = r\<rparr>)) = Inl (with_reason r)"
  using assms by (cases r) (simp_all add: decode_response_def json_response_def wire_faithful_def)

lemma authenticated_bearer:
  "to_str K (bearer token) = Some (bearer token) \<Longrightarrow> authenticated K (Some (bearer token)) token' \<longleftrightarrow> token = token'"
  by (auto simp: authenticated_def bearer_def)

section \<open>Calls over a reliable link\<close>

text \<open>What the client makes of an execution: an open exchange runs into the client's timeout.\<close>

definition received :: "(f64 \<Rightarrow> f64) \<Rightarrow> nat option \<Rightarrow> ProviderReply option presult \<Rightarrow> ProviderReply option presult" where
  "received f timeout out =
     (case out of
        Inr None \<Rightarrow> if timeout = None then Ok None else Err deadline_exceeded
      | Inr (Some r) \<Rightarrow> Ok (Some (on_wire_reply f r))
      | Inl e \<Rightarrow> Err e)"

text \<open>An operation behind the link: a call that is too long fails as \<open>Internal\<close> and reaches nothing.\<close>

definition over_wire :: "'b wire_env \<Rightarrow> ProviderCall \<Rightarrow> ('p \<Rightarrow> 'a presult \<times> 'p) \<Rightarrow> 'p \<Rightarrow> 'a presult \<times> 'p" where
  "over_wire K c run p = (if call_fits K c then run p else (Err (with_reason Internal), p))"

definition answer_with :: "('a \<Rightarrow> 'b) \<Rightarrow> ('p \<Rightarrow> 'a presult \<times> 'p) \<Rightarrow> 'p \<Rightarrow> 'b presult \<times> 'p" where
  "answer_with h run p = (case run p of (r, p) \<Rightarrow> (bindR r (\<lambda>x. Ok (h x)), p))"

lemma answer_with_same [simp]: "answer_with (\<lambda>x. x) run = run"
proof
  show "answer_with (\<lambda>x. x) run p = run p" for p by (cases "fst (run p)") (simp_all add: answer_with_def case_prod_beta' prod_eq_iff)
qed

lemma timed_out [simp]: "transport_error \<lparr>is_timeout = True, is_connect = a, is_request = b\<rparr> = deadline_exceeded"
  by (simp add: transport_error_def with_reason_def deadline_exceeded_def)

text \<open>The client \<open>self\<close> talks to the server in state \<open>st\<close>.\<close>

definition paired :: "'u url_env \<Rightarrow> 'b wire_env \<Rightarrow> 'u RemoteProvider \<Rightarrow> ProviderServerState \<Rightarrow> bool" where
  "paired U K self st \<longleftrightarrow>
     wire_faithful K \<and> rp_token self = ss_token st \<and> to_str K (bearer (ss_token st)) = Some (bearer (ss_token st))
     \<and> (\<exists>u. url_join U (rp_endpoint self) ''call'' = Some u \<and> url_path U u = ''/provider/v2/call'')"

lemma answer_to_call:
  assumes "paired U K self st" "url_path U u = ''/provider/v2/call''" "call_fits K c"
    and "execute_call P now (on_wire_call (wire_score K) c) (ss_change_retention_ms st) sw p = (out, p')"
  shows "answer_to U K P st now sw \<lparr>hr_method = POST, hr_url = u, hr_authorization = Some (bearer (rp_token self)),
      hr_body = Some (enc_call K c), hr_timeout_seconds = t\<rparr> p =
    ((case out of Inr None \<Rightarrow> None
      | Inr (Some reply) \<Rightarrow> Some (json_response 200 (enc_reply K reply))
      | Inl e \<Rightarrow> Some (json_response (status_for_reason (pe_reason e)) (enc_error K \<lparr>re_reason = pe_reason e\<rparr>))), p')"
  using assms by (auto simp: answer_to_def serve_request_def provider_call_http_def paired_def wire_faithful_def
      authenticated_bearer split: sum.splits option.splits)

lemma answer_to_long_call:
  assumes "wire_faithful K" "url_path U u = ''/provider/v2/call''" "\<not> call_fits K c"
  shows "\<exists>rejection. answer_to U K P st now sw \<lparr>hr_method = POST, hr_url = u, hr_authorization = a,
      hr_body = Some (enc_call K c), hr_timeout_seconds = t\<rparr> p = (Some rejection, p)
    \<and> decode_response K dec rejection = Inl (with_reason Internal)"
proof -
  from assms(1,3) obtain rejection where "dec_call K (Some (enc_call K c)) = Inl rejection" "rs_status rejection = 413"
    "Option.bind (rs_body rejection) (dec_error K) = None" unfolding wire_faithful_def by meson
  with assms(2) show ?thesis
    by (intro exI[of _ rejection])
       (simp add: answer_to_def serve_request_def decode_response_def is_success_def reason_for_status_def)
qed

lemma call_reliable:
  assumes "paired U K self st" "reliable_link U K H P st now sw" "call_fits K c"
    and "execute_call P now (on_wire_call (wire_score K) c) (ss_change_retention_ms st) sw p = (out, p')"
  shows "call_with_timeout U K H self c t p = (received (wire_score K) t out, p')"
proof -
  from assms(1) obtain u where u: "url_join U (rp_endpoint self) ''call'' = Some u" "url_path U u = ''/provider/v2/call''"
    and K: "wire_faithful K" by (auto simp: paired_def)
  then have d: "dec_reply K (enc_reply K r) = Some (on_wire_reply (wire_score K) r)" for r by (simp add: wire_faithful_def)
  from assms(2) answer_to_call[OF assms(1) u(2) assms(3,4)] u(1) K d show ?thesis
    by (auto simp: call_with_timeout_def send_def reliable_link_def received_def split: sum.splits option.splits)
qed

lemma long_call_reliable:
  assumes "paired U K self st" "reliable_link U K H P st now sw" "\<not> call_fits K c"
  shows "call_with_timeout U K H self c t p = (Inl (with_reason Internal), p)"
proof -
  from assms(1) obtain u where u: "url_join U (rp_endpoint self) ''call'' = Some u" "url_path U u = ''/provider/v2/call''"
    and K: "wire_faithful K" by (auto simp: paired_def)
  from answer_to_long_call[OF K u(2) assms(3), of P st now sw "Some (bearer (rp_token self))" t p "dec_reply K"]
  obtain rejection where "answer_to U K P st now sw \<lparr>hr_method = POST, hr_url = u, hr_authorization = Some (bearer (rp_token self)),
      hr_body = Some (enc_call K c), hr_timeout_seconds = t\<rparr> p = (Some rejection, p)"
    "decode_response K (dec_reply K) rejection = Inl (with_reason Internal)" by blast
  with assms(2) u(1) show ?thesis by (simp add: call_with_timeout_def send_def reliable_link_def)
qed

lemma expect_reliable:
  assumes "paired U K self st" "reliable_link U K H P st now sw"
    and "execute_call P now (on_wire_call (wire_score K) c) (ss_change_retention_ms st) sw p = reply_with g (run p)"
    and "\<And>x. f (on_wire_reply (wire_score K) (g x)) = Some (h x)"
  shows "expect_reply f (remote_call U K H self c p) = over_wire K c (answer_with h run) p"
proof (cases "call_fits K c")
  case True
  obtain r p' where s: "run p = (r, p')" by fastforce
  have "execute_call P now (on_wire_call (wire_score K) c) (ss_change_retention_ms st) sw p = (bindR r (\<lambda>x. Ok (Some (g x))), p')"
    using assms(3) by (simp add: s reply_with_def)
  from call_reliable[OF assms(1,2) True this] assms(4) True show ?thesis
    by (cases r) (simp_all add: s remote_call_def answered_def expect_reply_def received_def over_wire_def answer_with_def)
next
  case False
  with long_call_reliable[OF assms(1,2)] show ?thesis
    by (simp add: remote_call_def answered_def expect_reply_def over_wire_def)
qed

text \<open>The operations of the client are those of the server, over the wire.\<close>

definition same_operations :: "'b wire_env \<Rightarrow> 'p Provider \<Rightarrow> 'p Provider \<Rightarrow> bool" where
  "same_operations K R P \<longleftrightarrow>
     p_capabilities R = p_capabilities P
     \<and> p_health_check R = over_wire K Health (p_health_check P)
     \<and> (\<forall>key rc. p_read_entity R key rc = over_wire K (ReadEntity key rc) (p_read_entity P key rc))
     \<and> (\<forall>q rc. p_retrieve_entities R q rc =
          over_wire K (RetrieveEntities q rc)
            (answer_with (on_wire_read (wire_score K)) (p_retrieve_entities P (on_wire_query (wire_score K) q) rc)))
     \<and> (\<forall>c. p_commit_entity R c = over_wire K (CommitEntity c) (p_commit_entity P c))
     \<and> (\<forall>s rc i rq now. p_read_idempotency R s rc i rq now =
          over_wire K (ReadIdempotency s rc i rq now) (p_read_idempotency P s rc i rq now))
     \<and> (\<forall>wu rc i rq now allow. p_read_idempotency_in_work_unit R wu rc i rq now allow =
          over_wire K (ReadIdempotencyInWorkUnit wu rc i rq now allow) (p_read_idempotency_in_work_unit P wu rc i rq now allow))
     \<and> (\<forall>c idem now. p_commit_entity_idempotent R c idem now =
          over_wire K (CommitEntityIdempotent c idem now) (p_commit_entity_idempotent P c idem now))
     \<and> (\<forall>wu key rc. p_read_entity_in_work_unit R wu key rc =
          over_wire K (ReadEntityInWorkUnit wu key rc) (p_read_entity_in_work_unit P wu key rc))
     \<and> (\<forall>wu q rc. p_retrieve_entities_in_work_unit R wu q rc =
          over_wire K (RetrieveEntitiesInWorkUnit wu q rc)
            (answer_with (on_wire_retrieve (wire_score K))
               (p_retrieve_entities_in_work_unit P wu (on_wire_query (wire_score K) q) rc)))
     \<and> (\<forall>wc. p_commit_entity_in_work_unit R wc =
          over_wire K (CommitEntityInWorkUnit wc) (p_commit_entity_in_work_unit P wc))
     \<and> (\<forall>w. p_publish_work_unit R w = over_wire K (PublishWorkUnit w) (p_publish_work_unit P w))
     \<and> p_checkpoint R = over_wire K Checkpoint (p_checkpoint P)"

lemmas remote_method_defs =
  remote_health_check_def remote_read_entity_def remote_read_changes_def remote_retrieve_entities_def
  remote_commit_entity_def remote_read_idempotency_def remote_read_idempotency_in_work_unit_def
  remote_commit_entity_idempotent_def remote_read_entity_in_work_unit_def remote_retrieve_entities_in_work_unit_def
  remote_commit_entity_in_work_unit_def remote_publish_work_unit_def remote_checkpoint_def

lemma expect_reliable_same:
  assumes "paired U K self st" "reliable_link U K H P st now sw"
    and "execute_call P now (on_wire_call (wire_score K) c) (ss_change_retention_ms st) sw p = reply_with g (run p)"
    and "\<And>x. f (on_wire_reply (wire_score K) (g x)) = Some x"
  shows "expect_reply f (remote_call U K H self c p) = over_wire K c run p"
  using expect_reliable[where run = run and g = g and f = f and h = "\<lambda>x. x", OF assms] by simp

lemma reliable_operations:
  assumes "paired U K self st" "reliable_link U K H P st now sw" "remote_capabilities self = p_capabilities P"
  shows "same_operations K (remote_ops U K H self) P"
  unfolding same_operations_def
  by (intro conjI allI; (rule ext)?; simp add: remote_ops_def remote_method_defs assms(3);
      ((rule expect_reliable_same[OF assms(1,2)], simp, simp) | (rule expect_reliable[OF assms(1,2)], simp, simp))?)

definition to_remote_query :: "ChangeQuery \<Rightarrow> RemoteChangeQuery" where
  "to_remote_query q =
     \<lparr>rcq_scope_json = cq_scope_json q, rcq_entity_types = cq_entity_types q, rcq_entity_ids = cq_entity_ids q,
      rcq_after_cursor = cq_after_cursor q, rcq_limit = cq_limit q\<rparr>"

lemma reliable_read_changes:
  assumes "paired U K self st" "reliable_link U K H P st now sw"
  shows "remote_read_changes U K H self q =
    over_wire K (ReadChanges (to_remote_query q))
      (p_read_changes P (q\<lparr>cq_retained_after_unix_ms := now - ss_change_retention_ms st\<rparr>))"
  unfolding remote_read_changes_def fun_eq_iff to_remote_query_def
  by (cases q, intro allI expect_reliable_same[OF assms, where g = Changes]) (simp_all add: saturating_sub_u64_def)

lemma reliable_wait:
  assumes "paired U K self st" "reliable_link U K H P st now sw" "\<not> sw_value sw" "sw_changed sw = None"
  shows "remote_wait_for_changes U K H self scope cursor =
    over_wire K (WaitForChanges scope cursor) (p_wait_for_changes P scope cursor)"
proof
  fix p
  show "remote_wait_for_changes U K H self scope cursor p =
    over_wire K (WaitForChanges scope cursor) (p_wait_for_changes P scope cursor) p"
  proof (cases "call_fits K (WaitForChanges scope cursor)")
    case False
    with long_call_reliable[OF assms(1,2) False, of None p] show ?thesis by (simp add: remote_wait_for_changes_def over_wire_def)
  next
    case True
    obtain r p' where r: "p_wait_for_changes P scope cursor p = (r, p')" by fastforce
    then have "execute_call P now (on_wire_call (wire_score K) (WaitForChanges scope cursor)) (ss_change_retention_ms st) sw p =
        (bindR r (\<lambda>done. Ok (map_option (\<lambda>_. Unit) done)), p')"
      by (simp add: assms(3,4) select_wait_def Let_def)
    from call_reliable[OF assms(1,2) True this, of None] r True show ?thesis
      by (cases r; cases "projr r") (simp_all add: remote_wait_for_changes_def received_def over_wire_def)
  qed
qed


text \<open>A client that connects finds the server's description.\<close>

lemma router_state:
  assumes "remote_provider_router P kind token recovery secs = Inr st"
  shows "ss_token st = token" "token \<noteq> []" "ss_change_retention_ms st = secs * 1000" "0 < secs" "secs * 1000 \<le> u64_max"
    "pi_capabilities (ss_info st) = p_capabilities P" "pi_recovery (ss_info st) = recovery"
    "pi_protocol (ss_info st) = REMOTE_PROVIDER_PROTOCOL"
  using assms by (auto simp: remote_provider_router_def bindR_eq_Inr checked_mul_u64_def split: if_splits)

lemma connect_reliable:
  assumes "wire_faithful K" "remote_provider_router P kind token recovery secs = Inr st"
    and "to_str K (bearer token) = Some (bearer token)" "endpoint_routes U endpoint base"
    and "reliable_link U K H P st now sw"
  shows "connect U K H endpoint token w = (Inr \<lparr>rp_endpoint = base, rp_token = token, rp_info = ss_info st\<rparr>, w)"
proof -
  from assms(4) obtain u where u: "normalize_endpoint U endpoint = Inr base" "url_join U base ''info'' = Some u"
    "url_path U u = ''/provider/v2/info''" by (auto simp: endpoint_routes_def)
  note st = router_state[OF assms(2)]
  have "answer_to U K P st now sw \<lparr>hr_method = GET, hr_url = u, hr_authorization = Some (bearer token), hr_body = None,
      hr_timeout_seconds = Some 30\<rparr> w = (Some (json_response 200 (enc_info K (ss_info st))), w)"
    using assms(3) st(1) u(3) by (simp add: answer_to_def serve_request_def provider_info_def authenticated_bearer)
  with assms(1,5) u(1,2) st(2,8) show ?thesis
    by (simp add: connect_def send_def reliable_link_def answered_def wire_faithful_def)
qed

text \<open>
  C24. A remote provider is the served one, over the wire. A client that connects over a reliable network to
  a server with the same token gets a provider whose operations are those of the served provider: the same
  answers, the same reasons of failures and the same effects. The exceptions are stated: a call whose body is longer
  than the two megabytes the server's JSON extractor accepts fails as \<open>Internal\<close> without effect; the
  score of a cursor or of a hit is the one JSON reads back; starting it reports the
  recovery the server found when it started, stopping it does not stop the server, changes are
  retained by the server's clock and retention and not by the client's, and waiting is that of the
  served provider as long as the server is not stopping.
\<close>
theorem remote_provider_is_transparent:
  assumes "wire_faithful K" and "remote_provider_router P kind token recovery secs = Inr st"
    and "to_str K (bearer token) = Some (bearer token)" and "endpoint_routes U endpoint base"
    and "reliable_link U K H P st now sw"
  shows "\<exists>self. (\<forall>w. connect U K H endpoint token w = (Inr self, w))
    \<and> same_operations K (remote_ops U K H self) P
    \<and> (\<forall>w. p_initialize (remote_ops U K H self) w = (Inr recovery, w))
    \<and> (\<forall>w. p_shutdown (remote_ops U K H self) w = (Inr (), w))
    \<and> (\<forall>q. p_read_changes (remote_ops U K H self) q =
          over_wire K (ReadChanges (to_remote_query q))
            (p_read_changes P (q\<lparr>cq_retained_after_unix_ms := now - secs * 1000\<rparr>)))
    \<and> (\<not> sw_value sw \<and> sw_changed sw = None \<longrightarrow>
          (\<forall>scope cursor. p_wait_for_changes (remote_ops U K H self) scope cursor =
             over_wire K (WaitForChanges scope cursor) (p_wait_for_changes P scope cursor)))"
proof -
  let ?self = "\<lparr>rp_endpoint = base, rp_token = token, rp_info = ss_info st\<rparr>"
  note st = router_state[OF assms(2)]
  have p: "paired U K ?self st" using assms(1,3,4) st(1) by (auto simp: paired_def endpoint_routes_def)
  have "remote_capabilities ?self = p_capabilities P" using st by (simp add: remote_capabilities_def)
  with reliable_operations[OF p assms(5)] reliable_read_changes[OF p assms(5)] reliable_wait[OF p assms(5)]
    connect_reliable[OF assms] st show ?thesis
    by (intro exI[of _ ?self] conjI) (simp_all add: remote_ops_def remote_initialize_def remote_shutdown_def fun_eq_iff)
qed

section \<open>Calls over a lossy link\<close>

lemma send_lost:
  assumes "http_send H (request\<lparr>hr_authorization := Some (bearer token)\<rparr>) w = (out, w')" "lost out"
  shows "snd (send K H dec request token w) = w' \<and> (\<forall>x. fst (send K H dec request token w) \<noteq> Inr (Some x))"
  using assms by (auto simp: send_def lost_def split: option.splits sum.splits)

text \<open>A call is executed or not; when the client has an answer, the call was executed and answered so.\<close>

lemma call_lossy:
  assumes pr: "paired U K self st" and link: "lossy_link U K H P st now sw"
    and run: "call_with_timeout U K H self c t p = (r, p')"
  shows "p' = p \<and> (\<forall>x. r \<noteq> Inr (Some x))
    \<or> (\<exists>out. execute_call P now (on_wire_call (wire_score K) c) (ss_change_retention_ms st) sw p = (out, p')
         \<and> (\<forall>x. r = Inr (Some x) \<longrightarrow> (\<exists>y. out = Inr (Some y) \<and> x = on_wire_reply (wire_score K) y)))"
proof -
  from pr obtain u where u: "url_join U (rp_endpoint self) ''call'' = Some u" "url_path U u = ''/provider/v2/call''"
    and K: "wire_faithful K" by (auto simp: paired_def)
  let ?req = "\<lparr>hr_method = POST, hr_url = u, hr_authorization = None, hr_body = Some (enc_call K c), hr_timeout_seconds = t\<rparr>"
  let ?auth = "?req\<lparr>hr_authorization := Some (bearer (rp_token self))\<rparr>"
  let ?call = "on_wire_call (wire_score K) c"
  obtain out p1 where x: "http_send H ?auth p = (out, p1)" by fastforce
  obtain res p2 where ex: "execute_call P now ?call (ss_change_retention_ms st) sw p = (res, p2)" by fastforce
  obtain answer p3 where ans: "answer_to U K P st now sw ?auth p = (answer, p3)" by fastforce
  have s: "send K H (dec_reply K) ?req (rp_token self) p = (r, p')" using run u(1) by (simp add: call_with_timeout_def)
  consider "lost out" "p1 = p" | "lost out" "p1 = p3"
    | "\<not> lost out" "p1 = p3" "out = map_option Inr answer"
    using link x ans unfolding lossy_link_def by fastforce
  then show ?thesis
  proof cases
    case 1
    then show ?thesis using send_lost[OF x, of K "dec_reply K"] s by auto
  next
    case 2
    have "p3 = p2 \<or> p3 = p"
    proof (cases "call_fits K c")
      case True
      with answer_to_call[OF pr u(2) True ex, of t] ans show ?thesis by auto
    next
      case False
      from answer_to_long_call[OF K u(2) False, of P st now sw "Some (bearer (rp_token self))" t p] ans show ?thesis by auto
    qed
    then show ?thesis using 2 send_lost[OF x, of K "dec_reply K"] s ex by auto
  next
    case 3
    show ?thesis
    proof (cases "call_fits K c")
      case True
      with 3 answer_to_call[OF pr u(2) True ex, of t] ans have "r = received (wire_score K) t res" "p' = p2"
        using s x K by (auto simp: send_def lost_def wire_faithful_def received_def split: sum.splits option.splits)
      with ex show ?thesis by (auto simp: received_def split: sum.splits option.splits if_splits)
    next
      case False
      from answer_to_long_call[OF K u(2) False] obtain rejection where
        "answer_to U K P st now sw ?auth p = (Some rejection, p)"
        "decode_response K (dec_reply K) rejection = Inl (with_reason Internal)" by fastforce
      with 3 ans s x show ?thesis by (auto simp: send_def)
    qed
  qed
qed

lemma expect_lossy:
  assumes "paired U K self st" "lossy_link U K H P st now sw"
    and "execute_call P now (on_wire_call (wire_score K) c) (ss_change_retention_ms st) sw p = reply_with g s"
    and "\<And>x. f (on_wire_reply (wire_score K) (g x)) = Some x"
    and "expect_reply f (remote_call U K H self c p) = (r, p')"
  shows "p' = p \<and> isl r \<or> p' = snd s \<and> (isl r \<or> r = fst s)"
proof -
  obtain r1 p1 where c: "call_with_timeout U K H self c (Some 30) p = (r1, p1)" by fastforce
  have r: "p' = p1" "r = bindR (bindR r1 (\<lambda>x. ok_or x deadline_exceeded)) (\<lambda>reply. ok_or (f reply) unexpected_reply)"
    using assms(5) c by (simp_all add: remote_call_def answered_def expect_reply_def)
  show ?thesis
  proof (cases "\<exists>x. r1 = Inr (Some x)")
    case True
    with call_lossy[OF assms(1,2) c] assms(3) obtain x where
      "r1 = Inr (Some (on_wire_reply (wire_score K) (g x)))" "fst s = Inr x" "p1 = snd s"
      by (auto simp: reply_with_def bindR_eq_Inr)
    with r assms(4) show ?thesis by simp
  next
    case False
    then have "isl r" using r by (cases r1; cases "projr r1") auto
    with call_lossy[OF assms(1,2) c] assms(3) r(1) show ?thesis by (auto simp: reply_with_def)
  qed
qed


section \<open>Retrying a commit\<close>

lemma idempotent_commit_replays:
  assumes "provider_commit_entity_idempotent E clk c idem now p = (Inr ICommitted, p')" "tbl_wf (t_idempotency (sp_db p))"
    and "now2 < ir_expires_at_unix_ms idem" "now2 \<le> i64_max"
  shows "provider_commit_entity_idempotent E2 clk2 c idem now2 p' = (Inr (IReplayed (ir_result_json idem)), p')"
proof -
  obtain db' where db': "commit_entity_idempotent E clk c idem now (sp_db p) = (Inr ICommitted, db')" "sp_connected p"
    "p' = p\<lparr>sp_db := db', sp_changes := sp_changes p + 1\<rparr>"
    using assms(1) by (auto simp: provider_commit_entity_idempotent_def signal_changes_def call_def Let_def split: prod.splits if_splits)
  note row = committed_idempotency_row[OF assms(2) db'(1)]
  from idempotent_replay[OF row(2,1)] assms(3,4) db'(2,3) show ?thesis
    by (simp add: provider_commit_entity_idempotent_def signal_changes_def call_def Let_def)
qed

text \<open>A client that repeats one idempotent commit against a SQLite server, each time over a link of its
  own; \<open>rs\<close> are the results it sees.\<close>

inductive retries ::
  "'u url_env \<Rightarrow> 'b wire_env \<Rightarrow> EntityCommit \<Rightarrow> IdempotencyRecord
   \<Rightarrow> sqlite_provider \<Rightarrow> IdempotentCommitOutcome presult list \<Rightarrow> sqlite_provider \<Rightarrow> bool"
  for U K c idem where
  Done: "retries U K c idem p [] p"
| Attempt: "retries U K c idem p (r # rs) p'"
    if "paired U K self st" "lossy_link U K H (sqlite_ops E V clk wal) st server_now sw"
      "now < ir_expires_at_unix_ms idem" "now \<le> i64_max"
      "remote_commit_entity_idempotent U K H self c idem now p = (r, p1)"
      "retries U K c idem p1 rs p'"

lemma attempt_cases:
  assumes "paired U K self st" "lossy_link U K H (sqlite_ops E V clk wal) st server_now sw"
    and "remote_commit_entity_idempotent U K H self c idem now p = (r, p1)"
  shows "p1 = p \<and> isl r \<or> (\<exists>r0. provider_commit_entity_idempotent E (clk 0) c idem now p = (r0, p1) \<and> (isl r \<or> r = r0))"
  using expect_lossy[OF assms(1,2) _ _ assms(3)[unfolded remote_commit_entity_idempotent_def],
      where g = IdempotentCommit and s = "provider_commit_entity_idempotent E (clk 0) c idem now p"]
  by (auto simp: sqlite_ops_def prod_eq_iff)

lemma retries_after_commit:
  assumes "retries U K c idem p' rs p''" "provider_commit_entity_idempotent E clk c idem now0 p = (Inr ICommitted, p')"
    and "tbl_wf (t_idempotency (sp_db p))"
  shows "p'' = p' \<and> (\<forall>r \<in> set rs. isl r \<or> r = Inr (IReplayed (ir_result_json idem)))"
  using assms
proof (induction arbitrary: rule: retries.induct)
  case (Attempt self st H E2 V clk2 wal server_now sw now p2 r p1 rs p3)
  have "p1 = p2 \<and> (isl r \<or> r = Inr (IReplayed (ir_result_json idem)))"
    using attempt_cases[OF Attempt(1,2,5)] idempotent_commit_replays[OF Attempt(8,9,3,4), of E2 "clk2 0"] by auto
  with Attempt show ?case by simp
qed simp

definition took_effect_once ::
  "EntityCommit \<Rightarrow> IdempotencyRecord \<Rightarrow> sqlite_provider \<Rightarrow> IdempotentCommitOutcome presult list \<Rightarrow> sqlite_provider \<Rightarrow> bool" where
  "took_effect_once c idem p rs p' \<longleftrightarrow>
     (\<exists>rs1 r rs2 E clk now. rs = rs1 @ r # rs2
        \<and> provider_commit_entity_idempotent E clk c idem now p = (Inr ICommitted, p')
        \<and> Inr ICommitted \<notin> set rs1 \<and> (isl r \<or> r = Inr ICommitted)
        \<and> (\<forall>r \<in> set rs2. isl r \<or> r = Inr (IReplayed (ir_result_json idem))))"

lemma took_effect_once_Cons:
  assumes "took_effect_once c idem p rs p'" "r \<noteq> Inr ICommitted"
  shows "took_effect_once c idem p (r # rs) p'"
proof -
  from assms(1) obtain rs1 r1 rs2 E clk now where "rs = rs1 @ r1 # rs2"
    "provider_commit_entity_idempotent E clk c idem now p = (Inr ICommitted, p')" "Inr ICommitted \<notin> set rs1"
    "isl r1 \<or> r1 = Inr ICommitted" "\<forall>r \<in> set rs2. isl r \<or> r = Inr (IReplayed (ir_result_json idem))"
    unfolding took_effect_once_def by (elim exE conjE)
  with assms(2) show ?thesis unfolding took_effect_once_def
    by (intro exI[of _ "r # rs1"] exI[of _ r1] exI[of _ rs2] exI[of _ E] exI[of _ clk] exI[of _ now]) auto
qed

text \<open>
  C2. Retrying is safe. A client that repeats an idempotent commit through a remote provider, over
  networks that may lose its requests or the server's answers, leaves a SQLite server either as it was,
  and then was never told that it committed, or as exactly one execution of the commit leaves it: up to one
  attempt nothing was committed, that attempt was answered \<open>Committed\<close> or its answer was lost, and every
  later attempt before the record expires is answered with the stored result if it is answered at
  all.
\<close>
theorem retried_commit_takes_effect_once:
  assumes "retries U K c idem p rs p'" and "tbl_wf (t_idempotency (sp_db p))"
  shows "p' = p \<and> Inr ICommitted \<notin> set rs \<or> took_effect_once c idem p rs p'"
  using assms
proof (induction rule: retries.induct)
  case (Attempt self st H E V clk wal server_now sw now p r p1 rs p')
  consider "p1 = p" "r \<noteq> Inr ICommitted"
    | "provider_commit_entity_idempotent E (clk 0) c idem now p = (Inr ICommitted, p1)" "isl r \<or> r = Inr ICommitted"
    using attempt_cases[OF Attempt(1,2,5)] idempotent_commit_unchanged by (metis sum.disc(2))
  then show ?case
  proof cases
    case 1
    with Attempt.IH Attempt.prems show ?thesis using took_effect_once_Cons[OF _ 1(2)] by auto
  next
    case 2
    from retries_after_commit[OF Attempt(6) 2(1) Attempt.prems] 2 show ?thesis
      unfolding took_effect_once_def
      by (intro disjI2 exI[of _ "[]"] exI[of _ r] exI[of _ rs] exI[of _ E] exI[of _ "clk 0"] exI[of _ now]) simp
  qed
qed simp


section \<open>The token\<close>

definition secure_endpoint :: "'u url_env \<Rightarrow> string \<Rightarrow> bool" where
  "secure_endpoint U endpoint \<longleftrightarrow>
     (\<exists>url. url_parse U endpoint = Some url
        \<and> (url_scheme U url = ''https''
            \<or> url_scheme U url = ''http'' \<and> url_host_str U url \<in> {Some ''localhost'', Some ''127.0.0.1'', Some ''::1''}))"

lemma normalize_insecure: "\<not> secure_endpoint U endpoint \<Longrightarrow> normalize_endpoint U endpoint = Inl provider_error_new"
  by (auto simp: secure_endpoint_def normalize_endpoint_def bindR_def ok_or_def is_loopback_host_def split: option.splits)

text \<open>
  C18. The token guards both ends. A request that does not carry the server's token is answered without
  looking at the provider, its description or the clock: the answer is the same whatever they are, it is not a success
  (given that the JSON extractor does not reject with a success), and the provider is as before. And a client hands its token
  only to an endpoint it can trust the way to: with an empty token, or an endpoint that is neither \<open>https\<close> nor \<open>http\<close> on a
  loopback host, connecting fails without any exchange, whatever the network is.
\<close>
theorem token_guards_both_ends:
  assumes "\<not> authenticated K header token" and "\<forall>b rejection. dec_call K b = Inl rejection \<longrightarrow> \<not> is_success (rs_status rejection)"
    and "mine = [] \<or> \<not> secure_endpoint U endpoint"
  shows "(\<exists>answer. \<not> is_success (rs_status answer)
      \<and> (\<forall>P st now sw p. ss_token st = token \<longrightarrow> serve_request K P st now sw mth path header body p = (Some answer, p)))
    \<and> (\<forall>H w. connect U K H endpoint mine w = (Inl provider_error_new, w))"
proof
  let ?answer = "if path = ''/provider/v2/info'' then if mth = GET then remote_failure K 401 Unauthenticated else \<lparr>rs_status = 405, rs_body = None\<rparr>
    else if path = ''/provider/v2/call'' then if mth = POST
      then case dec_call K body of Inl rejection \<Rightarrow> rejection | Inr _ \<Rightarrow> remote_failure K 401 Unauthenticated
      else \<lparr>rs_status = 405, rs_body = None\<rparr>
    else \<lparr>rs_status = 404, rs_body = None\<rparr>"
  have "\<not> is_success (rs_status ?answer)" using assms(2)
    by (simp add: is_success_def remote_failure_def json_response_def split: sum.splits)
  moreover have "serve_request K P st now sw mth path header body p = (Some ?answer, p)" if "ss_token st = token" for P st now sw p
    using assms(1) that unfolding serve_request_def provider_info_def provider_call_http_def by (cases "dec_call K body") simp_all
  ultimately show "\<exists>answer. \<not> is_success (rs_status answer)
      \<and> (\<forall>P st now sw p. ss_token st = token \<longrightarrow> serve_request K P st now sw mth path header body p = (Some answer, p))"
    by (intro exI[of _ ?answer] conjI allI impI)
  show "\<forall>H w. connect U K H endpoint mine w = (Inl provider_error_new, w)"
    using assms(3) normalize_insecure[of U endpoint] by (auto simp: connect_def)
qed

section \<open>Example\<close>

datatype wire_body = CallBody ProviderCall | ReplyBody ProviderReply | InfoBody RemoteProviderInfo | ErrorBody RemoteError

text \<open>Bodies that are the values themselves; the size of a commit is that of its metadata, and reading
  a score loses its last bit.\<close>

definition sample_size :: "wire_body \<Rightarrow> nat" where
  "sample_size b = (case b of CallBody (CommitEntity c) \<Rightarrow> length (ec_event_meta_json c) | _ \<Rightarrow> 0)"

definition sample_score :: "f64 \<Rightarrow> f64" where
  "sample_score s = 2 * (s div 2)"

definition sample_wire :: "wire_body wire_env" where
  "sample_wire =
     \<lparr>enc_call = CallBody,
      dec_call = (\<lambda>b. case b of
         Some (CallBody c) \<Rightarrow>
           if sample_size (CallBody c) \<le> DEFAULT_BODY_LIMIT then Inr (on_wire_call sample_score c)
           else Inl \<lparr>rs_status = 413, rs_body = None\<rparr>
       | _ \<Rightarrow> Inl \<lparr>rs_status = 422, rs_body = None\<rparr>),
      enc_reply = ReplyBody,
      dec_reply = (\<lambda>b. case b of ReplyBody r \<Rightarrow> Some (on_wire_reply sample_score r) | _ \<Rightarrow> None),
      enc_info = InfoBody, dec_info = (\<lambda>b. case b of InfoBody i \<Rightarrow> Some i | _ \<Rightarrow> None),
      enc_error = ErrorBody, dec_error = (\<lambda>b. case b of ErrorBody e \<Rightarrow> Some e | _ \<Rightarrow> None),
      to_str = Some, wire_size = sample_size, wire_score = sample_score\<rparr>"

text \<open>URLs with one host, represented by their path.\<close>

definition sample_url :: "string url_env" where
  "sample_url =
     \<lparr>url_parse = (\<lambda>s. if s = ''https://h'' then Some ''/'' else None), url_scheme = (\<lambda>_. ''https''),
      url_host_str = (\<lambda>_. Some ''h''), url_path = (\<lambda>u. u), url_set_path = (\<lambda>path _. path),
      url_join = (\<lambda>u s. Some (u @ s))\<rparr>"

definition sample_served :: "sqlite_provider Provider" where
  "sample_served = sqlite_ops sample_env sample_retrieval (\<lambda>_. Some 5) (0, 0, 0)"

definition sample_recovery :: ProviderRecovery where
  "sample_recovery = \<lparr>generation = 1, recovered_after_unclean_shutdown = False\<rparr>"

definition sample_remote_server :: ProviderServerState where
  "sample_remote_server =
     \<lparr>ss_token = ''k'',
      ss_info = \<lparr>pi_protocol = 4, pi_provider = ''sqlite'', pi_capabilities = sqlite_capabilities, pi_recovery = sample_recovery,
                 pi_change_retention_seconds = 60\<rparr>,
      ss_change_retention_ms = 60000\<rparr>"

definition sample_watch :: shutdown_watch where
  "sample_watch = \<lparr>sw_value = False, sw_changed = None, sw_first = False\<rparr>"

definition sample_http :: "(string, wire_body, sqlite_provider) http_env" where
  "sample_http =
     \<lparr>http_build = None,
      http_send = (\<lambda>req p. apfst (map_option Inr) (answer_to sample_url sample_wire sample_served sample_remote_server 9 sample_watch req p))\<rparr>"

text \<open>A network that executes the request and loses the answer.\<close>

definition losing_http :: "(string, wire_body, sqlite_provider) http_env" where
  "losing_http =
     \<lparr>http_build = None,
      http_send = (\<lambda>req p. (Some (Inl \<lparr>is_timeout = False, is_connect = False, is_request = True\<rparr>),
        snd (answer_to sample_url sample_wire sample_served sample_remote_server 9 sample_watch req p)))\<rparr>"

lemma sample_wire_faithful: "wire_faithful sample_wire"
  by (simp add: wire_faithful_def call_fits_def sample_wire_def)

lemma sample_router_state:
  "remote_provider_router sample_served ''sqlite'' ''k'' sample_recovery 60 = Inr sample_remote_server"
  by (simp add: remote_provider_router_def sample_remote_server_def sample_served_def sqlite_ops_def checked_mul_u64_def
      u64_max_def REMOTE_PROVIDER_PROTOCOL_def)

lemma sample_endpoint: "endpoint_routes sample_url ''https://h'' ''/provider/v2/''"
  by (simp add: endpoint_routes_def sample_url_def normalize_endpoint_def)

lemma sample_link: "reliable_link sample_url sample_wire sample_http sample_served sample_remote_server 9 sample_watch"
  by (simp add: reliable_link_def sample_http_def)

theorem remote_provider_is_transparent_witness:
  "\<exists>self. fst (connect sample_url sample_wire sample_http ''https://h'' ''k'' fresh_provider) = Inr self
     \<and> p_commit_entity (remote_ops sample_url sample_wire sample_http self) (sample_commit ''a'' [] ''v1'') =
         commit_entity sample_env (Some 5) (Some 5) (sample_commit ''a'' [] ''v1'')
     \<and> (\<exists>c. p_commit_entity (remote_ops sample_url sample_wire sample_http self) c = (\<lambda>p. (Inl (with_reason Internal), p)))"
proof -
  have t: "to_str sample_wire (bearer ''k'') = Some (bearer ''k'')" by (simp add: sample_wire_def)
  from remote_provider_is_transparent[OF sample_wire_faithful sample_router_state t sample_endpoint sample_link]
  obtain self where c: "connect sample_url sample_wire sample_http ''https://h'' ''k'' fresh_provider = (Inr self, fresh_provider)"
    and same: "p_commit_entity (remote_ops sample_url sample_wire sample_http self) c =
      over_wire sample_wire (CommitEntity c) (commit_entity sample_env (Some 5) (Some 5) c)" for c
    by (auto simp: same_operations_def sample_served_def sqlite_ops_def)
  have "call_fits sample_wire (CommitEntity (sample_commit ''a'' [] ''v1''))"
    by (simp add: call_fits_def sample_wire_def sample_size_def DEFAULT_BODY_LIMIT_def sample_commit_def)
  then have small: "p_commit_entity (remote_ops sample_url sample_wire sample_http self) (sample_commit ''a'' [] ''v1'') =
      commit_entity sample_env (Some 5) (Some 5) (sample_commit ''a'' [] ''v1'')"
    by (simp add: same over_wire_def fun_eq_iff)
  obtain meta :: string where "length meta = Suc DEFAULT_BODY_LIMIT" using Ex_list_of_length by blast
  then have "\<not> call_fits sample_wire (CommitEntity ((sample_commit ''a'' [] ''v1'')\<lparr>ec_event_meta_json := meta\<rparr>))"
    by (simp add: call_fits_def sample_wire_def sample_size_def)
  then have "p_commit_entity (remote_ops sample_url sample_wire sample_http self)
      ((sample_commit ''a'' [] ''v1'')\<lparr>ec_event_meta_json := meta\<rparr>) = (\<lambda>p. (Inl (with_reason Internal), p))"
    by (simp add: same over_wire_def fun_eq_iff)
  with c small show ?thesis by auto
qed

definition sample_client :: "string RemoteProvider" where
  "sample_client = \<lparr>rp_endpoint = ''/provider/v2/'', rp_token = ''k'', rp_info = ss_info sample_remote_server\<rparr>"

lemma sample_paired: "paired sample_url sample_wire sample_client sample_remote_server"
  using sample_wire_faithful
  by (simp add: paired_def sample_client_def sample_remote_server_def sample_url_def) (simp add: sample_wire_def)

lemma sample_lossy:
  "lossy_link sample_url sample_wire sample_http sample_served sample_remote_server 9 sample_watch"
  "lossy_link sample_url sample_wire losing_http sample_served sample_remote_server 9 sample_watch"
  by (auto simp: lossy_link_def sample_http_def losing_http_def lost_def prod_eq_iff)

definition sample_attempt :: "(string, wire_body, sqlite_provider) http_env \<Rightarrow> nat \<Rightarrow> sqlite_provider \<Rightarrow> IdempotentCommitOutcome presult \<times> sqlite_provider" where
  "sample_attempt H now = remote_commit_entity_idempotent sample_url sample_wire H sample_client (sample_commit ''b'' [] ''v2'') sample_idempotency now"

lemma sample_retry:
  assumes "lossy_link sample_url sample_wire H sample_served sample_remote_server 9 sample_watch"
    and "sample_attempt H now p = (r, p1)" and "now < 100"
    and "retries sample_url sample_wire (sample_commit ''b'' [] ''v2'') sample_idempotency p1 rs p'"
  shows "retries sample_url sample_wire (sample_commit ''b'' [] ''v2'') sample_idempotency p (r # rs) p'"
  using retries.Attempt[OF sample_paired assms(1)[unfolded sample_served_def] _ _ assms(2)[unfolded sample_attempt_def] assms(4)] assms(3)
  by (simp add: sample_idempotency_def i64_max_def)

theorem retried_commit_takes_effect_once_witness:
  "took_effect_once (sample_commit ''b'' [] ''v2'') sample_idempotency fresh_provider
     [Inl (with_reason Unavailable), Inr (IReplayed ''r'')]
     (snd (sample_attempt losing_http 5 fresh_provider))"
proof -
  let ?p = "snd (sample_attempt losing_http 5 fresh_provider)"
  have lose: "fst (sample_attempt losing_http 5 fresh_provider) = Inl (with_reason Unavailable)"
    and again: "sample_attempt sample_http 6 ?p = (Inr (IReplayed ''r''), ?p)" and other: "?p \<noteq> fresh_provider"
    and wf: "tbl_wf (t_idempotency (sp_db fresh_provider))" by code_simp+
  have first: "sample_attempt losing_http 5 fresh_provider = (Inl (with_reason Unavailable), ?p)" using lose by (simp add: prod_eq_iff)
  have "retries sample_url sample_wire (sample_commit ''b'' [] ''v2'') sample_idempotency fresh_provider
      [Inl (with_reason Unavailable), Inr (IReplayed ''r'')] ?p"
    by (rule sample_retry[OF sample_lossy(2) first], simp, rule sample_retry[OF sample_lossy(1) again], simp, rule retries.Done)
  from retried_commit_takes_effect_once[OF this wf] other show ?thesis by blast
qed


lemma sample_remote_token: "ss_token sample_remote_server = ''k''"
  by (simp add: sample_remote_server_def)

theorem token_guards_both_ends_witness:
  "\<exists>answer. \<not> is_success (rs_status answer)
     \<and> serve_request sample_wire sample_served sample_remote_server 9 sample_watch POST ''/provider/v2/call'' (Some ''Bearer x'')
          (Some (CallBody Checkpoint)) fresh_provider = (Some answer, fresh_provider)"
proof -
  have h: "\<not> authenticated sample_wire (Some ''Bearer x'') ''k''" by code_simp
  have j: "\<forall>b rejection. dec_call sample_wire b = Inl rejection \<longrightarrow> \<not> is_success (rs_status rejection)"
    by (auto simp: sample_wire_def is_success_def split: option.splits wire_body.splits if_splits)
  have "[] = ([] :: string) \<or> \<not> secure_endpoint sample_url ''https://h''" by simp
  from token_guards_both_ends[OF h j this, THEN conjunct1] show ?thesis by (metis sample_remote_token)
qed

end
