(* ===== verification/Provider_Configuration.thy ===== *)
theory Provider_Configuration
  imports Provider_Router Remote_Links Policy_Selection
begin

text \<open>
  The configuration of the providers behind the server, \<open>crates/server/src/provider_config.rs\<close>: its
  validation against the backend configuration and the construction of the router it describes.

  A BTreeMap is the list of its entries in the order of the keys. The file system, the process environment,
  the decoder of the configuration and \<open>SqliteProvider::open\<close> enter as a \<open>load_env\<close>; the methods of a
  constructed provider are an argument of \<open>load_provider\<close>, and a provider's \<open>Arc\<close> is its position in the list of those
  constructed.
\<close>

section \<open>Configuration\<close>

datatype ProviderDefinition = Local string | Remote string string

record ProviderRouting =
  pr_default :: string
  pr_rules :: "ScopeRoute list"

record ProviderConfig =
  pc_schema_uri :: string
  pc_version :: nat
  pc_providers :: "(string \<times> ProviderDefinition) list"
  pc_routing :: ProviderRouting

text \<open>\<open>PcPanic\<close> is the \<open>expect\<close> on the meta field of a scope field.\<close>

datatype ProviderConfigError = PcIo | PcJson | PcInvalid | PcProvider ProviderError | PcPanic

type_synonym 'a pcresult = "ProviderConfigError + 'a"

section \<open>Validation\<close>

definition validate_local :: "ProviderConfig \<Rightarrow> unit pcresult" where
  "validate_local config =
     (case map_of (pc_providers config) ''local'' of
        Some (Local _) \<Rightarrow> Ok ()
      | Some (Remote _ _) \<Rightarrow> Err PcInvalid
      | None \<Rightarrow> Err PcInvalid)"

definition validate_definition :: "'u url_env \<Rightarrow> string \<times> ProviderDefinition \<Rightarrow> unit \<Rightarrow> unit pcresult" where
  "validate_definition U entry _ =
     (let (name, provider) = entry in
      if name = [] then Err PcInvalid
      else case provider of
        Local database \<Rightarrow>
          if name \<noteq> ''local'' then Err PcInvalid
          else if database = [] then Err PcInvalid
          else Ok ()
      | Remote endpoint token_env \<Rightarrow>
          if endpoint = [] then Err PcInvalid
          else if token_env = [] then Err PcInvalid
          else map_err (\<lambda>_. PcInvalid) (validate_endpoint U endpoint))"

definition validate_route_field :: "config_env \<Rightarrow> BackendConfig \<Rightarrow> string \<times> Value \<Rightarrow> unit \<Rightarrow> unit pcresult" where
  "validate_route_field C backend entry _ =
     (let (field, v) = entry in
      if field \<notin> set (scope_by (entity_identity backend)) then Err PcInvalid
      else case map_of (meta_fields backend) field of
        None \<Rightarrow> Err PcPanic
      | Some meta_field \<Rightarrow> if validate_value C meta_field v then Ok () else Err PcInvalid)"

definition validate_route :: "config_env \<Rightarrow> BackendConfig \<Rightarrow> ProviderConfig \<Rightarrow> ScopeRoute \<Rightarrow> unit \<Rightarrow> unit pcresult" where
  "validate_route C backend config route _ =
     (if sr_scope route = [] then Err PcInvalid
      else if map_of (pc_providers config) (sr_provider route) = None then Err PcInvalid
      else foldR (validate_route_field C backend) (sr_scope route) ())"

definition validate_provider_config :: "'u url_env \<Rightarrow> config_env \<Rightarrow> BackendConfig \<Rightarrow> ProviderConfig \<Rightarrow> unit pcresult" where
  "validate_provider_config U C backend config =
     (if pc_version config \<noteq> 1 then Err PcInvalid
      else
        bindR (validate_local config) (\<lambda>_.
        bindR (foldR (validate_definition U) (pc_providers config) ()) (\<lambda>_.
        if map_of (pc_providers config) (pr_default (pc_routing config)) = None then Err PcInvalid
        else foldR (validate_route C backend config) (pr_rules (pc_routing config)) ())))"

section \<open>Loading\<close>

datatype 'u provider_instance = SqliteInstance string | RemoteInstance "'u RemoteProvider"

record 'w load_env =
  le_read_to_string :: "string \<Rightarrow> string option"
  le_from_str :: "string \<Rightarrow> ProviderConfig option"
  le_parent :: "string \<Rightarrow> string option"
  le_is_absolute :: "string \<Rightarrow> bool"
  le_join :: "string \<Rightarrow> string \<Rightarrow> string"
  le_var :: "string \<Rightarrow> string option"
  le_open_sqlite :: "string \<Rightarrow> 'w \<Rightarrow> bool \<times> 'w"

definition provider_config_from_json ::
  "'w load_env \<Rightarrow> 'u url_env \<Rightarrow> config_env \<Rightarrow> string \<Rightarrow> BackendConfig \<Rightarrow> ProviderConfig pcresult" where
  "provider_config_from_json L U C input backend =
     bindR (ok_or (le_from_str L input) PcJson) (\<lambda>config.
     bindR (validate_provider_config U C backend config) (\<lambda>_. Ok config))"

text \<open>An error of \<open>SqliteProvider::open\<close> becomes a new internal provider error.\<close>

definition construct_provider ::
  "'w load_env \<Rightarrow> 'u url_env \<Rightarrow> 'b wire_env \<Rightarrow> ('u, 'b, 'w) http_env \<Rightarrow> string \<Rightarrow> ProviderDefinition \<Rightarrow> 'w
   \<Rightarrow> 'u provider_instance pcresult \<times> 'w" where
  "construct_provider L U K H base definition w =
     (case definition of
        Local database \<Rightarrow>
          (let database = (if le_is_absolute L database then database else le_join L base database)
           in case le_open_sqlite L database w of
                (True, w) \<Rightarrow> (Ok (SqliteInstance database), w)
              | (False, w) \<Rightarrow> (Err (PcProvider provider_error_new), w))
      | Remote endpoint token_env \<Rightarrow>
          (case le_var L token_env of
             None \<Rightarrow> (Err PcInvalid, w)
           | Some token \<Rightarrow>
               (case connect U K H endpoint token w of
                  (Inl e, w) \<Rightarrow> (Err (PcProvider e), w)
                | (Inr remote, w) \<Rightarrow> (Ok (RemoteInstance remote), w))))"

fun construct_providers ::
  "'w load_env \<Rightarrow> 'u url_env \<Rightarrow> 'b wire_env \<Rightarrow> ('u, 'b, 'w) http_env \<Rightarrow> string \<Rightarrow> (string \<times> ProviderDefinition) list
   \<Rightarrow> 'u provider_instance list \<Rightarrow> 'w \<Rightarrow> 'u provider_instance list pcresult \<times> 'w" where
  "construct_providers L U K H base [] insts w = (Ok insts, w)"
| "construct_providers L U K H base ((name, definition) # rest) insts w =
     (case construct_provider L U K H base definition w of
        (Inl e, w) \<Rightarrow> (Err e, w)
      | (Inr inst, w) \<Rightarrow> construct_providers L U K H base rest (insts @ [inst]) w)"

definition named_providers :: "ProviderConfig \<Rightarrow> (string \<times> nat) list" where
  "named_providers config = zip (map fst (pc_providers config)) [0..<length (pc_providers config)]"

definition load_provider ::
  "'w load_env \<Rightarrow> 'u url_env \<Rightarrow> config_env \<Rightarrow> 'b wire_env \<Rightarrow> ('u, 'b, 'w) http_env \<Rightarrow> ('u provider_instance \<Rightarrow> 'p Provider)
   \<Rightarrow> string \<Rightarrow> BackendConfig \<Rightarrow> 'w \<Rightarrow> (RoutingProvider \<times> 'u provider_instance list) pcresult \<times> 'w" where
  "load_provider L U C K H methods path backend w =
     (case bindR (ok_or (le_read_to_string L path) PcIo) (\<lambda>input. provider_config_from_json L U C input backend) of
        Inl e \<Rightarrow> (Err e, w)
      | Inr config \<Rightarrow>
          (let base = (case le_parent L path of None \<Rightarrow> ''.'' | Some parent \<Rightarrow> parent)
           in case construct_providers L U K H base (pc_providers config) [] w of
                (Inl e, w) \<Rightarrow> (Err e, w)
              | (Inr insts, w) \<Rightarrow>
                  (case routing_new (\<lambda>a. methods (insts ! a)) (named_providers config)
                          (pr_default (pc_routing config)) (pr_rules (pc_routing config)) of
                     Inl e \<Rightarrow> (Err (PcProvider e), w)
                   | Inr router \<Rightarrow> (Ok (router, insts), w))))"

section \<open>What validation accepts\<close>

definition definition_wf :: "'u url_env \<Rightarrow> string \<Rightarrow> ProviderDefinition \<Rightarrow> bool" where
  "definition_wf U name d \<longleftrightarrow>
     (case d of
        Local database \<Rightarrow> name = ''local'' \<and> database \<noteq> []
      | Remote endpoint token_env \<Rightarrow> name \<notin> {[], ''local''} \<and> endpoint \<noteq> [] \<and> token_env \<noteq> [] \<and> isl (validate_endpoint U endpoint) = False)"

definition route_wf :: "config_env \<Rightarrow> BackendConfig \<Rightarrow> string set \<Rightarrow> ScopeRoute \<Rightarrow> bool" where
  "route_wf C backend names route \<longleftrightarrow>
     sr_scope route \<noteq> [] \<and> sr_provider route \<in> names
     \<and> (\<forall>(field, v) \<in> set (sr_scope route). field \<in> set (scope_by (entity_identity backend))
          \<and> (\<exists>f. map_of (meta_fields backend) field = Some f \<and> validate_value C f v))"

definition provider_config_wf :: "'u url_env \<Rightarrow> config_env \<Rightarrow> BackendConfig \<Rightarrow> ProviderConfig \<Rightarrow> bool" where
  "provider_config_wf U C backend config \<longleftrightarrow>
     pc_version config = 1
     \<and> (\<exists>database. (''local'', Local database) \<in> set (pc_providers config))
     \<and> (\<forall>(name, d) \<in> set (pc_providers config). definition_wf U name d)
     \<and> pr_default (pc_routing config) \<in> fst ` set (pc_providers config)
     \<and> (\<forall>route \<in> set (pr_rules (pc_routing config)). route_wf C backend (fst ` set (pc_providers config)) route)"

lemma foldR_unit_Inl: "foldR f xs () = Inl e \<Longrightarrow> \<exists>x \<in> set xs. f x () = Inl e"
  by (induction xs) (auto simp: bindR_eq_Inl)

lemma bindR_unit: "bindR m f = Inr y \<longleftrightarrow> m = Inr () \<and> f () = Inr y"
  by (cases m) auto

lemma validate_definition_Ok:
  assumes "distinct (map fst ps)" "map_of ps ''local'' = Some (Local db)" "(name, d) \<in> set ps"
  shows "validate_definition U (name, d) () = Inr () \<longleftrightarrow> definition_wf U name d"
proof -
  have "d = Local db" if "name = ''local''" using assms that by (metis map_of_is_SomeI option.inject)
  then show ?thesis
    by (cases d; cases "validate_endpoint U (case d of Remote e _ \<Rightarrow> e | _ \<Rightarrow> [])")
      (auto simp: validate_definition_def definition_wf_def)
qed

lemma validate_route_field_Ok:
  "validate_route_field C backend entry () = Inr () \<longleftrightarrow>
     (case entry of (field, v) \<Rightarrow>
        field \<in> set (scope_by (entity_identity backend)) \<and> (\<exists>f. map_of (meta_fields backend) field = Some f \<and> validate_value C f v))"
  by (auto simp: validate_route_field_def split: option.splits prod.splits)

lemma validate_route_Ok:
  "validate_route C backend config route () = Inr () \<longleftrightarrow> route_wf C backend (fst ` set (pc_providers config)) route"
  by (simp add: validate_route_def route_wf_def foldR_unit validate_route_field_Ok map_of_eq_None_iff)

lemma validate_provider_config_Ok:
  assumes "distinct (map fst (pc_providers config))"
  shows "validate_provider_config U C backend config = Inr () \<longleftrightarrow> provider_config_wf U C backend config"
proof (cases "\<exists>db. map_of (pc_providers config) ''local'' = Some (Local db)")
  case True
  then obtain db where db: "map_of (pc_providers config) ''local'' = Some (Local db)" by blast
  then have "(''local'', Local db) \<in> set (pc_providers config)" by (rule map_of_SomeD)
  moreover from this have "(\<forall>x \<in> set (pc_providers config). validate_definition U x () = Inr ())
      \<longleftrightarrow> (\<forall>(name, d) \<in> set (pc_providers config). definition_wf U name d)"
    using validate_definition_Ok[OF assms db, of _ _ U] by fastforce
  ultimately show ?thesis using db
    by (auto simp: validate_provider_config_def provider_config_wf_def validate_local_def foldR_unit validate_route_Ok
        bindR_unit map_of_eq_None_iff)
next
  case False
  then have "validate_local config = Inl PcInvalid"
    by (auto simp: validate_local_def split: option.splits ProviderDefinition.splits)
  moreover have "\<nexists>db. (''local'', Local db) \<in> set (pc_providers config)"
    using False assms by (metis map_of_is_SomeI)
  ultimately show ?thesis by (auto simp: validate_provider_config_def provider_config_wf_def)
qed


text \<open>With a validated backend configuration the \<open>expect\<close> is safe.\<close>

lemma validate_never_panics:
  assumes "validate_config C backend = Inr ()"
  shows "validate_provider_config U C backend config \<noteq> Inl PcPanic"
proof
  assume "validate_provider_config U C backend config = Inl PcPanic"
  then obtain route where "validate_route C backend config route () = Inl PcPanic"
    by (auto simp: validate_provider_config_def bindR_eq_Inl validate_local_def validate_definition_def map_err_eq_Inl
        split: if_splits option.splits ProviderDefinition.splits dest!: foldR_unit_Inl)
  then obtain field v where "validate_route_field C backend (field, v) () = Inl PcPanic"
    by (auto simp: validate_route_def split: if_splits dest!: foldR_unit_Inl)
  then have "field \<in> set (scope_by (entity_identity backend))" "map_of (meta_fields backend) field = None"
    by (auto simp: validate_route_field_def split: if_splits option.splits)
  with assms show False
    by (auto simp: validate_config_Ok config_wf_def aliases_wf_def map_of_eq_None_iff)
qed

section \<open>What is constructed\<close>

definition built_from :: "'w load_env \<Rightarrow> 'u url_env \<Rightarrow> string \<Rightarrow> ProviderDefinition \<Rightarrow> 'u provider_instance \<Rightarrow> bool" where
  "built_from L U base d inst \<longleftrightarrow>
     (case d of
        Local database \<Rightarrow> inst = SqliteInstance (if le_is_absolute L database then database else le_join L base database)
      | Remote endpoint token_env \<Rightarrow>
          (\<exists>r. inst = RemoteInstance r \<and> le_var L token_env = Some (rp_token r) \<and> rp_token r \<noteq> []
             \<and> normalize_endpoint U endpoint = Inr (rp_endpoint r) \<and> pi_protocol (rp_info r) = REMOTE_PROVIDER_PROTOCOL))"

lemma connect_Ok:
  assumes "connect U K H endpoint token w = (Inr r, w')"
  shows "token \<noteq> []" "rp_token r = token" "normalize_endpoint U endpoint = Inr (rp_endpoint r)"
    "pi_protocol (rp_info r) = REMOTE_PROVIDER_PROTOCOL"
  using assms by (auto simp: connect_def split: if_splits sum.splits option.splits prod.splits)

lemma construct_provider_Ok:
  "construct_provider L U K H base d w = (Inr inst, w') \<Longrightarrow> built_from L U base d inst"
  by (auto simp: construct_provider_def built_from_def Let_def dest: connect_Ok
      split: ProviderDefinition.splits prod.splits bool.splits option.splits sum.splits)

lemma construct_provider_no_panic: "construct_provider L U K H base d w \<noteq> (Inl PcPanic, w')"
  by (auto simp: construct_provider_def Let_def
      split: ProviderDefinition.splits prod.splits bool.splits option.splits sum.splits)

lemma construct_providers_no_panic: "construct_providers L U K H base ds insts w \<noteq> (Inl PcPanic, w')"
  by (induction L U K H base ds insts w rule: construct_providers.induct)
    (auto simp: construct_provider_no_panic split: prod.splits sum.splits)

lemma construct_providers_Ok:
  assumes "construct_providers L U K H base ds insts w = (Inr insts', w')"
  shows "\<exists>new. insts' = insts @ new \<and> list_all2 (\<lambda>(_, d). built_from L U base d) ds new"
  using assms
proof (induction L U K H base ds insts w rule: construct_providers.induct)
  case (2 L U K H base name d rest insts w)
  from 2(2) obtain inst w1 where c: "construct_provider L U K H base d w = (Inr inst, w1)"
    "construct_providers L U K H base rest (insts @ [inst]) w1 = (Inr insts', w')"
    by (auto split: prod.splits sum.splits)
  from 2(1)[OF c(1)[symmetric] refl c(2)] obtain new where "insts' = (insts @ [inst]) @ new"
    "list_all2 (\<lambda>(_, d). built_from L U base d) rest new" by blast
  with construct_provider_Ok[OF c(1)] show ?case by (intro exI[of _ "inst # new"]) simp
qed simp

definition config_base :: "'w load_env \<Rightarrow> string \<Rightarrow> string" where
  "config_base L path = (case le_parent L path of None \<Rightarrow> ''.'' | Some parent \<Rightarrow> parent)"

lemma named_providers_names: "map fst (named_providers config) = map fst (pc_providers config)"
  by (simp add: named_providers_def)

lemma named_providers_lookup: "map_of (named_providers config) name = None \<longleftrightarrow> name \<notin> fst ` set (pc_providers config)"
  by (metis named_providers_names list.set_map map_of_eq_None_iff)

lemma routing_new_wf:
  assumes "provider_config_wf U C backend config"
  shows "\<exists>R. routing_new ops (named_providers config) (pr_default (pc_routing config)) (pr_rules (pc_routing config)) = Inr R"
proof -
  have "named_providers config \<noteq> []"
    using assms by (metis named_providers_names provider_config_wf_def empty_iff list.map_disc_iff list.set(1))
  then obtain x xs where "named_providers config = x # xs" by (meson neq_Nil_conv)
  moreover have "foldR (check_route (named_providers config)) (pr_rules (pc_routing config)) () = Inr ()"
    using assms by (auto simp: check_routes_Ok provider_config_wf_def route_wf_def named_providers_lookup)
  moreover have "map_of (named_providers config) (pr_default (pc_routing config)) \<noteq> None"
    using assms by (simp add: provider_config_wf_def named_providers_lookup)
  ultimately show ?thesis by (auto simp: routing_new_def)
qed

text \<open>The router that a configuration describes.\<close>

definition describes ::
  "'w load_env \<Rightarrow> 'u url_env \<Rightarrow> string \<Rightarrow> ProviderConfig \<Rightarrow> RoutingProvider \<Rightarrow> 'u provider_instance list \<Rightarrow> bool" where
  "describes L U path config R insts \<longleftrightarrow>
     map fst (rt_providers R) = map fst (pc_providers config)
     \<and> map snd (rt_providers R) = [0..<length insts]
     \<and> list_all2 (\<lambda>(_, d). built_from L U (config_base L path) d) (pc_providers config) insts
     \<and> rt_default R = pr_default (pc_routing config) \<and> rt_routes R = pr_rules (pc_routing config)
     \<and> (\<forall>scope. route_name R scope \<in> fst ` set (pc_providers config))"

lemma loaded_router:
  assumes "provider_config_wf U C backend config"
    and "construct_providers L U K H (config_base L path) (pc_providers config) [] w = (Inr insts, w')"
  obtains R where "routing_new (\<lambda>a. methods (insts ! a)) (named_providers config) (pr_default (pc_routing config))
      (pr_rules (pc_routing config)) = Inr R" "describes L U path config R insts"
proof -
  from routing_new_wf[OF assms(1)] obtain R where R: "routing_new (\<lambda>a. methods (insts ! a)) (named_providers config)
      (pr_default (pc_routing config)) (pr_rules (pc_routing config)) = Inr R" by blast
  from construct_providers_Ok[OF assms(2)] have built:
    "list_all2 (\<lambda>(_, d). built_from L U (config_base L path) d) (pc_providers config) insts" by simp
  then have "length insts = length (pc_providers config)" by (simp add: list_all2_lengthD)
  with R built have "describes L U path config R insts"
    using routing_new_Ok[OF R] route_name_registered[OF R]
    by (simp add: describes_def named_providers_lookup named_providers_names named_providers_def)
  with R that show thesis by blast
qed

lemma load_decoded:
  assumes "le_read_to_string L path = Some input" "le_from_str L input = Some config"
  shows "load_provider L U C K H methods path backend w =
    (case validate_provider_config U C backend config of
       Inl e \<Rightarrow> (Inl e, w)
     | Inr _ \<Rightarrow>
         (case construct_providers L U K H (config_base L path) (pc_providers config) [] w of
            (Inl e, w) \<Rightarrow> (Inl e, w)
          | (Inr insts, w) \<Rightarrow>
              (map_err PcProvider (bindR (routing_new (\<lambda>a. methods (insts ! a)) (named_providers config)
                 (pr_default (pc_routing config)) (pr_rules (pc_routing config))) (\<lambda>R. Ok (R, insts))), w)))"
  using assms by (auto simp: load_provider_def provider_config_from_json_def config_base_def Let_def split: sum.splits prod.splits)

lemma load_well_formed:
  assumes "le_read_to_string L path = Some input" "le_from_str L input = Some config"
    and "validate_provider_config U C backend config = Inr ()" "provider_config_wf U C backend config"
    and "load_provider L U C K H methods path backend w = (r, w')"
  shows "(\<exists>R insts. r = Inr (R, insts) \<and> describes L U path config R insts)
    \<or> (\<exists>e. r = Inl e \<and> e \<noteq> PcPanic
        \<and> construct_providers L U K H (config_base L path) (pc_providers config) [] w = (Inl e, w'))"
proof (cases "construct_providers L U K H (config_base L path) (pc_providers config) [] w")
  case (Pair built w1)
  note run = assms(5)[unfolded load_decoded[OF assms(1,2)] assms(3) Pair]
  show ?thesis
  proof (cases built)
    case (Inl e)
    with run Pair construct_providers_no_panic[of L U K H "config_base L path" "pc_providers config" "[]" w w1]
    show ?thesis by auto
  next
    case (Inr insts)
    obtain R where "routing_new (\<lambda>a. methods (insts ! a)) (named_providers config) (pr_default (pc_routing config))
        (pr_rules (pc_routing config)) = Inr R" "describes L U path config R insts"
      using loaded_router[OF assms(4) Pair[unfolded Inr]] by blast
    with run Inr show ?thesis by auto
  qed
qed

text \<open>
  C3. Validation of the provider configuration is sound and complete for loading. Loading against a
  validated backend configuration never panics; it succeeds only with a well-formed configuration, and
  then with the router that configuration describes: one provider per definition under its name, opened
  at the resolved path or connected over a secure endpoint with the token of its environment
  variable, and every scope routed to a configured provider. When it fails, the file cannot be read or
  decoded, or is not well-formed and nothing was opened, or the failure is that of constructing a
  provider: assembling the router from a well-formed configuration never fails.
\<close>
theorem configuration_describes_router:
  assumes "validate_config C backend = Inr ()"
    and "\<forall>input config. le_from_str L input = Some config \<longrightarrow> distinct (map fst (pc_providers config))"
    and "load_provider L U C K H methods path backend w = (r, w')"
  shows "case r of
      Inr (R, insts) \<Rightarrow> (\<exists>input config. le_read_to_string L path = Some input \<and> le_from_str L input = Some config
        \<and> provider_config_wf U C backend config \<and> describes L U path config R insts)
    | Inl e \<Rightarrow> e \<noteq> PcPanic
        \<and> (le_read_to_string L path = None \<and> w' = w
           \<or> (\<exists>input. le_read_to_string L path = Some input
               \<and> (le_from_str L input = None \<and> w' = w
                  \<or> (\<exists>config. le_from_str L input = Some config
                      \<and> (\<not> provider_config_wf U C backend config \<and> w' = w
                         \<or> construct_providers L U K H (config_base L path) (pc_providers config) [] w = (Inl e, w'))))))"
proof (cases "Option.bind (le_read_to_string L path) (le_from_str L)")
  case None
  with assms(3) show ?thesis
    by (auto simp: load_provider_def provider_config_from_json_def split: bind_splits)
next
  case (Some config)
  then obtain input where d: "le_read_to_string L path = Some input" "le_from_str L input = Some config"
    by (auto split: bind_splits)
  note wf = validate_provider_config_Ok[OF assms(2)[rule_format, OF d(2)], of U C backend]
  show ?thesis
  proof (cases "validate_provider_config U C backend config")
    case (Inl e)
    with assms(3) wf validate_never_panics[OF assms(1), of U config] show ?thesis
      by (auto simp: load_decoded[OF d] d)
  next
    case (Inr u)
    then have "validate_provider_config U C backend config = Inr ()" "provider_config_wf U C backend config" using wf by simp_all
    from load_well_formed[OF d this assms(3)] this(2) show ?thesis by (auto simp: d)
  qed
qed


section \<open>Example\<close>

definition sample_provider_config :: ProviderConfig where
  "sample_provider_config =
     \<lparr>pc_schema_uri = [], pc_version = 1,
      pc_providers = [(''local'', Local ''db''), (''shared'', Remote ''https://h'' ''T'')],
      pc_routing = \<lparr>pr_default = ''local'', pr_rules = [\<lparr>sr_scope = [(''workspace'', String ''x'')], sr_provider = ''shared''\<rparr>]\<rparr>\<rparr>"

definition sample_load :: "sqlite_provider load_env" where
  "sample_load =
     \<lparr>le_read_to_string = (\<lambda>p. if p = ''c'' then Some ''{}'' else None),
      le_from_str = (\<lambda>s. if s = ''{}'' then Some sample_provider_config else None),
      le_parent = (\<lambda>_. None), le_is_absolute = (\<lambda>_. False), le_join = (\<lambda>a b. a @ ''/'' @ b),
      le_var = (\<lambda>v. if v = ''T'' then Some ''k'' else None), le_open_sqlite = (\<lambda>_ w. (True, w))\<rparr>"

definition sample_loaded :: "(RoutingProvider \<times> string provider_instance list) pcresult \<times> sqlite_provider" where
  "sample_loaded = load_provider sample_load sample_url sample_config_env sample_wire sample_http (\<lambda>_. sample_served) ''c''
     sample_config fresh_provider"

theorem configuration_describes_router_witness:
  "\<exists>R insts. fst sample_loaded = Inr (R, insts) \<and> describes sample_load sample_url ''c'' sample_provider_config R insts"
proof -
  have d: "\<forall>input config. le_from_str sample_load input = Some config \<longrightarrow> distinct (map fst (pc_providers config))"
    by (auto simp: sample_load_def sample_provider_config_def split: if_splits)
  have run: "load_provider sample_load sample_url sample_config_env sample_wire sample_http (\<lambda>_. sample_served) ''c'' sample_config
      fresh_provider = (fst sample_loaded, snd sample_loaded)" by (simp add: sample_loaded_def)
  have "\<not> isl (fst sample_loaded)" by code_simp
  then obtain R insts where r: "fst sample_loaded = Inr (R, insts)" by (metis prod.collapse sum.collapse(2))
  from configuration_describes_router[OF sample_config_valid d run] show ?thesis
    by (auto simp: r sample_load_def split: if_splits)
qed

end
