(* ===== verification/Storage_Files.thy ===== *)
theory Storage_Files
  imports Artifact_Store Provider_Configuration
begin

text \<open>
  The files the daemons live on, on Unix: opening the SQLite storage (\<open>crates/provider-sqlite/src/lib.rs\<close>,
  \<open>SqliteProvider::open\<close> and what it calls), creating a home (\<open>initialize_home\<close> in
  \<open>crates/server/src/main.rs\<close>) and the socket of the server (\<open>crates/server/src/transport.rs\<close>).

  The file system is a table of the nodes by their absolute paths, with modes and owners; a node has a number that
  is its identity. \<open>canonicalize\<close>, the effective user, file locks, the SQLite library and the listeners
  behind the sockets are the environment. The mode of a created node is the requested one, as with a \<open>umask\<close> that
  clears no owner bits; a creation of directories that fails has created none. Octal modes are written in decimal: 448 is 0700, 384 is 0600.
\<close>

section \<open>Nodes\<close>

datatype node_kind = KFile string | KDir | KLink | KSocket | KSpecial

record inode =
  in_kind :: node_kind
  in_mode :: nat
  in_owner :: nat
  in_number :: nat

type_synonym storage_fs = "(path, inode) table"

text \<open>The outcome of connecting to the socket with a number: somebody listens, nobody does (refused or not found),
  or another failure. \<open>se_default_dir_mode\<close> is the mode of a directory created without one.\<close>

datatype socket_probe = ProbeAccepted | ProbeDead | ProbeFailed ErrorKind

record storage_env =
  se_euid :: nat
  se_canonicalize :: "storage_fs \<Rightarrow> path \<Rightarrow> path io_result"
  se_try_lock :: "path \<Rightarrow> bool"
  se_connect :: "path \<Rightarrow> storage_fs \<Rightarrow> storage_fs option"
  se_probe :: "path \<Rightarrow> nat \<Rightarrow> socket_probe"
  se_default_dir_mode :: nat

definition fresh_number :: "storage_fs \<Rightarrow> nat" where
  "fresh_number fs = Suc (Max (insert 0 (in_number ` snd ` set fs)))"

definition add_node :: "storage_env \<Rightarrow> path \<Rightarrow> node_kind \<Rightarrow> nat \<Rightarrow> storage_fs \<Rightarrow> storage_fs" where
  "add_node E p kind mode fs =
     fs @ [(p, \<lparr>in_kind = kind, in_mode = mode, in_owner = se_euid E, in_number = fresh_number fs\<rparr>)]"

text \<open>\<open>metadata\<close> follows links, \<open>symlink_metadata\<close> does not.\<close>

definition stat :: "storage_env \<Rightarrow> path \<Rightarrow> storage_fs \<Rightarrow> inode io_result" where
  "stat E p fs = bindR (se_canonicalize E fs p) (\<lambda>q. ok_or (map_of fs q) NotFoundKind)"

text \<open>\<open>DirBuilder::create\<close> with \<open>recursive\<close>: every missing directory is created with the mode of the builder.\<close>

definition make_dir :: "storage_env \<Rightarrow> nat \<Rightarrow> path \<Rightarrow> storage_fs \<Rightarrow> storage_fs io_result" where
  "make_dir E mode p fs =
     (case map_of fs p of
        None \<Rightarrow> Ok (add_node E p KDir mode fs)
      | Some _ \<Rightarrow> bindR (stat E p fs) (\<lambda>n. if in_kind n = KDir then Ok fs else Err NotADirectoryKind))"

definition make_dirs :: "storage_env \<Rightarrow> path \<Rightarrow> storage_fs \<Rightarrow> storage_fs io_result" where
  "make_dirs E p = foldR (make_dir E 448) (ancestors p)"

definition is_private :: "nat \<Rightarrow> bool" where
  "is_private mode \<longleftrightarrow> mode mod 64 = 0"

definition validate_mode :: "nat \<Rightarrow> unit io_result" where
  "validate_mode mode = guardR (is_private mode) PermissionDeniedKind"

section \<open>The storage of the SQLite provider\<close>

definition link_owner_is_trusted :: "storage_env \<Rightarrow> inode \<Rightarrow> bool" where
  "link_owner_is_trusted E n \<longleftrightarrow> in_owner n = 0 \<or> in_owner n = se_euid E"

fun reject_link_components :: "storage_env \<Rightarrow> path list \<Rightarrow> storage_fs \<Rightarrow> unit io_result" where
  "reject_link_components E [] fs = Ok ()"
| "reject_link_components E (p # ps) fs =
     (case map_of fs p of
        None \<Rightarrow> Ok ()
      | Some n \<Rightarrow>
          if in_kind n = KLink \<and> \<not> link_owner_is_trusted E n then Err PermissionDeniedKind
          else reject_link_components E ps fs)"

definition validate_storage_owner :: "storage_env \<Rightarrow> path \<Rightarrow> storage_fs \<Rightarrow> unit io_result" where
  "validate_storage_owner E p fs =
     bindR (stat E p fs) (\<lambda>n.
     if in_owner n \<noteq> se_euid E then Err PermissionDeniedKind
     else if odd (in_mode n div 2) \<or> odd (in_mode n div 16) then Err PermissionDeniedKind
     else Ok ())"

definition canonical_storage_path :: "storage_env \<Rightarrow> path \<Rightarrow> storage_fs \<Rightarrow> path io_result" where
  "canonical_storage_path E p fs =
     (if p = [] then Err InvalidInputKind
      else
        bindR (reject_link_components E (ancestors (butlast p)) fs) (\<lambda>_.
        bindR (se_canonicalize E fs (butlast p)) (\<lambda>parent.
        bindR (validate_storage_owner E parent fs) (\<lambda>_.
          Ok (parent @ [last p])))))"

definition canonical_existing_storage_path :: "storage_env \<Rightarrow> path \<Rightarrow> storage_fs \<Rightarrow> path option io_result" where
  "canonical_existing_storage_path E p fs =
     (case stat E (butlast p) fs of
        Inr n \<Rightarrow> if in_kind n = KDir then bindR (canonical_storage_path E p fs) (\<lambda>q. Ok (Some q)) else Err NotADirectoryKind
      | Inl e \<Rightarrow> if e = NotFoundKind then Ok None else Err e)"

text \<open>A name with something appended, as \<open>OsString::push\<close> does.\<close>

definition with_suffix :: "path \<Rightarrow> string \<Rightarrow> path" where
  "with_suffix p s = butlast p @ [last p @ s]"

definition lock_path :: "path \<Rightarrow> path" where
  "lock_path p = with_suffix p ''.lock''"

definition validate_existing_private_file :: "path \<Rightarrow> storage_fs \<Rightarrow> unit io_result" where
  "validate_existing_private_file p fs =
     (case map_of fs p of
        None \<Rightarrow> Ok ()
      | Some n \<Rightarrow>
          (case in_kind n of
             KLink \<Rightarrow> Err OtherKind
           | KDir \<Rightarrow> Err OtherKind
           | KSocket \<Rightarrow> Err OtherKind
           | _ \<Rightarrow> validate_mode (in_mode n)))"

definition validate_private_sidecars :: "path \<Rightarrow> storage_fs \<Rightarrow> unit io_result" where
  "validate_private_sidecars p fs =
     foldR (\<lambda>s _. validate_existing_private_file (with_suffix p s) fs) [''-wal'', ''-shm''] ()"

definition validate_existing_storage :: "storage_env \<Rightarrow> path \<Rightarrow> storage_fs \<Rightarrow> unit io_result" where
  "validate_existing_storage E p fs =
     bindR (canonical_existing_storage_path E p fs) (\<lambda>q.
       case q of
         None \<Rightarrow> Ok ()
       | Some p \<Rightarrow>
           bindR (validate_existing_private_file p fs) (\<lambda>_.
           bindR (validate_existing_private_file (lock_path p) fs) (\<lambda>_.
             validate_private_sidecars p fs)))"

definition storage_create_dir :: "storage_env \<Rightarrow> path \<Rightarrow> storage_fs \<Rightarrow> storage_fs io_result" where
  "storage_create_dir E p fs =
     (case stat E p fs of
        Inr n \<Rightarrow> if in_kind n = KDir then Ok fs else Err AlreadyExistsKind
      | Inl e \<Rightarrow> if e = NotFoundKind then make_dirs E p fs else Err e)"

text \<open>The file is created when it is missing; a file that is there stays as it is.\<close>

definition open_private_file :: "storage_env \<Rightarrow> path \<Rightarrow> storage_fs \<Rightarrow> storage_fs io_result" where
  "open_private_file E p fs =
     (let fs = (if map_of fs p = None then add_node E p (KFile []) 384 fs else fs)
      in bindR (validate_existing_private_file p fs) (\<lambda>_. Ok fs))"

datatype SqliteProviderError = Filesystem ErrorKind | Lock | Open

text \<open>From the canonical path on: the database file, the lock and the connection.\<close>

definition open_database :: "storage_env \<Rightarrow> path \<Rightarrow> storage_fs \<Rightarrow> (SqliteProviderError + path) \<times> storage_fs" where
  "open_database E p fs =
     (case open_private_file E p fs of
        Inl e \<Rightarrow> (Err (Filesystem e), fs)
      | Inr fs \<Rightarrow>
          (case open_private_file E (lock_path p) fs of
             Inl e \<Rightarrow> (Err (Filesystem e), fs)
           | Inr fs \<Rightarrow>
               (if \<not> se_try_lock E (lock_path p) then (Err Lock, fs)
                else case se_connect E p fs of
                  None \<Rightarrow> (Err Open, fs)
                | Some fs \<Rightarrow> (bindR (map_err Filesystem (validate_private_sidecars p fs)) (\<lambda>_. Ok p), fs))))"

definition open_storage :: "storage_env \<Rightarrow> path \<Rightarrow> storage_fs \<Rightarrow> (SqliteProviderError + path) \<times> storage_fs" where
  "open_storage E requested fs =
     (case bindR (reject_link_components E (ancestors (butlast requested)) fs) (\<lambda>_.
             storage_create_dir E (butlast requested) fs) of
        Inl e \<Rightarrow> (Err (Filesystem e), fs)
      | Inr fs \<Rightarrow>
          (case bindR (canonical_storage_path E requested fs) (\<lambda>p.
                  bindR (validate_existing_storage E p fs) (\<lambda>_. Ok p)) of
             Inl e \<Rightarrow> (Err (Filesystem e), fs)
           | Inr p \<Rightarrow> open_database E p fs))"

section \<open>A new home\<close>

definition home_private_permissions :: "storage_env \<Rightarrow> path \<Rightarrow> storage_fs \<Rightarrow> unit io_result" where
  "home_private_permissions E p fs = bindR (stat E p fs) (\<lambda>n. validate_mode (in_mode n))"

definition home_create_dir :: "storage_env \<Rightarrow> path \<Rightarrow> storage_fs \<Rightarrow> storage_fs io_result" where
  "home_create_dir E p fs =
     (case stat E p fs of
        Inr n \<Rightarrow>
          if in_kind n = KDir then bindR (home_private_permissions E p fs) (\<lambda>_. Ok fs) else Err AlreadyExistsKind
      | Inl e \<Rightarrow>
          if e = NotFoundKind
          then bindR (make_dirs E p fs) (\<lambda>fs. bindR (home_private_permissions E p fs) (\<lambda>_. Ok fs))
          else Err e)"

definition write_if_missing :: "storage_env \<Rightarrow> path \<Rightarrow> string \<Rightarrow> storage_fs \<Rightarrow> storage_fs io_result" where
  "write_if_missing E p contents fs =
     (if map_of fs p = None then Ok (add_node E p (KFile contents) 384 fs)
      else bindR (home_private_permissions E p fs) (\<lambda>_. Ok fs))"

text \<open>The steps that change the file system: the directories, then the embedded defaults.\<close>

definition home_dirs :: "path \<Rightarrow> path list" where
  "home_dirs base = [base, base @ [''data''], base @ [''data'', ''artifacts''], base @ [''run'']]"

definition home_files :: "(string \<Rightarrow> string) \<Rightarrow> path \<Rightarrow> (path \<times> string) list" where
  "home_files embedded base =
     map (\<lambda>(name, source). (base @ [name], embedded source))
       [(''config.json'', ''patchouli.default.json''), (''providers.json'', ''providers.local.json''),
        (''patchouli.schema.json'', ''patchouli.schema.json''), (''providers.schema.json'', ''providers.schema.json'')]"

definition make_home :: "storage_env \<Rightarrow> (string \<Rightarrow> string) \<Rightarrow> path \<Rightarrow> storage_fs \<Rightarrow> storage_fs io_result" where
  "make_home E embedded base fs =
     bindR (foldR (home_create_dir E) (home_dirs base) fs) (\<lambda>fs.
       foldR (\<lambda>(p, contents). write_if_missing E p contents) (home_files embedded base) fs)"

datatype InitError = InitIo ErrorKind | InitPolicy ConfigError | InitProviders ProviderConfigError | InitUnreachable

definition read_to_string :: "path \<Rightarrow> storage_fs \<Rightarrow> string io_result" where
  "read_to_string p fs =
     bindR (ok_or (map_of fs p) NotFoundKind) (\<lambda>n. case in_kind n of KFile contents \<Rightarrow> Ok contents | _ \<Rightarrow> Err OtherKind)"

definition check_home ::
  "storage_env \<Rightarrow> 'w load_env \<Rightarrow> 'u url_env \<Rightarrow> config_env \<Rightarrow> (path \<Rightarrow> string \<Rightarrow> path) \<Rightarrow> path \<Rightarrow> storage_fs \<Rightarrow> InitError + unit" where
  "check_home E L U C resolve base fs =
     bindR (map_err InitIo (read_to_string (base @ [''config.json'']) fs)) (\<lambda>policy_text.
     bindR (map_err InitPolicy (config_from_json C policy_text)) (\<lambda>policy.
     bindR (map_err InitIo (read_to_string (base @ [''providers.json'']) fs)) (\<lambda>providers_text.
     bindR (map_err InitProviders (provider_config_from_json L U C providers_text policy)) (\<lambda>providers.
     bindR (case map_of (pc_providers providers) ''local'' of
              Some (Local database) \<Rightarrow> Ok database
            | _ \<Rightarrow> Err InitUnreachable) (\<lambda>database.
       map_err InitIo (validate_existing_storage E (resolve base database) fs))))))"

definition initialize_home ::
  "storage_env \<Rightarrow> (string \<Rightarrow> string) \<Rightarrow> 'w load_env \<Rightarrow> 'u url_env \<Rightarrow> config_env \<Rightarrow> (path \<Rightarrow> string \<Rightarrow> path) \<Rightarrow> path \<Rightarrow> storage_fs
   \<Rightarrow> InitError + storage_fs" where
  "initialize_home E embedded L U C resolve base fs =
     bindR (map_err InitIo (make_home E embedded base fs)) (\<lambda>fs.
     bindR (check_home E L U C resolve base fs) (\<lambda>_. Ok fs))"

section \<open>The socket of the server\<close>

definition delete_node :: "path \<Rightarrow> storage_fs \<Rightarrow> storage_fs" where
  "delete_node p fs = tbl_delete (\<lambda>q _. q = p) fs"

definition clear_socket :: "storage_env \<Rightarrow> path \<Rightarrow> storage_fs \<Rightarrow> storage_fs io_result" where
  "clear_socket E p fs =
     (case map_of fs p of
        None \<Rightarrow> Ok fs
      | Some n \<Rightarrow>
          if in_kind n \<noteq> KSocket then Err InvalidInputKind
          else case se_probe E p (in_number n) of
            ProbeAccepted \<Rightarrow> Err AlreadyExistsKind
          | ProbeDead \<Rightarrow> Ok (delete_node p fs)
          | ProbeFailed e \<Rightarrow> Err e)"

text \<open>A missing directory for the socket: the created ones get the default mode, the last one 0700.\<close>

definition set_mode :: "path \<Rightarrow> nat \<Rightarrow> storage_fs \<Rightarrow> storage_fs" where
  "set_mode p mode fs = map (\<lambda>(q, n). (q, if q = p then n\<lparr>in_mode := mode\<rparr> else n)) fs"

definition default_dirs :: "storage_env \<Rightarrow> path \<Rightarrow> storage_fs \<Rightarrow> storage_fs io_result" where
  "default_dirs E p fs =
     bindR (foldR (make_dir E (se_default_dir_mode E)) (ancestors p) fs) (\<lambda>fs. Ok (set_mode p 448 fs))"

definition socket_parent :: "storage_env \<Rightarrow> path \<Rightarrow> storage_fs \<Rightarrow> storage_fs io_result" where
  "socket_parent E parent fs =
     (if parent = [] then Ok fs
      else case stat E parent fs of
        Inr _ \<Rightarrow> Ok fs
      | Inl e \<Rightarrow> if e = NotFoundKind then default_dirs E parent fs else Err e)"

definition prepare_socket_path :: "storage_env \<Rightarrow> path \<Rightarrow> storage_fs \<Rightarrow> storage_fs io_result" where
  "prepare_socket_path E p fs = bindR (clear_socket E p fs) (socket_parent E (butlast p))"

text \<open>The listener with its guard, the identity of its socket.\<close>

record Listener =
  ls_path :: path
  ls_number :: nat

definition bind_listener :: "storage_env \<Rightarrow> path \<Rightarrow> storage_fs \<Rightarrow> (Listener \<times> storage_fs) io_result" where
  "bind_listener E p fs =
     bindR (prepare_socket_path E p fs) (\<lambda>fs.
       if map_of fs p \<noteq> None then Err AlreadyExistsKind
       else Ok (\<lparr>ls_path = p, ls_number = fresh_number fs\<rparr>, add_node E p KSocket 384 fs))"

definition drop_listener :: "Listener \<Rightarrow> storage_fs \<Rightarrow> storage_fs" where
  "drop_listener l fs =
     (case map_of fs (ls_path l) of
        Some n \<Rightarrow> if in_kind n = KSocket \<and> in_number n = ls_number l then delete_node (ls_path l) fs else fs
      | None \<Rightarrow> fs)"

section \<open>Nothing is overwritten and what is new is private\<close>

definition keeps :: "storage_env \<Rightarrow> storage_fs \<Rightarrow> storage_fs \<Rightarrow> bool" where
  "keeps E fs fs' \<longleftrightarrow>
     (\<forall>p n. map_of fs p = Some n \<longrightarrow> map_of fs' p = Some n)
     \<and> (\<forall>p n. map_of fs p = None \<longrightarrow> map_of fs' p = Some n \<longrightarrow> in_owner n = se_euid E \<and> is_private (in_mode n))"

lemma keeps_refl: "keeps E fs fs"
  by (simp add: keeps_def)

lemma keeps_trans: "keeps E a b \<Longrightarrow> keeps E b c \<Longrightarrow> keeps E a c"
  unfolding keeps_def by (metis not_None_eq)

lemma keeps_add: "is_private mode \<Longrightarrow> map_of fs p = None \<Longrightarrow> keeps E fs (add_node E p kind mode fs)"
  by (auto simp: keeps_def add_node_def map_add_def split: if_splits option.splits)

lemma private_modes [simp]: "is_private 448" "is_private 384"
  by (simp_all add: is_private_def)

lemma make_dir_keeps: "make_dir E mode p fs = Inr fs' \<Longrightarrow> is_private mode \<Longrightarrow> keeps E fs fs'"
  by (auto simp: make_dir_def keeps_refl bindR_eq_Inr intro: keeps_add split: option.splits if_splits)

lemma make_dirs_keeps: "make_dirs E p fs = Inr fs' \<Longrightarrow> keeps E fs fs'"
  unfolding make_dirs_def by (rule foldR_relates[where R = "keeps E"]) (auto intro: keeps_refl keeps_trans make_dir_keeps)

lemma storage_create_dir_keeps: "storage_create_dir E p fs = Inr fs' \<Longrightarrow> keeps E fs fs'"
  by (auto simp: storage_create_dir_def keeps_refl intro: make_dirs_keeps split: sum.splits if_splits)

lemma home_create_dir_keeps: "home_create_dir E p fs = Inr fs' \<Longrightarrow> keeps E fs fs'"
  by (auto simp: home_create_dir_def keeps_refl bindR_eq_Inr intro: make_dirs_keeps split: sum.splits if_splits)

lemma write_if_missing_keeps: "write_if_missing E p contents fs = Inr fs' \<Longrightarrow> keeps E fs fs'"
  by (auto simp: write_if_missing_def keeps_refl bindR_eq_Inr intro: keeps_add split: if_splits)

definition private_file :: "storage_fs \<Rightarrow> path \<Rightarrow> bool" where
  "private_file fs p \<longleftrightarrow> (\<exists>n. map_of fs p = Some n \<and> is_private (in_mode n) \<and> in_kind n \<notin> {KLink, KDir, KSocket})"

lemma private_file_keeps: "keeps E fs fs' \<Longrightarrow> private_file fs p \<Longrightarrow> private_file fs' p"
  unfolding keeps_def private_file_def by blast

lemma open_private_file_Ok:
  assumes "open_private_file E p fs = Inr fs'"
  shows "keeps E fs fs'" "private_file fs' p"
proof -
  have "map_of fs' p \<noteq> None"
    using assms by (auto simp: open_private_file_def Let_def bindR_eq_Inr add_node_def map_add_def split: if_splits option.splits)
  with assms show "keeps E fs fs'" "private_file fs' p"
    by (auto simp: open_private_file_def private_file_def Let_def bindR_eq_Inr keeps_refl validate_existing_private_file_def validate_mode_def
        intro!: keeps_add split: if_splits option.splits node_kind.splits)
qed

lemma open_database_private:
  assumes "open_database E p fs = (r, fs')" and "\<forall>p a b. se_connect E p a = Some b \<longrightarrow> keeps E a b"
  shows "keeps E fs fs'
    \<and> (\<forall>q. r = Inr q \<longrightarrow> q = p \<and> se_try_lock E (lock_path p) \<and> private_file fs' p \<and> private_file fs' (lock_path p))"
proof (cases "open_private_file E p fs")
  case (Inr fs2)
  note d = open_private_file_Ok[OF Inr]
  show ?thesis
  proof (cases "open_private_file E (lock_path p) fs2")
    case lock: (Inr fs3)
    note l = open_private_file_Ok[OF lock]
    have "keeps E fs3 fs' \<and> (\<forall>q. r = Inr q \<longrightarrow> q = p \<and> se_try_lock E (lock_path p))"
      using assms by (auto simp: open_database_def Inr lock keeps_refl bindR_eq_Inr split: if_splits option.splits)
    with d l show ?thesis by (blast intro: keeps_trans private_file_keeps)
  qed (use assms(1) Inr d in \<open>auto simp: open_database_def\<close>)
qed (use assms(1) in \<open>auto simp: open_database_def keeps_refl\<close>)

lemma make_home_keeps:
  assumes "make_home E embedded base fs = Inr fs'" shows "keeps E fs fs'"
proof -
  from assms obtain fs1 where d: "foldR (home_create_dir E) (home_dirs base) fs = Inr fs1"
    "foldR (\<lambda>(p, contents). write_if_missing E p contents) (home_files embedded base) fs1 = Inr fs'"
    by (auto simp: make_home_def bindR_eq_Inr)
  have "keeps E fs fs1"
    by (rule foldR_relates[where R = "keeps E", OF d(1)]) (auto intro: keeps_refl keeps_trans home_create_dir_keeps)
  moreover have "keeps E fs1 fs'"
    by (rule foldR_relates[where R = "keeps E", OF d(2)]) (auto intro: keeps_refl keeps_trans write_if_missing_keeps)
  ultimately show ?thesis by (rule keeps_trans)
qed

text \<open>Creating a home keeps every file that is there, and creates private nodes only.\<close>

theorem initialize_home_keeps:
  "initialize_home E embedded L U C resolve base fs = Inr fs' \<Longrightarrow> keeps E fs fs'"
  by (auto simp: initialize_home_def bindR_eq_Inr intro: make_home_keeps)

text \<open>Opening the storage, given that the SQLite library does so, keeps every node and creates private ones only,
  also when it fails; and a storage that was opened has a private database and a private lock file, neither of
  them a link, and the lock is held.\<close>

theorem open_storage_private:
  assumes "open_storage E requested fs = (r, fs')" and "\<forall>p a b. se_connect E p a = Some b \<longrightarrow> keeps E a b"
  shows "keeps E fs fs'
    \<and> (\<forall>p. r = Inr p \<longrightarrow> se_try_lock E (lock_path p) \<and> private_file fs' p \<and> private_file fs' (lock_path p))"
proof (cases "bindR (reject_link_components E (ancestors (butlast requested)) fs) (\<lambda>_.
    storage_create_dir E (butlast requested) fs)")
  case (Inr fs1)
  then have k: "keeps E fs fs1" by (auto simp: bindR_eq_Inr intro: storage_create_dir_keeps)
  show ?thesis
  proof (cases "bindR (canonical_storage_path E requested fs1) (\<lambda>p. bindR (validate_existing_storage E p fs1) (\<lambda>_. Ok p))")
    case p: (Inr p)
    from assms(1) Inr p have "open_database E p fs1 = (r, fs')" by (simp add: open_storage_def)
    from open_database_private[OF this assms(2)] k show ?thesis by (blast intro: keeps_trans)
  qed (use assms(1) Inr k in \<open>auto simp: open_storage_def\<close>)
qed (use assms(1) in \<open>auto simp: open_storage_def keeps_refl\<close>)

text \<open>The server takes a socket path only when nobody listens there, touches no other node that exists
  but the directory of the socket, and on its way out removes its own socket and never another daemon's.\<close>

lemma delete_node_lookup [simp]: "map_of (delete_node p fs) q = (if q = p then None else map_of fs q)"
  by (induction fs) (auto simp: delete_node_def tbl_delete_def)

lemma clear_socket_Ok:
  assumes "clear_socket E p fs = Inr g"
  shows "map_of g p = None" "q \<noteq> p \<Longrightarrow> map_of g q = map_of fs q"
    "map_of fs p = Some n \<Longrightarrow> in_kind n = KSocket \<and> se_probe E p (in_number n) = ProbeDead"
  using assms by (auto simp: clear_socket_def split: option.splits if_splits socket_probe.splits)

lemma make_dir_extends: "make_dir E mode p fs = Inr fs' \<Longrightarrow> map_of fs q = Some n \<Longrightarrow> map_of fs' q = Some n"
  by (auto simp: make_dir_def add_node_def map_add_def bindR_eq_Inr split: option.splits if_splits)

lemma set_mode_lookup: "q \<noteq> p \<Longrightarrow> map_of (set_mode p mode fs) q = map_of fs q"
  by (induction fs) (auto simp: set_mode_def)

lemma default_dirs_extends:
  assumes "default_dirs E p fs = Inr fs'" "q \<noteq> p" "map_of fs q = Some n"
  shows "map_of fs' q = Some n"
proof -
  from assms(1) obtain g where g: "foldR (make_dir E (se_default_dir_mode E)) (ancestors p) fs = Inr g" "fs' = set_mode p 448 g"
    by (auto simp: default_dirs_def bindR_eq_Inr)
  from g(1) have "map_of g q = Some n"
    by (rule foldR_invariant[where P = "\<lambda>fs. map_of fs q = Some n"]) (use assms(3) make_dir_extends in auto)
  with g(2) assms(2) show ?thesis by (simp add: set_mode_lookup)
qed

lemma socket_parent_extends:
  "socket_parent E parent fs = Inr fs' \<Longrightarrow> q \<noteq> parent \<Longrightarrow> map_of fs q = Some n \<Longrightarrow> map_of fs' q = Some n"
  by (auto simp: socket_parent_def intro: default_dirs_extends split: sum.splits if_splits)

theorem listener_owns_its_socket:
  assumes "bind_listener E p fs = Inr (l, fs')"
  shows "(\<forall>n. map_of fs p = Some n \<longrightarrow> in_kind n = KSocket \<and> se_probe E p (in_number n) = ProbeDead)
    \<and> (\<forall>q n. q \<noteq> p \<and> q \<noteq> butlast p \<longrightarrow> map_of fs q = Some n \<longrightarrow> map_of fs' q = Some n)
    \<and> map_of (drop_listener l fs') p = None
    \<and> (\<forall>fs2 n. map_of fs2 p = Some n \<and> in_number n \<noteq> ls_number l \<longrightarrow> drop_listener l fs2 = fs2)"
proof -
  from assms obtain g h where g: "clear_socket E p fs = Inr g" "socket_parent E (butlast p) g = Inr h" "map_of h p = None"
    and l: "l = \<lparr>ls_path = p, ls_number = fresh_number h\<rparr>" and fs': "fs' = add_node E p KSocket 384 h"
    by (auto simp: bind_listener_def prepare_socket_path_def bindR_eq_Inr split: if_splits)
  have "map_of fs' q = Some n" if "q \<noteq> p" "q \<noteq> butlast p" "map_of fs q = Some n" for q n
    using clear_socket_Ok(2)[OF g(1) that(1)] socket_parent_extends[OF g(2) that(2), of n] that(3)
    by (simp add: fs' add_node_def map_add_def)
  moreover have "map_of (drop_listener l fs') p = None"
    using g(3) by (simp add: drop_listener_def l fs' add_node_def map_add_def)
  moreover have "drop_listener l fs2 = fs2" if "map_of fs2 p = Some n" "in_number n \<noteq> ls_number l" for fs2 n
    using that by (simp add: drop_listener_def l)
  ultimately show ?thesis using clear_socket_Ok(3)[OF g(1)] by blast
qed

end
