(* ===== verification/Command_Line.thy ===== *)
theory Command_Line
  imports Local_Client Server_Main Storage_Files
begin

text \<open>
  The commands of \<open>crates/server/src/main.rs\<close> other than \<open>init\<close>, which is \<open>initialize_home\<close>: \<open>serve\<close> from the
  files of the command line to the running daemon, \<open>provide\<close>, the control commands, and \<open>config check\<close>. Parsing of
  arguments and printing of results are left out; \<open>load_env\<close> reads files and environment variables.
\<close>

datatype CliError =
    CliIo
  | CliConfig ConfigError
  | CliProviders ProviderConfigError
  | CliServer ServerError
  | CliIpc IpcError
  | CliProvide ProvideError
  | CliTokenMissing

section \<open>Commands\<close>

definition read_config :: "'w load_env \<Rightarrow> config_env \<Rightarrow> string \<Rightarrow> CliError + BackendConfig" where
  "read_config L C path =
     bindR (ok_or (le_read_to_string L path) CliIo) (\<lambda>input. map_err CliConfig (config_from_json C input))"

definition config_check ::
  "'w load_env \<Rightarrow> 'u url_env \<Rightarrow> config_env \<Rightarrow> string \<Rightarrow> string option \<Rightarrow> CliError + unit" where
  "config_check L U C path providers =
     bindR (read_config L C path) (\<lambda>config.
       case providers of
         None \<Rightarrow> Ok ()
       | Some providers \<Rightarrow>
           bindR (ok_or (le_read_to_string L providers) CliIo) (\<lambda>provider_input.
           bindR (map_err CliProviders (provider_config_from_json L U C provider_input config)) (\<lambda>_. Ok ())))"

text \<open>The engine gets the configuration and the loaded router, as the provider \<open>object_of\<close> makes of it; the
  result is \<open>None\<close> while the daemon runs.\<close>

definition serve_main ::
  "'w load_env \<Rightarrow> 'u url_env \<Rightarrow> config_env \<Rightarrow> 'b wire_env \<Rightarrow> ('u, 'b, 'w) http_env \<Rightarrow> ('u provider_instance \<Rightarrow> 'q Provider)
   \<Rightarrow> (RoutingProvider \<Rightarrow> 'u provider_instance list \<Rightarrow> nat \<Rightarrow> 'w Provider) \<Rightarrow> ('w, 'd) engine_env
   \<Rightarrow> bool \<Rightarrow> ArtifactStoreError + 'm ArtifactStore \<Rightarrow> (nat list \<Rightarrow> nat list) \<Rightarrow> run_event list
   \<Rightarrow> string \<Rightarrow> string \<Rightarrow> 'w \<Rightarrow> ((CliError + unit) \<times> 'w) option" where
  "serve_main L U C K H methods object_of En listening store order events config providers w =
     (case read_config L C config of
        Inl e \<Rightarrow> Some (Err e, w)
      | Inr config \<Rightarrow>
          (case load_provider L U C K H methods providers config w of
             (Inl e, w) \<Rightarrow> Some (Err (CliProviders e), w)
           | (Inr (router, insts), w) \<Rightarrow>
               map_option (\<lambda>(r, w). (map_err CliServer r, w))
                 (serve_command (En\<lparr>en_config := config, en_ops := object_of router insts\<rparr>) listening store order events w)))"

definition provide_main ::
  "'w load_env \<Rightarrow> 'p Provider \<Rightarrow> string \<Rightarrow> string \<Rightarrow> nat \<Rightarrow> bool \<Rightarrow> bool \<Rightarrow> bool \<Rightarrow> 'p \<Rightarrow> (CliError + unit) \<times> 'p" where
  "provide_main L P kind token_env change_retention_seconds opened listening served p =
     (case le_var L token_env of
        None \<Rightarrow> (Err CliTokenMissing, p)
      | Some token \<Rightarrow>
          (case serve_provider P kind token change_retention_seconds opened listening served p of
             (r, p) \<Rightarrow> (map_err CliProvide r, p)))"

definition status_command ::
  "'e client_env \<Rightarrow> (Value \<Rightarrow> 'a option) \<Rightarrow> (Value \<Rightarrow> 'h option) \<Rightarrow> client_input list option \<Rightarrow> Value \<Rightarrow> CliError + 'a" where
  "status_command E decode decode_handshake stream params =
     map_err CliIpc (bindR (client_connect E decode_handshake stream params) (\<lambda>client. fst (client_status E decode client)))"

definition checkpoint_command ::
  "'e client_env \<Rightarrow> (Value \<Rightarrow> 'a option) \<Rightarrow> (Value \<Rightarrow> 'h option) \<Rightarrow> client_input list option \<Rightarrow> Value \<Rightarrow> CliError + 'a" where
  "checkpoint_command E decode decode_handshake stream params =
     map_err CliIpc (bindR (client_connect E decode_handshake stream params) (\<lambda>client. fst (client_checkpoint E decode client)))"

definition stop_command ::
  "'e client_env \<Rightarrow> (Value \<Rightarrow> 'a option) \<Rightarrow> (Value \<Rightarrow> 'h option) \<Rightarrow> client_input list option \<Rightarrow> Value \<Rightarrow> CliError + 'a" where
  "stop_command E decode decode_handshake stream params =
     map_err CliIpc (bindR (client_connect E decode_handshake stream params) (\<lambda>client. fst (client_shutdown E decode client)))"

section \<open>What \<open>config check\<close> promises of \<open>serve\<close>\<close>

lemma config_check_Ok:
  "config_check L U C path (Some providers) = Inr () \<longleftrightarrow>
     (\<exists>config input pconfig. read_config L C path = Inr config \<and> le_read_to_string L providers = Some input
        \<and> le_from_str L input = Some pconfig \<and> validate_provider_config U C config pconfig = Inr ())"
  by (auto simp: config_check_def provider_config_from_json_def bindR_eq_Inr split: option.splits)

text \<open>Files that \<open>config check\<close> accepts bring \<open>serve\<close> to the construction of the providers they describe: from there on
  it fails only where a provider cannot be opened, or where the running daemon fails. Files that it
  refuses stop \<open>serve\<close> before it opens, connects to or starts anything.\<close>

theorem config_check_decides_serve:
  assumes "\<forall>input config. le_from_str L input = Some config \<longrightarrow> distinct (map fst (pc_providers config))"
  shows "if config_check L U C path (Some providers) = Inr ()
    then \<exists>config input pconfig. read_config L C path = Inr config \<and> le_read_to_string L providers = Some input
        \<and> le_from_str L input = Some pconfig \<and> provider_config_wf U C config pconfig
        \<and> (case construct_providers L U K H (config_base L providers) (pc_providers pconfig) [] w of
             (Inl e, w') \<Rightarrow>
               serve_main L U C K H methods object_of En listening store order events path providers w =
                 Some (Inl (CliProviders e), w')
           | (Inr insts, w') \<Rightarrow>
               \<exists>R. describes L U providers pconfig R insts
                 \<and> serve_main L U C K H methods object_of En listening store order events path providers w =
                   map_option (\<lambda>(r, w). (map_err CliServer r, w))
                     (serve_command (En\<lparr>en_config := config, en_ops := object_of R insts\<rparr>) listening store order events w'))
    else \<exists>e. serve_main L U C K H methods object_of En listening store order events path providers w = Some (Inl e, w)"
proof (cases "config_check L U C path (Some providers) = Inr ()")
  case True
  then obtain config input pconfig where c: "read_config L C path = Inr config"
    and d: "le_read_to_string L providers = Some input" "le_from_str L input = Some pconfig"
    and v: "validate_provider_config U C config pconfig = Inr ()" unfolding config_check_Ok by blast
  have wf: "provider_config_wf U C config pconfig"
    using v validate_provider_config_Ok[OF assms[rule_format, OF d(2)]] by blast
  obtain built w' where b: "construct_providers L U K H (config_base L providers) (pc_providers pconfig) [] w = (built, w')"
    by fastforce
  note load = load_decoded[OF d, of U C K H methods config w, unfolded v b]
  show ?thesis
  proof (cases built)
    case (Inl e)
    with True c d wf b load show ?thesis by (auto simp: serve_main_def)
  next
    case (Inr insts)
    from loaded_router[OF wf b[unfolded Inr], of methods] obtain R where
      "routing_new (\<lambda>a. methods (insts ! a)) (named_providers pconfig) (pr_default (pc_routing pconfig))
        (pr_rules (pc_routing pconfig)) = Inr R" "describes L U providers pconfig R insts" by blast
    with True c d wf b load Inr show ?thesis by (auto simp: serve_main_def)
  qed
next
  case False
  show ?thesis
  proof (cases "read_config L C path")
    case (Inr config)
    with False have "\<exists>e. load_provider L U C K H methods providers config w = (Inl e, w)"
      by (cases "Option.bind (le_read_to_string L providers) (le_from_str L)")
        (auto simp: config_check_Ok load_provider_def provider_config_from_json_def bindR_def ok_or_def
          split: sum.splits option.splits bind_splits)
    with False Inr show ?thesis by (auto simp: serve_main_def)
  qed (use False in \<open>auto simp: serve_main_def\<close>)
qed

end
