(* ===== verification/Spec2Isabelle.thy ===== *)
theory Spec2Isabelle
  imports Provider_Router Engine_Capabilities Execution_Locks Change_Streams Query_Walks Artifact_Transfers Server_Session
    Command_Line
begin

text \<open>
  A verification development for Patchouli, a store for versioned entities with configurable
  consistency, conflict handling and publication, written in Rust. Paths below are relative to
  \<open>src/crates\<close>.

  \<^bold>\<open>The program.\<close> A client speaks line-delimited JSON-RPC to a server (\<open>server\<close>). After a handshake the server
  passes requests to the backend engine (\<open>backend\<close>) and keeps artifact files itself. The engine selects a
  policy for the request from the configuration and its metadata (\<open>config.rs\<close>, \<open>controller.rs\<close>), serializes
  requests that share control keys, reads and prepares versions, resolves conflicts (\<open>conflict.rs\<close>) and
  calls a provider (\<open>provider\<close>): the SQLite provider (\<open>provider-sqlite\<close>), a router over several
  providers (\<open>provider-router\<close>) or a remote one (\<open>provider-remote\<close>). The provider stores versions, heads,
  a change log, idempotency records and work units (batches that are published at once).

  \<^bold>\<open>The theories.\<close>
  \<^item> \<open>Patchouli_Prelude\<close>: results (\<open>bindR\<close>, \<open>foldR\<close>, \<open>mapR\<close>), the 64-bit arithmetic the code uses, tables as
    association lists with the SQL statements on them, and the collections of simplification rules.
  \<^item> \<open>Provider_Types\<close>, \<open>Provider_Interface\<close>: the data of the \<open>Provider\<close> trait; the trait as a record of
    operations over a state; the abstract store of entities and the contract \<open>entity_store\<close>.
  \<^item> \<open>Json_Values\<close>: \<open>serde_json\<close> values, its ordered maps, and its parser and printer as parameters.
  \<^item> \<open>Sqlite_Tables\<close>, \<open>Sqlite_Commit\<close>, \<open>Sqlite_Consistency\<close>, \<open>Sqlite_Work_Units\<close>, \<open>Retrieval\<close>,
    \<open>Sqlite_Provider\<close>: the SQLite provider. The database is a record with a table per SQL table; a
    transaction is a function that returns its result and the new database, or the old one when it is
    rolled back.
  \<^item> \<open>Work_Unit_Storage\<close>, \<open>Work_Unit_Isolation\<close>, \<open>Statement_Frames\<close>, \<open>Provider_Runs\<close>, \<open>Retrieval_Pages\<close>,
    \<open>Sqlite_Store\<close>: its proofs. \<open>writing_frame\<close> is the contract of a relation that every single
    statement but the pruning of the change log satisfies, \<open>statement_frame\<close> includes pruning; what satisfies them
    holds for every transaction, and (\<open>process_frame\<close>, \<open>provider_frame\<close>) for every step and every run of
    calls, failures, crashes and restarts. They are interpreted by the life cycle of work units, the frontiers,
    the idempotency records, the change log, what it keeps or reports as pruned, what is appended to it, and its
    coverage of the history.
  \<^item> \<open>Provider_Router\<close>: the router, over a heap of providers addressed as \<open>Arc\<close>s are.
  \<^item> \<open>Backend_Model\<close>, \<open>Backend_Config\<close>, \<open>Policy_Selection\<close>, \<open>Crdt_Values\<close>, \<open>Conflict_Resolution\<close>: requests and
    errors, the validation of configurations, policy selection, mergeable values, conflict resolution.
  \<^item> \<open>Engine_Plans\<close>, \<open>Query_Parsing\<close>, \<open>Backend_Engine\<close>: the engine. A handler is a function of the provider's
    state; the numbered call sites let other requests run before each provider call.
  \<^item> \<open>Engine_Capabilities\<close>, \<open>Engine_Mutations\<close>, \<open>Engine_Sqlite\<close>, \<open>Query_Walks\<close>, \<open>Change_Streams\<close>,
    \<open>Execution_Locks\<close>: its proofs. \<open>engine_store\<close> is what the handlers need of a provider, interpreted by the
    SQLite provider under any interference. The execution guards are tasks and locks with a
    step relation of their own.
  \<^item> \<open>Request_Frames\<close>, \<open>Artifact_Store\<close>, \<open>Artifact_Transfers\<close>, \<open>Server_Session\<close>: the server: reading requests
    from a connection, the artifact files, and the loop of a connection with every method (\<open>server/src/lib.rs\<close>,
    \<open>artifact_store.rs\<close>).
  \<^item> \<open>Remote_Provider\<close>, \<open>Remote_Links\<close>: \<open>provider-remote\<close>. The client is a \<open>RemoteProvider\<close> record with the methods of the
    trait (\<open>remote_ops\<close>), the server a function from HTTP requests to responses (\<open>serve_request\<close>) over the provider it
    serves. \<open>Remote_Links\<close> joins the two by a network that is reliable or loses requests and answers.
  \<^item> \<open>Provider_Configuration\<close>: \<open>server/src/provider_config.rs\<close>: validation of the provider configuration against the
    backend's, and the construction of the providers and of the router.
  \<^item> \<open>Local_Client\<close>: \<open>LocalClient\<close> of \<open>server/src/lib.rs\<close> over the lines of its connection, and the task of the server that
    writes events.
  \<^item> \<open>Server_Main\<close>, \<open>Storage_Files\<close>, \<open>Command_Line\<close>: the daemons and commands (\<open>LocalServer::run\<close>, \<open>main.rs\<close>) and the files
    they live on: storage and its locks, homes, sockets (\<open>transport.rs\<close>, \<open>SqliteProvider::open\<close>).

  \<^bold>\<open>What is shown.\<close>
  \<^item> Commits are atomic compare-and-set operations without lost updates, and are read back (C1, C21).
  \<^item> Reads are available, respect sessions and causality across any run; idempotent commits apply once (C5,
    C6, C14, C15).
  \<^item> Along any run the change log only loses what a pruning read drops and gains rows at its end; what was ever
    pruned is reported to a reader that has not passed it; a subscription delivers every change
    of its scope exactly once and in order under any interleaving (C8, C17, C38).
  \<^item> Work units are isolated, published atomically onto an unmoved baseline, expire completely and only move forward (C9 to C12, C16).
  \<^item> The storage invariant holds in every reachable state (C13); unclean shutdowns are detected
    (\<open>unclean_shutdown_detected\<close>).
  \<^item> Retrieval returns exactly what matches (C20). Paging with cursors ends and is complete for every order that
    ignores the score (C39); by relevance over indexed texts it is not, since JSON may not read a score back exactly
    (\<open>relevance_walk_can_repeat\<close>).
  \<^item> Routing is total, keeps atomic operations on one provider, starts all providers or none, stops all, and
    refines the abstract store (C22, C23, C25, C26). The router that a validated provider configuration is
    loaded into is the one it describes (C3).
  \<^item> A remote provider is the provider it serves for calls within the body limit of the server and up to the rounding of
    scores (C24), retrying an idempotent commit over lossy networks is
    safe (C2), and without its token nothing is learned or changed (C18).
  \<^item> Validation accepts exactly the well-formed configurations, selections are scoped, fail for the
    request's reasons only, and need no capability the provider lacks (C27 to C29, C33).
  \<^item> Values survive the merge documents, and resolution keeps stored versions and never panics (C30 to C32).
  \<^item> Creating, updating and deleting through the engine have their effect on the heads and lose no concurrent
    version (C34 to C36); the execution guards exclude and never deadlock (C37).
  \<^item> The server frames requests by lines within its bound, answers each once, does nothing before the
    handshake, and returns the artifact bytes it was given (C7, C19, C40). A client gets the responses to its own
    requests and every notification once and in order (C4).
  \<^item> Beyond the claims: the server stops in order and the provider daemon always stops its provider (\<open>Server_Main\<close>);
    storage files are private, a home is never overwritten, a listener removes only its own socket
    (\<open>Storage_Files\<close>); \<open>config check\<close> decides whether \<open>serve\<close> gets to its providers (\<open>Command_Line\<close>); scalars survive
    the merge documents and stale texts are refused (\<open>Crdt_Values\<close>).

  \<^bold>\<open>Modelling decisions.\<close>
  \<^item> Strings are byte strings; 64-bit integers are natural numbers with the checked, saturating and \<open>i64\<close> bounds
    of the code written out; doubles are ranks of a total order where they are scores and rationals where
    they are JSON numbers. Message texts are dropped in the backend: nothing branches on them.
  \<^item> Code of other crates enters as parameters with named hypotheses where a property relies on them: the JSON
    parser and printer, derived encoders and decoders, \<open>jsonschema\<close>, \<open>automerge\<close>, SHA-256, Base64, the
    full-text functions of SQLite. Clock readings and random identifiers are arguments; a reading before
    the Unix epoch is \<open>None\<close>.
  \<^item> SQL statements fail for violated constraints and integers beyond \<open>i64\<close>, not for I/O. A transaction that is
    dropped leaves the database unchanged. \<open>INSERT OR IGNORE\<close> skips checks and duplicate keys, not foreign keys.
    \<open>read_changes\<close> runs outside a transaction, statement by statement; results of checkpoint pragmas are
    arguments; the full-text index follows the active versions.
  \<^item> A retrieval with limit 0 and the panics of \<open>conflict.rs\<close> are error values; the latter are
    unreachable (C32), the former is refused by the engine.
  \<^item> \<open>wait_for_changes\<close> is one round of its loop and a change stream is one turn: the loops run for as long as
    their client stays. Loops that end are total functions; where a client repeats requests
    (\<open>walk_pages\<close>, \<open>read_frames\<close>, \<open>download\<close>) the number of rounds is a bound in the statement that is proved
    to be enough.
  \<^item> Runs of the provider assume that commits name as heads only versions they bring or expect and
    that the identity of a work unit determines its scope: the engine builds both (C28).
  \<^item> The execution guards change no handler's result: a handler is modelled under any interference, which
    includes the interleavings the guards exclude. Which waiting request gets a free lock is left
    open, and requests may be dropped at any time.
  \<^item> Files of the artifact store are a table by path; links are looked at but not followed, device failures
    do not occur, and a failed start of the store keeps no files table. Files of the storage, homes and sockets have modes,
    owners and identities; \<open>canonicalize\<close> is an argument.
  \<^item> The URL, HTTP and TLS libraries and the network are arguments of the remote provider (\<open>url_env\<close>, \<open>http_env\<close>), as are
    its derived encoders (\<open>wire_env\<close>, with the type of bodies left open). \<open>wire_faithful\<close> states what these libraries
    document: calls survive the wire up to their scores as long as the body is within \<open>axum\<close>'s default limit of two
    megabytes, which the server does not change, and are rejected with 413 beyond it. An exchange without an answer is
    \<open>None\<close>, which is a timeout where the client has one. A link is in one state of the server for a
    call: other calls come before or after it.
  \<^item> The accept loop runs over the list of what happens to it; a list that ends leaves it running (\<open>None\<close>).

  \<^bold>\<open>Not modelled.\<close> The fact types of \<open>fact.rs\<close> and the wire types of \<open>wire.rs\<close> that only the derived encoders look
  at, and the embedded JSON schemas: their behaviour is that of \<open>serde\<close> and \<open>jsonschema\<close>. The variants for Windows (named
  pipes, reparse points). The installation of signal handlers, the parsing of arguments and the printing of results. The
  SQL views and expression indexes nothing in the code reads. The lists and maps of \<open>autosurgeon\<close>. Failures of
  devices. Fairness of the runtime: which ready task runs next is always left open.
\<close>

end
